(* ===== verification/Prelude.thy ===== *)
theory Prelude
  imports Main "HOL-Library.Multiset" "HOL-Library.List_Lexorder" "HOL-Library.Char_ord"
begin

text \<open>
  Shared vocabulary of the development: SQL comparisons with a nullable column, the stable
  comparator sort of JavaScript arrays, and the two interfaces that several components
  share. \<open>js_comparator\<close> is the contract of a function handed to \<open>Array.prototype.sort\<close>;
  \<open>invariant_machine\<close> is the contract of a component whose operations all keep an invariant.
\<close>

named_theorems spec_defs \<open>definitions that proofs of a component unfold\<close>
named_theorems store_simps \<open>rewrite rules about the tables of a store\<close>

subsection \<open>Nullable SQL columns\<close>

text \<open>A comparison with NULL is not true, so the row is not selected.\<close>

definition sql_le :: "int option \<Rightarrow> int \<Rightarrow> bool" where
  "sql_le c n = (case c of None \<Rightarrow> False | Some v \<Rightarrow> v \<le> n)"

definition sql_gt :: "int option \<Rightarrow> int \<Rightarrow> bool" where
  "sql_gt c n = (case c of None \<Rightarrow> False | Some v \<Rightarrow> n < v)"

lemma sql_le_simps [simp]: "\<not> sql_le None n" "sql_le (Some v) n \<longleftrightarrow> v \<le> n"
  by (simp_all add: sql_le_def)

lemma sql_gt_simps [simp]: "\<not> sql_gt None n" "sql_gt (Some v) n \<longleftrightarrow> n < v"
  by (simp_all add: sql_gt_def)

text \<open>\<open>Number(column || 0)\<close>: a NULL column reads as zero.\<close>

abbreviation num_or_zero :: "int option \<Rightarrow> int" where
  "num_or_zero c \<equiv> (case c of None \<Rightarrow> 0 | Some v \<Rightarrow> v)"

subsection \<open>Updating the selected rows of a table\<close>

text \<open>\<open>UPDATE t SET f WHERE p\<close>; the rows keep their order.\<close>

definition update_where :: "('r \<Rightarrow> bool) \<Rightarrow> ('r \<Rightarrow> 'r) \<Rightarrow> 'r list \<Rightarrow> 'r list" where
  "update_where p f rs = map (\<lambda>r. if p r then f r else r) rs"

lemma update_where_Nil [simp]: "update_where p f [] = []"
  by (simp add: update_where_def)

lemma update_where_Cons [simp]:
  "update_where p f (r # rs) = (if p r then f r else r) # update_where p f rs"
  by (simp add: update_where_def)

lemma update_where_append [simp]:
  "update_where p f (rs @ ss) = update_where p f rs @ update_where p f ss"
  by (simp add: update_where_def)

lemma length_update_where [simp]: "length (update_where p f rs) = length rs"
  by (simp add: update_where_def)

lemma set_update_where:
  "set (update_where p f rs) = (\<lambda>r. if p r then f r else r) ` set rs"
  by (auto simp: update_where_def)

lemma in_set_update_where:
  "r \<in> set (update_where p f rs) \<longleftrightarrow> (\<exists>r0\<in>set rs. r = (if p r0 then f r0 else r0))"
  by (auto simp: update_where_def)

lemma map_update_where_same:
  "(\<And>r. p r \<Longrightarrow> g (f r) = g r) \<Longrightarrow> map g (update_where p f rs) = map g rs"
  by (induction rs) auto

lemma update_where_none: "(\<And>r. r \<in> set rs \<Longrightarrow> \<not> p r) \<Longrightarrow> update_where p f rs = rs"
  by (induction rs) auto

lemma filter_update_where_same:
  "(\<And>r. p r \<Longrightarrow> \<not> q r \<and> \<not> q (f r)) \<Longrightarrow> filter q (update_where p f rs) = filter q rs"
  by (induction rs) auto

lemma length_filter_update_le:
  "(\<And>r. p r \<Longrightarrow> q (f r) \<Longrightarrow> q r) \<Longrightarrow>
     length (filter q (update_where p f rs)) \<le> length (filter q rs)"
  by (induction rs) auto

lemma length_filter_update_le_sel:
  "(\<And>r. r \<in> set rs \<Longrightarrow> \<not> q r) \<Longrightarrow>
     length (filter q (update_where p f rs)) \<le> length (filter p rs)"
  by (induction rs) auto

lemma length_filter_filter_le: "length (filter q (filter p rs)) \<le> length (filter q rs)"
  by (induction rs) auto

lemma length_filter_key_le:
  "distinct (map f xs) \<Longrightarrow> length (filter (\<lambda>x. f x = a \<and> p x) xs) \<le> 1"
proof (induction xs)
  case (Cons x xs)
  show ?case
  proof (cases "f x = a")
    case True
    with Cons.prems have "filter (\<lambda>x. f x = a \<and> p x) xs = []"
      by (auto simp: filter_empty_conv) (metis imageI)
    then show ?thesis by simp
  next
    case False
    with Cons show ?thesis by simp
  qed
qed simp

lemma two_rows_length:
  assumes "x \<in> set xs" "y \<in> set xs" "x \<noteq> y" "p x" "p y"
  shows "2 \<le> length (filter p xs)"
proof -
  have "{x, y} \<subseteq> set (filter p xs)" using assms by auto
  then have "card {x, y} \<le> card (set (filter p xs))" by (intro card_mono) auto
  also have "\<dots> \<le> length (filter p xs)" by (rule card_length)
  finally show ?thesis using assms(3) by simp
qed

lemma find_update_where:
  "(\<And>r. p r \<Longrightarrow> q (f r) = q r) \<Longrightarrow>
     find q (update_where p f rs) = map_option (\<lambda>r. if p r then f r else r) (find q rs)"
  by (induction rs) auto

lemma sorted_wrt_map_filter:
  "sorted_wrt R (map f xs) \<Longrightarrow> sorted_wrt R (map f (filter p xs))"
  by (induction xs) auto

lemma distinct_map_filter: "distinct (map f xs) \<Longrightarrow> distinct (map f (filter p xs))"
  by (induction xs) auto

lemma distinct_map_unique:
  "distinct (map f xs) \<Longrightarrow> x \<in> set xs \<Longrightarrow> y \<in> set xs \<Longrightarrow> f x = f y \<Longrightarrow> x = y"
  by (auto simp: distinct_map dest: inj_onD)

lemma find_SomeD: "find p xs = Some x \<Longrightarrow> x \<in> set xs \<and> p x"
  by (induction xs) (auto split: if_splits)

lemma find_NoneD: "find p xs = None \<Longrightarrow> x \<in> set xs \<Longrightarrow> \<not> p x"
  by (induction xs) (auto split: if_splits)

lemma find_append_None: "find p xs = None \<Longrightarrow> find p (xs @ ys) = find p ys"
  by (induction xs) (auto split: if_splits)

lemma find_unique:
  assumes "x \<in> set xs" "p x" "\<And>y. y \<in> set xs \<Longrightarrow> p y \<Longrightarrow> y = x"
  shows "find p xs = Some x"
proof (cases "find p xs")
  case None
  with assms(1,2) show ?thesis by (auto dest: find_NoneD)
next
  case (Some z)
  with assms(3) show ?thesis by (auto dest: find_SomeD)
qed

lemma map_sum_Inr: "map_sum f g x = Inr y \<longleftrightarrow> (\<exists>z. x = Inr z \<and> y = g z)"
  by (cases x) auto

subsection \<open>The stable sort of JavaScript arrays\<close>

text \<open>
  \<open>xs.sort(cmp)\<close> is stable, so for a comparator that is a total preorder its result is
  determined; insertion before the first element that is not smaller computes it.
\<close>

fun sort_insert :: "('a \<Rightarrow> 'a \<Rightarrow> int) \<Rightarrow> 'a \<Rightarrow> 'a list \<Rightarrow> 'a list" where
  "sort_insert cmp x [] = [x]"
| "sort_insert cmp x (y # ys) = (if cmp x y \<le> 0 then x # y # ys else y # sort_insert cmp x ys)"

fun js_sort :: "('a \<Rightarrow> 'a \<Rightarrow> int) \<Rightarrow> 'a list \<Rightarrow> 'a list" where
  "js_sort cmp [] = []"
| "js_sort cmp (x # xs) = sort_insert cmp x (js_sort cmp xs)"

lemma mset_sort_insert [simp]: "mset (sort_insert cmp x ys) = add_mset x (mset ys)"
  by (induction ys) auto

lemma mset_js_sort [simp]: "mset (js_sort cmp xs) = mset xs"
  by (induction xs) auto

lemma set_js_sort [simp]: "set (js_sort cmp xs) = set xs"
  by (metis mset_js_sort set_mset_mset)

lemma length_js_sort [simp]: "length (js_sort cmp xs) = length xs"
  by (metis mset_js_sort size_mset)

text \<open>The left-to-right alternatives of a comparator: \<open>a || b\<close> on numbers.\<close>

definition cmp_or :: "int \<Rightarrow> int \<Rightarrow> int" where
  "cmp_or a b = (if a \<noteq> 0 then a else b)"

lemma cmp_or_le_iff: "cmp_or a b \<le> 0 \<longleftrightarrow> a < 0 \<or> a = 0 \<and> b \<le> 0"
  by (auto simp: cmp_or_def)

text \<open>Three-way comparison on an ordered type (numbers, or strings in code-unit order).\<close>

definition cmp_lin :: "'a::linorder \<Rightarrow> 'a \<Rightarrow> int" where
  "cmp_lin a b = (if a < b then - 1 else if a = b then 0 else 1)"

lemma cmp_lin_simps [simp]: "cmp_lin a b < 0 \<longleftrightarrow> a < b" "cmp_lin a b = 0 \<longleftrightarrow> a = b" "cmp_lin a b \<le> 0 \<longleftrightarrow> a \<le> b"
  by (auto simp: cmp_lin_def)

locale js_comparator =
  fixes cmp :: "'a \<Rightarrow> 'a \<Rightarrow> int"
  assumes cmp_total: "cmp x y \<le> 0 \<or> cmp y x \<le> 0"
    and cmp_trans: "cmp x y \<le> 0 \<Longrightarrow> cmp y z \<le> 0 \<Longrightarrow> cmp x z \<le> 0"
begin

abbreviation before :: "'a \<Rightarrow> 'a \<Rightarrow> bool" where
  "before x y \<equiv> cmp x y \<le> 0"

lemma sorted_sort_insert:
  "sorted_wrt before ys \<Longrightarrow> sorted_wrt before (sort_insert cmp x ys)"
proof (induction ys)
  case (Cons y ys)
  have sub: "set (sort_insert cmp x ys) = insert x (set ys)"
    by (metis mset_sort_insert set_mset_add_mset_insert set_mset_mset)
  from Cons show ?case
    using cmp_total[of x y] by (auto simp: sub intro: cmp_trans)
qed simp

lemma sorted_js_sort: "sorted_wrt before (js_sort cmp xs)"
  by (induction xs) (auto intro: sorted_sort_insert)

text \<open>The first element of the sorted array is a minimum of the array.\<close>

lemma js_sort_head_least:
  "js_sort cmp xs = y # ys \<Longrightarrow> x \<in> set xs \<Longrightarrow> before y x"
  using sorted_js_sort[of xs] set_js_sort[of cmp xs] cmp_total[of y y] by auto

text \<open>Elements already in order stay where they are.\<close>

lemma js_sort_sorted_id: "sorted_wrt before xs \<Longrightarrow> js_sort cmp xs = xs"
proof (induction xs)
  case (Cons x xs)
  then show ?case by (cases xs) auto
qed simp

end

subsection \<open>Components whose operations keep an invariant\<close>

text \<open>
  \<open>run init ops\<close> applies a list of operations in order. A component states its
  invariant once, discharges the two assumptions, and gets it at every reachable state.
\<close>

fun run_ops :: "('s \<Rightarrow> 'op \<Rightarrow> 's) \<Rightarrow> 's \<Rightarrow> 'op list \<Rightarrow> 's" where
  "run_ops step s [] = s"
| "run_ops step s (x # xs) = run_ops step (step s x) xs"

lemma run_ops_append: "run_ops step s (xs @ ys) = run_ops step (run_ops step s xs) ys"
  by (induction xs arbitrary: s) auto

locale invariant_machine =
  fixes step :: "'s \<Rightarrow> 'op \<Rightarrow> 's"
    and init :: 's
    and inv :: "'s \<Rightarrow> bool"
  assumes inv_init: "inv init"
    and inv_step: "inv s \<Longrightarrow> inv (step s x)"
begin

lemma inv_run: "inv s \<Longrightarrow> inv (run_ops step s xs)"
  by (induction xs arbitrary: s) (auto intro: inv_step)

lemma inv_reachable: "inv (run_ops step init xs)"
  by (rule inv_run[OF inv_init])

lemma inv_reachable_consequence:
  "(\<And>s. inv s \<Longrightarrow> Q s) \<Longrightarrow> Q (run_ops step init xs)"
  using inv_reachable by blast

end

text \<open>
  A store that hands out fences: \<open>owns s f\<close> says that the fence \<open>f\<close> is accepted now,
  \<open>dead s f\<close> that it was issued and is spent. The provider promises that a spent fence is
  not accepted and that no operation revives it; the client gets that a worker which lost
  its fence once can never act on it again.
\<close>

locale fenced_store = invariant_machine step init inv
  for step :: "'s \<Rightarrow> 'op \<Rightarrow> 's" and init :: 's and inv :: "'s \<Rightarrow> bool" +
  fixes owns :: "'s \<Rightarrow> 'f \<Rightarrow> bool"
    and dead :: "'s \<Rightarrow> 'f \<Rightarrow> bool"
  assumes dead_not_owned: "inv s \<Longrightarrow> dead s f \<Longrightarrow> \<not> owns s f"
    and dead_step: "inv s \<Longrightarrow> dead s f \<Longrightarrow> dead (step s x) f"
begin

lemma dead_run: "inv s \<Longrightarrow> dead s f \<Longrightarrow> dead (run_ops step s xs) f"
  by (induction xs arbitrary: s) (auto intro: dead_step inv_step)

lemma dead_never_owned: "inv s \<Longrightarrow> dead s f \<Longrightarrow> \<not> owns (run_ops step s xs) f"
  by (intro dead_not_owned dead_run inv_run)

lemma dead_reachable:
  "dead (run_ops step init xs) f \<Longrightarrow> \<not> owns (run_ops step init (xs @ ys)) f"
  by (simp add: run_ops_append dead_never_owned inv_reachable)

end

end
