(* ===== verification/State_Writer.thy ===== *)
theory State_Writer
  imports Prelude
begin

text \<open>
  The state-writer coordinator of \<open>dashboard/state-writer-coordinator.ts\<close>: a ticket queue in
  SQLite tables that hands one lease at a time to the writers of the state repository.
  A store is the ticket table (rows in \<open>seq\<close> order), the AUTOINCREMENT counter and the
  single meta row. Every public method is a transaction: it returns an error and no store
  (the transaction rolls back) or a result with the new store. Times are integer
  milliseconds; the fresh lease token that \<open>crypto.randomUUID()\<close> yields is an argument.
\<close>

subsection \<open>State\<close>

datatype writer_class = Ordinary | PublicationBatch | ClusterIntake

datatype ticket_state = Queued | Leased | Completed | Expired

record ticket_input =
  in_ticketId :: string
  in_owner :: string
  in_branch :: string
  in_repository :: string
  in_workflow :: string
  in_job :: string
  in_runId :: string
  in_runAttempt :: int
  in_writerClass :: writer_class

record ticket_row =
  tk_seq :: int
  tk_id :: string
  tk_owner :: string
  tk_branch :: string
  tk_repository :: string
  tk_workflow :: string
  tk_job :: string
  tk_run_id :: string
  tk_run_attempt :: int
  tk_class :: writer_class
  tk_state :: ticket_state
  tk_enqueued_at :: int
  tk_last_seen_at :: int
  tk_leased_at :: "int option"
  tk_lease_token :: "string option"
  tk_lease_generation :: int
  tk_lease_expires_at :: "int option"
  tk_lease_deadline_at :: "int option"
  tk_completed_at :: "int option"

record writer_meta =
  wm_admitted_total :: int
  wm_completed_total :: int
  wm_expired_total :: int
  wm_recovered_total :: int
  wm_last_wait_ms :: int
  wm_max_wait_ms :: int
  wm_batch_turns :: int
  wm_intake_turns :: int

record writer_store =
  ws_tickets :: "ticket_row list"
  ws_last_seq :: int
  ws_meta :: writer_meta

record writer_ticket =
  wt_seq :: int
  wt_ticketId :: string
  wt_owner :: string
  wt_state :: ticket_state
  wt_leaseToken :: "string option"
  wt_leaseGeneration :: int
  wt_leaseExpiresAt :: "int option"
  wt_leaseDeadlineAt :: "int option"
  wt_position :: int

datatype writer_error =
  ConstraintViolation
| InsertNotVisible
| MetadataMismatch
| TicketDisappeared

definition STATE_WRITER_TERMINAL_RETENTION_MS :: int where
  "STATE_WRITER_TERMINAL_RETENTION_MS = 7 * 24 * 60 * 60 * 1000"

definition STATE_WRITER_TERMINAL_PRUNE_LIMIT :: nat where
  "STATE_WRITER_TERMINAL_PRUNE_LIMIT = 256"

definition MAX_CONSECUTIVE_BATCH_TURNS :: int where
  "MAX_CONSECUTIVE_BATCH_TURNS = 2"

definition MAX_CONSECUTIVE_INTAKE_TURNS :: int where
  "MAX_CONSECUTIVE_INTAKE_TURNS = 1"

definition MAX_CONSECUTIVE_PRIORITY_TURNS :: int where
  "MAX_CONSECUTIVE_PRIORITY_TURNS = 2"

text \<open>A fresh coordinator: empty table, the meta row inserted with its defaults.\<close>

definition empty_writer_store :: writer_store where
  "empty_writer_store = \<lparr>ws_tickets = [], ws_last_seq = 0,
     ws_meta = \<lparr>wm_admitted_total = 0, wm_completed_total = 0, wm_expired_total = 0,
       wm_recovered_total = 0, wm_last_wait_ms = 0, wm_max_wait_ms = 0,
       wm_batch_turns = 0, wm_intake_turns = 0\<rparr>\<rparr>"

subsection \<open>Reclaiming and pruning\<close>

text \<open>
  Leases past their expiry or their absolute deadline and queued tickets that stopped
  polling become \<open>expired\<close>; then at most 256 old terminal rows are deleted, oldest first.
\<close>

definition reclaimable :: "int \<Rightarrow> int \<Rightarrow> ticket_row \<Rightarrow> bool" where
  "reclaimable now queuedStaleMs r \<longleftrightarrow>
     (tk_state r = Leased \<and> (sql_le (tk_lease_expires_at r) now \<or> sql_le (tk_lease_deadline_at r) now))
     \<or> (tk_state r = Queued \<and> tk_last_seen_at r \<le> now - queuedStaleMs)"

definition expire_row :: "int \<Rightarrow> ticket_row \<Rightarrow> ticket_row" where
  "expire_row now r = r\<lparr>tk_state := Expired, tk_completed_at := Some now, tk_lease_expires_at := None\<rparr>"

definition prunable :: "int \<Rightarrow> ticket_row \<Rightarrow> bool" where
  "prunable cutoff r \<longleftrightarrow> (tk_state r = Completed \<or> tk_state r = Expired) \<and> sql_le (tk_completed_at r) cutoff"

text \<open>\<open>ORDER BY completed_at, seq\<close>; the selected rows have a \<open>completed_at\<close>.\<close>

definition prune_order :: "ticket_row \<Rightarrow> ticket_row \<Rightarrow> int" where
  "prune_order a b = cmp_or (num_or_zero (tk_completed_at a) - num_or_zero (tk_completed_at b)) (tk_seq a - tk_seq b)"

definition pruned_seqs :: "int \<Rightarrow> ticket_row list \<Rightarrow> int list" where
  "pruned_seqs cutoff rs =
     map tk_seq (take STATE_WRITER_TERMINAL_PRUNE_LIMIT (js_sort prune_order (filter (prunable cutoff) rs)))"

definition reclaim_expired :: "int \<Rightarrow> int \<Rightarrow> writer_store \<Rightarrow> writer_store" where
  "reclaim_expired now queuedStaleMs s =
     (let reclaimed = int (length (filter (reclaimable now queuedStaleMs) (ws_tickets s)));
          m = ws_meta s
      in s\<lparr>ws_tickets := update_where (reclaimable now queuedStaleMs) (expire_row now) (ws_tickets s),
           ws_meta := (if reclaimed \<noteq> 0
                       then m\<lparr>wm_expired_total := wm_expired_total m + reclaimed,
                              wm_recovered_total := wm_recovered_total m + reclaimed\<rparr>
                       else m)\<rparr>)"

definition prune_terminal :: "int \<Rightarrow> writer_store \<Rightarrow> writer_store" where
  "prune_terminal cutoff s =
     (let gone = pruned_seqs cutoff (ws_tickets s)
      in s\<lparr>ws_tickets := filter (\<lambda>r. tk_seq r \<notin> set gone) (ws_tickets s)\<rparr>)"

definition reclaimAndPruneSync :: "int \<Rightarrow> int \<Rightarrow> writer_store \<Rightarrow> writer_store" where
  "reclaimAndPruneSync now queuedStaleMs s =
     prune_terminal (now - STATE_WRITER_TERMINAL_RETENTION_MS) (reclaim_expired now queuedStaleMs s)"

subsection \<open>Row lookups\<close>

definition ticketRowSync :: "string \<Rightarrow> writer_store \<Rightarrow> ticket_row option" where
  "ticketRowSync ticketId s = find (\<lambda>r. tk_id r = ticketId) (ws_tickets s)"

definition activeRowSync :: "writer_store \<Rightarrow> ticket_row option" where
  "activeRowSync s = find (\<lambda>r. tk_state r = Leased) (ws_tickets s)"

definition consecutiveBatchTurnsSync :: "writer_store \<Rightarrow> int" where
  "consecutiveBatchTurnsSync s = wm_batch_turns (ws_meta s)"

definition consecutiveIntakeTurnsSync :: "writer_store \<Rightarrow> int" where
  "consecutiveIntakeTurnsSync s = wm_intake_turns (ws_meta s)"

subsection \<open>The fair order of the queue\<close>

text \<open>
  The \<open>while\<close> loop of \<open>queuedOrderSync\<close>, with its three arrays, its two counters and the
  array it pushes to. \<open>shift()\<close> on an empty array pushes \<open>undefined\<close>, which is \<open>None\<close> in
  the result array; a loop that does not end is the result \<open>None\<close>.
\<close>

partial_function (option) queuedOrderLoop ::
  "ticket_row list \<Rightarrow> ticket_row list \<Rightarrow> ticket_row list \<Rightarrow> int \<Rightarrow> int
     \<Rightarrow> ticket_row option list \<Rightarrow> ticket_row option list option" where
  "queuedOrderLoop intakes batches ordinary batchTurns intakeTurns ordered =
     (if intakes = [] \<and> batches = [] \<and> ordinary = [] then Some ordered
      else
        let budget = (ordinary = [] \<or> batchTurns + intakeTurns < MAX_CONSECUTIVE_PRIORITY_TURNS)
        in if intakes \<noteq> [] \<and> budget \<and>
              ((batches = [] \<and> ordinary = []) \<or> intakeTurns < MAX_CONSECUTIVE_INTAKE_TURNS)
           then queuedOrderLoop (tl intakes) batches ordinary
                  (if ordinary = [] then 0 else batchTurns) (intakeTurns + 1)
                  (ordered @ [Some (hd intakes)])
           else if batches \<noteq> [] \<and> budget \<and>
              (ordinary = [] \<or> batchTurns < MAX_CONSECUTIVE_BATCH_TURNS)
           then queuedOrderLoop intakes (tl batches) ordinary (batchTurns + 1)
                  (if ordinary = [] then 0 else intakeTurns)
                  (ordered @ [Some (hd batches)])
           else queuedOrderLoop intakes batches (tl ordinary) 0 0
                  (ordered @ [if ordinary = [] then None else Some (hd ordinary)]))"

definition class_rows :: "writer_class \<Rightarrow> writer_store \<Rightarrow> ticket_row list" where
  "class_rows c s = filter (\<lambda>r. tk_class r = c) (filter (\<lambda>r. tk_state r = Queued) (ws_tickets s))"

definition queuedOrderSync :: "writer_store \<Rightarrow> ticket_row option list option" where
  "queuedOrderSync s =
     queuedOrderLoop (class_rows ClusterIntake s) (class_rows PublicationBatch s)
       (class_rows Ordinary s) (consecutiveBatchTurnsSync s) (consecutiveIntakeTurnsSync s) []"

text \<open>\<open>queuedOrderSync()[0]\<close>; reading past the end of the array gives \<open>undefined\<close>.\<close>

definition queuedHeadSync :: "writer_store \<Rightarrow> ticket_row option" where
  "queuedHeadSync s =
     (case queuedOrderSync s of Some (r # _) \<Rightarrow> r | _ \<Rightarrow> None)"

fun find_index :: "('a \<Rightarrow> bool) \<Rightarrow> 'a list \<Rightarrow> int" where
  "find_index p [] = - 1"
| "find_index p (x # xs) = (if p x then 0 else (let i = find_index p xs in if i < 0 then - 1 else i + 1))"

definition ticketJsonSync :: "ticket_row \<Rightarrow> writer_store \<Rightarrow> writer_ticket" where
  "ticketJsonSync r s =
     \<lparr>wt_seq = tk_seq r, wt_ticketId = tk_id r, wt_owner = tk_owner r, wt_state = tk_state r,
      wt_leaseToken = (case tk_lease_token r of None \<Rightarrow> None | Some t \<Rightarrow> if t = [] then None else Some t),
      wt_leaseGeneration = tk_lease_generation r,
      wt_leaseExpiresAt = tk_lease_expires_at r,
      wt_leaseDeadlineAt = tk_lease_deadline_at r,
      wt_position =
        (if tk_state r = Queued
         then find_index (\<lambda>c. case c of Some q \<Rightarrow> tk_seq q = tk_seq r | None \<Rightarrow> False)
                (case queuedOrderSync s of Some xs \<Rightarrow> xs | None \<Rightarrow> []) + 1
         else 0)\<rparr>"

definition ticketMatchesInput :: "ticket_row \<Rightarrow> ticket_input \<Rightarrow> bool" where
  "ticketMatchesInput r i \<longleftrightarrow>
     tk_owner r = in_owner i \<and> tk_branch r = in_branch i \<and> tk_repository r = in_repository i \<and>
     tk_workflow r = in_workflow i \<and> tk_job r = in_job i \<and> tk_run_id r = in_runId i \<and>
     tk_run_attempt r = in_runAttempt i \<and> tk_class r = in_writerClass i"

subsection \<open>acquire\<close>

text \<open>
  The partial unique index \<open>state_writer_one_active_ticket\<close> and the CHECK on \<open>run_attempt\<close>:
  a statement that breaks one throws and the transaction rolls back.
\<close>

definition one_active_index :: "ticket_row list \<Rightarrow> bool" where
  "one_active_index rs \<longleftrightarrow> length (filter (\<lambda>r. tk_state r = Leased) rs) \<le> 1"

definition new_ticket_row :: "ticket_input \<Rightarrow> int \<Rightarrow> int \<Rightarrow> ticket_row" where
  "new_ticket_row i sq now =
     \<lparr>tk_seq = sq, tk_id = in_ticketId i, tk_owner = in_owner i, tk_branch = in_branch i,
      tk_repository = in_repository i, tk_workflow = in_workflow i, tk_job = in_job i,
      tk_run_id = in_runId i, tk_run_attempt = in_runAttempt i, tk_class = in_writerClass i,
      tk_state = Queued, tk_enqueued_at = now, tk_last_seen_at = now, tk_leased_at = None,
      tk_lease_token = None, tk_lease_generation = 0, tk_lease_expires_at = None,
      tk_lease_deadline_at = None, tk_completed_at = None\<rparr>"

definition insert_ticket :: "ticket_input \<Rightarrow> int \<Rightarrow> writer_store \<Rightarrow> writer_error + writer_store" where
  "insert_ticket i now s =
     (if in_runAttempt i < 1 \<or> in_ticketId i \<in> set (map tk_id (ws_tickets s)) then Inl ConstraintViolation
      else Inr (s\<lparr>ws_tickets := ws_tickets s @ [new_ticket_row i (ws_last_seq s + 1) now],
                  ws_last_seq := ws_last_seq s + 1\<rparr>))"

definition lease_row :: "int \<Rightarrow> string \<Rightarrow> int \<Rightarrow> int \<Rightarrow> ticket_row \<Rightarrow> ticket_row" where
  "lease_row now token expiresAt deadlineAt r =
     r\<lparr>tk_state := Leased, tk_leased_at := Some now, tk_last_seen_at := now,
       tk_lease_token := Some token, tk_lease_generation := tk_lease_generation r + 1,
       tk_lease_expires_at := Some expiresAt, tk_lease_deadline_at := Some deadlineAt\<rparr>"

text \<open>The turn counters after a ticket of class \<open>c\<close> got the lease.\<close>

definition ordinary_waiting :: "ticket_row list \<Rightarrow> bool" where
  "ordinary_waiting rs = list_ex (\<lambda>r. tk_state r = Queued \<and> tk_class r = Ordinary) rs"

definition next_batch_turns :: "writer_class \<Rightarrow> bool \<Rightarrow> int \<Rightarrow> int" where
  "next_batch_turns c waiting n =
     (if c = PublicationBatch then n + 1
      else if c = Ordinary then 0
      else if c = ClusterIntake \<and> \<not> waiting then 0
      else n)"

definition next_intake_turns :: "writer_class \<Rightarrow> bool \<Rightarrow> int \<Rightarrow> int" where
  "next_intake_turns c waiting n =
     (if c = ClusterIntake then n + 1
      else if c = Ordinary then 0
      else if c = PublicationBatch \<and> \<not> waiting then 0
      else n)"

definition admit_ticket ::
  "ticket_input \<Rightarrow> ticket_row \<Rightarrow> int \<Rightarrow> int \<Rightarrow> int \<Rightarrow> string \<Rightarrow> writer_store \<Rightarrow> writer_error + writer_store" where
  "admit_ticket i row now leaseMs maximumLeaseAgeMs token s =
     (let leaseDeadlineAt = now + maximumLeaseAgeMs;
          leaseExpiresAt = min (now + leaseMs) leaseDeadlineAt;
          waitMs = max 0 (now - tk_enqueued_at row);
          rows = update_where (\<lambda>r. tk_id r = in_ticketId i \<and> tk_state r = Queued)
                   (lease_row now token leaseExpiresAt leaseDeadlineAt) (ws_tickets s);
          waiting = ordinary_waiting rows;
          m = ws_meta s
      in if \<not> one_active_index rows then Inl ConstraintViolation
         else Inr (s\<lparr>ws_tickets := rows,
                     ws_meta := m\<lparr>wm_admitted_total := wm_admitted_total m + 1,
                       wm_last_wait_ms := waitMs,
                       wm_max_wait_ms := max (wm_max_wait_ms m) waitMs,
                       wm_batch_turns := next_batch_turns (in_writerClass i) waiting (wm_batch_turns m),
                       wm_intake_turns := next_intake_turns (in_writerClass i) waiting (wm_intake_turns m)\<rparr>\<rparr>))"

text \<open>A queued ticket that polls: it takes a free lease as the head, or refreshes its stale clock.\<close>

definition poll_queued ::
  "ticket_input \<Rightarrow> ticket_row \<Rightarrow> int \<Rightarrow> int \<Rightarrow> int \<Rightarrow> string \<Rightarrow> writer_store \<Rightarrow> writer_error + writer_store" where
  "poll_queued i row now leaseMs maximumLeaseAgeMs token s =
     (let active = activeRowSync s;
          head = queuedHeadSync s
      in if active = None \<and> (case head of None \<Rightarrow> [] | Some h \<Rightarrow> tk_id h) = in_ticketId i
         then admit_ticket i row now leaseMs maximumLeaseAgeMs token s
         else if tk_last_seen_at row \<noteq> now
         then Inr (s\<lparr>ws_tickets := update_where (\<lambda>r. tk_id r = in_ticketId i)
                                     (\<lambda>r. r\<lparr>tk_last_seen_at := now\<rparr>) (ws_tickets s)\<rparr>)
         else Inr s)"

definition acquire ::
  "ticket_input \<Rightarrow> int \<Rightarrow> int \<Rightarrow> int \<Rightarrow> int \<Rightarrow> string \<Rightarrow> writer_store
     \<Rightarrow> writer_error + (writer_ticket \<times> writer_store)" where
  "acquire i now leaseMs queuedStaleMs maximumLeaseAgeMs token s0 =
     (let s1 = reclaimAndPruneSync now queuedStaleMs s0
      in case (case ticketRowSync (in_ticketId i) s1 of
                 None \<Rightarrow> insert_ticket i now s1
               | Some _ \<Rightarrow> Inr s1) of
           Inl e \<Rightarrow> Inl e
         | Inr s2 \<Rightarrow>
             (case ticketRowSync (in_ticketId i) s2 of
                None \<Rightarrow> Inl InsertNotVisible
              | Some row \<Rightarrow>
                  if \<not> ticketMatchesInput row i then Inl MetadataMismatch
                  else if tk_state row = Completed \<or> tk_state row = Expired
                  then Inr (ticketJsonSync row s2, s2)
                  else if tk_state row = Queued
                  then (case poll_queued i row now leaseMs maximumLeaseAgeMs token s2 of
                          Inl e \<Rightarrow> Inl e
                        | Inr s3 \<Rightarrow>
                            (case ticketRowSync (in_ticketId i) s3 of
                               None \<Rightarrow> Inl TicketDisappeared
                             | Some row' \<Rightarrow> Inr (ticketJsonSync row' s3, s3)))
                  else Inr (ticketJsonSync row s2, s2)))"

subsection \<open>heartbeat, release, stats\<close>

definition heartbeat ::
  "string \<Rightarrow> string \<Rightarrow> string \<Rightarrow> int \<Rightarrow> int \<Rightarrow> int \<Rightarrow> writer_store \<Rightarrow> writer_ticket option \<times> writer_store" where
  "heartbeat ticketId owner leaseToken now leaseMs queuedStaleMs s0 =
     (let s1 = reclaimAndPruneSync now queuedStaleMs s0
      in case ticketRowSync ticketId s1 of
           None \<Rightarrow> (None, s1)
         | Some row \<Rightarrow>
             if tk_state row \<noteq> Leased \<or> tk_owner row \<noteq> owner \<or> tk_lease_token row \<noteq> Some leaseToken
                \<or> num_or_zero (tk_lease_expires_at row) \<le> now \<or> num_or_zero (tk_lease_deadline_at row) \<le> now
             then (None, s1)
             else
               let rows = update_where
                     (\<lambda>r. tk_id r = ticketId \<and> tk_state r = Leased \<and> tk_owner r = owner
                          \<and> tk_lease_token r = Some leaseToken)
                     (\<lambda>r. r\<lparr>tk_last_seen_at := now,
                            tk_lease_expires_at :=
                              (case tk_lease_deadline_at r of None \<Rightarrow> None
                               | Some d \<Rightarrow> Some (min (now + leaseMs) d))\<rparr>)
                     (ws_tickets s1);
                   s2 = s1\<lparr>ws_tickets := rows\<rparr>
               in (case ticketRowSync ticketId s2 of
                     None \<Rightarrow> (None, s2)
                   | Some row' \<Rightarrow> (Some (ticketJsonSync row' s2), s2)))"

definition releasable :: "string \<Rightarrow> string \<Rightarrow> string \<Rightarrow> int \<Rightarrow> ticket_row \<Rightarrow> bool" where
  "releasable ticketId owner leaseToken now r \<longleftrightarrow>
     tk_id r = ticketId \<and> tk_state r = Leased \<and> tk_owner r = owner \<and> tk_lease_token r = Some leaseToken
     \<and> sql_gt (tk_lease_expires_at r) now \<and> sql_gt (tk_lease_deadline_at r) now"

definition release ::
  "string \<Rightarrow> string \<Rightarrow> string \<Rightarrow> int \<Rightarrow> int \<Rightarrow> writer_store \<Rightarrow> bool \<times> writer_store" where
  "release ticketId owner leaseToken now queuedStaleMs s0 =
     (let s1 = reclaimAndPruneSync now queuedStaleMs s0
      in if (case ticketRowSync ticketId s1 of
               None \<Rightarrow> False
             | Some e \<Rightarrow> tk_state e = Completed \<and> tk_owner e = owner \<and> tk_lease_token e = Some leaseToken)
         then (True, s1)
         else
           let released = length (filter (releasable ticketId owner leaseToken now) (ws_tickets s1));
               rows = update_where (releasable ticketId owner leaseToken now)
                        (\<lambda>r. r\<lparr>tk_state := Completed, tk_last_seen_at := now, tk_completed_at := Some now,
                               tk_lease_expires_at := None\<rparr>) (ws_tickets s1);
               m = ws_meta s1;
               m' = (if released = 1 then m\<lparr>wm_completed_total := wm_completed_total m + 1\<rparr> else m)
           in (released = 1, s1\<lparr>ws_tickets := rows, ws_meta := m'\<rparr>))"

record writer_stats =
  st_queued :: int
  st_leased :: int
  st_queued_batch :: int
  st_queued_intake :: int
  st_queued_ordinary :: int
  st_meta :: writer_meta
  st_active :: "(ticket_row \<times> int) option"

definition count_rows :: "(ticket_row \<Rightarrow> bool) \<Rightarrow> writer_store \<Rightarrow> int" where
  "count_rows p s = int (length (filter p (ws_tickets s)))"

text \<open>
  The report of \<open>stats\<close>. The code copies the columns of the active row into the report, with
  the times in ISO format; here the report holds the row itself, and its wait.
\<close>

definition stats :: "int \<Rightarrow> int \<Rightarrow> writer_store \<Rightarrow> writer_stats \<times> writer_store" where
  "stats now queuedStaleMs s0 =
     (let s = reclaimAndPruneSync now queuedStaleMs s0
      in (\<lparr>st_queued = count_rows (\<lambda>r. tk_state r = Queued) s,
           st_leased = count_rows (\<lambda>r. tk_state r = Leased) s,
           st_queued_batch = count_rows (\<lambda>r. tk_state r = Queued \<and> tk_class r = PublicationBatch) s,
           st_queued_intake = count_rows (\<lambda>r. tk_state r = Queued \<and> tk_class r = ClusterIntake) s,
           st_queued_ordinary = count_rows (\<lambda>r. tk_state r = Queued \<and> tk_class r = Ordinary) s,
           st_meta = ws_meta s,
           st_active = (case activeRowSync s of
               None \<Rightarrow> None
             | Some a \<Rightarrow> Some (a, max 0 (num_or_zero (tk_leased_at a) - tk_enqueued_at a)))\<rparr>, s))"

section \<open>The fair order\<close>

text \<open>
  The specification of the order: which class is served next, as a total function. The loop
  of the code is shown to compute it, so it ends and never pushes \<open>undefined\<close>.
\<close>

definition serve_class :: "bool \<Rightarrow> bool \<Rightarrow> bool \<Rightarrow> int \<Rightarrow> int \<Rightarrow> writer_class" where
  "serve_class hasIntake hasBatch hasOrdinary batchTurns intakeTurns =
     (let budget = (\<not> hasOrdinary \<or> batchTurns + intakeTurns < MAX_CONSECUTIVE_PRIORITY_TURNS)
      in if hasIntake \<and> budget \<and> ((\<not> hasBatch \<and> \<not> hasOrdinary) \<or> intakeTurns < MAX_CONSECUTIVE_INTAKE_TURNS)
         then ClusterIntake
         else if hasBatch \<and> budget \<and> (\<not> hasOrdinary \<or> batchTurns < MAX_CONSECUTIVE_BATCH_TURNS)
         then PublicationBatch
         else Ordinary)"

lemma serve_class_available:
  "serve_class i b p m n = ClusterIntake \<Longrightarrow> i"
  "serve_class i b p m n = PublicationBatch \<Longrightarrow> b"
  "i \<or> b \<or> p \<Longrightarrow> serve_class i b p m n = Ordinary \<Longrightarrow> p"
  by (auto simp: serve_class_def Let_def split: if_splits)

function fair_order ::
  "ticket_row list \<Rightarrow> ticket_row list \<Rightarrow> ticket_row list \<Rightarrow> int \<Rightarrow> int \<Rightarrow> ticket_row list" where
  "fair_order is bs os m n =
     (if is = [] \<and> bs = [] \<and> os = [] then []
      else case serve_class (is \<noteq> []) (bs \<noteq> []) (os \<noteq> []) m n of
        ClusterIntake \<Rightarrow> hd is # fair_order (tl is) bs os (next_batch_turns ClusterIntake (os \<noteq> []) m) (next_intake_turns ClusterIntake (os \<noteq> []) n)
      | PublicationBatch \<Rightarrow> hd bs # fair_order is (tl bs) os (next_batch_turns PublicationBatch (os \<noteq> []) m) (next_intake_turns PublicationBatch (os \<noteq> []) n)
      | Ordinary \<Rightarrow> hd os # fair_order is bs (tl os) 0 0)"
  by pat_completeness auto
termination
proof (relation "measure (\<lambda>(is, bs, os, m, n). length is + length bs + length os)", goal_cases)
  case 1
  then show ?case by simp
next
  case (2 "is" bs os m n)
  then have "os \<noteq> []" using serve_class_available(3) by blast
  then show ?case by (cases os) auto
next
  case (3 "is" bs os m n)
  then have "bs \<noteq> []" using serve_class_available(2) by blast
  then show ?case by (cases bs) auto
next
  case (4 "is" bs os m n)
  then have "is \<noteq> []" using serve_class_available(1) by blast
  then show ?case by (cases "is") auto
qed

declare fair_order.simps [simp del]

lemma queuedOrderLoop_serve:
  assumes "\<not> (is = [] \<and> bs = [] \<and> os = [])"
  shows "queuedOrderLoop is bs os m n acc =
     (case serve_class (is \<noteq> []) (bs \<noteq> []) (os \<noteq> []) m n of
        ClusterIntake \<Rightarrow> queuedOrderLoop (tl is) bs os (next_batch_turns ClusterIntake (os \<noteq> []) m)
          (next_intake_turns ClusterIntake (os \<noteq> []) n) (acc @ [Some (hd is)])
      | PublicationBatch \<Rightarrow> queuedOrderLoop is (tl bs) os (next_batch_turns PublicationBatch (os \<noteq> []) m)
          (next_intake_turns PublicationBatch (os \<noteq> []) n) (acc @ [Some (hd bs)])
      | Ordinary \<Rightarrow> queuedOrderLoop is bs (tl os) 0 0 (acc @ [Some (hd os)]))"
proof -
  have "os \<noteq> []" if "serve_class (is \<noteq> []) (bs \<noteq> []) (os \<noteq> []) m n = Ordinary"
    using that assms serve_class_available(3) by blast
  then show ?thesis
    using assms
    by (subst queuedOrderLoop.simps)
       (auto simp: serve_class_def Let_def next_batch_turns_def next_intake_turns_def)
qed

lemma queuedOrderLoop_eq_fair_order:
  "queuedOrderLoop is bs os m n acc = Some (acc @ map Some (fair_order is bs os m n))"
proof (induction "is" bs os m n arbitrary: acc rule: fair_order.induct)
  case (1 "is" bs os m n)
  show ?case
  proof (cases "is = [] \<and> bs = [] \<and> os = []")
    case True
    then show ?thesis by (simp add: queuedOrderLoop.simps fair_order.simps)
  next
    case False
    show ?thesis
    proof (cases "serve_class (is \<noteq> []) (bs \<noteq> []) (os \<noteq> []) m n")
      case Ordinary
      with "1.IH"(1)[OF False Ordinary] show ?thesis
        by (simp only: queuedOrderLoop_serve[OF False] fair_order.simps[of "is" bs os m n] False) simp
    next
      case PublicationBatch
      with "1.IH"(2)[OF False PublicationBatch] show ?thesis
        by (simp only: queuedOrderLoop_serve[OF False] fair_order.simps[of "is" bs os m n] False) simp
    next
      case ClusterIntake
      with "1.IH"(3)[OF False ClusterIntake] show ?thesis
        by (simp only: queuedOrderLoop_serve[OF False] fair_order.simps[of "is" bs os m n] False) simp
    qed
  qed
qed

definition fair_queue :: "writer_store \<Rightarrow> ticket_row list" where
  "fair_queue s = fair_order (class_rows ClusterIntake s) (class_rows PublicationBatch s)
     (class_rows Ordinary s) (wm_batch_turns (ws_meta s)) (wm_intake_turns (ws_meta s))"

lemma queuedOrderSync_fair: "queuedOrderSync s = Some (map Some (fair_queue s))"
  by (simp add: queuedOrderSync_def fair_queue_def queuedOrderLoop_eq_fair_order
      consecutiveBatchTurnsSync_def consecutiveIntakeTurnsSync_def)

lemma queuedHeadSync_fair:
  "queuedHeadSync s = (case fair_queue s of [] \<Rightarrow> None | r # _ \<Rightarrow> Some r)"
  by (simp add: queuedHeadSync_def queuedOrderSync_fair split: list.split)

lemma fair_order_Nil [simp]: "fair_order [] [] [] m n = []"
  by (simp add: fair_order.simps)

lemma fair_order_Ordinary:
  "serve_class (is \<noteq> []) (bs \<noteq> []) True m n = Ordinary \<Longrightarrow>
     fair_order is bs (x # os) m n = x # fair_order is bs os 0 0"
  by (simp add: fair_order.simps[of "is" bs "x # os" m n])

lemma fair_order_PublicationBatch:
  "serve_class (is \<noteq> []) True (os \<noteq> []) m n = PublicationBatch \<Longrightarrow>
     fair_order is (x # bs) os m n = x # fair_order is bs os
       (next_batch_turns PublicationBatch (os \<noteq> []) m) (next_intake_turns PublicationBatch (os \<noteq> []) n)"
  by (simp add: fair_order.simps[of "is" "x # bs" os m n])

lemma fair_order_ClusterIntake:
  "serve_class True (bs \<noteq> []) (os \<noteq> []) m n = ClusterIntake \<Longrightarrow>
     fair_order (x # is) bs os m n = x # fair_order is bs os
       (next_batch_turns ClusterIntake (os \<noteq> []) m) (next_intake_turns ClusterIntake (os \<noteq> []) n)"
  by (simp add: fair_order.simps[of "x # is" bs os m n])

lemmas fair_order_steps = fair_order_Ordinary fair_order_PublicationBatch fair_order_ClusterIntake

lemma fair_order_classes:
  assumes "\<forall>r\<in>set is. tk_class r = ClusterIntake" "\<forall>r\<in>set bs. tk_class r = PublicationBatch"
    "\<forall>r\<in>set os. tk_class r = Ordinary"
  shows "filter (\<lambda>r. tk_class r = ClusterIntake) (fair_order is bs os m n) = is
       \<and> filter (\<lambda>r. tk_class r = PublicationBatch) (fair_order is bs os m n) = bs
       \<and> filter (\<lambda>r. tk_class r = Ordinary) (fair_order is bs os m n) = os
       \<and> set (fair_order is bs os m n) = set is \<union> set bs \<union> set os"
  using assms
proof (induction "is" bs os m n rule: fair_order.induct)
  case (1 "is" bs os m n)
  show ?case
  proof (cases "is = [] \<and> bs = [] \<and> os = []")
    case True
    then show ?thesis by (simp add: fair_order.simps)
  next
    case ne: False
    show ?thesis
    proof (cases "serve_class (is \<noteq> []) (bs \<noteq> []) (os \<noteq> []) m n")
      case Ordinary
      moreover from this ne obtain x xs where "os = x # xs"
        using serve_class_available(3) by (metis neq_Nil_conv)
      ultimately show ?thesis
        using "1.IH"(1)[OF ne] "1.prems" by (auto simp: fair_order_steps)
    next
      case PublicationBatch
      moreover from this obtain x xs where "bs = x # xs"
        using serve_class_available(2) by (metis neq_Nil_conv)
      ultimately show ?thesis
        using "1.IH"(2)[OF ne] "1.prems" by (auto simp: fair_order_steps)
    next
      case ClusterIntake
      moreover from this obtain x xs where "is = x # xs"
        using serve_class_available(1) by (metis neq_Nil_conv)
      ultimately show ?thesis
        using "1.IH"(3)[OF ne] "1.prems" by (auto simp: fair_order_steps)
    qed
  qed
qed

lemma class_rows_class: "\<forall>r\<in>set (class_rows c s). tk_class r = c"
  by (simp add: class_rows_def)

lemma fair_queue_class: "filter (\<lambda>r. tk_class r = c) (fair_queue s) = class_rows c s"
  unfolding fair_queue_def
  using fair_order_classes[OF class_rows_class class_rows_class class_rows_class, of s s s]
  by (cases c) blast+

lemma mset_by_class:
  "mset xs = mset (filter (\<lambda>r. tk_class r = ClusterIntake) xs)
     + mset (filter (\<lambda>r. tk_class r = PublicationBatch) xs) + mset (filter (\<lambda>r. tk_class r = Ordinary) xs)"
proof (induction xs)
  case (Cons x xs)
  then show ?case by (cases "tk_class x") auto
qed simp

lemma mset_fair_queue: "mset (fair_queue s) = mset (filter (\<lambda>r. tk_state r = Queued) (ws_tickets s))"
proof -
  have "mset (fair_queue s) = mset (class_rows ClusterIntake s) + mset (class_rows PublicationBatch s)
      + mset (class_rows Ordinary s)"
    using mset_by_class[of "fair_queue s"] by (simp only: fair_queue_class)
  then show ?thesis
    using mset_by_class[of "filter (\<lambda>r. tk_state r = Queued) (ws_tickets s)"]
    by (simp only: class_rows_def)
qed

lemma set_fair_queue: "set (fair_queue s) = {r \<in> set (ws_tickets s). tk_state r = Queued}"
  by (metis mset_fair_queue set_mset_mset set_filter)

text \<open>
  Priority classes pass the ordinary ones only within the turn budget: what is left of it before
  the first ordinary ticket, and the whole of it before each later one.
\<close>

lemma fair_order_bypass:
  assumes "\<forall>r\<in>set is. tk_class r = ClusterIntake" "\<forall>r\<in>set bs. tk_class r = PublicationBatch"
    "\<forall>r\<in>set os. tk_class r = Ordinary"
    and "fair_order is bs os m n = xs @ r # ys" "tk_class r = Ordinary"
  shows "length (filter (\<lambda>q. tk_class q \<noteq> Ordinary) xs)
     \<le> nat (MAX_CONSECUTIVE_PRIORITY_TURNS - (m + n))
       + nat MAX_CONSECUTIVE_PRIORITY_TURNS * length (filter (\<lambda>q. tk_class q = Ordinary) xs)"
  using assms
proof (induction "is" bs os m n arbitrary: xs rule: fair_order.induct)
  case (1 "is" bs os m n)
  have "r \<in> set (fair_order is bs os m n)" using "1.prems"(4) by simp
  then have os: "os \<noteq> []" using fair_order_classes[OF "1.prems"(1-3)] "1.prems"(1,2,5) by auto
  then have ne: "\<not> (is = [] \<and> bs = [] \<and> os = [])" by simp
  have budget: "m + n < MAX_CONSECUTIVE_PRIORITY_TURNS"
    if "serve_class (is \<noteq> []) (bs \<noteq> []) (os \<noteq> []) m n \<noteq> Ordinary"
    using that os by (auto simp: serve_class_def Let_def split: if_splits)
  show ?case
  proof (cases xs)
    case (Cons x us)
    show ?thesis
    proof (cases "serve_class (is \<noteq> []) (bs \<noteq> []) (os \<noteq> []) m n")
      case Ordinary
      with "1.IH"(1)[OF ne, of us] "1.prems" os Cons show ?thesis
        by (cases os) (auto simp: fair_order_steps MAX_CONSECUTIVE_PRIORITY_TURNS_def)
    next
      case PublicationBatch
      moreover from this have "bs \<noteq> []" by (rule serve_class_available(2))
      ultimately show ?thesis using "1.IH"(2)[OF ne, of us] "1.prems" os Cons budget
        by (cases bs) (auto simp: fair_order_steps next_batch_turns_def next_intake_turns_def)
    next
      case ClusterIntake
      moreover from this have "is \<noteq> []" by (rule serve_class_available(1))
      ultimately show ?thesis using "1.IH"(3)[OF ne, of us] "1.prems" os Cons budget
        by (cases "is") (auto simp: fair_order_steps next_batch_turns_def next_intake_turns_def)
    qed
  qed simp
qed

section \<open>The invariant\<close>

definition row_ok :: "int \<Rightarrow> ticket_row \<Rightarrow> bool" where
  "row_ok lastSeq r \<longleftrightarrow>
     tk_seq r \<le> lastSeq \<and> 1 \<le> tk_run_attempt r \<and>
     (case tk_state r of
        Queued \<Rightarrow> tk_lease_generation r = 0 \<and> tk_lease_token r = None \<and> tk_lease_expires_at r = None
                  \<and> tk_lease_deadline_at r = None \<and> tk_completed_at r = None
      | Leased \<Rightarrow> tk_lease_generation r = 1 \<and> tk_lease_token r \<noteq> None \<and> tk_leased_at r \<noteq> None
                  \<and> tk_completed_at r = None
                  \<and> (\<exists>e d. tk_lease_expires_at r = Some e \<and> tk_lease_deadline_at r = Some d \<and> e \<le> d)
      | Completed \<Rightarrow> tk_lease_generation r = 1 \<and> tk_lease_token r \<noteq> None \<and> tk_completed_at r \<noteq> None
                  \<and> tk_lease_expires_at r = None
      | Expired \<Rightarrow> 0 \<le> tk_lease_generation r \<and> tk_lease_generation r \<le> 1 \<and> tk_completed_at r \<noteq> None
                  \<and> tk_lease_expires_at r = None)"

definition meta_ok :: "writer_meta \<Rightarrow> bool" where
  "meta_ok m \<longleftrightarrow> 0 \<le> wm_admitted_total m \<and> 0 \<le> wm_completed_total m \<and> 0 \<le> wm_expired_total m
     \<and> wm_recovered_total m = wm_expired_total m \<and> 0 \<le> wm_last_wait_ms m
     \<and> wm_last_wait_ms m \<le> wm_max_wait_ms m \<and> 0 \<le> wm_batch_turns m \<and> 0 \<le> wm_intake_turns m"

definition writer_inv :: "writer_store \<Rightarrow> bool" where
  "writer_inv s \<longleftrightarrow> distinct (map tk_id (ws_tickets s)) \<and> sorted_wrt (<) (map tk_seq (ws_tickets s))
     \<and> (\<forall>r\<in>set (ws_tickets s). row_ok (ws_last_seq s) r) \<and> one_active_index (ws_tickets s)
     \<and> meta_ok (ws_meta s)"

lemma writer_invI:
  "distinct (map tk_id (ws_tickets s)) \<Longrightarrow> sorted_wrt (<) (map tk_seq (ws_tickets s)) \<Longrightarrow>
   (\<And>r. r \<in> set (ws_tickets s) \<Longrightarrow> row_ok (ws_last_seq s) r) \<Longrightarrow> one_active_index (ws_tickets s) \<Longrightarrow>
   meta_ok (ws_meta s) \<Longrightarrow> writer_inv s"
  by (simp add: writer_inv_def)

lemma writer_invD:
  assumes "writer_inv s"
  shows "distinct (map tk_id (ws_tickets s))" "sorted_wrt (<) (map tk_seq (ws_tickets s))"
    "r \<in> set (ws_tickets s) \<Longrightarrow> row_ok (ws_last_seq s) r" "one_active_index (ws_tickets s)"
    "meta_ok (ws_meta s)"
  using assms by (simp_all add: writer_inv_def)

lemma empty_writer_inv: "writer_inv empty_writer_store"
  by (simp add: writer_inv_def empty_writer_store_def one_active_index_def meta_ok_def)

text \<open>An update that keeps the keys and keeps rows well-formed.\<close>

lemma writer_inv_update:
  assumes inv: "writer_inv s"
    and keys: "\<And>r. p r \<Longrightarrow> tk_id (f r) = tk_id r \<and> tk_seq (f r) = tk_seq r"
    and ok: "\<And>r. r \<in> set (ws_tickets s) \<Longrightarrow> p r \<Longrightarrow> row_ok (ws_last_seq s) r \<Longrightarrow> row_ok (ws_last_seq s) (f r)"
    and index: "one_active_index (update_where p f (ws_tickets s))"
    and m: "meta_ok m"
  shows "writer_inv (s\<lparr>ws_tickets := update_where p f (ws_tickets s), ws_meta := m\<rparr>)"
proof (rule writer_invI, simp_all add: m index)
  note D = writer_invD[OF inv]
  show "distinct (map tk_id (update_where p f (ws_tickets s)))"
    using D(1) keys by (simp add: map_update_where_same)
  show "sorted_wrt (<) (map tk_seq (update_where p f (ws_tickets s)))"
    using D(2) keys by (simp add: map_update_where_same)
  show "row_ok (ws_last_seq s) r" if "r \<in> set (update_where p f (ws_tickets s))" for r
    using that D(3) ok by (auto simp: set_update_where)
qed

lemma one_active_update:
  assumes "one_active_index rs" "\<And>r. p r \<Longrightarrow> tk_state (f r) = Leased \<Longrightarrow> tk_state r = Leased"
  shows "one_active_index (update_where p f rs)"
  using assms(1) length_filter_update_le[where p = p and f = f and q = "\<lambda>r. tk_state r = Leased", OF assms(2), of rs]
  by (simp add: one_active_index_def)

lemma one_active_filter: "one_active_index rs \<Longrightarrow> one_active_index (filter p rs)"
  using length_filter_filter_le[of "\<lambda>r. tk_state r = Leased" p rs]
  by (simp add: one_active_index_def)

lemma writer_inv_filter:
  assumes inv: "writer_inv s"
  shows "writer_inv (s\<lparr>ws_tickets := filter p (ws_tickets s)\<rparr>)"
  using writer_invD[OF inv]
  by (intro writer_invI) (auto intro: distinct_map_filter sorted_wrt_map_filter one_active_filter)

lemma expire_row_simps [simp]:
  "tk_id (expire_row now r) = tk_id r" "tk_seq (expire_row now r) = tk_seq r"
  "tk_state (expire_row now r) = Expired"
  by (simp_all add: expire_row_def)

lemma lease_row_simps [simp]:
  "tk_id (lease_row now tok e d r) = tk_id r" "tk_seq (lease_row now tok e d r) = tk_seq r"
  "tk_state (lease_row now tok e d r) = Leased" "tk_class (lease_row now tok e d r) = tk_class r"
  by (simp_all add: lease_row_def)

lemma expire_row_ok: "reclaimable now q r \<Longrightarrow> row_ok n r \<Longrightarrow> row_ok n (expire_row now r)"
  by (auto simp: reclaimable_def row_ok_def expire_row_def split: ticket_state.splits)

lemma lease_row_ok: "tk_state r = Queued \<Longrightarrow> e \<le> d \<Longrightarrow> row_ok n r \<Longrightarrow> row_ok n (lease_row now tok e d r)"
  by (auto simp: row_ok_def lease_row_def)

lemma seen_row_ok [simp]: "row_ok n (r\<lparr>tk_last_seen_at := x\<rparr>) = row_ok n r"
  by (cases "tk_state r") (simp_all add: row_ok_def)

lemma renew_row_ok:
  "tk_state r = Leased \<Longrightarrow> row_ok n r \<Longrightarrow>
     row_ok n (r\<lparr>tk_last_seen_at := now, tk_lease_expires_at :=
       (case tk_lease_deadline_at r of None \<Rightarrow> None | Some d \<Rightarrow> Some (min x d))\<rparr>)"
  by (auto simp: row_ok_def)

lemma complete_row_ok:
  "tk_state r = Leased \<Longrightarrow> row_ok n r \<Longrightarrow>
     row_ok n (r\<lparr>tk_state := Completed, tk_last_seen_at := now, tk_completed_at := Some now,
       tk_lease_expires_at := None\<rparr>)"
  by (auto simp: row_ok_def)

lemma reclaim_inv: "writer_inv s \<Longrightarrow> writer_inv (reclaimAndPruneSync now q s)"
  unfolding reclaimAndPruneSync_def prune_terminal_def Let_def
proof (rule writer_inv_filter)
  assume inv: "writer_inv s"
  have "meta_ok (ws_meta s)" by (rule writer_invD[OF inv])
  then show "writer_inv (reclaim_expired now q s)"
    unfolding reclaim_expired_def Let_def
    by (intro writer_inv_update[OF inv] one_active_update writer_invD(4)[OF inv])
       (auto simp: expire_row_ok meta_ok_def)
qed

lemma insert_ticket_inv:
  assumes inv: "writer_inv s" and "insert_ticket i now s = Inr s'"
  shows "writer_inv s'"
proof -
  from assms(2) have new: "in_ticketId i \<notin> tk_id ` set (ws_tickets s)" "1 \<le> in_runAttempt i"
    and s': "s' = s\<lparr>ws_tickets := ws_tickets s @ [new_ticket_row i (ws_last_seq s + 1) now],
      ws_last_seq := ws_last_seq s + 1\<rparr>"
    by (auto simp: insert_ticket_def split: if_splits)
  note D = writer_invD[OF inv]
  have seqs: "tk_seq r \<le> ws_last_seq s" if "r \<in> set (ws_tickets s)" for r
    using D(3)[OF that] by (simp add: row_ok_def)
  show ?thesis
    unfolding s'
  proof (rule writer_invI, simp_all)
    show "distinct (map tk_id (ws_tickets s)) \<and>
        tk_id (new_ticket_row i (ws_last_seq s + 1) now) \<notin> tk_id ` set (ws_tickets s)"
      using D(1) new by (simp add: new_ticket_row_def)
    show "sorted_wrt (<) (map tk_seq (ws_tickets s) @ [tk_seq (new_ticket_row i (ws_last_seq s + 1) now)])"
      using D(2) seqs by (auto simp: sorted_wrt_append new_ticket_row_def less_eq_iff_succ_less[symmetric] zle_add1_eq_le)
    show "row_ok (ws_last_seq s + 1) r"
      if "r = new_ticket_row i (ws_last_seq s + 1) now \<or> r \<in> set (ws_tickets s)" for r
      using that D(3) new by (force simp: row_ok_def new_ticket_row_def)
    show "one_active_index (ws_tickets s @ [new_ticket_row i (ws_last_seq s + 1) now])"
      using D(4) by (simp add: one_active_index_def new_ticket_row_def)
    show "meta_ok (ws_meta s)" by (rule D(5))
  qed
qed

lemma admit_ticket_inv:
  assumes inv: "writer_inv s" and "admit_ticket i row now leaseMs maxAge token s = Inr s'"
  shows "writer_inv s'"
proof -
  have m: "meta_ok (ws_meta s)" by (rule writer_invD[OF inv])
  from assms(2) show ?thesis
    unfolding admit_ticket_def Let_def
    by (auto split: if_splits intro!: writer_inv_update[OF inv] intro: lease_row_ok
        simp: m[unfolded meta_ok_def] meta_ok_def next_batch_turns_def next_intake_turns_def)
qed

text \<open>An update of rows that changes no key, no state and no lease window for the worse.\<close>

lemma writer_inv_touch:
  assumes inv: "writer_inv s"
    and f: "\<And>r. p r \<Longrightarrow> tk_id (f r) = tk_id r \<and> tk_seq (f r) = tk_seq r \<and> tk_state (f r) = tk_state r"
    and ok: "\<And>r. r \<in> set (ws_tickets s) \<Longrightarrow> p r \<Longrightarrow> row_ok (ws_last_seq s) r \<Longrightarrow> row_ok (ws_last_seq s) (f r)"
  shows "writer_inv (s\<lparr>ws_tickets := update_where p f (ws_tickets s)\<rparr>)"
proof -
  have "one_active_index (update_where p f (ws_tickets s))"
    by (rule one_active_update[OF writer_invD(4)[OF inv]]) (simp add: f)
  with writer_inv_update[OF inv, of p f "ws_meta s"] f ok writer_invD(5)[OF inv]
  show ?thesis by simp
qed

lemma poll_queued_inv:
  assumes inv: "writer_inv s" and "poll_queued i row now leaseMs maxAge token s = Inr s'"
  shows "writer_inv s'"
  using assms(2) admit_ticket_inv[OF inv] inv writer_inv_touch[OF inv]
  by (auto simp: poll_queued_def Let_def split: if_splits)

text \<open>What \<open>acquire\<close> does when it returns: an insertion if needed, then a poll.\<close>

lemma acquire_InrE:
  assumes "acquire i now leaseMs q maxAge token s0 = Inr (t, s')"
  obtains s2 row where
    "(case ticketRowSync (in_ticketId i) (reclaimAndPruneSync now q s0) of
        None \<Rightarrow> insert_ticket i now (reclaimAndPruneSync now q s0)
      | Some _ \<Rightarrow> Inr (reclaimAndPruneSync now q s0)) = Inr s2"
    "ticketRowSync (in_ticketId i) s2 = Some row" "ticketMatchesInput row i"
    "(tk_state row \<noteq> Queued \<and> s' = s2 \<and> t = ticketJsonSync row s2) \<or>
     (\<exists>row'. tk_state row = Queued \<and> poll_queued i row now leaseMs maxAge token s2 = Inr s' \<and>
        ticketRowSync (in_ticketId i) s' = Some row' \<and> t = ticketJsonSync row' s')"
  using assms unfolding acquire_def Let_def
  by (auto split: sum.splits option.splits if_splits)

lemma acquire_inv:
  assumes inv: "writer_inv s" and "acquire i now leaseMs q maxAge token s = Inr (t, s')"
  shows "writer_inv s'"
  using assms(2)
proof (cases rule: acquire_InrE)
  case (1 s2 row)
  have "writer_inv s2"
    using 1(1) reclaim_inv[OF inv, of now q] insert_ticket_inv[OF reclaim_inv[OF inv]]
    by (auto split: option.splits)
  then show ?thesis using 1(4) poll_queued_inv by blast
qed

lemma heartbeat_inv:
  assumes inv: "writer_inv s"
  shows "writer_inv (snd (heartbeat ticketId owner token now leaseMs q s))"
  using reclaim_inv[OF inv, of now q]
  by (auto simp: heartbeat_def Let_def split: option.splits intro!: writer_inv_touch renew_row_ok)

lemma release_inv:
  assumes inv: "writer_inv s"
  shows "writer_inv (snd (release ticketId owner token now q s))"
proof -
  let ?s = "reclaimAndPruneSync now q s"
  have r: "writer_inv ?s" by (rule reclaim_inv[OF inv])
  let ?rows = "update_where (releasable ticketId owner token now)
    (\<lambda>r. r\<lparr>tk_state := Completed, tk_last_seen_at := now, tk_completed_at := Some now,
      tk_lease_expires_at := None\<rparr>) (ws_tickets ?s)"
  have step: "writer_inv (?s\<lparr>ws_tickets := ?rows, ws_meta := m\<rparr>)" if "meta_ok m" for m
    by (intro writer_inv_update[OF r] one_active_update writer_invD(4)[OF r] that)
       (auto simp: releasable_def complete_row_ok)
  have m: "meta_ok (if c then ws_meta ?s\<lparr>wm_completed_total := wm_completed_total (ws_meta ?s) + 1\<rparr>
      else ws_meta ?s)" for c
    using writer_invD(5)[OF r] by (auto simp: meta_ok_def)
  show ?thesis
    unfolding release_def Let_def
    using r step[OF m] by (auto simp only: snd_conv split: if_split)
qed

lemma stats_inv: "writer_inv s \<Longrightarrow> writer_inv (snd (stats now q s))"
  by (simp add: stats_def Let_def reclaim_inv)

subsection \<open>The coordinator as a machine\<close>

datatype writer_op =
  OpAcquire ticket_input int int int int string
| OpHeartbeat string string string int int int
| OpRelease string string string int int
| OpStats int int

fun writer_step :: "writer_store \<Rightarrow> writer_op \<Rightarrow> writer_store" where
  "writer_step s (OpAcquire i now leaseMs q maxAge token) =
     (case acquire i now leaseMs q maxAge token s of Inl _ \<Rightarrow> s | Inr (_, s') \<Rightarrow> s')"
| "writer_step s (OpHeartbeat tid own tok now leaseMs q) = snd (heartbeat tid own tok now leaseMs q s)"
| "writer_step s (OpRelease tid own tok now q) = snd (release tid own tok now q s)"
| "writer_step s (OpStats now q) = snd (stats now q s)"

interpretation writer: invariant_machine writer_step empty_writer_store writer_inv
proof
  show "writer_inv empty_writer_store" by (rule empty_writer_inv)
  show "writer_inv (writer_step s x)" if "writer_inv s" for s x
    using that by (cases x) (auto simp: heartbeat_inv release_inv stats_inv acquire_inv
        split: sum.split)
qed

section \<open>Lemmas about the tables\<close>

lemma ws_tickets_reclaim:
  "ws_tickets (reclaimAndPruneSync now q s) =
     filter (\<lambda>r. tk_seq r \<notin> set (pruned_seqs (now - STATE_WRITER_TERMINAL_RETENTION_MS)
         (update_where (reclaimable now q) (expire_row now) (ws_tickets s))))
       (update_where (reclaimable now q) (expire_row now) (ws_tickets s))"
  by (simp add: reclaimAndPruneSync_def prune_terminal_def reclaim_expired_def Let_def)

lemma reclaim_rowD:
  "r \<in> set (ws_tickets (reclaimAndPruneSync now q s)) \<Longrightarrow> tk_state r \<noteq> Expired \<Longrightarrow>
     r \<in> set (ws_tickets s) \<and> \<not> reclaimable now q r"
  by (auto simp: ws_tickets_reclaim set_update_where split: if_splits)

lemma ticketRowSync_SomeD:
  "ticketRowSync t s = Some r \<Longrightarrow> r \<in> set (ws_tickets s) \<and> tk_id r = t"
  by (auto simp: ticketRowSync_def dest: find_SomeD)

lemma ticketRowSync_NoneD: "ticketRowSync t s = None \<Longrightarrow> t \<notin> tk_id ` set (ws_tickets s)"
  by (auto simp: ticketRowSync_def dest: find_NoneD)

lemma ticketRowSync_unique:
  "writer_inv s \<Longrightarrow> r \<in> set (ws_tickets s) \<Longrightarrow> ticketRowSync (tk_id r) s = Some r"
  unfolding ticketRowSync_def
  by (rule find_unique) (auto dest: writer_invD(1) intro: distinct_map_unique)

lemma ticketRowSync_update:
  "(\<And>r. p r \<Longrightarrow> tk_id (f r) = tk_id r) \<Longrightarrow> ws_tickets s' = update_where p f (ws_tickets s) \<Longrightarrow>
     ticketRowSync t s' = map_option (\<lambda>r. if p r then f r else r) (ticketRowSync t s)"
  by (simp add: ticketRowSync_def find_update_where)

lemma leased_unique:
  assumes inv: "writer_inv s" and "a \<in> set (ws_tickets s)" "b \<in> set (ws_tickets s)"
    "tk_state a = Leased" "tk_state b = Leased"
  shows "a = b"
proof (rule ccontr)
  assume "a \<noteq> b"
  then have "2 \<le> length (filter (\<lambda>r. tk_state r = Leased) (ws_tickets s))"
    using assms(2-5) by (intro two_rows_length[of a _ b]) auto
  with writer_invD(4)[OF inv] show False by (simp add: one_active_index_def)
qed

lemma activeRowSync_NoneD: "activeRowSync s = None \<Longrightarrow> r \<in> set (ws_tickets s) \<Longrightarrow> tk_state r \<noteq> Leased"
  by (auto simp: activeRowSync_def dest: find_NoneD)

lemma admit_index:
  assumes inv: "writer_inv s" and "activeRowSync s = None"
  shows "one_active_index (update_where (\<lambda>r. tk_id r = t \<and> tk_state r = Queued) f (ws_tickets s))"
proof -
  have "length (filter (\<lambda>r. tk_state r = Leased)
      (update_where (\<lambda>r. tk_id r = t \<and> tk_state r = Queued) f (ws_tickets s)))
    \<le> length (filter (\<lambda>r. tk_id r = t \<and> tk_state r = Queued) (ws_tickets s))"
    by (rule length_filter_update_le_sel) (rule activeRowSync_NoneD[OF assms(2)])
  also have "\<dots> \<le> 1" by (rule length_filter_key_le[OF writer_invD(1)[OF inv]])
  finally show ?thesis by (simp add: one_active_index_def)
qed

lemma poll_queued_ok:
  assumes inv: "writer_inv s" and row: "ticketRowSync (in_ticketId i) s = Some row"
  shows "\<exists>s' row'. poll_queued i row now leaseMs maxAge token s = Inr s'
     \<and> ticketRowSync (in_ticketId i) s' = Some row'"
proof -
  have admit: "\<exists>s' row'. admit_ticket i row now leaseMs maxAge token s = Inr s'
      \<and> ticketRowSync (in_ticketId i) s' = Some row'" if "activeRowSync s = None"
    using admit_index[OF inv that] row
    by (simp add: admit_ticket_def Let_def ticketRowSync_def find_update_where)
  show ?thesis
    using admit row
    by (auto simp: poll_queued_def Let_def ticketRowSync_def find_update_where)
qed

lemma insert_ticket_ok:
  assumes inv: "writer_inv s" and "ticketRowSync (in_ticketId i) s = None" "1 \<le> in_runAttempt i"
  shows "\<exists>s'. insert_ticket i now s = Inr s'
     \<and> ticketRowSync (in_ticketId i) s' = Some (new_ticket_row i (ws_last_seq s + 1) now)"
proof -
  have new: "in_ticketId i \<notin> tk_id ` set (ws_tickets s)" by (rule ticketRowSync_NoneD[OF assms(2)])
  have ins: "insert_ticket i now s = Inr (s\<lparr>ws_tickets := ws_tickets s @ [new_ticket_row i (ws_last_seq s + 1) now],
      ws_last_seq := ws_last_seq s + 1\<rparr>)"
    using new assms(3) by (simp add: insert_ticket_def)
  have "tk_id (new_ticket_row i (ws_last_seq s + 1) now) = in_ticketId i"
    by (simp add: new_ticket_row_def)
  with ticketRowSync_unique[OF insert_ticket_inv[OF inv ins], of "new_ticket_row i (ws_last_seq s + 1) now"]
  show ?thesis using ins by auto
qed

lemma new_ticket_row_matches [simp]:
  "ticketMatchesInput (new_ticket_row i n now) i" "tk_state (new_ticket_row i n now) = Queued"
  by (simp_all add: ticketMatchesInput_def new_ticket_row_def)

subsection \<open>The order after an admission\<close>

definition drop_head :: "ticket_row \<Rightarrow> writer_class \<Rightarrow> ticket_row list \<Rightarrow> ticket_row list" where
  "drop_head h c xs = (if tk_class h = c then tl xs else xs)"

lemma fair_order_uncons:
  assumes "fair_order is bs os m n = h # ys"
    and "\<forall>r\<in>set is. tk_class r = ClusterIntake" "\<forall>r\<in>set bs. tk_class r = PublicationBatch"
      "\<forall>r\<in>set os. tk_class r = Ordinary"
  shows "ys = fair_order (drop_head h ClusterIntake is) (drop_head h PublicationBatch bs) (drop_head h Ordinary os)
       (next_batch_turns (tk_class h) (os \<noteq> []) m) (next_intake_turns (tk_class h) (os \<noteq> []) n)
     \<and> (case tk_class h of ClusterIntake \<Rightarrow> is | PublicationBatch \<Rightarrow> bs | Ordinary \<Rightarrow> os)
       = h # (case tk_class h of ClusterIntake \<Rightarrow> tl is | PublicationBatch \<Rightarrow> tl bs | Ordinary \<Rightarrow> tl os)"
proof -
  have ne: "\<not> (is = [] \<and> bs = [] \<and> os = [])" using assms(1) by auto
  show ?thesis
  proof (cases "serve_class (is \<noteq> []) (bs \<noteq> []) (os \<noteq> []) m n")
    case Ordinary
    moreover from this ne obtain x xs where "os = x # xs"
      using serve_class_available(3) by (metis neq_Nil_conv)
    ultimately show ?thesis using assms
      by (auto simp: fair_order_steps drop_head_def next_batch_turns_def next_intake_turns_def)
  next
    case PublicationBatch
    moreover from this obtain x xs where "bs = x # xs"
      using serve_class_available(2) by (metis neq_Nil_conv)
    ultimately show ?thesis using assms by (auto simp: fair_order_steps drop_head_def)
  next
    case ClusterIntake
    moreover from this obtain x xs where "is = x # xs"
      using serve_class_available(1) by (metis neq_Nil_conv)
    ultimately show ?thesis using assms by (auto simp: fair_order_steps drop_head_def)
  qed
qed

lemma queued_after_lease:
  "(\<And>r. tk_state (f r) = Leased) \<Longrightarrow>
   filter (\<lambda>r. tk_state r = Queued) (update_where (\<lambda>r. tk_id r = t \<and> tk_state r = Queued) f rs)
     = filter (\<lambda>r. tk_id r \<noteq> t) (filter (\<lambda>r. tk_state r = Queued) rs)"
  by (induction rs) auto

lemma class_rows_after_lease:
  assumes inv: "writer_inv s" and hq: "h \<in> set (ws_tickets s)"
    and hd: "class_rows (tk_class h) s = h # tl (class_rows (tk_class h) s)"
    and s': "ws_tickets s' = update_where (\<lambda>r. tk_id r = tk_id h \<and> tk_state r = Queued) f (ws_tickets s)"
    and f: "\<And>r. tk_state (f r) = Leased"
  shows "class_rows c s' = drop_head h c (class_rows c s)"
proof -
  have rows: "class_rows c s' = filter (\<lambda>r. tk_id r \<noteq> tk_id h) (class_rows c s)" for c
    by (simp only: class_rows_def s' queued_after_lease[OF f]) (simp add: conj_ac)
  have same: "r = h" if "r \<in> set (class_rows c s)" "tk_id r = tk_id h" for r c
    using that hq writer_invD(1)[OF inv] by (auto simp: class_rows_def intro: distinct_map_unique)
  show ?thesis
  proof (cases "tk_class h = c")
    case True
    have "distinct (map tk_id (class_rows c s))"
      by (simp add: class_rows_def distinct_map_filter writer_invD(1)[OF inv])
    with hd True have "tk_id h \<notin> tk_id ` set (tl (class_rows c s))"
      by (metis distinct.simps(2) list.simps(9) set_map)
    then have "filter (\<lambda>r. tk_id r \<noteq> tk_id h) (h # tl (class_rows c s)) = tl (class_rows c s)"
      by (auto simp: filter_id_conv) (metis imageI)
    with hd True show ?thesis by (simp add: rows drop_head_def)
  next
    case False
    then have "\<forall>r\<in>set (class_rows c s). tk_id r \<noteq> tk_id h"
      using same class_rows_class by blast
    with False show ?thesis by (simp add: rows drop_head_def filter_id_conv)
  qed
qed

lemma ordinary_waiting_class_rows: "ordinary_waiting (ws_tickets s) \<longleftrightarrow> class_rows Ordinary s \<noteq> []"
  by (auto simp: ordinary_waiting_def class_rows_def list_ex_iff filter_empty_conv)

section \<open>Properties\<close>

text \<open>
  The fair order of the queue is always produced: the loop ends, it never pushes
  \<open>undefined\<close>, the array it returns is a permutation of the queued tickets, and inside
  each writer class the tickets keep the order of their sequence numbers (FIFO per class).
\<close>

theorem queuedOrder_fifo_permutation:
  "\<exists>xs. queuedOrderSync s = Some (map Some xs)
      \<and> mset xs = mset (filter (\<lambda>r. tk_state r = Queued) (ws_tickets s))
      \<and> (\<forall>c. filter (\<lambda>r. tk_class r = c) xs = class_rows c s)"
  using queuedOrderSync_fair mset_fair_queue fair_queue_class by blast

text \<open>
  C40. No starvation of ordinary writers: the priority tickets (publication batches and cluster
  intakes) that the published order puts before an ordinary ticket are at most what is left of
  the budget of two consecutive priority turns, and two more for every ordinary ticket that is
  also before it.
\<close>

theorem ordinary_bypass_bounded:
  assumes "queuedOrderSync s = Some (map Some (xs @ r # ys))" and "tk_class r = Ordinary"
  shows "length (filter (\<lambda>q. tk_class q \<noteq> Ordinary) xs)
     \<le> nat (2 - (wm_batch_turns (ws_meta s) + wm_intake_turns (ws_meta s)))
       + 2 * length (filter (\<lambda>q. tk_class q = Ordinary) xs)"
proof -
  have "map Some (fair_queue s) = map Some (xs @ r # ys)" using assms(1) by (simp add: queuedOrderSync_fair)
  then have "fair_queue s = xs @ r # ys" by (metis inj_Some map_injective)
  then show ?thesis
    using fair_order_bypass[OF class_rows_class class_rows_class class_rows_class _ assms(2), of s s s _ _ xs ys]
    by (simp add: fair_queue_def MAX_CONSECUTIVE_PRIORITY_TURNS_def)
qed

text \<open>
  C1. The order is a promise: when no lease is active, a matching poll of the ticket at the
  head is admitted with the requested lease, never past the absolute deadline, and the
  order published afterwards is the rest of the order published before.
\<close>

theorem acquire_admits_head:
  assumes inv: "writer_inv s0"
    and s1: "s1 = reclaimAndPruneSync now q s0"
    and order: "queuedOrderSync s1 = Some (Some h # ys)"
    and free: "activeRowSync s1 = None"
    and i: "in_ticketId i = tk_id h" "ticketMatchesInput h i"
  shows "\<exists>t s'. acquire i now leaseMs q maxAge token s0 = Inr (t, s')
     \<and> wt_state t = Leased \<and> wt_ticketId t = tk_id h
     \<and> wt_leaseExpiresAt t = Some (min (now + leaseMs) (now + maxAge))
     \<and> wt_leaseDeadlineAt t = Some (now + maxAge)
     \<and> queuedOrderSync s' = Some ys"
proof -
  have inv1: "writer_inv s1" unfolding s1 by (rule reclaim_inv[OF inv])
  from order obtain ys' where fq: "fair_queue s1 = h # ys'" and ys: "ys = map Some ys'"
    by (auto simp: queuedOrderSync_fair)
  have h: "h \<in> set (ws_tickets s1)" "tk_state h = Queued"
    using set_fair_queue[of s1] fq by auto
  have row: "ticketRowSync (in_ticketId i) s1 = Some h"
    using ticketRowSync_unique[OF inv1 h(1)] i by simp
  let ?f = "lease_row now token (min (now + leaseMs) (now + maxAge)) (now + maxAge)"
  let ?rows = "update_where (\<lambda>r. tk_id r = tk_id h \<and> tk_state r = Queued) ?f (ws_tickets s1)"
  obtain s' where adm: "admit_ticket i h now leaseMs maxAge token s1 = Inr s'"
    and rows: "ws_tickets s' = ?rows"
    and bt: "wm_batch_turns (ws_meta s') = next_batch_turns (in_writerClass i) (ordinary_waiting ?rows) (wm_batch_turns (ws_meta s1))"
    and it: "wm_intake_turns (ws_meta s') = next_intake_turns (in_writerClass i) (ordinary_waiting ?rows) (wm_intake_turns (ws_meta s1))"
    using admit_index[OF inv1 free, of "tk_id h" ?f] i
    by (simp add: admit_ticket_def Let_def)
  have poll: "poll_queued i h now leaseMs maxAge token s1 = Inr s'"
    using free i adm by (simp add: poll_queued_def Let_def queuedHeadSync_fair fq)
  have row': "ticketRowSync (in_ticketId i) s' = Some (?f h)"
    using row h i by (simp add: ticketRowSync_def rows find_update_where)
  note un = fair_order_uncons[OF fq[unfolded fair_queue_def] class_rows_class class_rows_class class_rows_class]
  have hd: "class_rows (tk_class h) s1 = h # tl (class_rows (tk_class h) s1)"
    using un by (cases "tk_class h") auto
  have cr: "class_rows c s' = drop_head h c (class_rows c s1)" for c
    by (rule class_rows_after_lease[OF inv1 h(1) hd rows]) simp
  have w: "ordinary_waiting ?rows \<longleftrightarrow> drop_head h Ordinary (class_rows Ordinary s1) \<noteq> []"
    using ordinary_waiting_class_rows[of s'] by (simp add: rows cr)
  have cls: "in_writerClass i = tk_class h" using i by (simp add: ticketMatchesInput_def)
  have "fair_queue s' = ys'"
    unfolding fair_queue_def cr bt it w cls
    using un by (cases "tk_class h") (simp_all add: drop_head_def next_batch_turns_def next_intake_turns_def)
  moreover have "acquire i now leaseMs q maxAge token s0 = Inr (ticketJsonSync (?f h) s', s')"
    using row h(2) i poll row' by (simp add: acquire_def Let_def s1[symmetric])
  ultimately show ?thesis
    by (simp add: queuedOrderSync_fair ys ticketJsonSync_def lease_row_def)
qed

text \<open>
  C9. At every state the coordinator can reach, under any interleaving of polls, heartbeats,
  releases and reports and any clock readings, at most one ticket holds the lease, ticket
  ids are unique, and a held lease has a token, was admitted exactly once and expires no
  later than its absolute deadline.
\<close>

theorem writer_reachable_exclusive:
  "one_active_index (ws_tickets (run_ops writer_step empty_writer_store xs))
   \<and> distinct (map tk_id (ws_tickets (run_ops writer_step empty_writer_store xs)))
   \<and> list_all (\<lambda>r. tk_lease_generation r = 1 \<and> tk_lease_token r \<noteq> None \<and>
        num_or_zero (tk_lease_expires_at r) \<le> num_or_zero (tk_lease_deadline_at r))
      (filter (\<lambda>r. tk_state r = Leased) (ws_tickets (run_ops writer_step empty_writer_store xs)))"
proof -
  let ?s = "run_ops writer_step empty_writer_store xs"
  have inv: "writer_inv ?s" by (rule writer.inv_reachable)
  have "tk_lease_generation r = 1 \<and> tk_lease_token r \<noteq> None \<and>
      num_or_zero (tk_lease_expires_at r) \<le> num_or_zero (tk_lease_deadline_at r)"
    if "r \<in> set (ws_tickets ?s)" "tk_state r = Leased" for r
    using writer_invD(3)[OF inv that(1)] that(2) by (auto simp: row_ok_def)
  then show ?thesis using writer_invD(1,4)[OF inv] by (simp add: list_all_iff)
qed

text \<open>A heartbeat that succeeds names the unique leased row, whose deadline is in the future.\<close>

lemma heartbeat_SomeE:
  assumes inv: "writer_inv s" and hb: "fst (heartbeat tid own tok now leaseMs q s) = Some t"
  obtains r d where "r \<in> set (ws_tickets s)" "tk_state r = Leased" "tk_id r = tid" "tk_owner r = own"
    "tk_lease_token r = Some tok" "tk_lease_deadline_at r = Some d" "now < d"
    "wt_leaseExpiresAt t = Some (min (now + leaseMs) d)" "wt_leaseDeadlineAt t = Some d" "wt_state t = Leased"
proof -
  let ?s1 = "reclaimAndPruneSync now q s"
  from hb obtain r where row: "ticketRowSync tid ?s1 = Some r" and r: "tk_state r = Leased" "tk_owner r = own"
    "tk_lease_token r = Some tok" "now < num_or_zero (tk_lease_expires_at r)"
    "now < num_or_zero (tk_lease_deadline_at r)"
    by (auto simp: heartbeat_def Let_def not_le split: option.splits if_splits)
  have rs: "r \<in> set (ws_tickets ?s1)" "tk_id r = tid" using ticketRowSync_SomeD[OF row] by auto
  from rs(1) r(1) have "r \<in> set (ws_tickets s)" by (auto dest: reclaim_rowD)
  moreover obtain d where d: "tk_lease_deadline_at r = Some d"
    using writer_invD(3)[OF reclaim_inv[OF inv] rs(1)] r(1) by (auto simp: row_ok_def)
  moreover have "wt_leaseExpiresAt t = Some (min (now + leaseMs) d) \<and> wt_leaseDeadlineAt t = Some d \<and> wt_state t = Leased"
    using hb row r rs(2) d
    by (auto simp: heartbeat_def Let_def ticketRowSync_def find_update_where ticketJsonSync_def)
  ultimately show thesis using that r rs(2) by auto
qed

text \<open>
  Fencing: two heartbeats accepted against one reachable state, whatever their clocks,
  come from the same ticket, owner and lease token.
\<close>

theorem heartbeat_holder_unique:
  assumes "s = run_ops writer_step empty_writer_store xs"
    and "fst (heartbeat tid own tok now leaseMs q s) = Some t"
    and "fst (heartbeat tid' own' tok' now' leaseMs' q' s) = Some t'"
  shows "tid = tid' \<and> own = own' \<and> tok = tok'"
proof -
  have inv: "writer_inv s" using assms(1) writer.inv_reachable by simp
  show ?thesis
    by (rule heartbeat_SomeE[OF inv assms(2)], rule heartbeat_SomeE[OF inv assms(3)])
       (metis leased_unique[OF inv] option.inject)
qed

text \<open>
  Renewal cannot stretch a lease: an accepted heartbeat reports the deadline fixed at
  admission, which is still in the future, and an expiry that is at most that deadline.
\<close>

theorem heartbeat_within_deadline:
  assumes "s = run_ops writer_step empty_writer_store xs"
    and "fst (heartbeat tid own tok now leaseMs q s) = Some t"
  shows "\<exists>r d. r \<in> set (ws_tickets s) \<and> tk_id r = tid \<and> tk_lease_deadline_at r = Some d
     \<and> wt_leaseDeadlineAt t = Some d \<and> now < d
     \<and> wt_leaseExpiresAt t = Some (min (now + leaseMs) d)"
proof -
  have inv: "writer_inv s" using assms(1) writer.inv_reachable by simp
  show ?thesis by (rule heartbeat_SomeE[OF inv assms(2)]) blast
qed

lemma release_TrueE:
  assumes "fst (release tid own tok now q s)"
  obtains r where "r \<in> set (ws_tickets (reclaimAndPruneSync now q s))" "tk_id r = tid" "tk_owner r = own"
    "tk_lease_token r = Some tok"
    "tk_state r = Completed \<or> (tk_state r = Leased \<and> sql_gt (tk_lease_deadline_at r) now)"
proof -
  let ?s1 = "reclaimAndPruneSync now q s"
  show thesis
  proof (cases "\<exists>e. ticketRowSync tid ?s1 = Some e \<and> tk_state e = Completed \<and> tk_owner e = own \<and> tk_lease_token e = Some tok")
    case True
    then show ?thesis using that ticketRowSync_SomeD by blast
  next
    case False
    with assms have "length (filter (releasable tid own tok now) (ws_tickets ?s1)) = 1"
      by (auto simp: release_def Let_def split: option.splits if_splits)
    then have "filter (releasable tid own tok now) (ws_tickets ?s1) \<noteq> []" by auto
    then obtain r where "r \<in> set (ws_tickets ?s1)" "releasable tid own tok now r"
      by (auto simp: filter_empty_conv)
    then show ?thesis using that by (auto simp: releasable_def)
  qed
qed

text \<open>
  A lease past its absolute deadline is dead: neither a heartbeat nor a release with the
  right owner and token succeeds any more, so a stalled writer cannot commit late.
\<close>

theorem expired_lease_fenced:
  assumes "s = run_ops writer_step empty_writer_store xs" and "r \<in> set (ws_tickets s)"
    and "tk_state r = Leased" and "sql_le (tk_lease_deadline_at r) now"
  shows "fst (heartbeat (tk_id r) own tok now leaseMs q s) = None
     \<and> \<not> fst (release (tk_id r) own tok now q s)"
proof -
  have inv: "writer_inv s" using assms(1) writer.inv_reachable by simp
  have same: "r' = r" if "r' \<in> set (ws_tickets s)" "tk_id r' = tk_id r" for r'
    using that assms(2) writer_invD(1)[OF inv] by (blast intro: distinct_map_unique)
  have "reclaimable now q r" using assms(3,4) by (simp add: reclaimable_def)
  have "False" if "fst (release (tk_id r) own tok now q s)"
    by (rule release_TrueE[OF that]) (use reclaim_rowD same \<open>reclaimable now q r\<close> assms(3) in force)
  moreover have "fst (heartbeat (tk_id r) own tok now leaseMs q s) \<noteq> Some t" for t
  proof
    assume hb: "fst (heartbeat (tk_id r) own tok now leaseMs q s) = Some t"
    show False
      by (rule heartbeat_SomeE[OF inv hb]) (use same assms(4) in force)
  qed
  ultimately show ?thesis by auto
qed

lemma release_completes:
  assumes inv: "writer_inv s" and rel: "fst (release tid own tok now q s)"
  shows "\<exists>r c. ticketRowSync tid (snd (release tid own tok now q s)) = Some r \<and> tk_state r = Completed
     \<and> tk_owner r = own \<and> tk_lease_token r = Some tok \<and> tk_completed_at r = Some c"
proof -
  let ?s1 = "reclaimAndPruneSync now q s"
  have inv1: "writer_inv ?s1" by (rule reclaim_inv[OF inv])
  have inv2: "writer_inv (snd (release tid own tok now q s))" by (rule release_inv[OF inv])
  show ?thesis
  proof (cases "\<exists>e. ticketRowSync tid ?s1 = Some e \<and> tk_state e = Completed \<and> tk_owner e = own \<and> tk_lease_token e = Some tok")
    case True
    then obtain e where e: "ticketRowSync tid ?s1 = Some e" "tk_state e = Completed" "tk_owner e = own"
      "tk_lease_token e = Some tok" by blast
    with ticketRowSync_SomeD[OF e(1)] writer_invD(3)[OF inv1, of e] obtain c where "tk_completed_at e = Some c"
      by (auto simp: row_ok_def)
    with e show ?thesis by (auto simp: release_def Let_def)
  next
    case False
    with rel have "length (filter (releasable tid own tok now) (ws_tickets ?s1)) = 1"
      by (auto simp: release_def Let_def split: option.splits if_splits)
    then have "filter (releasable tid own tok now) (ws_tickets ?s1) \<noteq> []" by auto
    then obtain r where r: "r \<in> set (ws_tickets ?s1)" "releasable tid own tok now r"
      by (auto simp: filter_empty_conv)
    then have "ticketRowSync tid ?s1 = Some r"
      using ticketRowSync_unique[OF inv1 r(1)] by (simp add: releasable_def)
    with False r show ?thesis
      by (auto simp: release_def Let_def ticketRowSync_def find_update_where releasable_def)
  qed
qed

lemma completed_not_reclaimable: "tk_state r = Completed \<Longrightarrow> \<not> reclaimable now q r"
  by (simp add: reclaimable_def)

lemma reclaim_keeps_completed:
  assumes inv: "writer_inv s" and r: "r \<in> set (ws_tickets s)" "tk_state r = Completed"
    and c: "tk_completed_at r = Some c" "now - STATE_WRITER_TERMINAL_RETENTION_MS < c"
  shows "r \<in> set (ws_tickets (reclaimAndPruneSync now q s))"
proof -
  let ?rows = "update_where (reclaimable now q) (expire_row now) (ws_tickets s)"
  let ?old = "now - STATE_WRITER_TERMINAL_RETENTION_MS"
  have mem: "r \<in> set ?rows" using r completed_not_reclaimable by (force simp: set_update_where)
  have "sorted_wrt (<) (map tk_seq ?rows)"
    using writer_invD(2)[OF inv] by (simp add: map_update_where_same)
  then have dist: "distinct (map tk_seq ?rows)" by (simp only: strict_sorted_iff)
  have "tk_seq r \<notin> set (pruned_seqs ?old ?rows)"
  proof
    assume "tk_seq r \<in> set (pruned_seqs ?old ?rows)"
    then obtain x where x: "x \<in> set (take STATE_WRITER_TERMINAL_PRUNE_LIMIT
        (js_sort prune_order (filter (prunable ?old) ?rows)))" "tk_seq x = tk_seq r"
      by (auto simp: pruned_seqs_def)
    from x(1) have "x \<in> set ?rows \<and> prunable ?old x"
      by (auto dest: in_set_takeD)
    with x(2) mem dist have "prunable ?old r" by (metis distinct_map_unique)
    with c show False by (simp add: prunable_def)
  qed
  with mem show ?thesis by (simp add: ws_tickets_reclaim)
qed

text \<open>
  Release is idempotent: once a release is acknowledged, repeating it with the same
  ticket, owner and token is acknowledged again, at any later time up to one week after the
  recorded completion (then the receipt may be pruned).
\<close>

theorem release_idempotent:
  assumes "s = run_ops writer_step empty_writer_store xs" and "fst (release tid own tok now q s)"
  shows "\<exists>r c. ticketRowSync tid (snd (release tid own tok now q s)) = Some r
     \<and> tk_state r = Completed \<and> tk_completed_at r = Some c
     \<and> (\<forall>now' q'. now' - 7 * 24 * 60 * 60 * 1000 < c \<longrightarrow>
          fst (release tid own tok now' q' (snd (release tid own tok now q s))))"
proof -
  let ?s' = "snd (release tid own tok now q s)"
  have inv: "writer_inv s" using assms(1) writer.inv_reachable by simp
  have inv': "writer_inv ?s'" by (rule release_inv[OF inv])
  from release_completes[OF inv assms(2)] obtain r c where
    r: "ticketRowSync tid ?s' = Some r" "tk_state r = Completed" "tk_owner r = own"
      "tk_lease_token r = Some tok" "tk_completed_at r = Some c" by blast
  have "fst (release tid own tok now' q' ?s')" if "now' - 7 * 24 * 60 * 60 * 1000 < c" for now' q'
  proof -
    have "r \<in> set (ws_tickets (reclaimAndPruneSync now' q' ?s'))"
      using that r ticketRowSync_SomeD[OF r(1)]
      by (intro reclaim_keeps_completed[OF inv']) (auto simp: STATE_WRITER_TERMINAL_RETENTION_MS_def)
    from ticketRowSync_unique[OF reclaim_inv[OF inv'] this] r ticketRowSync_SomeD[OF r(1)]
    show ?thesis by (simp add: release_def Let_def)
  qed
  with r show ?thesis by blast
qed

text \<open>
  The only way a poll fails: from every reachable state, a poll with a legal attempt
  number never breaks a table constraint and never loses its row; it fails only when the
  ticket id is already taken by a ticket with other metadata.
\<close>

theorem acquire_error_only_mismatch:
  assumes "s = run_ops writer_step empty_writer_store xs" and "1 \<le> in_runAttempt i"
    and err: "acquire i now leaseMs q maxAge token s = Inl e"
  shows "e = MetadataMismatch \<and> (\<exists>r. ticketRowSync (in_ticketId i) (reclaimAndPruneSync now q s) = Some r
     \<and> \<not> ticketMatchesInput r i)"
proof -
  let ?s1 = "reclaimAndPruneSync now q s"
  have inv: "writer_inv s" using assms(1) writer.inv_reachable by simp
  have inv1: "writer_inv ?s1" by (rule reclaim_inv[OF inv])
  show ?thesis
  proof (cases "ticketRowSync (in_ticketId i) ?s1")
    case None
    from insert_ticket_ok[OF inv1 None assms(2), of now] obtain s2 where
      s2: "insert_ticket i now ?s1 = Inr s2"
        "ticketRowSync (in_ticketId i) s2 = Some (new_ticket_row i (ws_last_seq ?s1 + 1) now)" by blast
    from poll_queued_ok[OF insert_ticket_inv[OF inv1 s2(1)] s2(2), of now leaseMs maxAge token]
    show ?thesis using err None s2 by (auto simp: acquire_def Let_def)
  next
    case (Some r)
    from poll_queued_ok[OF inv1 Some, of now leaseMs maxAge token]
    show ?thesis using err Some by (auto simp: acquire_def Let_def split: if_splits)
  qed
qed

section \<open>Witnesses\<close>

text \<open>Concrete stores on which the hypotheses of the properties hold.\<close>

definition sample_input :: "string \<Rightarrow> writer_class \<Rightarrow> ticket_input" where
  "sample_input t c = \<lparr>in_ticketId = t, in_owner = ''o'', in_branch = ''state'', in_repository = ''r'',
     in_workflow = ''w'', in_job = ''j'', in_runId = ''7'', in_runAttempt = 1, in_writerClass = c\<rparr>"

definition sample_queued :: writer_store where
  "sample_queued = empty_writer_store\<lparr>ws_tickets :=
     [new_ticket_row (sample_input ''a'' Ordinary) 1 1000, new_ticket_row (sample_input ''b'' ClusterIntake) 2 1000],
     ws_last_seq := 2\<rparr>"

lemma sample_reclaim: "reclaimAndPruneSync 1100 5000 sample_queued = sample_queued"
  by (simp add: reclaimAndPruneSync_def reclaim_expired_def prune_terminal_def sample_queued_def empty_writer_store_def
      reclaimable_def new_ticket_row_def pruned_seqs_def prunable_def)

lemma sample_class_rows: "class_rows Ordinary sample_queued = [new_ticket_row (sample_input ''a'' Ordinary) 1 1000]"
  "class_rows ClusterIntake sample_queued = [new_ticket_row (sample_input ''b'' ClusterIntake) 2 1000]"
  "class_rows PublicationBatch sample_queued = []"
  by (simp_all add: class_rows_def sample_queued_def new_ticket_row_def sample_input_def)

lemma sample_order: "queuedOrderSync sample_queued = Some [Some (new_ticket_row (sample_input ''b'' ClusterIntake) 2 1000),
     Some (new_ticket_row (sample_input ''a'' Ordinary) 1 1000)]"
  by (simp add: queuedOrderSync_fair fair_queue_def sample_class_rows)
     (simp add: fair_order.simps serve_class_def sample_queued_def empty_writer_store_def
    MAX_CONSECUTIVE_PRIORITY_TURNS_def MAX_CONSECUTIVE_INTAKE_TURNS_def next_batch_turns_def next_intake_turns_def)

lemma sample_queued_inv: "writer_inv sample_queued"
  by (simp add: writer_inv_def sample_queued_def empty_writer_store_def new_ticket_row_def sample_input_def row_ok_def one_active_index_def meta_ok_def)

definition sample_ops :: "writer_op list" where
  "sample_ops = [OpAcquire (sample_input ''a'' Ordinary) 1000 500 5000 2000 ''tok'']"

definition sample_leased :: writer_store where
  "sample_leased = empty_writer_store\<lparr>ws_tickets :=
     [lease_row 1000 ''tok'' 1500 3000 (new_ticket_row (sample_input ''a'' Ordinary) 1 1000)],
   ws_last_seq := 1, ws_meta := (ws_meta empty_writer_store)\<lparr>wm_admitted_total := 1\<rparr>\<rparr>"

lemma reclaim_empty: "reclaimAndPruneSync now q empty_writer_store = empty_writer_store"
  by (simp add: reclaimAndPruneSync_def reclaim_expired_def prune_terminal_def empty_writer_store_def pruned_seqs_def)

lemmas sample_row_defs = lease_row_def new_ticket_row_def sample_input_def

lemma sample_run: "run_ops writer_step empty_writer_store sample_ops = sample_leased"
  by (simp add: sample_ops_def acquire_def Let_def reclaim_empty)
     (simp add: ticketRowSync_def insert_ticket_def poll_queued_def activeRowSync_def
    queuedHeadSync_fair fair_queue_def class_rows_def admit_ticket_def fair_order.simps serve_class_def one_active_index_def
    sample_row_defs ticketMatchesInput_def empty_writer_store_def sample_leased_def
    next_batch_turns_def next_intake_turns_def ordinary_waiting_def)

lemma sample_leased_reclaim: "reclaimAndPruneSync 1100 5000 sample_leased = sample_leased"
  by (simp add: sample_leased_def reclaimAndPruneSync_def reclaim_expired_def prune_terminal_def empty_writer_store_def
      reclaimable_def sample_row_defs pruned_seqs_def prunable_def)

lemmas sample_leased_defs = sample_leased_def sample_row_defs empty_writer_store_def ticketRowSync_def

lemma sample_heartbeat: "\<exists>t. fst (heartbeat ''a'' ''o'' ''tok'' 1100 500 5000 sample_leased) = Some t"
  by (simp add: heartbeat_def Let_def sample_leased_reclaim) (simp add: sample_leased_defs Let_def)
lemma sample_release: "fst (release ''a'' ''o'' ''tok'' 1100 5000 sample_leased)"
  by (simp add: release_def Let_def sample_leased_reclaim) (simp add: sample_leased_defs releasable_def)
lemma sample_mismatch: "acquire ((sample_input ''a'' ClusterIntake)) 1100 500 5000 2000 ''t'' sample_leased = Inl MetadataMismatch"
  by (simp add: acquire_def Let_def sample_leased_reclaim) (simp add: sample_leased_defs ticketMatchesInput_def)

theorem ordinary_bypass_bounded_witness:
  "tk_class (new_ticket_row (sample_input ''a'' Ordinary) 1 1000) = Ordinary
   \<and> length (filter (\<lambda>q. tk_class q \<noteq> Ordinary) [new_ticket_row (sample_input ''b'' ClusterIntake) 2 1000]) \<le> 2"
proof -
  have c: "tk_class (new_ticket_row (sample_input ''a'' Ordinary) 1 1000) = Ordinary"
    "tk_class (new_ticket_row (sample_input ''b'' ClusterIntake) 2 1000) = ClusterIntake"
    by (simp_all add: new_ticket_row_def sample_input_def)
  show ?thesis
    using c ordinary_bypass_bounded[of sample_queued "[new_ticket_row (sample_input ''b'' ClusterIntake) 2 1000]"
      "new_ticket_row (sample_input ''a'' Ordinary) 1 1000" "[]"] sample_order
    by (simp add: sample_queued_def empty_writer_store_def)
qed

theorem acquire_admits_head_witness:
  "\<exists>t s'. acquire (sample_input ''b'' ClusterIntake) 1100 500 5000 2000 ''tok'' sample_queued = Inr (t, s')
     \<and> wt_state t = Leased \<and> wt_leaseExpiresAt t = Some 1600
     \<and> queuedOrderSync s' = Some [Some (new_ticket_row (sample_input ''a'' Ordinary) 1 1000)]"
proof -
  have free: "activeRowSync sample_queued = None"
    by (simp add: activeRowSync_def sample_queued_def new_ticket_row_def)
  have i: "in_ticketId (sample_input ''b'' ClusterIntake) = tk_id (new_ticket_row (sample_input ''b'' ClusterIntake) 2 1000)"
    by (simp add: new_ticket_row_def)
  show ?thesis
    using acquire_admits_head[OF sample_queued_inv sample_reclaim[symmetric] sample_order free i,
        of 500 2000 "''tok''"] by auto
qed

theorem heartbeat_holder_unique_witness:
  "\<exists>t. fst (heartbeat ''a'' ''o'' ''tok'' 1100 500 5000 sample_leased) = Some t
     \<and> ''a'' = ''a'' \<and> ''o'' = ''o'' \<and> ''tok'' = ''tok''"
proof -
  obtain t where t: "fst (heartbeat ''a'' ''o'' ''tok'' 1100 500 5000 sample_leased) = Some t"
    using sample_heartbeat by blast
  from heartbeat_holder_unique[OF sample_run[symmetric] t t] t show ?thesis by blast
qed

theorem heartbeat_within_deadline_witness:
  "\<exists>t d. fst (heartbeat ''a'' ''o'' ''tok'' 1100 500 5000 sample_leased) = Some t
     \<and> wt_leaseDeadlineAt t = Some d \<and> 1100 < d \<and> wt_leaseExpiresAt t = Some (min 1600 d)"
proof -
  obtain t where t: "fst (heartbeat ''a'' ''o'' ''tok'' 1100 500 5000 sample_leased) = Some t"
    using sample_heartbeat by blast
  from heartbeat_within_deadline[OF sample_run[symmetric] t] t show ?thesis by auto
qed

theorem expired_lease_fenced_witness:
  "fst (heartbeat ''a'' ''o'' ''tok'' 3000 500 5000 sample_leased) = None
   \<and> \<not> fst (release ''a'' ''o'' ''tok'' 3000 5000 sample_leased)"
proof -
  let ?r = "lease_row 1000 ''tok'' 1500 3000 (new_ticket_row (sample_input ''a'' Ordinary) 1 1000)"
  have r: "?r \<in> set (ws_tickets sample_leased)" "tk_state ?r = Leased" "sql_le (tk_lease_deadline_at ?r) 3000"
    by (simp_all add: sample_leased_def lease_row_def)
  have "tk_id ?r = ''a''" by (simp add: sample_row_defs)
  with expired_lease_fenced[OF sample_run[symmetric] r] show ?thesis by simp
qed

theorem release_idempotent_witness:
  "\<exists>r c. ticketRowSync ''a'' (snd (release ''a'' ''o'' ''tok'' 1100 5000 sample_leased)) = Some r
     \<and> tk_state r = Completed \<and> tk_completed_at r = Some c"
  using release_idempotent[OF sample_run[symmetric] sample_release] by blast

theorem acquire_error_only_mismatch_witness:
  "\<exists>r. ticketRowSync ''a'' sample_leased = Some r \<and> \<not> ticketMatchesInput r (sample_input ''a'' ClusterIntake)"
proof -
  have n: "1 \<le> in_runAttempt (sample_input ''a'' ClusterIntake)" by (simp add: sample_input_def)
  have t: "in_ticketId (sample_input ''a'' ClusterIntake) = ''a''" by (simp add: sample_input_def)
  from acquire_error_only_mismatch[OF sample_run[symmetric] n sample_mismatch] show ?thesis
    by (simp add: sample_leased_reclaim t)
qed

end
