(* ===== verification/Publication_Batches.thy ===== *)
theory Publication_Batches
  imports Prelude
begin

text \<open>
  The publication batch store of \<open>dashboard/exact-review-publication-batches.ts\<close>: leased
  batches of queue items, the membership rows with their claim generations, and the table
  of generations that outlives the receipts. A store is the three tables; each method is a
  transaction. A statement that breaks a CHECK, and a callback that throws, roll it back.
\<close>

subsection \<open>State\<close>

datatype batch_state = BatchLeased | BatchCompleted | BatchExpired

datatype terminal_outcome = Published | Superseded | LeaseExpired

datatype observation_stage =
  PreparationStarted | PreparationFinished | StateWriterWait | StateWriterCommitted
| FinalGithubApply | GithubThrottle

record batch_row =
  pb_id :: string
  pb_state :: batch_state
  pb_leaseOwner :: string
  pb_leaseExpiresAt :: int
  pb_configuredBatchSize :: int
  pb_attempt :: int
  pb_createdAt :: int
  pb_completedAt :: "int option"
  pb_stateCommitSha :: "string option"
  pb_failureFingerprint :: "string option"
  pb_dispatchId :: "string option"
  pb_dispatchedAt :: "int option"
  pb_runnerRunId :: "string option"
  pb_runnerRunAttempt :: "int option"
  pb_runnerStartedAt :: "int option"
  pb_preparationStartedAt :: "int option"
  pb_preparationFinishedAt :: "int option"
  pb_stateWriterWaitAt :: "int option"
  pb_stateWriterCommittedAt :: "int option"
  pb_finalGithubApplyAt :: "int option"
  pb_githubThrottleAt :: "int option"

record item_row =
  pi_batch :: string
  pi_key :: string
  pi_revision :: int
  pi_generation :: int
  pi_outcome :: "terminal_outcome option"
  pi_producerRunId :: "string option"
  pi_producerRunAttempt :: "int option"
  pi_enqueuedAt :: "int option"

record batch_store =
  bs_batches :: "batch_row list"
  bs_items :: "item_row list"
  bs_generations :: "string \<Rightarrow> int option"

record candidate =
  cd_itemKey :: string
  cd_revision :: int
  cd_producerRunId :: "string option"
  cd_producerRunAttempt :: "int option"
  cd_enqueuedAt :: "int option"

record batch_fence =
  bf_itemKey :: string
  bf_revision :: int
  bf_claimGeneration :: int

record completion = batch_fence +
  bc_terminalOutcome :: terminal_outcome

record claim_input =
  ci_batchId :: string
  ci_leaseOwner :: string
  ci_leaseExpiresAt :: int
  ci_now :: int
  ci_maxItems :: int
  ci_maxConcurrentBatches :: "int option"
  ci_dispatch :: "(string \<times> int) option"
  ci_runner :: "(string \<times> int \<times> int) option"
  ci_candidates :: "candidate list"

text \<open>A batch as the methods return it: its row and its items in key order.\<close>

type_synonym batch = "batch_row \<times> item_row list"

datatype batch_error = BatchConstraintViolation | CallbackThrew

definition empty_batch_store :: batch_store where
  "empty_batch_store = \<lparr>bs_batches = [], bs_items = [], bs_generations = (\<lambda>_. None)\<rparr>"

subsection \<open>Reading and reclaiming\<close>

definition batch_row_of :: "string \<Rightarrow> batch_store \<Rightarrow> batch_row option" where
  "batch_row_of bid s = find (\<lambda>b. pb_id b = bid) (bs_batches s)"

definition batch_items_of :: "string \<Rightarrow> batch_store \<Rightarrow> item_row list" where
  "batch_items_of bid s = sort_key pi_key (filter (\<lambda>r. pi_batch r = bid) (bs_items s))"

definition readBatchSync :: "string \<Rightarrow> batch_store \<Rightarrow> batch option" where
  "readBatchSync bid s =
     (case batch_row_of bid s of None \<Rightarrow> None | Some b \<Rightarrow> Some (b, batch_items_of bid s))"

definition lease_expired_at :: "int \<Rightarrow> batch_row \<Rightarrow> bool" where
  "lease_expired_at now b \<longleftrightarrow> pb_state b = BatchLeased \<and> pb_leaseExpiresAt b \<le> now"

text \<open>A batch leaves the leased state with its completion time.\<close>

definition close_row :: "batch_state \<Rightarrow> int \<Rightarrow> batch_row \<Rightarrow> batch_row" where
  "close_row st now b = b\<lparr>pb_state := st, pb_completedAt := Some now\<rparr>"

definition expire_batch :: "int \<Rightarrow> string \<Rightarrow> batch_store \<Rightarrow> batch_store" where
  "expire_batch now bid s =
     s\<lparr>bs_items := update_where (\<lambda>r. pi_batch r = bid \<and> pi_outcome r = None)
                    (\<lambda>r. r\<lparr>pi_outcome := Some LeaseExpired\<rparr>) (bs_items s),
       bs_batches := update_where (\<lambda>b. pb_id b = bid \<and> pb_state b = BatchLeased)
                    (close_row BatchExpired now) (bs_batches s)\<rparr>"

definition reclaimExpiredSync :: "int \<Rightarrow> batch_store \<Rightarrow> batch_store" where
  "reclaimExpiredSync now s =
     fold (expire_batch now) (map pb_id (filter (lease_expired_at now) (bs_batches s))) s"

definition countUnfinishedItemsSync :: "string \<Rightarrow> batch_store \<Rightarrow> int" where
  "countUnfinishedItemsSync bid s =
     int (length (filter (\<lambda>r. pi_batch r = bid \<and> pi_outcome r = None) (bs_items s)))"

definition nextClaimGenerationSync :: "string \<Rightarrow> batch_store \<Rightarrow> int \<times> batch_store" where
  "nextClaimGenerationSync key s =
     (let g = (case bs_generations s key of None \<Rightarrow> 1 | Some n \<Rightarrow> n + 1)
      in (g, s\<lparr>bs_generations := (bs_generations s)(key \<mapsto> g)\<rparr>))"

subsection \<open>claim\<close>

definition new_batch_row :: "claim_input \<Rightarrow> batch_row" where
  "new_batch_row i =
     \<lparr>pb_id = ci_batchId i, pb_state = BatchLeased, pb_leaseOwner = ci_leaseOwner i,
      pb_leaseExpiresAt = ci_leaseExpiresAt i, pb_configuredBatchSize = ci_maxItems i,
      pb_attempt = 1, pb_createdAt = ci_now i, pb_completedAt = None, pb_stateCommitSha = None,
      pb_failureFingerprint = None, pb_dispatchId = map_option fst (ci_dispatch i),
      pb_dispatchedAt = map_option snd (ci_dispatch i),
      pb_runnerRunId = map_option fst (ci_runner i),
      pb_runnerRunAttempt = map_option (fst \<circ> snd) (ci_runner i),
      pb_runnerStartedAt = map_option (snd \<circ> snd) (ci_runner i),
      pb_preparationStartedAt = None, pb_preparationFinishedAt = None, pb_stateWriterWaitAt = None,
      pb_stateWriterCommittedAt = None, pb_finalGithubApplyAt = None, pb_githubThrottleAt = None\<rparr>"

text \<open>
  \<open>INSERT OR IGNORE\<close>: the row is skipped when its revision fails the CHECK, when the batch
  already has the key, or when another unfinished membership owns the key (the partial
  unique index). The generation was consumed before and stays consumed.
\<close>

definition item_ignored :: "string \<Rightarrow> candidate \<Rightarrow> batch_store \<Rightarrow> bool" where
  "item_ignored bid c s \<longleftrightarrow>
     cd_revision c < 1
     \<or> list_ex (\<lambda>r. pi_batch r = bid \<and> pi_key r = cd_itemKey c) (bs_items s)
     \<or> list_ex (\<lambda>r. pi_key r = cd_itemKey c \<and> pi_outcome r = None) (bs_items s)"

definition new_item_row :: "string \<Rightarrow> candidate \<Rightarrow> int \<Rightarrow> item_row" where
  "new_item_row bid c g =
     \<lparr>pi_batch = bid, pi_key = cd_itemKey c, pi_revision = cd_revision c, pi_generation = g,
      pi_outcome = None, pi_producerRunId = cd_producerRunId c,
      pi_producerRunAttempt = cd_producerRunAttempt c, pi_enqueuedAt = cd_enqueuedAt c\<rparr>"

definition claim_candidate :: "string \<Rightarrow> candidate \<Rightarrow> batch_store \<Rightarrow> batch_store" where
  "claim_candidate bid c s =
     (case nextClaimGenerationSync (cd_itemKey c) s of
        (g, s') \<Rightarrow> if item_ignored bid c s' then s'
                  else s'\<lparr>bs_items := bs_items s' @ [new_item_row bid c g]\<rparr>)"

fun claim_candidates :: "string \<Rightarrow> int \<Rightarrow> candidate list \<Rightarrow> batch_store \<Rightarrow> batch_store" where
  "claim_candidates bid maxItems [] s = s"
| "claim_candidates bid maxItems (c # cs) s =
     (if countUnfinishedItemsSync bid s \<ge> maxItems then s
      else claim_candidates bid maxItems cs (claim_candidate bid c s))"

definition activeBatches :: "batch_store \<Rightarrow> int" where
  "activeBatches s = int (length (filter (\<lambda>b. pb_state b = BatchLeased) (bs_batches s)))"

definition claim :: "claim_input \<Rightarrow> batch_store \<Rightarrow> batch_error + (batch option \<times> batch_store)" where
  "claim i s0 =
     (let s1 = reclaimExpiredSync (ci_now i) s0
      in case readBatchSync (ci_batchId i) s1 of
           Some (b, items) \<Rightarrow>
             Inr (if pb_state b = BatchLeased \<and> pb_leaseOwner b = ci_leaseOwner i
                  then Some (b, items) else None, s1)
         | None \<Rightarrow>
             if activeBatches s1 \<ge> max 1 (case ci_maxConcurrentBatches i of None \<Rightarrow> 1 | Some n \<Rightarrow> n)
             then Inr (None, s1)
             else if ci_maxItems i < 1 then Inl BatchConstraintViolation
             else
               let s2 = s1\<lparr>bs_batches := bs_batches s1 @ [new_batch_row i]\<rparr>;
                   s3 = claim_candidates (ci_batchId i) (ci_maxItems i) (ci_candidates i) s2
               in (case readBatchSync (ci_batchId i) s3 of
                     Some (b, it # items) \<Rightarrow> Inr (Some (b, it # items), s3)
                   | _ \<Rightarrow> Inr (None, s3\<lparr>bs_batches :=
                              filter (\<lambda>b. pb_id b \<noteq> ci_batchId i) (bs_batches s3)\<rparr>)))"

subsection \<open>fetch, heartbeat, fences and observations\<close>

definition fetch :: "string \<Rightarrow> string \<Rightarrow> int \<Rightarrow> batch_store \<Rightarrow> batch option \<times> batch_store" where
  "fetch bid owner now s0 =
     (let s = reclaimExpiredSync now s0
      in (case readBatchSync bid s of
            None \<Rightarrow> None
          | Some (b, items) \<Rightarrow>
              if pb_leaseOwner b = owner \<and> (pb_state b = BatchLeased \<or> pb_state b = BatchCompleted)
              then Some (b, items) else None, s))"

definition item_matches :: "item_row list \<Rightarrow> string \<Rightarrow> int \<Rightarrow> int \<Rightarrow> bool" where
  "item_matches items key revision generation =
     (case find (\<lambda>r. pi_key r = key) (rev items) of
        None \<Rightarrow> False
      | Some r \<Rightarrow> pi_revision r = revision \<and> pi_generation r = generation)"

definition heartbeatBatch ::
  "string \<Rightarrow> string \<Rightarrow> batch_fence list \<Rightarrow> int \<Rightarrow> int \<Rightarrow> batch_store \<Rightarrow> batch option \<times> batch_store" where
  "heartbeatBatch bid owner members leaseExpiresAt now s0 =
     (let s = reclaimExpiredSync now s0
      in case readBatchSync bid s of
           None \<Rightarrow> (None, s)
         | Some (b, items) \<Rightarrow>
             if pb_state b \<noteq> BatchLeased \<or> pb_leaseOwner b \<noteq> owner then (None, s)
             else if \<not> distinct (map bf_itemKey members)
                  \<or> list_ex (\<lambda>m. \<not> item_matches items (bf_itemKey m) (bf_revision m) (bf_claimGeneration m)) members
                  \<or> list_ex (\<lambda>r. pi_outcome r = None \<and> pi_key r \<notin> set (map bf_itemKey members)) items
             then (None, s)
             else
               let nextExpiry = max (pb_leaseExpiresAt b) leaseExpiresAt;
                   s' = s\<lparr>bs_batches := update_where
                           (\<lambda>r. pb_id r = bid \<and> pb_state r = BatchLeased \<and> pb_leaseOwner r = owner)
                           (\<lambda>r. r\<lparr>pb_leaseExpiresAt := nextExpiry\<rparr>) (bs_batches s)\<rparr>
               in (readBatchSync bid s', s'))"

definition ownsActiveFenceIn :: "batch_fence \<Rightarrow> batch_store \<Rightarrow> bool" where
  "ownsActiveFenceIn f s \<longleftrightarrow>
     list_ex (\<lambda>r. pi_outcome r = None \<and> pi_key r = bf_itemKey f \<and> pi_revision r = bf_revision f
                \<and> pi_generation r = bf_claimGeneration f
                \<and> list_ex (\<lambda>b. pb_id b = pi_batch r \<and> pb_state b = BatchLeased) (bs_batches s))
       (bs_items s)"

definition ownsActiveFence :: "batch_fence \<Rightarrow> int \<Rightarrow> batch_store \<Rightarrow> bool \<times> batch_store" where
  "ownsActiveFence f now s0 =
     (let s = reclaimExpiredSync now s0 in (ownsActiveFenceIn f s, s))"

text \<open>\<open>COALESCE(column, value)\<close>: the first observation wins.\<close>

definition coalesce :: "'a option \<Rightarrow> 'a option \<Rightarrow> 'a option" where
  "coalesce c v = (case c of None \<Rightarrow> v | Some x \<Rightarrow> Some x)"

fun set_observation :: "observation_stage \<Rightarrow> int \<Rightarrow> batch_row \<Rightarrow> batch_row" where
  "set_observation PreparationStarted at b =
     b\<lparr>pb_preparationStartedAt := coalesce (pb_preparationStartedAt b) (Some at)\<rparr>"
| "set_observation PreparationFinished at b =
     b\<lparr>pb_preparationFinishedAt := coalesce (pb_preparationFinishedAt b) (Some at)\<rparr>"
| "set_observation StateWriterWait at b =
     b\<lparr>pb_stateWriterWaitAt := coalesce (pb_stateWriterWaitAt b) (Some at)\<rparr>"
| "set_observation StateWriterCommitted at b =
     b\<lparr>pb_stateWriterCommittedAt := coalesce (pb_stateWriterCommittedAt b) (Some at)\<rparr>"
| "set_observation FinalGithubApply at b =
     b\<lparr>pb_finalGithubApplyAt := coalesce (pb_finalGithubApplyAt b) (Some at)\<rparr>"
| "set_observation GithubThrottle at b =
     b\<lparr>pb_githubThrottleAt := coalesce (pb_githubThrottleAt b) (Some at)\<rparr>"

definition recordObservation ::
  "string \<Rightarrow> string \<Rightarrow> observation_stage \<Rightarrow> int \<Rightarrow> batch_store \<Rightarrow> batch option \<times> batch_store" where
  "recordObservation bid owner stage observedAt s =
     (case readBatchSync bid s of
        None \<Rightarrow> (None, s)
      | Some (b, _) \<Rightarrow>
          if pb_leaseOwner b \<noteq> owner then (None, s)
          else let s' = s\<lparr>bs_batches := update_where (\<lambda>r. pb_id r = bid \<and> pb_leaseOwner r = owner)
                           (set_observation stage observedAt) (bs_batches s)\<rparr>
               in (readBatchSync bid s', s'))"

definition recordGithubThrottle ::
  "string \<Rightarrow> string \<Rightarrow> int \<Rightarrow> batch_store \<Rightarrow> batch option \<times> batch_store" where
  "recordGithubThrottle bid owner observedAt s =
     (case readBatchSync bid s of
        None \<Rightarrow> (None, s)
      | Some (b, _) \<Rightarrow>
          if pb_leaseOwner b \<noteq> owner then (None, s)
          else let s' = s\<lparr>bs_batches := update_where (\<lambda>r. pb_id r = bid \<and> pb_leaseOwner r = owner)
                           (\<lambda>r. r\<lparr>pb_githubThrottleAt := coalesce (pb_githubThrottleAt r) (Some observedAt)\<rparr>)
                           (bs_batches s)\<rparr>
               in (readBatchSync bid s', s'))"

subsection \<open>complete\<close>

definition completion_accepted :: "item_row list \<Rightarrow> completion \<Rightarrow> bool" where
  "completion_accepted items c \<longleftrightarrow>
     item_matches (filter (\<lambda>r. pi_outcome r = None) items) (bf_itemKey c) (bf_revision c) (bf_claimGeneration c)"

definition apply_completion :: "string \<Rightarrow> completion \<Rightarrow> batch_store \<Rightarrow> batch_store" where
  "apply_completion bid c s =
     s\<lparr>bs_items := update_where
          (\<lambda>r. pi_batch r = bid \<and> pi_key r = bf_itemKey c \<and> pi_revision r = bf_revision c
               \<and> pi_generation r = bf_claimGeneration c \<and> pi_outcome r = None)
          (\<lambda>r. r\<lparr>pi_outcome := Some (bc_terminalOutcome c)\<rparr>) (bs_items s)\<rparr>"

definition record_completion_metadata ::
  "string \<Rightarrow> string option \<Rightarrow> string option \<Rightarrow> batch_store \<Rightarrow> batch_store" where
  "record_completion_metadata bid sha fingerprint s =
     s\<lparr>bs_batches := update_where (\<lambda>b. pb_id b = bid \<and> pb_state b = BatchLeased)
          (\<lambda>b. b\<lparr>pb_stateCommitSha := coalesce (pb_stateCommitSha b) sha,
                 pb_failureFingerprint := coalesce (pb_failureFingerprint b) fingerprint\<rparr>) (bs_batches s)\<rparr>"

definition complete_batch_row :: "string \<Rightarrow> int \<Rightarrow> batch_store \<Rightarrow> batch_store" where
  "complete_batch_row bid now s =
     s\<lparr>bs_batches := update_where (\<lambda>b. pb_id b = bid \<and> pb_state b = BatchLeased)
          (close_row BatchCompleted now) (bs_batches s)\<rparr>"

text \<open>The writes after the callback: the outcomes, the metadata, and the closing of the batch.\<close>

definition commit_completions ::
  "string \<Rightarrow> int \<Rightarrow> string option \<Rightarrow> string option \<Rightarrow> completion list \<Rightarrow> batch_store \<Rightarrow> batch_store" where
  "commit_completions bid now sha fingerprint accepted s =
     (let s1 = fold (apply_completion bid) accepted s;
          s2 = (if accepted \<noteq> [] then record_completion_metadata bid sha fingerprint s1 else s1)
      in if countUnfinishedItemsSync bid s2 = 0 then complete_batch_row bid now s2 else s2)"

text \<open>
  The callback \<open>onAccepted\<close> runs inside the transaction on the caller's own state \<open>x\<close>; it
  returns the new one, or \<open>None\<close> when it throws. It is not called for a batch that is no
  longer leased.
\<close>

definition complete ::
  "string \<Rightarrow> string \<Rightarrow> completion list \<Rightarrow> int \<Rightarrow> string option \<Rightarrow> string option
     \<Rightarrow> (completion list \<Rightarrow> 'x \<Rightarrow> 'x option) \<Rightarrow> 'x \<Rightarrow> batch_store
     \<Rightarrow> batch_error + (batch option \<times> batch_store \<times> 'x)" where
  "complete bid owner completions now sha fingerprint onAccepted x s0 =
     (let s = reclaimExpiredSync now s0
      in case readBatchSync bid s of
           None \<Rightarrow> Inr (None, s, x)
         | Some (b, items) \<Rightarrow>
             if pb_leaseOwner b \<noteq> owner then Inr (None, s, x)
             else if pb_state b \<noteq> BatchLeased
             then Inr (if list_all (\<lambda>c. item_matches items (bf_itemKey c) (bf_revision c) (bf_claimGeneration c)) completions
                       then Some (b, items) else None, s, x)
             else
               let accepted = filter (completion_accepted items) completions
               in case onAccepted accepted x of
                    None \<Rightarrow> Inl CallbackThrew
                  | Some x' \<Rightarrow>
                      let s' = commit_completions bid now sha fingerprint accepted s
                      in Inr (readBatchSync bid s', s', x'))"

subsection \<open>Snapshots, statistics and the start-up repair\<close>

record lease_snapshot =
  ls_items :: "(string \<times> string) list"
  ls_itemKeys :: "string list"
  ls_activeBatches :: int
  ls_nextLeaseExpiresAt :: "int option"

text \<open>The join of unfinished memberships with live leased batches, in key order.\<close>

definition active_join :: "int \<Rightarrow> batch_store \<Rightarrow> (item_row \<times> batch_row) list" where
  "active_join now s =
     sort_key (pi_key \<circ> fst)
       (concat (map (\<lambda>r. map (Pair r) (filter (\<lambda>b. pb_id b = pi_batch r \<and> pb_state b = BatchLeased
                                       \<and> now < pb_leaseExpiresAt b \<and> pi_outcome r = None) (bs_batches s)))
                    (bs_items s)))"

definition activeLeaseSnapshotSync :: "int \<Rightarrow> batch_store \<Rightarrow> lease_snapshot" where
  "activeLeaseSnapshotSync now s =
     (let rows = active_join now s
      in \<lparr>ls_items = map (\<lambda>(r, b). (pi_key r, pi_batch r)) rows,
          ls_itemKeys = map (pi_key \<circ> fst) rows,
          ls_activeBatches = int (length (remdups (map (pi_batch \<circ> fst) rows))),
          ls_nextLeaseExpiresAt =
            (if rows = [] then None else Some (Min (set (map (pb_leaseExpiresAt \<circ> snd) rows))))\<rparr>)"

definition activeLeaseSnapshot :: "int \<Rightarrow> bool \<Rightarrow> batch_store \<Rightarrow> lease_snapshot \<times> batch_store" where
  "activeLeaseSnapshot now reclaimExpired s0 =
     (let s = (if reclaimExpired then reclaimExpiredSync now s0 else s0)
      in (activeLeaseSnapshotSync now s, s))"

definition cleanup_due :: "int \<Rightarrow> batch_row \<Rightarrow> bool" where
  "cleanup_due cutoff b \<longleftrightarrow>
     (pb_state b = BatchCompleted \<or> pb_state b = BatchExpired) \<and> sql_le (pb_completedAt b) cutoff"

definition cleanup_order :: "batch_row \<Rightarrow> batch_row \<Rightarrow> int" where
  "cleanup_order a b = cmp_or (num_or_zero (pb_completedAt a) - num_or_zero (pb_completedAt b)) (cmp_lin (pb_id a) (pb_id b))"

definition delete_batch :: "string \<Rightarrow> batch_store \<Rightarrow> batch_store" where
  "delete_batch bid s =
     s\<lparr>bs_items := filter (\<lambda>r. pi_batch r \<noteq> bid) (bs_items s),
       bs_batches := filter (\<lambda>b. \<not> (pb_id b = bid \<and> (pb_state b = BatchCompleted \<or> pb_state b = BatchExpired)))
                       (bs_batches s)\<rparr>"

definition DEFAULT_COMPLETED_BATCH_TTL_MS :: int where
  "DEFAULT_COMPLETED_BATCH_TTL_MS = 7 * 24 * 60 * 60 * 1000"

definition DEFAULT_CLEANUP_LIMIT :: nat where
  "DEFAULT_CLEANUP_LIMIT = 100"

record batch_stats =
  bt_leased :: int
  bt_completed :: int
  bt_expired :: int
  bt_snapshot :: lease_snapshot
  bt_oldestActiveAt :: "int option"
  bt_reclaimedItemsRetained :: int
  bt_deletedThisPass :: int
  bt_eligibleRemaining :: int
  bt_limit :: nat

definition batches_in :: "batch_state \<Rightarrow> batch_store \<Rightarrow> batch_row list" where
  "batches_in st s = filter (\<lambda>b. pb_state b = st) (bs_batches s)"

definition batchStats :: "int \<Rightarrow> int option \<Rightarrow> nat option \<Rightarrow> batch_store \<Rightarrow> batch_stats \<times> batch_store" where
  "batchStats now completedTtlMs cleanupLimit s0 =
     (let s1 = reclaimExpiredSync now s0;
          limit = (case cleanupLimit of None \<Rightarrow> DEFAULT_CLEANUP_LIMIT | Some n \<Rightarrow> n);
          cutoff = now - (case completedTtlMs of None \<Rightarrow> DEFAULT_COMPLETED_BATCH_TTL_MS | Some n \<Rightarrow> n);
          ids = map pb_id (take limit (js_sort cleanup_order (filter (cleanup_due cutoff) (bs_batches s1))));
          s = fold delete_batch ids s1;
          leased = batches_in BatchLeased s
      in (\<lparr>bt_leased = int (length leased),
           bt_completed = int (length (batches_in BatchCompleted s)),
           bt_expired = int (length (batches_in BatchExpired s)),
           bt_snapshot = activeLeaseSnapshotSync now s,
           bt_oldestActiveAt = (if leased = [] then None else Some (Min (set (map pb_createdAt leased)))),
           bt_reclaimedItemsRetained =
             int (length (filter (\<lambda>r. pi_outcome r = Some LeaseExpired) (bs_items s))),
           bt_deletedThisPass = int (length ids),
           bt_eligibleRemaining = int (length (filter (cleanup_due cutoff) (bs_batches s))),
           bt_limit = limit\<rparr>, s))"

definition leased_order :: "batch_row \<Rightarrow> batch_row \<Rightarrow> int" where
  "leased_order a b = cmp_or (pb_createdAt b - pb_createdAt a) (cmp_lin (pb_id b) (pb_id a))"

definition history_order :: "batch_row \<Rightarrow> batch_row \<Rightarrow> int" where
  "history_order a b = cmp_or (num_or_zero (pb_completedAt b) - num_or_zero (pb_completedAt a)) (cmp_lin (pb_id b) (pb_id a))"

definition observability :: "int \<Rightarrow> int \<Rightarrow> batch_store \<Rightarrow> batch list \<times> batch_store" where
  "observability now limit s0 =
     (let s = reclaimExpiredSync now s0;
          active = map pb_id (js_sort leased_order (batches_in BatchLeased s));
          history = map pb_id (take (nat (max 1 (min 100 limit)))
                      (js_sort history_order (batches_in BatchCompleted s @ batches_in BatchExpired s)))
      in (map the (filter (\<lambda>b. b \<noteq> None) (map (\<lambda>bid. readBatchSync bid s) (active @ history))), s))"

text \<open>
  The data repair of \<open>ensureSchemaSync\<close>, run at every start: the configured size of a batch
  is raised to its membership count, and the generation table to the largest generation.
\<close>

definition membership_count :: "string \<Rightarrow> batch_store \<Rightarrow> int" where
  "membership_count bid s = int (length (filter (\<lambda>r. pi_batch r = bid) (bs_items s)))"

definition max_item_generation :: "string \<Rightarrow> item_row list \<Rightarrow> int option" where
  "max_item_generation key rs =
     (let gs = map pi_generation (filter (\<lambda>r. pi_key r = key) rs)
      in if gs = [] then None else Some (Max (set gs)))"

definition repaired_generation :: "int option \<Rightarrow> int option \<Rightarrow> int option" where
  "repaired_generation stored seen =
     (case seen of None \<Rightarrow> stored
      | Some m \<Rightarrow> (case stored of None \<Rightarrow> Some m | Some n \<Rightarrow> if n < m then Some m else Some n))"

definition repairSync :: "batch_store \<Rightarrow> batch_store" where
  "repairSync s =
     s\<lparr>bs_batches := update_where (\<lambda>b. pb_configuredBatchSize b < membership_count (pb_id b) s)
          (\<lambda>b. b\<lparr>pb_configuredBatchSize := membership_count (pb_id b) s\<rparr>) (bs_batches s),
       bs_generations := (\<lambda>key. repaired_generation (bs_generations s key) (max_item_generation key (bs_items s)))\<rparr>"


subsection \<open>The invariant of the tables\<close>

lemma close_row_fields [simp]:
  "pb_id (close_row st now b) = pb_id b" "pb_state (close_row st now b) = st"
  "pb_completedAt (close_row st now b) = Some now" "pb_leaseOwner (close_row st now b) = pb_leaseOwner b"
  by (simp_all add: close_row_def)

definition unfinished :: "item_row \<Rightarrow> bool" where
  "unfinished r \<longleftrightarrow> pi_outcome r = None"

definition issued :: "batch_store \<Rightarrow> string \<Rightarrow> int \<Rightarrow> bool" where
  "issued s key g \<longleftrightarrow> 1 \<le> g \<and> (case bs_generations s key of None \<Rightarrow> False | Some n \<Rightarrow> g \<le> n)"

text \<open>
  Batch ids are unique; a batch lists a key once; a key has at most one unfinished
  membership; every claim generation was drawn from the generation table, and is never
  given to two memberships; a membership has its batch, and only a leased batch has
  unfinished ones; a terminal batch has its completion time.
\<close>

definition batch_inv :: "batch_store \<Rightarrow> bool" where
  "batch_inv s \<longleftrightarrow>
     distinct (map pb_id (bs_batches s))
     \<and> distinct (map (\<lambda>r. (pi_batch r, pi_key r)) (bs_items s))
     \<and> distinct (map pi_key (filter unfinished (bs_items s)))
     \<and> distinct (map (\<lambda>r. (pi_key r, pi_generation r)) (bs_items s))
     \<and> (\<forall>r\<in>set (bs_items s). 1 \<le> pi_revision r \<and> issued s (pi_key r) (pi_generation r))
     \<and> (\<forall>r\<in>set (bs_items s). pi_batch r \<in> pb_id ` set (bs_batches s))
     \<and> (\<forall>r\<in>set (bs_items s). \<forall>b\<in>set (bs_batches s).
          unfinished r \<longrightarrow> pb_id b = pi_batch r \<longrightarrow> pb_state b = BatchLeased)
     \<and> (\<forall>b\<in>set (bs_batches s). pb_state b \<noteq> BatchLeased \<longrightarrow> pb_completedAt b \<noteq> None)
     \<and> (\<forall>key n. bs_generations s key = Some n \<longrightarrow> 1 \<le> n)"

text \<open>A fence that was issued once and has no unfinished membership any more.\<close>

definition has_open :: "batch_store \<Rightarrow> batch_fence \<Rightarrow> bool" where
  "has_open s f \<longleftrightarrow> (\<exists>r\<in>set (bs_items s). unfinished r \<and> pi_key r = bf_itemKey f
     \<and> pi_revision r = bf_revision f \<and> pi_generation r = bf_claimGeneration f)"

definition spent_fence :: "batch_store \<Rightarrow> batch_fence \<Rightarrow> bool" where
  "spent_fence s f \<longleftrightarrow> issued s (bf_itemKey f) (bf_claimGeneration f) \<and> \<not> has_open s f"

text \<open>What every primitive write of the store keeps: the invariant, the issued generations and the spent fences.\<close>

definition keeps :: "batch_store \<Rightarrow> batch_store \<Rightarrow> bool" where
  "keeps s s' \<longleftrightarrow> (batch_inv s \<longrightarrow> batch_inv s' \<and> (\<forall>k g. issued s k g \<longrightarrow> issued s' k g)
     \<and> (\<forall>f. spent_fence s f \<longrightarrow> spent_fence s' f))"

lemma keeps_refl [simp]: "keeps s s"
  by (simp add: keeps_def)

lemma keeps_trans: "keeps s t \<Longrightarrow> keeps t u \<Longrightarrow> keeps s u"
  by (simp add: keeps_def)

lemma keeps_fold: "(\<And>x t. keeps t (f x t)) \<Longrightarrow> keeps s (fold f xs s)"
  by (induction xs arbitrary: s) (auto intro: keeps_trans)

lemma keepsI: "(batch_inv s \<Longrightarrow> batch_inv s') \<Longrightarrow> (\<And>k g. issued s k g \<Longrightarrow> issued s' k g) \<Longrightarrow>
    (\<And>f. batch_inv s \<Longrightarrow> spent_fence s f \<Longrightarrow> spent_fence s' f) \<Longrightarrow> keeps s s'"
  by (simp add: keeps_def)

lemma keeps_inv: "keeps s s' \<Longrightarrow> batch_inv s \<Longrightarrow> batch_inv s'"
  by (simp add: keeps_def)

lemma batch_invD:
  assumes "batch_inv s"
  shows "distinct (map pb_id (bs_batches s))"
    "distinct (map (\<lambda>r. (pi_batch r, pi_key r)) (bs_items s))"
    "distinct (map pi_key (filter unfinished (bs_items s)))"
    "distinct (map (\<lambda>r. (pi_key r, pi_generation r)) (bs_items s))"
    "r \<in> set (bs_items s) \<Longrightarrow> 1 \<le> pi_revision r"
    "r \<in> set (bs_items s) \<Longrightarrow> issued s (pi_key r) (pi_generation r)"
    "r \<in> set (bs_items s) \<Longrightarrow> pi_batch r \<in> pb_id ` set (bs_batches s)"
    "r \<in> set (bs_items s) \<Longrightarrow> b \<in> set (bs_batches s) \<Longrightarrow> unfinished r \<Longrightarrow> pb_id b = pi_batch r \<Longrightarrow> pb_state b = BatchLeased"
    "b \<in> set (bs_batches s) \<Longrightarrow> pb_state b \<noteq> BatchLeased \<Longrightarrow> pb_completedAt b \<noteq> None"
    "bs_generations s key = Some n \<Longrightarrow> 1 \<le> n"
  using assms unfolding batch_inv_def by blast+

lemma batch_invI:
  assumes "distinct (map pb_id (bs_batches s))"
    "distinct (map (\<lambda>r. (pi_batch r, pi_key r)) (bs_items s))"
    "distinct (map pi_key (filter unfinished (bs_items s)))"
    "distinct (map (\<lambda>r. (pi_key r, pi_generation r)) (bs_items s))"
    "\<And>r. r \<in> set (bs_items s) \<Longrightarrow> 1 \<le> pi_revision r \<and> issued s (pi_key r) (pi_generation r)
       \<and> pi_batch r \<in> pb_id ` set (bs_batches s)"
    "\<And>r b. r \<in> set (bs_items s) \<Longrightarrow> b \<in> set (bs_batches s) \<Longrightarrow> unfinished r \<Longrightarrow> pb_id b = pi_batch r \<Longrightarrow> pb_state b = BatchLeased"
    "\<And>b. b \<in> set (bs_batches s) \<Longrightarrow> pb_state b \<noteq> BatchLeased \<Longrightarrow> pb_completedAt b \<noteq> None"
    "\<And>key n. bs_generations s key = Some n \<Longrightarrow> 1 \<le> n"
  shows "batch_inv s"
  using assms unfolding batch_inv_def by blast

lemma issued_items [simp]: "issued (s\<lparr>bs_items := rs\<rparr>) = issued s" "issued (s\<lparr>bs_batches := bs\<rparr>) = issued s"
  by (simp_all add: issued_def fun_eq_iff)

lemma batch_inv_empty: "batch_inv empty_batch_store"
  by (simp add: batch_inv_def empty_batch_store_def)

text \<open>Finishing memberships: the selected rows get an outcome.\<close>

lemma distinct_map_filter_update:
  assumes "distinct (map k (filter q rs))" "\<And>r. p r \<Longrightarrow> \<not> q (f r)"
  shows "distinct (map k (filter q (update_where p f rs)))"
proof -
  have "filter q (update_where p f rs) = filter (\<lambda>r. q r \<and> \<not> p r) rs"
    using assms(2) by (induction rs) auto
  moreover have "filter (\<lambda>r. q r \<and> \<not> p r) rs = filter (\<lambda>r. \<not> p r) (filter q rs)"
    by (simp add: conj_commute)
  ultimately show ?thesis using assms(1) by (simp only: distinct_map_filter)
qed

lemma keeps_finish:
  "keeps s (s\<lparr>bs_items := update_where p (\<lambda>r. r\<lparr>pi_outcome := Some oc\<rparr>) (bs_items s)\<rparr>)"
proof (rule keepsI)
  let ?f = "\<lambda>r. r\<lparr>pi_outcome := Some oc\<rparr>"
  assume inv: "batch_inv s"
  have d: "distinct (map pi_key (filter unfinished (update_where p ?f (bs_items s))))"
    by (rule distinct_map_filter_update[OF batch_invD(3)[OF inv]]) (simp add: unfinished_def)
  show "batch_inv (s\<lparr>bs_items := update_where p ?f (bs_items s)\<rparr>)"
    using inv unfolding batch_inv_def issued_items
    by (auto simp: d map_update_where_same set_update_where unfinished_def split: if_splits)
next
  fix k g assume "issued s k g"
  then show "issued (s\<lparr>bs_items := update_where p (\<lambda>r. r\<lparr>pi_outcome := Some oc\<rparr>) (bs_items s)\<rparr>) k g" by simp
next
  fix f assume "spent_fence s f"
  then show "spent_fence (s\<lparr>bs_items := update_where p (\<lambda>r. r\<lparr>pi_outcome := Some oc\<rparr>) (bs_items s)\<rparr>) f"
    by (auto simp: spent_fence_def has_open_def set_update_where unfinished_def split: if_splits)
qed

text \<open>Replacing the batch table: what is left to show about the new rows.\<close>

lemma batch_inv_batches:
  assumes inv: "batch_inv s" and ids: "map pb_id bs = map pb_id (bs_batches s)"
    and rows: "\<And>b. b \<in> set bs \<Longrightarrow>
      (\<exists>b0\<in>set (bs_batches s). pb_id b0 = pb_id b \<and> pb_state b0 = pb_state b \<and> pb_completedAt b0 = pb_completedAt b)
      \<or> (\<forall>r\<in>set (bs_items s). pi_batch r = pb_id b \<longrightarrow> \<not> unfinished r) \<and> pb_completedAt b \<noteq> None"
  shows "batch_inv (s\<lparr>bs_batches := bs\<rparr>)"
proof -
  have ids': "pb_id ` set bs = pb_id ` set (bs_batches s)"
    using ids by (metis list.set_map)
  have leased: "pb_state b = BatchLeased"
    if "r \<in> set (bs_items s)" "b \<in> set bs" "unfinished r" "pb_id b = pi_batch r" for r b
    using rows[OF that(2)] batch_invD(8)[OF inv that(1) _ that(3)] that by metis
  have closed: "pb_completedAt b \<noteq> None" if "b \<in> set bs" "pb_state b \<noteq> BatchLeased" for b
    using rows[OF that(1)] batch_invD(9)[OF inv] that(2) by metis
  show ?thesis
    using inv leased closed unfolding batch_inv_def issued_items
    by (simp add: ids ids')
qed

text \<open>Updating batch rows without touching their id or state.\<close>

lemma keeps_batch_fields:
  assumes "\<And>b. pb_id (f b) = pb_id b" "\<And>b. pb_state (f b) = pb_state b"
    "\<And>b. pb_completedAt (f b) = pb_completedAt b"
  shows "keeps s (s\<lparr>bs_batches := update_where p f (bs_batches s)\<rparr>)"
proof (rule keepsI)
  assume inv: "batch_inv s"
  have ids: "map pb_id (update_where p f (bs_batches s)) = map pb_id (bs_batches s)"
    by (simp add: map_update_where_same assms)
  show "batch_inv (s\<lparr>bs_batches := update_where p f (bs_batches s)\<rparr>)"
    by (rule batch_inv_batches[OF inv ids]) (auto simp: set_update_where assms split: if_splits)
qed (simp_all add: spent_fence_def has_open_def)

text \<open>Closing a batch that has no unfinished membership.\<close>

lemma countUnfinished_zero:
  "countUnfinishedItemsSync bid s = 0 \<longleftrightarrow> (\<forall>r\<in>set (bs_items s). pi_batch r = bid \<longrightarrow> \<not> unfinished r)"
  by (auto simp: countUnfinishedItemsSync_def filter_empty_conv unfinished_def)

lemma keeps_close:
  assumes "\<forall>r\<in>set (bs_items s). pi_batch r = bid \<longrightarrow> \<not> unfinished r"
  shows "keeps s (s\<lparr>bs_batches := update_where (\<lambda>b. pb_id b = bid \<and> pb_state b = BatchLeased)
           (close_row st now) (bs_batches s)\<rparr>)"
    (is "keeps s (s\<lparr>bs_batches := ?bs\<rparr>)")
proof (rule keepsI)
  assume inv: "batch_inv s"
  have ids: "map pb_id ?bs = map pb_id (bs_batches s)" by (simp add: map_update_where_same)
  show "batch_inv (s\<lparr>bs_batches := ?bs\<rparr>)"
  proof (rule batch_inv_batches[OF inv ids])
    fix b assume "b \<in> set ?bs"
    then consider "b \<in> set (bs_batches s)" | "pb_id b = bid" "pb_completedAt b \<noteq> None"
      by (auto simp: set_update_where split: if_splits)
    then show "(\<exists>b0\<in>set (bs_batches s). pb_id b0 = pb_id b \<and> pb_state b0 = pb_state b \<and> pb_completedAt b0 = pb_completedAt b)
      \<or> (\<forall>r\<in>set (bs_items s). pi_batch r = pb_id b \<longrightarrow> \<not> unfinished r) \<and> pb_completedAt b \<noteq> None"
      using assms by cases (blast, simp)
  qed
qed (simp_all add: spent_fence_def has_open_def)

lemma keeps_expire: "keeps s (expire_batch now bid s)"
proof -
  let ?t = "s\<lparr>bs_items := update_where (\<lambda>r. pi_batch r = bid \<and> pi_outcome r = None)
                    (\<lambda>r. r\<lparr>pi_outcome := Some LeaseExpired\<rparr>) (bs_items s)\<rparr>"
  have "\<not> unfinished r" if "r \<in> set (bs_items ?t)" "pi_batch r = bid" for r
  proof -
    from that(1) obtain r0 where "r = (if pi_batch r0 = bid \<and> pi_outcome r0 = None
        then r0\<lparr>pi_outcome := Some LeaseExpired\<rparr> else r0)"
      by (simp add: in_set_update_where) blast
    with that(2) show ?thesis by (cases "pi_outcome r0") (simp_all add: unfinished_def split: if_splits)
  qed
  then have "\<forall>r\<in>set (bs_items ?t). pi_batch r = bid \<longrightarrow> \<not> unfinished r" by blast
  from keeps_close[OF this, of BatchExpired now] have "keeps ?t (expire_batch now bid s)"
    by (simp add: expire_batch_def)
  with keeps_finish show ?thesis by (rule keeps_trans)
qed

lemma keeps_reclaim: "keeps s (reclaimExpiredSync now s)"
  unfolding reclaimExpiredSync_def by (rule keeps_fold) (rule keeps_expire)

lemma keeps_apply_completion: "keeps s (apply_completion bid c s)"
  unfolding apply_completion_def by (rule keeps_finish)

lemma keeps_metadata: "keeps s (record_completion_metadata bid sha fp s)"
  unfolding record_completion_metadata_def by (rule keeps_batch_fields) simp_all

lemma keeps_complete_row: "countUnfinishedItemsSync bid s = 0 \<Longrightarrow> keeps s (complete_batch_row bid now s)"
  unfolding complete_batch_row_def countUnfinished_zero by (rule keeps_close)


text \<open>Claiming: the batch row, then one membership per accepted candidate.\<close>

lemma issued_mono_generation:
  "bs_generations s key = None \<Longrightarrow> 1 \<le> g \<or> True \<Longrightarrow> issued s k h \<Longrightarrow> issued (s\<lparr>bs_generations := (bs_generations s)(key \<mapsto> g)\<rparr>) k h"
  by (auto simp: issued_def)

lemma keeps_insert_batch:
  assumes "pb_id b \<notin> pb_id ` set (bs_batches s)" "pb_state b = BatchLeased"
  shows "keeps s (s\<lparr>bs_batches := bs_batches s @ [b]\<rparr>)"
proof (rule keepsI)
  assume inv: "batch_inv s"
  show "batch_inv (s\<lparr>bs_batches := bs_batches s @ [b]\<rparr>)"
  proof (rule batch_invI)
    fix r b' assume "r \<in> set (bs_items (s\<lparr>bs_batches := bs_batches s @ [b]\<rparr>))"
      "b' \<in> set (bs_batches (s\<lparr>bs_batches := bs_batches s @ [b]\<rparr>))" "unfinished r" "pb_id b' = pi_batch r"
    then show "pb_state b' = BatchLeased"
      using batch_invD(8)[OF inv, of r b'] assms(2) by auto
  qed (use batch_invD[OF inv] assms in auto)
qed (simp_all add: spent_fence_def has_open_def)

definition drawn :: "string \<Rightarrow> batch_store \<Rightarrow> int" where
  "drawn key s = (case bs_generations s key of None \<Rightarrow> 1 | Some n \<Rightarrow> n + 1)"

definition draw :: "string \<Rightarrow> batch_store \<Rightarrow> batch_store" where
  "draw key s = s\<lparr>bs_generations := (bs_generations s)(key \<mapsto> drawn key s)\<rparr>"

lemma nextClaimGeneration_drawn: "nextClaimGenerationSync key s = (drawn key s, draw key s)"
  by (simp add: nextClaimGenerationSync_def draw_def drawn_def Let_def)

lemma drawn_fresh: "issued s key g \<Longrightarrow> g < drawn key s"
  by (auto simp: issued_def drawn_def split: option.splits)

lemma drawn_pos: "batch_inv s \<Longrightarrow> 1 \<le> drawn key s"
  by (auto simp: drawn_def batch_inv_def split: option.splits) (metis add.commute le_add_same_cancel2 order_trans zero_le_one)

lemma draw_issues: "batch_inv s \<Longrightarrow> issued (draw key s) key (drawn key s)"
  using drawn_pos[of s key] by (simp add: issued_def draw_def)

lemma draw_keeps_issued: "issued s k g \<Longrightarrow> issued (draw key s) k g"
  using drawn_fresh[of s key g] by (auto simp: issued_def draw_def)

lemma draw_tables [simp]: "bs_batches (draw key s) = bs_batches s" "bs_items (draw key s) = bs_items s"
  by (simp_all add: draw_def)

lemma draw_generations: "batch_inv s \<Longrightarrow> bs_generations (draw key s) k = Some n \<Longrightarrow> 1 \<le> n"
  using drawn_pos[of s key] batch_invD(10)[of s k n] by (auto simp: draw_def split: if_splits)

lemma keeps_draw: "keeps s (draw key s)"
proof (rule keepsI)
  assume inv: "batch_inv s"
  show "batch_inv (draw key s)"
    using batch_invD[OF inv] draw_keeps_issued draw_generations[OF inv]
    unfolding batch_inv_def draw_tables by blast
qed (auto simp: spent_fence_def has_open_def intro: draw_keeps_issued)

lemma claim_candidate_inv:
  assumes inv: "batch_inv s" and b: "b \<in> set (bs_batches s)" "pb_id b = bid" "pb_state b = BatchLeased"
    and ok: "\<not> item_ignored bid c s"
  shows "batch_inv ((draw (cd_itemKey c) s)\<lparr>bs_items := bs_items s @ [new_item_row bid c (drawn (cd_itemKey c) s)]\<rparr>)"
proof -
  let ?key = "cd_itemKey c" and ?r = "new_item_row bid c (drawn (cd_itemKey c) s)"
  have sel: "pi_batch ?r = bid" "pi_key ?r = ?key" "pi_generation ?r = drawn ?key s" "unfinished ?r"
    "pi_revision ?r = cd_revision c"
    by (simp_all add: new_item_row_def unfinished_def)
  have fresh: "1 \<le> cd_revision c" "\<forall>r\<in>set (bs_items s). pi_batch r = bid \<longrightarrow> pi_key r \<noteq> ?key"
    "\<forall>r\<in>set (bs_items s). unfinished r \<longrightarrow> pi_key r \<noteq> ?key"
    using ok by (auto simp: item_ignored_def list_ex_iff unfinished_def)
  have g: "\<forall>r\<in>set (bs_items s). pi_key r = ?key \<longrightarrow> pi_generation r < drawn ?key s"
    using batch_invD(6)[OF inv] drawn_fresh by metis
  have only: "pb_state b' = BatchLeased" if "b' \<in> set (bs_batches s)" "pb_id b' = bid" for b'
    using distinct_map_unique[OF batch_invD(1)[OF inv] b(1) that(1)] that b by simp
  note D = batch_invD[OF inv]
  show ?thesis
    unfolding batch_inv_def issued_items
    using D(1-4) fresh g b draw_issues[OF inv, of ?key]
    by (auto simp: sel D draw_generations[OF inv] only intro: draw_keeps_issued)
qed

lemma keeps_claim_candidate:
  assumes "b \<in> set (bs_batches s)" "pb_id b = bid" "pb_state b = BatchLeased"
  shows "keeps s (claim_candidate bid c s)"
proof (cases "item_ignored bid c (draw (cd_itemKey c) s)")
  case True
  then show ?thesis by (simp add: claim_candidate_def nextClaimGeneration_drawn keeps_draw)
next
  case False
  then have ok: "\<not> item_ignored bid c s" by (simp add: item_ignored_def)
  show ?thesis
  proof (rule keepsI)
    assume "batch_inv s"
    from claim_candidate_inv[OF this assms ok] False show "batch_inv (claim_candidate bid c s)"
      by (simp add: claim_candidate_def nextClaimGeneration_drawn)
  next
    fix k g assume "issued s k g"
    then show "issued (claim_candidate bid c s) k g"
      using False by (simp add: claim_candidate_def nextClaimGeneration_drawn draw_keeps_issued)
  next
    fix f assume "batch_inv s" "spent_fence s f"
    then show "spent_fence (claim_candidate bid c s) f"
      using False drawn_fresh[of s "cd_itemKey c" "bf_claimGeneration f"]
      by (auto simp: claim_candidate_def nextClaimGeneration_drawn spent_fence_def has_open_def new_item_row_def
          intro: draw_keeps_issued)
  qed
qed

lemma claim_candidate_batches [simp]: "bs_batches (claim_candidate bid c s) = bs_batches s"
  by (simp add: claim_candidate_def nextClaimGeneration_drawn)

lemma claim_candidates_batches [simp]: "bs_batches (claim_candidates bid n cs s) = bs_batches s"
  by (induction cs arbitrary: s) auto

lemma keeps_claim_candidates:
  "b \<in> set (bs_batches s) \<Longrightarrow> pb_id b = bid \<Longrightarrow> pb_state b = BatchLeased \<Longrightarrow> keeps s (claim_candidates bid n cs s)"
proof (induction cs arbitrary: s)
  case (Cons c cs)
  have "keeps s (claim_candidate bid c s)" by (rule keeps_claim_candidate) fact+
  moreover have "keeps (claim_candidate bid c s) (claim_candidates bid n cs (claim_candidate bid c s))"
    by (rule Cons.IH) (use Cons.prems in simp_all)
  ultimately show ?case by (auto intro: keeps_trans)
qed simp

text \<open>Deleting a terminal batch with its memberships.\<close>

lemma spent_fence_items_mono:
  assumes "spent_fence s f" "set (bs_items s') \<subseteq> set (bs_items s)" "bs_generations s' = bs_generations s"
  shows "spent_fence s' f"
  using assms by (auto simp: spent_fence_def has_open_def issued_def)

lemma keeps_filter_items:
  "keeps s (s\<lparr>bs_items := filter p (bs_items s)\<rparr>)"
proof (rule keepsI)
  assume inv: "batch_inv s"
  have eq: "filter unfinished (filter p (bs_items s)) = filter p (filter unfinished (bs_items s))"
    by (simp add: conj_commute)
  have "distinct (map pi_key (filter unfinished (filter p (bs_items s))))"
    unfolding eq by (rule distinct_map_filter[OF batch_invD(3)[OF inv]])
  then show "batch_inv (s\<lparr>bs_items := filter p (bs_items s)\<rparr>)"
    using inv unfolding batch_inv_def issued_items by (auto simp: distinct_map_filter)
qed (auto intro: spent_fence_items_mono)

lemma keeps_filter_batches:
  assumes "\<forall>r\<in>set (bs_items s). \<forall>b\<in>set (bs_batches s). pb_id b = pi_batch r \<longrightarrow> p b"
  shows "keeps s (s\<lparr>bs_batches := filter p (bs_batches s)\<rparr>)"
proof (rule keepsI)
  assume inv: "batch_inv s"
  have "pi_batch r \<in> pb_id ` set (filter p (bs_batches s))" if "r \<in> set (bs_items s)" for r
    using batch_invD(7)[OF inv that] assms that by force
  then show "batch_inv (s\<lparr>bs_batches := filter p (bs_batches s)\<rparr>)"
  proof (intro batch_invI)
    fix r b' assume "r \<in> set (bs_items (s\<lparr>bs_batches := filter p (bs_batches s)\<rparr>))"
      "b' \<in> set (bs_batches (s\<lparr>bs_batches := filter p (bs_batches s)\<rparr>))" "unfinished r" "pb_id b' = pi_batch r"
    then show "pb_state b' = BatchLeased"
      using batch_invD(8)[OF inv, of r b'] by auto
  qed (use batch_invD[OF inv] in \<open>auto simp: distinct_map_filter\<close>)
qed (simp_all add: spent_fence_def has_open_def)

lemma keeps_delete_batch: "keeps s (delete_batch bid s)"
proof -
  let ?t = "s\<lparr>bs_items := filter (\<lambda>r. pi_batch r \<noteq> bid) (bs_items s)\<rparr>"
  let ?p = "\<lambda>b. \<not> (pb_id b = bid \<and> (pb_state b = BatchCompleted \<or> pb_state b = BatchExpired))"
  have "keeps ?t (?t\<lparr>bs_batches := filter ?p (bs_batches ?t)\<rparr>)"
    by (rule keeps_filter_batches) auto
  then have "keeps ?t (delete_batch bid s)" by (simp add: delete_batch_def)
  with keeps_filter_items show ?thesis by (rule keeps_trans)
qed


text \<open>The whole operations.\<close>

lemma batch_row_of_Some: "batch_row_of bid s = Some b \<Longrightarrow> b \<in> set (bs_batches s) \<and> pb_id b = bid"
  by (auto simp: batch_row_of_def dest: find_SomeD)

lemma batch_row_of_None: "batch_row_of bid s = None \<longleftrightarrow> bid \<notin> pb_id ` set (bs_batches s)"
  by (auto simp: batch_row_of_def find_None_iff)

lemma batch_row_of_iff:
  "batch_inv s \<Longrightarrow> batch_row_of bid s = Some b \<longleftrightarrow> b \<in> set (bs_batches s) \<and> pb_id b = bid"
  using distinct_map_unique[OF batch_invD(1)[of s]]
  by (auto simp: batch_row_of_def dest: find_SomeD intro!: find_unique)

lemma readBatch_Some: "readBatchSync bid s = Some (b, items) \<longleftrightarrow> batch_row_of bid s = Some b \<and> items = batch_items_of bid s"
  by (auto simp: readBatchSync_def split: option.splits)

lemma readBatch_None: "readBatchSync bid s = None \<longleftrightarrow> bid \<notin> pb_id ` set (bs_batches s)"
  by (simp add: readBatchSync_def batch_row_of_None[symmetric] split: option.splits)

lemma batch_items_of_set [simp]: "set (batch_items_of bid s) = {r \<in> set (bs_items s). pi_batch r = bid}"
  by (auto simp: batch_items_of_def)

lemma keeps_drop_empty_batch:
  assumes "batch_items_of bid s = []"
  shows "keeps s (s\<lparr>bs_batches := filter (\<lambda>b. pb_id b \<noteq> bid) (bs_batches s)\<rparr>)"
  using assms batch_items_of_set[of bid s] by (intro keeps_filter_batches) auto

lemma keeps_claim: "claim i s = Inr (r, s') \<Longrightarrow> keeps s s'"
proof -
  let ?s1 = "reclaimExpiredSync (ci_now i) s"
  let ?s2 = "?s1\<lparr>bs_batches := bs_batches ?s1 @ [new_batch_row i]\<rparr>"
  let ?s3 = "claim_candidates (ci_batchId i) (ci_maxItems i) (ci_candidates i) ?s2"
  assume c: "claim i s = Inr (r, s')"
  have k1: "keeps s ?s1" by (rule keeps_reclaim)
  show ?thesis
  proof (cases "s' = ?s1")
    case False
    with c have none: "readBatchSync (ci_batchId i) ?s1 = None"
      by (auto simp: claim_def Let_def split: option.splits)
    have k2: "keeps ?s1 ?s2"
      using none by (intro keeps_insert_batch) (auto simp: readBatch_None new_batch_row_def)
    have k3: "keeps ?s2 ?s3"
      by (rule keeps_claim_candidates[of "new_batch_row i"]) (simp_all add: new_batch_row_def)
    have row: "batch_row_of (ci_batchId i) ?s3 \<noteq> None"
      by (auto simp: batch_row_of_None image_iff new_batch_row_def)
    from c none False row consider "s' = ?s3" | "batch_items_of (ci_batchId i) ?s3 = []"
        "s' = ?s3\<lparr>bs_batches := filter (\<lambda>b. pb_id b \<noteq> ci_batchId i) (bs_batches ?s3)\<rparr>"
      by (auto simp: claim_def Let_def readBatchSync_def split: option.splits if_splits list.splits)
    then have "keeps ?s3 s'" by cases (simp, simp only: keeps_drop_empty_batch)
    with k1 k2 k3 show ?thesis by (blast intro: keeps_trans)
  qed (simp add: k1)
qed

lemma keeps_heartbeat: "keeps s (snd (heartbeatBatch bid owner ms e now s))"
proof -
  have "keeps t (t\<lparr>bs_batches := update_where p (\<lambda>r. r\<lparr>pb_leaseExpiresAt := v\<rparr>) (bs_batches t)\<rparr>)" for t p v
    by (rule keeps_batch_fields) simp_all
  then show ?thesis
    by (auto simp: heartbeatBatch_def Let_def intro: keeps_reclaim keeps_trans[OF keeps_reclaim] split: option.splits)
qed

lemma set_observation_fields [simp]:
  "pb_id (set_observation st at b) = pb_id b" "pb_state (set_observation st at b) = pb_state b"
  "pb_completedAt (set_observation st at b) = pb_completedAt b"
  "pb_leaseOwner (set_observation st at b) = pb_leaseOwner b"
  "pb_leaseExpiresAt (set_observation st at b) = pb_leaseExpiresAt b"
  by (cases st; simp)+

lemma keeps_observation: "keeps s (snd (recordObservation bid owner st at s))"
  by (auto simp: recordObservation_def Let_def split: option.splits intro!: keeps_batch_fields)

lemma keeps_throttle: "keeps s (snd (recordGithubThrottle bid owner at s))"
  by (auto simp: recordGithubThrottle_def Let_def split: option.splits intro!: keeps_batch_fields)

lemma keeps_commit: "keeps s (commit_completions bid now sha fp acc s)"
proof -
  have "keeps s (fold (apply_completion bid) acc s)"
    by (rule keeps_fold) (rule keeps_apply_completion)
  moreover have "keeps t (if acc \<noteq> [] then record_completion_metadata bid sha fp t else t)" for t
    by (simp add: keeps_metadata)
  moreover have "keeps t (if countUnfinishedItemsSync bid t = 0 then complete_batch_row bid now t else t)" for t
    by (simp add: keeps_complete_row)
  ultimately show ?thesis unfolding commit_completions_def Let_def by (blast intro: keeps_trans)
qed

lemma complete_cases:
  assumes "complete bid owner cs now sha fp cb x s = Inr (r, s', x')"
  obtains (unchanged) "s' = reclaimExpiredSync now s" "x' = x"
  | (committed) b items where "readBatchSync bid (reclaimExpiredSync now s) = Some (b, items)"
      "pb_leaseOwner b = owner" "pb_state b = BatchLeased"
      "cb (filter (completion_accepted items) cs) x = Some x'"
      "s' = commit_completions bid now sha fp (filter (completion_accepted items) cs) (reclaimExpiredSync now s)"
      "r = readBatchSync bid s'"
  using assms by (auto simp: complete_def Let_def split: option.splits if_splits)

lemma keeps_complete: "complete bid owner cs now sha fp cb x s = Inr (r, s', x') \<Longrightarrow> keeps s s'"
  by (erule complete_cases) (auto intro: keeps_reclaim keeps_trans[OF keeps_reclaim keeps_commit])

lemma keeps_batchStats: "keeps s (snd (batchStats now ttl lim s))"
  unfolding batchStats_def Let_def snd_conv
  by (rule keeps_trans[OF keeps_reclaim keeps_fold]) (rule keeps_delete_batch)

lemma repaired_generation_ge:
  "g \<le> n \<Longrightarrow> \<exists>m. repaired_generation (Some n) seen = Some m \<and> g \<le> m"
  by (auto simp: repaired_generation_def split: option.splits)

lemma max_item_generation_in:
  "max_item_generation key rs = Some m \<Longrightarrow> \<exists>r\<in>set rs. pi_key r = key \<and> pi_generation r = m"
proof -
  assume m: "max_item_generation key rs = Some m"
  let ?gs = "map pi_generation (filter (\<lambda>r. pi_key r = key) rs)"
  from m have "?gs \<noteq> []" "m = Max (set ?gs)" by (auto simp: max_item_generation_def Let_def split: if_splits)
  then have "m \<in> set ?gs" by (metis List.finite_set Max_in set_empty)
  then show ?thesis by auto
qed

lemma repair_issued: "issued s k g \<Longrightarrow> issued (repairSync s) k g"
  by (auto simp: issued_def repairSync_def repaired_generation_def split: option.splits)

lemma keeps_repair: "keeps s (repairSync s)"
proof (rule keepsI)
  let ?s1 = "s\<lparr>bs_batches := bs_batches (repairSync s)\<rparr>"
  assume inv: "batch_inv s"
  have "keeps s ?s1" unfolding repairSync_def by (simp, rule keeps_batch_fields) simp_all
  then have inv1: "batch_inv ?s1" using inv by (rule keeps_inv)
  have gens: "1 \<le> n" if "bs_generations (repairSync s) key = Some n" for key n
    using that batch_invD(10)[OF inv, of key] max_item_generation_in[of key "bs_items s"] batch_invD(6)[OF inv]
    by (fastforce simp: repairSync_def repaired_generation_def issued_def split: option.splits if_splits)
  have same: "bs_items (repairSync s) = bs_items s" by (simp add: repairSync_def)
  show "batch_inv (repairSync s)"
    using batch_invD[OF inv1] gens repair_issued by (intro batch_invI) (auto simp: same)
next
  fix k g assume "issued s k g"
  then show "issued (repairSync s) k g" by (rule repair_issued)
next
  fix f assume "spent_fence s f"
  moreover have "has_open (repairSync s) f = has_open s f" by (simp add: has_open_def repairSync_def)
  ultimately show "spent_fence (repairSync s) f" by (simp add: spent_fence_def repair_issued)
qed


subsection \<open>The store as a machine\<close>

text \<open>
  One step is one call of a public method, or a restart, which runs the repair. A call that
  throws rolls back. The callback of \<open>complete\<close> may throw on any accepted list it is given.
\<close>

datatype batch_op =
  BClaim claim_input
| BFetch string string int
| BHeartbeat string string "batch_fence list" int int
| BOwns batch_fence int
| BObserve string string observation_stage int
| BThrottle string string int
| BComplete string string "completion list" int "string option" "string option" "completion list \<Rightarrow> bool"
| BSnapshot int bool
| BStats int "int option" "nat option"
| BObservability int int
| BRestart

fun batch_step :: "batch_store \<Rightarrow> batch_op \<Rightarrow> batch_store" where
  "batch_step s (BClaim i) = (case claim i s of Inl _ \<Rightarrow> s | Inr (_, s') \<Rightarrow> s')"
| "batch_step s (BFetch bid owner now) = snd (fetch bid owner now s)"
| "batch_step s (BHeartbeat bid owner ms e now) = snd (heartbeatBatch bid owner ms e now s)"
| "batch_step s (BOwns f now) = snd (ownsActiveFence f now s)"
| "batch_step s (BObserve bid owner st at) = snd (recordObservation bid owner st at s)"
| "batch_step s (BThrottle bid owner at) = snd (recordGithubThrottle bid owner at s)"
| "batch_step s (BComplete bid owner cs now sha fp ok) =
     (case complete bid owner cs now sha fp (\<lambda>acc _. if ok acc then Some () else None) () s of
        Inl _ \<Rightarrow> s | Inr (_, s', _) \<Rightarrow> s')"
| "batch_step s (BSnapshot now reclaim) = snd (activeLeaseSnapshot now reclaim s)"
| "batch_step s (BStats now ttl lim) = snd (batchStats now ttl lim s)"
| "batch_step s (BObservability now lim) = snd (observability now lim s)"
| "batch_step s BRestart = repairSync s"

lemma keeps_batch_step: "keeps s (batch_step s x)"
  by (cases x)
     (auto simp: fetch_def ownsActiveFence_def activeLeaseSnapshot_def observability_def Let_def
        intro: keeps_reclaim keeps_claim keeps_heartbeat keeps_observation keeps_throttle keeps_complete
          keeps_batchStats keeps_repair split: sum.split)

lemma ownsActiveFenceIn_has_open: "ownsActiveFenceIn f s \<Longrightarrow> has_open s f"
  by (auto simp: ownsActiveFenceIn_def has_open_def list_ex_iff unfinished_def)

text \<open>With the invariant, the join with the leased batches is redundant.\<close>

lemma ownsActiveFenceIn_iff: "batch_inv s \<Longrightarrow> ownsActiveFenceIn f s \<longleftrightarrow> has_open s f"
proof
  assume inv: "batch_inv s" and "has_open s f"
  then obtain r where r: "r \<in> set (bs_items s)" "unfinished r" "pi_key r = bf_itemKey f"
     "pi_revision r = bf_revision f" "pi_generation r = bf_claimGeneration f"
    by (auto simp: has_open_def)
  from batch_invD(7)[OF inv r(1)] obtain b where b: "b \<in> set (bs_batches s)" "pb_id b = pi_batch r" by auto
  with batch_invD(8)[OF inv r(1) b(1) r(2)] r show "ownsActiveFenceIn f s"
    unfolding ownsActiveFenceIn_def list_ex_iff unfinished_def by metis
qed (rule ownsActiveFenceIn_has_open)

lemma reclaim_spent: "batch_inv s \<Longrightarrow> spent_fence s f \<Longrightarrow> spent_fence (reclaimExpiredSync now s) f"
  using keeps_reclaim[of s now] by (simp add: keeps_def)

text \<open>A fence is owned when \<open>ownsActiveFence\<close> accepts it at some time.\<close>

interpretation batches: fenced_store batch_step empty_batch_store batch_inv
  "\<lambda>s f. \<exists>now. fst (ownsActiveFence f now s)" spent_fence
proof unfold_locales
  show "batch_inv empty_batch_store" by (rule batch_inv_empty)
  fix s x f
  assume inv: "batch_inv s"
  then show "batch_inv (batch_step s x)" using keeps_batch_step by (rule keeps_inv[rotated])
  assume sp: "spent_fence s f"
  then show "spent_fence (batch_step s x) f" using keeps_batch_step[of s x] inv by (simp add: keeps_def)
  show "\<not> (\<exists>now. fst (ownsActiveFence f now s))"
    using reclaim_spent[OF inv sp] ownsActiveFenceIn_has_open
    by (auto simp: ownsActiveFence_def Let_def spent_fence_def)
qed

lemma batch_reachable: "s = run_ops batch_step empty_batch_store xs \<Longrightarrow> batch_inv s"
  using batches.inv_reachable by simp

text \<open>The comparators that pick the rows to clean up and to show.\<close>

interpretation cleanup_sort: js_comparator cleanup_order
  by unfold_locales (auto simp: cleanup_order_def cmp_or_le_iff)

interpretation leased_sort: js_comparator leased_order
  by unfold_locales (auto simp: leased_order_def cmp_or_le_iff)

interpretation history_sort: js_comparator history_order
  by unfold_locales (auto simp: history_order_def cmp_or_le_iff)

subsection \<open>What reclaiming does\<close>

lemma expire_batch_row: "batch_row_of b (expire_batch now bid s) =
    map_option (\<lambda>r. if b = bid \<and> pb_state r = BatchLeased then close_row BatchExpired now r else r)
      (batch_row_of b s)"
proof -
  have "batch_row_of b (expire_batch now bid s) =
     map_option (\<lambda>r. if pb_id r = bid \<and> pb_state r = BatchLeased then close_row BatchExpired now r else r)
      (batch_row_of b s)"
    unfolding batch_row_of_def expire_batch_def by (simp add: find_update_where)
  then show ?thesis
    by (cases "batch_row_of b s") (auto dest: batch_row_of_Some)
qed

lemma fold_expire_row: "batch_row_of b (fold (expire_batch now) ids s) =
    map_option (\<lambda>r. if b \<in> set ids \<and> pb_state r = BatchLeased then close_row BatchExpired now r else r)
      (batch_row_of b s)"
proof (induction ids arbitrary: s)
  case Nil
  then show ?case by (simp add: option.map_ident)
next
  case (Cons i ids)
  then show ?case by (cases "batch_row_of b s") (simp_all add: expire_batch_row, blast)
qed

lemma reclaim_row:
  assumes inv: "batch_inv s"
  shows "batch_row_of bid (reclaimExpiredSync now s) =
    map_option (\<lambda>b. if lease_expired_at now b then close_row BatchExpired now b else b) (batch_row_of bid s)"
proof (cases "batch_row_of bid s")
  case (Some b)
  then have b: "b \<in> set (bs_batches s)" "pb_id b = bid" by (auto dest: batch_row_of_Some)
  have "bid \<in> set (map pb_id (filter (lease_expired_at now) (bs_batches s))) \<longleftrightarrow> lease_expired_at now b"
  proof
    assume "bid \<in> set (map pb_id (filter (lease_expired_at now) (bs_batches s)))"
    then obtain b' where b': "b' \<in> set (bs_batches s)" "lease_expired_at now b'" "pb_id b' = bid" by auto
    then have "b' = b" using distinct_map_unique[OF batch_invD(1)[OF inv] b'(1) b(1)] b by simp
    then show "lease_expired_at now b" using b' by simp
  qed (use b in auto)
  with Some show ?thesis
    by (simp add: reclaimExpiredSync_def fold_expire_row lease_expired_at_def)
qed (simp add: reclaimExpiredSync_def fold_expire_row)

lemma expire_batch_items: "bs_items (expire_batch now bid s) =
    map (\<lambda>r. if pi_batch r = bid \<and> pi_outcome r = None then r\<lparr>pi_outcome := Some LeaseExpired\<rparr> else r) (bs_items s)"
  by (simp add: expire_batch_def update_where_def)

lemma fold_expire_items: "bs_items (fold (expire_batch now) ids s) =
    map (\<lambda>r. if pi_batch r \<in> set ids \<and> pi_outcome r = None then r\<lparr>pi_outcome := Some LeaseExpired\<rparr> else r) (bs_items s)"
  by (induction ids arbitrary: s) (auto simp: expire_batch_items)

text \<open>No leased batch of the reclaimed store is past its expiry.\<close>

lemma reclaim_live:
  assumes inv: "batch_inv s" and b: "b \<in> set (bs_batches (reclaimExpiredSync now s))" "pb_state b = BatchLeased"
  shows "now < pb_leaseExpiresAt b \<and> b \<in> set (bs_batches s)"
proof -
  have "batch_row_of (pb_id b) (reclaimExpiredSync now s) = Some b"
    using batch_row_of_iff[OF keeps_inv[OF keeps_reclaim inv]] b(1) by simp
  with reclaim_row[OF inv, of "pb_id b"] obtain b0 where b0: "batch_row_of (pb_id b) s = Some b0"
     "b = (if lease_expired_at now b0 then close_row BatchExpired now b0 else b0)"
    by (auto simp del: not_None_eq)
  with b(2) have "\<not> lease_expired_at now b0" by (metis batch_state.distinct(3) close_row_fields(2))
  with b0 b(2) show ?thesis
    by (auto simp: lease_expired_at_def dest: batch_row_of_Some)
qed


lemma batch_items_cong: "bs_items s' = bs_items s \<Longrightarrow> batch_items_of bid s' = batch_items_of bid s"
  by (simp add: batch_items_of_def)

lemma filter_key_map_other:
  "a \<notin> A \<Longrightarrow> (\<And>r. k (f r) = k r) \<Longrightarrow>
     filter (\<lambda>r. k r = a) (map (\<lambda>r. if k r \<in> A \<and> q r then f r else r) rs) = filter (\<lambda>r. k r = a) rs"
  by (induction rs) auto

lemma reclaim_items_live:
  assumes inv: "batch_inv s" and b: "batch_row_of bid s = Some b" "\<not> lease_expired_at now b"
  shows "batch_items_of bid (reclaimExpiredSync now s) = batch_items_of bid s"
proof -
  have mem: "b \<in> set (bs_batches s)" "pb_id b = bid" using b(1) by (auto dest: batch_row_of_Some)
  have "bid \<notin> pb_id ` set (filter (lease_expired_at now) (bs_batches s))"
    using distinct_map_unique[OF batch_invD(1)[OF inv] mem(1)] mem(2) b(2) by force
  then have "bid \<notin> set (map pb_id (filter (lease_expired_at now) (bs_batches s)))" by simp
  then have "filter (\<lambda>r. pi_batch r = bid) (bs_items (reclaimExpiredSync now s)) = filter (\<lambda>r. pi_batch r = bid) (bs_items s)"
    unfolding reclaimExpiredSync_def fold_expire_items by (rule filter_key_map_other) simp
  then show ?thesis by (simp add: batch_items_of_def)
qed

text \<open>A batch that is not past its expiry reads the same after reclaiming.\<close>

lemma read_reclaim_live:
  assumes "batch_inv s" "readBatchSync bid s = Some (b, items)" "\<not> lease_expired_at now b"
  shows "readBatchSync bid (reclaimExpiredSync now s) = Some (b, items)"
  using assms reclaim_row[OF assms(1), of bid now] reclaim_items_live[OF assms(1)]
  by (simp add: readBatch_Some)

lemma reclaim_read_live:
  assumes inv: "batch_inv s" and r: "readBatchSync bid (reclaimExpiredSync now s) = Some (b, items)"
    and l: "pb_state b = BatchLeased"
  shows "now < pb_leaseExpiresAt b \<and> readBatchSync bid s = Some (b, items)"
proof -
  from r have mem: "b \<in> set (bs_batches (reclaimExpiredSync now s))" "pb_id b = bid"
    by (auto simp: readBatch_Some dest: batch_row_of_Some)
  from reclaim_live[OF inv mem(1) l] have live: "now < pb_leaseExpiresAt b" "b \<in> set (bs_batches s)" by auto
  then have row: "batch_row_of bid s = Some b" using batch_row_of_iff[OF inv] mem(2) by simp
  have "\<not> lease_expired_at now b" using live by (simp add: lease_expired_at_def)
  from reclaim_items_live[OF inv row this] row r live show ?thesis by (simp add: readBatch_Some)
qed

subsection \<open>What a claim inserts\<close>

definition members :: "string \<Rightarrow> batch_store \<Rightarrow> item_row list" where
  "members bid s = filter (\<lambda>r. pi_batch r = bid) (bs_items s)"

lemma members_claim_candidate:
  "members bid (claim_candidate bid c s) =
     members bid s @ (if item_ignored bid c s then [] else [new_item_row bid c (drawn (cd_itemKey c) s)])"
  by (simp add: members_def claim_candidate_def nextClaimGeneration_drawn item_ignored_def new_item_row_def)

lemma members_other: "bid \<noteq> bid' \<Longrightarrow> members bid' (claim_candidates bid n cs s) = members bid' s"
proof (induction cs arbitrary: s)
  case (Cons c cs)
  have "members bid' (claim_candidate bid c s) = members bid' s"
    using Cons.prems by (simp add: members_def claim_candidate_def nextClaimGeneration_drawn new_item_row_def)
  with Cons show ?case by simp
qed simp

lemma count_members: "countUnfinishedItemsSync bid s = int (length (filter unfinished (members bid s)))"
  by (simp add: countUnfinishedItemsSync_def members_def unfinished_def conj_commute)

text \<open>
  Starting from a batch without members, the loop adds at most \<open>maxItems\<close> memberships, all
  unfinished and with generations that were not issued before the claim.
\<close>

lemma claim_candidate_issued: "issued s k g \<Longrightarrow> issued (claim_candidate bid c s) k g"
  by (simp add: claim_candidate_def nextClaimGeneration_drawn draw_keeps_issued)

lemma claim_candidates_members:
  assumes "\<And>r. r \<in> set (members bid s) \<Longrightarrow> unfinished r \<and> \<not> issued s0 (pi_key r) (pi_generation r)"
    "\<And>k g. issued s0 k g \<Longrightarrow> issued s k g" "int (length (members bid s)) \<le> maxItems"
  shows "int (length (members bid (claim_candidates bid maxItems cs s))) \<le> maxItems
    \<and> (\<forall>r\<in>set (members bid (claim_candidates bid maxItems cs s)).
         unfinished r \<and> \<not> issued s0 (pi_key r) (pi_generation r))"
  using assms
proof (induction cs arbitrary: s)
  case (Cons c cs)
  show ?case
  proof (cases "countUnfinishedItemsSync bid s \<ge> maxItems")
    case False
    have "filter unfinished (members bid s) = members bid s"
      using Cons.prems(1) by (simp add: filter_id_conv)
    with False have len: "int (length (members bid s)) < maxItems" by (simp add: count_members)
    let ?t = "claim_candidate bid c s"
    have fresh: "\<not> issued s0 (cd_itemKey c) (drawn (cd_itemKey c) s)"
      using Cons.prems(2) drawn_fresh by blast
    have p1: "unfinished r \<and> \<not> issued s0 (pi_key r) (pi_generation r)" if "r \<in> set (members bid ?t)" for r
    proof -
      from that consider "r \<in> set (members bid s)" | "r = new_item_row bid c (drawn (cd_itemKey c) s)"
        by (auto simp: members_claim_candidate split: if_splits)
      then show ?thesis
      proof cases
        case 1
        then show ?thesis by (rule Cons.prems(1))
      next
        case 2
        with fresh show ?thesis by (simp add: new_item_row_def unfinished_def)
      qed
    qed
    have p2: "issued s0 k g \<Longrightarrow> issued ?t k g" for k g
      using Cons.prems(2) claim_candidate_issued by blast
    have p3: "int (length (members bid ?t)) \<le> maxItems"
      using len by (simp add: members_claim_candidate)
    have "claim_candidates bid maxItems (c # cs) s = claim_candidates bid maxItems cs ?t"
      using False by simp
    then show ?thesis by (simp only:) (rule Cons.IH[OF p1 p2 p3])
  qed (use Cons.prems in simp)
qed simp

lemma members_batch_items: "set (batch_items_of bid s) = set (members bid s)"
  "length (batch_items_of bid s) = length (members bid s)" "batch_items_of bid s = [] \<longleftrightarrow> members bid s = []"
  by (auto simp: batch_items_of_def members_def) (metis length_0_conv length_sort)

lemma no_members: "batch_inv s \<Longrightarrow> bid \<notin> pb_id ` set (bs_batches s) \<Longrightarrow> members bid s = []"
  using batch_invD(7)[of s] by (auto simp: members_def filter_empty_conv)

text \<open>The store after a claim that created the batch.\<close>

definition claim_store :: "claim_input \<Rightarrow> batch_store \<Rightarrow> batch_store" where
  "claim_store i s = claim_candidates (ci_batchId i) (ci_maxItems i) (ci_candidates i)
     (s\<lparr>bs_batches := bs_batches s @ [new_batch_row i]\<rparr>)"

lemma claim_created:
  assumes c: "claim i s = Inr (Some (b, items), s')"
    and new: "readBatchSync (ci_batchId i) (reclaimExpiredSync (ci_now i) s) = None"
  shows "s' = claim_store i (reclaimExpiredSync (ci_now i) s) \<and> b = new_batch_row i
    \<and> items = batch_items_of (ci_batchId i) s' \<and> items \<noteq> []
    \<and> 1 \<le> ci_maxItems i
    \<and> activeBatches (reclaimExpiredSync (ci_now i) s) < max 1 (case ci_maxConcurrentBatches i of None \<Rightarrow> 1 | Some n \<Rightarrow> n)"
proof -
  let ?s1 = "reclaimExpiredSync (ci_now i) s"
  have "find (\<lambda>b. pb_id b = ci_batchId i) (bs_batches ?s1) = None"
    using new by (simp add: readBatchSync_def batch_row_of_def split: option.splits)
  from find_append_None[OF this, of "[new_batch_row i]"]
  have row: "batch_row_of (ci_batchId i) (claim_store i ?s1) = Some (new_batch_row i)"
    by (simp add: batch_row_of_def claim_store_def new_batch_row_def)
  with c new show ?thesis
    by (auto simp: claim_def Let_def readBatchSync_def claim_store_def[symmetric]
        split: option.splits if_splits list.splits)
qed


text \<open>A retried claim by the same owner, before the lease expires, is answered with the same batch.\<close>

lemma claim_result_read:
  assumes "claim i s = Inr (Some (b, items), s')"
  shows "readBatchSync (ci_batchId i) s' = Some (b, items) \<and> pb_state b = BatchLeased \<and> pb_leaseOwner b = ci_leaseOwner i"
proof (cases "readBatchSync (ci_batchId i) (reclaimExpiredSync (ci_now i) s)")
  case None
  from claim_created[OF assms None] show ?thesis
  proof -
    let ?s1 = "reclaimExpiredSync (ci_now i) s"
    have "find (\<lambda>b. pb_id b = ci_batchId i) (bs_batches ?s1) = None"
      using None by (simp add: readBatchSync_def batch_row_of_def split: option.splits)
    from find_append_None[OF this, of "[new_batch_row i]"]
    have "batch_row_of (ci_batchId i) (claim_store i ?s1) = Some (new_batch_row i)"
      by (simp add: batch_row_of_def claim_store_def new_batch_row_def)
    with claim_created[OF assms None] show ?thesis
      by (simp add: readBatch_Some) (simp add: new_batch_row_def)
  qed
next
  case (Some bi)
  with assms show ?thesis by (auto simp: claim_def Let_def split: if_splits prod.splits)
qed

subsection \<open>The size of a batch\<close>

text \<open>A batch never has more members than its configured size, so a restart has nothing to repair.\<close>

definition sized :: "batch_store \<Rightarrow> bool" where
  "sized s \<longleftrightarrow> (\<forall>b\<in>set (bs_batches s). membership_count (pb_id b) s \<le> pb_configuredBatchSize b)"

lemma membership_count_members: "membership_count bid s = int (length (members bid s))"
  by (simp add: membership_count_def members_def)

lemma sized_mono:
  assumes "sized s"
    and "\<And>b. b \<in> set (bs_batches s') \<Longrightarrow> \<exists>b0\<in>set (bs_batches s). pb_id b0 = pb_id b \<and> pb_configuredBatchSize b0 = pb_configuredBatchSize b"
    and "\<And>bid. length (members bid s') \<le> length (members bid s)"
  shows "sized s'"
  using assms unfolding sized_def membership_count_members
  by (metis (mono_tags, lifting) of_nat_le_iff order_trans)

lemma members_update_outcome:
  "length (members bid (s\<lparr>bs_items := update_where p (\<lambda>r. r\<lparr>pi_outcome := oc\<rparr>) (bs_items s)\<rparr>)) = length (members bid s)"
proof -
  have "length (filter (\<lambda>r. pi_batch r = bid) (update_where p (\<lambda>r. r\<lparr>pi_outcome := oc\<rparr>) rs))
      = length (filter (\<lambda>r. pi_batch r = bid) rs)" for rs
    by (induction rs) auto
  then show ?thesis by (simp add: members_def)
qed

lemma members_batches [simp]: "members bid (s\<lparr>bs_batches := bs\<rparr>) = members bid s"
  by (simp add: members_def)

lemma sized_fold: "(\<And>x t. sized t \<Longrightarrow> sized (f x t)) \<Longrightarrow> sized s \<Longrightarrow> sized (fold f xs s)"
  by (induction xs arbitrary: s) auto

lemma sized_batch_fields:
  assumes "sized s" "\<And>b. pb_id (f b) = pb_id b" "\<And>b. pb_configuredBatchSize (f b) = pb_configuredBatchSize b"
  shows "sized (s\<lparr>bs_batches := update_where p f (bs_batches s)\<rparr>)"
  using assms(1) by (rule sized_mono) (auto simp: set_update_where assms(2,3))

lemma sized_items: "sized s \<Longrightarrow> sized (s\<lparr>bs_items := update_where p (\<lambda>r. r\<lparr>pi_outcome := oc\<rparr>) (bs_items s)\<rparr>)"
  by (erule sized_mono) (auto simp: members_update_outcome)

lemma sized_expire: "sized s \<Longrightarrow> sized (expire_batch now bid s)"
proof -
  assume "sized s"
  from sized_batch_fields[OF sized_items[OF this], where f = "close_row BatchExpired now"]
  show ?thesis by (simp add: expire_batch_def close_row_def)
qed

lemma sized_reclaim: "sized s \<Longrightarrow> sized (reclaimExpiredSync now s)"
  unfolding reclaimExpiredSync_def by (rule sized_fold) (rule sized_expire)

lemma sized_delete: assumes "sized s" shows "sized (delete_batch bid s)"
  using assms
proof (rule sized_mono)
  fix b' assume "b' \<in> set (bs_batches (delete_batch bid s))"
  then show "\<exists>b0\<in>set (bs_batches s). pb_id b0 = pb_id b' \<and> pb_configuredBatchSize b0 = pb_configuredBatchSize b'"
    by (auto simp: delete_batch_def)
next
  fix bid' show "length (members bid' (delete_batch bid s)) \<le> length (members bid' s)"
    unfolding members_def delete_batch_def by (simp add: length_filter_filter_le del: filter_filter)
qed

lemma sized_commit: "sized s \<Longrightarrow> sized (commit_completions bid now sha fp acc s)"
proof -
  assume s: "sized s"
  have a: "sized (fold (apply_completion bid) acc s)"
    by (rule sized_fold[OF _ s]) (simp add: apply_completion_def sized_items)
  have m: "sized t \<Longrightarrow> sized (record_completion_metadata bid sha fp t)" for t
    unfolding record_completion_metadata_def by (rule sized_batch_fields) simp_all
  have c: "sized t \<Longrightarrow> sized (complete_batch_row bid now t)" for t
    unfolding complete_batch_row_def by (rule sized_batch_fields) (simp_all add: close_row_def)
  show ?thesis using a m c s by (simp add: commit_completions_def Let_def)
qed

lemma claim_store_sized:
  assumes inv: "batch_inv s" and sz: "sized s" and new: "ci_batchId i \<notin> pb_id ` set (bs_batches s)"
    and pos: "1 \<le> ci_maxItems i"
  shows "sized (claim_store i s)"
proof -
  let ?s2 = "s\<lparr>bs_batches := bs_batches s @ [new_batch_row i]\<rparr>"
  have "members (ci_batchId i) ?s2 = []" using no_members[OF inv new] by simp
  then have own: "int (length (members (ci_batchId i) (claim_store i s))) \<le> ci_maxItems i"
    unfolding claim_store_def
    using claim_candidates_members[where s = ?s2 and ?s0.0 = ?s2 and bid = "ci_batchId i"
        and maxItems = "ci_maxItems i" and cs = "ci_candidates i"] pos by simp
  have "membership_count (pb_id b) (claim_store i s) \<le> pb_configuredBatchSize b" if "b \<in> set (bs_batches s)" for b
    using that sz new members_other[of "ci_batchId i" "pb_id b" "ci_maxItems i" "ci_candidates i" ?s2]
    unfolding sized_def membership_count_members claim_store_def by (metis imageI members_batches)
  with own show ?thesis
    by (auto simp: sized_def membership_count_members claim_store_def new_batch_row_def)
qed


lemma filter_new_batch: "bs_batches s = bs @ [b] \<Longrightarrow> filter p bs = bs \<Longrightarrow> \<not> p b \<Longrightarrow> filter p (bs_batches s) = bs"
  by simp

lemma sized_claim:
  assumes inv: "batch_inv s" and sz: "sized s" and c: "claim i s = Inr (r, s')"
  shows "sized s'"
proof -
  let ?s1 = "reclaimExpiredSync (ci_now i) s"
  let ?s3 = "claim_store i ?s1"
  have inv1: "batch_inv ?s1" by (rule keeps_inv[OF keeps_reclaim inv])
  have sz1: "sized ?s1" by (rule sized_reclaim[OF sz])
  show ?thesis
  proof (cases "s' = ?s1")
    case False
    with c have new: "readBatchSync (ci_batchId i) ?s1 = None" and pos: "1 \<le> ci_maxItems i"
      by (auto simp: claim_def Let_def split: option.splits if_splits)
    from new have "ci_batchId i \<notin> pb_id ` set (bs_batches ?s1)" by (simp add: readBatch_None)
    from claim_store_sized[OF inv1 sz1 this pos] have sz3: "sized ?s3" .
    have "s' = ?s3 \<or> s' = ?s3\<lparr>bs_batches := filter (\<lambda>b. pb_id b \<noteq> ci_batchId i) (bs_batches ?s3)\<rparr>"
      using c new False unfolding claim_def Let_def claim_store_def[symmetric]
      by (auto split: option.splits if_splits list.splits)
    then show ?thesis using sz3 by (elim disjE) (auto simp: sized_def membership_count_members)
  qed (simp add: sz1)
qed

lemma sized_batch_step: "batch_inv s \<Longrightarrow> sized s \<Longrightarrow> sized (batch_step s x)"
proof (cases x)
  case (BClaim i)
  assume "batch_inv s" "sized s"
  with BClaim sized_claim[of s i] show ?thesis by (auto split: sum.split)
next
  case (BHeartbeat bid owner ms e now)
  assume "sized s"
  have hb: "sized t \<Longrightarrow> sized (t\<lparr>bs_batches := update_where p (\<lambda>r. r\<lparr>pb_leaseExpiresAt := v\<rparr>) (bs_batches t)\<rparr>)" for t p v
    by (rule sized_batch_fields) simp_all
  from sized_reclaim[OF \<open>sized s\<close>, of now] BHeartbeat show ?thesis
    by (auto simp: heartbeatBatch_def Let_def intro: hb split: option.splits)
next
  case (BObserve bid owner st at)
  assume "sized s"
  have "pb_configuredBatchSize (set_observation st at b) = pb_configuredBatchSize b" for b
    by (cases st) simp_all
  with \<open>sized s\<close> BObserve show ?thesis
    by (auto simp: recordObservation_def Let_def intro!: sized_batch_fields split: option.splits)
next
  case (BThrottle bid owner at)
  assume "sized s"
  with BThrottle show ?thesis
    by (auto simp: recordGithubThrottle_def Let_def intro!: sized_batch_fields split: option.splits)
next
  case (BComplete bid owner cs now sha fp ok)
  assume s: "sized s"
  have "sized s'" if "complete bid owner cs now sha fp cb x s = Inr (r, s', x')"
    for cb :: "completion list \<Rightarrow> unit \<Rightarrow> unit option" and x r s' x'
    using that by (rule complete_cases) (simp_all add: sized_reclaim sized_commit s)
  with s BComplete show ?thesis by (auto split: sum.split)
next
  case (BStats now ttl lim)
  assume "sized s"
  then show ?thesis unfolding BStats batch_step.simps batchStats_def Let_def snd_conv
    by (intro sized_fold sized_delete sized_reclaim)
next
  case BRestart
  show ?thesis unfolding BRestart batch_step.simps sized_def
    by (auto simp: repairSync_def set_update_where membership_count_def split: if_splits)
qed (simp_all add: fetch_def ownsActiveFence_def activeLeaseSnapshot_def observability_def Let_def sized_reclaim)

interpretation batch_sizes: invariant_machine batch_step empty_batch_store "\<lambda>s. batch_inv s \<and> sized s"
  by unfold_locales
    (auto simp: batch_inv_empty batches.inv_step sized_batch_step, simp add: sized_def empty_batch_store_def)

text \<open>The largest generation of a key is what the generation table holds or less.\<close>

lemma repaired_generation_id:
  assumes "batch_inv s"
  shows "repaired_generation (bs_generations s key) (max_item_generation key (bs_items s)) = bs_generations s key"
proof (cases "max_item_generation key (bs_items s)")
  case (Some m)
  then obtain r where r: "r \<in> set (bs_items s)" "pi_key r = key" "pi_generation r = m"
    by (auto dest: max_item_generation_in)
  from batch_invD(6)[OF assms r(1)] r Some show ?thesis
    by (auto simp: issued_def repaired_generation_def split: option.splits)
qed (simp add: repaired_generation_def)

lemma repair_noop: "batch_inv s \<Longrightarrow> sized s \<Longrightarrow> repairSync s = s"
  unfolding repairSync_def
  by (subst update_where_none) (auto simp: sized_def repaired_generation_id)


subsection \<open>What complete does to the members\<close>

definition fence_of :: "item_row \<Rightarrow> string \<times> int \<times> int" where
  "fence_of r = (pi_key r, pi_revision r, pi_generation r)"

definition completion_fence :: "completion \<Rightarrow> string \<times> int \<times> int" where
  "completion_fence c = (bf_itemKey c, bf_revision c, bf_claimGeneration c)"

text \<open>The first accepted completion of a membership sets its outcome.\<close>

definition finish_by :: "string \<Rightarrow> completion list \<Rightarrow> item_row \<Rightarrow> item_row" where
  "finish_by bid acc r =
     (if pi_batch r = bid \<and> unfinished r
      then case find (\<lambda>c. completion_fence c = fence_of r) acc of
             None \<Rightarrow> r | Some c \<Rightarrow> r\<lparr>pi_outcome := Some (bc_terminalOutcome c)\<rparr>
      else r)"

lemma finish_by_fields [simp]:
  "pi_batch (finish_by bid acc r) = pi_batch r" "pi_key (finish_by bid acc r) = pi_key r"
  "pi_revision (finish_by bid acc r) = pi_revision r" "pi_generation (finish_by bid acc r) = pi_generation r"
  "fence_of (finish_by bid acc r) = fence_of r"
  by (auto simp: finish_by_def fence_of_def split: option.splits)

lemma finish_by_unfinished:
  "unfinished (finish_by bid acc r) \<longleftrightarrow>
     unfinished r \<and> \<not> (pi_batch r = bid \<and> fence_of r \<in> completion_fence ` set acc)"
proof -
  have "find (\<lambda>c. completion_fence c = fence_of r) acc = None \<longleftrightarrow> fence_of r \<notin> completion_fence ` set acc"
    by (auto simp: find_None_iff) (metis imageI)
  then show ?thesis
    by (cases "find (\<lambda>c. completion_fence c = fence_of r) acc")
       (auto simp: finish_by_def unfinished_def)
qed

lemma finish_by_Nil: "finish_by bid [] = id"
  by (simp add: finish_by_def fun_eq_iff)

lemma finish_by_Cons:
  "finish_by bid acc (finish_by bid [c] r) = finish_by bid (c # acc) r"
  by (auto simp: finish_by_def unfinished_def split: option.splits)

lemma apply_completion_items: "bs_items (apply_completion bid c s) = map (finish_by bid [c]) (bs_items s)"
  by (auto simp: apply_completion_def update_where_def finish_by_def fence_of_def completion_fence_def unfinished_def)

lemma fold_apply_completion_items:
  "bs_items (fold (apply_completion bid) acc s) = map (finish_by bid acc) (bs_items s)"
proof (induction acc arbitrary: s)
  case Nil
  show ?case by (simp add: finish_by_Nil)
next
  case (Cons c acc)
  have "finish_by bid acc \<circ> finish_by bid [c] = finish_by bid (c # acc)"
    by (simp add: fun_eq_iff finish_by_Cons)
  with Cons show ?case by (simp add: apply_completion_items)
qed

lemma fold_apply_completion_batches: "bs_batches (fold (apply_completion bid) acc s) = bs_batches s"
  by (induction acc arbitrary: s) (simp_all add: apply_completion_def)

lemma commit_items: "bs_items (commit_completions bid now sha fp acc s) = map (finish_by bid acc) (bs_items s)"
  by (simp add: commit_completions_def Let_def record_completion_metadata_def complete_batch_row_def
      fold_apply_completion_items finish_by_Nil)

lemma sort_key_map_same: "(\<And>x. k (f x) = k x) \<Longrightarrow> sort_key k (map f xs) = map f (sort_key k xs)"
proof (induction xs)
  case (Cons x xs)
  have "insort_key k (f x) (map f ys) = map f (insort_key k x ys)" for ys
    by (induction ys) (simp_all add: Cons.prems)
  with Cons show ?case by simp
qed simp

lemma batch_items_map:
  assumes "bs_items s' = map f (bs_items s)" "\<And>r. pi_key (f r) = pi_key r" "\<And>r. pi_batch (f r) = pi_batch r"
  shows "batch_items_of bid s' = map f (batch_items_of bid s)"
  by (simp add: batch_items_of_def assms filter_map o_def sort_key_map_same)

lemma commit_batch_items:
  "batch_items_of bid (commit_completions bid now sha fp acc s) = map (finish_by bid acc) (batch_items_of bid s)"
  by (rule batch_items_map) (simp_all add: commit_items)

text \<open>The row of the batch after the commit.\<close>

lemma update_row_of:
  assumes "\<And>b. pb_id (f b) = pb_id b"
  shows "batch_row_of bid (s\<lparr>bs_batches := update_where p f (bs_batches s)\<rparr>) =
     map_option (\<lambda>b. if p b then f b else b) (batch_row_of bid s)"
  unfolding batch_row_of_def by (simp add: find_update_where assms)

lemma commit_row:
  assumes row: "batch_row_of bid s = Some b" and l: "pb_state b = BatchLeased"
  shows "\<exists>b'. batch_row_of bid (commit_completions bid now sha fp acc s) = Some b'
    \<and> pb_leaseOwner b' = pb_leaseOwner b
    \<and> (if \<exists>r\<in>set (batch_items_of bid s). unfinished (finish_by bid acc r)
       then pb_state b' = BatchLeased else pb_state b' = BatchCompleted \<and> pb_completedAt b' = Some now)"
proof -
  let ?s1 = "fold (apply_completion bid) acc s"
  let ?s2 = "if acc \<noteq> [] then record_completion_metadata bid sha fp ?s1 else ?s1"
  have id: "pb_id b = bid" using row by (auto dest: batch_row_of_Some)
  have "batch_row_of bid ?s1 = Some b"
    using row by (simp add: batch_row_of_def fold_apply_completion_batches)
  then obtain b2 where b2: "batch_row_of bid ?s2 = Some b2" "pb_state b2 = BatchLeased"
      "pb_leaseOwner b2 = pb_leaseOwner b" "pb_id b2 = bid"
    using l id by (cases "acc = []") (simp_all add: record_completion_metadata_def update_row_of)
  have items: "bs_items ?s2 = map (finish_by bid acc) (bs_items s)"
    by (simp add: record_completion_metadata_def fold_apply_completion_items finish_by_Nil)
  have cnt: "countUnfinishedItemsSync bid ?s2 = 0 \<longleftrightarrow> \<not> (\<exists>r\<in>set (batch_items_of bid s). unfinished (finish_by bid acc r))"
    unfolding countUnfinished_zero items by auto
  show ?thesis
    using b2 cnt unfolding commit_completions_def Let_def
    by (auto simp: complete_batch_row_def update_row_of simp del: bex_simps split: if_splits)
qed

lemma find_rev_key:
  assumes "distinct (map k xs)" "x \<in> set xs"
  shows "find (\<lambda>y. k y = k x) (rev xs) = Some x"
  using assms by (intro find_unique) (auto dest: distinct_map_unique)

lemma batch_items_distinct: "batch_inv s \<Longrightarrow> distinct (map pi_key (batch_items_of bid s))"
proof -
  assume "batch_inv s"
  then have d: "distinct (map (\<lambda>r. (pi_batch r, pi_key r)) (filter (\<lambda>r. pi_batch r = bid) (bs_items s)))"
    by (intro distinct_map_filter batch_invD(2))
  have "inj_on pi_key (set (filter (\<lambda>r. pi_batch r = bid) (bs_items s)))"
    using d by (auto simp: distinct_map inj_on_def)
  moreover have "distinct (filter (\<lambda>r. pi_batch r = bid) (bs_items s))" using d by (auto simp: distinct_map)
  ultimately show ?thesis by (simp add: batch_items_of_def distinct_map)
qed

lemma item_matches_iff:
  assumes "distinct (map pi_key items)"
  shows "item_matches items k r g \<longleftrightarrow> (\<exists>i\<in>set items. fence_of i = (k, r, g))"
proof
  assume "item_matches items k r g"
  then show "\<exists>i\<in>set items. fence_of i = (k, r, g)"
    by (auto simp: item_matches_def fence_of_def split: option.splits dest!: find_SomeD)
next
  assume "\<exists>i\<in>set items. fence_of i = (k, r, g)"
  then obtain i where i: "i \<in> set items" "pi_key i = k" "pi_revision i = r" "pi_generation i = g"
    by (auto simp: fence_of_def)
  from find_rev_key[OF assms i(1)] i show "item_matches items k r g" by (simp add: item_matches_def)
qed

lemma completion_accepted_iff:
  assumes "distinct (map pi_key items)"
  shows "completion_accepted items c \<longleftrightarrow> (\<exists>i\<in>set items. unfinished i \<and> fence_of i = completion_fence c)"
proof -
  have "distinct (map pi_key (filter (\<lambda>r. pi_outcome r = None) items))" using assms by (rule distinct_map_filter)
  from item_matches_iff[OF this] show ?thesis
    by (auto simp: completion_accepted_def completion_fence_def unfinished_def)
qed


subsection \<open>Properties\<close>

text \<open>
  C32. In every state that any sequence of calls, cleanups and restarts can reach, a queue
  item has at most one unfinished membership, no claim generation was given to two
  memberships of the same item, a batch lists an item once, batch ids are unique, and every
  membership's generation is recorded in the generation table.
\<close>

theorem batch_reachable_exclusive:
  "let s = run_ops batch_step empty_batch_store xs in
     distinct (map pi_key (filter (\<lambda>r. pi_outcome r = None) (bs_items s)))
     \<and> distinct (map (\<lambda>r. (pi_key r, pi_generation r)) (bs_items s))
     \<and> distinct (map (\<lambda>r. (pi_batch r, pi_key r)) (bs_items s))
     \<and> distinct (map pb_id (bs_batches s))
     \<and> list_all (\<lambda>r. issued s (pi_key r) (pi_generation r)) (bs_items s)"
proof -
  have "filter unfinished = filter (\<lambda>r. pi_outcome r = None)"
    by (rule arg_cong[where f = filter]) (simp add: unfinished_def fun_eq_iff)
  with batch_invD[OF batches.inv_reachable[of xs]] show ?thesis
    by (simp add: Let_def list_all_iff)
qed

lemma has_open_issued: "batch_inv s \<Longrightarrow> has_open s f \<Longrightarrow> issued s (bf_itemKey f) (bf_claimGeneration f)"
  using batch_invD(6) by (fastforce simp: has_open_def)

lemma fold_expire_generations: "bs_generations (fold (expire_batch now) ids s) = bs_generations s"
  by (induction ids arbitrary: s) (simp_all add: expire_batch_def)

lemma reclaim_issued: "issued (reclaimExpiredSync now s) = issued s"
  by (simp add: issued_def fun_eq_iff reclaimExpiredSync_def fold_expire_generations)

lemma issued_run: "batch_inv s \<Longrightarrow> issued s k g \<Longrightarrow> issued (run_ops batch_step s xs) k g"
proof (induction xs arbitrary: s)
  case (Cons x xs)
  then show ?case using keeps_batch_step[of s x] by (simp add: keeps_def)
qed simp

text \<open>
  C3. A fence that was accepted once and is later refused is refused forever: no later claim,
  completion, cleanup of receipts, reuse of a batch id or restart makes \<open>ownsActiveFence\<close>
  accept the stale fence again.
\<close>

theorem stale_fence_never_revives:
  assumes "fst (ownsActiveFence f t0 (run_ops batch_step empty_batch_store xs))"
    and "\<not> fst (ownsActiveFence f t1 (run_ops batch_step empty_batch_store (xs @ ys)))"
  shows "\<not> fst (ownsActiveFence f t2 (run_ops batch_step empty_batch_store (xs @ ys @ BOwns f t1 # zs)))"
proof -
  let ?a = "run_ops batch_step empty_batch_store xs" and ?b = "run_ops batch_step empty_batch_store (xs @ ys)"
  have inv: "batch_inv ?a" "batch_inv ?b" by (rule batches.inv_reachable)+
  have inv': "batch_inv (reclaimExpiredSync t1 ?b)" by (rule keeps_inv[OF keeps_reclaim inv(2)])
  have "has_open (reclaimExpiredSync t0 ?a) f"
    using assms(1) by (simp add: ownsActiveFence_def Let_def ownsActiveFenceIn_has_open)
  from has_open_issued[OF keeps_inv[OF keeps_reclaim inv(1)] this]
  have "issued ?a (bf_itemKey f) (bf_claimGeneration f)" by (simp add: reclaim_issued)
  from issued_run[OF inv(1) this, of ys]
  have "issued (reclaimExpiredSync t1 ?b) (bf_itemKey f) (bf_claimGeneration f)"
    by (simp add: reclaim_issued run_ops_append)
  moreover have "\<not> has_open (reclaimExpiredSync t1 ?b) f"
    using assms(2) ownsActiveFenceIn_iff[OF inv'] by (simp add: ownsActiveFence_def Let_def)
  ultimately have "spent_fence (batch_step ?b (BOwns f t1)) f"
    by (simp add: spent_fence_def ownsActiveFence_def Let_def)
  from batches.dead_never_owned[OF batches.inv_step[OF inv(2)] this, of zs]
  show ?thesis by (simp add: run_ops_append)
qed

text \<open>
  A claim that creates a batch returns between one and \<open>maxItems\<close> memberships, all
  unfinished and with claim generations that were never issued before, and the number of
  leased batches stays within the concurrency limit.
\<close>

theorem claim_bounds:
  assumes s: "s = run_ops batch_step empty_batch_store xs"
    and c: "claim i s = Inr (Some (b, items), s')"
    and new: "readBatchSync (ci_batchId i) (reclaimExpiredSync (ci_now i) s) = None"
  shows "1 \<le> length items \<and> int (length items) \<le> ci_maxItems i
    \<and> activeBatches s' \<le> max 1 (case ci_maxConcurrentBatches i of None \<Rightarrow> 1 | Some n \<Rightarrow> n)
    \<and> list_all (\<lambda>r. pi_outcome r = None \<and> \<not> issued s (pi_key r) (pi_generation r)) items"
proof -
  let ?s1 = "reclaimExpiredSync (ci_now i) s"
  let ?s2 = "?s1\<lparr>bs_batches := bs_batches ?s1 @ [new_batch_row i]\<rparr>"
  have inv1: "batch_inv ?s1" by (rule keeps_inv[OF keeps_reclaim batch_reachable[OF s]])
  note cc = claim_created[OF c new]
  have "members (ci_batchId i) ?s2 = []" using no_members[OF inv1] new by (simp add: readBatch_None)
  with cc have m: "int (length (members (ci_batchId i) s')) \<le> ci_maxItems i"
      "\<forall>r\<in>set (members (ci_batchId i) s'). unfinished r \<and> \<not> issued ?s2 (pi_key r) (pi_generation r)"
    using claim_candidates_members[where s = ?s2 and ?s0.0 = ?s2 and bid = "ci_batchId i"
        and maxItems = "ci_maxItems i" and cs = "ci_candidates i"]
    by (simp_all add: claim_store_def)
  have "activeBatches s' = activeBatches ?s1 + 1"
    using cc by (simp add: activeBatches_def claim_store_def new_batch_row_def)
  with cc m show ?thesis
    by (auto simp: list_all_iff members_batch_items unfinished_def reclaim_issued Suc_le_eq
        simp del: batch_items_of_set)
qed

text \<open>
  Retrying a claim is idempotent: while the lease is live, the same owner asking again
  with the same batch id, whatever its candidates, gets the same batch with the same
  memberships and fences, and nothing is claimed.
\<close>

theorem claim_retry_same_batch:
  assumes s: "s = run_ops batch_step empty_batch_store xs"
    and c: "claim i s = Inr (Some (b, items), s')"
    and live: "ci_now j < pb_leaseExpiresAt b"
    and same: "ci_batchId j = ci_batchId i" "ci_leaseOwner j = ci_leaseOwner i"
  shows "claim j s' = Inr (Some (b, items), reclaimExpiredSync (ci_now j) s')"
proof -
  have inv: "batch_inv s'" by (rule keeps_inv[OF keeps_claim[OF c] batch_reachable[OF s]])
  from claim_result_read[OF c] have r: "readBatchSync (ci_batchId i) s' = Some (b, items)"
    "pb_state b = BatchLeased" "pb_leaseOwner b = ci_leaseOwner i" by auto
  have "\<not> lease_expired_at (ci_now j) b" using live by (simp add: lease_expired_at_def)
  from read_reclaim_live[OF inv r(1) this] r same show ?thesis
    by (simp add: claim_def Let_def)
qed

text \<open>
  An accepted heartbeat names every unfinished member of the batch with its exact
  revision and generation, comes from the lease owner before the expiry, and never shortens
  the lease: the new expiry is the later of the old and the requested one.
\<close>

theorem heartbeat_never_shortens:
  assumes s: "s = run_ops batch_step empty_batch_store xs"
    and h: "heartbeatBatch bid owner ms leaseExpiresAt now s = (Some (b', items'), s')"
  shows "\<exists>b items. readBatchSync bid s = Some (b, items) \<and> pb_leaseOwner b = owner \<and> now < pb_leaseExpiresAt b
    \<and> items' = items \<and> pb_leaseExpiresAt b' = max (pb_leaseExpiresAt b) leaseExpiresAt
    \<and> {fence_of r |r. r \<in> set items \<and> pi_outcome r = None}
        \<subseteq> (\<lambda>m. (bf_itemKey m, bf_revision m, bf_claimGeneration m)) ` set ms
    \<and> (\<lambda>m. (bf_itemKey m, bf_revision m, bf_claimGeneration m)) ` set ms \<subseteq> fence_of ` set items"
proof -
  let ?s = "reclaimExpiredSync now s"
  let ?f = "\<lambda>m. (bf_itemKey m, bf_revision m, bf_claimGeneration m)"
  have inv: "batch_inv s" by (rule batch_reachable[OF s])
  have inv1: "batch_inv ?s" by (rule keeps_inv[OF keeps_reclaim inv])
  from h obtain b items where r: "readBatchSync bid ?s = Some (b, items)"
    and b: "pb_state b = BatchLeased" "pb_leaseOwner b = owner"
    and ok: "list_all (\<lambda>m. item_matches items (bf_itemKey m) (bf_revision m) (bf_claimGeneration m)) ms"
      "\<forall>r\<in>set items. (\<exists>y. pi_outcome r = Some y) \<or> pi_key r \<in> bf_itemKey ` set ms"
    and s': "s' = ?s\<lparr>bs_batches := update_where (\<lambda>r. pb_id r = bid \<and> pb_state r = BatchLeased \<and> pb_leaseOwner r = owner)
                   (\<lambda>r. r\<lparr>pb_leaseExpiresAt := max (pb_leaseExpiresAt b) leaseExpiresAt\<rparr>) (bs_batches ?s)\<rparr>"
    and rb: "readBatchSync bid s' = Some (b', items')"
    by (auto simp: heartbeatBatch_def Let_def list_ex_iff list_all_iff split: option.splits if_splits)
  have live: "now < pb_leaseExpiresAt b" "readBatchSync bid s = Some (b, items)"
    using reclaim_read_live[OF inv r b(1)] by auto
  have row: "batch_row_of bid ?s = Some b" and items: "items = batch_items_of bid ?s"
    using r by (auto simp: readBatch_Some)
  from row have id: "pb_id b = bid" by (auto dest: batch_row_of_Some)
  have b': "b' = b\<lparr>pb_leaseExpiresAt := max (pb_leaseExpiresAt b) leaseExpiresAt\<rparr>" "items' = items"
    using rb row b id unfolding s' readBatch_Some
    by (simp_all add: update_row_of items batch_items_of_def)
  have d: "distinct (map pi_key items)" unfolding items by (rule batch_items_distinct[OF inv1])
  have sub: "?f ` set ms \<subseteq> fence_of ` set items"
    using ok(1) item_matches_iff[OF d] by (force simp: list_all_iff)
  have "fence_of r \<in> ?f ` set ms" if i: "r \<in> set items" "pi_outcome r = None" for r
  proof -
    from bspec[OF ok(2) i(1)] i(2) have "pi_key r \<in> bf_itemKey ` set ms" by simp
    then obtain m where m: "m \<in> set ms" "bf_itemKey m = pi_key r" by (metis imageE)
    with sub have "?f m \<in> fence_of ` set items" by blast
    then obtain i' where "i' \<in> set items" "fence_of i' = ?f m" by (metis imageE)
    moreover from this m have "i' = r" using distinct_map_unique[OF d _ i(1)] by (simp add: fence_of_def)
    ultimately have "fence_of r = ?f m" by simp
    with imageI[OF m(1), of ?f] show ?thesis by (simp only:)
  qed
  then have "{fence_of r |r. r \<in> set items \<and> pi_outcome r = None} \<subseteq> ?f ` set ms" by blast
  with live b b' sub show ?thesis by (intro exI[of _ b] exI[of _ items]) simp
qed


lemma read_leased:
  assumes inv: "batch_inv s" and r: "readBatchSync bid s = Some (b, items)" and l: "now < pb_leaseExpiresAt b"
  shows "readBatchSync bid (reclaimExpiredSync now s) = Some (b, items)"
  using l by (intro read_reclaim_live[OF inv r]) (simp add: lease_expired_at_def)

text \<open>
  C10. \<open>complete\<close> on a live batch of its owner finishes exactly the unfinished members whose
  fence some completion names, leaves every other member as it was, hands the callback
  exactly the accepted completions, and closes the batch exactly when no member is left.
\<close>

theorem complete_exact:
  assumes s: "s = run_ops batch_step empty_batch_store xs"
    and r: "readBatchSync bid s = Some (b, items)" "pb_state b = BatchLeased" "pb_leaseOwner b = owner"
      "now < pb_leaseExpiresAt b"
    and cb: "cb (filter (\<lambda>c. completion_fence c \<in> {fence_of i |i. i \<in> set items \<and> pi_outcome i = None}) cs) x = Some x'"
  shows "\<exists>b' items' s'. complete bid owner cs now sha fp cb x s = Inr (Some (b', items'), s', x')
    \<and> map fence_of items' = map fence_of items
    \<and> map (\<lambda>i. pi_outcome i = None) items'
        = map (\<lambda>i. pi_outcome i = None \<and> fence_of i \<notin> completion_fence ` set cs) items
    \<and> (pb_state b' = BatchCompleted \<longleftrightarrow> list_all (\<lambda>i. pi_outcome i \<noteq> None) items')
    \<and> (pb_state b' \<noteq> BatchCompleted \<longrightarrow> pb_state b' = BatchLeased)"
proof -
  have inv: "batch_inv s" by (rule batch_reachable[OF s])
  let ?t = "reclaimExpiredSync now s"
  have rt: "readBatchSync bid ?t = Some (b, items)" by (rule read_leased[OF inv r(1,4)])
  have invt: "batch_inv ?t" by (rule keeps_inv[OF keeps_reclaim inv])
  have row: "batch_row_of bid ?t = Some b" and items: "items = batch_items_of bid ?t"
    using rt by (auto simp: readBatch_Some)
  have d: "distinct (map pi_key items)" unfolding items by (rule batch_items_distinct[OF invt])
  have acc: "completion_accepted items = (\<lambda>c. completion_fence c \<in> {fence_of i |i. i \<in> set items \<and> pi_outcome i = None})"
    by (simp add: fun_eq_iff completion_accepted_iff[OF d] unfinished_def) metis
  let ?acc = "filter (completion_accepted items) cs"
  let ?s' = "commit_completions bid now sha fp ?acc ?t"
  from commit_row[OF row r(2), of now sha fp ?acc] obtain b' where b': "batch_row_of bid ?s' = Some b'"
    and st: "if \<exists>i\<in>set items. unfinished (finish_by bid ?acc i) then pb_state b' = BatchLeased
       else pb_state b' = BatchCompleted \<and> pb_completedAt b' = Some now"
    unfolding items[symmetric] by blast
  let ?items' = "map (finish_by bid ?acc) items"
  have read: "readBatchSync bid ?s' = Some (b', ?items')"
    using b' by (simp add: readBatch_Some commit_batch_items items)
  have run: "complete bid owner cs now sha fp cb x s = Inr (Some (b', ?items'), ?s', x')"
    using rt r cb read unfolding complete_def Let_def acc[symmetric] by simp
  have u: "unfinished (finish_by bid ?acc i) \<longleftrightarrow> unfinished i \<and> fence_of i \<notin> completion_fence ` set cs"
    if "i \<in> set items" for i
  proof -
    have "pi_batch i = bid" using that by (simp add: items)
    with that show ?thesis
      unfolding finish_by_unfinished by (auto simp: completion_accepted_iff[OF d] image_iff)
  qed
  then have "map (\<lambda>i. pi_outcome i = None) ?items'
      = map (\<lambda>i. pi_outcome i = None \<and> fence_of i \<notin> completion_fence ` set cs) items"
    by (simp add: unfinished_def)
  moreover have "list_all (\<lambda>i. pi_outcome i \<noteq> None) ?items' \<longleftrightarrow> \<not> (\<exists>i\<in>set items. unfinished (finish_by bid ?acc i))"
    by (auto simp: list_all_iff unfinished_def)
  ultimately show ?thesis using run st by (auto split: if_splits)
qed

lemma complete_result_read:
  assumes "complete bid owner cs now sha fp cb x s = Inr (Some (b', items'), s', x')"
  shows "readBatchSync bid s' = Some (b', items') \<and> pb_leaseOwner b' = owner"
proof -
  let ?t = "reclaimExpiredSync now s"
  from assms consider "readBatchSync bid ?t = Some (b', items')" "s' = ?t" "pb_leaseOwner b' = owner"
    | b items acc where "readBatchSync bid ?t = Some (b, items)" "pb_state b = BatchLeased" "pb_leaseOwner b = owner"
      "s' = commit_completions bid now sha fp acc ?t" "readBatchSync bid s' = Some (b', items')"
    by (auto simp: complete_def Let_def split: option.splits if_splits)
  then show ?thesis
  proof cases
    case 2
    then have "batch_row_of bid ?t = Some b" by (simp add: readBatch_Some)
    from commit_row[OF this 2(2), of now sha fp acc] 2 show ?thesis
      by (auto simp: readBatch_Some)
  qed simp
qed

text \<open>
  Acknowledging is idempotent: once a completion that covers every unfinished member was
  accepted, the batch is completed, and the delayed retry of the same call is answered with
  the same batch, at any later time and without running the callback or changing its state.
\<close>

theorem complete_retry_noop:
  assumes s: "s = run_ops batch_step empty_batch_store xs"
    and r: "readBatchSync bid s = Some (b, items)" "pb_state b = BatchLeased" "pb_leaseOwner b = owner"
      "now < pb_leaseExpiresAt b"
    and all: "completion_fence ` set cs = {fence_of i |i. i \<in> set items \<and> pi_outcome i = None}"
    and cb: "cb cs x = Some x'"
  shows "\<exists>b' items' s'. complete bid owner cs now sha fp cb x s = Inr (Some (b', items'), s', x')
    \<and> pb_state b' = BatchCompleted
    \<and> complete bid owner cs later sha fp cb2 y s' = Inr (Some (b', items'), reclaimExpiredSync later s', y)"
proof -
  have inv: "batch_inv s" by (rule batch_reachable[OF s])
  have "filter (\<lambda>c. completion_fence c \<in> {fence_of i |i. i \<in> set items \<and> pi_outcome i = None}) cs = cs"
    using all by (auto simp: filter_id_conv)
  with cb have cb': "cb (filter (\<lambda>c. completion_fence c \<in> {fence_of i |i. i \<in> set items \<and> pi_outcome i = None}) cs) x = Some x'"
    by simp
  from complete_exact[where cb = cb, OF s r cb'] obtain b' items' s'
    where run: "complete bid owner cs now sha fp cb x s = Inr (Some (b', items'), s', x')"
      and same: "map fence_of items' = map fence_of items"
      and out: "map (\<lambda>i. pi_outcome i = None) items'
        = map (\<lambda>i. pi_outcome i = None \<and> fence_of i \<notin> completion_fence ` set cs) items"
      and st: "pb_state b' = BatchCompleted \<longleftrightarrow> list_all (\<lambda>i. pi_outcome i \<noteq> None) items'"
    by blast
  have inv': "batch_inv s'" by (rule keeps_inv[OF keeps_complete[OF run] inv])
  have "True \<notin> set (map (\<lambda>i. pi_outcome i = None) items')" unfolding out using all by auto
  then have "list_all (\<lambda>i. pi_outcome i \<noteq> None) items'" by (auto simp: list_all_iff image_iff)
  with st have fin: "pb_state b' = BatchCompleted" by simp
  from complete_result_read[OF run] have read: "readBatchSync bid s' = Some (b', items')"
    and own: "pb_leaseOwner b' = owner" by auto
  have ro: "readBatchSync bid (reclaimExpiredSync later s') = Some (b', items')"
    using fin by (intro read_reclaim_live[OF inv' read]) (simp add: lease_expired_at_def)
  have d: "distinct (map pi_key items')"
    using read batch_items_distinct[OF inv', of bid] by (simp add: readBatch_Some)
  have "list_all (\<lambda>c. item_matches items' (bf_itemKey c) (bf_revision c) (bf_claimGeneration c)) cs"
    unfolding list_all_iff
  proof
    fix c assume "c \<in> set cs"
    then have "completion_fence c \<in> fence_of ` set items" using all by auto
    also have "fence_of ` set items = fence_of ` set items'" using same by (metis list.set_map)
    finally show "item_matches items' (bf_itemKey c) (bf_revision c) (bf_claimGeneration c)"
      by (auto simp: item_matches_iff[OF d] completion_fence_def)
  qed
  with ro own fin have "complete bid owner cs later sha fp cb2 y s' = Inr (Some (b', items'), reclaimExpiredSync later s', y)"
    by (simp add: complete_def Let_def)
  with run fin show ?thesis by blast
qed

lemma claim_single_store:
  assumes inv: "batch_inv s" and new: "ci_batchId i \<notin> pb_id ` set (bs_batches s)"
    and one: "ci_candidates i = [c]" "1 \<le> ci_maxItems i" "1 \<le> cd_revision c"
    and free: "\<forall>r\<in>set (bs_items s). unfinished r \<longrightarrow> pi_key r \<noteq> cd_itemKey c"
  shows "bs_items (claim_store i s) = bs_items s @ [new_item_row (ci_batchId i) c (drawn (cd_itemKey c) s)]"
proof -
  let ?s2 = "s\<lparr>bs_batches := bs_batches s @ [new_batch_row i]\<rparr>"
  have none: "\<forall>r\<in>set (bs_items s). pi_batch r \<noteq> ci_batchId i"
    using no_members[OF inv new] by (auto simp: members_def filter_empty_conv)
  have "countUnfinishedItemsSync (ci_batchId i) ?s2 = 0"
    using none by (simp add: countUnfinished_zero)
  moreover have "\<not> item_ignored (ci_batchId i) c s"
    using none free one(3) by (auto simp: item_ignored_def list_ex_iff unfinished_def)
  ultimately show ?thesis
    using one(1,2) by (simp add: claim_store_def claim_candidate_def nextClaimGeneration_drawn item_ignored_def drawn_def)
qed

text \<open>
  Recovery: when the lease of an item's batch has expired, a later claim of that item
  under a fresh batch id succeeds as soon as a lease slot is free, with a larger claim
  generation; the new fence is accepted and the fence of the lost lease is not.
\<close>

theorem expired_item_reclaimable:
  assumes s: "s = run_ops batch_step empty_batch_store xs"
    and old: "r \<in> set (bs_items s)" "b \<in> set (bs_batches s)" "pb_id b = pi_batch r" "pb_leaseExpiresAt b \<le> ci_now i"
      "pi_outcome r = None"
    and new: "ci_batchId i \<notin> pb_id ` set (bs_batches s)" "ci_candidates i = [c]" "cd_itemKey c = pi_key r"
      "1 \<le> cd_revision c" "1 \<le> ci_maxItems i" "ci_now i < ci_leaseExpiresAt i"
    and free: "activeBatches (reclaimExpiredSync (ci_now i) s) < max 1 (case ci_maxConcurrentBatches i of None \<Rightarrow> 1 | Some n \<Rightarrow> n)"
  shows "\<exists>b' r' s'. claim i s = Inr (Some (b', [r']), s') \<and> pi_key r' = pi_key r \<and> pi_generation r < pi_generation r'
    \<and> ownsActiveFenceIn \<lparr>bf_itemKey = pi_key r, bf_revision = cd_revision c, bf_claimGeneration = pi_generation r'\<rparr> s'
    \<and> \<not> ownsActiveFenceIn \<lparr>bf_itemKey = pi_key r, bf_revision = pi_revision r, bf_claimGeneration = pi_generation r\<rparr> s'"
proof -
  let ?t = "reclaimExpiredSync (ci_now i) s"
  let ?g = "drawn (pi_key r) ?t"
  let ?r' = "new_item_row (ci_batchId i) c ?g"
  have inv: "batch_inv s" by (rule batch_reachable[OF s])
  have invt: "batch_inv ?t" by (rule keeps_inv[OF keeps_reclaim inv])
  have lb: "pb_state b = BatchLeased"
    using batch_invD(8)[OF inv old(1,2) _ old(3)] old(5) by (simp add: unfinished_def)
  have g: "pi_generation r < ?g"
    using batch_invD(6)[OF inv old(1)] by (intro drawn_fresh) (simp add: reclaim_issued)
  have freekey: "\<forall>q\<in>set (bs_items ?t). unfinished q \<longrightarrow> pi_key q \<noteq> pi_key r"
  proof (intro ballI impI notI)
    fix q assume q: "q \<in> set (bs_items ?t)" "unfinished q" "pi_key q = pi_key r"
    let ?ids = "map pb_id (filter (lease_expired_at (ci_now i)) (bs_batches s))"
    obtain q0 where q0: "q0 \<in> set (bs_items s)" "q = (if pi_batch q0 \<in> set ?ids \<and> pi_outcome q0 = None
          then q0\<lparr>pi_outcome := Some LeaseExpired\<rparr> else q0)"
      using q(1) unfolding reclaimExpiredSync_def fold_expire_items set_map by blast
    with q(2) have u: "unfinished q0" "q = q0" by (auto simp: unfinished_def split: if_splits)
    have "q0 \<in> set (filter unfinished (bs_items s))" "r \<in> set (filter unfinished (bs_items s))"
      using q0 u old by (auto simp: unfinished_def)
    from distinct_map_unique[OF batch_invD(3)[OF inv] this] have "q0 = r" using u q(3) by simp
    moreover have "pi_batch r \<in> set ?ids"
      using old(2-4) lb by (auto simp: lease_expired_at_def image_iff intro!: bexI[of _ b])
    ultimately show False using q0(2) old(5) q(2) by (simp add: unfinished_def)
  qed
  have "batch_row_of (ci_batchId i) s = None" using new(1) by (simp add: batch_row_of_None)
  then have rown: "batch_row_of (ci_batchId i) ?t = None" using reclaim_row[OF inv, of "ci_batchId i" "ci_now i"] by simp
  then have newt: "ci_batchId i \<notin> pb_id ` set (bs_batches ?t)" by (simp add: batch_row_of_None)
  have items: "bs_items (claim_store i ?t) = bs_items ?t @ [?r']"
    using claim_single_store[OF invt newt new(2,5,4)] freekey new(3) by simp
  then have bi: "batch_items_of (ci_batchId i) (claim_store i ?t) = [?r']"
    using no_members[OF invt newt] by (simp add: batch_items_of_def members_def new_item_row_def)
  have "batch_row_of (ci_batchId i) (claim_store i ?t) = Some (new_batch_row i)"
    using find_append_None[of "\<lambda>b. pb_id b = ci_batchId i" "bs_batches ?t" "[new_batch_row i]"] rown
    by (simp add: batch_row_of_def claim_store_def) (simp add: new_batch_row_def)
  then have run: "claim i s = Inr (Some (new_batch_row i, [?r']), claim_store i ?t)"
    using rown free[unfolded not_le[symmetric]] new(5) bi unfolding claim_def Let_def claim_store_def[symmetric] by (simp add: readBatchSync_def)
  have inv': "batch_inv (claim_store i ?t)" by (rule keeps_inv[OF keeps_claim[OF run] inv])
  show ?thesis
    using run g freekey new(3)
    by (intro exI[of _ "new_batch_row i"] exI[of _ ?r'] exI[of _ "claim_store i ?t"])
      (auto simp: ownsActiveFenceIn_iff[OF inv'] has_open_def items new_item_row_def unfinished_def)
qed

text \<open>
  A restart changes nothing: on every reachable state the start-up repair of the schema
  finds no batch row and no generation to rewrite.
\<close>

theorem restart_repair_noop:
  "repairSync (run_ops batch_step empty_batch_store xs) = run_ops batch_step empty_batch_store xs"
  using batch_sizes.inv_reachable[of xs] by (simp add: repair_noop)


subsection \<open>Concrete runs\<close>

definition sample_claim :: "string \<Rightarrow> int \<Rightarrow> claim_input" where
  "sample_claim bid now =
     \<lparr>ci_batchId = bid, ci_leaseOwner = ''w'', ci_leaseExpiresAt = now + 100, ci_now = now, ci_maxItems = 2,
      ci_maxConcurrentBatches = None, ci_dispatch = None, ci_runner = None,
      ci_candidates = [\<lparr>cd_itemKey = ''k'', cd_revision = 3, cd_producerRunId = None,
        cd_producerRunAttempt = None, cd_enqueuedAt = None\<rparr>]\<rparr>"

definition sample_item :: item_row where
  "sample_item = \<lparr>pi_batch = ''b1'', pi_key = ''k'', pi_revision = 3, pi_generation = 1, pi_outcome = None,
     pi_producerRunId = None, pi_producerRunAttempt = None, pi_enqueuedAt = None\<rparr>"

definition sample_batches :: batch_store where
  "sample_batches = \<lparr>bs_batches = [new_batch_row (sample_claim ''b1'' 1000)], bs_items = [sample_item],
     bs_generations = [''k'' \<mapsto> 1]\<rparr>"

definition sample_fence :: batch_fence where
  "sample_fence = \<lparr>bf_itemKey = ''k'', bf_revision = 3, bf_claimGeneration = 1\<rparr>"

lemma sample_claim_run:
  "claim (sample_claim ''b1'' 1000) empty_batch_store
     = Inr (Some (new_batch_row (sample_claim ''b1'' 1000), [sample_item]), sample_batches)"
proof -
  have r: "reclaimExpiredSync 1000 empty_batch_store = empty_batch_store"
    by (simp add: reclaimExpiredSync_def empty_batch_store_def)
  show ?thesis
    by (simp add: claim_def Let_def sample_claim_def r)
       (simp add: readBatchSync_def batch_row_of_def batch_items_of_def activeBatches_def empty_batch_store_def
        countUnfinishedItemsSync_def claim_candidate_def nextClaimGenerationSync_def item_ignored_def new_item_row_def
        new_batch_row_def sample_batches_def sample_item_def sample_claim_def)
qed

lemma sample_batch_run: "sample_batches = run_ops batch_step empty_batch_store [BClaim (sample_claim ''b1'' 1000)]"
  by (simp add: sample_claim_run)

lemma sample_batch_read: "readBatchSync ''b1'' sample_batches = Some (new_batch_row (sample_claim ''b1'' 1000), [sample_item])"
  by (simp add: readBatchSync_def batch_row_of_def batch_items_of_def sample_batches_def new_batch_row_def
      sample_claim_def sample_item_def)

lemma sample_batch_fields:
  "pb_state (new_batch_row (sample_claim bid n)) = BatchLeased" "pb_leaseOwner (new_batch_row (sample_claim bid n)) = ''w''"
  "pb_leaseExpiresAt (new_batch_row (sample_claim bid n)) = n + 100" "pb_id (new_batch_row (sample_claim bid n)) = bid"
  by (simp_all add: new_batch_row_def sample_claim_def)

lemma sample_reclaim_live: "reclaimExpiredSync 1050 sample_batches = sample_batches"
  by (simp add: reclaimExpiredSync_def sample_batches_def lease_expired_at_def sample_batch_fields)

lemma sample_reclaim_late: "reclaimExpiredSync 2000 sample_batches =
    sample_batches\<lparr>bs_batches := [close_row BatchExpired 2000 (new_batch_row (sample_claim ''b1'' 1000))],
      bs_items := [sample_item\<lparr>pi_outcome := Some LeaseExpired\<rparr>]\<rparr>"
  by (simp add: reclaimExpiredSync_def sample_batches_def lease_expired_at_def sample_batch_fields expire_batch_def sample_item_def)

theorem stale_fence_never_revives_witness:
  "fst (ownsActiveFence sample_fence 1050 sample_batches)
   \<and> \<not> fst (ownsActiveFence sample_fence 1051
        (run_ops batch_step empty_batch_store ([BClaim (sample_claim ''b1'' 1000)] @ [] @ BOwns sample_fence 2000 # [BRestart])))"
proof -
  have a: "fst (ownsActiveFence sample_fence 1050 (run_ops batch_step empty_batch_store [BClaim (sample_claim ''b1'' 1000)]))"
    unfolding sample_batch_run[symmetric]
    by (simp add: ownsActiveFence_def Let_def sample_reclaim_live)
       (simp add: ownsActiveFenceIn_def sample_batches_def sample_item_def sample_fence_def sample_batch_fields)
  have b: "\<not> fst (ownsActiveFence sample_fence 2000 (run_ops batch_step empty_batch_store ([BClaim (sample_claim ''b1'' 1000)] @ [])))"
    unfolding append_Nil2 sample_batch_run[symmetric]
    by (simp add: ownsActiveFence_def Let_def sample_reclaim_late)
       (simp add: ownsActiveFenceIn_def sample_batches_def sample_item_def)
  show ?thesis
    by (rule conjI[OF a[folded sample_batch_run] stale_fence_never_revives[OF a b, of 1051 "[BRestart]"]])
qed

theorem claim_bounds_witness:
  "1 \<le> length [sample_item] \<and> int (length [sample_item]) \<le> 2"
proof -
  have e: "empty_batch_store = run_ops batch_step empty_batch_store []" by simp
  have n: "readBatchSync (ci_batchId (sample_claim ''b1'' 1000)) (reclaimExpiredSync (ci_now (sample_claim ''b1'' 1000)) empty_batch_store) = None"
    by (simp add: reclaimExpiredSync_def empty_batch_store_def readBatchSync_def batch_row_of_def)
  have "ci_maxItems (sample_claim ''b1'' 1000) = 2" by (simp add: sample_claim_def)
  with claim_bounds[OF e sample_claim_run n] show ?thesis by simp
qed

theorem claim_retry_same_batch_witness:
  "claim (sample_claim ''b1'' 1050) sample_batches =
     Inr (Some (new_batch_row (sample_claim ''b1'' 1000), [sample_item]), sample_batches)"
proof -
  have e: "empty_batch_store = run_ops batch_step empty_batch_store []" by simp
  have "ci_now (sample_claim ''b1'' 1050) < pb_leaseExpiresAt (new_batch_row (sample_claim ''b1'' 1000))"
    "ci_batchId (sample_claim ''b1'' 1050) = ci_batchId (sample_claim ''b1'' 1000)"
    "ci_leaseOwner (sample_claim ''b1'' 1050) = ci_leaseOwner (sample_claim ''b1'' 1000)"
    "ci_now (sample_claim ''b1'' 1050) = 1050"
    by (simp_all add: sample_batch_fields, simp_all add: sample_claim_def)
  with claim_retry_same_batch[OF e sample_claim_run] show ?thesis by (simp add: sample_reclaim_live)
qed

theorem heartbeat_never_shortens_witness:
  "\<exists>b' items' s'. heartbeatBatch ''b1'' ''w'' [sample_fence] 1080 1050 sample_batches = (Some (b', items'), s')
     \<and> pb_leaseExpiresAt b' = 1100"
proof -
  have "\<exists>b' items' s'. heartbeatBatch ''b1'' ''w'' [sample_fence] 1080 1050 sample_batches = (Some (b', items'), s')"
    by (simp add: heartbeatBatch_def Let_def sample_reclaim_live sample_batch_read sample_batch_fields item_matches_def sample_fence_def)
       (simp add: readBatchSync_def batch_row_of_def sample_batches_def sample_item_def sample_batch_fields)
  then obtain b' items' s' where h: "heartbeatBatch ''b1'' ''w'' [sample_fence] 1080 1050 sample_batches = (Some (b', items'), s')"
    by blast
  from heartbeat_never_shortens[OF sample_batch_run h] h show ?thesis
    by (auto simp: sample_batch_read sample_batch_fields)
qed

definition sample_completion :: completion where
  "sample_completion = \<lparr>bf_itemKey = ''k'', bf_revision = 3, bf_claimGeneration = 1, bc_terminalOutcome = Published\<rparr>"

lemma sample_fences: "completion_fence sample_completion = (''k'', 3, 1)" "fence_of sample_item = (''k'', 3, 1)"
  "pi_outcome sample_item = None"
  by (simp_all add: completion_fence_def sample_completion_def fence_of_def sample_item_def)

theorem complete_exact_witness:
  "\<exists>b' items' s'. complete ''b1'' ''w'' [sample_completion] 1050 None None (\<lambda>acc n. Some (n + length acc)) 0 sample_batches
      = Inr (Some (b', items'), s', 1) \<and> pb_state b' = BatchCompleted"
proof -
  let ?cb = "\<lambda>acc n. Some (n + length acc)"
  have e: "(1050::int) < pb_leaseExpiresAt (new_batch_row (sample_claim ''b1'' 1000))" by (simp add: sample_batch_fields)
  have cb: "?cb (filter (\<lambda>c. completion_fence c \<in> {fence_of i |i. i \<in> set [sample_item] \<and> pi_outcome i = None}) [sample_completion]) 0 = Some 1"
    by (simp add: sample_fences)
  from complete_exact[where cb = ?cb, OF sample_batch_run sample_batch_read sample_batch_fields(1,2) e cb, of None None]
  show ?thesis by (auto simp: sample_fences list_all_iff)
qed

theorem complete_retry_noop_witness:
  "\<exists>b' items' s'. complete ''b1'' ''w'' [sample_completion] 1050 None None (\<lambda>acc n. Some (n + length acc)) 0 sample_batches
      = Inr (Some (b', items'), s', 1)
   \<and> complete ''b1'' ''w'' [sample_completion] 9000 None None (\<lambda>_ _. None) 7 s' = Inr (Some (b', items'), reclaimExpiredSync 9000 s', (7::nat))"
proof -
  let ?cb = "\<lambda>acc n. Some (n + length acc)"
  have e: "(1050::int) < pb_leaseExpiresAt (new_batch_row (sample_claim ''b1'' 1000))" by (simp add: sample_batch_fields)
  have all: "completion_fence ` set [sample_completion] = {fence_of i |i. i \<in> set [sample_item] \<and> pi_outcome i = None}"
    by (simp add: sample_fences)
  have cb: "?cb [sample_completion] 0 = Some 1" by simp
  from complete_retry_noop[where cb = ?cb, OF sample_batch_run sample_batch_read sample_batch_fields(1,2) e all cb,
    of None None 9000 "\<lambda>_ _. None" 7]
  show ?thesis by blast
qed

theorem expired_item_reclaimable_witness:
  "\<exists>b' r' s'. claim (sample_claim ''b2'' 2000) sample_batches = Inr (Some (b', [r']), s') \<and> 1 < pi_generation r'"
proof -
  let ?i = "sample_claim ''b2'' 2000"
  have 1: "sample_item \<in> set (bs_items sample_batches)" "new_batch_row (sample_claim ''b1'' 1000) \<in> set (bs_batches sample_batches)"
    "pb_id (new_batch_row (sample_claim ''b1'' 1000)) = pi_batch sample_item"
    "pb_leaseExpiresAt (new_batch_row (sample_claim ''b1'' 1000)) \<le> ci_now ?i" "pi_outcome sample_item = None"
    by (simp_all add: sample_batches_def sample_item_def sample_batch_fields) (simp add: sample_claim_def)
  have 2: "ci_batchId ?i \<notin> pb_id ` set (bs_batches sample_batches)"
    "ci_candidates ?i = [hd (ci_candidates ?i)]" "cd_itemKey (hd (ci_candidates ?i)) = pi_key sample_item"
    "1 \<le> cd_revision (hd (ci_candidates ?i))" "1 \<le> ci_maxItems ?i" "ci_now ?i < ci_leaseExpiresAt ?i"
    by (simp_all add: sample_batches_def sample_batch_fields, simp_all add: sample_claim_def sample_item_def)
  have 3: "activeBatches (reclaimExpiredSync (ci_now ?i) sample_batches) < max 1 (case ci_maxConcurrentBatches ?i of None \<Rightarrow> 1 | Some n \<Rightarrow> n)"
  proof -
    have "ci_now ?i = 2000" "ci_maxConcurrentBatches ?i = None" by (simp_all add: sample_claim_def)
    then show ?thesis by (simp add: sample_reclaim_late activeBatches_def)
  qed
  have "pi_generation sample_item = 1" by (simp add: sample_item_def)
  with expired_item_reclaimable[OF sample_batch_run 1 2 3] show ?thesis by auto
qed

end
