(* ===== verification/Js_Text.thy ===== *)
theory Js_Text
  imports Prelude
begin

text \<open>
  The string operations of JavaScript that the program uses, on strings of 8-bit
  characters: \<open>toLowerCase\<close> and \<open>trim\<close> on ASCII, decimal numerals, and the character
  classes of the program's regular expressions. A string field is falsy when empty.
\<close>

definition to_lower_char :: "char \<Rightarrow> char" where
  "to_lower_char c =
     (let n = (of_char c :: nat) in if 65 \<le> n \<and> n \<le> 90 then char_of (n + 32) else c)"

definition to_lower :: "string \<Rightarrow> string" where
  "to_lower s = map to_lower_char s"

definition is_js_space :: "char \<Rightarrow> bool" where
  "is_js_space c \<longleftrightarrow> (let n = (of_char c :: nat) in (9 \<le> n \<and> n \<le> 13) \<or> n = 32 \<or> n = 160)"

definition js_trim :: "string \<Rightarrow> string" where
  "js_trim s = rev (dropWhile is_js_space (rev (dropWhile is_js_space s)))"

text \<open>The decimal numeral of a natural number, as in a template literal.\<close>

definition dec_digit :: "nat \<Rightarrow> char" where
  "dec_digit n = char_of (48 + n mod 10)"

fun nat_str :: "nat \<Rightarrow> string" where
  "nat_str n = (if n < 10 then [dec_digit n] else nat_str (n div 10) @ [dec_digit n])"

declare nat_str.simps [simp del]

definition int_str :: "int \<Rightarrow> string" where
  "int_str i = (if i < 0 then CHR ''-'' # nat_str (nat (- i)) else nat_str (nat i))"

definition dec_value :: "string \<Rightarrow> nat" where
  "dec_value s = foldl (\<lambda>a c. 10 * a + ((of_char c :: nat) - 48)) 0 s"

definition is_dec :: "char \<Rightarrow> bool" where
  "is_dec c \<longleftrightarrow> 48 \<le> (of_char c :: nat) \<and> (of_char c :: nat) \<le> 57"

lemma dec_digit_value: "(of_char (dec_digit n) :: nat) = 48 + n mod 10"
proof -
  have "48 + n mod 10 < 256" using mod_less_divisor[of 10 n] by linarith
  then show ?thesis by (simp add: dec_digit_def)
qed

lemma is_dec_digit [simp]: "is_dec (dec_digit n)"
proof -
  have "n mod 10 < 10" by simp
  then show ?thesis by (simp add: is_dec_def dec_digit_value)
qed

lemma dec_value_append: "dec_value (s @ [c]) = 10 * dec_value s + ((of_char c :: nat) - 48)"
  by (simp add: dec_value_def)

lemma dec_value_nat_str [simp]: "dec_value (nat_str n) = n"
proof (induction n rule: nat_str.induct)
  case (1 n)
  show ?case
  proof (cases "n < 10")
    case True
    then have "nat_str n = [] @ [dec_digit n]" by (simp add: nat_str.simps)
    then have "dec_value (nat_str n) = 10 * dec_value [] + ((of_char (dec_digit n) :: nat) - 48)"
      by (simp only: dec_value_append)
    with True show ?thesis by (simp add: dec_digit_value dec_value_def)
  next
    case False
    then have "nat_str n = nat_str (n div 10) @ [dec_digit n]" by (subst nat_str.simps) simp
    then have "dec_value (nat_str n) = 10 * dec_value (nat_str (n div 10)) + ((of_char (dec_digit n) :: nat) - 48)"
      by (simp only: dec_value_append)
    with 1[OF False] show ?thesis by (simp add: dec_digit_value)
  qed
qed

lemma nat_str_inj [simp]: "nat_str m = nat_str n \<longleftrightarrow> m = n"
  by (metis dec_value_nat_str)

lemma nat_str_digits: "list_all is_dec (nat_str n)"
proof (induction n rule: nat_str.induct)
  case (1 n)
  then show ?case by (subst nat_str.simps) simp
qed

subsection \<open>Character classes\<close>

definition is_lower_hex :: "char \<Rightarrow> bool" where
  "is_lower_hex c \<longleftrightarrow> is_dec c \<or> (97 \<le> (of_char c :: nat) \<and> (of_char c :: nat) \<le> 102)"

text \<open>\<open>/^[0-9a-f]{n}$/\<close>\<close>

definition hex_of_length :: "nat \<Rightarrow> string \<Rightarrow> bool" where
  "hex_of_length n s \<longleftrightarrow> length s = n \<and> list_all is_lower_hex s"

definition is_word_char :: "char \<Rightarrow> bool" where
  "is_word_char c \<longleftrightarrow> is_dec c \<or> (let n = (of_char c :: nat) in
     (65 \<le> n \<and> n \<le> 90) \<or> (97 \<le> n \<and> n \<le> 122) \<or> c = CHR ''_'' \<or> c = CHR ''.'' \<or> c = CHR ''-'')"

text \<open>A present, non-empty optional string is truthy.\<close>

definition truthy :: "string option \<Rightarrow> bool" where
  "truthy v \<longleftrightarrow> (case v of None \<Rightarrow> False | Some s \<Rightarrow> s \<noteq> [])"

lemma truthy_simps [simp]: "\<not> truthy None" "truthy (Some s) \<longleftrightarrow> s \<noteq> []"
  by (simp_all add: truthy_def)

text \<open>\<open>String(x || "")\<close>\<close>

definition str_or_empty :: "string option \<Rightarrow> string" where
  "str_or_empty v = (case v of None \<Rightarrow> [] | Some s \<Rightarrow> s)"

text \<open>A truthy number: present and not zero.\<close>

definition num_truthy :: "int option \<Rightarrow> bool" where
  "num_truthy v \<longleftrightarrow> (case v of None \<Rightarrow> False | Some n \<Rightarrow> n \<noteq> 0)"

lemma num_truthy_simps [simp]: "\<not> num_truthy None" "num_truthy (Some n) \<longleftrightarrow> n \<noteq> 0"
  by (simp_all add: num_truthy_def)

definition MAX_SAFE_INTEGER :: int where
  "MAX_SAFE_INTEGER = 9007199254740991"

definition safe_integer :: "int \<Rightarrow> bool" where
  "safe_integer n \<longleftrightarrow> \<bar>n\<bar> \<le> MAX_SAFE_INTEGER"

lemma to_lower_idem [simp]: "to_lower (to_lower s) = to_lower s"
proof -
  have "to_lower_char (to_lower_char c) = to_lower_char c" for c
  proof (cases "65 \<le> (of_char c :: nat) \<and> (of_char c :: nat) \<le> 90")
    case True
    then have "(of_char (char_of ((of_char c :: nat) + 32) :: char) :: nat) = of_char c + 32"
      by simp
    with True show ?thesis by (simp add: to_lower_char_def Let_def)
  qed (auto simp: to_lower_char_def Let_def)
  then show ?thesis by (simp add: to_lower_def)
qed

end
