(* ===== verification/Iso_Time.thy ===== *)
theory Iso_Time
  imports Prelude
begin

text \<open>
  Timestamps. The program keeps them as ISO 8601 strings and reads them with \<open>Date.parse\<close>;
  \<open>Date.prototype.toISOString\<close> writes them. Modelled are the two shapes that GitHub and
  \<open>toISOString\<close> produce, \<open>YYYY-MM-DDTHH:MM:SSZ\<close> and \<open>YYYY-MM-DDTHH:MM:SS.mmmZ\<close>, with the
  range checks and the day overflow of the ECMAScript parser; any other text is not a date
  (\<open>NaN\<close>, here \<open>None\<close>). An instant is the integer of milliseconds since 1970.
\<close>

subsection \<open>The proleptic Gregorian calendar\<close>

definition leap_year :: "int \<Rightarrow> bool" where
  "leap_year y \<longleftrightarrow> y mod 4 = 0 \<and> (y mod 100 \<noteq> 0 \<or> y mod 400 = 0)"

definition month_lengths :: "bool \<Rightarrow> int list" where
  "month_lengths leap = [31, if leap then 29 else 28, 31, 30, 31, 30, 31, 31, 30, 31, 30, 31]"

text \<open>Days from 0001-01-01 to the first day of year \<open>y\<close>.\<close>

definition days_before_year :: "int \<Rightarrow> int" where
  "days_before_year y = 365 * (y - 1) + (y - 1) div 4 - (y - 1) div 100 + (y - 1) div 400"

definition EPOCH_DAYS :: int where
  "EPOCH_DAYS = 719162"

definition days_from_civil :: "int \<Rightarrow> nat \<Rightarrow> int \<Rightarrow> int" where
  "days_from_civil y m d =
     days_before_year y + sum_list (take (m - 1) (month_lengths (leap_year y))) + (d - 1) - EPOCH_DAYS"

text \<open>The year that contains a day, by cycles of 400, 100, 4 and 1 years.\<close>

definition year_of_days :: "int \<Rightarrow> int" where
  "year_of_days n =
     (let q400 = n div 146097; r400 = n mod 146097;
          q100 = min 3 (r400 div 36524); r100 = r400 - q100 * 36524;
          q4 = r100 div 1461; r4 = r100 mod 1461;
          q1 = min 3 (r4 div 365)
      in 400 * q400 + 100 * q100 + 4 * q4 + q1 + 1)"

fun month_of_day :: "int list \<Rightarrow> int \<Rightarrow> nat \<times> int" where
  "month_of_day [] d = (0, d)"
| "month_of_day (l # ls) d =
     (if d < l then (0, d) else (case month_of_day ls (d - l) of (m, r) \<Rightarrow> (Suc m, r)))"

definition civil_from_days :: "int \<Rightarrow> int \<times> nat \<times> int" where
  "civil_from_days z =
     (let n = z + EPOCH_DAYS; y = year_of_days n
      in case month_of_day (month_lengths (leap_year y)) (n - days_before_year y) of
           (m, d) \<Rightarrow> (y, m + 1, d + 1))"

lemma mod_top:
  fixes s k q :: int
  assumes "1 \<le> s" "s \<le> k"
  shows "(k * q + s) mod k = 0 \<longleftrightarrow> s = k"
proof (cases "s = k")
  case False
  with assms have "(k * q + s) mod k = s" by simp
  with assms False show ?thesis by simp
qed simp

lemma div_pred:
  fixes y k :: int
  assumes "0 < k"
  shows "y div k = (y - 1) div k + (if y mod k = 0 then 1 else 0)"
proof -
  define q r where "q = (y - 1) div k" and "r = (y - 1) mod k"
  have y: "y = k * q + (r + 1)" by (simp add: q_def r_def)
  have r: "0 \<le> r" "r < k" using assms by (simp_all add: r_def)
  show ?thesis
  proof (cases "r + 1 = k")
    case True
    then have "y = k * (q + 1)" using y by (simp add: algebra_simps)
    then have "y div k = q + 1" "y mod k = 0" using assms by simp_all
    then show ?thesis by (simp add: q_def[symmetric])
  next
    case False
    have dv: "y div k = q" using y r False by (intro int_div_pos_eq[of y k q "r + 1"]) auto
    have "y mod k = (k * q + (r + 1)) mod k" by (rule arg_cong[OF y])
    moreover have "(k * q + (r + 1)) mod k = 0 \<longleftrightarrow> r + 1 = k" by (rule mod_top) (use r in auto)
    ultimately have "y mod k \<noteq> 0" using False by metis
    with dv show ?thesis by (simp add: q_def)
  qed
qed

lemma year_decompose:
  fixes a b c e :: int
  assumes "0 \<le> b" "b \<le> 3" "0 \<le> c" "c \<le> 24" "0 \<le> e" "e \<le> 3"
  shows "days_before_year (400 * a + 100 * b + 4 * c + e + 1) = 146097 * a + 36524 * b + 1461 * c + 365 * e"
proof -
  have "(400 * a + 100 * b + 4 * c + e) div 4 = 100 * a + 25 * b + c"
    using assms by (intro int_div_pos_eq[where r = e]) auto
  moreover have "(400 * a + 100 * b + 4 * c + e) div 100 = 4 * a + b"
    using assms by (intro int_div_pos_eq[where r = "4 * c + e"]) auto
  moreover have "(400 * a + 100 * b + 4 * c + e) div 400 = a"
    using assms by (intro int_div_pos_eq[where r = "100 * b + 4 * c + e"]) auto
  ultimately show ?thesis by (simp add: days_before_year_def)
qed

lemma leap_decompose:
  fixes a b c e :: int
  assumes "0 \<le> b" "b \<le> 3" "0 \<le> c" "c \<le> 24" "0 \<le> e" "e \<le> 3"
  shows "leap_year (400 * a + 100 * b + 4 * c + e + 1) \<longleftrightarrow> e = 3 \<and> (c = 24 \<longrightarrow> b = 3)"
proof -
  let ?y = "400 * a + 100 * b + 4 * c + e + 1"
  have "?y mod 4 = 0 \<longleftrightarrow> e = 3"
    using mod_top[of "e + 1" 4 "100 * a + 25 * b + c"] assms by (simp add: algebra_simps)
  moreover have "?y mod 100 = 0 \<longleftrightarrow> 4 * c + e + 1 = 100"
    using mod_top[of "4 * c + e + 1" 100 "4 * a + b"] assms by (simp add: algebra_simps)
  moreover have "4 * c + e + 1 = 100 \<longleftrightarrow> c = 24 \<and> e = 3" using assms by linarith
  moreover have "?y mod 400 = 0 \<longleftrightarrow> 100 * b + 4 * c + e + 1 = 400"
    using mod_top[of "100 * b + 4 * c + e + 1" 400 a] assms by (simp add: algebra_simps)
  moreover have "100 * b + 4 * c + e + 1 = 400 \<longleftrightarrow> b = 3 \<and> c = 24 \<and> e = 3" using assms by linarith
  ultimately show ?thesis by (auto simp: leap_year_def)
qed

definition year_length :: "int \<Rightarrow> int" where
  "year_length y = (if leap_year y then 366 else 365)"

lemma year_of_days_bounds:
  "days_before_year (year_of_days n) \<le> n \<and> n < days_before_year (year_of_days n) + year_length (year_of_days n)"
proof -
  define a where "a = n div 146097"
  define r where "r = n mod 146097"
  define b where "b = min 3 (r div 36524)"
  define r1 where "r1 = r - b * 36524"
  define c where "c = r1 div 1461"
  define r2 where "r2 = r1 mod 1461"
  define e where "e = min 3 (r2 div 365)"
  have n: "n = 146097 * a + r" by (simp add: a_def r_def)
  have r: "0 \<le> r" "r < 146097" by (simp_all add: r_def)
  have b: "0 \<le> b" "b \<le> 3" "0 \<le> r1" "r1 \<le> 36524" "r1 = 36524 \<longrightarrow> b = 3"
    using r by (auto simp: b_def r1_def min_def)
  have c: "0 \<le> c" "c \<le> 24" "r1 = 1461 * c + r2" "0 \<le> r2" "r2 < 1461"
    using b by (auto simp: c_def r2_def)
  have e: "0 \<le> e" "e \<le> 3" "365 * e \<le> r2" "r2 < 365 * e + 365 \<or> (e = 3 \<and> r2 = 1460)"
    using c by (auto simp: e_def min_def)
  have y: "year_of_days n = 400 * a + 100 * b + 4 * c + e + 1"
    by (simp add: year_of_days_def Let_def a_def r_def b_def r1_def c_def r2_def e_def)
  have d: "days_before_year (year_of_days n) = 146097 * a + 36524 * b + 1461 * c + 365 * e"
    unfolding y by (rule year_decompose[OF b(1,2) c(1,2) e(1,2)])
  have l: "leap_year (year_of_days n) \<longleftrightarrow> e = 3 \<and> (c = 24 \<longrightarrow> b = 3)"
    unfolding y by (rule leap_decompose[OF b(1,2) c(1,2) e(1,2)])
  have rest: "n = days_before_year (year_of_days n) + (r2 - 365 * e)"
    using d n c(3) by (simp add: r1_def)
  have "r2 - 365 * e < year_length (year_of_days n)"
  proof (cases "r2 < 365 * e + 365")
    case False
    with e have "e = 3" "r2 = 1460" by auto
    moreover have "c = 24 \<longrightarrow> b = 3" using b(4,5) c(3) \<open>r2 = 1460\<close> by presburger
    ultimately show ?thesis using l by (simp add: year_length_def)
  qed (simp add: year_length_def)
  with rest e(3) show ?thesis by linarith
qed

lemma month_of_day_bounds:
  assumes "month_of_day ls d = (m, r)" "0 \<le> d" "d < sum_list ls"
  shows "m < length ls \<and> 0 \<le> r \<and> r < ls ! m \<and> sum_list (take m ls) + r = d"
  using assms
proof (induction ls arbitrary: d m r)
  case (Cons l ls)
  show ?case
  proof (cases "d < l")
    case False
    obtain m' r' where mr: "month_of_day ls (d - l) = (m', r')" by force
    from Cons.IH[OF mr] Cons.prems False mr show ?thesis by auto
  qed (use Cons.prems in auto)
qed simp

lemma month_lengths_facts:
  "length (month_lengths b) = 12" "sum_list (month_lengths b) = (if b then 366 else 365)"
  "m < 12 \<Longrightarrow> month_lengths b ! m \<le> 31"
proof -
  have "\<forall>l\<in>set (month_lengths b). l \<le> 31" by (simp add: month_lengths_def)
  moreover have "length (month_lengths b) = 12" by (simp add: month_lengths_def)
  ultimately show "m < 12 \<Longrightarrow> month_lengths b ! m \<le> 31" by (metis nth_mem)
qed (simp_all add: month_lengths_def)

text \<open>The calendar conversion inverts exactly, on every day of the proleptic calendar.\<close>

lemma civil_roundtrip:
  assumes "civil_from_days z = (y, m, d)"
  shows "days_from_civil y m d = z \<and> 1 \<le> m \<and> m \<le> 12 \<and> 1 \<le> d \<and> d \<le> 31"
proof -
  let ?n = "z + EPOCH_DAYS"
  obtain m0 d0 where md: "month_of_day (month_lengths (leap_year (year_of_days ?n))) (?n - days_before_year (year_of_days ?n)) = (m0, d0)"
    by force
  with assms have eq: "y = year_of_days ?n" "m = m0 + 1" "d = d0 + 1"
    by (simp_all add: civil_from_days_def Let_def)
  from year_of_days_bounds[of ?n] have "0 \<le> ?n - days_before_year y" "?n - days_before_year y < sum_list (month_lengths (leap_year y))"
    by (simp_all add: eq month_lengths_facts year_length_def)
  from month_of_day_bounds[OF md[folded eq(1)] this] have
    m: "m0 < 12" "0 \<le> d0" "d0 < month_lengths (leap_year y) ! m0"
       "sum_list (take m0 (month_lengths (leap_year y))) + d0 = ?n - days_before_year y"
    by (simp_all add: month_lengths_facts)
  with month_lengths_facts(3)[OF m(1), of "leap_year y"] show ?thesis
    by (simp add: eq(2,3) days_from_civil_def)
qed

subsection \<open>Decimal fields\<close>

definition digit_char :: "nat \<Rightarrow> char" where
  "digit_char n = char_of (48 + n mod 10)"

fun digits :: "nat \<Rightarrow> nat \<Rightarrow> string" where
  "digits 0 n = []"
| "digits (Suc k) n = digits k (n div 10) @ [digit_char n]"

definition is_digit :: "char \<Rightarrow> bool" where
  "is_digit c \<longleftrightarrow> 48 \<le> (of_char c :: nat) \<and> (of_char c :: nat) \<le> 57"

definition digit_value :: "char \<Rightarrow> nat" where
  "digit_value c = (of_char c :: nat) - 48"

definition digits_value :: "string \<Rightarrow> nat" where
  "digits_value s = foldl (\<lambda>a c. 10 * a + digit_value c) 0 s"

definition parse_field :: "string \<Rightarrow> nat option" where
  "parse_field s = (if s \<noteq> [] \<and> list_all is_digit s then Some (digits_value s) else None)"

lemma digit_char_facts [simp]: "is_digit (digit_char n)" "digit_value (digit_char n) = n mod 10"
proof -
  have "n mod 10 < 10" by simp
  then have "(of_char (digit_char n) :: nat) = 48 + n mod 10" by (simp add: digit_char_def)
  then show "is_digit (digit_char n)" "digit_value (digit_char n) = n mod 10"
    using \<open>n mod 10 < 10\<close> by (simp_all add: is_digit_def digit_value_def)
qed

lemma length_digits [simp]: "length (digits k n) = k"
  by (induction k arbitrary: n) auto

lemma digits_all [simp]: "list_all is_digit (digits k n)"
  by (induction k arbitrary: n) auto

lemma digits_value_digits: "n < 10 ^ k \<Longrightarrow> digits_value (digits k n) = n"
proof (induction k arbitrary: n)
  case (Suc k)
  then have "n div 10 < 10 ^ k" by (simp add: less_mult_imp_div_less mult.commute)
  with Suc.IH show ?case by (simp add: digits_value_def)
qed (simp add: digits_value_def)

lemma parse_field_digits: "0 < k \<Longrightarrow> n < 10 ^ k \<Longrightarrow> parse_field (digits k n) = Some n"
proof -
  assume "0 < k" "n < 10 ^ k"
  then have "digits k n \<noteq> []" by (cases k) simp_all
  then show ?thesis using digits_value_digits[OF \<open>n < 10 ^ k\<close>] by (simp add: parse_field_def)
qed

subsection \<open>Date.parse and toISOString\<close>

definition MS_PER_DAY :: int where
  "MS_PER_DAY = 86400000"

text \<open>The fields of a timestamp and the range checks of the parser; hour 24 is midnight only.\<close>

definition make_time :: "nat \<Rightarrow> nat \<Rightarrow> nat \<Rightarrow> nat \<Rightarrow> nat \<Rightarrow> nat \<Rightarrow> nat \<Rightarrow> int option" where
  "make_time y m d h mi sc ms =
     (if 1 \<le> m \<and> m \<le> 12 \<and> 1 \<le> d \<and> d \<le> 31 \<and> mi \<le> 59 \<and> sc \<le> 59
         \<and> (h \<le> 23 \<or> h = 24 \<and> mi = 0 \<and> sc = 0 \<and> ms = 0)
      then Some (days_from_civil (int y) m (int d) * MS_PER_DAY + int h * 3600000 + int mi * 60000 + int sc * 1000 + int ms)
      else None)"

definition parse_time_fields :: "string \<Rightarrow> string \<Rightarrow> string \<Rightarrow> string \<Rightarrow> string \<Rightarrow> string \<Rightarrow> string \<Rightarrow> int option" where
  "parse_time_fields y m d h mi sc ms =
     (case (parse_field y, parse_field m, parse_field d, parse_field h, parse_field mi, parse_field sc, parse_field ms) of
        (Some y', Some m', Some d', Some h', Some mi', Some sc', Some ms') \<Rightarrow> make_time y' m' d' h' mi' sc' ms'
      | _ \<Rightarrow> None)"

definition date_parse :: "string \<Rightarrow> int option" where
  "date_parse t =
     (case t of
        [y1, y2, y3, y4, s1, m1, m2, s2, d1, d2, s3, h1, h2, s4, i1, i2, s5, c1, c2, z] \<Rightarrow>
          if s1 = CHR ''-'' \<and> s2 = CHR ''-'' \<and> s3 = CHR ''T'' \<and> s4 = CHR '':'' \<and> s5 = CHR '':'' \<and> z = CHR ''Z''
          then parse_time_fields [y1, y2, y3, y4] [m1, m2] [d1, d2] [h1, h2] [i1, i2] [c1, c2] ''0'' else None
      | [y1, y2, y3, y4, s1, m1, m2, s2, d1, d2, s3, h1, h2, s4, i1, i2, s5, c1, c2, s6, f1, f2, f3, z] \<Rightarrow>
          if s1 = CHR ''-'' \<and> s2 = CHR ''-'' \<and> s3 = CHR ''T'' \<and> s4 = CHR '':'' \<and> s5 = CHR '':'' \<and> s6 = CHR ''.'' \<and> z = CHR ''Z''
          then parse_time_fields [y1, y2, y3, y4] [m1, m2] [d1, d2] [h1, h2] [i1, i2] [c1, c2] [f1, f2, f3] else None
      | _ \<Rightarrow> None)"

text \<open>\<open>Date.parse(String(x || ""))\<close> of an optional field.\<close>

definition date_parse_opt :: "string option \<Rightarrow> int option" where
  "date_parse_opt v = (case v of None \<Rightarrow> None | Some t \<Rightarrow> date_parse t)"

definition iso_year :: "int \<Rightarrow> string" where
  "iso_year y = (if 0 \<le> y \<and> y \<le> 9999 then digits 4 (nat y)
                 else (if y < 0 then ''-'' else ''+'') @ digits 6 (nat \<bar>y\<bar>))"

text \<open>Instants beyond 100 million days throw a \<open>RangeError\<close>.\<close>

definition toISOString :: "int \<Rightarrow> string option" where
  "toISOString t =
     (if \<bar>t\<bar> > 8640000000000000 then None
      else let r = t mod MS_PER_DAY
           in case civil_from_days (t div MS_PER_DAY) of
                (y, m, d) \<Rightarrow>
                  Some (iso_year y @ ''-'' @ digits 2 m @ ''-'' @ digits 2 (nat d) @ ''T''
                    @ digits 2 (nat (r div 3600000)) @ '':'' @ digits 2 (nat (r div 60000 mod 60)) @ '':''
                    @ digits 2 (nat (r div 1000 mod 60)) @ ''.'' @ digits 3 (nat (r mod 1000)) @ ''Z''))"

lemma digits2: "digits 2 n = [digit_char (n div 10), digit_char n]"
  by (simp add: numeral_2_eq_2)

lemma digits3: "digits 3 n = [digit_char (n div 10 div 10), digit_char (n div 10), digit_char n]"
  by (simp add: numeral_3_eq_3)

lemma digits4: "digits 4 n = [digit_char (n div 10 div 10 div 10), digit_char (n div 10 div 10), digit_char (n div 10), digit_char n]"
proof -
  have "(4::nat) = Suc (Suc (Suc (Suc 0)))" by simp
  then show ?thesis by (simp only: digits.simps append.simps)
qed

lemma date_parse_millis:
  "date_parse [y1, y2, y3, y4, CHR ''-'', m1, m2, CHR ''-'', d1, d2, CHR ''T'', h1, h2, CHR '':'', i1, i2, CHR '':'', c1, c2,
      CHR ''.'', f1, f2, f3, CHR ''Z'']
   = parse_time_fields [y1, y2, y3, y4] [m1, m2] [d1, d2] [h1, h2] [i1, i2] [c1, c2] [f1, f2, f3]"
  by (simp add: date_parse_def)

lemma day_fields:
  fixes r :: int
  assumes "0 \<le> r" "r < 86400000"
  shows "r div 3600000 * 3600000 + r div 60000 mod 60 * 60000 + r div 1000 mod 60 * 1000 + r mod 1000 = r"
proof -
  have "r = r div 1000 * 1000 + r mod 1000" by simp
  moreover have "r div 1000 = r div 1000 div 60 * 60 + r div 1000 mod 60" by simp
  moreover have "r div 1000 div 60 = r div 60000" by (simp add: zdiv_zmult2_eq[symmetric])
  moreover have "r div 60000 = r div 60000 div 60 * 60 + r div 60000 mod 60" by simp
  moreover have "r div 60000 div 60 = r div 3600000" by (simp add: zdiv_zmult2_eq[symmetric])
  ultimately show ?thesis by linarith
qed

subsection \<open>The helpers of src/iso-time.ts\<close>

text \<open>\<open>parseIsoMs\<close>: the empty text is treated as absent.\<close>

definition parseIsoMs :: "string option \<Rightarrow> int option" where
  "parseIsoMs v = (case v of None \<Rightarrow> None | Some t \<Rightarrow> if t = [] then None else date_parse t)"

definition isOlderThanMs :: "string option \<Rightarrow> int \<Rightarrow> int \<Rightarrow> bool" where
  "isOlderThanMs timestamp milliseconds now =
     (if milliseconds \<le> 0 then True
      else case parseIsoMs timestamp of None \<Rightarrow> False | Some p \<Rightarrow> now - p > milliseconds)"

definition isOlderThanDays :: "string option \<Rightarrow> int \<Rightarrow> int \<Rightarrow> bool" where
  "isOlderThanDays timestamp days now = isOlderThanMs timestamp (days * MS_PER_DAY) now"

lemma parseIsoMs_date_parse_opt: "parseIsoMs v = date_parse_opt v"
  by (auto simp: parseIsoMs_def date_parse_opt_def date_parse_def split: option.splits)

lemma iso_parse:
  assumes y: "0 \<le> fst (civil_from_days (t div MS_PER_DAY))" "fst (civil_from_days (t div MS_PER_DAY)) \<le> 9999"
    and range: "\<bar>t\<bar> \<le> 8640000000000000"
  shows "date_parse_opt (toISOString t) = Some t"
proof -
  obtain yy m d where c: "civil_from_days (t div MS_PER_DAY) = (yy, m, d)" by (metis prod_cases3)
  note cr = civil_roundtrip[OF c]
  let ?r = "t mod MS_PER_DAY"
  have r: "0 \<le> ?r" "?r < 86400000" by (simp_all add: MS_PER_DAY_def)
  define h i sc f where "h = nat (?r div 3600000)" and "i = nat (?r div 60000 mod 60)"
    and "sc = nat (?r div 1000 mod 60)" and "f = nat (?r mod 1000)"
  have b: "h \<le> 23" "i \<le> 59" "sc \<le> 59" "f < 1000"
    using r by (simp_all add: h_def i_def sc_def f_def nat_le_iff nat_less_iff)
  have "int h = ?r div 3600000" "int i = ?r div 60000 mod 60" "int sc = ?r div 1000 mod 60" "int f = ?r mod 1000"
    using r by (simp_all add: h_def i_def sc_def f_def)
  with day_fields[OF r] have sum: "int h * 3600000 + int i * 60000 + int sc * 1000 + int f = ?r"
    by (simp only:)
  have yy: "0 \<le> yy" "yy \<le> 9999" using y c by auto
  have iso: "toISOString t = Some (digits 4 (nat yy) @ ''-'' @ digits 2 m @ ''-'' @ digits 2 (nat d) @ ''T''
        @ digits 2 h @ '':'' @ digits 2 i @ '':'' @ digits 2 sc @ ''.'' @ digits 3 f @ ''Z'')"
    using range c yy by (simp add: toISOString_def Let_def iso_year_def h_def i_def sc_def f_def)
  have "date_parse (the (toISOString t)) =
      parse_time_fields (digits 4 (nat yy)) (digits 2 m) (digits 2 (nat d)) (digits 2 h) (digits 2 i) (digits 2 sc) (digits 3 f)"
    unfolding iso digits2 digits3 digits4 option.sel append.simps by (rule date_parse_millis)
  also have "\<dots> = make_time (nat yy) m (nat d) h i sc f"
  proof -
    have "parse_field (digits 4 (nat yy)) = Some (nat yy)" "parse_field (digits 2 m) = Some m"
      "parse_field (digits 2 (nat d)) = Some (nat d)" "parse_field (digits 2 h) = Some h"
      "parse_field (digits 2 i) = Some i" "parse_field (digits 2 sc) = Some sc" "parse_field (digits 3 f) = Some f"
      using cr yy b by - (rule parse_field_digits; simp add: nat_less_iff)+
    then show ?thesis by (simp only: parse_time_fields_def option.case prod.case)
  qed
  also have "\<dots> = Some (days_from_civil yy m d * MS_PER_DAY + int h * 3600000 + int i * 60000 + int sc * 1000 + int f)"
  proof -
    have "1 \<le> nat d" "nat d \<le> 31" "int (nat d) = d" "int (nat yy) = yy" using cr yy by (simp_all add: nat_le_iff, linarith)
    with cr b show ?thesis unfolding make_time_def by simp
  qed
  also have "\<dots> = Some t"
  proof -
    have "t = t div MS_PER_DAY * MS_PER_DAY + ?r" by simp
    moreover have dd: "days_from_civil yy m d = t div MS_PER_DAY" using cr by blast
    ultimately show ?thesis using sum unfolding dd by (simp only: option.inject)
  qed
  finally show ?thesis using iso by (simp add: date_parse_opt_def)
qed

text \<open>
  A timestamp survives being written and read back: for every instant of the years 0 to
  9999, \<open>parseIsoMs\<close> of what \<open>toISOString\<close> wrote is the instant, to the millisecond.
\<close>

theorem parseIsoMs_roundtrip:
  assumes "0 \<le> fst (civil_from_days (t div MS_PER_DAY))" "fst (civil_from_days (t div MS_PER_DAY)) \<le> 9999"
    and "\<bar>t\<bar> \<le> 8640000000000000"
  shows "parseIsoMs (toISOString t) = Some t"
  using iso_parse[OF assms] by (simp add: parseIsoMs_date_parse_opt)

text \<open>The last millisecond of 2024-02-29, written and read back.\<close>

theorem parseIsoMs_roundtrip_witness:
  "parseIsoMs (toISOString 1709251199999) = Some 1709251199999"
proof -
  have "civil_from_days (1709251199999 div MS_PER_DAY) = (2024, 2, 29)"
    by code_simp
  then have "0 \<le> fst (civil_from_days (1709251199999 div MS_PER_DAY))"
    "fst (civil_from_days (1709251199999 div MS_PER_DAY)) \<le> 9999" by simp_all
  then show ?thesis by (rule parseIsoMs_roundtrip) simp
qed

end
