(* ===== verification/Scheduler.thy ===== *)
theory Scheduler
  imports Js_Text Iso_Time
begin

text \<open>
  The review scheduler of \<open>src/scheduler-policy.ts\<close>: when an item is due, its bucket and
  priority, the comparators, the weighted selection of a batch and the floor backfill. The
  clock \<open>now\<close> is an argument everywhere; timestamps are text, read by \<open>date_parse\<close>.
\<close>

subsection \<open>State\<close>

datatype item_kind = Issue | PullRequest

record sched_item =
  si_repo :: string
  si_number :: nat
  si_kind :: item_kind
  si_createdAt :: string
  si_updatedAt :: string
  si_labels :: "string list option"

record sched_review =
  sr_reviewedAt :: "string option"
  sr_itemUpdatedAt :: "string option"
  sr_reviewStatus :: "string option"
  sr_reviewPolicy :: "string option"
  sr_decision :: "string option"
  sr_contentDigest :: "string option"
  sr_lastFullReviewAt :: "string option"
  sr_lastFullReviewDecision :: "string option"

datatype bucket = HotIssue | HotPullRequest | Activity | DailyPullRequest | RecentIssue | WeeklyIssue

record due_candidate =
  dc_item :: sched_item
  dc_review :: "sched_review option"
  dc_priority :: int
  dc_reviewedAt :: int
  dc_nextDueAt :: int
  dc_bucket :: bucket
  dc_coverageTracked :: "bool option"

definition HOT_REVIEW_DAYS :: int where "HOT_REVIEW_DAYS = 7"
definition RECENT_ISSUE_DAYS :: int where "RECENT_ISSUE_DAYS = 30"
definition HOURLY_REVIEW_MS :: int where "HOURLY_REVIEW_MS = 60 * 60 * 1000"
definition DAILY_REVIEW_DAYS :: int where "DAILY_REVIEW_DAYS = 1"
definition WEEKLY_REVIEW_DAYS :: int where "WEEKLY_REVIEW_DAYS = 7"
definition WEEKLY_COVERAGE_REVIEW_DAYS :: int where "WEEKLY_COVERAGE_REVIEW_DAYS = 6"
definition DAY_MS :: int where "DAY_MS = 24 * 60 * 60 * 1000"
definition REVIEW_CACHE_MAX_AGE_DAYS :: int where "REVIEW_CACHE_MAX_AGE_DAYS = 14"
definition ISSUE_TARGET_DRIFT_REUSE_MS :: int where "ISSUE_TARGET_DRIFT_REUSE_MS = DAILY_REVIEW_DAYS * DAY_MS"

lemmas sched_consts = HOT_REVIEW_DAYS_def RECENT_ISSUE_DAYS_def HOURLY_REVIEW_MS_def DAILY_REVIEW_DAYS_def
  WEEKLY_REVIEW_DAYS_def WEEKLY_COVERAGE_REVIEW_DAYS_def DAY_MS_def

definition BULK_FILED_LABEL :: string where "BULK_FILED_LABEL = ''clawsweeper:bulk-filed''"

subsection \<open>When an item is due\<close>

definition isBulkFiled :: "sched_item \<Rightarrow> bool" where
  "isBulkFiled i =
     (case si_labels i of None \<Rightarrow> False | Some ls \<Rightarrow> list_ex (\<lambda>l. to_lower l = BULK_FILED_LABEL) ls)"

definition bulkFiledComparison :: "due_candidate \<Rightarrow> due_candidate \<Rightarrow> int" where
  "bulkFiledComparison l r = of_bool (isBulkFiled (dc_item l)) - of_bool (isBulkFiled (dc_item r))"

definition schedulerItemKey :: "string \<Rightarrow> nat \<Rightarrow> string" where
  "schedulerItemKey repo n = repo @ ''#'' @ nat_str n"

definition reviewedAtMs :: "sched_review option \<Rightarrow> int option" where
  "reviewedAtMs v =
     (case v of None \<Rightarrow> None
      | Some r \<Rightarrow> if sr_reviewStatus r \<noteq> Some ''complete'' then None
                 else if \<not> truthy (sr_reviewedAt r) then None
                 else date_parse_opt (sr_reviewedAt r))"

text \<open>\<open>Math.floor(reviewedAt / 1000) * 1000\<close>\<close>

definition floor_second :: "int \<Rightarrow> int" where
  "floor_second t = t div 1000 * 1000"

definition hasActivitySinceReview :: "sched_item \<Rightarrow> sched_review option \<Rightarrow> bool" where
  "hasActivitySinceReview i v =
     (case v of None \<Rightarrow> False
      | Some r \<Rightarrow>
          (case (date_parse (si_updatedAt i), reviewedAtMs v) of
             (Some u, Some reviewed) \<Rightarrow>
               if truthy (sr_itemUpdatedAt r) \<and> Some (si_updatedAt i) = sr_itemUpdatedAt r
               then u = floor_second reviewed
               else u \<ge> floor_second reviewed
           | _ \<Rightarrow> False))"

definition isCreatedWithinDays :: "sched_item \<Rightarrow> int \<Rightarrow> int \<Rightarrow> bool" where
  "isCreatedWithinDays i days now =
     (case date_parse (si_createdAt i) of None \<Rightarrow> False | Some c \<Rightarrow> now - c < days * DAY_MS)"

definition reviewCadenceMs :: "sched_item \<Rightarrow> sched_review option \<Rightarrow> int \<Rightarrow> int" where
  "reviewCadenceMs i v now =
     (if hasActivitySinceReview i v then HOURLY_REVIEW_MS
      else if isCreatedWithinDays i HOT_REVIEW_DAYS now then DAILY_REVIEW_DAYS * DAY_MS
      else if si_kind i = PullRequest then DAILY_REVIEW_DAYS * DAY_MS
      else if isCreatedWithinDays i RECENT_ISSUE_DAYS now then DAILY_REVIEW_DAYS * DAY_MS
      else WEEKLY_REVIEW_DAYS * DAY_MS)"

definition hasReviewPolicyMismatch :: "sched_review option \<Rightarrow> string option \<Rightarrow> bool" where
  "hasReviewPolicyMismatch v policy =
     (case v of None \<Rightarrow> False | Some r \<Rightarrow> truthy policy \<and> sr_reviewPolicy r \<noteq> policy)"

definition shouldReviewItem :: "sched_item \<Rightarrow> sched_review option \<Rightarrow> int \<Rightarrow> string option \<Rightarrow> bool" where
  "shouldReviewItem i v now policy =
     (if hasReviewPolicyMismatch v policy then True
      else case reviewedAtMs v of None \<Rightarrow> True
        | Some reviewed \<Rightarrow> now - reviewed \<ge> min (reviewCadenceMs i v now) (WEEKLY_COVERAGE_REVIEW_DAYS * DAY_MS))"

text \<open>
  \<open>new Date(reviewedAt - 1000).toISOString()\<close> throws beyond the range of dates; a parsed
  instant is inside it, so the branch that has no text is never taken there.
\<close>

definition dueOnlyForActivitySinceReview :: "sched_item \<Rightarrow> sched_review option \<Rightarrow> int \<Rightarrow> string option \<Rightarrow> bool option" where
  "dueOnlyForActivitySinceReview i v now policy =
     (case v of None \<Rightarrow> Some False
      | Some r \<Rightarrow>
          if \<not> hasActivitySinceReview i v then Some False
          else if \<not> shouldReviewItem i v now policy then Some False
          else case reviewedAtMs v of None \<Rightarrow> Some False
            | Some reviewed \<Rightarrow>
                (case toISOString (reviewed - 1000) of None \<Rightarrow> None
                 | Some t \<Rightarrow> Some (\<not> shouldReviewItem (i\<lparr>si_updatedAt := t\<rparr>) (Some (r\<lparr>sr_itemUpdatedAt := None\<rparr>)) now policy)))"

record cache_options =
  co_review :: "sched_review option"
  co_reviewPolicy :: "string option"
  co_contentDigest :: string
  co_targetDriftContentDigest :: "string option"
  co_now :: int
  co_explicitDispatch :: bool
  co_maintainerRequest :: bool

definition reviewContentCacheHit :: "cache_options \<Rightarrow> bool" where
  "reviewContentCacheHit opt =
     (if co_explicitDispatch opt \<or> co_maintainerRequest opt then False
      else case co_review opt of None \<Rightarrow> False
      | Some r \<Rightarrow>
          if sr_reviewStatus r \<noteq> Some ''complete'' then False
          else if sr_decision r \<noteq> Some ''keep_open'' then False
          else if sr_lastFullReviewDecision r \<noteq> Some ''keep_open'' then False
          else if hasReviewPolicyMismatch (Some r) (co_reviewPolicy opt) then False
          else if \<not> truthy (sr_contentDigest r) then False
          else case parseIsoMs (sr_lastFullReviewAt r) of None \<Rightarrow> False
            | Some full \<Rightarrow>
                if sr_contentDigest r = Some (co_contentDigest opt)
                then co_now opt - full < REVIEW_CACHE_MAX_AGE_DAYS * DAY_MS
                else sr_contentDigest r = co_targetDriftContentDigest opt
                     \<and> co_now opt - full < ISSUE_TARGET_DRIFT_REUSE_MS)"

definition reviewPriority :: "sched_item \<Rightarrow> sched_review option \<Rightarrow> int \<Rightarrow> string option \<Rightarrow> int" where
  "reviewPriority i v now policy =
     (if isCreatedWithinDays i HOT_REVIEW_DAYS now \<and> si_kind i = Issue then 0
      else if isCreatedWithinDays i HOT_REVIEW_DAYS now then 1
      else if hasActivitySinceReview i v then 2
      else if si_kind i = PullRequest then 3
      else if isCreatedWithinDays i RECENT_ISSUE_DAYS now then 4
      else if hasReviewPolicyMismatch v policy then 5
      else 6)"

definition schedulerBucket :: "sched_item \<Rightarrow> sched_review option \<Rightarrow> int \<Rightarrow> bucket" where
  "schedulerBucket i v now =
     (if isCreatedWithinDays i HOT_REVIEW_DAYS now
      then (if si_kind i = Issue then HotIssue else HotPullRequest)
      else if hasActivitySinceReview i v then Activity
      else if si_kind i = PullRequest then DailyPullRequest
      else if isCreatedWithinDays i RECENT_ISSUE_DAYS now then RecentIssue
      else WeeklyIssue)"

definition nextReviewDueAtMs :: "sched_item \<Rightarrow> sched_review option \<Rightarrow> int \<Rightarrow> string option \<Rightarrow> int" where
  "nextReviewDueAtMs i v now policy =
     (if hasReviewPolicyMismatch v policy then 0
      else case reviewedAtMs v of None \<Rightarrow> 0
        | Some reviewed \<Rightarrow> reviewed + min (reviewCadenceMs i v now) (WEEKLY_COVERAGE_REVIEW_DAYS * DAY_MS))"

subsection \<open>The comparators\<close>

definition compareDueCandidates :: "due_candidate \<Rightarrow> due_candidate \<Rightarrow> int" where
  "compareDueCandidates l r =
     cmp_or (dc_priority l - dc_priority r) (cmp_or (bulkFiledComparison l r)
       (cmp_or (dc_nextDueAt l - dc_nextDueAt r) (cmp_or (dc_reviewedAt l - dc_reviewedAt r)
         (int (si_number (dc_item l)) - int (si_number (dc_item r))))))"

definition compareBackfillCandidates :: "due_candidate \<Rightarrow> due_candidate \<Rightarrow> int" where
  "compareBackfillCandidates l r =
     cmp_or (bulkFiledComparison l r) (cmp_or (dc_nextDueAt l - dc_nextDueAt r)
       (cmp_or (dc_reviewedAt l - dc_reviewedAt r) (cmp_or (dc_priority l - dc_priority r)
         (int (si_number (dc_item l)) - int (si_number (dc_item r))))))"

definition hotIntakeRecencyMs :: "sched_item \<Rightarrow> int" where
  "hotIntakeRecencyMs i = max (num_or_zero (date_parse (si_updatedAt i))) (num_or_zero (date_parse (si_createdAt i)))"

definition compareHotIntakeDueCandidates :: "due_candidate \<Rightarrow> due_candidate \<Rightarrow> int" where
  "compareHotIntakeDueCandidates l r =
     cmp_or (dc_priority l - dc_priority r) (cmp_or (bulkFiledComparison l r)
       (cmp_or (hotIntakeRecencyMs (dc_item r) - hotIntakeRecencyMs (dc_item l))
         (int (si_number (dc_item r)) - int (si_number (dc_item l)))))"

definition weeklyCoverageReferenceMs :: "due_candidate \<Rightarrow> int" where
  "weeklyCoverageReferenceMs c =
     (if dc_reviewedAt c > 0 then dc_reviewedAt c else num_or_zero (date_parse (si_createdAt (dc_item c))))"

definition isCoverageUntracked :: "due_candidate \<Rightarrow> bool" where
  "isCoverageUntracked c \<longleftrightarrow>
     dc_coverageTracked c = Some False \<or> (dc_coverageTracked c = None \<and> dc_review c = None)"

definition coverageCompare :: "(due_candidate \<Rightarrow> due_candidate \<Rightarrow> int) \<Rightarrow> due_candidate \<Rightarrow> due_candidate \<Rightarrow> int" where
  "coverageCompare cmp l r =
     cmp_or (bulkFiledComparison l r)
       (cmp_or (weeklyCoverageReferenceMs l - weeklyCoverageReferenceMs r) (cmp l r))"

subsection \<open>Selecting a batch\<close>

definition SCHEDULER_BUCKET_WEIGHTS :: "(bucket \<times> nat) list" where
  "SCHEDULER_BUCKET_WEIGHTS =
     [(HotIssue, 4), (HotPullRequest, 2), (Activity, 2), (DailyPullRequest, 3), (RecentIssue, 2), (WeeklyIssue, 1)]"

text \<open>The two closures' shared state: the selected candidates and their keys.\<close>

record selection =
  sel_list :: "due_candidate list"
  sel_keys :: "string set"

definition empty_selection :: selection where
  "empty_selection = \<lparr>sel_list = [], sel_keys = {}\<rparr>"

definition candidateKey :: "due_candidate \<Rightarrow> string" where
  "candidateKey c = schedulerItemKey (si_repo (dc_item c)) (si_number (dc_item c))"

definition take_candidate :: "nat \<Rightarrow> due_candidate \<Rightarrow> selection \<Rightarrow> selection" where
  "take_candidate capacity c st =
     (if length (sel_list st) \<ge> capacity then st
      else if candidateKey c \<in> sel_keys st then st
      else \<lparr>sel_list = sel_list st @ [c], sel_keys = insert (candidateKey c) (sel_keys st)\<rparr>)"

type_synonym bucket_map = "bucket \<Rightarrow> due_candidate list"

text \<open>The inner \<open>for\<close>: up to \<open>weight\<close> candidates of one bucket, counted when shifted.\<close>

fun drain_bucket :: "nat \<Rightarrow> nat \<Rightarrow> due_candidate list \<Rightarrow> selection \<Rightarrow> nat \<Rightarrow> due_candidate list \<times> selection \<times> nat" where
  "drain_bucket capacity 0 cs st drained = (cs, st, drained)"
| "drain_bucket capacity (Suc w) [] st drained = ([], st, drained)"
| "drain_bucket capacity (Suc w) (c # cs) st drained =
     (if length (sel_list st) < capacity
      then drain_bucket capacity w cs (take_candidate capacity c st) (drained + 1)
      else (c # cs, st, drained))"

text \<open>One pass over the weights, and the passes until nothing is drained.\<close>

fun weighted_pass :: "nat \<Rightarrow> (bucket \<times> nat) list \<Rightarrow> bucket_map \<Rightarrow> selection \<Rightarrow> nat \<Rightarrow> bucket_map \<times> selection \<times> nat" where
  "weighted_pass capacity [] bs st drained = (bs, st, drained)"
| "weighted_pass capacity ((b, w) # ws) bs st drained =
     (case drain_bucket capacity w (bs b) st drained of
        (cs, st', drained') \<Rightarrow> weighted_pass capacity ws (bs(b := cs)) st' drained')"

definition queued_total :: "bucket_map \<Rightarrow> nat" where
  "queued_total bs = sum_list (map (\<lambda>(b, w). length (bs b)) SCHEDULER_BUCKET_WEIGHTS)"

lemma drain_bucket_total:
  "drain_bucket capacity w cs st d = (cs', st', d') \<Longrightarrow> length cs' + d' = length cs + d"
  by (induction capacity w cs st d rule: drain_bucket.induct) (auto split: if_splits)

lemma drain_bucket_drained: "drain_bucket capacity w cs st d = (cs', st', d') \<Longrightarrow> d \<le> d'"
  by (induction capacity w cs st d rule: drain_bucket.induct) (auto split: if_splits)

lemma weighted_pass_total:
  "weighted_pass capacity ws bs st d = (bs', st', d') \<Longrightarrow> distinct (map fst ws) \<Longrightarrow>
     sum_list (map (\<lambda>(b, w). length (bs' b)) ws) + d' = sum_list (map (\<lambda>(b, w). length (bs b)) ws) + d
     \<and> (\<forall>b. b \<notin> fst ` set ws \<longrightarrow> bs' b = bs b)"
proof (induction capacity ws bs st d arbitrary: bs' rule: weighted_pass.induct)
  case (2 capacity b w ws bs st d)
  obtain cs st1 d1 where dr: "drain_bucket capacity w (bs b) st d = (cs, st1, d1)" by (metis prod_cases3)
  have run: "weighted_pass capacity ws (bs(b := cs)) st1 d1 = (bs', st', d')"
    using "2.prems"(1) dr by (simp del: fun_upd_apply)
  have dist: "b \<notin> fst ` set ws" "distinct (map fst ws)" using "2.prems"(2) by auto
  from "2.IH"[OF dr[symmetric] refl run dist(2)]
  have IH: "sum_list (map (\<lambda>(b, w). length (bs' b)) ws) + d' = sum_list (map (\<lambda>(b', w). length ((bs(b := cs)) b')) ws) + d1"
    "\<forall>b'. b' \<notin> fst ` set ws \<longrightarrow> bs' b' = (bs(b := cs)) b'" by blast+
  have "map (\<lambda>(b', w). length ((bs(b := cs)) b')) ws = map (\<lambda>(b', w). length (bs b')) ws"
    using dist(1) by (force simp: image_iff)
  with IH(1) have "sum_list (map (\<lambda>(b, w). length (bs' b)) ws) + d' = sum_list (map (\<lambda>(b', w). length (bs b')) ws) + d1"
    by (simp only:)
  moreover have "bs' b = cs" using IH(2) dist(1) by simp
  moreover have "\<forall>b'. b' \<notin> fst ` set ((b, w) # ws) \<longrightarrow> bs' b' = bs b'" using IH(2) by simp
  ultimately show ?case using drain_bucket_total[OF dr] by simp
qed simp

lemma bucket_weights_distinct: "distinct (map fst SCHEDULER_BUCKET_WEIGHTS)"
  by (simp add: SCHEDULER_BUCKET_WEIGHTS_def)

function weighted_loop :: "nat \<Rightarrow> bucket_map \<Rightarrow> selection \<Rightarrow> selection" where
  "weighted_loop capacity bs st =
     (if length (sel_list st) < capacity
      then (case weighted_pass capacity SCHEDULER_BUCKET_WEIGHTS bs st 0 of
              (bs', st', drained) \<Rightarrow> if drained = 0 then st' else weighted_loop capacity bs' st')
      else st)"
  by pat_completeness auto
termination
  by (relation "measure (\<lambda>(capacity, bs, st). queued_total bs)")
    (auto simp: queued_total_def dest!: weighted_pass_total[OF sym bucket_weights_distinct])

declare weighted_loop.simps [simp del]

text \<open>Every candidate goes to its bucket, and each bucket is sorted.\<close>

definition bucketed :: "(due_candidate \<Rightarrow> due_candidate \<Rightarrow> int) \<Rightarrow> due_candidate list \<Rightarrow> bucket_map" where
  "bucketed cmp cs = (\<lambda>b. js_sort cmp (filter (\<lambda>c. dc_bucket c = b) cs))"

definition takeWeighted :: "nat \<Rightarrow> (due_candidate \<Rightarrow> due_candidate \<Rightarrow> int) \<Rightarrow> due_candidate list \<Rightarrow> selection \<Rightarrow> selection" where
  "takeWeighted capacity cmp cs st = weighted_loop capacity (bucketed cmp cs) st"

definition coverage_overdue :: "int \<Rightarrow> due_candidate \<Rightarrow> bool" where
  "coverage_overdue now c \<longleftrightarrow> weeklyCoverageReferenceMs c + WEEKLY_COVERAGE_REVIEW_DAYS * DAY_MS \<le> now"

definition unselected :: "selection \<Rightarrow> due_candidate list \<Rightarrow> due_candidate list" where
  "unselected st cs = filter (\<lambda>c. candidateKey c \<notin> sel_keys st) cs"

definition selectDueCandidates ::
  "due_candidate list \<Rightarrow> int \<Rightarrow> (due_candidate \<Rightarrow> due_candidate \<Rightarrow> int) \<Rightarrow> int \<Rightarrow> due_candidate list" where
  "selectDueCandidates due limit cmp now =
     (let capacity = nat (max 0 limit)
      in if capacity = 0 then []
         else
           let buckets = bucketed cmp due;
               coverageUntracked = filter isCoverageUntracked due;
               untrackedCoverageDue = js_sort (coverageCompare cmp) (filter (coverage_overdue now) coverageUntracked);
               st1 = fold (take_candidate capacity) untrackedCoverageDue empty_selection;
               st2 = takeWeighted capacity cmp (unselected st1 coverageUntracked) st1;
               weeklyCoverageDue = js_sort (coverageCompare cmp)
                 (filter (\<lambda>c. \<not> isCoverageUntracked c \<and> coverage_overdue now c) due);
               st3 = fold (take_candidate capacity) weeklyCoverageDue st2;
               st4 = weighted_loop capacity (\<lambda>b. unselected st3 (buckets b)) st3
           in sel_list st4)"

subsection \<open>The floor backfill\<close>

fun backfill_loop :: "nat \<Rightarrow> due_candidate list \<Rightarrow> selection \<Rightarrow> selection" where
  "backfill_loop target [] st = st"
| "backfill_loop target (c # cs) st =
     (if length (sel_list st) \<ge> target then st
      else if candidateKey c \<in> sel_keys st then backfill_loop target cs st
      else backfill_loop target cs
             \<lparr>sel_list = sel_list st @ [c], sel_keys = insert (candidateKey c) (sel_keys st)\<rparr>)"

definition appendFloorBackfillCandidates ::
  "due_candidate list \<Rightarrow> due_candidate list \<Rightarrow> int \<Rightarrow> int \<Rightarrow> due_candidate list" where
  "appendFloorBackfillCandidates selected backfill activeFloor capacity =
     (let target = nat (min (max 0 activeFloor) (max 0 capacity))
      in if length selected \<ge> target then selected
         else sel_list (backfill_loop target (js_sort compareBackfillCandidates backfill)
                \<lparr>sel_list = selected, sel_keys = candidateKey ` set selected\<rparr>))"


subsection \<open>The comparators are total preorders\<close>

text \<open>Comparing a key by subtraction, then falling through to the next comparator.\<close>

lemma js_comparator_or:
  assumes "js_comparator c"
  shows "js_comparator (\<lambda>x y. cmp_or (k x - k y) (c x y))"
proof -
  show ?thesis
  proof (unfold_locales, goal_cases)
    case (1 x y)
    show ?case
      using js_comparator.cmp_total[OF assms, of x y]
      by (cases rule: linorder_cases[of "k x" "k y"]) (simp_all add: cmp_or_le_iff)
  next
    case (2 x y z)
    then consider "k x < k z" | "k x = k y" "k y = k z" "c x y \<le> 0" "c y z \<le> 0"
      unfolding cmp_or_le_iff by linarith
    then show ?case
      using js_comparator.cmp_trans[OF assms, of x y z] by cases (simp_all add: cmp_or_le_iff)
  qed
qed

lemma js_comparator_diff: "js_comparator (\<lambda>x y. k x - k y)"
  by unfold_locales auto

lemma js_comparator_bulk: "js_comparator c \<Longrightarrow> js_comparator (\<lambda>x y. cmp_or (bulkFiledComparison x y) (c x y))"
  unfolding bulkFiledComparison_def by (rule js_comparator_or)

lemma js_comparator_due: "js_comparator compareDueCandidates"
  unfolding compareDueCandidates_def
  by (intro js_comparator_or js_comparator_bulk js_comparator_diff)

lemma js_comparator_coverage: "js_comparator c \<Longrightarrow> js_comparator (coverageCompare c)"
  unfolding coverageCompare_def by (intro js_comparator_bulk js_comparator_or)

interpretation due_order: js_comparator compareDueCandidates
  by (rule js_comparator_due)

interpretation backfill_order: js_comparator compareBackfillCandidates
  unfolding compareBackfillCandidates_def
  by (intro js_comparator_or js_comparator_bulk js_comparator_diff)

interpretation hot_order: js_comparator compareHotIntakeDueCandidates
proof -
  have "compareHotIntakeDueCandidates = (\<lambda>l r. cmp_or (dc_priority l - dc_priority r) (cmp_or (bulkFiledComparison l r)
      (cmp_or ((- hotIntakeRecencyMs (dc_item l)) - (- hotIntakeRecencyMs (dc_item r)))
        ((- int (si_number (dc_item l))) - (- int (si_number (dc_item r)))))))"
    by (simp add: fun_eq_iff compareHotIntakeDueCandidates_def)
  moreover have "js_comparator \<dots>"
    by (intro js_comparator_or js_comparator_bulk js_comparator_diff)
  ultimately show "js_comparator compareHotIntakeDueCandidates" by simp
qed

interpretation coverage_order: js_comparator "coverageCompare compareDueCandidates"
  by (rule js_comparator_coverage[OF js_comparator_due])

subsection \<open>What a selection keeps\<close>

text \<open>
  The keys are those of the selected candidates, no key is selected twice, the capacity
  holds, and only offered candidates are selected.
\<close>

definition sel_ok :: "nat \<Rightarrow> due_candidate set \<Rightarrow> selection \<Rightarrow> bool" where
  "sel_ok capacity D st \<longleftrightarrow>
     sel_keys st = candidateKey ` set (sel_list st) \<and> distinct (map candidateKey (sel_list st))
     \<and> length (sel_list st) \<le> capacity \<and> set (sel_list st) \<subseteq> D"

text \<open>\<open>grows capacity D X st st'\<close>: from \<open>st\<close>, candidates were appended until those of \<open>X\<close> are all selected or the capacity is reached.\<close>

definition grows :: "nat \<Rightarrow> due_candidate set \<Rightarrow> due_candidate set \<Rightarrow> selection \<Rightarrow> selection \<Rightarrow> bool" where
  "grows capacity D X st st' \<longleftrightarrow>
     (sel_ok capacity D st \<longrightarrow> sel_ok capacity D st')
     \<and> (\<exists>ys. sel_list st' = sel_list st @ ys) \<and> sel_keys st \<subseteq> sel_keys st'
     \<and> (length (sel_list st') < capacity \<longrightarrow> candidateKey ` X \<subseteq> sel_keys st')
     \<and> (capacity \<le> length (sel_list st) \<longrightarrow> st' = st)"

lemma grows_refl: "grows capacity D {} st st"
  by (simp add: grows_def)

lemma grows_trans: "grows capacity D X st s1 \<Longrightarrow> grows capacity D Y s1 s2 \<Longrightarrow> grows capacity D (X \<union> Y) st s2"
proof -
  assume a: "grows capacity D X st s1" "grows capacity D Y s1 s2"
  from a obtain ys zs where l: "sel_list s1 = sel_list st @ ys" "sel_list s2 = sel_list s1 @ zs" by (auto simp: grows_def)
  have "candidateKey ` (X \<union> Y) \<subseteq> sel_keys s2" if "length (sel_list s2) < capacity"
  proof -
    from that l have "length (sel_list s1) < capacity" by simp
    with a that show ?thesis unfolding grows_def by blast
  qed
  moreover have "s2 = st" if "capacity \<le> length (sel_list st)" using a that by (auto simp: grows_def)
  ultimately show ?thesis using a l unfolding grows_def by (metis append_assoc subset_trans)
qed

lemma grows_mono: "grows capacity D X st s1 \<Longrightarrow> candidateKey ` Y \<subseteq> candidateKey ` X \<Longrightarrow> grows capacity D Y st s1"
  unfolding grows_def by blast

lemma grows_take: "c \<in> D \<Longrightarrow> grows capacity D {c} st (take_candidate capacity c st)"
  by (auto simp: grows_def take_candidate_def sel_ok_def)

lemma grows_fold: "set xs \<subseteq> D \<Longrightarrow> grows capacity D (set xs) st (fold (take_candidate capacity) xs st)"
proof (induction xs arbitrary: st)
  case (Cons x xs)
  have "grows capacity D {x} st (take_candidate capacity x st)" using Cons.prems by (intro grows_take) simp
  moreover have "grows capacity D (set xs) (take_candidate capacity x st) (fold (take_candidate capacity) xs (take_candidate capacity x st))"
    by (rule Cons.IH) (use Cons.prems in simp)
  ultimately have "grows capacity D ({x} \<union> set xs) st (fold (take_candidate capacity) (x # xs) st)"
    unfolding fold_Cons o_def by (rule grows_trans)
  then show ?case by simp
qed (simp add: grows_refl)

text \<open>A bucket loses only candidates that are selected or whose key already is.\<close>

lemma drain_bucket_grows:
  assumes "drain_bucket capacity w cs st d = (cs', st', d')" "set cs \<subseteq> D"
  shows "set cs' \<subseteq> set cs \<and> grows capacity D (set cs - set cs') st st'
    \<and> (d' = d \<longrightarrow> 0 < w \<longrightarrow> length (sel_list st') < capacity \<longrightarrow> cs = [])"
  using assms
proof (induction capacity w cs st d rule: drain_bucket.induct)
  case (3 capacity w c cs st drained)
  show ?case
  proof (cases "length (sel_list st) < capacity")
    case True
    let ?st1 = "take_candidate capacity c st"
    have run: "drain_bucket capacity w cs ?st1 (drained + 1) = (cs', st', d')" using "3.prems"(1) True by simp
    from "3.IH"[OF True run] "3.prems"(2) have IH: "set cs' \<subseteq> set cs" "grows capacity D (set cs - set cs') ?st1 st'"
      by auto
    have "grows capacity D {c} st ?st1" using "3.prems"(2) by (intro grows_take) simp
    from grows_trans[OF this IH(2)] have "grows capacity D (set (c # cs) - set cs') st st'"
      by (rule grows_mono) auto
    moreover have "drained < d'" using drain_bucket_drained[OF run] by simp
    ultimately show ?thesis using IH(1) by auto
  qed (use "3.prems" in \<open>auto simp: grows_refl\<close>)
qed (auto simp: grows_refl)


definition all_queued :: "bucket_map \<Rightarrow> (bucket \<times> nat) list \<Rightarrow> due_candidate set" where
  "all_queued bs ws = (\<Union>b\<in>fst ` set ws. set (bs b))"

lemma all_queued_upd: "b \<notin> fst ` set ws \<Longrightarrow> all_queued (bs(b := cs)) ws = all_queued bs ws"
  unfolding all_queued_def by (rule SUP_cong) auto

lemma weighted_pass_grows:
  assumes "weighted_pass capacity ws bs st d = (bs', st', d')" "distinct (map fst ws)" "all_queued bs ws \<subseteq> D"
  shows "all_queued bs' ws \<subseteq> all_queued bs ws \<and> grows capacity D (all_queued bs ws - all_queued bs' ws) st st'
    \<and> d \<le> d' \<and> (d' = d \<longrightarrow> (\<forall>p\<in>set ws. 0 < snd p) \<longrightarrow> length (sel_list st') < capacity \<longrightarrow> all_queued bs ws = {})"
  using assms
proof (induction capacity ws bs st d arbitrary: bs' rule: weighted_pass.induct)
  case (1 capacity bs st d)
  then show ?case by (simp add: all_queued_def grows_refl)
next
  case (2 capacity b w ws bs st d)
  obtain cs st1 d1 where dr: "drain_bucket capacity w (bs b) st d = (cs, st1, d1)" by (metis prod_cases3)
  have run: "weighted_pass capacity ws (bs(b := cs)) st1 d1 = (bs', st', d')"
    using "2.prems"(1) dr by (simp del: fun_upd_apply)
  have dist: "b \<notin> fst ` set ws" "distinct (map fst ws)" using "2.prems"(2) by auto
  have bsb: "bs' b = cs" using weighted_pass_total[OF run dist(2)] dist(1) by simp
  have q: "all_queued bs ((b, w) # ws) = set (bs b) \<union> all_queued bs ws"
    "all_queued bs' ((b, w) # ws) = set cs \<union> all_queued bs' ws"
    by (simp_all add: all_queued_def bsb)
  have D: "set (bs b) \<subseteq> D" "all_queued (bs(b := cs)) ws \<subseteq> D"
    using "2.prems"(3) by (simp_all add: q all_queued_upd[OF dist(1)])
  note drg = drain_bucket_grows[OF dr D(1)]
  note IH = "2.IH"[OF dr[symmetric] refl run dist(2) D(2), unfolded all_queued_upd[OF dist(1)]]
  have len: "length (sel_list st') < capacity \<Longrightarrow> length (sel_list st1) < capacity"
    using IH by (auto simp: grows_def)
  have "grows capacity D ((set (bs b) - set cs) \<union> (all_queued bs ws - all_queued bs' ws)) st st'"
    using drg IH by (blast intro: grows_trans)
  then have "grows capacity D (all_queued bs ((b, w) # ws) - all_queued bs' ((b, w) # ws)) st st'"
    by (rule grows_mono) (auto simp: q)
  moreover have "d \<le> d1" by (rule drain_bucket_drained[OF dr])
  moreover have "all_queued bs ((b, w) # ws) = {}"
    if "d' = d" "\<forall>p\<in>set ((b, w) # ws). 0 < snd p" "length (sel_list st') < capacity"
  proof -
    have "d1 = d" "d' = d1" using that(1) \<open>d \<le> d1\<close> IH by linarith+
    then show ?thesis using drg IH len that(2,3) by (simp add: q)
  qed
  moreover have "set cs \<union> all_queued bs' ws \<subseteq> set (bs b) \<union> all_queued bs ws" "d1 \<le> d'"
    using drg IH by blast+
  ultimately show ?case unfolding q by (intro conjI impI) (simp_all only: order_trans)
qed

lemma bucket_weights_all: "fst ` set SCHEDULER_BUCKET_WEIGHTS = UNIV" "\<forall>p\<in>set SCHEDULER_BUCKET_WEIGHTS. 0 < snd p"
proof -
  have "b \<in> fst ` set SCHEDULER_BUCKET_WEIGHTS" for b by (cases b) (simp_all add: SCHEDULER_BUCKET_WEIGHTS_def)
  then show "fst ` set SCHEDULER_BUCKET_WEIGHTS = UNIV" by blast
qed (simp add: SCHEDULER_BUCKET_WEIGHTS_def)

lemma all_queued_UN: "all_queued bs SCHEDULER_BUCKET_WEIGHTS = (\<Union>b. set (bs b))"
  by (simp add: all_queued_def bucket_weights_all)

lemma weighted_loop_grows:
  "(\<Union>b. set (bs b)) \<subseteq> D \<Longrightarrow> grows capacity D (\<Union>b. set (bs b)) st (weighted_loop capacity bs st)"
proof (induction capacity bs st rule: weighted_loop.induct)
  case (1 capacity bs st)
  show ?case
  proof (cases "length (sel_list st) < capacity")
    case True
    obtain bs' st' d where run: "weighted_pass capacity SCHEDULER_BUCKET_WEIGHTS bs st 0 = (bs', st', d)" by (metis prod_cases3)
    note wp = weighted_pass_grows[OF run bucket_weights_distinct, of D, unfolded all_queued_UN, OF "1.prems"]
    show ?thesis
    proof (cases "d = 0")
      case d: True
      have "weighted_loop capacity bs st = st'" using True run d by (subst weighted_loop.simps) simp
      moreover have "grows capacity D (\<Union>b. set (bs b)) st st'"
        using wp d bucket_weights_all(2) unfolding grows_def by (metis (no_types, lifting) empty_subsetI image_empty)
      ultimately show ?thesis by simp
    next
      case d: False
      have "weighted_loop capacity bs st = weighted_loop capacity bs' st'"
        using True run d by (subst weighted_loop.simps) simp
      moreover have "grows capacity D (\<Union>b. set (bs' b)) st' (weighted_loop capacity bs' st')"
        using "1.IH"[OF True run[symmetric] refl d] wp "1.prems" by blast
      then have "grows capacity D (((\<Union>b. set (bs b)) - (\<Union>b. set (bs' b))) \<union> (\<Union>b. set (bs' b))) st (weighted_loop capacity bs' st')"
        using wp by (blast intro: grows_trans)
      then have "grows capacity D (\<Union>b. set (bs b)) st (weighted_loop capacity bs' st')"
        by (rule grows_mono) auto
      ultimately show ?thesis by simp
    qed
  next
    case False
    then have "weighted_loop capacity bs st = st" by (subst weighted_loop.simps) simp
    with False show ?thesis by (simp add: grows_def)
  qed
qed

lemma bucketed_UN: "(\<Union>b. set (bucketed cmp cs b)) = set cs"
  by (auto simp: bucketed_def)

lemma takeWeighted_grows: "set cs \<subseteq> D \<Longrightarrow> grows capacity D (set cs) st (takeWeighted capacity cmp cs st)"
  using weighted_loop_grows[of "bucketed cmp cs" D capacity st] by (simp add: bucketed_UN takeWeighted_def)

text \<open>The stages of \<open>selectDueCandidates\<close>, with the states between them.\<close>

lemma select_stages:
  assumes cap: "0 < limit"
  obtains st1 st2 st3 st4 where
    "st1 = fold (take_candidate (nat limit)) (js_sort (coverageCompare cmp) (filter (coverage_overdue now) (filter isCoverageUntracked due))) empty_selection"
    "grows (nat limit) (set due) {} st1 st2" "grows (nat limit) (set due) {} st2 st3" "grows (nat limit) (set due) (set due) st3 st4"
    "selectDueCandidates due limit cmp now = sel_list st4"
proof -
  let ?cap = "nat limit"
  let ?u = "filter isCoverageUntracked due"
  let ?st1 = "fold (take_candidate ?cap) (js_sort (coverageCompare cmp) (filter (coverage_overdue now) ?u)) empty_selection"
  let ?st2 = "takeWeighted ?cap cmp (unselected ?st1 ?u) ?st1"
  let ?w = "js_sort (coverageCompare cmp) (filter (\<lambda>c. \<not> isCoverageUntracked c \<and> coverage_overdue now c) due)"
  let ?st3 = "fold (take_candidate ?cap) ?w ?st2"
  let ?bs = "\<lambda>b. unselected ?st3 (bucketed cmp due b)"
  let ?st4 = "weighted_loop ?cap ?bs ?st3"
  have g2: "grows ?cap (set due) {} ?st1 ?st2"
    by (rule grows_mono[OF takeWeighted_grows]) (auto simp: unselected_def)
  have g3: "grows ?cap (set due) {} ?st2 ?st3"
    by (rule grows_mono[OF grows_fold]) auto
  have un: "(\<Union>b. set (?bs b)) = {c \<in> set due. candidateKey c \<notin> sel_keys ?st3}"
    unfolding unselected_def bucketed_def by auto
  have sub: "(\<Union>b. set (?bs b)) \<subseteq> set due"
    unfolding unselected_def bucketed_def by auto
  have g: "grows ?cap (set due) (\<Union>b. set (?bs b)) ?st3 ?st4"
    by (rule weighted_loop_grows[OF sub])
  have "candidateKey ` set due \<subseteq> sel_keys ?st4" if "length (sel_list ?st4) < ?cap"
  proof -
    have "candidateKey ` (\<Union>b. set (?bs b)) \<subseteq> sel_keys ?st4" "sel_keys ?st3 \<subseteq> sel_keys ?st4"
      using g that by (simp_all only: grows_def)
    then show ?thesis unfolding un by blast
  qed
  with g have g4: "grows ?cap (set due) (set due) ?st3 ?st4"
    unfolding grows_def by blast
  have "selectDueCandidates due limit cmp now = sel_list ?st4"
    using cap by (simp add: selectDueCandidates_def Let_def)
  from that[OF refl g2 g3 g4 this] show thesis .
qed

lemma sel_ok_empty: "sel_ok capacity D empty_selection"
  by (simp add: sel_ok_def empty_selection_def)

lemma fold_sel_ok: "set xs \<subseteq> D \<Longrightarrow> sel_ok capacity D (fold (take_candidate capacity) xs empty_selection)"
  using grows_fold[of xs D capacity empty_selection] sel_ok_empty by (simp add: grows_def)

text \<open>What the stages leave: distinct due candidates within the limit, all keys if there is room.\<close>

lemma select_ok:
  assumes "0 < limit"
  shows "distinct (map candidateKey (selectDueCandidates due limit cmp now))
    \<and> set (selectDueCandidates due limit cmp now) \<subseteq> set due
    \<and> length (selectDueCandidates due limit cmp now) \<le> nat limit
    \<and> (length (selectDueCandidates due limit cmp now) < nat limit \<longrightarrow>
         candidateKey ` set due \<subseteq> candidateKey ` set (selectDueCandidates due limit cmp now))"
  using assms
proof (rule select_stages[of limit cmp now due])
  fix st1 st2 st3 st4
  let ?cap = "nat limit"
  assume st1: "st1 = fold (take_candidate ?cap) (js_sort (coverageCompare cmp) (filter (coverage_overdue now) (filter isCoverageUntracked due))) empty_selection"
    and g: "grows ?cap (set due) {} st1 st2" "grows ?cap (set due) {} st2 st3" "grows ?cap (set due) (set due) st3 st4"
    and sel: "selectDueCandidates due limit cmp now = sel_list st4"
  have "sel_ok ?cap (set due) st1" unfolding st1 by (rule fold_sel_ok) auto
  then have "sel_ok ?cap (set due) st4" using g by (auto simp: grows_def)
  with g(3) sel show ?thesis by (simp add: sel_ok_def grows_def)
qed

text \<open>
  C33. The batch is exactly as large as it can be: it has distinct items, all of them due, and
  its size is the smaller of the limit and the number of distinct due items. A duplicate in
  the due list, which the selection drops silently, never strands the items behind it.
\<close>

theorem select_exact_count:
  "length (selectDueCandidates due limit cmp now) = min (nat limit) (card (candidateKey ` set due))
   \<and> distinct (map candidateKey (selectDueCandidates due limit cmp now))
   \<and> set (selectDueCandidates due limit cmp now) \<subseteq> set due"
proof (cases "0 < limit")
  case True
  let ?sel = "selectDueCandidates due limit cmp now"
  note ok = select_ok[OF True, of due cmp now]
  have card: "card (candidateKey ` set ?sel) = length ?sel"
    using distinct_card[of "map candidateKey ?sel"] ok by simp
  have "length ?sel \<le> card (candidateKey ` set due)"
    using card_mono[of "candidateKey ` set due" "candidateKey ` set ?sel"] ok card by auto
  moreover have "card (candidateKey ` set due) \<le> length ?sel" if "length ?sel < nat limit"
    using card_mono[of "candidateKey ` set ?sel" "candidateKey ` set due"] ok that card by auto
  ultimately have "length ?sel = min (nat limit) (card (candidateKey ` set due))"
    using ok by (cases "length ?sel < nat limit") (simp_all add: min_def)
  with ok show ?thesis by simp
qed (simp add: selectDueCandidates_def)


lemma fold_take_leftover:
  assumes "sorted_wrt R xs" "c \<in> set xs" "candidateKey c \<notin> sel_keys (fold (take_candidate capacity) xs st)"
    "\<And>x. x \<in> set (sel_list st) \<Longrightarrow> R x c"
  shows "capacity \<le> length (sel_list (fold (take_candidate capacity) xs st))
    \<and> (\<forall>x\<in>set (sel_list (fold (take_candidate capacity) xs st)). R x c)"
  using assms
proof (induction xs arbitrary: st)
  case (Cons y ys)
  let ?st1 = "take_candidate capacity y st"
  have keys: "sel_keys ?st1 \<subseteq> sel_keys (fold (take_candidate capacity) ys ?st1)"
    using grows_fold[of ys UNIV capacity ?st1] by (simp add: grows_def)
  show ?case
  proof (cases "candidateKey c = candidateKey y \<and> \<not> c \<in> set ys")
    case True
    with Cons.prems(2) have "c = y" by auto
    with Cons.prems(3) keys have "candidateKey y \<notin> sel_keys ?st1" by auto
    then have full: "capacity \<le> length (sel_list st)"
      by (auto simp: take_candidate_def split: if_splits)
    then have "fold (take_candidate capacity) (y # ys) st = st"
      using grows_fold[of "y # ys" UNIV capacity st] by (simp add: grows_def)
    with full Cons.prems(4) show ?thesis by simp
  next
    case False
    with Cons.prems(2) have c: "c \<in> set ys" by auto
    have "R x c" if "x \<in> set (sel_list ?st1)" for x
      using that Cons.prems(1,4) c by (auto simp: take_candidate_def split: if_splits)
    with Cons.IH[of ?st1] Cons.prems c show ?thesis by simp
  qed
qed simp

text \<open>
  Coverage comes first: when an overdue item without canonical coverage is left out of
  the batch, the batch is full and consists only of overdue uncovered items, none of which
  the coverage order puts after the one left out (bulk-filed last, then longest unreviewed).
\<close>

theorem overdue_untracked_first:
  assumes c: "c \<in> set due" "isCoverageUntracked c" "coverage_overdue now c"
    and out: "candidateKey c \<notin> candidateKey ` set (selectDueCandidates due limit compareDueCandidates now)"
    and lim: "0 < limit"
  shows "length (selectDueCandidates due limit compareDueCandidates now) = nat limit
    \<and> list_all (\<lambda>x. isCoverageUntracked x \<and> coverage_overdue now x
          \<and> coverageCompare compareDueCandidates x c \<le> 0)
        (selectDueCandidates due limit compareDueCandidates now)"
  using lim
proof (rule select_stages[of limit compareDueCandidates now due])
  fix st1 st2 st3 st4
  let ?cap = "nat limit"
  let ?xs = "js_sort (coverageCompare compareDueCandidates) (filter (coverage_overdue now) (filter isCoverageUntracked due))"
  assume st1: "st1 = fold (take_candidate ?cap) ?xs empty_selection"
    and g: "grows ?cap (set due) {} st1 st2" "grows ?cap (set due) {} st2 st3" "grows ?cap (set due) (set due) st3 st4"
    and sel: "selectDueCandidates due limit compareDueCandidates now = sel_list st4"
  have ok1: "sel_ok ?cap (set ?xs) st1" unfolding st1 by (rule fold_sel_ok) simp
  have "sel_ok ?cap (set due) st1" unfolding st1 by (rule fold_sel_ok) auto
  then have ok4: "sel_ok ?cap (set due) st4" using g by (auto simp: grows_def)
  have "sel_keys st1 \<subseteq> sel_keys st4" using g by (auto simp: grows_def)
  with out sel ok4 have "candidateKey c \<notin> sel_keys st1" by (auto simp: sel_ok_def)
  then have left: "?cap \<le> length (sel_list st1)" "\<forall>x\<in>set (sel_list st1). coverageCompare compareDueCandidates x c \<le> 0"
    using fold_take_leftover[OF coverage_order.sorted_js_sort, of c "filter (coverage_overdue now) (filter isCoverageUntracked due)" ?cap empty_selection] c
    unfolding st1 by (simp_all add: empty_selection_def)
  then have same: "st2 = st1" using g(1) by (simp add: grows_def)
  then have "st3 = st1" using g(2) left by (simp add: grows_def)
  then have "st4 = st1" using g(3) left by (simp add: grows_def)
  with sel left ok1 show ?thesis by (auto simp: list_all_iff sel_ok_def)
qed

text \<open>
  The two formulations of the schedule agree: an item should be reviewed now exactly when
  its next due time, as computed for the ordering, is not in the future.
\<close>

theorem should_review_iff_due:
  assumes "0 \<le> now"
  shows "shouldReviewItem i v now policy \<longleftrightarrow> nextReviewDueAtMs i v now policy \<le> now"
  using assms by (auto simp: shouldReviewItem_def nextReviewDueAtMs_def split: option.splits)

text \<open>
  The weekly freshness bound: an item whose last complete review is six days old is due,
  whatever its kind, age, activity and policy.
\<close>

theorem weekly_coverage_due:
  assumes "reviewedAtMs v = Some reviewed" "reviewed + 6 * 24 * 60 * 60 * 1000 \<le> now"
  shows "shouldReviewItem i v now policy"
  using assms by (auto simp: shouldReviewItem_def min_def sched_consts)

text \<open>
  Buckets and priorities name the same classes: the priority determines the bucket, and
  the only refinement is that weekly issues with a changed review policy go first (5 before 6).
\<close>

theorem bucket_of_priority:
  "schedulerBucket i v now =
     (if reviewPriority i v now policy = 0 then HotIssue else if reviewPriority i v now policy = 1 then HotPullRequest
      else if reviewPriority i v now policy = 2 then Activity else if reviewPriority i v now policy = 3 then DailyPullRequest
      else if reviewPriority i v now policy = 4 then RecentIssue else WeeklyIssue)
   \<and> 0 \<le> reviewPriority i v now policy \<and> reviewPriority i v now policy \<le> 6
   \<and> (reviewPriority i v now policy = 5 \<longleftrightarrow>
        schedulerBucket i v now = WeeklyIssue \<and> hasReviewPolicyMismatch v policy)"
  by (cases "si_kind i") (simp_all add: schedulerBucket_def reviewPriority_def)

subsection \<open>The floor backfill\<close>

lemma backfill_loop_fold: "backfill_loop target cs st = fold (take_candidate target) cs st"
proof (induction target cs st rule: backfill_loop.induct)
  case (2 target c cs st)
  show ?case
  proof (cases "length (sel_list st) \<ge> target")
    case True
    then have "fold (take_candidate target) (c # cs) st = st"
      using grows_fold[of "c # cs" UNIV target st] by (simp add: grows_def)
    with True show ?thesis by simp
  qed (use 2 in \<open>auto simp: take_candidate_def\<close>)
qed simp

lemma fold_take_keys:
  "sel_keys st = candidateKey ` set (sel_list st) \<Longrightarrow> finite (sel_keys st) \<Longrightarrow>
     sel_keys (fold (take_candidate capacity) xs st) = candidateKey ` set (sel_list (fold (take_candidate capacity) xs st))
     \<and> card (sel_keys (fold (take_candidate capacity) xs st)) + length (sel_list st)
        = card (sel_keys st) + length (sel_list (fold (take_candidate capacity) xs st))
     \<and> sel_keys (fold (take_candidate capacity) xs st) \<subseteq> sel_keys st \<union> candidateKey ` set xs
     \<and> length (sel_list (fold (take_candidate capacity) xs st)) \<le> max capacity (length (sel_list st))"
proof (induction xs arbitrary: st)
  case (Cons x xs)
  let ?st1 = "take_candidate capacity x st"
  let ?r = "fold (take_candidate capacity) xs ?st1"
  have a: "sel_keys ?st1 = candidateKey ` set (sel_list ?st1)" "finite (sel_keys ?st1)"
    "card (sel_keys ?st1) + length (sel_list st) = card (sel_keys st) + length (sel_list ?st1)"
    "sel_keys ?st1 \<subseteq> insert (candidateKey x) (sel_keys st)"
    "length (sel_list ?st1) \<le> max capacity (length (sel_list st))"
    using Cons.prems by (auto simp: take_candidate_def)
  note IH = Cons.IH[OF a(1,2)]
  have "card (sel_keys ?r) + length (sel_list st) = card (sel_keys st) + length (sel_list ?r)"
    using IH a(3) by linarith
  moreover have "sel_keys ?r \<subseteq> sel_keys st \<union> candidateKey ` set (x # xs)"
    using IH a(4) unfolding list.set image_insert by blast
  moreover have "length (sel_list ?r) \<le> max capacity (length (sel_list st))"
    using IH a(5) by linarith
  ultimately show ?case using IH unfolding fold_Cons o_def by blast
qed simp

lemma floor_arith:
  fixes len s total taken more t :: nat
  assumes "len = s + (total - taken)" "len \<le> t" "taken \<le> total" "total \<le> taken + more"
    "len < t \<Longrightarrow> taken + more \<le> total" "s < t"
  shows "len = max s (min t (s + more))"
proof (cases "len < t")
  case True
  with assms(3,4,5) have "total = taken + more" by linarith
  with assms(1) True show ?thesis by (simp add: min_def max_def)
next
  case False
  with assms(2) have "len = t" by simp
  moreover from this assms(1,3,4) have "t \<le> s + more" by linarith
  ultimately show ?thesis using assms(6) by (simp add: min_def max_def)
qed

definition sel_of :: "due_candidate list \<Rightarrow> selection" where
  "sel_of xs = \<lparr>sel_list = xs, sel_keys = candidateKey ` set xs\<rparr>"

lemma take_sel_of:
  "take_candidate k z (sel_of xs) =
     (if length xs \<ge> k \<or> candidateKey z \<in> candidateKey ` set xs then sel_of xs else sel_of (xs @ [z]))"
  by (simp add: take_candidate_def sel_of_def)

lemma fold_take_added:
  assumes "sel_list (fold (take_candidate k) zs (sel_of (selected @ us))) = selected @ ys" "set zs \<subseteq> B"
    "set us \<subseteq> B" "distinct (map candidateKey us)" "candidateKey ` set us \<inter> candidateKey ` set selected = {}"
  shows "set ys \<subseteq> B \<and> distinct (map candidateKey ys) \<and> candidateKey ` set ys \<inter> candidateKey ` set selected = {}"
  using assms
proof (induction zs arbitrary: us)
  case (Cons z zs)
  show ?case
  proof (cases "length (selected @ us) \<ge> k \<or> candidateKey z \<in> candidateKey ` set (selected @ us)")
    case True
    then have "take_candidate k z (sel_of (selected @ us)) = sel_of (selected @ us)" by (simp only: take_sel_of if_True)
    with Cons show ?thesis by simp
  next
    case False
    then have "take_candidate k z (sel_of (selected @ us)) = sel_of (selected @ (us @ [z]))"
      by (simp only: take_sel_of if_False append_assoc)
    with Cons.IH[of "us @ [z]"] Cons.prems False show ?thesis by (simp add: image_Un)
  qed
qed (simp add: sel_of_def)

lemma fold_take_length:
  assumes "length selected < t"
  shows "length (sel_list (fold (take_candidate t) xs (sel_of selected)))
    = max (length selected) (min t (length selected + card (candidateKey ` set xs - candidateKey ` set selected)))"
proof -
  let ?A = "candidateKey ` set selected" and ?B = "candidateKey ` set xs"
  define r where "r = fold (take_candidate t) xs (sel_of selected)"
  have sel: "sel_keys (sel_of selected) = ?A" "sel_list (sel_of selected) = selected" by (simp_all add: sel_of_def)
  have "sel_keys (sel_of selected) = candidateKey ` set (sel_list (sel_of selected))" "finite (sel_keys (sel_of selected))"
    by (simp_all add: sel_of_def)
  note k = fold_take_keys[OF this, of t xs, folded r_def, unfolded sel]
  have "grows t UNIV (set xs) (sel_of selected) r" unfolding r_def by (rule grows_fold) simp
  then have g: "?A \<subseteq> sel_keys r" "length (sel_list r) < t \<Longrightarrow> ?B \<subseteq> sel_keys r"
    by (simp_all add: grows_def sel_of_def)
  have fin: "finite (sel_keys r)" using k by simp
  have un: "card (?A \<union> ?B) = card ?A + card (?B - ?A)"
    using card_Un_disjoint[of ?A "?B - ?A"] by simp
  have a: "card ?A \<le> card (sel_keys r)" using fin g(1) by (rule card_mono)
  have le: "card (sel_keys r) \<le> card (?A \<union> ?B)" 
  proof (rule card_mono)
    show "sel_keys r \<subseteq> ?A \<union> ?B" using k by blast
  qed simp
  have ge: "card (?A \<union> ?B) \<le> card (sel_keys r)" if "length (sel_list r) < t"
    using fin Un_least[OF g(1) g(2)[OF that]] by (rule card_mono)
  have "length (sel_list r) = length selected + (card (sel_keys r) - card ?A)" using k a by linarith
  moreover have "length (sel_list r) \<le> t" using k assms by simp
  ultimately show ?thesis unfolding r_def[symmetric]
    using a le[unfolded un] ge[unfolded un] assms by (rule floor_arith)
qed

text \<open>
  The floor backfill keeps every selected candidate, in order, adds only backfill items
  whose key is not selected yet, each once, and ends at the floor (capped by the capacity)
  or when the backfill has no new item left; it never removes or exceeds.
\<close>

theorem backfill_reaches_floor:
  "(\<exists>added. appendFloorBackfillCandidates selected backfill activeFloor capacity = selected @ added
      \<and> set added \<subseteq> set backfill \<and> distinct (map candidateKey added)
      \<and> candidateKey ` set added \<inter> candidateKey ` set selected = {})
   \<and> length (appendFloorBackfillCandidates selected backfill activeFloor capacity)
      = max (length selected) (min (nat (min activeFloor capacity))
          (length selected + card (candidateKey ` set backfill - candidateKey ` set selected)))"
proof -
  let ?t = "nat (min (max 0 activeFloor) (max 0 capacity))"
  have t: "?t = nat (min activeFloor capacity)" by (simp add: min_def max_def)
  show ?thesis
  proof (cases "length selected \<ge> ?t")
    case True
    then have "appendFloorBackfillCandidates selected backfill activeFloor capacity = selected"
      by (simp add: appendFloorBackfillCandidates_def Let_def)
    moreover have "max (length selected) (min (nat (min activeFloor capacity)) n) = length selected" for n
      using True unfolding t by simp
    ultimately show ?thesis by simp
  next
    case False
    let ?xs = "js_sort compareBackfillCandidates backfill"
    let ?r = "fold (take_candidate ?t) ?xs (sel_of selected)"
    have res: "appendFloorBackfillCandidates selected backfill activeFloor capacity = sel_list ?r"
      unfolding appendFloorBackfillCandidates_def Let_def backfill_loop_fold sel_of_def using False by (rule if_not_P)
    have "grows ?t UNIV (set ?xs) (sel_of selected) ?r" by (rule grows_fold) simp
    then obtain ys where ys: "sel_list ?r = selected @ ys" unfolding grows_def by (auto simp: sel_of_def)
    have "set ys \<subseteq> set backfill \<and> distinct (map candidateKey ys) \<and> candidateKey ` set ys \<inter> candidateKey ` set selected = {}"
      by (rule fold_take_added[where zs = ?xs and us = "[]" and k = ?t]) (use ys in simp_all)
    moreover have "length (sel_list ?r) = max (length selected) (min ?t (length selected + card (candidateKey ` set backfill - candidateKey ` set selected)))"
      using fold_take_length[of selected ?t ?xs] False by (simp only: not_le set_js_sort)
    ultimately show ?thesis unfolding res
      by (intro conjI exI[of _ ys]) (use ys in \<open>simp_all only: t\<close>)
  qed
qed


subsection \<open>Concrete runs\<close>

definition sample_sched_item :: "nat \<Rightarrow> sched_item" where
  "sample_sched_item n = \<lparr>si_repo = ''o/r'', si_number = n, si_kind = Issue, si_createdAt = ''2024-01-01T00:00:00Z'',
     si_updatedAt = ''2024-01-02T00:00:00Z'', si_labels = None\<rparr>"

definition sample_due :: "nat \<Rightarrow> due_candidate" where
  "sample_due n = \<lparr>dc_item = sample_sched_item n, dc_review = None, dc_priority = 6, dc_reviewedAt = 0, dc_nextDueAt = 0,
     dc_bucket = WeeklyIssue, dc_coverageTracked = None\<rparr>"

definition sample_review :: sched_review where
  "sample_review = \<lparr>sr_reviewedAt = Some ''2024-01-10T00:00:00Z'', sr_itemUpdatedAt = None, sr_reviewStatus = Some ''complete'',
     sr_reviewPolicy = None, sr_decision = None, sr_contentDigest = None, sr_lastFullReviewAt = None,
     sr_lastFullReviewDecision = None\<rparr>"

lemma sample_dates: "date_parse ''2024-01-01T00:00:00Z'' = Some 1704067200000" "date_parse ''2024-01-10T00:00:00Z'' = Some 1704844800000"
  by code_simp+

lemma sample_reviewedAt: "reviewedAtMs (Some sample_review) = Some 1704844800000"
  by (simp add: reviewedAtMs_def sample_review_def date_parse_opt_def sample_dates)

lemma sample_due_overdue: "isCoverageUntracked (sample_due n)" "coverage_overdue 1800000000000 (sample_due n)"
  by (simp_all add: isCoverageUntracked_def coverage_overdue_def weeklyCoverageReferenceMs_def sample_due_def
      sample_sched_item_def sample_dates sched_consts)

lemma sample_keys: "candidateKey (sample_due m) = candidateKey (sample_due n) \<longleftrightarrow> m = n"
  by (simp add: candidateKey_def schedulerItemKey_def sample_due_def sample_sched_item_def)

lemma sample_coverage_cmp: "coverageCompare compareDueCandidates (sample_due 1) (sample_due 2) = - 1"
  by (simp add: coverageCompare_def compareDueCandidates_def bulkFiledComparison_def isBulkFiled_def
      weeklyCoverageReferenceMs_def cmp_or_def sample_due_def sample_sched_item_def)

text \<open>Two overdue items and room for one: the one left out has the larger number.\<close>

theorem overdue_untracked_first_witness:
  "\<exists>c\<in>{sample_due 1, sample_due 2}. length (selectDueCandidates [sample_due 1, sample_due 2] 1 compareDueCandidates 1800000000000) = 1
     \<and> list_all (\<lambda>x. coverageCompare compareDueCandidates x c \<le> 0)
         (selectDueCandidates [sample_due 1, sample_due 2] 1 compareDueCandidates 1800000000000)"
proof -
  let ?due = "[sample_due 1, sample_due 2]"
  let ?sel = "selectDueCandidates ?due 1 compareDueCandidates 1800000000000"
  have "length ?sel \<le> 1" using select_ok[of 1 ?due compareDueCandidates 1800000000000] by simp
  then have "card (candidateKey ` set ?sel) \<le> 1" using card_image_le[of "set ?sel" candidateKey] card_length[of ?sel] by simp
  moreover have "card (candidateKey ` set ?due) = 2" by (simp add: sample_keys)
  ultimately have "\<not> candidateKey ` set ?due \<subseteq> candidateKey ` set ?sel"
    using card_mono[of "candidateKey ` set ?sel" "candidateKey ` set ?due"] by auto
  then obtain c where c: "c \<in> set ?due" "candidateKey c \<notin> candidateKey ` set ?sel" by blast
  then have "isCoverageUntracked c" "coverage_overdue 1800000000000 c" using sample_due_overdue by auto
  from overdue_untracked_first[OF c(1) this c(2)] c(1) show ?thesis by (auto simp: list_all_iff)
qed

theorem should_review_iff_due_witness:
  "shouldReviewItem (sample_sched_item 1) (Some sample_review) 1704848400001 None
     \<longleftrightarrow> nextReviewDueAtMs (sample_sched_item 1) (Some sample_review) 1704848400001 None \<le> 1704848400001"
  by (rule should_review_iff_due) simp

theorem weekly_coverage_due_witness:
  "shouldReviewItem (sample_sched_item 1) (Some sample_review) 1705363200000 None"
  by (rule weekly_coverage_due[OF sample_reviewedAt]) simp

end
