(* ===== verification/Decision.thy ===== *)
theory Decision
  imports Js_Text Iso_Time
begin

text \<open>
  Review decisions (\<open>dashboard/exact-review-decision.ts\<close>, \<open>exact-review-queue-shared.ts\<close>,
  \<open>src/manual-publication-policy.ts\<close>): the typed decision that the queue keeps per item, its
  publication, and the pure predicates and merges the queue applies to them. An optional
  property is an \<open>option\<close>: the parser never leaves a property present but undefined.
\<close>

subsection \<open>State\<close>

datatype decision_kind = IssueItem | PullItem

datatype source_event = IssuesEvent | PullRequestEvent

datatype publication_policy = RecordCommentOnly

datatype command_origin = HostedWebhook | CommentRouter

record base_decision =
  bd_targetRepo :: string
  bd_targetBranch :: string
  bd_itemNumber :: nat
  bd_itemKind :: decision_kind
  bd_sourceEvent :: source_event
  bd_sourceAction :: string
  bd_publicationPolicy :: "publication_policy option"
  bd_supersedesInProgress :: bool
  bd_sourceHeadSha :: "string option"
  bd_sourceBaseSha :: "string option"
  bd_sourceIsDraft :: "bool option"
  bd_sourceContentRevision :: "string option"
  bd_expectedSourceRevision :: "string option"
  bd_sourceHeadVerified :: "bool option"
  bd_sourceAuthoritySeq :: "int option"
  bd_sourceUpdatedAt :: "string option"
  bd_sourceDeliveryId :: "string option"
  bd_codexTimeoutMs :: "int option"
  bd_mediaProofTimeoutMs :: "int option"
  bd_commandStatusMarker :: "string option"
  bd_statusCommentId :: "int option"
  bd_reviewAcknowledgementCommentId :: "int option"
  bd_additionalPrompt :: "string option"
  bd_sourceCommentId :: "int option"
  bd_sourceCommentUpdatedAt :: "string option"
  bd_commandBodyDigest :: "string option"
  bd_commandOrigin :: "command_origin option"
  bd_sourceCommentVerified :: "bool option"

datatype receipt_outcome = ReceiptAccepted | ReceiptDeduped | ReceiptSuperseded

record direct_lifecycle =
  dl_planKind :: string
  dl_receiptOutcome :: receipt_outcome

record publication =
  px_artifactName :: string
  px_producerRunId :: string
  px_producerRunAttempt :: nat
  px_sourceSha :: string
  px_itemKey :: string
  px_protocolVersion :: int
  px_leaseRevision :: "int option"
  px_claimGeneration :: "int option"
  px_liveProceeded :: bool
  px_liveTerminalNoop :: bool
  px_liveTerminalMissing :: bool
  px_liveGuardedOpen :: bool
  px_producerDecision :: base_decision
  px_directLifecycle :: "direct_lifecycle option"

record decision = base_decision +
  d_publication :: "publication option"

record watermark =
  wk_sequence :: int
  wk_updatedAt :: "string option"

definition FAILED_REVIEW_SHARD_RECOVERY_SOURCE_ACTION :: string where
  "FAILED_REVIEW_SHARD_RECOVERY_SOURCE_ACTION = ''failed_review_shard_recovery''"

definition EXACT_REVIEW_ARTIFACT_PUBLISH_SOURCE_ACTION :: string where
  "EXACT_REVIEW_ARTIFACT_PUBLISH_SOURCE_ACTION = ''exact_review_artifact_publish''"

definition EXACT_REVIEW_ARTIFACT_RETENTION_RECOVERY_SOURCE_ACTION :: string where
  "EXACT_REVIEW_ARTIFACT_RETENTION_RECOVERY_SOURCE_ACTION = ''artifact_retention_recovery''"

definition EXACT_REVIEW_SOURCE_DRIFT_REQUEUE_SOURCE_ACTION :: string where
  "EXACT_REVIEW_SOURCE_DRIFT_REQUEUE_SOURCE_ACTION = ''source_drift_requeue''"

definition MANUAL_REVIEW_SOURCE_ACTION :: string where
  "MANUAL_REVIEW_SOURCE_ACTION = ''manual_explicit_review''"

definition COMMAND_PROOF_RESULT :: string where
  "COMMAND_PROOF_RESULT = ''command_proof_result''"

lemmas source_actions = FAILED_REVIEW_SHARD_RECOVERY_SOURCE_ACTION_def EXACT_REVIEW_ARTIFACT_PUBLISH_SOURCE_ACTION_def
  EXACT_REVIEW_ARTIFACT_RETENTION_RECOVERY_SOURCE_ACTION_def EXACT_REVIEW_SOURCE_DRIFT_REQUEUE_SOURCE_ACTION_def
  MANUAL_REVIEW_SOURCE_ACTION_def COMMAND_PROOF_RESULT_def

definition EXACT_REVIEW_LOW_PRIORITY_SOURCE_ACTIONS :: "string list" where
  "EXACT_REVIEW_LOW_PRIORITY_SOURCE_ACTIONS =
     [FAILED_REVIEW_SHARD_RECOVERY_SOURCE_ACTION, EXACT_REVIEW_ARTIFACT_RETENTION_RECOVERY_SOURCE_ACTION,
      EXACT_REVIEW_SOURCE_DRIFT_REQUEUE_SOURCE_ACTION]"

subsection \<open>Lanes, priority and command context\<close>

datatype scheduled_lane = HotIntake | NormalBackfill

definition exactReviewScheduledLane :: "'a base_decision_scheme \<Rightarrow> scheduled_lane option" where
  "exactReviewScheduledLane d =
     (if bd_sourceAction d = ''scheduled_hot_intake'' then Some HotIntake
      else if bd_sourceAction d = ''scheduled_normal_backfill'' then Some NormalBackfill
      else None)"

definition exactReviewDecisionHasCommandContext :: "'a base_decision_scheme \<Rightarrow> bool" where
  "exactReviewDecisionHasCommandContext d \<longleftrightarrow>
     truthy (bd_commandStatusMarker d) \<or> num_truthy (bd_statusCommentId d)"

definition exactReviewCommandObligationSurvives :: "'a base_decision_scheme \<Rightarrow> 'b base_decision_scheme \<Rightarrow> bool" where
  "exactReviewCommandObligationSurvives current incoming =
     (if \<not> exactReviewDecisionHasCommandContext current then True
      else if \<not> exactReviewDecisionHasCommandContext incoming then False
      else bd_commandStatusMarker current = bd_commandStatusMarker incoming
           \<and> bd_statusCommentId current = bd_statusCommentId incoming)"

definition exactReviewSameVerifiedCommand :: "'a base_decision_scheme \<Rightarrow> 'b base_decision_scheme \<Rightarrow> bool" where
  "exactReviewSameVerifiedCommand held incoming \<longleftrightarrow>
     bd_sourceCommentVerified held = Some True
     \<and> exactReviewDecisionHasCommandContext held
     \<and> bd_commandStatusMarker held = bd_commandStatusMarker incoming
     \<and> bd_statusCommentId held = bd_statusCommentId incoming
     \<and> bd_sourceCommentId held = bd_sourceCommentId incoming
     \<and> bd_sourceCommentUpdatedAt held = bd_sourceCommentUpdatedAt incoming
     \<and> bd_commandBodyDigest held = bd_commandBodyDigest incoming
     \<and> bd_commandOrigin held = bd_commandOrigin incoming"

definition isLowPriorityExactReviewDecision :: "'a base_decision_scheme \<Rightarrow> bool" where
  "isLowPriorityExactReviewDecision d \<longleftrightarrow>
     List.member EXACT_REVIEW_LOW_PRIORITY_SOURCE_ACTIONS (bd_sourceAction d)"

definition isSheddableExactReviewRecovery :: "'a base_decision_scheme \<Rightarrow> bool" where
  "isSheddableExactReviewRecovery d \<longleftrightarrow>
     isLowPriorityExactReviewDecision d \<and> \<not> exactReviewDecisionHasCommandContext d"

definition isImmediateExactReviewDecision :: "decision \<Rightarrow> bool \<Rightarrow> bool" where
  "isImmediateExactReviewDecision d isFirstEvent \<longleftrightarrow>
     truthy (bd_commandStatusMarker d)
     \<or> bd_sourceAction d = MANUAL_REVIEW_SOURCE_ACTION
     \<or> d_publication d \<noteq> None
     \<or> exactReviewScheduledLane d \<noteq> None
     \<or> (isFirstEvent \<and> bd_itemKind d = PullItem
        \<and> (bd_sourceAction d = ''opened'' \<or> bd_sourceAction d = ''ready_for_review''))"

definition isExactReviewQueueTargetEnabled :: "decision \<Rightarrow> string option \<Rightarrow> bool" where
  "isExactReviewQueueTargetEnabled d CLAWSWEEPER_ENABLE_CLAWHUB \<longleftrightarrow>
     bd_targetRepo d \<noteq> ''openclaw/clawhub'' \<or> str_or_empty CLAWSWEEPER_ENABLE_CLAWHUB = ''1''"

definition exactReviewItemKey :: "decision \<Rightarrow> string" where
  "exactReviewItemKey d =
     (let base = bd_targetRepo d @ ''#'' @ nat_str (bd_itemNumber d)
      in case d_publication d of None \<Rightarrow> base
         | Some p \<Rightarrow> base @ ''@publish:'' @ px_producerRunId p @ '':'' @ nat_str (px_producerRunAttempt p))"

definition exactReviewQueueIsPublication :: "decision \<Rightarrow> bool" where
  "exactReviewQueueIsPublication d \<longleftrightarrow> bd_sourceAction d = EXACT_REVIEW_ARTIFACT_PUBLISH_SOURCE_ACTION"

definition exactReviewQueueIsBatchablePublication :: "decision \<Rightarrow> bool \<Rightarrow> bool" where
  "exactReviewQueueIsBatchablePublication d terminalFinalization \<longleftrightarrow>
     exactReviewQueueIsPublication d \<and> \<not> terminalFinalization
     \<and> (case d_publication d of None \<Rightarrow> True | Some p \<Rightarrow> px_directLifecycle p = None)"

definition exactReviewQueueUsesLegacyBatchPath :: "decision \<Rightarrow> bool" where
  "exactReviewQueueUsesLegacyBatchPath d \<longleftrightarrow>
     exactReviewQueueIsPublication d
     \<and> (case d_publication d of None \<Rightarrow> False | Some p \<Rightarrow> px_directLifecycle p = None)"

text \<open>\<open>a ?? b\<close> on optional values.\<close>

definition nullish :: "'a option \<Rightarrow> 'a option \<Rightarrow> 'a option" where
  "nullish a b = (case a of None \<Rightarrow> b | Some x \<Rightarrow> Some x)"

definition exactReviewQueueCommandStatusAddress :: "decision \<Rightarrow> string option \<times> int option" where
  "exactReviewQueueCommandStatusAddress d =
     (nullish (case d_publication d of None \<Rightarrow> None | Some p \<Rightarrow> bd_commandStatusMarker (px_producerDecision p))
        (bd_commandStatusMarker d),
      nullish (case d_publication d of None \<Rightarrow> None | Some p \<Rightarrow> bd_statusCommentId (px_producerDecision p))
        (bd_statusCommentId d))"

definition exactReviewQueueHasCommandContext :: "decision \<Rightarrow> bool" where
  "exactReviewQueueHasCommandContext d \<longleftrightarrow>
     (case exactReviewQueueCommandStatusAddress d of (marker, comment) \<Rightarrow> truthy marker \<or> num_truthy comment)"

definition exactReviewTerminalFinalizationSharesCommandStatus :: "decision \<Rightarrow> decision \<Rightarrow> bool" where
  "exactReviewTerminalFinalizationSharesCommandStatus d successor \<longleftrightarrow>
     (case (exactReviewQueueCommandStatusAddress d, exactReviewQueueCommandStatusAddress successor) of
        ((m, c), (m', c')) \<Rightarrow> (c \<noteq> None \<and> c' \<noteq> None \<and> c = c') \<or> (m \<noteq> None \<and> m' \<noteq> None \<and> m = m'))"

definition exactReviewDispatcherRetryAt :: "(string \<times> int) option \<Rightarrow> int \<Rightarrow> int option" where
  "exactReviewDispatcherRetryAt dispatcher now =
     (case dispatcher of None \<Rightarrow> None
      | Some (st, retryAt) \<Rightarrow>
          if (st = ''paused'' \<or> st = ''blocked'') \<and> retryAt > now then Some retryAt else None)"

subsection \<open>The publication policy\<close>

datatype policy_error = ManualWithoutPolicy | PolicyActionMismatch | ProducerPolicyMismatch

definition basePublicationPolicy :: "'a base_decision_scheme \<Rightarrow> policy_error + publication_policy option" where
  "basePublicationPolicy d =
     (if bd_sourceAction d = MANUAL_REVIEW_SOURCE_ACTION \<and> bd_publicationPolicy d = None then Inl ManualWithoutPolicy
      else if bd_publicationPolicy d \<noteq> None
           \<and> bd_sourceAction d \<noteq> MANUAL_REVIEW_SOURCE_ACTION
           \<and> bd_sourceAction d \<noteq> EXACT_REVIEW_ARTIFACT_PUBLISH_SOURCE_ACTION then Inl PolicyActionMismatch
      else Inr (bd_publicationPolicy d))"

definition decisionPublicationPolicy :: "decision \<Rightarrow> policy_error + publication_policy option" where
  "decisionPublicationPolicy d =
     (case basePublicationPolicy d of Inl e \<Rightarrow> Inl e
      | Inr policy \<Rightarrow>
          (case d_publication d of None \<Rightarrow> Inr policy
           | Some p \<Rightarrow>
               (case basePublicationPolicy (px_producerDecision p) of Inl e \<Rightarrow> Inl e
                | Inr producer \<Rightarrow> if producer \<noteq> policy then Inl ProducerPolicyMismatch else Inr policy)))"

subsection \<open>Publication lineage and producer order\<close>

definition exactReviewPublicationRevision :: "decision \<Rightarrow> (string \<times> int) option" where
  "exactReviewPublicationRevision d =
     (case d_publication d of None \<Rightarrow> None
      | Some p \<Rightarrow>
          if px_protocolVersion p \<noteq> 2 then None
          else case px_leaseRevision p of None \<Rightarrow> None | Some r \<Rightarrow> Some (to_lower (px_itemKey p), r))"

record lineage =
  li_targetKey :: string
  li_sourceRevision :: int
  li_claimGeneration :: int

definition exactReviewPublicationLineage :: "decision \<Rightarrow> lineage option" where
  "exactReviewPublicationLineage d =
     (case d_publication d of None \<Rightarrow> None
      | Some p \<Rightarrow>
          if px_protocolVersion p \<noteq> 2 then None
          else case px_leaseRevision p of None \<Rightarrow> None
            | Some r \<Rightarrow>
                (case px_claimGeneration p of None \<Rightarrow> None
                 | Some g \<Rightarrow> Some \<lparr>li_targetKey = to_lower (px_itemKey p), li_sourceRevision = r, li_claimGeneration = g\<rparr>))"

definition exactReviewPublicationLineageKey :: "lineage \<Rightarrow> string" where
  "exactReviewPublicationLineageKey l =
     li_targetKey l @ [char_of (0::nat)] @ int_str (li_sourceRevision l) @ [char_of (0::nat)] @ int_str (li_claimGeneration l)"

text \<open>Digit strings without leading zeros; \<open>localeCompare\<close> of equally long ones is digit order.\<close>

definition strip_zeros :: "string \<Rightarrow> string" where
  "strip_zeros s = (let t = dropWhile (\<lambda>c. c = CHR ''0'') s in if t = [] then ''0'' else t)"

definition compareDecimalIdentifiers :: "string \<Rightarrow> string \<Rightarrow> int" where
  "compareDecimalIdentifiers left right =
     (let l = strip_zeros left; r = strip_zeros right
      in if length l \<noteq> length r then int (length l) - int (length r) else cmp_lin l r)"

definition exactReviewPublicationProducerIsNewer :: "publication \<Rightarrow> publication \<Rightarrow> bool" where
  "exactReviewPublicationProducerIsNewer incoming retained \<longleftrightarrow>
     (let c = compareDecimalIdentifiers (px_producerRunId incoming) (px_producerRunId retained)
      in c > 0 \<or> (c = 0 \<and> px_producerRunAttempt incoming > px_producerRunAttempt retained))"

subsection \<open>Merging decisions\<close>

text \<open>\<open>{...current, ...next}\<close> on an optional property.\<close>

definition over :: "'a option \<Rightarrow> 'a option \<Rightarrow> 'a option" where
  "over current nxt = (case nxt of None \<Rightarrow> current | Some x \<Rightarrow> Some x)"

definition spread_decision :: "decision \<Rightarrow> decision \<Rightarrow> decision" where
  "spread_decision c n =
     \<lparr>bd_targetRepo = bd_targetRepo n, bd_targetBranch = bd_targetBranch n, bd_itemNumber = bd_itemNumber n,
      bd_itemKind = bd_itemKind n, bd_sourceEvent = bd_sourceEvent n, bd_sourceAction = bd_sourceAction n,
      bd_publicationPolicy = over (bd_publicationPolicy c) (bd_publicationPolicy n),
      bd_supersedesInProgress = bd_supersedesInProgress n,
      bd_sourceHeadSha = over (bd_sourceHeadSha c) (bd_sourceHeadSha n),
      bd_sourceBaseSha = over (bd_sourceBaseSha c) (bd_sourceBaseSha n),
      bd_sourceIsDraft = over (bd_sourceIsDraft c) (bd_sourceIsDraft n),
      bd_sourceContentRevision = over (bd_sourceContentRevision c) (bd_sourceContentRevision n),
      bd_expectedSourceRevision = over (bd_expectedSourceRevision c) (bd_expectedSourceRevision n),
      bd_sourceHeadVerified = over (bd_sourceHeadVerified c) (bd_sourceHeadVerified n),
      bd_sourceAuthoritySeq = over (bd_sourceAuthoritySeq c) (bd_sourceAuthoritySeq n),
      bd_sourceUpdatedAt = over (bd_sourceUpdatedAt c) (bd_sourceUpdatedAt n),
      bd_sourceDeliveryId = over (bd_sourceDeliveryId c) (bd_sourceDeliveryId n),
      bd_codexTimeoutMs = over (bd_codexTimeoutMs c) (bd_codexTimeoutMs n),
      bd_mediaProofTimeoutMs = over (bd_mediaProofTimeoutMs c) (bd_mediaProofTimeoutMs n),
      bd_commandStatusMarker = over (bd_commandStatusMarker c) (bd_commandStatusMarker n),
      bd_statusCommentId = over (bd_statusCommentId c) (bd_statusCommentId n),
      bd_reviewAcknowledgementCommentId = over (bd_reviewAcknowledgementCommentId c) (bd_reviewAcknowledgementCommentId n),
      bd_additionalPrompt = over (bd_additionalPrompt c) (bd_additionalPrompt n),
      bd_sourceCommentId = over (bd_sourceCommentId c) (bd_sourceCommentId n),
      bd_sourceCommentUpdatedAt = over (bd_sourceCommentUpdatedAt c) (bd_sourceCommentUpdatedAt n),
      bd_commandBodyDigest = over (bd_commandBodyDigest c) (bd_commandBodyDigest n),
      bd_commandOrigin = over (bd_commandOrigin c) (bd_commandOrigin n),
      bd_sourceCommentVerified = over (bd_sourceCommentVerified c) (bd_sourceCommentVerified n),
      d_publication = over (d_publication c) (d_publication n)\<rparr>"

text \<open>What an admitted manual policy retains of the current decision.\<close>

definition retain_policy :: "decision \<Rightarrow> publication_policy \<Rightarrow> bool \<Rightarrow> decision \<Rightarrow> decision" where
  "retain_policy c policy explicit m =
     (let m1 = m\<lparr>bd_publicationPolicy := Some policy, bd_sourceAction := bd_sourceAction c\<rparr>
      in if explicit then m1
         else m1\<lparr>bd_targetBranch := bd_targetBranch c, bd_codexTimeoutMs := bd_codexTimeoutMs c,
                 bd_additionalPrompt := bd_additionalPrompt c\<rparr>)"

definition drop_stale_context :: "decision \<Rightarrow> decision \<Rightarrow> decision \<Rightarrow> decision" where
  "drop_stale_context c n m0 =
     (let m1 = (if bd_sourceAction c = COMMAND_PROOF_RESULT \<and> bd_sourceAction n \<noteq> COMMAND_PROOF_RESULT
                   \<and> bd_additionalPrompt n = None
                then m0\<lparr>bd_additionalPrompt := None\<rparr> else m0);
          commandMarkerChanged =
            (bd_commandStatusMarker n \<noteq> None \<and> bd_commandStatusMarker n \<noteq> bd_commandStatusMarker c);
          m2 = (if commandMarkerChanged \<and> bd_statusCommentId n = None then m1\<lparr>bd_statusCommentId := None\<rparr> else m1);
          m3 = (if (bd_commandStatusMarker n \<noteq> None \<or> bd_statusCommentId n \<noteq> None) \<and> bd_sourceDeliveryId n = None
                then m2\<lparr>bd_sourceDeliveryId := None\<rparr> else m2)
      in if bd_sourceUpdatedAt n \<noteq> None \<and> bd_sourceContentRevision n = None
         then m3\<lparr>bd_sourceContentRevision := None\<rparr> else m3)"

definition mergePendingExactReviewDecision :: "decision \<Rightarrow> decision \<Rightarrow> policy_error + decision" where
  "mergePendingExactReviewDecision c n =
     (let merged = (spread_decision c n)\<lparr>bd_expectedSourceRevision := bd_expectedSourceRevision n\<rparr>
      in case decisionPublicationPolicy c of Inl e \<Rightarrow> Inl e
         | Inr None \<Rightarrow> Inr (drop_stale_context c n merged)
         | Inr (Some policy) \<Rightarrow>
             if bd_sourceAction n \<noteq> MANUAL_REVIEW_SOURCE_ACTION
             then Inr (drop_stale_context c n (retain_policy c policy False merged))
             else (case decisionPublicationPolicy n of Inl e \<Rightarrow> Inl e
                   | Inr p \<Rightarrow> Inr (drop_stale_context c n (retain_policy c policy (p \<noteq> None) merged))))"

definition exactReviewDecisionWithoutCommand :: "decision \<Rightarrow> decision" where
  "exactReviewDecisionWithoutCommand d =
     d\<lparr>bd_commandStatusMarker := None, bd_statusCommentId := None, bd_sourceDeliveryId := None,
       bd_sourceCommentId := None, bd_sourceCommentUpdatedAt := None, bd_sourceCommentVerified := None,
       bd_commandBodyDigest := None, bd_commandOrigin := None, bd_additionalPrompt := None\<rparr>"

definition exactReviewDecisionWithCommand :: "decision \<Rightarrow> decision \<Rightarrow> decision" where
  "exactReviewDecisionWithCommand queued command =
     (exactReviewDecisionWithoutCommand queued)
       \<lparr>bd_expectedSourceRevision := None,
        bd_commandStatusMarker := bd_commandStatusMarker command, bd_statusCommentId := bd_statusCommentId command,
        bd_sourceDeliveryId := bd_sourceDeliveryId command, bd_sourceCommentId := bd_sourceCommentId command,
        bd_sourceCommentUpdatedAt := bd_sourceCommentUpdatedAt command,
        bd_sourceCommentVerified := bd_sourceCommentVerified command,
        bd_commandBodyDigest := bd_commandBodyDigest command, bd_commandOrigin := bd_commandOrigin command,
        bd_additionalPrompt := bd_additionalPrompt command, bd_sourceAction := bd_sourceAction command\<rparr>"

definition exactReviewDecisionAtLiveHead :: "decision \<Rightarrow> string \<Rightarrow> decision" where
  "exactReviewDecisionAtLiveHead d headSha =
     d\<lparr>bd_sourceHeadSha := Some headSha, bd_sourceHeadVerified := Some True,
       bd_sourceAuthoritySeq := None, bd_sourceUpdatedAt := None\<rparr>"

datatype target_state = TargetOpen "string option" | TargetTerminal | TargetUnavailable

definition exactReviewQueueHasStaleLiveHead :: "decision \<Rightarrow> target_state \<Rightarrow> bool" where
  "exactReviewQueueHasStaleLiveHead d live =
     (case live of
        TargetOpen headSha \<Rightarrow>
          bd_itemKind d = PullItem
          \<and> (let queuedHead = to_lower (str_or_empty (bd_sourceHeadSha d))
             in hex_of_length 40 queuedHead \<and> Some queuedHead \<noteq> headSha)
      | _ \<Rightarrow> False)"

subsection \<open>Which review supersedes which\<close>

text \<open>The comment clause: \<open>Some b\<close> when it decides, \<open>None\<close> when it falls through.\<close>

definition comment_verdict :: "decision \<Rightarrow> decision \<Rightarrow> bool option" where
  "comment_verdict active incoming =
     (if num_truthy (bd_sourceCommentId active) \<and> num_truthy (bd_sourceCommentId incoming)
         \<and> bd_sourceCommentId active = bd_sourceCommentId incoming
      then (case (date_parse_opt (bd_sourceCommentUpdatedAt active), date_parse_opt (bd_sourceCommentUpdatedAt incoming)) of
              (Some a, Some i) \<Rightarrow>
                if i < a then Some False
                else if i = a \<and> truthy (bd_commandBodyDigest active) \<and> truthy (bd_commandBodyDigest incoming)
                        \<and> bd_commandBodyDigest active \<noteq> bd_commandBodyDigest incoming
                then Some (bd_sourceCommentVerified incoming = Some True)
                else None
            | _ \<Rightarrow> None)
      else None)"

definition valid_seq :: "int \<Rightarrow> bool" where
  "valid_seq n \<longleftrightarrow> safe_integer n \<and> n > 0"

definition or_number :: "int option \<Rightarrow> int option \<Rightarrow> int" where
  "or_number a b = (if num_truthy a then the a else num_or_zero b)"

definition or_text :: "string option \<Rightarrow> string option \<Rightarrow> string option" where
  "or_text a b = (if truthy a then a else b)"

definition exactReviewDecisionCanSupersedeReview ::
  "decision option \<Rightarrow> decision \<Rightarrow> watermark option \<Rightarrow> decision \<Rightarrow> bool" where
  "exactReviewDecisionCanSupersedeReview leaseDecision queued wm incoming =
     (let active = (case leaseDecision of None \<Rightarrow> queued | Some d \<Rightarrow> d)
      in case comment_verdict active incoming of
           Some b \<Rightarrow> b
         | None \<Rightarrow>
             if bd_itemKind active \<noteq> PullItem \<or> bd_itemKind incoming \<noteq> PullItem then True
             else
               let activeHead = to_lower (str_or_empty (bd_sourceHeadSha active));
                   incomingHead = to_lower (str_or_empty (bd_sourceHeadSha incoming));
                   incomingSeq = num_or_zero (bd_sourceAuthoritySeq incoming);
                   activeSeq = or_number (map_option wk_sequence wm) (bd_sourceAuthoritySeq active)
               in if \<not> hex_of_length 40 incomingHead then False
                  else if \<not> hex_of_length 40 activeHead
                  then bd_sourceHeadVerified incoming = Some True \<and> valid_seq incomingSeq
                  else if incomingHead \<noteq> activeHead \<and> bd_sourceHeadVerified incoming \<noteq> Some True then False
                  else if \<not> valid_seq activeSeq
                  then (if incomingHead \<noteq> activeHead then bd_sourceHeadVerified incoming = Some True
                        else valid_seq incomingSeq)
                  else if \<not> valid_seq incomingSeq then False
                  else (case (date_parse_opt (or_text (Option.bind wm wk_updatedAt) (bd_sourceUpdatedAt active)),
                              date_parse_opt (bd_sourceUpdatedAt incoming)) of
                          (Some a, Some i) \<Rightarrow> if i \<noteq> a then i > a else incomingSeq > activeSeq
                        | _ \<Rightarrow> incomingSeq > activeSeq))"

definition exactReviewCommandVersionIsOlder :: "decision \<Rightarrow> decision \<Rightarrow> bool" where
  "exactReviewCommandVersionIsOlder active incoming =
     (if \<not> num_truthy (bd_sourceCommentId active) \<or> \<not> num_truthy (bd_sourceCommentId incoming)
         \<or> bd_sourceCommentId active \<noteq> bd_sourceCommentId incoming
      then False
      else case (date_parse_opt (bd_sourceCommentUpdatedAt active), date_parse_opt (bd_sourceCommentUpdatedAt incoming)) of
             (Some a, Some i) \<Rightarrow>
               if i \<noteq> a then i < a
               else truthy (bd_commandBodyDigest active) \<and> truthy (bd_commandBodyDigest incoming)
                    \<and> bd_commandBodyDigest incoming \<noteq> bd_commandBodyDigest active
                    \<and> bd_sourceCommentVerified incoming \<noteq> Some True
           | _ \<Rightarrow> False)"

definition exactReviewSourceAuthorityWatermark :: "decision \<Rightarrow> watermark option" where
  "exactReviewSourceAuthorityWatermark d =
     (if bd_itemKind d \<noteq> PullItem then None
      else let sequence = num_or_zero (bd_sourceAuthoritySeq d)
           in if \<not> valid_seq sequence then None
              else Some \<lparr>wk_sequence = sequence,
                         wk_updatedAt = (if date_parse_opt (bd_sourceUpdatedAt d) \<noteq> None then bd_sourceUpdatedAt d else None)\<rparr>)"

definition advanceExactReviewSourceAuthorityWatermark :: "watermark option \<Rightarrow> decision \<Rightarrow> watermark option" where
  "advanceExactReviewSourceAuthorityWatermark wm d =
     (case exactReviewSourceAuthorityWatermark d of None \<Rightarrow> wm | Some w \<Rightarrow> Some w)"

datatype ingress_route = DirectWebhook | TargetDispatcher

definition exactReviewIngressCanPromoteFallback :: "ingress_route option \<Rightarrow> decision \<Rightarrow> bool" where
  "exactReviewIngressCanPromoteFallback ingress d \<longleftrightarrow>
     ingress = Some DirectWebhook \<and> bd_sourceHeadVerified d = Some True
     \<and> hex_of_length 40 (to_lower (str_or_empty (bd_sourceHeadSha d)))
     \<and> valid_seq (num_or_zero (bd_sourceAuthoritySeq d))"

definition exactReviewDecisionWithoutSourceAuthority :: "decision \<Rightarrow> decision" where
  "exactReviewDecisionWithoutSourceAuthority d =
     d\<lparr>bd_sourceAuthoritySeq := None, bd_sourceHeadVerified := None, bd_sourceBaseSha := None,
       bd_sourceIsDraft := None, bd_sourceContentRevision := None, bd_reviewAcknowledgementCommentId := None\<rparr>"


subsection \<open>Decimal identifiers compare as numbers\<close>

definition dec_char :: "char \<Rightarrow> nat" where
  "dec_char c = (of_char c :: nat) - 48"

lemma dec_value_Cons: "dec_value (c # s) = dec_char c * 10 ^ length s + dec_value s"
proof -
  have "foldl (\<lambda>a c. 10 * a + ((of_char c :: nat) - 48)) a s
      = a * 10 ^ length s + foldl (\<lambda>a c. 10 * a + ((of_char c :: nat) - 48)) 0 s" for a
  proof (induction s arbitrary: a)
    case (Cons d s)
    show ?case
      by (subst (1 2) foldl_Cons, subst (1 2) Cons.IH) (simp add: algebra_simps)
  qed simp
  from this[of "dec_char c"] show ?thesis by (simp add: dec_value_def dec_char_def)
qed

lemma dec_char_bound: "is_dec c \<Longrightarrow> dec_char c \<le> 9"
  unfolding is_dec_def dec_char_def by linarith

lemma dec_char_less: "is_dec c \<Longrightarrow> is_dec d \<Longrightarrow> c < d \<longleftrightarrow> dec_char c < dec_char d"
  by (auto simp: is_dec_def dec_char_def less_char_def)

lemma dec_char_eq: "is_dec c \<Longrightarrow> is_dec d \<Longrightarrow> dec_char c = dec_char d \<longleftrightarrow> c = d"
  by (auto simp: is_dec_def dec_char_def dest!: eq_diff_iff[THEN iffD1, rotated 2])

lemma dec_value_bound: "list_all is_dec s \<Longrightarrow> dec_value s < 10 ^ length s"
proof (induction s)
  case (Cons c s)
  then have "dec_char c \<le> 9" "dec_value s < 10 ^ length s" by (simp_all add: dec_char_bound)
  then have "dec_char c * 10 ^ length s + dec_value s < 9 * 10 ^ length s + 10 ^ length s"
    by (intro add_le_less_mono mult_right_mono) simp_all
  then show ?case by (simp add: dec_value_Cons)
qed (simp add: dec_value_def)

lemma two_digits_less:
  fixes a b x y p :: nat
  assumes "x < p" "y < p"
  shows "a * p + x < b * p + y \<longleftrightarrow> a < b \<or> a = b \<and> x < y"
proof -
  consider "a < b" | "a = b" | "b < a" by linarith
  then show ?thesis
  proof cases
    case 1
    then have "(a + 1) * p \<le> b * p" by (intro mult_right_mono) simp_all
    with assms 1 show ?thesis by (simp add: algebra_simps)
  next
    case 3
    then have "(b + 1) * p \<le> a * p" by (intro mult_right_mono) simp_all
    with assms 3 show ?thesis by (simp add: algebra_simps)
  qed simp
qed

lemma dec_value_less:
  "length s = length t \<Longrightarrow> list_all is_dec s \<Longrightarrow> list_all is_dec t \<Longrightarrow> s < t \<longleftrightarrow> dec_value s < dec_value t"
proof (induction s t rule: list_induct2)
  case (Cons c s d t)
  then have "dec_value s < 10 ^ length t" "dec_value t < 10 ^ length t"
    using dec_value_bound[of s] dec_value_bound[of t] by simp_all
  from two_digits_less[OF this, of "dec_char c" "dec_char d"] Cons show ?case
    using dec_char_less[of c d] dec_char_eq[of c d] by (simp add: dec_value_Cons)
qed simp

lemma strip_zeros_digits: "list_all is_dec s \<Longrightarrow> list_all is_dec (strip_zeros s)"
  by (auto simp: strip_zeros_def Let_def list_all_iff is_dec_def dest: set_dropWhileD)

lemma dec_value_dropWhile: "dec_value (dropWhile (\<lambda>c. c = CHR ''0'') s) = dec_value s"
  by (induction s) (auto simp: dec_value_Cons dec_char_def)

lemma dec_value_strip: "dec_value (strip_zeros s) = dec_value s"
proof (cases "dropWhile (\<lambda>c. c = CHR ''0'') s = []")
  case True
  have "dec_value s = dec_value []" using dec_value_dropWhile[of s] unfolding True by (rule sym)
  then have "dec_value s = 0" by (simp add: dec_value_def)
  moreover have "dec_value ''0'' = 0" by (simp add: dec_value_def)
  ultimately show ?thesis using True by (simp add: strip_zeros_def)
next
  case False
  then show ?thesis using dec_value_dropWhile[of s] by (simp add: strip_zeros_def del: dropWhile_eq_Nil_conv)
qed

lemma strip_zeros_lower:
  assumes "list_all is_dec s" "1 < length (strip_zeros s)"
  shows "10 ^ (length (strip_zeros s) - 1) \<le> dec_value (strip_zeros s)"
proof -
  let ?t = "dropWhile (\<lambda>c. c = CHR ''0'') s"
  have t: "strip_zeros s = ?t" "?t \<noteq> []" using assms(2) by (auto simp: strip_zeros_def Let_def split: if_splits)
  then obtain c u where cu: "?t = c # u" by (cases ?t) auto
  have "c \<noteq> CHR ''0''" using cu hd_dropWhile[OF t(2)] by simp
  moreover have "is_dec c" using assms(1) cu set_dropWhileD[of c "\<lambda>c. c = CHR ''0''" s] by (auto simp: list_all_iff)
  ultimately have "1 \<le> dec_char c"
    using dec_char_eq[of c "CHR ''0''"] by (simp add: dec_char_def is_dec_def)
  then have "1 * 10 ^ length u \<le> dec_char c * 10 ^ length u" by (rule mult_le_mono1)
  then have "10 ^ length u \<le> dec_char c * 10 ^ length u + dec_value u" by linarith
  then show ?thesis by (simp add: t(1) cu dec_value_Cons)
qed

lemma strip_zeros_nonempty: "strip_zeros s \<noteq> []"
  by (simp add: strip_zeros_def Let_def)

lemma shorter_is_less:
  assumes "list_all is_dec s" "list_all is_dec t" "length (strip_zeros s) < length (strip_zeros t)"
  shows "dec_value s < dec_value t"
proof -
  have pos: "0 < length (strip_zeros s)" using strip_zeros_nonempty[of s] by simp
  have "dec_value (strip_zeros s) < 10 ^ length (strip_zeros s)"
    by (rule dec_value_bound[OF strip_zeros_digits[OF assms(1)]])
  also have "(10::nat) ^ length (strip_zeros s) \<le> 10 ^ (length (strip_zeros t) - 1)"
    using assms(3) by (intro power_increasing) auto
  also have "\<dots> \<le> dec_value (strip_zeros t)"
    using assms(3) pos by (intro strip_zeros_lower[OF assms(2)]) linarith
  finally show ?thesis by (simp add: dec_value_strip)
qed

lemma compareDecimal_numeric:
  assumes "list_all is_dec s" "list_all is_dec t"
  shows "(compareDecimalIdentifiers s t < 0 \<longleftrightarrow> dec_value s < dec_value t)
    \<and> (compareDecimalIdentifiers s t = 0 \<longleftrightarrow> dec_value s = dec_value t)"
proof (cases "length (strip_zeros s) = length (strip_zeros t)")
  case True
  note d = strip_zeros_digits[OF assms(1)] strip_zeros_digits[OF assms(2)]
  have "strip_zeros s < strip_zeros t \<longleftrightarrow> dec_value s < dec_value t"
    using dec_value_less[OF True d] by (simp add: dec_value_strip)
  moreover have "strip_zeros t < strip_zeros s \<longleftrightarrow> dec_value t < dec_value s"
    using dec_value_less[OF True[symmetric] d(2,1)] by (simp add: dec_value_strip)
  ultimately show ?thesis
    using True by (auto simp: compareDecimalIdentifiers_def Let_def)
next
  case False
  then consider "length (strip_zeros s) < length (strip_zeros t)" | "length (strip_zeros t) < length (strip_zeros s)" by linarith
  then show ?thesis
    using shorter_is_less[OF assms] shorter_is_less[OF assms(2,1)]
    by cases (auto simp: compareDecimalIdentifiers_def Let_def)
qed


subsection \<open>Properties\<close>

text \<open>A pull request decision for the witnesses.\<close>

definition sample_decision :: decision where
  "sample_decision =
     \<lparr>bd_targetRepo = ''openclaw/openclaw'', bd_targetBranch = ''main'', bd_itemNumber = 42, bd_itemKind = PullItem,
      bd_sourceEvent = PullRequestEvent, bd_sourceAction = ''synchronize'', bd_publicationPolicy = None,
      bd_supersedesInProgress = True, bd_sourceHeadSha = Some (replicate 40 (CHR ''a'')), bd_sourceBaseSha = None,
      bd_sourceIsDraft = None, bd_sourceContentRevision = None, bd_expectedSourceRevision = None,
      bd_sourceHeadVerified = Some True, bd_sourceAuthoritySeq = Some 7, bd_sourceUpdatedAt = Some ''2026-01-02T03:04:05Z'',
      bd_sourceDeliveryId = None, bd_codexTimeoutMs = None, bd_mediaProofTimeoutMs = None, bd_commandStatusMarker = None,
      bd_statusCommentId = None, bd_reviewAcknowledgementCommentId = None, bd_additionalPrompt = None,
      bd_sourceCommentId = None, bd_sourceCommentUpdatedAt = None, bd_commandBodyDigest = None, bd_commandOrigin = None,
      bd_sourceCommentVerified = None, d_publication = None\<rparr>"

definition sample_publication :: "string \<Rightarrow> nat \<Rightarrow> publication" where
  "sample_publication run attempt =
     \<lparr>px_artifactName = ''review'', px_producerRunId = run, px_producerRunAttempt = attempt, px_sourceSha = replicate 40 (CHR ''a''),
      px_itemKey = ''openclaw/openclaw#42'', px_protocolVersion = 2, px_leaseRevision = Some 1, px_claimGeneration = Some 1,
      px_liveProceeded = True, px_liveTerminalNoop = False, px_liveTerminalMissing = False, px_liveGuardedOpen = False,
      px_producerDecision = base_decision.truncate sample_decision, px_directLifecycle = None\<rparr>"

text \<open>
  The newer producer is the numerically newer one: on decimal run ids of any length, with
  or without leading zeros, \<open>exactReviewPublicationProducerIsNewer\<close> is the lexicographic
  order of (run id, run attempt) as numbers, although it compares text.
\<close>

theorem producer_is_newer_numeric:
  assumes "list_all is_dec (px_producerRunId incoming)" "list_all is_dec (px_producerRunId retained)"
  shows "exactReviewPublicationProducerIsNewer incoming retained \<longleftrightarrow>
     dec_value (px_producerRunId retained) < dec_value (px_producerRunId incoming)
     \<or> dec_value (px_producerRunId retained) = dec_value (px_producerRunId incoming)
       \<and> px_producerRunAttempt retained < px_producerRunAttempt incoming"
  using compareDecimal_numeric[OF assms]
  by (auto simp: exactReviewPublicationProducerIsNewer_def Let_def)

lemma producer_is_newer_numeric_witness:
  "exactReviewPublicationProducerIsNewer (sample_publication ''1000'' 1) (sample_publication ''0999'' 2)
   \<and> \<not> exactReviewPublicationProducerIsNewer (sample_publication ''0999'' 2) (sample_publication ''999'' 2)"
  by (subst (1 2) producer_is_newer_numeric)
    (simp_all add: sample_publication_def is_dec_def dec_value_def)

text \<open>
  The two ordering rules for commands agree: an incoming decision that carries an older
  version of the active command's comment never supersedes the active review, whatever its
  source head, authority and timestamps.
\<close>

theorem older_command_never_supersedes:
  assumes "exactReviewCommandVersionIsOlder (case leaseDecision of None \<Rightarrow> queued | Some d \<Rightarrow> d) incoming"
  shows "\<not> exactReviewDecisionCanSupersedeReview leaseDecision queued wm incoming"
proof -
  let ?active = "case leaseDecision of None \<Rightarrow> queued | Some d \<Rightarrow> d"
  from assms have "comment_verdict ?active incoming = Some False"
    by (auto simp: exactReviewCommandVersionIsOlder_def comment_verdict_def split: option.splits if_splits)
  then show ?thesis by (simp add: exactReviewDecisionCanSupersedeReview_def Let_def)
qed

definition sample_command :: "string \<Rightarrow> decision" where
  "sample_command at = sample_decision\<lparr>bd_sourceCommentId := Some 5, bd_sourceCommentUpdatedAt := Some at,
     bd_commandStatusMarker := Some ''status''\<rparr>"

lemma older_command_never_supersedes_witness:
  "\<not> exactReviewDecisionCanSupersedeReview None (sample_command ''2026-01-02T03:04:06Z'') None (sample_command ''2026-01-02T03:04:05Z'')"
  by (rule older_command_never_supersedes) code_simp

definition sourced_pull :: "decision \<Rightarrow> bool" where
  "sourced_pull d \<longleftrightarrow> bd_itemKind d = PullItem \<and> hex_of_length 40 (to_lower (str_or_empty (bd_sourceHeadSha d)))
     \<and> valid_seq (num_or_zero (bd_sourceAuthoritySeq d)) \<and> bd_sourceHeadVerified d = Some True
     \<and> date_parse_opt (bd_sourceUpdatedAt d) \<noteq> None"

definition source_version :: "decision \<Rightarrow> int \<times> int" where
  "source_version d = (num_or_zero (date_parse_opt (bd_sourceUpdatedAt d)), num_or_zero (bd_sourceAuthoritySeq d))"

text \<open>
  The event whose authority an item carries: the one that last advanced its watermark, or, for an
  item without a watermark, the decision under review itself.
\<close>

definition carries_authority :: "decision option \<Rightarrow> decision \<Rightarrow> watermark option \<Rightarrow> decision \<Rightarrow> bool" where
  "carries_authority leaseDecision queued wm a \<longleftrightarrow>
     wm = exactReviewSourceAuthorityWatermark a
     \<or> wm = None \<and> (case leaseDecision of None \<Rightarrow> queued | Some d \<Rightarrow> d) = a"

text \<open>
  C34. For a pull request under review, superseding is decided by versions: let \<open>a\<close> be the event
  whose authority the item carries (its watermark, or the decision under review when it has none),
  whatever decision is leased or queued, as long as it has a full head. A later webhook event \<open>b\<close>
  with a verified head, an authority sequence and a source time, which is not about the comment
  under review, supersedes exactly when its (source time, sequence) is lexicographically above
  that of \<open>a\<close>; so two events never supersede each other in turn. When it does and the item takes
  its authority, the item carries the authority of \<open>b\<close> from then on.
\<close>

theorem supersede_is_version_order:
  assumes "sourced_pull a" "sourced_pull b" "carries_authority leaseDecision queued wm a"
    and "active = (case leaseDecision of None \<Rightarrow> queued | Some d \<Rightarrow> d)"
    and "bd_itemKind active = PullItem" "hex_of_length 40 (to_lower (str_or_empty (bd_sourceHeadSha active)))"
    and "bd_sourceCommentId b = None \<or> bd_sourceCommentId b \<noteq> bd_sourceCommentId active"
  shows "(exactReviewDecisionCanSupersedeReview leaseDecision queued wm b \<longleftrightarrow>
           fst (source_version a) < fst (source_version b)
           \<or> fst (source_version a) = fst (source_version b) \<and> snd (source_version a) < snd (source_version b))
       \<and> carries_authority leaseDecision' queued' (advanceExactReviewSourceAuthorityWatermark wm b) b"
proof -
  from assms(1,2) obtain ua ub where u: "date_parse_opt (bd_sourceUpdatedAt a) = Some ua" "date_parse_opt (bd_sourceUpdatedAt b) = Some ub"
    by (auto simp: sourced_pull_def)
  have v: "comment_verdict active b = None" using assms(7) by (auto simp: comment_verdict_def)
  have s: "valid_seq (num_or_zero (bd_sourceAuthoritySeq a))" "bd_itemKind a = PullItem" using assms(1) by (auto simp: sourced_pull_def)
  have n: "n \<noteq> 0" if "valid_seq n" for n using that by (simp add: valid_seq_def)
  have "date_parse [] = None" by code_simp
  then have t: "truthy (bd_sourceUpdatedAt a)"
    using u(1) by (auto simp: date_parse_opt_def truthy_def split: option.splits)
  have "exactReviewDecisionCanSupersedeReview leaseDecision queued wm b \<longleftrightarrow>
      (if ub \<noteq> ua then ub > ua else num_or_zero (bd_sourceAuthoritySeq b) > num_or_zero (bd_sourceAuthoritySeq a))"
    using assms(2,3,5,6) u v s n[OF s(1)] t
    by (auto simp: exactReviewDecisionCanSupersedeReview_def carries_authority_def assms(4)[symmetric] Let_def sourced_pull_def
        exactReviewSourceAuthorityWatermark_def or_number_def or_text_def)
  moreover have "exactReviewSourceAuthorityWatermark b \<noteq> None"
    using assms(2) by (simp add: exactReviewSourceAuthorityWatermark_def sourced_pull_def Let_def)
  ultimately show ?thesis
    using u by (auto simp: source_version_def carries_authority_def advanceExactReviewSourceAuthorityWatermark_def split: option.splits)
qed

lemma supersede_is_version_order_witness:
  "let newer = sample_decision\<lparr>bd_sourceAuthoritySeq := Some 8\<rparr>; wm = exactReviewSourceAuthorityWatermark sample_decision in
     exactReviewDecisionCanSupersedeReview (Some (exactReviewDecisionAtLiveHead sample_decision (replicate 40 CHR ''e''))) newer wm newer
     \<and> \<not> exactReviewDecisionCanSupersedeReview None newer (advanceExactReviewSourceAuthorityWatermark wm newer) sample_decision"
proof -
  let ?newer = "sample_decision\<lparr>bd_sourceAuthoritySeq := Some 8\<rparr>"
  let ?live = "exactReviewDecisionAtLiveHead sample_decision (replicate 40 CHR ''e'')"
  have s: "sourced_pull sample_decision" "sourced_pull ?newer" by code_simp+
  have f: "bd_itemKind ?live = PullItem" "hex_of_length 40 (to_lower (str_or_empty (bd_sourceHeadSha ?live)))" by code_simp+
  have n: "bd_itemKind ?newer = PullItem" "hex_of_length 40 (to_lower (str_or_empty (bd_sourceHeadSha ?newer)))" by code_simp+
  have c: "bd_sourceCommentId ?newer = None" "bd_sourceCommentId sample_decision = None" by code_simp+
  have vs: "source_version sample_decision = (fst (source_version ?newer), 7)" "snd (source_version ?newer) = 8" by code_simp+
  note up = supersede_is_version_order[OF s, of "Some ?live" ?newer "exactReviewSourceAuthorityWatermark sample_decision" ?live None ?newer]
  note down = supersede_is_version_order[OF s(2,1), of None ?newer "advanceExactReviewSourceAuthorityWatermark (exactReviewSourceAuthorityWatermark sample_decision) ?newer" ?newer]
  have c1: "carries_authority (Some ?live) ?newer (exactReviewSourceAuthorityWatermark sample_decision) sample_decision"
    by (simp add: carries_authority_def)
  show ?thesis using up[OF c1] down f n c vs by (simp add: Let_def)
qed

text \<open>
  C35. A merge never widens an admitted manual request: the merged decision keeps the policy
  and the source action of the current one, and unless the next decision is itself an
  explicit manual request, also its branch, time limit and prompt.
\<close>

theorem merge_keeps_manual_policy:
  assumes "decisionPublicationPolicy c = Inr (Some p)" "mergePendingExactReviewDecision c n = Inr m"
    and "bd_sourceAction c = MANUAL_REVIEW_SOURCE_ACTION"
  shows "bd_publicationPolicy m = Some p \<and> bd_sourceAction m = MANUAL_REVIEW_SOURCE_ACTION
    \<and> (bd_sourceAction n = MANUAL_REVIEW_SOURCE_ACTION \<or>
         bd_targetBranch m = bd_targetBranch c \<and> bd_codexTimeoutMs m = bd_codexTimeoutMs c
         \<and> bd_additionalPrompt m = bd_additionalPrompt c)"
proof -
  have keep: "bd_publicationPolicy (drop_stale_context c n x) = bd_publicationPolicy x"
    "bd_sourceAction (drop_stale_context c n x) = bd_sourceAction x"
    "bd_targetBranch (drop_stale_context c n x) = bd_targetBranch x"
    "bd_codexTimeoutMs (drop_stale_context c n x) = bd_codexTimeoutMs x"
    "bd_additionalPrompt (drop_stale_context c n x) = bd_additionalPrompt x" for x
    using assms(3) by (simp_all add: drop_stale_context_def Let_def source_actions)
  show ?thesis
    using assms by (auto simp: mergePendingExactReviewDecision_def Let_def keep retain_policy_def split: sum.splits if_splits)
qed

definition sample_manual :: decision where
  "sample_manual = sample_decision\<lparr>bd_sourceAction := MANUAL_REVIEW_SOURCE_ACTION, bd_publicationPolicy := Some RecordCommentOnly\<rparr>"

lemma merge_keeps_manual_policy_witness:
  "bd_publicationPolicy (projr (mergePendingExactReviewDecision sample_manual sample_decision)) = Some RecordCommentOnly"
proof -
  have "decisionPublicationPolicy sample_manual = Inr (Some RecordCommentOnly)"
    "\<exists>m. mergePendingExactReviewDecision sample_manual sample_decision = Inr m"
    "bd_sourceAction sample_manual = MANUAL_REVIEW_SOURCE_ACTION"
    by (simp_all add: sample_manual_def sample_decision_def decisionPublicationPolicy_def basePublicationPolicy_def
        mergePendingExactReviewDecision_def source_actions)
  then show ?thesis using merge_keeps_manual_policy[of sample_manual RecordCommentOnly sample_decision] by auto
qed

lemma over_over [simp]: "over (over c n) n = over c n" "over n n = n"
  by (simp_all add: over_def split: option.split)

lemma over_None [simp]: "over c None = c" "over None n = n" "over c (Some x) = Some x"
  by (simp_all add: over_def split: option.split)

lemma drop_stale_fields:
  "bd_targetRepo (drop_stale_context c n m) = bd_targetRepo m"
  "bd_targetBranch (drop_stale_context c n m) = bd_targetBranch m"
  "bd_itemNumber (drop_stale_context c n m) = bd_itemNumber m"
  "bd_itemKind (drop_stale_context c n m) = bd_itemKind m"
  "bd_sourceEvent (drop_stale_context c n m) = bd_sourceEvent m"
  "bd_sourceAction (drop_stale_context c n m) = bd_sourceAction m"
  "bd_publicationPolicy (drop_stale_context c n m) = bd_publicationPolicy m"
  "bd_supersedesInProgress (drop_stale_context c n m) = bd_supersedesInProgress m"
  "bd_sourceHeadSha (drop_stale_context c n m) = bd_sourceHeadSha m"
  "bd_sourceBaseSha (drop_stale_context c n m) = bd_sourceBaseSha m"
  "bd_sourceIsDraft (drop_stale_context c n m) = bd_sourceIsDraft m"
  "bd_expectedSourceRevision (drop_stale_context c n m) = bd_expectedSourceRevision m"
  "bd_sourceHeadVerified (drop_stale_context c n m) = bd_sourceHeadVerified m"
  "bd_sourceAuthoritySeq (drop_stale_context c n m) = bd_sourceAuthoritySeq m"
  "bd_sourceUpdatedAt (drop_stale_context c n m) = bd_sourceUpdatedAt m"
  "bd_codexTimeoutMs (drop_stale_context c n m) = bd_codexTimeoutMs m"
  "bd_mediaProofTimeoutMs (drop_stale_context c n m) = bd_mediaProofTimeoutMs m"
  "bd_commandStatusMarker (drop_stale_context c n m) = bd_commandStatusMarker m"
  "bd_reviewAcknowledgementCommentId (drop_stale_context c n m) = bd_reviewAcknowledgementCommentId m"
  "bd_sourceCommentId (drop_stale_context c n m) = bd_sourceCommentId m"
  "bd_sourceCommentUpdatedAt (drop_stale_context c n m) = bd_sourceCommentUpdatedAt m"
  "bd_commandBodyDigest (drop_stale_context c n m) = bd_commandBodyDigest m"
  "bd_commandOrigin (drop_stale_context c n m) = bd_commandOrigin m"
  "bd_sourceCommentVerified (drop_stale_context c n m) = bd_sourceCommentVerified m"
  "d_publication (drop_stale_context c n m) = d_publication m"
  by (simp_all add: drop_stale_context_def Let_def)

lemma drop_stale_conditional:
  "bd_additionalPrompt (drop_stale_context c n m) =
     (if bd_sourceAction c = COMMAND_PROOF_RESULT \<and> bd_sourceAction n \<noteq> COMMAND_PROOF_RESULT \<and> bd_additionalPrompt n = None
      then None else bd_additionalPrompt m)"
  "bd_statusCommentId (drop_stale_context c n m) =
     (if bd_commandStatusMarker n \<noteq> None \<and> bd_commandStatusMarker n \<noteq> bd_commandStatusMarker c \<and> bd_statusCommentId n = None
      then None else bd_statusCommentId m)"
  "bd_sourceDeliveryId (drop_stale_context c n m) =
     (if (bd_commandStatusMarker n \<noteq> None \<or> bd_statusCommentId n \<noteq> None) \<and> bd_sourceDeliveryId n = None
      then None else bd_sourceDeliveryId m)"
  "bd_sourceContentRevision (drop_stale_context c n m) =
     (if bd_sourceUpdatedAt n \<noteq> None \<and> bd_sourceContentRevision n = None
      then None else bd_sourceContentRevision m)"
  by (auto simp: drop_stale_context_def Let_def)

lemma basePublicationPolicy_cong:
  "bd_sourceAction d = bd_sourceAction d' \<Longrightarrow> bd_publicationPolicy d = bd_publicationPolicy d' \<Longrightarrow>
     basePublicationPolicy d = basePublicationPolicy d'"
  by (simp add: basePublicationPolicy_def)

lemma decisionPublicationPolicy_plain:
  "d_publication d = None \<Longrightarrow> decisionPublicationPolicy d = basePublicationPolicy d"
  by (simp add: decisionPublicationPolicy_def split: sum.split)

text \<open>
  Coalescing is idempotent: a redelivered event, merged again into the pending decision
  it was already merged into, changes nothing and raises no policy error.
\<close>

theorem merge_redelivery_idempotent:
  assumes "mergePendingExactReviewDecision c n = Inr m" "decisionPublicationPolicy n = Inr p"
    and "d_publication c = None" "d_publication n = None"
  shows "mergePendingExactReviewDecision m n = Inr m"
proof -
  have pn: "basePublicationPolicy n = Inr p" using assms(2,4) by (simp add: decisionPublicationPolicy_plain)
  obtain q where q: "basePublicationPolicy c = Inr q"
    using assms(1,3) by (cases "basePublicationPolicy c")
      (auto simp: mergePendingExactReviewDecision_def Let_def decisionPublicationPolicy_plain)
  show ?thesis
  proof (cases q)
    case None
    with q assms(1,3) have m: "m = drop_stale_context c n ((spread_decision c n)\<lparr>bd_expectedSourceRevision := bd_expectedSourceRevision n\<rparr>)"
      by (simp add: mergePendingExactReviewDecision_def Let_def decisionPublicationPolicy_plain)
    have qc: "bd_publicationPolicy c = None" using q None by (auto simp: basePublicationPolicy_def split: if_splits)
    have pub: "d_publication m = None" using assms(3,4) by (simp add: m drop_stale_fields spread_decision_def)
    have same: "bd_publicationPolicy m = bd_publicationPolicy n" "bd_sourceAction m = bd_sourceAction n"
      using qc by (simp_all add: m drop_stale_fields spread_decision_def)
    have pm: "decisionPublicationPolicy m = Inr p"
      using pn basePublicationPolicy_cong[of m n] same pub by (simp add: decisionPublicationPolicy_plain)
    have plain: "drop_stale_context m n ((spread_decision m n)\<lparr>bd_expectedSourceRevision := bd_expectedSourceRevision n\<rparr>) = m"
      by (rule decision.equality)
        (auto simp: m drop_stale_fields drop_stale_conditional spread_decision_def qc)
    have held: "drop_stale_context m n (retain_policy m r e ((spread_decision m n)\<lparr>bd_expectedSourceRevision := bd_expectedSourceRevision n\<rparr>)) = m"
      if r: "p = Some r" for r e
    proof -
      have "bd_publicationPolicy n = Some r" using pn r by (auto simp: basePublicationPolicy_def split: if_splits)
      then show ?thesis
        by (intro decision.equality)
          (auto simp: m drop_stale_fields drop_stale_conditional spread_decision_def retain_policy_def Let_def qc)
    qed
    show ?thesis using pm plain held assms(2)
      by (auto simp: mergePendingExactReviewDecision_def Let_def split: option.split)
  next
    case (Some r)
    define e where "e = (bd_sourceAction n = MANUAL_REVIEW_SOURCE_ACTION)"
    have "p \<noteq> None" if e using that pn by (auto simp: e_def basePublicationPolicy_def split: if_splits)
    with q Some assms(1,2,3) have m: "m = drop_stale_context c n (retain_policy c r e
        ((spread_decision c n)\<lparr>bd_expectedSourceRevision := bd_expectedSourceRevision n\<rparr>))"
      by (auto simp: mergePendingExactReviewDecision_def Let_def decisionPublicationPolicy_plain e_def split: if_splits)
    have pub: "d_publication m = None"
      using assms(3,4) by (simp add: m drop_stale_fields retain_policy_def Let_def spread_decision_def)
    have same: "bd_publicationPolicy m = Some r" "bd_sourceAction m = bd_sourceAction c" "bd_publicationPolicy c = Some r"
      using q Some by (auto simp: m drop_stale_fields retain_policy_def Let_def basePublicationPolicy_def split: if_splits)
    have pm: "decisionPublicationPolicy m = Inr (Some r)"
      using q Some basePublicationPolicy_cong[of m c] same pub by (simp add: decisionPublicationPolicy_plain)
    have act: "bd_sourceAction c \<noteq> COMMAND_PROOF_RESULT"
      using q Some by (auto simp: basePublicationPolicy_def source_actions split: if_splits)
    have held: "drop_stale_context m n (retain_policy m r e
        ((spread_decision m n)\<lparr>bd_expectedSourceRevision := bd_expectedSourceRevision n\<rparr>)) = m"
      by (intro decision.equality)
        (auto simp: m drop_stale_fields drop_stale_conditional spread_decision_def retain_policy_def Let_def act)
    show ?thesis using pm held assms(2) \<open>e \<Longrightarrow> p \<noteq> None\<close>
      by (auto simp: mergePendingExactReviewDecision_def Let_def e_def)
  qed
qed

lemma merge_redelivery_idempotent_witness:
  "let m = projr (mergePendingExactReviewDecision sample_manual (sample_command ''2026-01-02T03:04:05Z''))
   in mergePendingExactReviewDecision m (sample_command ''2026-01-02T03:04:05Z'') = Inr m"
proof -
  let ?n = "sample_command ''2026-01-02T03:04:05Z''"
  have "\<exists>m. mergePendingExactReviewDecision sample_manual ?n = Inr m" "decisionPublicationPolicy ?n = Inr None"
    "d_publication sample_manual = None" "d_publication ?n = None"
    by (simp_all add: sample_manual_def sample_command_def sample_decision_def decisionPublicationPolicy_def basePublicationPolicy_def
        mergePendingExactReviewDecision_def source_actions)
  then show ?thesis using merge_redelivery_idempotent[of sample_manual ?n _ None] by auto
qed

end
