(* ===== verification/Js_Number.thy ===== *)
theory Js_Number
  imports Js_Text
begin

text \<open>
  The conversion \<open>Number(text)\<close> of JavaScript, as the program's configuration readers use it:
  trimmed text, decimal literals with fraction and exponent, and the hexadecimal, octal and
  binary literals. A value is kept exactly, as mantissa and decimal exponent (a double rounds
  it); a text whose value rounds to infinity, \<open>Infinity\<close> itself and malformed text are not
  finite numbers. Only integrality, comparison and \<open>Math.floor\<close> are used of the result.
\<close>

definition digits_opt :: "string \<Rightarrow> int option" where
  "digits_opt s = (if s \<noteq> [] \<and> list_all is_dec s then Some (int (dec_value s)) else None)"

definition signed_digits :: "string \<Rightarrow> int option" where
  "signed_digits s =
     (case s of [] \<Rightarrow> None
      | c # t \<Rightarrow> if c = CHR ''+'' then digits_opt t
                else if c = CHR ''-'' then map_option uminus (digits_opt t)
                else digits_opt s)"

definition exponent_part :: "string \<Rightarrow> int option" where
  "exponent_part s =
     (case s of [] \<Rightarrow> Some 0
      | c # t \<Rightarrow> if c = CHR ''e'' \<or> c = CHR ''E'' then signed_digits t else None)"

type_synonym numeral_value = "int \<times> int"

definition unsigned_decimal :: "string \<Rightarrow> numeral_value option" where
  "unsigned_decimal s =
     (let ip = takeWhile is_dec s; r = dropWhile is_dec s
      in if r \<noteq> [] \<and> hd r = CHR ''.'' then
           (let fp = takeWhile is_dec (tl r); ex = dropWhile is_dec (tl r)
            in if ip = [] \<and> fp = [] then None
               else map_option (\<lambda>e. (int (dec_value (ip @ fp)), e - int (length fp))) (exponent_part ex))
         else if ip = [] then None
         else map_option (\<lambda>e. (int (dec_value ip), e)) (exponent_part r))"

definition radix_digit :: "char \<Rightarrow> nat" where
  "radix_digit c =
     (let n = (of_char c :: nat)
      in if 48 \<le> n \<and> n \<le> 57 then n - 48
         else if 97 \<le> n \<and> n \<le> 102 then n - 87
         else if 65 \<le> n \<and> n \<le> 70 then n - 55 else 16)"

definition radix_literal :: "nat \<Rightarrow> string \<Rightarrow> numeral_value option" where
  "radix_literal b s =
     (if s \<noteq> [] \<and> list_all (\<lambda>c. radix_digit c < b) s
      then Some (int (foldl (\<lambda>a c. b * a + radix_digit c) 0 s), 0) else None)"

definition numeral_of :: "string \<Rightarrow> numeral_value option" where
  "numeral_of s =
     (let t = js_trim s; p = take 2 t; r = drop 2 t
      in if t = [] then Some (0, 0)
         else if p = ''0x'' \<or> p = ''0X'' then radix_literal 16 r
         else if p = ''0o'' \<or> p = ''0O'' then radix_literal 8 r
         else if p = ''0b'' \<or> p = ''0B'' then radix_literal 2 r
         else if hd t = CHR ''+'' then unsigned_decimal (tl t)
         else if hd t = CHR ''-'' then map_option (\<lambda>(m, e). (- m, e)) (unsigned_decimal (tl t))
         else unsigned_decimal t)"

text \<open>From here on a double rounds to infinity.\<close>

definition DOUBLE_LIMIT :: int where
  "DOUBLE_LIMIT = 2 ^ 1024 - 2 ^ 970"

definition finite_numeral :: "numeral_value \<Rightarrow> bool" where
  "finite_numeral v =
     (case v of (m, e) \<Rightarrow>
        if 0 \<le> e then \<bar>m\<bar> * 10 ^ nat e < DOUBLE_LIMIT else \<bar>m\<bar> < DOUBLE_LIMIT * 10 ^ nat (- e))"

text \<open>The value when \<open>Number.isInteger(Number(text))\<close>, and \<open>Math.floor(Number(text))\<close> when finite.\<close>

definition js_integer :: "string \<Rightarrow> int option" where
  "js_integer s =
     (case numeral_of s of None \<Rightarrow> None
      | Some (m, e) \<Rightarrow>
          if \<not> finite_numeral (m, e) then None
          else if 0 \<le> e then Some (m * 10 ^ nat e)
          else if m mod 10 ^ nat (- e) = 0 then Some (m div 10 ^ nat (- e)) else None)"

definition js_floor :: "string \<Rightarrow> int option" where
  "js_floor s =
     (case numeral_of s of None \<Rightarrow> None
      | Some (m, e) \<Rightarrow>
          if \<not> finite_numeral (m, e) then None
          else if 0 \<le> e then Some (m * 10 ^ nat e) else Some (m div 10 ^ nat (- e)))"

lemma js_floor_of_integer: "js_integer s = Some n \<Longrightarrow> js_floor s = Some n"
  by (auto simp: js_integer_def js_floor_def split: option.splits if_splits)

lemma is_dec_not_space: "is_dec c \<Longrightarrow> \<not> is_js_space c"
  by (auto simp: is_dec_def is_js_space_def Let_def)

lemma takeWhile_dec: "list_all is_dec s \<Longrightarrow> takeWhile is_dec s = s \<and> dropWhile is_dec s = []"
  by (auto simp: list_all_iff takeWhile_eq_all_conv)

lemma js_trim_digits: "list_all is_dec s \<Longrightarrow> js_trim s = s"
proof -
  have drop: "dropWhile is_js_space t = t" if "list_all is_dec t" for t
    using that by (cases t) (auto simp: is_dec_not_space)
  assume s: "list_all is_dec s"
  then have "list_all is_dec (rev s)" by (simp add: list_all_iff)
  from drop[OF s] drop[OF this] show ?thesis by (simp add: js_trim_def)
qed

lemma nat_str_not_Nil [simp]: "nat_str n \<noteq> []"
  by (subst nat_str.simps) simp

lemma numeral_of_digits:
  assumes "list_all is_dec s" "s \<noteq> []"
  shows "numeral_of s = Some (int (dec_value s), 0)"
proof -
  have sec: "take 2 s \<noteq> [c, d]" if "\<not> is_dec d" for c d
    using assms(1) that by (cases s; cases "tl s") auto
  have hd: "is_dec (hd s)" using assms by (cases s) auto
  have "\<not> is_dec (CHR ''+'')" "\<not> is_dec (CHR ''-'')" "\<not> is_dec (CHR ''x'')" "\<not> is_dec (CHR ''X'')"
    "\<not> is_dec (CHR ''o'')" "\<not> is_dec (CHR ''O'')" "\<not> is_dec (CHR ''b'')" "\<not> is_dec (CHR ''B'')"
    by (simp_all add: is_dec_def)
  then have "numeral_of s = unsigned_decimal s"
    using assms hd by (auto simp: numeral_of_def Let_def js_trim_digits sec)
  also have "\<dots> = Some (int (dec_value s), 0)"
    using assms by (simp add: unsigned_decimal_def Let_def takeWhile_dec exponent_part_def)
  finally show ?thesis .
qed

lemma js_integer_nat_str: "int n < DOUBLE_LIMIT \<Longrightarrow> js_integer (nat_str n) = Some (int n)"
  by (simp add: js_integer_def numeral_of_digits nat_str_digits finite_numeral_def)

subsection \<open>Integer settings with a range\<close>

text \<open>\<open>value === undefined || value === null || String(value).trim() === ""\<close>\<close>

definition blank_setting :: "string option \<Rightarrow> bool" where
  "blank_setting v \<longleftrightarrow> (case v of None \<Rightarrow> True | Some s \<Rightarrow> js_trim s = [])"

end
