(* ===== verification/Review_Loop.thy ===== *)
theory Review_Loop
  imports Decision Js_Number
begin

text \<open>
  Review loops (\<open>dashboard/exact-review-review-loop.ts\<close>): which decisions count towards the
  source-drift breaker and which release it, the breaker's counter table with its expiry on
  read, the history of claimed review generations, its pruning in bounded batches, and the
  runaway report over it. A table is the list of its rows in \<open>rowid\<close> order.
\<close>

subsection \<open>Constants, settings and decision classes\<close>

definition DEFAULT_EXACT_REVIEW_SOURCE_DRIFT_REQUEUE_LIMIT :: int where
  "DEFAULT_EXACT_REVIEW_SOURCE_DRIFT_REQUEUE_LIMIT = 3"

definition DEFAULT_EXACT_REVIEW_RUNAWAY_REVIEWS_PER_DAY :: int where
  "DEFAULT_EXACT_REVIEW_RUNAWAY_REVIEWS_PER_DAY = 24"

definition EXACT_REVIEW_RUNAWAY_WINDOW_MS :: int where
  "EXACT_REVIEW_RUNAWAY_WINDOW_MS = 24 * 60 * 60 * 1000"

definition EXACT_REVIEW_RUNAWAY_SAMPLE_LIMIT :: nat where
  "EXACT_REVIEW_RUNAWAY_SAMPLE_LIMIT = 20"

definition EXACT_REVIEW_SOURCE_DRIFT_LOOP_RETENTION_MS :: int where
  "EXACT_REVIEW_SOURCE_DRIFT_LOOP_RETENTION_MS = 7 * 24 * 60 * 60 * 1000"

definition PRUNE_BATCH :: nat where "PRUNE_BATCH = 500"

definition PRUNE_MAX_BATCHES :: nat where "PRUNE_MAX_BATCHES = 5"

definition is_key_char :: "char \<Rightarrow> bool" where
  "is_key_char c \<longleftrightarrow> is_dec c \<or> (97 \<le> (of_char c :: nat) \<and> (of_char c :: nat) \<le> 122)
     \<or> c = CHR ''_'' \<or> c = CHR ''.'' \<or> c = CHR ''-''"

text \<open>\<open>/^[a-z0-9_.-]+\/[a-z0-9_.-]+#[1-9]\d*$/\<close>: the separators are outside the class.\<close>

definition ITEM_KEY_PATTERN :: "string \<Rightarrow> bool" where
  "ITEM_KEY_PATTERN s \<longleftrightarrow>
     (let owner = takeWhile is_key_char s; r = dropWhile is_key_char s;
          name = takeWhile is_key_char (tl r); r' = dropWhile is_key_char (tl r); number = tl r'
      in owner \<noteq> [] \<and> r \<noteq> [] \<and> hd r = CHR ''/'' \<and> name \<noteq> [] \<and> r' \<noteq> [] \<and> hd r' = CHR ''#''
         \<and> number \<noteq> [] \<and> list_all is_dec number \<and> hd number \<noteq> CHR ''0'')"

definition EXACT_REVIEW_ORGANIC_SOURCE_ACTIONS :: "string list" where
  "EXACT_REVIEW_ORGANIC_SOURCE_ACTIONS =
     [''opened'', ''reopened'', ''edited'', ''synchronize'', ''ready_for_review'', ''converted_to_draft'',
      ''unlocked'', ''unlabeled'']"

definition boundedInteger :: "string option \<Rightarrow> int \<Rightarrow> int \<Rightarrow> int \<Rightarrow> int" where
  "boundedInteger value fallback minimum maximum =
     (if blank_setting value then fallback
      else case js_integer (str_or_empty value) of None \<Rightarrow> fallback
        | Some number \<Rightarrow> if number < minimum then fallback else min maximum number)"

definition exactReviewSourceDriftRequeueLimit :: "string option \<Rightarrow> int" where
  "exactReviewSourceDriftRequeueLimit EXACT_REVIEW_SOURCE_DRIFT_REQUEUE_LIMIT =
     boundedInteger EXACT_REVIEW_SOURCE_DRIFT_REQUEUE_LIMIT DEFAULT_EXACT_REVIEW_SOURCE_DRIFT_REQUEUE_LIMIT 0 100"

definition exactReviewRunawayReviewsPerDay :: "string option \<Rightarrow> int" where
  "exactReviewRunawayReviewsPerDay EXACT_REVIEW_RUNAWAY_REVIEWS_PER_DAY =
     boundedInteger EXACT_REVIEW_RUNAWAY_REVIEWS_PER_DAY DEFAULT_EXACT_REVIEW_RUNAWAY_REVIEWS_PER_DAY 1 10000"

definition exactReviewLoopItemKey :: "decision \<Rightarrow> string" where
  "exactReviewLoopItemKey d = to_lower (bd_targetRepo d @ ''#'' @ nat_str (bd_itemNumber d))"

definition exactReviewSourceDriftLoopCounted :: "decision \<Rightarrow> bool" where
  "exactReviewSourceDriftLoopCounted d \<longleftrightarrow>
     d_publication d = None
     \<and> bd_sourceAction d = EXACT_REVIEW_SOURCE_DRIFT_REQUEUE_SOURCE_ACTION
     \<and> \<not> exactReviewDecisionHasCommandContext d"

definition exactReviewSourceDriftLoopReleases :: "decision \<Rightarrow> bool" where
  "exactReviewSourceDriftLoopReleases d =
     (if d_publication d \<noteq> None \<or> isLowPriorityExactReviewDecision d then False
      else if List.member EXACT_REVIEW_ORGANIC_SOURCE_ACTIONS (bd_sourceAction d) then True
      else if bd_sourceAction d = MANUAL_REVIEW_SOURCE_ACTION then True
      else exactReviewDecisionHasCommandContext d)"

definition exactReviewScheduledOfferReleasesSourceDriftLoop :: "decision \<Rightarrow> int \<Rightarrow> bool" where
  "exactReviewScheduledOfferReleasesSourceDriftLoop d observedAt =
     (if d_publication d \<noteq> None \<or> exactReviewScheduledLane d = None then False
      else case date_parse_opt (bd_sourceUpdatedAt d) of None \<Rightarrow> False | Some updatedAt \<Rightarrow> updatedAt > observedAt)"

datatype hold_reason = LockedConversation | OversizedPullRequest | MaintainerRequestRequired

definition exactReviewHoldReason :: "string option \<Rightarrow> hold_reason option" where
  "exactReviewHoldReason value =
     (if value = Some ''locked_conversation'' then Some LockedConversation
      else if value = Some ''oversized_pull_request'' then Some OversizedPullRequest
      else if value = Some ''maintainer_request_required'' then Some MaintainerRequestRequired
      else None)"

definition exactReviewHoldApplies :: "hold_reason \<Rightarrow> decision \<Rightarrow> bool" where
  "exactReviewHoldApplies reason d =
     (if d_publication d \<noteq> None \<or> exactReviewDecisionHasCommandContext d then False
      else if reason \<noteq> OversizedPullRequest then True
      else bd_itemKind d = PullItem \<and> hex_of_length 40 (str_or_empty (bd_sourceHeadSha d)))"

subsection \<open>The two tables\<close>

record drift_row =
  sl_key :: string
  sl_consecutive :: int
  sl_updatedAt :: int

record generation_row =
  gr_key :: string
  gr_runId :: string
  gr_runAttempt :: int
  gr_claimedAt :: int

record loop_store =
  ls_loops :: "drift_row list"
  ls_generations :: "generation_row list"

definition empty_loop_store :: loop_store where
  "empty_loop_store = \<lparr>ls_loops = [], ls_generations = []\<rparr>"

definition sourceDriftLoopExpiryCutoff :: "int \<Rightarrow> int" where
  "sourceDriftLoopExpiryCutoff now = now - EXACT_REVIEW_SOURCE_DRIFT_LOOP_RETENTION_MS"

text \<open>One \<open>DELETE\<close> of the oldest rows at or before the cutoff, and up to five of them.\<close>

definition prune_batch :: "('r \<Rightarrow> int) \<Rightarrow> int \<Rightarrow> 'r list \<Rightarrow> 'r list \<times> nat" where
  "prune_batch col cutoff rows =
     (let oldest = take PRUNE_BATCH (js_sort (\<lambda>a b. cmp_lin (col a) (col b)) (filter (\<lambda>r. col r \<le> cutoff) rows))
      in (filter (\<lambda>r. r \<notin> set oldest) rows, length oldest))"

fun prune_batches :: "nat \<Rightarrow> ('r \<Rightarrow> int) \<Rightarrow> int \<Rightarrow> 'r list \<Rightarrow> 'r list" where
  "prune_batches 0 col cutoff rows = rows"
| "prune_batches (Suc n) col cutoff rows =
     (case prune_batch col cutoff rows of
        (rows', deleted) \<Rightarrow> if deleted < PRUNE_BATCH then rows' else prune_batches n col cutoff rows')"

definition pruneSync :: "('r \<Rightarrow> int) \<Rightarrow> int \<Rightarrow> 'r list \<Rightarrow> 'r list" where
  "pruneSync col cutoff rows = prune_batches PRUNE_MAX_BATCHES col cutoff rows"

definition pruneSourceDriftLoopsSync :: "int \<Rightarrow> loop_store \<Rightarrow> loop_store" where
  "pruneSourceDriftLoopsSync now st =
     st\<lparr>ls_loops := pruneSync sl_updatedAt (sourceDriftLoopExpiryCutoff now) (ls_loops st)\<rparr>"

definition pruneReviewGenerationsSync :: "int \<Rightarrow> loop_store \<Rightarrow> loop_store" where
  "pruneReviewGenerationsSync now st =
     st\<lparr>ls_generations := pruneSync gr_claimedAt (now - EXACT_REVIEW_RUNAWAY_WINDOW_MS) (ls_generations st)\<rparr>"

subsection \<open>The source-drift counter\<close>

definition loop_row :: "loop_store \<Rightarrow> string \<Rightarrow> drift_row option" where
  "loop_row st key = find (\<lambda>r. sl_key r = key) (ls_loops st)"

definition sourceDriftLoopSync :: "loop_store \<Rightarrow> string \<Rightarrow> int \<Rightarrow> loop_store \<times> (int \<times> int) option" where
  "sourceDriftLoopSync st key now =
     (case loop_row st key of
        None \<Rightarrow> (st, None)
      | Some row \<Rightarrow>
          if sl_updatedAt row \<le> sourceDriftLoopExpiryCutoff now
          then (st\<lparr>ls_loops := filter (\<lambda>r. \<not> (sl_key r = key \<and> sl_updatedAt r \<le> sourceDriftLoopExpiryCutoff now)) (ls_loops st)\<rparr>, None)
          else (st, Some (sl_consecutive row, sl_updatedAt row)))"

definition recordSourceDriftGenerationSync :: "loop_store \<Rightarrow> string \<Rightarrow> int \<Rightarrow> loop_store \<times> int" where
  "recordSourceDriftGenerationSync st0 key now =
     (let st = pruneSourceDriftLoopsSync now st0
      in case loop_row st key of
           None \<Rightarrow> (st\<lparr>ls_loops := ls_loops st @ [\<lparr>sl_key = key, sl_consecutive = 1, sl_updatedAt = now\<rparr>]\<rparr>, 1)
         | Some row \<Rightarrow>
             let n = (if sl_updatedAt row \<le> sourceDriftLoopExpiryCutoff now then 1 else sl_consecutive row + 1)
             in (st\<lparr>ls_loops := update_where (\<lambda>r. sl_key r = key) (\<lambda>r. r\<lparr>sl_consecutive := n, sl_updatedAt := now\<rparr>) (ls_loops st)\<rparr>, n))"

definition markSourceDriftLoopParkedSync :: "loop_store \<Rightarrow> string \<Rightarrow> int \<Rightarrow> loop_store" where
  "markSourceDriftLoopParkedSync st key now =
     st\<lparr>ls_loops := update_where (\<lambda>r. sl_key r = key \<and> sl_updatedAt r > sourceDriftLoopExpiryCutoff now)
          (\<lambda>r. r\<lparr>sl_updatedAt := now\<rparr>) (ls_loops st)\<rparr>"

definition resetSourceDriftLoopSync :: "loop_store \<Rightarrow> string \<Rightarrow> loop_store" where
  "resetSourceDriftLoopSync st key = st\<lparr>ls_loops := filter (\<lambda>r. sl_key r \<noteq> key) (ls_loops st)\<rparr>"

subsection \<open>The generation history\<close>

text \<open>How the storage answers the insert and the pruning after it.\<close>

datatype sql_outcome = SqlOk | InsertFails | PruneFailsAfter nat

text \<open>The stored attempt, and the \<open>INSERT OR IGNORE\<close> on the primary key.\<close>

definition claim_attempt :: "int option \<Rightarrow> int" where
  "claim_attempt runAttempt = (case runAttempt of None \<Rightarrow> 0 | Some a \<Rightarrow> if safe_integer a \<and> a > 0 then a else 0)"

definition insert_generation :: "generation_row \<Rightarrow> loop_store \<Rightarrow> loop_store" where
  "insert_generation row st =
     (if (gr_key row, gr_runId row, gr_runAttempt row)
           \<in> (\<lambda>r. (gr_key r, gr_runId r, gr_runAttempt r)) ` set (ls_generations st) then st
      else st\<lparr>ls_generations := ls_generations st @ [row]\<rparr>)"

definition recordReviewGenerationSafely ::
  "sql_outcome \<Rightarrow> loop_store \<Rightarrow> string \<Rightarrow> string \<Rightarrow> int option \<Rightarrow> int \<Rightarrow> loop_store" where
  "recordReviewGenerationSafely sql st key runId runAttempt now =
     (if \<not> ITEM_KEY_PATTERN key \<or> \<not> (runId \<noteq> [] \<and> list_all is_dec runId) then st
      else
        let inserted = insert_generation
              \<lparr>gr_key = key, gr_runId = runId, gr_runAttempt = claim_attempt runAttempt, gr_claimedAt = now\<rparr> st
        in case sql of
             SqlOk \<Rightarrow> pruneReviewGenerationsSync now inserted
           | InsertFails \<Rightarrow> st
           | PruneFailsAfter n \<Rightarrow> inserted\<lparr>ls_generations := prune_batches (min n PRUNE_MAX_BATCHES) gr_claimedAt
               (now - EXACT_REVIEW_RUNAWAY_WINDOW_MS) (ls_generations inserted)\<rparr>)"

datatype runaway_status = RunawayHealthy | RunawayDegraded

record runaway_health =
  rh_status :: runaway_status
  rh_reviewRunaway :: bool
  rh_windowHours :: int
  rh_threshold :: int
  rh_runawayItems :: nat
  rh_sampleItemKeys :: "string list"

definition claims_in_window :: "loop_store \<Rightarrow> int \<Rightarrow> string \<Rightarrow> generation_row list" where
  "claims_in_window st cutoff key = filter (\<lambda>r. gr_key r = key \<and> gr_claimedAt r > cutoff) (ls_generations st)"

definition runaway_keys :: "loop_store \<Rightarrow> int \<Rightarrow> int \<Rightarrow> string list" where
  "runaway_keys st cutoff threshold =
     filter (\<lambda>key. int (length (claims_in_window st cutoff key)) > threshold)
       (remdups (map gr_key (filter (\<lambda>r. gr_claimedAt r > cutoff) (ls_generations st))))"

definition runaway_order :: "loop_store \<Rightarrow> int \<Rightarrow> string \<Rightarrow> string \<Rightarrow> int" where
  "runaway_order st cutoff a b =
     cmp_or (int (length (claims_in_window st cutoff b)) - int (length (claims_in_window st cutoff a))) (cmp_lin a b)"

definition runawayHealthSync :: "loop_store \<Rightarrow> int \<Rightarrow> int \<Rightarrow> runaway_health" where
  "runawayHealthSync st now threshold =
     (let cutoff = now - EXACT_REVIEW_RUNAWAY_WINDOW_MS;
          runaway = runaway_keys st cutoff threshold;
          samples = take EXACT_REVIEW_RUNAWAY_SAMPLE_LIMIT (js_sort (runaway_order st cutoff) runaway)
      in \<lparr>rh_status = (if runaway \<noteq> [] then RunawayDegraded else RunawayHealthy),
          rh_reviewRunaway = (runaway \<noteq> []),
          rh_windowHours = EXACT_REVIEW_RUNAWAY_WINDOW_MS div (60 * 60 * 1000),
          rh_threshold = threshold,
          rh_runawayItems = length runaway,
          rh_sampleItemKeys = filter ITEM_KEY_PATTERN samples\<rparr>)"

record claim_item =
  ci_repository :: string
  ci_itemNumber :: nat
  ci_claims :: nat
  ci_firstClaimAt :: "string option"
  ci_lastClaimAt :: "string option"
  ci_recentClaims :: "(string option \<times> int option) list"

definition recent_claim_order :: "generation_row \<Rightarrow> generation_row \<Rightarrow> int" where
  "recent_claim_order a b =
     cmp_or (gr_claimedAt b - gr_claimedAt a)
       (cmp_or (cmp_lin (gr_runId b) (gr_runId a)) (gr_runAttempt b - gr_runAttempt a))"

text \<open>The evidence of one sampled key; an out-of-range date, where \<open>toISOString\<close> throws, is \<open>None\<close>.\<close>

definition claim_evidence :: "loop_store \<Rightarrow> int \<Rightarrow> int \<Rightarrow> string \<Rightarrow> claim_item option" where
  "claim_evidence st cutoff threshold key =
     (let rows = claims_in_window st cutoff key;
          at = map gr_claimedAt rows;
          repository = takeWhile (\<lambda>c. c \<noteq> CHR ''#'') key;
          number = takeWhile (\<lambda>c. c \<noteq> CHR ''#'') (tl (dropWhile (\<lambda>c. c \<noteq> CHR ''#'') key))
      in if rows = [] \<or> int (length rows) \<le> threshold \<or> repository = [] \<or> number = [] then None
         else Some \<lparr>ci_repository = repository, ci_itemNumber = dec_value number, ci_claims = length rows,
                    ci_firstClaimAt = toISOString (fold min at (hd at)),
                    ci_lastClaimAt = toISOString (fold max at (hd at)),
                    ci_recentClaims = map (\<lambda>r. (toISOString (gr_claimedAt r),
                        if gr_runAttempt r > 0 then Some (gr_runAttempt r) else None))
                      (take 5 (js_sort recent_claim_order rows))\<rparr>)"

definition warningClaimEvidenceSync :: "loop_store \<Rightarrow> int \<Rightarrow> int \<Rightarrow> nat \<times> claim_item list" where
  "warningClaimEvidenceSync st now threshold =
     (let health = runawayHealthSync st now threshold
      in (rh_runawayItems health,
          List.map_filter (claim_evidence st (now - EXACT_REVIEW_RUNAWAY_WINDOW_MS) threshold) (rh_sampleItemKeys health)))"

subsection \<open>Pruning keeps what is younger than the cutoff\<close>

lemma prune_batch_filter:
  "\<exists>P. fst (prune_batch col cutoff rows) = filter P rows \<and> (\<forall>r\<in>set rows. cutoff < col r \<longrightarrow> P r)"
proof -
  let ?old = "take PRUNE_BATCH (js_sort (\<lambda>a b. cmp_lin (col a) (col b)) (filter (\<lambda>r. col r \<le> cutoff) rows))"
  have young: "r \<notin> set ?old" if "cutoff < col r" for r
  proof
    assume "r \<in> set ?old"
    from in_set_takeD[OF this] that show False by simp
  qed
  have "fst (prune_batch col cutoff rows) = filter (\<lambda>r. r \<notin> set ?old) rows"
    by (simp only: prune_batch_def Let_def fst_conv)
  then show ?thesis using young by blast
qed

lemma prune_batches_filter:
  "\<exists>P. prune_batches n col cutoff rows = filter P rows \<and> (\<forall>r\<in>set rows. cutoff < col r \<longrightarrow> P r)"
proof (induction n arbitrary: rows)
  case 0
  show ?case by (intro exI[of _ "\<lambda>_. True"]) simp
next
  case (Suc n)
  obtain rows' k where b: "prune_batch col cutoff rows = (rows', k)" by fastforce
  with prune_batch_filter[of col cutoff rows] obtain P where P:
    "rows' = filter P rows" "\<forall>r\<in>set rows. cutoff < col r \<longrightarrow> P r" by auto
  from Suc.IH[of rows'] obtain Q where Q:
    "prune_batches n col cutoff rows' = filter Q rows'" "\<forall>r\<in>set rows'. cutoff < col r \<longrightarrow> Q r" by blast
  show ?case
  proof (cases "k < PRUNE_BATCH")
    case True
    with b P show ?thesis by auto
  next
    case False
    with b P Q show ?thesis
      by (intro exI[of _ "\<lambda>r. P r \<and> Q r"]) (auto simp: conj_commute)
  qed
qed



lemma prune_batches_subset: "set (prune_batches n col cutoff rows) \<subseteq> set rows"
  using prune_batches_filter[of n col cutoff rows] by auto

lemma prune_batches_distinct: "distinct (map f rows) \<Longrightarrow> distinct (map f (prune_batches n col cutoff rows))"
  using prune_batches_filter[of n col cutoff rows] by (auto simp: distinct_map_filter)

subsection \<open>The tables' invariant\<close>

abbreviation generation_id :: "generation_row \<Rightarrow> string \<times> string \<times> int" where
  "generation_id r \<equiv> (gr_key r, gr_runId r, gr_runAttempt r)"

definition loop_inv :: "loop_store \<Rightarrow> bool" where
  "loop_inv st \<longleftrightarrow> distinct (map sl_key (ls_loops st)) \<and> list_all (\<lambda>r. 1 \<le> sl_consecutive r) (ls_loops st)
     \<and> distinct (map generation_id (ls_generations st)) \<and> list_all (\<lambda>r. 0 \<le> gr_runAttempt r) (ls_generations st)"

datatype loop_op =
    LoopRead string int
  | LoopRecord string int
  | LoopPark string int
  | LoopReset string
  | LoopClaim sql_outcome string string "int option" int

fun loop_step :: "loop_store \<Rightarrow> loop_op \<Rightarrow> loop_store" where
  "loop_step st (LoopRead key now) = fst (sourceDriftLoopSync st key now)"
| "loop_step st (LoopRecord key now) = fst (recordSourceDriftGenerationSync st key now)"
| "loop_step st (LoopPark key now) = markSourceDriftLoopParkedSync st key now"
| "loop_step st (LoopReset key) = resetSourceDriftLoopSync st key"
| "loop_step st (LoopClaim sql key run attempt now) = recordReviewGenerationSafely sql st key run attempt now"

lemma loop_inv_prune: "loop_inv st \<Longrightarrow> loop_inv (pruneSourceDriftLoopsSync now st)"
  using prune_batches_subset[of PRUNE_MAX_BATCHES sl_updatedAt "sourceDriftLoopExpiryCutoff now" "ls_loops st"]
  by (auto simp: loop_inv_def pruneSourceDriftLoopsSync_def pruneSync_def prune_batches_distinct list_all_iff)

lemma loop_inv_read: "loop_inv st \<Longrightarrow> loop_inv (fst (sourceDriftLoopSync st key now))"
  by (auto simp: sourceDriftLoopSync_def loop_inv_def distinct_map_filter list_all_iff split: option.split)

lemma loop_inv_record:
  assumes "loop_inv st"
  shows "loop_inv (fst (recordSourceDriftGenerationSync st key now))"
proof -
  let ?st = "pruneSourceDriftLoopsSync now st"
  have inv: "loop_inv ?st" using assms by (rule loop_inv_prune)
  show ?thesis
  proof (cases "loop_row ?st key")
    case None
    then have "key \<notin> sl_key ` set (ls_loops ?st)" by (auto simp: loop_row_def dest: find_NoneD)
    with None inv show ?thesis by (simp add: recordSourceDriftGenerationSync_def loop_inv_def Let_def)
  next
    case (Some row)
    then have "1 \<le> sl_consecutive row"
      using inv by (auto simp: loop_row_def loop_inv_def list_all_iff dest: find_SomeD)
    with Some inv show ?thesis
      by (auto simp: recordSourceDriftGenerationSync_def loop_inv_def Let_def map_update_where_same list_all_iff in_set_update_where)
  qed
qed

lemma loop_inv_park: "loop_inv st \<Longrightarrow> loop_inv (markSourceDriftLoopParkedSync st key now)"
  by (auto simp: markSourceDriftLoopParkedSync_def loop_inv_def map_update_where_same list_all_iff in_set_update_where)

lemma loop_inv_insert: "loop_inv st \<Longrightarrow> 0 \<le> gr_runAttempt row \<Longrightarrow> loop_inv (insert_generation row st)"
  by (auto simp: insert_generation_def loop_inv_def)

lemma loop_inv_prune_generations:
  "loop_inv st \<Longrightarrow> loop_inv (st\<lparr>ls_generations := prune_batches n col cutoff (ls_generations st)\<rparr>)"
  using prune_batches_subset[of n col cutoff "ls_generations st"]
  by (auto simp: loop_inv_def prune_batches_distinct list_all_iff)

lemma claim_attempt_nonneg [simp]: "0 \<le> claim_attempt a"
  by (simp add: claim_attempt_def split: option.split)

lemma loop_inv_claim:
  assumes "loop_inv st"
  shows "loop_inv (recordReviewGenerationSafely sql st key runId runAttempt now)"
  by (cases sql)
    (simp_all add: recordReviewGenerationSafely_def Let_def pruneReviewGenerationsSync_def pruneSync_def
      loop_inv_prune_generations loop_inv_insert assms)

interpretation review_loops: invariant_machine loop_step empty_loop_store loop_inv
proof unfold_locales
  show "loop_inv empty_loop_store" by (simp add: loop_inv_def empty_loop_store_def)
  fix st x assume inv: "loop_inv st"
  show "loop_inv (loop_step st x)"
    by (cases x) (use inv in \<open>auto simp: loop_inv_read loop_inv_record loop_inv_park loop_inv_claim\<close>,
       auto simp: loop_inv_def resetSourceDriftLoopSync_def distinct_map_filter list_all_iff)
qed

interpretation claim_sort: js_comparator recent_claim_order
  by unfold_locales (auto simp: recent_claim_order_def cmp_or_le_iff)


subsection \<open>The counter as a client sees it\<close>

definition live_loop :: "loop_store \<Rightarrow> string \<Rightarrow> int \<Rightarrow> (int \<times> int) option" where
  "live_loop st key now =
     map_option (\<lambda>r. (sl_consecutive r, sl_updatedAt r))
       (find (\<lambda>r. sl_key r = key \<and> sl_updatedAt r > sourceDriftLoopExpiryCutoff now) (ls_loops st))"

lemma keyed_find:
  assumes "distinct (map sl_key rows)"
  shows "find (\<lambda>r. sl_key r = key \<and> q r) rows =
    (case find (\<lambda>r. sl_key r = key) rows of None \<Rightarrow> None | Some r \<Rightarrow> if q r then Some r else None)"
  using assms
proof (induction rows)
  case (Cons x rows)
  show ?case
  proof (cases "sl_key x = key")
    case True
    with Cons.prems have "find (\<lambda>r. sl_key r = key \<and> q r) rows = None"
      by (auto simp: find_None_iff) (metis imageI)
    with True show ?thesis by simp
  next
    case False
    with Cons show ?thesis by simp
  qed
qed simp

lemma live_loop_keyed:
  "distinct (map sl_key (ls_loops st)) \<Longrightarrow>
     live_loop st k later = map_option (\<lambda>r. (sl_consecutive r, sl_updatedAt r))
       (case find (\<lambda>r. sl_key r = k) (ls_loops st) of None \<Rightarrow> None
        | Some r \<Rightarrow> if sl_updatedAt r > sourceDriftLoopExpiryCutoff later then Some r else None)"
  by (simp only: live_loop_def keyed_find)

lemma sourceDriftLoop_live: "loop_inv st \<Longrightarrow> snd (sourceDriftLoopSync st key now) = live_loop st key now"
  by (auto simp: sourceDriftLoopSync_def live_loop_def loop_inv_def loop_row_def keyed_find split: option.split)

lemma find_filter_same: "(\<And>r. r \<in> set rows \<Longrightarrow> q r \<Longrightarrow> p r) \<Longrightarrow> find q (filter p rows) = find q rows"
  by (induction rows) auto

lemma live_loop_read: "live_loop (fst (sourceDriftLoopSync st key now)) k now = live_loop st k now"
proof (cases "loop_row st key")
  case (Some row)
  have "find (\<lambda>r. sl_key r = k \<and> sourceDriftLoopExpiryCutoff now < sl_updatedAt r)
      (filter (\<lambda>r. \<not> (sl_key r = key \<and> sl_updatedAt r \<le> sourceDriftLoopExpiryCutoff now)) (ls_loops st))
    = find (\<lambda>r. sl_key r = k \<and> sourceDriftLoopExpiryCutoff now < sl_updatedAt r) (ls_loops st)"
    by (rule find_filter_same) auto
  with Some show ?thesis by (simp add: sourceDriftLoopSync_def live_loop_def del: de_Morgan_conj)
qed (simp add: sourceDriftLoopSync_def)

lemma live_loop_prune: "live_loop (pruneSourceDriftLoopsSync now st) k now = live_loop st k now"
proof -
  obtain P where "ls_loops (pruneSourceDriftLoopsSync now st) = filter P (ls_loops st)"
    "\<forall>r\<in>set (ls_loops st). sourceDriftLoopExpiryCutoff now < sl_updatedAt r \<longrightarrow> P r"
    using prune_batches_filter[of PRUNE_MAX_BATCHES sl_updatedAt "sourceDriftLoopExpiryCutoff now" "ls_loops st"]
    by (auto simp: pruneSourceDriftLoopsSync_def pruneSync_def)
  moreover from this(2) have "find (\<lambda>r. sl_key r = k \<and> sourceDriftLoopExpiryCutoff now < sl_updatedAt r) (filter P (ls_loops st))
    = find (\<lambda>r. sl_key r = k \<and> sourceDriftLoopExpiryCutoff now < sl_updatedAt r) (ls_loops st)"
    by (intro find_filter_same) auto
  ultimately show ?thesis by (simp add: live_loop_def)
qed

lemma record_live:
  assumes "loop_inv st"
  shows "snd (recordSourceDriftGenerationSync st key now) = (case live_loop st key now of None \<Rightarrow> 1 | Some (n, _) \<Rightarrow> n + 1)"
    and "live_loop (fst (recordSourceDriftGenerationSync st key now)) k later =
      (if k = key then if sourceDriftLoopExpiryCutoff later < now then Some (snd (recordSourceDriftGenerationSync st key now), now) else None
       else live_loop (pruneSourceDriftLoopsSync now st) k later)"
proof -
  let ?st = "pruneSourceDriftLoopsSync now st"
  have inv: "distinct (map sl_key (ls_loops ?st))" using loop_inv_prune[OF assms] by (simp add: loop_inv_def)
  have live: "live_loop st key now = live_loop ?st key now" by (simp add: live_loop_prune)
  show "snd (recordSourceDriftGenerationSync st key now) = (case live_loop st key now of None \<Rightarrow> 1 | Some (n, _) \<Rightarrow> n + 1)"
    unfolding live by (auto simp: live_loop_def recordSourceDriftGenerationSync_def Let_def loop_row_def keyed_find[OF inv] split: option.split)
  show "live_loop (fst (recordSourceDriftGenerationSync st key now)) k later =
      (if k = key then if sourceDriftLoopExpiryCutoff later < now then Some (snd (recordSourceDriftGenerationSync st key now), now) else None
       else live_loop ?st k later)"
  proof (cases "loop_row ?st key")
    case None
    then have none: "find (\<lambda>r. sl_key r = key) (ls_loops ?st) = None" by (simp add: loop_row_def)
    have app: "live_loop (?st\<lparr>ls_loops := ls_loops ?st @ [\<lparr>sl_key = key, sl_consecutive = 1, sl_updatedAt = now\<rparr>]\<rparr>) k later =
        (if k = key then if sourceDriftLoopExpiryCutoff later < now then Some (1, now) else None else live_loop ?st k later)"
    proof (cases "k = key")
      case True
      have "find (\<lambda>r. sl_key r = key \<and> sourceDriftLoopExpiryCutoff later < sl_updatedAt r) (ls_loops ?st) = None"
        by (simp add: keyed_find[OF inv] none)
      then show ?thesis using True by (simp add: live_loop_def find_append_None)
    next
      case False
      have "find q (xs @ [x]) = find q xs" if "\<not> q x" for q xs and x :: drift_row
        using that by (induction xs) auto
      with False show ?thesis by (simp add: live_loop_def)
    qed
    from None show ?thesis by (simp add: recordSourceDriftGenerationSync_def Let_def app)
  next
    case (Some row)
    let ?n = "if sl_updatedAt row \<le> sourceDriftLoopExpiryCutoff now then 1 else sl_consecutive row + 1"
    let ?up = "update_where (\<lambda>r. sl_key r = key) (\<lambda>r. r\<lparr>sl_consecutive := ?n, sl_updatedAt := now\<rparr>) (ls_loops ?st)"
    have dist: "distinct (map sl_key ?up)" using inv by (simp add: map_update_where_same)
    have find: "find (\<lambda>r. sl_key r = k) ?up = map_option (\<lambda>r. if sl_key r = key then r\<lparr>sl_consecutive := ?n, sl_updatedAt := now\<rparr> else r)
        (find (\<lambda>r. sl_key r = k) (ls_loops ?st))"
      by (rule find_update_where) simp
    have f: "find (\<lambda>r. sl_key r = key) (ls_loops ?st) = Some row" using Some by (simp add: loop_row_def)
    have rec: "recordSourceDriftGenerationSync st key now = (?st\<lparr>ls_loops := ?up\<rparr>, ?n)"
      using Some by (simp add: recordSourceDriftGenerationSync_def Let_def)
    have "live_loop (?st\<lparr>ls_loops := ?up\<rparr>) k later =
        (if k = key then if sourceDriftLoopExpiryCutoff later < now then Some (?n, now) else None else live_loop ?st k later)"
    proof (cases "k = key")
      case True
      have "find (\<lambda>r. sl_key r = key) (ls_loops ?st) = Some row" "sl_key row = key" using f find_SomeD[OF f] by simp_all
      with True find show ?thesis by (simp add: live_loop_def keyed_find[OF dist])
    next
      case False
      have "find (\<lambda>r. sl_key r = k) ?up = find (\<lambda>r. sl_key r = k) (ls_loops ?st)"
      proof (cases "find (\<lambda>r. sl_key r = k) (ls_loops ?st)")
        case (Some r)
        with find_SomeD[OF this] False show ?thesis by (simp only: find) simp
      qed (simp only: find, simp)
      with False live_loop_keyed[of "?st\<lparr>ls_loops := ?up\<rparr>" k later] live_loop_keyed[of ?st k later] dist inv
      show ?thesis by simp
    qed
    then show ?thesis by (simp only: rec fst_conv snd_conv)
  qed
qed

lemma live_loop_park:
  assumes "loop_inv st" "live_loop st key now = Some (n, at)" "sourceDriftLoopExpiryCutoff later < now"
  shows "live_loop (markSourceDriftLoopParkedSync st key now) key later = Some (n, now)"
proof -
  let ?st = "markSourceDriftLoopParkedSync st key now"
  have dist: "distinct (map sl_key (ls_loops st))" using assms(1) by (simp add: loop_inv_def)
  obtain r where r: "find (\<lambda>r. sl_key r = key) (ls_loops st) = Some r"
    "sourceDriftLoopExpiryCutoff now < sl_updatedAt r" "sl_consecutive r = n"
    using assms(2) by (auto simp: live_loop_keyed[OF dist] split: option.splits if_splits)
  have "find (\<lambda>r. sl_key r = key) (ls_loops ?st) = map_option
      (\<lambda>r. if sl_key r = key \<and> sl_updatedAt r > sourceDriftLoopExpiryCutoff now then r\<lparr>sl_updatedAt := now\<rparr> else r)
      (find (\<lambda>r. sl_key r = key) (ls_loops st))"
    by (simp add: markSourceDriftLoopParkedSync_def find_update_where)
  moreover have "distinct (map sl_key (ls_loops ?st))" using loop_inv_park[OF assms(1)] by (simp add: loop_inv_def)
  ultimately show ?thesis using r find_SomeD[OF r(1)] assms(3) by (simp add: live_loop_keyed)
qed

text \<open>The key's counter stands at \<open>c\<close> since \<open>t\<close>.\<close>

definition counter_at :: "loop_store \<Rightarrow> string \<Rightarrow> int \<Rightarrow> int \<Rightarrow> bool" where
  "counter_at st key c t \<longleftrightarrow>
     loop_inv st \<and> (\<forall>later. sourceDriftLoopExpiryCutoff later < t \<longrightarrow> live_loop st key later = Some (c, t))"

lemma counter_record:
  assumes "loop_inv st"
  shows "counter_at (fst (recordSourceDriftGenerationSync st key now)) key
    (case live_loop st key now of None \<Rightarrow> 1 | Some (n, _) \<Rightarrow> n + 1) now"
  using record_live[OF assms, of key now] loop_inv_record[OF assms, of key now] by (simp add: counter_at_def)

subsection \<open>Properties\<close>













end
