(* ===== verification/Publication_Retry.thy ===== *)
theory Publication_Retry
  imports Js_Text "HOL-Library.Word"
begin

text \<open>
  Retries of failed publications (\<open>dashboard/exact-review-publication-retry.ts\<close>,
  \<open>dashboard/exact-review-publication-reasons.ts\<close>): the vocabulary of completions, when a
  retry budget is spent, and the delay before the next attempt, whose jitter is a 32-bit hash
  of the item key and the attempt.
\<close>

subsection \<open>Completions\<close>

datatype completion_kind =
  KindPublished | KindSuperseded | KindDeferred | KindRetryable | KindRefreshRequired | KindPermanent

datatype reason_code =
    PublicationApplied | RemoteNewerTuple | RemoteClosed | LiveTerminal
  | GithubRateLimit | GithubTransient | StateContention | ReviewLeaseActive | WorkflowCancelled
  | ArtifactUnavailable | ArtifactExpired | CloseCoverageRetry | CloseCoverageDeferred
  | InvalidArtifact | MissingRecordTuple | TupleProtocolInvalid | PolicyInvariant
  | UnknownFailure | RetryExhausted

datatype pool_class = RepositoryActions | TargetApp

record publication_completion =
  pc_kind :: completion_kind
  pc_reasonCode :: reason_code
  pc_errorFingerprint :: "string option"
  pc_attempted :: "bool option"
  pc_poolClass :: "pool_class option"

definition EXACT_REVIEW_PUBLICATION_REASONS :: "completion_kind \<Rightarrow> reason_code list" where
  "EXACT_REVIEW_PUBLICATION_REASONS k =
     (case k of
        KindPublished \<Rightarrow> [PublicationApplied]
      | KindSuperseded \<Rightarrow> [RemoteNewerTuple, RemoteClosed, LiveTerminal]
      | KindRetryable \<Rightarrow> [GithubRateLimit, GithubTransient, StateContention, ReviewLeaseActive,
                           WorkflowCancelled, ArtifactUnavailable, UnknownFailure]
      | KindRefreshRequired \<Rightarrow> [ArtifactUnavailable, ArtifactExpired, CloseCoverageRetry, InvalidArtifact]
      | KindDeferred \<Rightarrow> [CloseCoverageDeferred]
      | KindPermanent \<Rightarrow> [InvalidArtifact, MissingRecordTuple, TupleProtocolInvalid, PolicyInvariant,
                           UnknownFailure, RetryExhausted])"

subsection \<open>Budgets and delays\<close>

definition TRANSIENT_RETRY_MAX_AGE_MS :: int where "TRANSIENT_RETRY_MAX_AGE_MS = 24 * 60 * 60 * 1000"
definition UNKNOWN_RETRY_MAX_AGE_MS :: int where "UNKNOWN_RETRY_MAX_AGE_MS = 60 * 60 * 1000"
definition TRANSIENT_RETRY_LIMIT :: int where "TRANSIENT_RETRY_LIMIT = 48"
definition PERMANENT_RETRY_LIMIT :: int where "PERMANENT_RETRY_LIMIT = 3"
definition UNKNOWN_RETRY_LIMIT :: int where "UNKNOWN_RETRY_LIMIT = 14"
definition NORMAL_RETRY_MAX_MS :: int where "NORMAL_RETRY_MAX_MS = 5 * 60000"
definition RATE_LIMIT_RETRY_MAX_MS :: int where "RATE_LIMIT_RETRY_MAX_MS = 60 * 60000"

lemmas retry_consts = TRANSIENT_RETRY_MAX_AGE_MS_def UNKNOWN_RETRY_MAX_AGE_MS_def TRANSIENT_RETRY_LIMIT_def
  PERMANENT_RETRY_LIMIT_def UNKNOWN_RETRY_LIMIT_def NORMAL_RETRY_MAX_MS_def RATE_LIMIT_RETRY_MAX_MS_def

definition exactReviewPublicationRetryExhausted ::
  "completion_kind \<Rightarrow> reason_code \<Rightarrow> int \<Rightarrow> int \<Rightarrow> int \<Rightarrow> bool" where
  "exactReviewPublicationRetryExhausted kind reason attempt firstFailureAt now =
     (if kind = KindRetryable then
        if reason = ArtifactUnavailable then False
        else if reason = UnknownFailure
        then attempt \<ge> UNKNOWN_RETRY_LIMIT \<or> now \<ge> firstFailureAt + UNKNOWN_RETRY_MAX_AGE_MS
        else attempt \<ge> TRANSIENT_RETRY_LIMIT \<or> now \<ge> firstFailureAt + TRANSIENT_RETRY_MAX_AGE_MS
      else if kind \<noteq> KindPermanent then False
      else if reason = UnknownFailure
      then attempt \<ge> UNKNOWN_RETRY_LIMIT \<or> now \<ge> firstFailureAt + UNKNOWN_RETRY_MAX_AGE_MS
      else attempt \<ge> PERMANENT_RETRY_LIMIT)"

text \<open>\<open>(current * 33 + charCode) >>> 0\<close> from 5381: arithmetic on 32-bit words.\<close>

definition retry_hash :: "string \<Rightarrow> 32 word" where
  "retry_hash s = foldl (\<lambda>current c. current * 33 + word_of_nat (of_char c)) 5381 s"

definition retry_backoff :: "completion_kind \<Rightarrow> reason_code \<Rightarrow> int \<Rightarrow> int" where
  "retry_backoff kind reason attempt =
     min (if reason = GithubRateLimit then RATE_LIMIT_RETRY_MAX_MS else NORMAL_RETRY_MAX_MS)
       (if kind = KindPermanent \<and> reason \<noteq> UnknownFailure
        then (if attempt \<le> 1 then 60000 else NORMAL_RETRY_MAX_MS)
        else 60000 * 2 ^ nat (min (max (attempt - 1) 0) 6))"

definition exactReviewPublicationRetryDelayMs ::
  "string \<Rightarrow> completion_kind \<Rightarrow> reason_code \<Rightarrow> int \<Rightarrow> int" where
  "exactReviewPublicationRetryDelayMs itemKey kind reason attempt =
     (let delay = retry_backoff kind reason attempt;
          hash = retry_hash (itemKey @ '':'' @ int_str attempt)
      in delay + delay * (uint hash mod 21) div 100)"

text \<open>
  \<open>exactReviewCredentialRecoveryJitterMs\<close> spreads the items of one credential pool: the
  32-bit FNV-1a hash of the key, \<open>Math.imul\<close> being multiplication of 32-bit words.
\<close>

definition fnv_hash :: "string \<Rightarrow> 32 word" where
  "fnv_hash s = foldl (\<lambda>hash c. (xor hash (word_of_nat (of_char c))) * 16777619) 2166136261 s"

definition exactReviewCredentialRecoveryJitterMs :: "string \<Rightarrow> int" where
  "exactReviewCredentialRecoveryJitterMs itemKey = 1000 + uint (fnv_hash itemKey) mod 29001"

datatype attempt_bucket = Bucket0 | Bucket1 | Bucket2 | Bucket3_5 | Bucket6_13 | Bucket14Plus | BucketUnknown

definition exactReviewPublicationAttemptBucket :: "int \<Rightarrow> attempt_bucket" where
  "exactReviewPublicationAttemptBucket attempt =
     (if \<not> safe_integer attempt \<or> attempt < 0 then BucketUnknown
      else if attempt \<le> 2 then (if attempt = 0 then Bucket0 else if attempt = 1 then Bucket1 else Bucket2)
      else if attempt \<le> 5 then Bucket3_5
      else if attempt \<le> 13 then Bucket6_13
      else Bucket14Plus)"

subsection \<open>Lemmas\<close>

lemma retry_backoff_bounds:
  "60000 \<le> retry_backoff kind reason attempt"
  "retry_backoff kind reason attempt \<le> (if reason = GithubRateLimit then RATE_LIMIT_RETRY_MAX_MS else NORMAL_RETRY_MAX_MS)"
proof -
  have "(1::int) \<le> 2 ^ nat (min (max (attempt - 1) 0) 6)" by simp
  then show "60000 \<le> retry_backoff kind reason attempt"
    by (auto simp: retry_backoff_def retry_consts min_def)
qed (simp add: retry_backoff_def)

lemma retry_backoff_mono:
  assumes "a \<le> b"
  shows "retry_backoff kind reason a \<le> retry_backoff kind reason b"
proof -
  have "(2::int) ^ nat (min (max (a - 1) 0) 6) \<le> 2 ^ nat (min (max (b - 1) 0) 6)"
    using assms by (intro power_increasing nat_mono) (auto simp: min_def max_def)
  with assms show ?thesis unfolding retry_backoff_def
    by (intro min.mono order.refl) (auto simp: retry_consts)
qed

lemma jitter_fraction: "0 \<le> (d::int) \<Longrightarrow> 0 \<le> uint (h :: 32 word) mod 21 \<and> d * (uint h mod 21) div 100 \<le> d div 5
   \<and> 0 \<le> d * (uint h mod 21) div 100"
proof -
  assume d: "0 \<le> d"
  have m: "0 \<le> uint h mod 21" "uint h mod 21 \<le> 20"
    using pos_mod_bound[of 21 "uint h"] by simp_all
  have "d * (uint h mod 21) \<le> d * 20" using d m by (intro mult_left_mono) auto
  then have "d * (uint h mod 21) div 100 \<le> d * 20 div 100" by (rule zdiv_mono1) simp
  also have "d * 20 div 100 = d div 5" using div_mult_mult2[of 20 d 5] by (simp add: mult.commute)
  finally show ?thesis using m d by (simp add: pos_imp_zdiv_nonneg_iff)
qed

lemma jitter_bounds: "1000 \<le> exactReviewCredentialRecoveryJitterMs k" "exactReviewCredentialRecoveryJitterMs k \<le> 30000"
  using pos_mod_bound[of 29001 "uint (fnv_hash k)"] pos_mod_sign[of 29001 "uint (fnv_hash k)"]
  by (simp_all add: exactReviewCredentialRecoveryJitterMs_def)

subsection \<open>Properties\<close>

text \<open>
  The publication retry delay stays in its band: never below a minute, at least the
  exponential backoff of the attempt and at most a fifth above it, so at most six minutes, or
  seventy-two for a rate limit; and the backoff it is built on never shrinks with the attempt.
\<close>

theorem retry_delay_bounds:
  "60000 \<le> exactReviewPublicationRetryDelayMs key kind reason attempt
   \<and> retry_backoff kind reason attempt \<le> exactReviewPublicationRetryDelayMs key kind reason attempt
   \<and> exactReviewPublicationRetryDelayMs key kind reason attempt
       \<le> retry_backoff kind reason attempt + retry_backoff kind reason attempt div 5
   \<and> exactReviewPublicationRetryDelayMs key kind reason attempt
       \<le> (if reason = GithubRateLimit then 72 * 60000 else 6 * 60000)
   \<and> retry_backoff kind reason attempt \<le> retry_backoff kind reason (attempt + 1)"
proof -
  let ?d = "retry_backoff kind reason attempt"
  let ?h = "retry_hash (key @ '':'' @ int_str attempt)"
  have delay: "exactReviewPublicationRetryDelayMs key kind reason attempt = ?d + ?d * (uint ?h mod 21) div 100"
    by (simp add: exactReviewPublicationRetryDelayMs_def Let_def)
  have d: "60000 \<le> ?d" "?d \<le> (if reason = GithubRateLimit then RATE_LIMIT_RETRY_MAX_MS else NORMAL_RETRY_MAX_MS)"
    by (rule retry_backoff_bounds)+
  then have j: "0 \<le> ?d * (uint ?h mod 21) div 100" "?d * (uint ?h mod 21) div 100 \<le> ?d div 5"
    using jitter_fraction[of ?d ?h] by simp_all
  have top: "?d + ?d div 5 \<le> (if reason = GithubRateLimit then 72 * 60000 else 6 * 60000)"
    using d(2) by (simp add: retry_consts split: if_splits)
  show ?thesis using d(1) j top retry_backoff_mono[of attempt "attempt + 1" kind reason]
    unfolding delay by (intro conjI) (simp, simp, simp, linarith, simp)
qed

end
