(* ===== verification/Queue_Settings.thy ===== *)
theory Queue_Settings
  imports Js_Number
begin

text \<open>
  The settings of the exact-review queue (\<open>dashboard/exact-review-queue.ts\<close>,
  \<open>dashboard/exact-review-queue-shared.ts\<close>): every environment variable the queue reads as a
  number, with its default and its clamps. The environment maps a name to its text; a number
  that is no integer is read as its floor, and text that is no finite number as the fallback.
\<close>

type_synonym env = "string \<Rightarrow> string option"

definition numberFrom :: "string option \<Rightarrow> int \<Rightarrow> int" where
  "numberFrom value fallback =
     (case value of None \<Rightarrow> fallback
      | Some s \<Rightarrow> (case js_floor s of None \<Rightarrow> fallback | Some n \<Rightarrow> n))"

subsection \<open>Concurrency\<close>

definition DEFAULT_EXACT_REVIEW_QUEUE_MAX_CONCURRENT :: int where "DEFAULT_EXACT_REVIEW_QUEUE_MAX_CONCURRENT = 32"
definition DEFAULT_EXACT_REVIEW_TARGET_MAX_CONCURRENT :: int where "DEFAULT_EXACT_REVIEW_TARGET_MAX_CONCURRENT = 24"
definition DEFAULT_EXACT_REVIEW_SCHEDULED_MAX_CONCURRENT :: int where "DEFAULT_EXACT_REVIEW_SCHEDULED_MAX_CONCURRENT = 8"
definition DEFAULT_EXACT_REVIEW_ACTIONS_BUDGET :: int where "DEFAULT_EXACT_REVIEW_ACTIONS_BUDGET = 194"
definition DEFAULT_EXACT_REVIEW_PUBLICATION_MIN_CONCURRENT :: int where "DEFAULT_EXACT_REVIEW_PUBLICATION_MIN_CONCURRENT = 4"
definition DEFAULT_EXACT_REVIEW_PUBLICATION_BASE_CONCURRENT :: int where "DEFAULT_EXACT_REVIEW_PUBLICATION_BASE_CONCURRENT = 24"
definition DEFAULT_EXACT_REVIEW_PUBLICATION_MAX_CONCURRENT :: int where "DEFAULT_EXACT_REVIEW_PUBLICATION_MAX_CONCURRENT = 48"
definition DEFAULT_EXACT_REVIEW_PUBLICATION_RECOVERY_SUCCESSES :: int where "DEFAULT_EXACT_REVIEW_PUBLICATION_RECOVERY_SUCCESSES = 10"

lemmas concurrency_defaults = DEFAULT_EXACT_REVIEW_QUEUE_MAX_CONCURRENT_def DEFAULT_EXACT_REVIEW_TARGET_MAX_CONCURRENT_def
  DEFAULT_EXACT_REVIEW_SCHEDULED_MAX_CONCURRENT_def DEFAULT_EXACT_REVIEW_ACTIONS_BUDGET_def
  DEFAULT_EXACT_REVIEW_PUBLICATION_MIN_CONCURRENT_def DEFAULT_EXACT_REVIEW_PUBLICATION_BASE_CONCURRENT_def
  DEFAULT_EXACT_REVIEW_PUBLICATION_MAX_CONCURRENT_def DEFAULT_EXACT_REVIEW_PUBLICATION_RECOVERY_SUCCESSES_def

definition exactReviewQueueCapacity :: "env \<Rightarrow> int" where
  "exactReviewQueueCapacity env =
     max 1 (min (numberFrom (env ''EXACT_REVIEW_ACTIONS_BUDGET'') DEFAULT_EXACT_REVIEW_ACTIONS_BUDGET)
                (numberFrom (env ''EXACT_REVIEW_QUEUE_MAX_CONCURRENT'') DEFAULT_EXACT_REVIEW_QUEUE_MAX_CONCURRENT))"

definition exactReviewTargetCapacity :: "env \<Rightarrow> int" where
  "exactReviewTargetCapacity env =
     max 1 (min (exactReviewQueueCapacity env)
                (numberFrom (env ''EXACT_REVIEW_TARGET_MAX_CONCURRENT'') DEFAULT_EXACT_REVIEW_TARGET_MAX_CONCURRENT))"

definition exactReviewScheduledCapacity :: "env \<Rightarrow> int" where
  "exactReviewScheduledCapacity env =
     max 1 (min (exactReviewQueueCapacity env)
                (numberFrom (env ''EXACT_REVIEW_SCHEDULED_MAX_CONCURRENT'') DEFAULT_EXACT_REVIEW_SCHEDULED_MAX_CONCURRENT))"

definition exactReviewPublicationMaximum :: "env \<Rightarrow> int" where
  "exactReviewPublicationMaximum env =
     max 1 (min (exactReviewQueueCapacity env)
                (numberFrom (env ''EXACT_REVIEW_PUBLICATION_MAX_CONCURRENT'') DEFAULT_EXACT_REVIEW_PUBLICATION_MAX_CONCURRENT))"

definition exactReviewPublicationMinimum :: "env \<Rightarrow> int \<Rightarrow> int" where
  "exactReviewPublicationMinimum env maximum =
     min maximum (max 1 (numberFrom (env ''EXACT_REVIEW_PUBLICATION_MIN_CONCURRENT'') DEFAULT_EXACT_REVIEW_PUBLICATION_MIN_CONCURRENT))"

definition exactReviewPublicationBase :: "env \<Rightarrow> int \<Rightarrow> int" where
  "exactReviewPublicationBase env maximum =
     max (exactReviewPublicationMinimum env maximum)
       (min maximum (numberFrom (env ''EXACT_REVIEW_PUBLICATION_BASE_CONCURRENT'') DEFAULT_EXACT_REVIEW_PUBLICATION_BASE_CONCURRENT))"

definition exactReviewPublicationRecoverySuccesses :: "env \<Rightarrow> int" where
  "exactReviewPublicationRecoverySuccesses env =
     max 1 (min 1000 (numberFrom (env ''EXACT_REVIEW_PUBLICATION_RECOVERY_SUCCESSES'') DEFAULT_EXACT_REVIEW_PUBLICATION_RECOVERY_SUCCESSES))"

subsection \<open>Leases\<close>

definition DEFAULT_EXACT_REVIEW_DISPATCH_LEASE_MS :: int where "DEFAULT_EXACT_REVIEW_DISPATCH_LEASE_MS = 6 * 60 * 1000"
definition DEFAULT_EXACT_REVIEW_PUBLICATION_DISPATCH_LEASE_MS :: int where
  "DEFAULT_EXACT_REVIEW_PUBLICATION_DISPATCH_LEASE_MS = 15 * 60 * 1000"
definition DEFAULT_EXACT_REVIEW_EXECUTION_LEASE_MS :: int where "DEFAULT_EXACT_REVIEW_EXECUTION_LEASE_MS = 130 * 60 * 1000"
definition DEFAULT_EXACT_REVIEW_HEARTBEAT_GRACE_MS :: int where "DEFAULT_EXACT_REVIEW_HEARTBEAT_GRACE_MS = 20 * 60 * 1000"
definition DEFAULT_EXACT_REVIEW_PUBLICATION_BATCH_LEASE_MS :: int where
  "DEFAULT_EXACT_REVIEW_PUBLICATION_BATCH_LEASE_MS = 30 * 60 * 1000"

lemmas lease_defaults = DEFAULT_EXACT_REVIEW_DISPATCH_LEASE_MS_def DEFAULT_EXACT_REVIEW_PUBLICATION_DISPATCH_LEASE_MS_def
  DEFAULT_EXACT_REVIEW_EXECUTION_LEASE_MS_def DEFAULT_EXACT_REVIEW_HEARTBEAT_GRACE_MS_def
  DEFAULT_EXACT_REVIEW_PUBLICATION_BATCH_LEASE_MS_def

definition exactReviewDispatchLeaseMs :: "env \<Rightarrow> int" where
  "exactReviewDispatchLeaseMs env =
     max 60000 (numberFrom (env ''EXACT_REVIEW_DISPATCH_LEASE_MS'') DEFAULT_EXACT_REVIEW_DISPATCH_LEASE_MS)"

definition exactReviewPublicationDispatchLeaseMs :: "env \<Rightarrow> int" where
  "exactReviewPublicationDispatchLeaseMs env =
     max (exactReviewDispatchLeaseMs env) DEFAULT_EXACT_REVIEW_PUBLICATION_DISPATCH_LEASE_MS"

definition exactReviewPublicationBatchLeaseMs :: "env \<Rightarrow> int" where
  "exactReviewPublicationBatchLeaseMs env =
     max 60000 (min (2 * 60 * 60 * 1000)
       (numberFrom (env ''EXACT_REVIEW_PUBLICATION_BATCH_LEASE_MS'') DEFAULT_EXACT_REVIEW_PUBLICATION_BATCH_LEASE_MS))"

definition exactReviewExecutionLeaseMs :: "env \<Rightarrow> int" where
  "exactReviewExecutionLeaseMs env =
     max 60000 (numberFrom (env ''EXACT_REVIEW_EXECUTION_LEASE_MS'') DEFAULT_EXACT_REVIEW_EXECUTION_LEASE_MS)"

definition exactReviewHeartbeatGraceMs :: "env \<Rightarrow> int" where
  "exactReviewHeartbeatGraceMs env =
     max 420000 (numberFrom (env ''EXACT_REVIEW_HEARTBEAT_GRACE_MS'') DEFAULT_EXACT_REVIEW_HEARTBEAT_GRACE_MS)"

subsection \<open>Publication batches\<close>

definition DEFAULT_EXACT_REVIEW_PUBLICATION_BATCH_SIZE :: int where "DEFAULT_EXACT_REVIEW_PUBLICATION_BATCH_SIZE = 8"
definition MAX_EXACT_REVIEW_PUBLICATION_BATCH_SIZE :: int where "MAX_EXACT_REVIEW_PUBLICATION_BATCH_SIZE = 32"
definition DEFAULT_EXACT_REVIEW_PUBLICATION_BATCH_WAIT_MS :: int where "DEFAULT_EXACT_REVIEW_PUBLICATION_BATCH_WAIT_MS = 60000"
definition DEFAULT_EXACT_REVIEW_PUBLICATION_BATCH_DISPATCH_COOLDOWN_MS :: int where
  "DEFAULT_EXACT_REVIEW_PUBLICATION_BATCH_DISPATCH_COOLDOWN_MS = 30000"
definition DEFAULT_EXACT_REVIEW_PUBLICATION_BATCH_DISPATCH_RESERVATION_MS :: int where
  "DEFAULT_EXACT_REVIEW_PUBLICATION_BATCH_DISPATCH_RESERVATION_MS = 10 * 60000"
definition DEFAULT_EXACT_REVIEW_PUBLICATION_FRESH_LANE_MAX_ITEMS :: int where
  "DEFAULT_EXACT_REVIEW_PUBLICATION_FRESH_LANE_MAX_ITEMS = 2"
definition DEFAULT_EXACT_REVIEW_PUBLICATION_FRESH_LANE_MAX_AGE_MS :: int where
  "DEFAULT_EXACT_REVIEW_PUBLICATION_FRESH_LANE_MAX_AGE_MS = 15 * 60000"

lemmas batch_defaults = DEFAULT_EXACT_REVIEW_PUBLICATION_BATCH_SIZE_def MAX_EXACT_REVIEW_PUBLICATION_BATCH_SIZE_def
  DEFAULT_EXACT_REVIEW_PUBLICATION_BATCH_WAIT_MS_def DEFAULT_EXACT_REVIEW_PUBLICATION_BATCH_DISPATCH_COOLDOWN_MS_def
  DEFAULT_EXACT_REVIEW_PUBLICATION_BATCH_DISPATCH_RESERVATION_MS_def
  DEFAULT_EXACT_REVIEW_PUBLICATION_FRESH_LANE_MAX_ITEMS_def DEFAULT_EXACT_REVIEW_PUBLICATION_FRESH_LANE_MAX_AGE_MS_def

text \<open>\<open>String(value || "").trim() === "1"\<close>\<close>

definition switched_on :: "string option \<Rightarrow> bool" where
  "switched_on v \<longleftrightarrow> js_trim (str_or_empty v) = ''1''"

definition exactReviewPublicationBatchingEnabled :: "env \<Rightarrow> bool" where
  "exactReviewPublicationBatchingEnabled env \<longleftrightarrow> switched_on (env ''EXACT_REVIEW_PUBLICATION_BATCHING_ENABLED'')"

definition exactReviewDirectPublicationEnabled :: "env \<Rightarrow> bool" where
  "exactReviewDirectPublicationEnabled env \<longleftrightarrow>
     js_trim (case env ''EXACT_REVIEW_DIRECT_PUBLICATION_ENABLED'' of None \<Rightarrow> ''1'' | Some s \<Rightarrow> s) = ''1''"

definition exactReviewPublicationBatchSize :: "env \<Rightarrow> int" where
  "exactReviewPublicationBatchSize env =
     max 1 (min MAX_EXACT_REVIEW_PUBLICATION_BATCH_SIZE
       (numberFrom (env ''EXACT_REVIEW_PUBLICATION_BATCH_SIZE'') DEFAULT_EXACT_REVIEW_PUBLICATION_BATCH_SIZE))"

definition exactReviewPublicationBatchMaxConcurrent :: "env \<Rightarrow> int" where
  "exactReviewPublicationBatchMaxConcurrent env =
     max 1 (min 8 (numberFrom (env ''EXACT_REVIEW_PUBLICATION_BATCH_MAX_CONCURRENT'') 1))"

definition exactReviewPublicationFreshLaneMaxItems :: "env \<Rightarrow> int" where
  "exactReviewPublicationFreshLaneMaxItems env =
     (if \<not> switched_on (env ''EXACT_REVIEW_PUBLICATION_FRESH_LANE_ENABLED'') then 0
      else let batchSize = exactReviewPublicationBatchSize env
           in if batchSize \<le> 1 then 0
              else max 1 (min (batchSize - 1)
                (numberFrom (env ''EXACT_REVIEW_PUBLICATION_FRESH_LANE_MAX_ITEMS'') DEFAULT_EXACT_REVIEW_PUBLICATION_FRESH_LANE_MAX_ITEMS)))"

definition exactReviewPublicationFreshLaneMaxAgeMs :: "env \<Rightarrow> int" where
  "exactReviewPublicationFreshLaneMaxAgeMs env =
     max 60000 (min (60 * 60000)
       (numberFrom (env ''EXACT_REVIEW_PUBLICATION_FRESH_LANE_MAX_AGE_MS'') DEFAULT_EXACT_REVIEW_PUBLICATION_FRESH_LANE_MAX_AGE_MS))"

definition exactReviewPublicationBatchWaitMs :: "env \<Rightarrow> int" where
  "exactReviewPublicationBatchWaitMs env =
     max 1000 (min (5 * 60000)
       (numberFrom (env ''EXACT_REVIEW_PUBLICATION_BATCH_WAIT_MS'') DEFAULT_EXACT_REVIEW_PUBLICATION_BATCH_WAIT_MS))"

definition exactReviewPublicationBatchDispatchCooldownMs :: "env \<Rightarrow> int" where
  "exactReviewPublicationBatchDispatchCooldownMs env =
     max 1000 (min 30000
       (numberFrom (env ''EXACT_REVIEW_PUBLICATION_BATCH_DISPATCH_COOLDOWN_MS'') DEFAULT_EXACT_REVIEW_PUBLICATION_BATCH_DISPATCH_COOLDOWN_MS))"

definition exactReviewPublicationBatchDispatchReservationMs :: "env \<Rightarrow> int" where
  "exactReviewPublicationBatchDispatchReservationMs env =
     max 60000 (min (30 * 60000)
       (numberFrom (env ''EXACT_REVIEW_PUBLICATION_BATCH_DISPATCH_RESERVATION_MS'') DEFAULT_EXACT_REVIEW_PUBLICATION_BATCH_DISPATCH_RESERVATION_MS))"

definition exactReviewHostedTargetAdmissionFreshMs :: "env \<Rightarrow> int" where
  "exactReviewHostedTargetAdmissionFreshMs env = max 0 (numberFrom (env ''EXACT_REVIEW_HOSTED_TARGET_ADMISSION_FRESH_MS'') 60000)"

subsection \<open>Debouncing and admission\<close>

definition DEFAULT_EXACT_REVIEW_WORKFLOW_PAUSED_RETRY_MS :: int where "DEFAULT_EXACT_REVIEW_WORKFLOW_PAUSED_RETRY_MS = 60000"
definition DEFAULT_EXACT_REVIEW_DISPATCH_DEBOUNCE_MS :: int where "DEFAULT_EXACT_REVIEW_DISPATCH_DEBOUNCE_MS = 90000"
definition DEFAULT_EXACT_REVIEW_DISPATCH_DEBOUNCE_MAX_MS :: int where "DEFAULT_EXACT_REVIEW_DISPATCH_DEBOUNCE_MAX_MS = 3 * 60000"
definition DEFAULT_EXACT_REVIEW_ACTIVE_ITEM_REVIEW_THRESHOLD :: int where "DEFAULT_EXACT_REVIEW_ACTIVE_ITEM_REVIEW_THRESHOLD = 2"
definition DEFAULT_EXACT_REVIEW_ACTIVE_ITEM_WINDOW_MS :: int where "DEFAULT_EXACT_REVIEW_ACTIVE_ITEM_WINDOW_MS = 60 * 60000"
definition DEFAULT_EXACT_REVIEW_ACTIVE_ITEM_DEBOUNCE_MS :: int where "DEFAULT_EXACT_REVIEW_ACTIVE_ITEM_DEBOUNCE_MS = 10 * 60000"
definition DEFAULT_EXACT_REVIEW_ACTIVE_ITEM_DEBOUNCE_MAX_MS :: int where "DEFAULT_EXACT_REVIEW_ACTIVE_ITEM_DEBOUNCE_MAX_MS = 15 * 60000"
definition DEFAULT_EXACT_REVIEW_PENDING_SOFT_LIMIT :: int where "DEFAULT_EXACT_REVIEW_PENDING_SOFT_LIMIT = 300"
definition DEFAULT_EXACT_REVIEW_TARGET_RATE_PER_HOUR :: int where "DEFAULT_EXACT_REVIEW_TARGET_RATE_PER_HOUR = 60"
definition DEFAULT_EXACT_REVIEW_TARGET_BURST :: int where "DEFAULT_EXACT_REVIEW_TARGET_BURST = 6"

lemmas admission_defaults = DEFAULT_EXACT_REVIEW_WORKFLOW_PAUSED_RETRY_MS_def DEFAULT_EXACT_REVIEW_DISPATCH_DEBOUNCE_MS_def
  DEFAULT_EXACT_REVIEW_DISPATCH_DEBOUNCE_MAX_MS_def DEFAULT_EXACT_REVIEW_ACTIVE_ITEM_REVIEW_THRESHOLD_def
  DEFAULT_EXACT_REVIEW_ACTIVE_ITEM_WINDOW_MS_def DEFAULT_EXACT_REVIEW_ACTIVE_ITEM_DEBOUNCE_MS_def
  DEFAULT_EXACT_REVIEW_ACTIVE_ITEM_DEBOUNCE_MAX_MS_def DEFAULT_EXACT_REVIEW_PENDING_SOFT_LIMIT_def
  DEFAULT_EXACT_REVIEW_TARGET_RATE_PER_HOUR_def DEFAULT_EXACT_REVIEW_TARGET_BURST_def

definition exactReviewWorkflowPausedRetryMs :: "env \<Rightarrow> int" where
  "exactReviewWorkflowPausedRetryMs env =
     max 30000 (min (15 * 60000)
       (numberFrom (env ''EXACT_REVIEW_WORKFLOW_PAUSED_RETRY_MS'') DEFAULT_EXACT_REVIEW_WORKFLOW_PAUSED_RETRY_MS))"

definition exactReviewDispatchDebounceMs :: "env \<Rightarrow> int" where
  "exactReviewDispatchDebounceMs env =
     max 0 (min (15 * 60000) (numberFrom (env ''EXACT_REVIEW_DISPATCH_DEBOUNCE_MS'') DEFAULT_EXACT_REVIEW_DISPATCH_DEBOUNCE_MS))"

definition exactReviewDispatchDebounceMaxMs :: "env \<Rightarrow> int" where
  "exactReviewDispatchDebounceMaxMs env =
     max 0 (min (60 * 60000)
       (numberFrom (env ''EXACT_REVIEW_DISPATCH_DEBOUNCE_MAX_MS'') DEFAULT_EXACT_REVIEW_DISPATCH_DEBOUNCE_MAX_MS))"

definition exactReviewActiveItemReviewThreshold :: "env \<Rightarrow> int" where
  "exactReviewActiveItemReviewThreshold env =
     max 1 (min 100
       (numberFrom (env ''EXACT_REVIEW_ACTIVE_ITEM_REVIEW_THRESHOLD'') DEFAULT_EXACT_REVIEW_ACTIVE_ITEM_REVIEW_THRESHOLD))"

definition exactReviewActiveItemWindowMs :: "env \<Rightarrow> int" where
  "exactReviewActiveItemWindowMs env =
     max 0 (min (24 * 60 * 60000)
       (numberFrom (env ''EXACT_REVIEW_ACTIVE_ITEM_WINDOW_MS'') DEFAULT_EXACT_REVIEW_ACTIVE_ITEM_WINDOW_MS))"

definition exactReviewActiveItemDebounceMs :: "env \<Rightarrow> int" where
  "exactReviewActiveItemDebounceMs env =
     max 0 (min (60 * 60000)
       (numberFrom (env ''EXACT_REVIEW_ACTIVE_ITEM_DEBOUNCE_MS'') DEFAULT_EXACT_REVIEW_ACTIVE_ITEM_DEBOUNCE_MS))"

definition exactReviewActiveItemDebounceMaxMs :: "env \<Rightarrow> int" where
  "exactReviewActiveItemDebounceMaxMs env =
     max 0 (min (60 * 60000)
       (numberFrom (env ''EXACT_REVIEW_ACTIVE_ITEM_DEBOUNCE_MAX_MS'') DEFAULT_EXACT_REVIEW_ACTIVE_ITEM_DEBOUNCE_MAX_MS))"

definition exactReviewPendingSoftLimit :: "env \<Rightarrow> int" where
  "exactReviewPendingSoftLimit env =
     max 1 (min 100000
       (numberFrom (env ''EXACT_REVIEW_PENDING_SOFT_LIMIT'') DEFAULT_EXACT_REVIEW_PENDING_SOFT_LIMIT))"

subsection \<open>The scheduled review budget\<close>

datatype feed_bucket = GlobalFeed | HotFeed | NormalFeed

definition scheduled_total_rate :: "env \<Rightarrow> int" where
  "scheduled_total_rate env =
     max 2 (min 2000 (numberFrom (env ''EXACT_REVIEW_TARGET_RATE_PER_HOUR'') DEFAULT_EXACT_REVIEW_TARGET_RATE_PER_HOUR))"

text \<open>\<open>Math.floor(whole * 0.35)\<close>, on the exact product.\<close>

definition hot_share :: "int \<Rightarrow> int" where
  "hot_share whole = max 1 (whole * 35 div 100)"

definition hot_rate :: "env \<Rightarrow> int" where
  "hot_rate env =
     (let configuredHot = js_trim (str_or_empty (env ''EXACT_REVIEW_HOT_INTAKE_RATE_PER_HOUR''))
      in case (if configuredHot = [] then None else js_floor configuredHot) of
           Some n \<Rightarrow> max 1 (min (scheduled_total_rate env - 1) n)
         | None \<Rightarrow> hot_share (scheduled_total_rate env))"

definition exactReviewScheduledRatePerHour :: "env \<Rightarrow> feed_bucket \<Rightarrow> int" where
  "exactReviewScheduledRatePerHour env lane =
     (case lane of GlobalFeed \<Rightarrow> scheduled_total_rate env
      | HotFeed \<Rightarrow> hot_rate env
      | NormalFeed \<Rightarrow> scheduled_total_rate env - hot_rate env)"

definition scheduled_total_burst :: "env \<Rightarrow> int" where
  "scheduled_total_burst env =
     max 2 (min (exactReviewScheduledRatePerHour env HotFeed + exactReviewScheduledRatePerHour env NormalFeed)
       (numberFrom (env ''EXACT_REVIEW_TARGET_BURST'') DEFAULT_EXACT_REVIEW_TARGET_BURST))"

definition exactReviewScheduledBurst :: "env \<Rightarrow> feed_bucket \<Rightarrow> int" where
  "exactReviewScheduledBurst env lane =
     (case lane of GlobalFeed \<Rightarrow> scheduled_total_burst env
      | HotFeed \<Rightarrow> hot_share (scheduled_total_burst env)
      | NormalFeed \<Rightarrow> scheduled_total_burst env - hot_share (scheduled_total_burst env))"

subsection \<open>Properties\<close>

lemma clamp_bounds:
  fixes x :: int
  shows "a \<le> max a (min b x)" "a \<le> b \<Longrightarrow> max a (min b x) \<le> b" "max a (min b x) \<le> max a b"
  by (auto simp: max_def min_def)

lemma publication_limits:
  "1 \<le> exactReviewPublicationMinimum env (exactReviewPublicationMaximum env)"
  "exactReviewPublicationMinimum env (exactReviewPublicationMaximum env) \<le> exactReviewPublicationBase env (exactReviewPublicationMaximum env)"
  "exactReviewPublicationBase env (exactReviewPublicationMaximum env) \<le> exactReviewPublicationMaximum env"
  "exactReviewPublicationMaximum env \<le> exactReviewQueueCapacity env"
proof -
  have q: "1 \<le> exactReviewQueueCapacity env" by (simp add: exactReviewQueueCapacity_def)
  let ?m = "exactReviewPublicationMaximum env"
  have m: "1 \<le> ?m" "?m \<le> exactReviewQueueCapacity env"
    unfolding exactReviewPublicationMaximum_def by (rule clamp_bounds, rule clamp_bounds, rule q)
  show "?m \<le> exactReviewQueueCapacity env" by (rule m)
  show "1 \<le> exactReviewPublicationMinimum env ?m" using m(1) by (simp add: exactReviewPublicationMinimum_def)
  have low: "exactReviewPublicationMinimum env ?m \<le> ?m" by (simp add: exactReviewPublicationMinimum_def)
  show "exactReviewPublicationMinimum env ?m \<le> exactReviewPublicationBase env ?m" by (simp add: exactReviewPublicationBase_def)
  show "exactReviewPublicationBase env ?m \<le> ?m" using low by (simp add: exactReviewPublicationBase_def)
qed

lemma hot_share_bounds: "2 \<le> t \<Longrightarrow> 1 \<le> hot_share t \<and> hot_share t < t"
  by (auto simp: hot_share_def)

lemma total_rate_bounds: "2 \<le> scheduled_total_rate env"
  by (simp add: scheduled_total_rate_def)

lemma hot_rate_bounds: "1 \<le> hot_rate env \<and> hot_rate env < scheduled_total_rate env"
proof -
  have "1 \<le> max 1 (min (t - 1) n) \<and> max 1 (min (t - 1) n) < t" if "2 \<le> t" for t n :: int using that by auto
  from this[OF total_rate_bounds[of env]] hot_share_bounds[OF total_rate_bounds[of env]] show ?thesis
    by (simp add: hot_rate_def Let_def split: option.split)
qed

lemma scheduled_rates:
  "1 \<le> exactReviewScheduledRatePerHour env lane"
  "exactReviewScheduledRatePerHour env HotFeed + exactReviewScheduledRatePerHour env NormalFeed = exactReviewScheduledRatePerHour env GlobalFeed"
  using hot_rate_bounds[of env] total_rate_bounds[of env] by (cases lane; simp add: exactReviewScheduledRatePerHour_def)+

lemma scheduled_bursts:
  "1 \<le> exactReviewScheduledBurst env lane"
  "exactReviewScheduledBurst env HotFeed + exactReviewScheduledBurst env NormalFeed = exactReviewScheduledBurst env GlobalFeed"
proof -
  have "2 \<le> scheduled_total_burst env" by (simp add: scheduled_total_burst_def)
  from hot_share_bounds[OF this] this show "1 \<le> exactReviewScheduledBurst env lane"
    by (cases lane) (simp_all add: exactReviewScheduledBurst_def)
qed (simp add: exactReviewScheduledBurst_def)

text \<open>
  No text in the environment can misconfigure the queue: whatever the settings hold, every
  concurrency limit is at least one and the limits are ordered minimum, base, maximum, queue
  capacity; the fresh lane leaves a slot of the batch to older work; leases, waits and
  debounce windows stay in their documented ranges; and the hot and normal lanes split the
  scheduled rate and burst exactly, each getting a positive share.
\<close>

theorem settings_bounded:
  "1 \<le> exactReviewQueueCapacity env \<and> 1 \<le> exactReviewTargetCapacity env \<and> 1 \<le> exactReviewScheduledCapacity env
   \<and> exactReviewTargetCapacity env \<le> exactReviewQueueCapacity env
   \<and> exactReviewScheduledCapacity env \<le> exactReviewQueueCapacity env
   \<and> (let maximum = exactReviewPublicationMaximum env in
        1 \<le> exactReviewPublicationMinimum env maximum
        \<and> exactReviewPublicationMinimum env maximum \<le> exactReviewPublicationBase env maximum
        \<and> exactReviewPublicationBase env maximum \<le> maximum \<and> maximum \<le> exactReviewQueueCapacity env)
   \<and> exactReviewPublicationFreshLaneMaxItems env < exactReviewPublicationBatchSize env
   \<and> exactReviewPublicationBatchSize env \<in> {1..32} \<and> exactReviewPublicationBatchMaxConcurrent env \<in> {1..8}
   \<and> exactReviewPublicationBatchWaitMs env \<in> {1000..300000} \<and> exactReviewPublicationBatchLeaseMs env \<in> {60000..7200000}
   \<and> exactReviewDispatchLeaseMs env \<le> exactReviewPublicationDispatchLeaseMs env \<and> 60000 \<le> exactReviewDispatchLeaseMs env
   \<and> 60000 \<le> exactReviewExecutionLeaseMs env \<and> 420000 \<le> exactReviewHeartbeatGraceMs env
   \<and> exactReviewDispatchDebounceMs env \<in> {0..900000} \<and> exactReviewDispatchDebounceMaxMs env \<in> {0..3600000}
   \<and> exactReviewPendingSoftLimit env \<in> {1..100000}
   \<and> (\<Sum>lane\<leftarrow>[HotFeed, NormalFeed]. exactReviewScheduledRatePerHour env lane) = exactReviewScheduledRatePerHour env GlobalFeed
   \<and> (\<Sum>lane\<leftarrow>[HotFeed, NormalFeed]. exactReviewScheduledBurst env lane) = exactReviewScheduledBurst env GlobalFeed
   \<and> 1 \<le> exactReviewScheduledRatePerHour env lane \<and> 1 \<le> exactReviewScheduledBurst env lane"
proof -
  have fresh: "exactReviewPublicationFreshLaneMaxItems env < exactReviewPublicationBatchSize env"
    by (auto simp: exactReviewPublicationFreshLaneMaxItems_def exactReviewPublicationBatchSize_def Let_def)
  have caps: "1 \<le> exactReviewQueueCapacity env" "1 \<le> exactReviewTargetCapacity env" "1 \<le> exactReviewScheduledCapacity env"
    "exactReviewTargetCapacity env \<le> exactReviewQueueCapacity env" "exactReviewScheduledCapacity env \<le> exactReviewQueueCapacity env"
  proof -
    show q: "1 \<le> exactReviewQueueCapacity env" by (simp add: exactReviewQueueCapacity_def)
    show "1 \<le> exactReviewTargetCapacity env" "exactReviewTargetCapacity env \<le> exactReviewQueueCapacity env"
      unfolding exactReviewTargetCapacity_def by (rule clamp_bounds, rule clamp_bounds, rule q)
    show "1 \<le> exactReviewScheduledCapacity env" "exactReviewScheduledCapacity env \<le> exactReviewQueueCapacity env"
      unfolding exactReviewScheduledCapacity_def by (rule clamp_bounds, rule clamp_bounds, rule q)
  qed
  have ranges: "exactReviewPublicationBatchSize env \<in> {1..32}" "exactReviewPublicationBatchMaxConcurrent env \<in> {1..8}"
    "exactReviewPublicationBatchWaitMs env \<in> {1000..300000}" "exactReviewPublicationBatchLeaseMs env \<in> {60000..7200000}"
    "exactReviewDispatchLeaseMs env \<le> exactReviewPublicationDispatchLeaseMs env" "60000 \<le> exactReviewDispatchLeaseMs env"
    "60000 \<le> exactReviewExecutionLeaseMs env" "420000 \<le> exactReviewHeartbeatGraceMs env"
    "exactReviewDispatchDebounceMs env \<in> {0..900000}" "exactReviewDispatchDebounceMaxMs env \<in> {0..3600000}"
    "exactReviewPendingSoftLimit env \<in> {1..100000}"
    by (auto simp: exactReviewPublicationBatchSize_def batch_defaults exactReviewPublicationBatchMaxConcurrent_def
        exactReviewPublicationBatchWaitMs_def exactReviewPublicationBatchLeaseMs_def exactReviewPublicationDispatchLeaseMs_def
        exactReviewDispatchLeaseMs_def exactReviewExecutionLeaseMs_def exactReviewHeartbeatGraceMs_def
        exactReviewDispatchDebounceMs_def exactReviewDispatchDebounceMaxMs_def exactReviewPendingSoftLimit_def)
  show ?thesis
    using caps ranges fresh publication_limits[of env] scheduled_rates[of env] scheduled_bursts[of env]
    by (simp add: Let_def)
qed

end
