(* ===== verification/Stable_Json.thy ===== *)
theory Stable_Json
  imports Js_Text "HOL-Library.Word"
begin

text \<open>
  Canonical JSON and fingerprints (\<open>src/stable-json.ts\<close>,
  \<open>dashboard/exact-review-failure-telemetry.ts\<close>): JSON values, \<open>JSON.stringify\<close>, the key
  order of a JavaScript object (array-index keys first, ascending, then the others as
  inserted), \<open>stableJson\<close> over it, and the 256-bit fingerprint made of four FNV-1a hashes.
\<close>

datatype json =
    JNull
  | JBool bool
  | JNum int
  | JStr string
  | JArr "json list"
  | JObj "(string \<times> json) list"

subsection \<open>\<open>JSON.stringify\<close>\<close>

definition hex_digit :: "nat \<Rightarrow> char" where
  "hex_digit n = (if n < 10 then char_of (48 + n) else char_of (87 + n))"

definition escape_char :: "char \<Rightarrow> string" where
  "escape_char c =
     (let n = (of_char c :: nat)
      in if c = CHR 0x22 then [CHR 0x5C, CHR 0x22]
         else if c = CHR 0x5C then [CHR 0x5C, CHR 0x5C]
         else if n = 8 then [CHR 0x5C, CHR ''b'']
         else if n = 9 then [CHR 0x5C, CHR ''t'']
         else if n = 10 then [CHR 0x5C, CHR ''n'']
         else if n = 12 then [CHR 0x5C, CHR ''f'']
         else if n = 13 then [CHR 0x5C, CHR ''r'']
         else if n < 32 then [CHR 0x5C, CHR ''u'', CHR ''0'', CHR ''0'', hex_digit (n div 16), hex_digit (n mod 16)]
         else [c])"

definition quote_json :: "string \<Rightarrow> string" where
  "quote_json s = [CHR 0x22] @ concat (map escape_char s) @ [CHR 0x22]"

definition comma_join :: "string list \<Rightarrow> string" where
  "comma_join xs = (case xs of [] \<Rightarrow> [] | y # ys \<Rightarrow> y @ concat (map (\<lambda>s. '','' @ s) ys))"

primrec json_text :: "json \<Rightarrow> string" where
  "json_text JNull = ''null''"
| "json_text (JBool b) = (if b then ''true'' else ''false'')"
| "json_text (JNum n) = int_str n"
| "json_text (JStr s) = quote_json s"
| "json_text (JArr xs) = ''['' @ comma_join (map json_text xs) @ '']''"
| "json_text (JObj fs) =
     ''{'' @ comma_join (map (\<lambda>(k, t). quote_json k @ '':'' @ t) (map (map_prod (\<lambda>k. k) json_text) fs)) @ ''}''"

subsection \<open>Key order\<close>

text \<open>An array index: the canonical numeral of a number below \<open>2^32 - 1\<close>.\<close>

definition is_index_key :: "string \<Rightarrow> bool" where
  "is_index_key s \<longleftrightarrow> s \<noteq> [] \<and> list_all is_dec s \<and> (hd s \<noteq> CHR ''0'' \<or> length s = 1) \<and> dec_value s < 4294967295"

text \<open>\<open>Object.fromEntries\<close> on distinct keys: the order in which the object then lists them.\<close>

definition from_entries :: "(string \<times> 'a) list \<Rightarrow> (string \<times> 'a) list" where
  "from_entries es =
     js_sort (\<lambda>a b. int (dec_value (fst a)) - int (dec_value (fst b))) (filter (\<lambda>e. is_index_key (fst e)) es)
     @ filter (\<lambda>e. \<not> is_index_key (fst e)) es"

definition compareCodeUnits :: "string \<Rightarrow> string \<Rightarrow> int" where
  "compareCodeUnits left right = (if left < right then - 1 else if left > right then 1 else 0)"

definition compare_entries :: "string \<times> 'a \<Rightarrow> string \<times> 'a \<Rightarrow> int" where
  "compare_entries a b = compareCodeUnits (fst a) (fst b)"

primrec sortStable :: "json \<Rightarrow> json" where
  "sortStable JNull = JNull"
| "sortStable (JBool b) = JBool b"
| "sortStable (JNum n) = JNum n"
| "sortStable (JStr s) = JStr s"
| "sortStable (JArr xs) = JArr (map sortStable xs)"
| "sortStable (JObj fs) = JObj (from_entries (js_sort compare_entries (map (map_prod (\<lambda>k. k) sortStable) fs)))"

definition stableJson :: "json \<Rightarrow> string" where
  "stableJson v = json_text (sortStable v)"

subsection \<open>Fingerprints\<close>

definition fnv64 :: "string \<Rightarrow> 64 word" where
  "fnv64 s = foldl (\<lambda>hash c. xor hash (word_of_nat (of_char c)) * 0x100000001b3) 0xcbf29ce484222325 s"

text \<open>\<open>hash.toString(16).padStart(16, "0")\<close>\<close>

definition hex16 :: "64 word \<Rightarrow> string" where
  "hex16 w = map (\<lambda>i. hex_digit (unat w div 16 ^ (15 - i) mod 16)) [0..<16]"

definition stableExactReviewFailureFingerprint :: "string \<Rightarrow> string" where
  "stableExactReviewFailureFingerprint value =
     concat (map (\<lambda>salt. hex16 (fnv64 (salt @ [char_of (0::nat)] @ value)))
       [''source'', ''failure'', ''attempt'', ''telemetry''])"

subsection \<open>The order is canonical\<close>

interpretation entry_order: js_comparator "compare_entries :: string \<times> 'a \<Rightarrow> string \<times> 'a \<Rightarrow> int"
  by unfold_locales (auto simp: compare_entries_def compareCodeUnits_def split: if_splits)

lemma compare_entries_le: "compare_entries a b \<le> 0 \<longleftrightarrow> fst a \<le> fst b"
  by (auto simp: compare_entries_def compareCodeUnits_def)

text \<open>Two entry lists with the same entries and distinct keys are sorted to the same list.\<close>

lemma sorted_keys_unique:
  "sorted_wrt (\<lambda>a b. fst a \<le> fst b) xs \<Longrightarrow> sorted_wrt (\<lambda>a b. fst a \<le> fst b) ys \<Longrightarrow>
     mset xs = mset ys \<Longrightarrow> distinct (map fst xs) \<Longrightarrow> (xs :: (string \<times> 'a) list) = ys"
proof (induction xs arbitrary: ys)
  case (Cons x xs)
  then obtain y ys' where ys: "ys = y # ys'" by (cases ys) auto
  have key: "x = y"
  proof (rule ccontr)
    assume "x \<noteq> y"
    then have mem: "y \<in> set xs" "x \<in> set ys'"
      using Cons.prems(3) ys by (metis insert_iff list.simps(15) mset_eq_setD)+
    then have "fst x \<le> fst y" "fst y \<le> fst x" using Cons.prems(1,2) ys by auto
    then have "fst x = fst y" by simp
    with mem(1) Cons.prems(4) show False by (auto simp: image_iff)
  qed
  then have "xs = ys'" using Cons.IH[of ys'] Cons.prems ys by simp
  with key ys show ?case by simp
qed simp

lemma js_sort_entries_unique:
  assumes "mset xs = mset ys" "distinct (map fst xs)"
  shows "js_sort compare_entries xs = js_sort compare_entries (ys :: (string \<times> 'a) list)"
proof (rule sorted_keys_unique)
  show "sorted_wrt (\<lambda>a b. fst a \<le> fst b) (js_sort compare_entries xs)"
    "sorted_wrt (\<lambda>a b. fst a \<le> fst b) (js_sort compare_entries ys)"
    using entry_order.sorted_js_sort[of xs] entry_order.sorted_js_sort[of ys] by (simp_all add: compare_entries_le)
  have "mset (map fst (js_sort compare_entries xs)) = mset (map fst xs)" by simp
  then show "distinct (map fst (js_sort compare_entries xs))"
    using assms(2) mset_eq_imp_distinct_iff by blast
qed (use assms(1) in simp)

text \<open>
  The same JSON value up to the order of object keys, at every depth: an object whose keys are
  distinct may list its entries in any order.
\<close>

inductive reordered :: "json \<Rightarrow> json \<Rightarrow> bool" where
  reordered_null: "reordered JNull JNull"
| reordered_bool: "reordered (JBool b) (JBool b)"
| reordered_num: "reordered (JNum n) (JNum n)"
| reordered_str: "reordered (JStr s) (JStr s)"
| reordered_arr: "list_all2 reordered xs ys \<Longrightarrow> reordered (JArr xs) (JArr ys)"
| reordered_obj: "list_all2 (rel_prod (=) reordered) fs gs \<Longrightarrow> distinct (map fst gs) \<Longrightarrow> mset gs = mset hs \<Longrightarrow>
     reordered (JObj fs) (JObj hs)"

lemma sortStable_reordered: "reordered a b \<Longrightarrow> sortStable a = sortStable b"
proof (induction rule: reordered.induct)
  case (reordered_arr xs ys)
  then have "map sortStable xs = map sortStable ys" by (induction rule: list_all2_induct) auto
  then show ?case by simp
next
  case (reordered_obj fs gs hs)
  let ?m = "map_prod (\<lambda>k. k) sortStable"
  from reordered_obj(1) have fg: "map ?m fs = map ?m gs"
    by (induction rule: list_all2_induct) auto
  have keys: "map fst (map ?m gs) = map fst gs" by simp
  have "mset (map ?m gs) = mset (map ?m hs)" using reordered_obj(3) by simp
  from js_sort_entries_unique[OF this] reordered_obj(2) keys
  have "js_sort compare_entries (map ?m gs) = js_sort compare_entries (map ?m hs)" by (simp only:)
  then show ?case by (simp only: sortStable.simps fg)
qed auto

text \<open>
  \<open>stableJson\<close> is canonical: values that differ only in the order in which their objects
  list their keys, at any depth, have the same text, whatever keys look like array indices;
  so equality checks and digests over it do not depend on how an object was built.
\<close>

theorem stableJson_canonical:
  assumes "reordered a b"
  shows "stableJson a = stableJson b"
  using sortStable_reordered[OF assms] by (simp add: stableJson_def)

lemma stableJson_canonical_witness:
  "stableJson (JObj [(''b'', JNum 1), (''10'', JNull), (''a'', JArr [JObj [(''y'', JBool True), (''x'', JNull)]])])
   = stableJson (JObj [(''a'', JArr [JObj [(''x'', JNull), (''y'', JBool True)]]), (''b'', JNum 1), (''10'', JNull)])"
proof (rule stableJson_canonical, rule reordered_obj)
  have "reordered (JObj [(''y'', JBool True), (''x'', JNull)]) (JObj [(''x'', JNull), (''y'', JBool True)])"
    by (rule reordered_obj[where gs = "[(''y'', JBool True), (''x'', JNull)]"]) (auto intro: reordered.intros)
  then show "list_all2 (rel_prod (=) reordered)
      [(''b'', JNum 1), (''10'', JNull), (''a'', JArr [JObj [(''y'', JBool True), (''x'', JNull)]])]
      [(''b'', JNum 1), (''10'', JNull), (''a'', JArr [JObj [(''x'', JNull), (''y'', JBool True)]])]"
    by (auto intro!: reordered.intros)
qed auto

end
