(* ===== verification/Queue_Item.thy ===== *)
theory Queue_Item
  imports Review_Loop Publication_Retry Queue_Settings Stable_Json "HOL-Library.AList"
begin

text \<open>
  The items of the exact-review queue (\<open>dashboard/exact-review-queue.ts\<close>,
  \<open>dashboard/exact-review-read-model.ts\<close>): the item with its lease, retry and parking fields,
  the queue state, and the pure operations on one item: finishing a review lease and a
  publication lease, reclaiming expired leases, parking and recovering, refreshing an unusable
  publication into a review, and the time of the next attempt. The fields that the source
  clears together form a record of their own (the lease, the dispatch failure); a field that
  is absent, undefined or deleted is \<open>None\<close>. The items are an association list in the order
  in which JavaScript lists the object.
\<close>

subsection \<open>State\<close>

datatype item_state = ItPending | ItDispatching | ItLeased | ItParked

datatype backoff_reason =
  DispatchDebounce | DispatcherBackoff | AdmissionRetry | CoordinationRetry | ThrottleRetry | ReviewRetry | PublicationRetry

datatype parked_reason =
    DeadLetterCapacity | DispatchRejected | ReviewRetryExhausted | SourceIncompatible | ScannerRefused
  | DirectPublication | SourceDriftLoop | ParkedHold hold_reason

datatype lease_phase = PhaseReview | PhaseStatus | PhaseFinalizing

datatype recovery_reason = ClaimTimeout | ExecutionTimeout | RecoveredCancelled | RecoveredFailed

datatype dispatch_failure_class =
  PermanentRejection | ValidationUnknown | Authentication | DispatchRateLimit | GithubOutage | DispatchTimeout | DispatchNetwork

record item_lease =
  le_leaseId :: "string option"
  le_leaseRevision :: "int option"
  le_leaseDecision :: "decision option"
  le_leaseExpiresAt :: "int option"
  le_leaseHeartbeatAt :: "int option"
  le_leasePhase :: "lease_phase option"
  le_statusSupersedingRevision :: "int option"
  le_claimedRunId :: "string option"
  le_claimedRunAttempt :: "int option"
  le_claimGeneration :: "int option"
  le_claimProtocolVersion :: "int option"
  le_reviewBudgetChargeGeneration :: "int option"
  le_dispatchedAt :: "int option"
  le_claimedAt :: "int option"

record dispatch_failure =
  df_status :: "int option"
  df_class :: "dispatch_failure_class option"
  df_at :: "int option"
  df_fingerprint :: "string option"
  df_detail :: "(string list \<times> string list) option"

record projection_identity =
  pj_canonicalTargetKey :: string
  pj_fenceKey :: string
  pj_revision :: int

record coordination_deferral =
  cf_revision :: int
  cf_until :: int
  cf_nextAttemptAt :: int
  cf_backoffReason :: "backoff_reason option"

record parked_target =
  pt_nodeId :: string
  pt_headSha :: "string option"
  pt_closedAt :: "string option"
  pt_open :: "bool option"
  pt_sourceContentRevision :: "string option"
  pt_baseSha :: "string option"
  pt_isDraft :: "bool option"

record parked_command =
  pk_itemKey :: string
  pk_revision :: int
  pk_decisionFingerprint :: string
  pk_coordinationDeferral :: "coordination_deferral option"
  pk_target :: parked_target

datatype status_state = StatusComplete | StatusFailed

record terminal_finalization =
  tf_disposition :: string
  tf_statusState :: status_state
  tf_statusDetail :: string
  tf_projection :: "projection_identity option"
  tf_parkedCommand :: "parked_command option"

datatype witness_state = WitnessVerified string int | WitnessBlocked

record successor_witness =
  sw_targetKey :: string
  sw_predecessorQueueRevision :: int
  sw_predecessorSourceRevision :: int
  sw_sourceHead :: int
  sw_state :: witness_state

record queue_item =
  qi_key :: string
  qi_decision :: decision
  qi_admissionDeliveryId :: "string option"
  qi_ingressFingerprint :: "string option"
  qi_lease :: item_lease
  qi_sourceAuthorityWatermark :: "watermark option"
  qi_state :: item_state
  qi_revision :: int
  qi_createdAt :: int
  qi_updatedAt :: int
  qi_nextAttemptAt :: int
  qi_prReviewObservation :: "(string \<times> int) option"
  qi_backoffReason :: "backoff_reason option"
  qi_attempts :: int
  qi_parkedReason :: "parked_reason option"
  qi_parkedRecoveryAttempts :: "int option"
  qi_parkedRecoveryAt :: "int option"
  qi_parkedTerminalCheckedAt :: "int option"
  qi_dispatchFailure :: dispatch_failure
  qi_lastFailureReason :: "reason_code option"
  qi_firstFailureAt :: "int option"
  qi_publicationFailureAttempts :: "int option"
  qi_publicationSuccessorWitness :: "successor_witness option"
  qi_reviewFailureAttempts :: "int option"
  qi_reviewFailure :: "(string \<times> string) option"
  qi_reviewFailureDecisionFingerprint :: "string option"
  qi_reviewRetryPolicyEpoch :: "string option"
  qi_scannerRefusal :: "(int \<times> string) option"
  qi_reviewRecoveryReason :: "recovery_reason option"
  qi_reviewRecoveryAt :: "int option"
  qi_reviewBudgetPrepaid :: bool
  qi_terminalFinalization :: "terminal_finalization option"

record credential_circuit =
  cc_poolKey :: string
  cc_scope :: pool_class
  cc_targetOwner :: "string option"
  cc_observedAt :: int
  cc_retryAt :: int
  cc_provenance :: string
  cc_authoritative :: bool

record queue_dispatcher =
  qd_state :: string
  qd_reason :: "string option"
  qd_workflowState :: "string option"
  qd_checkedAt :: int
  qd_retryAt :: "int option"
  qd_dispatchFailure :: dispatch_failure
  qd_dispatchConsecutiveFailures :: "int option"
  qd_publicationBatchDispatchId :: "string option"
  qd_reviewAdmissionNextAt :: "int option"
  qd_publicationBatchDispatchedAt :: "int option"
  qd_publicationBatchDispatchSucceeded :: "bool option"
  qd_publicationBatchDispatchPendingUntil :: "int option"
  qd_publicationBatchTerminalProbe :: "string option"
  qd_githubCredentialCircuits :: "(string \<times> credential_circuit) list"
  qd_githubRequestMetrics :: "(int \<times> (string \<times> int) list) option"
  qd_parkedTerminalCheckedAt :: "int option"

record queue_state =
  qs_items :: "(string \<times> queue_item) list"
  qs_shedSinceReset :: "int option"
  qs_dispatcher :: "queue_dispatcher option"

definition item_at :: "queue_state \<Rightarrow> string \<Rightarrow> queue_item option" where
  "item_at st key = map_of (qs_items st) key"

text \<open>\<open>state.items[key] = item\<close> and \<open>delete state.items[key]\<close>\<close>

definition put_item :: "queue_item \<Rightarrow> queue_state \<Rightarrow> queue_state" where
  "put_item item st = st\<lparr>qs_items := AList.update (qi_key item) item (qs_items st)\<rparr>"

definition delete_item :: "string \<Rightarrow> queue_state \<Rightarrow> queue_state" where
  "delete_item key st = st\<lparr>qs_items := AList.delete key (qs_items st)\<rparr>"

text \<open>\<open>Number(value || 0)\<close> on an optional number.\<close>

abbreviation number_or_0 :: "int option \<Rightarrow> int" where
  "number_or_0 v \<equiv> num_or_zero v"

subsection \<open>Constants\<close>

definition EXACT_REVIEW_COMPLETION_RETRY_MAX_MS :: int where "EXACT_REVIEW_COMPLETION_RETRY_MAX_MS = 2 * 60 * 60 * 1000"
definition EXACT_REVIEW_ARTIFACT_RETRY_MAX_MS :: int where "EXACT_REVIEW_ARTIFACT_RETRY_MAX_MS = 80 * 24 * 60 * 60 * 1000"
definition EXACT_REVIEW_PUBLICATION_ARTIFACT_RETRY_LIMIT :: int where "EXACT_REVIEW_PUBLICATION_ARTIFACT_RETRY_LIMIT = 3"
definition EXACT_REVIEW_RETRY_LIMIT :: int where "EXACT_REVIEW_RETRY_LIMIT = 8"
definition DEFAULT_EXACT_REVIEW_RETRY_POLICY_EPOCH :: string where "DEFAULT_EXACT_REVIEW_RETRY_POLICY_EPOCH = ''1''"
definition DEFAULT_EXACT_REVIEW_RETRY_MS :: int where "DEFAULT_EXACT_REVIEW_RETRY_MS = 30000"
definition EXACT_REVIEW_PARKED_RECOVERY_LIMIT :: int where "EXACT_REVIEW_PARKED_RECOVERY_LIMIT = 3"
definition EXACT_REVIEW_PARKED_RECOVERY_BASE_MS :: int where "EXACT_REVIEW_PARKED_RECOVERY_BASE_MS = 5 * 60000"
definition EXACT_REVIEW_PARKED_RECOVERY_MAX_MS :: int where "EXACT_REVIEW_PARKED_RECOVERY_MAX_MS = 30 * 60000"
definition EXACT_REVIEW_PARKED_TERMINAL_CHECK_INTERVAL_MS :: int where "EXACT_REVIEW_PARKED_TERMINAL_CHECK_INTERVAL_MS = 5 * 60000"
definition DIRECT_LIFECYCLE_REQUEUE_DELIVERY_PREFIX :: string where
  "DIRECT_LIFECYCLE_REQUEUE_DELIVERY_PREFIX = ''direct-lifecycle-requeue:''"
definition HELD_PUBLICATION_REQUEUE_DELIVERY_PREFIX :: string where
  "HELD_PUBLICATION_REQUEUE_DELIVERY_PREFIX = ''held-publication-requeue:''"

lemmas queue_consts = EXACT_REVIEW_COMPLETION_RETRY_MAX_MS_def EXACT_REVIEW_ARTIFACT_RETRY_MAX_MS_def
  EXACT_REVIEW_PUBLICATION_ARTIFACT_RETRY_LIMIT_def EXACT_REVIEW_RETRY_LIMIT_def DEFAULT_EXACT_REVIEW_RETRY_MS_def
  EXACT_REVIEW_PARKED_RECOVERY_LIMIT_def EXACT_REVIEW_PARKED_RECOVERY_BASE_MS_def EXACT_REVIEW_PARKED_RECOVERY_MAX_MS_def
  EXACT_REVIEW_PARKED_TERMINAL_CHECK_INTERVAL_MS_def

definition exactReviewRetryDelayMs :: "int \<Rightarrow> int" where
  "exactReviewRetryDelayMs attempt = min (5 * 60000) (DEFAULT_EXACT_REVIEW_RETRY_MS * 2 ^ nat (min (attempt - 1) 4))"

text \<open>\<open>/^[A-Za-z0-9._-]{1,64}$/\<close> on the trimmed setting, or the default when it is empty.\<close>

definition exactReviewRetryPolicyEpoch :: "env \<Rightarrow> string" where
  "exactReviewRetryPolicyEpoch env =
     (let text = str_or_empty (env ''EXACT_REVIEW_RETRY_POLICY_EPOCH'');
          configured = js_trim (if text = [] then DEFAULT_EXACT_REVIEW_RETRY_POLICY_EPOCH else text)
      in if 1 \<le> length configured \<and> length configured \<le> 64 \<and> list_all is_word_char configured then configured
         else DEFAULT_EXACT_REVIEW_RETRY_POLICY_EPOCH)"

text \<open>\<open>item.reviewRetryPolicyEpoch || DEFAULT\<close>\<close>

definition item_epoch :: "queue_item \<Rightarrow> string" where
  "item_epoch item =
     (if truthy (qi_reviewRetryPolicyEpoch item) then the (qi_reviewRetryPolicyEpoch item)
      else DEFAULT_EXACT_REVIEW_RETRY_POLICY_EPOCH)"

subsection \<open>Clearing groups of fields\<close>

definition no_lease :: item_lease where
  "no_lease = \<lparr>le_leaseId = None, le_leaseRevision = None, le_leaseDecision = None, le_leaseExpiresAt = None,
     le_leaseHeartbeatAt = None, le_leasePhase = None, le_statusSupersedingRevision = None, le_claimedRunId = None,
     le_claimedRunAttempt = None, le_claimGeneration = None, le_claimProtocolVersion = None,
     le_reviewBudgetChargeGeneration = None, le_dispatchedAt = None, le_claimedAt = None\<rparr>"

definition clearExactReviewLease :: "queue_item \<Rightarrow> queue_item" where
  "clearExactReviewLease item = item\<lparr>qi_lease := no_lease\<rparr>"

definition clearExactReviewDispatchFailure :: "queue_item \<Rightarrow> queue_item" where
  "clearExactReviewDispatchFailure item =
     item\<lparr>qi_dispatchFailure := \<lparr>df_status = None, df_class = None, df_at = None, df_fingerprint = None, df_detail = None\<rparr>\<rparr>"

definition clearExactReviewReviewRecovery :: "queue_item \<Rightarrow> queue_item" where
  "clearExactReviewReviewRecovery item = item\<lparr>qi_reviewRecoveryReason := None, qi_reviewRecoveryAt := None\<rparr>"

definition resetExactReviewAdmittedRetryState :: "env \<Rightarrow> queue_item \<Rightarrow> queue_item" where
  "resetExactReviewAdmittedRetryState env item =
     clearExactReviewReviewRecovery
       ((clearExactReviewDispatchFailure
           (item\<lparr>qi_state := ItPending, qi_parkedReason := None, qi_parkedRecoveryAttempts := Some 0\<rparr>))
          \<lparr>qi_attempts := 0, qi_publicationFailureAttempts := Some 0, qi_reviewFailureAttempts := Some 0,
           qi_reviewRetryPolicyEpoch := Some (exactReviewRetryPolicyEpoch env),
           qi_firstFailureAt := None, qi_lastFailureReason := None\<rparr>)"

subsection \<open>The identity of a review's input\<close>

definition str_json :: "string option \<Rightarrow> json" where
  "str_json v = (case v of None \<Rightarrow> JNull | Some s \<Rightarrow> JStr s)"

definition int_json :: "int option \<Rightarrow> json" where
  "int_json v = (case v of None \<Rightarrow> JNull | Some n \<Rightarrow> JNum n)"

definition hex_or_null :: "nat \<Rightarrow> string option \<Rightarrow> string option" where
  "hex_or_null n v = (if hex_of_length n (str_or_empty v) then Some (str_or_empty v) else None)"

record failure_source =
  fs_sourceHeadSha :: "string option"
  fs_sourceContentRevision :: "string option"
  fs_sourceUpdatedAt :: "string option"

definition exactReviewFailureSource :: "decision \<Rightarrow> failure_source" where
  "exactReviewFailureSource d =
     \<lparr>fs_sourceHeadSha = hex_or_null 40 (bd_sourceHeadSha d),
      fs_sourceContentRevision = hex_or_null 64 (bd_sourceContentRevision d),
      fs_sourceUpdatedAt = Option.bind (date_parse_opt (bd_sourceUpdatedAt d)) toISOString\<rparr>"

text \<open>\<open>value || null\<close>\<close>

definition nonempty :: "string option \<Rightarrow> string option" where
  "nonempty v = (if truthy v then v else None)"

definition exactReviewFailureSourceFingerprint :: "decision \<Rightarrow> string" where
  "exactReviewFailureSourceFingerprint d =
     (let source = exactReviewFailureSource d
      in stableExactReviewFailureFingerprint (stableJson (JObj
        [(''version'', JNum 1),
         (''target'', JStr (bd_targetRepo d @ ''#'' @ nat_str (bd_itemNumber d))),
         (''target_branch'', JStr (bd_targetBranch d)),
         (''source_action'', JStr (bd_sourceAction d)),
         (''head_sha'', str_json (fs_sourceHeadSha source)),
         (''base_sha'', str_json (hex_or_null 40 (bd_sourceBaseSha d))),
         (''is_draft'', case bd_sourceIsDraft d of None \<Rightarrow> JNull | Some b \<Rightarrow> JBool b),
         (''content_revision'', str_json (fs_sourceContentRevision source)),
         (''updated_at'', if truthy (fs_sourceContentRevision source) then JNull else str_json (fs_sourceUpdatedAt source)),
         (''comment_updated_at'', str_json (nonempty (bd_sourceCommentUpdatedAt d))),
         (''command_body_digest'', str_json (nonempty (bd_commandBodyDigest d)))])))"

definition command_origin_json :: "command_origin option \<Rightarrow> json" where
  "command_origin_json v = (case v of None \<Rightarrow> JNull | Some HostedWebhook \<Rightarrow> JStr ''hosted_webhook'' | Some CommentRouter \<Rightarrow> JStr ''comment_router'')"

definition command_identity :: "decision \<Rightarrow> string option" where
  "command_identity d =
     (if exactReviewDecisionHasCommandContext d
      then Some (stableJson (JObj
        [(''commandStatusMarker'', str_json (bd_commandStatusMarker d)),
         (''statusCommentId'', int_json (bd_statusCommentId d)),
         (''additionalPrompt'', str_json (bd_additionalPrompt d)),
         (''sourceCommentId'', int_json (bd_sourceCommentId d)),
         (''sourceCommentUpdatedAt'', str_json (bd_sourceCommentUpdatedAt d)),
         (''commandBodyDigest'', str_json (bd_commandBodyDigest d)),
         (''commandOrigin'', command_origin_json (bd_commandOrigin d))]))
      else None)"

definition exactReviewInputIdentityChanged :: "decision \<Rightarrow> decision \<Rightarrow> bool" where
  "exactReviewInputIdentityChanged prior nxt \<longleftrightarrow>
     exactReviewFailureSourceFingerprint prior \<noteq> exactReviewFailureSourceFingerprint nxt
     \<or> bd_additionalPrompt prior \<noteq> bd_additionalPrompt nxt
     \<or> command_identity prior \<noteq> command_identity nxt"

definition exactReviewRetryIdentityChanged :: "queue_item \<Rightarrow> decision \<Rightarrow> decision \<Rightarrow> env \<Rightarrow> bool" where
  "exactReviewRetryIdentityChanged item prior nxt env \<longleftrightarrow>
     item_epoch item \<noteq> exactReviewRetryPolicyEpoch env \<or> exactReviewInputIdentityChanged prior nxt"

definition exactReviewIssueSourceVersionIsOlder :: "queue_item \<Rightarrow> decision \<Rightarrow> bool" where
  "exactReviewIssueSourceVersionIsOlder current incoming =
     (if bd_itemKind (qi_decision current) \<noteq> IssueItem \<or> bd_itemKind incoming \<noteq> IssueItem then False
      else case (date_parse_opt (bd_sourceUpdatedAt (qi_decision current)), date_parse_opt (bd_sourceUpdatedAt incoming)) of
             (Some c, Some i) \<Rightarrow>
               if i \<noteq> c then i < c
               else if qi_state current \<noteq> ItParked \<or> qi_parkedReason current \<noteq> Some ReviewRetryExhausted then False
               else hex_of_length 64 (to_lower (str_or_empty (bd_sourceContentRevision (qi_decision current))))
           | _ \<Rightarrow> False)"

end
