(* ===== verification/Queue_Lease.thy ===== *)
theory Queue_Lease
  imports Queue_Item
begin

text \<open>
  Leases of the exact-review queue (\<open>dashboard/exact-review-queue.ts\<close>,
  \<open>dashboard/exact-review-read-model.ts\<close>): when a lease is live, how expired leases are
  reclaimed, how a finished review lease leaves its item (completed, held, parked, retried or
  requeued for newer input), the ladder of parked recoveries, and the time of the next attempt.
\<close>

subsection \<open>The next attempt\<close>

definition dispatcher_retry :: "queue_state \<Rightarrow> (string \<times> int) option" where
  "dispatcher_retry st = Option.bind (qs_dispatcher st) (\<lambda>d. map_option (\<lambda>r. (qd_state d, r)) (qd_retryAt d))"

definition exactReviewQueueEnqueueAttemptAt :: "queue_state \<Rightarrow> int \<Rightarrow> int" where
  "exactReviewQueueEnqueueAttemptAt st now =
     (case exactReviewDispatcherRetryAt (dispatcher_retry st) now of None \<Rightarrow> now | Some at \<Rightarrow> at)"

text \<open>\<open>Object.assign(item, exactReviewQueueEnqueueAttempt(state, now))\<close>: the pair assigned.\<close>

definition exactReviewQueueEnqueueAttempt :: "queue_state \<Rightarrow> int \<Rightarrow> int \<times> backoff_reason option" where
  "exactReviewQueueEnqueueAttempt st now =
     (let nextAttemptAt = exactReviewQueueEnqueueAttemptAt st now
      in (nextAttemptAt, if nextAttemptAt > now then Some DispatcherBackoff else None))"

definition exactReviewQueueDebouncedAttempt ::
  "queue_state \<Rightarrow> decision \<Rightarrow> int \<Rightarrow> int \<Rightarrow> env \<Rightarrow> bool \<Rightarrow> bool \<Rightarrow> int \<times> backoff_reason option" where
  "exactReviewQueueDebouncedAttempt st d now firstEnqueuedAt env isFirstEvent activeItem =
     (let baseAttemptAt = exactReviewQueueEnqueueAttemptAt st now
      in if isImmediateExactReviewDecision d isFirstEvent then exactReviewQueueEnqueueAttempt st now
         else
           let ordinaryDebounceAt = min (now + exactReviewDispatchDebounceMs env)
                                        (firstEnqueuedAt + exactReviewDispatchDebounceMaxMs env);
               debounceAt = (if activeItem
                 then max ordinaryDebounceAt
                        (min (now + exactReviewActiveItemDebounceMs env)
                             (firstEnqueuedAt + exactReviewActiveItemDebounceMaxMs env))
                 else ordinaryDebounceAt);
               nextAttemptAt = max baseAttemptAt debounceAt
           in (nextAttemptAt,
               if nextAttemptAt > now
               then Some (if baseAttemptAt \<ge> debounceAt then DispatcherBackoff else DispatchDebounce) else None))"

definition assign_attempt :: "int \<times> backoff_reason option \<Rightarrow> queue_item \<Rightarrow> queue_item" where
  "assign_attempt a item = item\<lparr>qi_nextAttemptAt := fst a, qi_backoffReason := snd a\<rparr>"

subsection \<open>Jitter\<close>

text \<open>
  A sample of \<open>random()\<close> is a multiple of \<open>2^-53\<close>: \<open>Some k\<close> is \<open>k / 2^53\<close>, and \<open>None\<close> is a
  sample that is no finite number. The product is rounded half up, as \<open>Math.round\<close> does.
\<close>

definition sample_unit :: "int option \<Rightarrow> int" where
  "sample_unit sample = (case sample of None \<Rightarrow> 2 ^ 52 | Some k \<Rightarrow> max 0 (min (2 ^ 53) k))"

definition exactReviewJitteredDelayMs :: "int \<Rightarrow> int option \<Rightarrow> int" where
  "exactReviewJitteredDelayMs delayMs sample =
     (let delay = max 0 delayMs;
          minimum = (3 * delay + 3) div 4;
          maximum = 3 * delay div 2;
          rounded = (6 * delay * (2 ^ 53 + sample_unit sample) + 2 ^ 55) div 2 ^ 56
      in max minimum (min maximum rounded))"

subsection \<open>Live leases and parked items\<close>

definition exactReviewEffectiveLeaseExpiresAt :: "queue_item \<Rightarrow> int \<Rightarrow> int \<Rightarrow> int" where
  "exactReviewEffectiveLeaseExpiresAt item publicationDispatchLeaseMs heartbeatGraceMs =
     (let lease = qi_lease item;
          leaseExpiresAt = number_or_0 (le_leaseExpiresAt lease);
          leaseHeartbeatAt = number_or_0 (le_leaseHeartbeatAt lease)
      in if leaseExpiresAt \<noteq> 0 \<and> qi_state item = ItLeased \<and> leaseHeartbeatAt \<noteq> 0 \<and> le_leasePhase lease \<noteq> Some PhaseFinalizing
         then min leaseExpiresAt (leaseHeartbeatAt + heartbeatGraceMs)
         else if leaseExpiresAt = 0 \<or> qi_state item \<noteq> ItDispatching \<or> \<not> exactReviewQueueIsPublication (qi_decision item)
              \<or> truthy (le_claimedRunId lease) \<or> \<not> num_truthy (le_dispatchedAt lease)
         then leaseExpiresAt
         else min leaseExpiresAt (number_or_0 (le_dispatchedAt lease) + publicationDispatchLeaseMs))"

definition isLiveExactReviewLease :: "queue_item \<Rightarrow> int \<Rightarrow> int \<Rightarrow> int \<Rightarrow> bool" where
  "isLiveExactReviewLease item now publicationDispatchLeaseMs heartbeatGraceMs \<longleftrightarrow>
     truthy (le_leaseId (qi_lease item))
     \<and> exactReviewEffectiveLeaseExpiresAt item publicationDispatchLeaseMs heartbeatGraceMs > now"

definition exactReviewParkedRecoveryAttempts :: "int option \<Rightarrow> int" where
  "exactReviewParkedRecoveryAttempts value =
     (let attempts = number_or_0 value in if safe_integer attempts \<and> attempts > 0 then attempts else 0)"

definition exactReviewParkedRecoveryDelayMs :: "queue_item \<Rightarrow> int option" where
  "exactReviewParkedRecoveryDelayMs item =
     (if qi_state item \<noteq> ItParked \<or> exactReviewQueueIsPublication (qi_decision item)
         \<or> (qi_parkedReason item \<noteq> Some DispatchRejected \<and> qi_parkedReason item \<noteq> Some ReviewRetryExhausted)
      then None
      else let recoveries = exactReviewParkedRecoveryAttempts (qi_parkedRecoveryAttempts item)
           in if recoveries \<ge> EXACT_REVIEW_PARKED_RECOVERY_LIMIT then None
              else Some (min EXACT_REVIEW_PARKED_RECOVERY_MAX_MS (EXACT_REVIEW_PARKED_RECOVERY_BASE_MS * 2 ^ nat recoveries)))"

definition exactReviewParkedRecoveryAt :: "queue_item \<Rightarrow> int option" where
  "exactReviewParkedRecoveryAt item =
     (case exactReviewParkedRecoveryDelayMs item of None \<Rightarrow> None
      | Some delay \<Rightarrow>
          (case qi_parkedRecoveryAt item of
             Some scheduled \<Rightarrow> if safe_integer scheduled \<and> scheduled \<ge> qi_updatedAt item then Some scheduled
                               else Some (qi_updatedAt item + delay)
           | None \<Rightarrow> Some (qi_updatedAt item + delay)))"

definition exactReviewParkedOperatorEligible :: "queue_item \<Rightarrow> bool" where
  "exactReviewParkedOperatorEligible item \<longleftrightarrow>
     qi_state item = ItParked \<and> \<not> exactReviewQueueIsPublication (qi_decision item)
     \<and> (qi_parkedReason item = Some SourceIncompatible \<or> qi_parkedReason item = Some SourceDriftLoop
        \<or> (\<exists>h\<in>{LockedConversation, OversizedPullRequest, MaintainerRequestRequired}. qi_parkedReason item = Some (ParkedHold h))
        \<or> ((qi_parkedReason item = Some DispatchRejected \<or> qi_parkedReason item = Some ReviewRetryExhausted)
            \<and> exactReviewParkedRecoveryAttempts (qi_parkedRecoveryAttempts item) \<ge> EXACT_REVIEW_PARKED_RECOVERY_LIMIT))"

definition exactReviewParkedTerminalCheckAt :: "queue_item \<Rightarrow> int option" where
  "exactReviewParkedTerminalCheckAt item =
     (if \<not> exactReviewParkedOperatorEligible item then None
      else Some (number_or_0 (qi_parkedTerminalCheckedAt item) + EXACT_REVIEW_PARKED_TERMINAL_CHECK_INTERVAL_MS))"

definition exactReviewParkedTerminalGlobalCheckAt :: "queue_state \<Rightarrow> int" where
  "exactReviewParkedTerminalGlobalCheckAt st =
     fold (\<lambda>(k, item) latest. max latest (number_or_0 (qi_parkedTerminalCheckedAt item))) (qs_items st)
       (number_or_0 (Option.bind (qs_dispatcher st) qd_parkedTerminalCheckedAt))
     + EXACT_REVIEW_PARKED_TERMINAL_CHECK_INTERVAL_MS"

text \<open>The collation \<open>localeCompare\<close> of the runtime is the argument \<open>collate\<close>.\<close>

definition parked_terminal_order :: "(string \<Rightarrow> string \<Rightarrow> int) \<Rightarrow> queue_item \<Rightarrow> queue_item \<Rightarrow> int" where
  "parked_terminal_order collate a b =
     cmp_or (number_or_0 (qi_parkedTerminalCheckedAt a) - number_or_0 (qi_parkedTerminalCheckedAt b))
       (cmp_or (qi_createdAt a - qi_createdAt b) (collate (qi_key a) (qi_key b)))"

definition exactReviewDueParkedTerminalItem :: "(string \<Rightarrow> string \<Rightarrow> int) \<Rightarrow> queue_state \<Rightarrow> int \<Rightarrow> queue_item option" where
  "exactReviewDueParkedTerminalItem collate st now =
     (if exactReviewParkedTerminalGlobalCheckAt st > now then None
      else case js_sort (parked_terminal_order collate)
             (filter (\<lambda>item. sql_le (exactReviewParkedTerminalCheckAt item) now) (map snd (qs_items st))) of
             [] \<Rightarrow> None | item # _ \<Rightarrow> Some item)"

definition parkRecoverableExactReviewItem :: "parked_reason \<Rightarrow> int \<Rightarrow> int option \<Rightarrow> queue_item \<Rightarrow> queue_item" where
  "parkRecoverableExactReviewItem reason now sample item0 =
     (let item = item0\<lparr>qi_state := ItParked, qi_parkedReason := Some reason, qi_backoffReason := None, qi_updatedAt := now\<rparr>
      in item\<lparr>qi_parkedRecoveryAt :=
           (case exactReviewParkedRecoveryDelayMs item of None \<Rightarrow> None
            | Some delay \<Rightarrow> Some (now + exactReviewJitteredDelayMs delay sample))\<rparr>)"

definition recover_parked_item :: "env \<Rightarrow> int \<Rightarrow> queue_item \<Rightarrow> queue_item" where
  "recover_parked_item env now item =
     (let activeRetryPolicyEpoch = exactReviewRetryPolicyEpoch env;
          retryPolicyChanged = (item_epoch item \<noteq> activeRetryPolicyEpoch)
      in clearExactReviewReviewRecovery (clearExactReviewDispatchFailure
           (item\<lparr>qi_state := ItPending, qi_parkedReason := None, qi_parkedRecoveryAt := None,
              qi_parkedRecoveryAttempts :=
                Some (if retryPolicyChanged then 0
                      else exactReviewParkedRecoveryAttempts (qi_parkedRecoveryAttempts item) + 1),
              qi_nextAttemptAt := now, qi_backoffReason := None, qi_attempts := 0,
              qi_reviewFailureAttempts := Some 0, qi_reviewRetryPolicyEpoch := Some activeRetryPolicyEpoch,
              qi_updatedAt := now\<rparr>)))"

definition parked_recovery_due :: "int \<Rightarrow> queue_item \<Rightarrow> bool" where
  "parked_recovery_due now item \<longleftrightarrow> sql_le (exactReviewParkedRecoveryAt item) now"

definition recoverParkedExactReviewItems :: "int \<Rightarrow> env \<Rightarrow> queue_state \<Rightarrow> queue_state \<times> nat" where
  "recoverParkedExactReviewItems now env st =
     (st\<lparr>qs_items := map (\<lambda>(k, item). (k, if parked_recovery_due now item then recover_parked_item env now item else item)) (qs_items st)\<rparr>,
      length (filter (\<lambda>(k, item). parked_recovery_due now item) (qs_items st)))"

subsection \<open>Reclaiming expired leases\<close>

text \<open>\<open>item.leaseDecision ?? item.decision\<close>\<close>

definition leased_decision :: "queue_item \<Rightarrow> decision" where
  "leased_decision item = (case le_leaseDecision (qi_lease item) of None \<Rightarrow> qi_decision item | Some d \<Rightarrow> d)"

text \<open>What becomes of the item: \<open>None\<close> when it is deleted.\<close>

definition reclaim_item :: "int \<Rightarrow> env \<Rightarrow> queue_item \<Rightarrow> queue_item option" where
  "reclaim_item now env item =
     (let oneShotRecovery = (bd_sourceAction (leased_decision item) = FAILED_REVIEW_SHARD_RECOVERY_SOURCE_ACTION);
          hasNewerRevision = (qi_revision item > number_or_0 (le_leaseRevision (qi_lease item)));
          publication = exactReviewQueueIsPublication (qi_decision item);
          retryIdentityChanged = (\<not> publication \<and> exactReviewRetryIdentityChanged item (leased_decision item) (qi_decision item) env);
          hasNewerWorkIdentity = (if publication then hasNewerRevision else retryIdentityChanged)
      in if oneShotRecovery \<and> \<not> hasNewerWorkIdentity then None
         else
           let expiredState = qi_state item;
               base = (clearExactReviewLease item)\<lparr>qi_state := ItPending, qi_nextAttemptAt := now, qi_backoffReason := None\<rparr>;
               item' = (if hasNewerWorkIdentity
                 then clearExactReviewReviewRecovery
                        (base\<lparr>qi_attempts := 0, qi_publicationFailureAttempts := Some 0, qi_reviewFailureAttempts := Some 0,
                           qi_reviewRetryPolicyEpoch := Some (exactReviewRetryPolicyEpoch env),
                           qi_firstFailureAt := None, qi_lastFailureReason := None\<rparr>)
                 else if \<not> publication
                 then base\<lparr>qi_reviewRecoveryReason := Some (if expiredState = ItDispatching then ClaimTimeout else ExecutionTimeout),
                           qi_reviewRecoveryAt := Some now\<rparr>
                 else base)
           in Some (item'\<lparr>qi_updatedAt := now\<rparr>))"

definition lease_expired :: "int \<Rightarrow> int \<Rightarrow> int \<Rightarrow> queue_item \<Rightarrow> bool" where
  "lease_expired now publicationDispatchLeaseMs heartbeatGraceMs item \<longleftrightarrow>
     (qi_state item = ItDispatching \<or> qi_state item = ItLeased)
     \<and> \<not> isLiveExactReviewLease item now publicationDispatchLeaseMs heartbeatGraceMs"

definition reclaimExpiredExactReviewLease ::
  "int \<Rightarrow> int \<Rightarrow> int \<Rightarrow> env \<Rightarrow> string \<Rightarrow> queue_item \<Rightarrow> queue_state \<Rightarrow> queue_state \<times> bool" where
  "reclaimExpiredExactReviewLease now publicationDispatchLeaseMs heartbeatGraceMs env key item st =
     (if \<not> lease_expired now publicationDispatchLeaseMs heartbeatGraceMs item then (st, False)
      else case reclaim_item now env item of
             None \<Rightarrow> (delete_item key st, True)
           | Some item' \<Rightarrow> (st\<lparr>qs_items := AList.update key item' (qs_items st)\<rparr>, True))"

definition reclaimExpiredExactReviewLeases :: "int \<Rightarrow> int \<Rightarrow> int \<Rightarrow> env \<Rightarrow> queue_state \<Rightarrow> queue_state \<times> bool" where
  "reclaimExpiredExactReviewLeases now publicationDispatchLeaseMs heartbeatGraceMs env st =
     foldl (\<lambda>(s, changed) (key, item).
        case reclaimExpiredExactReviewLease now publicationDispatchLeaseMs heartbeatGraceMs env key item s of
          (s', b) \<Rightarrow> (s', changed \<or> b)) (st, False) (qs_items st)"

subsection \<open>Finishing a review lease\<close>

datatype completion_outcome = OutcomeSuccess | OutcomeFailure | OutcomeCancelled

datatype retry_kind = RetryCoordination | RetryThrottle

definition AGENT_INPUT_SCAN_FAILURE_REASONS :: "string list" where
  "AGENT_INPUT_SCAN_FAILURE_REASONS =
     [''scanner_unavailable'', ''scanner_failed'', ''findings'', ''deadline'', ''staging_limit'', ''incomplete_source'',
      ''source_drift'', ''unsafe_path'', ''unsupported_content'']"

definition agentInputScanFailureReason :: "string option \<Rightarrow> string option" where
  "agentInputScanFailureReason value =
     (case value of None \<Rightarrow> None
      | Some r \<Rightarrow> if List.member AGENT_INPUT_SCAN_FAILURE_REASONS r then Some r else None)"

definition terminalReviewFailureReason :: "string option \<Rightarrow> string option" where
  "terminalReviewFailureReason value =
     (if value = Some ''source_incompatible'' then value else agentInputScanFailureReason value)"

definition exactReviewRetryKind :: "string option \<Rightarrow> retry_kind option" where
  "exactReviewRetryKind value =
     (if value = Some ''coordination'' then Some RetryCoordination
      else if value = Some ''throttle'' then Some RetryThrottle else None)"

definition exactReviewCompletionRetryAt :: "string option \<Rightarrow> int \<Rightarrow> int option" where
  "exactReviewCompletionRetryAt value now =
     (if \<not> truthy value then None
      else case date_parse_opt value of None \<Rightarrow> None
        | Some retryAt \<Rightarrow> if retryAt > now + EXACT_REVIEW_COMPLETION_RETRY_MAX_MS then None else Some (max now retryAt))"

text \<open>\<open>manual:<run>:<item>\<close>, the run being 1 to 150 characters of \<open>[A-Za-z0-9_.:-]\<close>.\<close>

definition manual_run :: "string \<Rightarrow> (string \<times> string) option" where
  "manual_run s =
     (let r = drop 7 s; number = rev (takeWhile is_dec (rev r)); rest = take (length r - length number) r;
          run = butlast rest
      in if take 7 s = ''manual:'' \<and> number \<noteq> [] \<and> rest \<noteq> [] \<and> last rest = CHR '':''
            \<and> hd number \<noteq> CHR ''0'' \<and> 1 \<le> length run \<and> length run \<le> 150
            \<and> list_all (\<lambda>c. is_word_char c \<or> c = CHR '':'') run
         then Some (run, number) else None)"

definition freshScannerRefusalRetry :: "decision \<Rightarrow> string option \<Rightarrow> (int \<times> string) option \<Rightarrow> decision \<Rightarrow> bool" where
  "freshScannerRefusalRetry d deliveryId refusal refusedDecision =
     (case refusal of None \<Rightarrow> False
      | Some (observedAt, runId) \<Rightarrow>
          if bd_sourceAction d = ''re_review'' then
            bd_sourceCommentVerified d = Some True
            \<and> truthy (bd_commandStatusMarker d) \<and> num_truthy (bd_sourceCommentId d)
            \<and> truthy (bd_commandBodyDigest d) \<and> bd_commandOrigin d \<noteq> None
            \<and> (case date_parse_opt (bd_sourceCommentUpdatedAt d) of None \<Rightarrow> False
               | Some requestedAt \<Rightarrow>
                   requestedAt > max observedAt (num_or_zero (date_parse_opt (bd_sourceCommentUpdatedAt refusedDecision))))
          else
            bd_sourceAction d = MANUAL_REVIEW_SOURCE_ACTION
            \<and> decisionPublicationPolicy d = Inr (Some RecordCommentOnly)
            \<and> (case Option.bind deliveryId manual_run of None \<Rightarrow> False
               | Some (run, number) \<Rightarrow>
                   number = nat_str (bd_itemNumber d)
                   \<and> deliveryId \<noteq> bd_sourceDeliveryId refusedDecision
                   \<and> (if list_all is_dec run
                      then runId \<noteq> [] \<and> list_all is_dec runId \<and> dec_value run > dec_value runId
                      else bd_sourceAction refusedDecision \<noteq> MANUAL_REVIEW_SOURCE_ACTION
                           \<or> (truthy (bd_sourceDeliveryId refusedDecision) \<and> deliveryId \<noteq> bd_sourceDeliveryId refusedDecision))))"

text \<open>The JSON of a decision, its keys as the parser leaves them; an absent property is left out.\<close>

definition opt_field :: "string \<Rightarrow> ('a \<Rightarrow> json) \<Rightarrow> 'a option \<Rightarrow> (string \<times> json) list" where
  "opt_field key f v = (case v of None \<Rightarrow> [] | Some x \<Rightarrow> [(key, f x)])"

definition base_decision_fields :: "'a base_decision_scheme \<Rightarrow> (string \<times> json) list" where
  "base_decision_fields d =
     [(''targetRepo'', JStr (bd_targetRepo d)), (''targetBranch'', JStr (bd_targetBranch d)),
      (''itemNumber'', JNum (int (bd_itemNumber d))),
      (''itemKind'', JStr (if bd_itemKind d = PullItem then ''pull_request'' else ''issue'')),
      (''sourceEvent'', JStr (if bd_sourceEvent d = PullRequestEvent then ''pull_request'' else ''issues'')),
      (''sourceAction'', JStr (bd_sourceAction d)), (''supersedesInProgress'', JBool (bd_supersedesInProgress d))]
     @ opt_field ''publicationPolicy'' (\<lambda>p. JStr ''record_comment_only'') (bd_publicationPolicy d)
     @ opt_field ''sourceHeadSha'' JStr (bd_sourceHeadSha d)
     @ opt_field ''sourceBaseSha'' JStr (bd_sourceBaseSha d)
     @ opt_field ''sourceIsDraft'' JBool (bd_sourceIsDraft d)
     @ opt_field ''sourceContentRevision'' JStr (bd_sourceContentRevision d)
     @ opt_field ''expectedSourceRevision'' JStr (bd_expectedSourceRevision d)
     @ opt_field ''sourceHeadVerified'' JBool (bd_sourceHeadVerified d)
     @ opt_field ''sourceAuthoritySeq'' JNum (bd_sourceAuthoritySeq d)
     @ opt_field ''sourceUpdatedAt'' JStr (bd_sourceUpdatedAt d)
     @ opt_field ''sourceDeliveryId'' JStr (bd_sourceDeliveryId d)
     @ opt_field ''codexTimeoutMs'' JNum (bd_codexTimeoutMs d)
     @ opt_field ''mediaProofTimeoutMs'' JNum (bd_mediaProofTimeoutMs d)
     @ opt_field ''commandStatusMarker'' JStr (bd_commandStatusMarker d)
     @ opt_field ''statusCommentId'' JNum (bd_statusCommentId d)
     @ opt_field ''reviewAcknowledgementCommentId'' JNum (bd_reviewAcknowledgementCommentId d)
     @ opt_field ''additionalPrompt'' JStr (bd_additionalPrompt d)
     @ opt_field ''sourceCommentId'' JNum (bd_sourceCommentId d)
     @ opt_field ''sourceCommentUpdatedAt'' JStr (bd_sourceCommentUpdatedAt d)
     @ opt_field ''commandBodyDigest'' JStr (bd_commandBodyDigest d)
     @ opt_field ''commandOrigin'' (\<lambda>x. command_origin_json (Some x)) (bd_commandOrigin d)
     @ opt_field ''sourceCommentVerified'' JBool (bd_sourceCommentVerified d)"

definition receipt_outcome_json :: "receipt_outcome \<Rightarrow> json" where
  "receipt_outcome_json r =
     JStr (case r of ReceiptAccepted \<Rightarrow> ''accepted'' | ReceiptDeduped \<Rightarrow> ''deduped'' | ReceiptSuperseded \<Rightarrow> ''superseded'')"

definition publication_json :: "publication \<Rightarrow> json" where
  "publication_json p = JObj
     ([(''artifactName'', JStr (px_artifactName p)), (''producerRunId'', JStr (px_producerRunId p)),
       (''producerRunAttempt'', JNum (int (px_producerRunAttempt p))), (''sourceSha'', JStr (px_sourceSha p)),
       (''itemKey'', JStr (px_itemKey p)), (''protocolVersion'', JNum (px_protocolVersion p)),
       (''leaseRevision'', int_json (px_leaseRevision p)), (''claimGeneration'', int_json (px_claimGeneration p)),
       (''liveProceeded'', JBool (px_liveProceeded p)), (''liveTerminalNoop'', JBool (px_liveTerminalNoop p)),
       (''liveTerminalMissing'', JBool (px_liveTerminalMissing p)), (''liveGuardedOpen'', JBool (px_liveGuardedOpen p)),
       (''producerDecision'', JObj (base_decision_fields (px_producerDecision p)))]
      @ opt_field ''directLifecycle''
          (\<lambda>l. JObj [(''plan'', JObj [(''kind'', JStr (dl_planKind l))]), (''receiptOutcome'', receipt_outcome_json (dl_receiptOutcome l))])
          (px_directLifecycle p))"

definition decision_json :: "decision \<Rightarrow> json" where
  "decision_json d = JObj (base_decision_fields d @ opt_field ''publication'' publication_json (d_publication d))"

definition reviewFailureDecisionFingerprint :: "decision \<Rightarrow> string" where
  "reviewFailureDecisionFingerprint d = stableExactReviewFailureFingerprint (stableJson (decision_json d))"

text \<open>
  A finished lease: the item it leaves (\<open>None\<close> when it is deleted), whether the item is
  requeued and whether it is parked. The branches are those of \<open>finishExactReviewQueueItem\<close>,
  in its order.
\<close>

datatype finish_result =
  Finished (fin_item: "queue_item option") (fin_requeued: bool) (fin_parked: bool)

definition park_scanner_refused :: "int \<Rightarrow> string \<Rightarrow> queue_item \<Rightarrow> queue_item" where
  "park_scanner_refused now reason item =
     (let item' = item\<lparr>qi_decision := leased_decision item,
                       qi_scannerRefusal := Some (now, str_or_empty (le_claimedRunId (qi_lease item)))\<rparr>
      in (clearExactReviewLease item')\<lparr>qi_state := ItParked, qi_parkedReason := Some ScannerRefused,
           qi_parkedRecoveryAt := None, qi_backoffReason := None,
           qi_firstFailureAt := Some (case qi_firstFailureAt item of None \<Rightarrow> now | Some t \<Rightarrow> t),
           qi_updatedAt := now, qi_reviewFailure := Some (''agent_input_scan'', reason),
           qi_reviewFailureDecisionFingerprint := Some (reviewFailureDecisionFingerprint (leased_decision item))\<rparr>)"

definition park_held :: "int \<Rightarrow> hold_reason \<Rightarrow> queue_item \<Rightarrow> queue_item" where
  "park_held now hold item =
     (clearExactReviewLease (item\<lparr>qi_decision := leased_decision item\<rparr>))
       \<lparr>qi_state := ItParked, qi_parkedReason := Some (ParkedHold hold), qi_parkedRecoveryAt := None,
        qi_parkedTerminalCheckedAt := Some now, qi_backoffReason := None, qi_updatedAt := now\<rparr>"

definition park_source_incompatible :: "int \<Rightarrow> queue_item \<Rightarrow> queue_item" where
  "park_source_incompatible now item =
     (clearExactReviewLease item)
       \<lparr>qi_state := ItParked, qi_parkedReason := Some SourceIncompatible, qi_parkedRecoveryAt := None,
        qi_parkedTerminalCheckedAt := Some now, qi_backoffReason := None,
        qi_firstFailureAt := Some (case qi_firstFailureAt item of None \<Rightarrow> now | Some t \<Rightarrow> t), qi_updatedAt := now\<rparr>"

definition settle_item ::
  "int \<Rightarrow> completion_outcome \<Rightarrow> string option \<Rightarrow> hold_reason option \<Rightarrow> bool \<Rightarrow> queue_item \<Rightarrow> finish_result" where
  "settle_item now outcome reason hold hasNewerRevision item =
     (if hold \<noteq> None \<and> outcome = OutcomeSuccess \<and> \<not> hasNewerRevision
         \<and> exactReviewHoldApplies (the hold) (leased_decision item)
      then Finished (Some (park_held now (the hold) item)) False True
      else if reason = Some ''source_incompatible'' \<and> bd_itemKind (qi_decision item) = PullItem
         \<and> hex_of_length 40 (str_or_empty (bd_sourceHeadSha (qi_decision item)))
         \<and> \<not> exactReviewQueueHasCommandContext (qi_decision item)
      then Finished (Some (park_source_incompatible now item)) False True
      else Finished None False False)"

definition defer_item ::
  "int \<Rightarrow> int \<Rightarrow> int \<Rightarrow> retry_kind \<Rightarrow> bool \<Rightarrow> int option \<Rightarrow> queue_item \<Rightarrow> queue_item" where
  "defer_item dispatcherAttemptAt now requestedRetryAt kind hasNewerRevision sample item =
     (let deferredAttemptAt =
            (if hasNewerRevision then now
             else if kind = RetryThrottle then now + exactReviewJitteredDelayMs (max 0 (requestedRetryAt - now)) sample
             else requestedRetryAt);
          nextAttemptAt = max dispatcherAttemptAt deferredAttemptAt
      in item\<lparr>qi_nextAttemptAt := nextAttemptAt,
           qi_backoffReason :=
             Some (if dispatcherAttemptAt \<ge> nextAttemptAt then DispatcherBackoff
                   else if kind = RetryCoordination then CoordinationRetry else ThrottleRetry),
           qi_parkedReason := None\<rparr>)"

definition retry_failed_item ::
  "int \<Rightarrow> int \<Rightarrow> int \<Rightarrow> env \<Rightarrow> int option \<Rightarrow> queue_item \<Rightarrow> finish_result" where
  "retry_failed_item dispatcherAttemptAt now requestedRetryAt env sample item0 =
     (let publication = exactReviewQueueIsPublication (qi_decision item0);
          failureAttempts = number_or_0 (qi_reviewFailureAttempts item0) + 1;
          item1 = item0\<lparr>qi_attempts := qi_attempts item0 + 1\<rparr>;
          item = (if publication then item1
                  else item1\<lparr>qi_reviewFailureAttempts := Some failureAttempts,
                             qi_reviewRetryPolicyEpoch := Some (exactReviewRetryPolicyEpoch env)\<rparr>)
      in if \<not> publication \<and> failureAttempts \<ge> EXACT_REVIEW_RETRY_LIMIT
         then Finished (Some (parkRecoverableExactReviewItem ReviewRetryExhausted now sample item)) False True
         else
           let nextAttemptAt = max dispatcherAttemptAt
                                 (max (now + exactReviewRetryDelayMs (qi_attempts item)) requestedRetryAt)
           in Finished (Some (item\<lparr>qi_nextAttemptAt := nextAttemptAt,
                qi_backoffReason := Some (if dispatcherAttemptAt \<ge> nextAttemptAt then DispatcherBackoff else ReviewRetry),
                qi_updatedAt := now\<rparr>)) True False)"

text \<open>A success forgets the previous failure; an untyped failure of unchanged input is remembered.\<close>

definition forget_failure :: "completion_outcome \<Rightarrow> queue_item \<Rightarrow> queue_item" where
  "forget_failure outcome item =
     (if outcome = OutcomeSuccess
      then item\<lparr>qi_reviewFailure := None, qi_reviewFailureDecisionFingerprint := None\<rparr> else item)"

definition mark_recovery :: "bool \<Rightarrow> completion_outcome \<Rightarrow> int \<Rightarrow> queue_item \<Rightarrow> queue_item" where
  "mark_recovery untypedFailure outcome now item =
     (if untypedFailure
      then item\<lparr>qi_reviewRecoveryReason := Some (if outcome = OutcomeCancelled then RecoveredCancelled else RecoveredFailed),
                qi_reviewRecoveryAt := Some now\<rparr>
      else item)"

text \<open>The item that stays queued: deferred as asked, retried after a failure, or started afresh.\<close>

definition requeue_item ::
  "int \<times> backoff_reason option \<Rightarrow> int \<Rightarrow> int \<Rightarrow> retry_kind option \<Rightarrow> bool \<Rightarrow> bool \<Rightarrow> int option \<Rightarrow> env \<Rightarrow>
   queue_item \<Rightarrow> finish_result" where
  "requeue_item enqueueAttempt now requestedRetryAt deferral failedUnchanged hasNewerRevision sample env item =
     (let pending = (clearExactReviewLease item)\<lparr>qi_state := ItPending\<rparr>
      in case deferral of
           Some kind \<Rightarrow>
             Finished (Some ((defer_item (fst enqueueAttempt) now requestedRetryAt kind hasNewerRevision sample pending)
               \<lparr>qi_updatedAt := now\<rparr>)) True False
         | None \<Rightarrow>
             if failedUnchanged then retry_failed_item (fst enqueueAttempt) now requestedRetryAt env sample pending
             else Finished (Some (clearExactReviewReviewRecovery
                    ((assign_attempt enqueueAttempt pending)\<lparr>qi_attempts := 0, qi_reviewFailureAttempts := Some 0,
                       qi_reviewRetryPolicyEpoch := Some (exactReviewRetryPolicyEpoch env), qi_parkedReason := None,
                       qi_parkedRecoveryAttempts := Some 0, qi_updatedAt := now\<rparr>))) True False)"

definition has_newer_revision :: "queue_item \<Rightarrow> bool" where
  "has_newer_revision item \<longleftrightarrow> qi_revision item > number_or_0 (le_leaseRevision (qi_lease item))"

definition finish_item ::
  "int \<times> backoff_reason option \<Rightarrow> int \<Rightarrow> completion_outcome \<Rightarrow> int \<Rightarrow> bool \<Rightarrow> retry_kind option \<Rightarrow>
   string option \<Rightarrow> int option \<Rightarrow> env \<Rightarrow> hold_reason option \<Rightarrow> queue_item \<Rightarrow> finish_result" where
  "finish_item enqueueAttempt now outcome requestedRetryAt requeueLatest retryKind reason sample env hold item0 =
     (let item1 = forget_failure outcome item0;
          leaseDecision = leased_decision item0;
          retryingFailure = (outcome \<noteq> OutcomeSuccess \<and> reason = None);
          hasNewerRevision = has_newer_revision item0;
          freshSuccessor = (hasNewerRevision
            \<and> freshScannerRefusalRetry (qi_decision item0) (qi_admissionDeliveryId item0)
                (Some (now, str_or_empty (le_claimedRunId (qi_lease item0)))) leaseDecision)
      in if outcome \<noteq> OutcomeSuccess \<and> agentInputScanFailureReason reason \<noteq> None \<and> \<not> freshSuccessor
         then Finished (Some (park_scanner_refused now (str_or_empty reason) item1)) False True
         else
           let retryPolicyChanged = (item_epoch item0 \<noteq> exactReviewRetryPolicyEpoch env);
               sourceIdentityChanged = (hasNewerRevision \<and> exactReviewInputIdentityChanged leaseDecision (qi_decision item0));
               retryIdentityChanged = (retryPolicyChanged \<or> sourceIdentityChanged);
               item = mark_recovery (\<not> exactReviewQueueIsPublication (qi_decision item0) \<and> retryingFailure
                        \<and> retryKind = None \<and> \<not> retryIdentityChanged \<and> \<not> requeueLatest) outcome now item1;
               typedDeferral = (retryKind \<noteq> None \<and> \<not> sourceIdentityChanged \<and> \<not> requeueLatest);
               oneShotRecovery = (map_option bd_sourceAction (le_leaseDecision (qi_lease item0))
                                  = Some FAILED_REVIEW_SHARD_RECOVERY_SOURCE_ACTION);
               requeued = (typedDeferral \<or> (\<not> oneShotRecovery \<and> retryingFailure) \<or> sourceIdentityChanged
                           \<or> (retryingFailure \<and> retryPolicyChanged) \<or> requeueLatest)
           in if \<not> requeued then settle_item now outcome reason hold hasNewerRevision item
              else requeue_item enqueueAttempt now requestedRetryAt (if typedDeferral then retryKind else None)
                     (retryingFailure \<and> \<not> retryIdentityChanged) hasNewerRevision sample env item)"

definition finishExactReviewQueueItem ::
  "queue_state \<Rightarrow> queue_item \<Rightarrow> int \<Rightarrow> completion_outcome \<Rightarrow> int \<Rightarrow> bool \<Rightarrow> retry_kind option \<Rightarrow>
   string option \<Rightarrow> int option \<Rightarrow> env \<Rightarrow> hold_reason option \<Rightarrow> queue_state \<times> bool \<times> bool" where
  "finishExactReviewQueueItem st item now outcome requestedRetryAt requeueLatest retryKind reason sample env hold =
     (case finish_item (exactReviewQueueEnqueueAttempt st now) now outcome requestedRetryAt requeueLatest retryKind
             reason sample env hold item of
        Finished None requeued parked \<Rightarrow> (delete_item (qi_key item) st, requeued, parked)
      | Finished (Some item') requeued parked \<Rightarrow> (put_item item' st, requeued, parked))"

subsection \<open>Normalizing a stored item\<close>

text \<open>The retired fields that the source also deletes are not part of the records.\<close>

definition REQUEST_CONTINUATION_DELIVERY_PREFIXES :: "string list" where
  "REQUEST_CONTINUATION_DELIVERY_PREFIXES =
     [DIRECT_LIFECYCLE_REQUEUE_DELIVERY_PREFIX, HELD_PUBLICATION_REQUEUE_DELIVERY_PREFIX]"

definition drop_drift_verification :: "decision \<Rightarrow> decision" where
  "drop_drift_verification d =
     (if bd_sourceAction d = EXACT_REVIEW_SOURCE_DRIFT_REQUEUE_SOURCE_ACTION then d\<lparr>bd_sourceCommentVerified := None\<rparr> else d)"

definition removeOrphanedRequestVerification :: "queue_item \<Rightarrow> queue_item" where
  "removeOrphanedRequestVerification item =
     (if list_ex (\<lambda>prefix. take (length prefix) (str_or_empty (qi_admissionDeliveryId item)) = prefix)
           REQUEST_CONTINUATION_DELIVERY_PREFIXES
      then item
      else item\<lparr>qi_decision := drop_drift_verification (qi_decision item),
                qi_lease := (qi_lease item)\<lparr>le_leaseDecision :=
                  map_option drop_drift_verification (le_leaseDecision (qi_lease item))\<rparr>\<rparr>)"


text \<open>
  The item that \<open>enqueue\<close> creates for a key without one (the revision is allocated by the
  caller's store, and \<open>activeItem\<close> says whether the item has been reviewed often lately), and
  the parked item it creates when the source drift series of the key is spent.
\<close>

definition new_item :: "string \<Rightarrow> decision \<Rightarrow> string \<Rightarrow> int \<Rightarrow> int \<Rightarrow> env \<Rightarrow> queue_item" where
  "new_item key d deliveryId revision now env =
     \<lparr>qi_key = key, qi_decision = d, qi_admissionDeliveryId = Some deliveryId, qi_ingressFingerprint = None,
      qi_lease = no_lease, qi_sourceAuthorityWatermark = exactReviewSourceAuthorityWatermark d, qi_state = ItPending,
      qi_revision = revision, qi_createdAt = now, qi_updatedAt = now, qi_nextAttemptAt = now,
      qi_prReviewObservation = None, qi_backoffReason = None, qi_attempts = 0, qi_parkedReason = None,
      qi_parkedRecoveryAttempts = None, qi_parkedRecoveryAt = None, qi_parkedTerminalCheckedAt = None,
      qi_dispatchFailure = \<lparr>df_status = None, df_class = None, df_at = None, df_fingerprint = None, df_detail = None\<rparr>,
      qi_lastFailureReason = None, qi_firstFailureAt = None, qi_publicationFailureAttempts = None,
      qi_publicationSuccessorWitness = None, qi_reviewFailureAttempts = None, qi_reviewFailure = None,
      qi_reviewFailureDecisionFingerprint = None, qi_reviewRetryPolicyEpoch = Some (exactReviewRetryPolicyEpoch env),
      qi_scannerRefusal = None, qi_reviewRecoveryReason = None, qi_reviewRecoveryAt = None,
      qi_reviewBudgetPrepaid = False, qi_terminalFinalization = None\<rparr>"

definition admitted_item ::
  "queue_state \<Rightarrow> string \<Rightarrow> decision \<Rightarrow> string \<Rightarrow> bool \<Rightarrow> string option \<Rightarrow> int \<Rightarrow> int \<Rightarrow> env \<Rightarrow> bool \<Rightarrow> queue_item" where
  "admitted_item st key d deliveryId continuesHeldRequest fingerprint revision now env activeItem =
     removeOrphanedRequestVerification
       (assign_attempt (exactReviewQueueDebouncedAttempt st d now now env True activeItem)
          ((new_item key d (if continuesHeldRequest then HELD_PUBLICATION_REQUEUE_DELIVERY_PREFIX @ deliveryId else deliveryId)
              revision now env)
             \<lparr>qi_ingressFingerprint := fingerprint, qi_reviewBudgetPrepaid := (exactReviewScheduledLane d \<noteq> None)\<rparr>))"

definition drift_parked_item :: "string \<Rightarrow> decision \<Rightarrow> string \<Rightarrow> int \<Rightarrow> int \<Rightarrow> env \<Rightarrow> queue_item" where
  "drift_parked_item key d deliveryId revision now env =
     (new_item key d deliveryId revision now env)
       \<lparr>qi_state := ItParked, qi_parkedReason := Some SourceDriftLoop, qi_parkedTerminalCheckedAt := Some now\<rparr>"

subsection \<open>The items of a state\<close>

lemma item_at_put [simp]:
  "item_at (put_item item st) k = (if k = qi_key item then Some item else item_at st k)"
  by (simp add: item_at_def put_item_def update_conv')

lemma item_at_delete [simp]: "item_at (delete_item key st) k = (if k = key then None else item_at st k)"
  by (simp add: item_at_def delete_item_def delete_conv')

lemma update_middle:
  "k \<notin> fst ` set pre \<Longrightarrow> AList.update k v (pre @ (k, u) # xs) = pre @ (k, v) # xs"
  by (induction pre) auto

lemma delete_middle:
  "k \<notin> fst ` set pre \<Longrightarrow> k \<notin> fst ` set xs \<Longrightarrow> AList.delete k (pre @ (k, u) # xs) = pre @ xs"
  by (induction pre) (auto simp: delete_id)

subsection \<open>Bounds of the jitter and the retry delay\<close>

lemma delay_jitter_bounds:
  "(3 * max 0 d + 3) div 4 \<le> exactReviewJitteredDelayMs d sample"
  "exactReviewJitteredDelayMs d sample \<le> max ((3 * max 0 d + 3) div 4) (3 * max 0 d div 2)"
proof -
  have clamp: "m \<le> max m (min M r)" "max m (min M r) \<le> max m M" for m M r :: int by auto
  show "(3 * max 0 d + 3) div 4 \<le> exactReviewJitteredDelayMs d sample"
    unfolding exactReviewJitteredDelayMs_def Let_def by (rule clamp)
  show "exactReviewJitteredDelayMs d sample \<le> max ((3 * max 0 d + 3) div 4) (3 * max 0 d div 2)"
    unfolding exactReviewJitteredDelayMs_def Let_def by (rule clamp)
qed

lemma jittered_ge_0: "0 \<le> exactReviewJitteredDelayMs d sample"
  using delay_jitter_bounds(1)[of d sample] by (smt (verit) pos_imp_zdiv_nonneg_iff)

lemma retry_delay_pos: "0 < exactReviewRetryDelayMs attempt"
  by (simp add: exactReviewRetryDelayMs_def queue_consts min_def)

subsection \<open>The leases of finished items\<close>

lemma lease_cleared [simp]:
  "qi_lease (clearExactReviewLease item) = no_lease" "qi_key (clearExactReviewLease item) = qi_key item"
  "qi_state (clearExactReviewLease item) = qi_state item" "qi_revision (clearExactReviewLease item) = qi_revision item"
  "qi_decision (clearExactReviewLease item) = qi_decision item"
  "qi_reviewFailureAttempts (clearExactReviewLease item) = qi_reviewFailureAttempts item"
  "qi_reviewRetryPolicyEpoch (clearExactReviewLease item) = qi_reviewRetryPolicyEpoch item"
  "qi_parkedRecoveryAttempts (clearExactReviewLease item) = qi_parkedRecoveryAttempts item"
  "qi_attempts (clearExactReviewLease item) = qi_attempts item"
  by (simp_all add: clearExactReviewLease_def)

lemma recovery_cleared [simp]:
  "qi_lease (clearExactReviewReviewRecovery item) = qi_lease item"
  "qi_key (clearExactReviewReviewRecovery item) = qi_key item"
  "qi_state (clearExactReviewReviewRecovery item) = qi_state item"
  "qi_revision (clearExactReviewReviewRecovery item) = qi_revision item"
  "qi_decision (clearExactReviewReviewRecovery item) = qi_decision item"
  "qi_reviewFailureAttempts (clearExactReviewReviewRecovery item) = qi_reviewFailureAttempts item"
  "qi_reviewRetryPolicyEpoch (clearExactReviewReviewRecovery item) = qi_reviewRetryPolicyEpoch item"
  "qi_parkedRecoveryAttempts (clearExactReviewReviewRecovery item) = qi_parkedRecoveryAttempts item"
  "qi_attempts (clearExactReviewReviewRecovery item) = qi_attempts item"
  "qi_nextAttemptAt (clearExactReviewReviewRecovery item) = qi_nextAttemptAt item"
  by (simp_all add: clearExactReviewReviewRecovery_def)

text \<open>What every branch of a finished lease leaves of the item.\<close>

definition settled :: "string \<Rightarrow> int \<Rightarrow> finish_result \<Rightarrow> bool" where
  "settled key revision r =
     (case r of Finished None requeued parked \<Rightarrow> \<not> requeued \<and> \<not> parked
      | Finished (Some item) requeued parked \<Rightarrow>
          qi_key item = key \<and> qi_revision item = revision \<and> qi_lease item = no_lease
          \<and> requeued \<noteq> parked \<and> qi_state item = (if parked then ItParked else ItPending))"

lemma settled_simps [simp]:
  "settled key revision (Finished None requeued parked) \<longleftrightarrow> \<not> requeued \<and> \<not> parked"
  "settled key revision (Finished (Some item) requeued parked) \<longleftrightarrow>
     qi_key item = key \<and> qi_revision item = revision \<and> qi_lease item = no_lease
     \<and> requeued \<noteq> parked \<and> qi_state item = (if parked then ItParked else ItPending)"
  by (simp_all add: settled_def)

lemma settled_if: "settled key revision r \<Longrightarrow> settled key revision r' \<Longrightarrow> settled key revision (if b then r else r')"
  by simp

lemma settle_item_settled: "settled (qi_key item) (qi_revision item) (settle_item now outcome reason hold newer item)"
  by (simp add: settle_item_def park_held_def park_source_incompatible_def)

lemma park_recoverable_fields [simp]:
  "qi_key (parkRecoverableExactReviewItem reason now sample item) = qi_key item"
  "qi_revision (parkRecoverableExactReviewItem reason now sample item) = qi_revision item"
  "qi_lease (parkRecoverableExactReviewItem reason now sample item) = qi_lease item"
  "qi_decision (parkRecoverableExactReviewItem reason now sample item) = qi_decision item"
  "qi_state (parkRecoverableExactReviewItem reason now sample item) = ItParked"
  "qi_parkedReason (parkRecoverableExactReviewItem reason now sample item) = Some reason"
  "qi_reviewFailureAttempts (parkRecoverableExactReviewItem reason now sample item) = qi_reviewFailureAttempts item"
  "qi_reviewRetryPolicyEpoch (parkRecoverableExactReviewItem reason now sample item) = qi_reviewRetryPolicyEpoch item"
  "qi_parkedRecoveryAttempts (parkRecoverableExactReviewItem reason now sample item) = qi_parkedRecoveryAttempts item"
  by (simp_all add: parkRecoverableExactReviewItem_def Let_def)

lemma retry_failed_settled:
  "qi_lease item = no_lease \<Longrightarrow> qi_state item = ItPending \<Longrightarrow>
     settled (qi_key item) (qi_revision item) (retry_failed_item at now retryAt env sample item)"
  by (simp add: retry_failed_item_def Let_def)

lemma defer_item_fields [simp]:
  "qi_key (defer_item at now retryAt kind newer sample item) = qi_key item"
  "qi_revision (defer_item at now retryAt kind newer sample item) = qi_revision item"
  "qi_lease (defer_item at now retryAt kind newer sample item) = qi_lease item"
  "qi_state (defer_item at now retryAt kind newer sample item) = qi_state item"
  by (simp_all add: defer_item_def Let_def)


lemma requeue_item_settled:
  "settled (qi_key item) (qi_revision item)
     (requeue_item attempt now retryAt deferral failed newer sample env item)"
  using retry_failed_settled[of "(clearExactReviewLease item)\<lparr>qi_state := ItPending\<rparr>" "fst attempt" now retryAt env sample]
  by (simp add: requeue_item_def Let_def assign_attempt_def split: option.split)

lemma marked_fields [simp]:
  "qi_key (mark_recovery b outcome now item) = qi_key item"
  "qi_revision (mark_recovery b outcome now item) = qi_revision item"
  "qi_lease (mark_recovery b outcome now item) = qi_lease item"
  "qi_decision (mark_recovery b outcome now item) = qi_decision item"
  "qi_reviewFailureAttempts (mark_recovery b outcome now item) = qi_reviewFailureAttempts item"
  "qi_parkedRecoveryAttempts (mark_recovery b outcome now item) = qi_parkedRecoveryAttempts item"
  "qi_reviewRetryPolicyEpoch (mark_recovery b outcome now item) = qi_reviewRetryPolicyEpoch item"
  "qi_key (forget_failure outcome item) = qi_key item"
  "qi_revision (forget_failure outcome item) = qi_revision item"
  "qi_lease (forget_failure outcome item) = qi_lease item"
  "qi_decision (forget_failure outcome item) = qi_decision item"
  "qi_reviewFailureAttempts (forget_failure outcome item) = qi_reviewFailureAttempts item"
  "qi_parkedRecoveryAttempts (forget_failure outcome item) = qi_parkedRecoveryAttempts item"
  "qi_reviewRetryPolicyEpoch (forget_failure outcome item) = qi_reviewRetryPolicyEpoch item"
  by (simp_all add: mark_recovery_def forget_failure_def)

lemma leased_decision_marked [simp]:
  "leased_decision (mark_recovery b outcome now item) = leased_decision item"
  "leased_decision (forget_failure outcome item) = leased_decision item"
  by (simp_all add: leased_decision_def split: option.split)

lemma finish_item_settled:
  "settled (qi_key item) (qi_revision item)
     (finish_item attempt now outcome retryAt requeueLatest kind reason sample env hold item)"
proof -
  have scan: "settled (qi_key item) (qi_revision item)
      (Finished (Some (park_scanner_refused now r (forget_failure outcome item))) False True)" for r
    by (simp add: park_scanner_refused_def Let_def)
  have settle: "settled (qi_key item) (qi_revision item)
      (settle_item now outcome reason hold newer (mark_recovery b outcome now (forget_failure outcome item)))" for newer b
    using settle_item_settled[of "mark_recovery b outcome now (forget_failure outcome item)" now outcome reason hold newer]
    by simp
  have requeue: "settled (qi_key item) (qi_revision item)
      (requeue_item attempt now retryAt d failed newer sample env (mark_recovery b outcome now (forget_failure outcome item)))"
    for d failed newer b
    using requeue_item_settled[of "mark_recovery b outcome now (forget_failure outcome item)" attempt now retryAt d failed newer sample env]
    by simp
  show ?thesis
    unfolding finish_item_def Let_def by (intro settled_if scan settle requeue)
qed

text \<open>
  What a finished lease still owes: another look was asked for, a typed retry was asked for, input
  newer than what was leased arrived, or the review failed without a terminal reason. (A one-shot
  recovery of a failed shard is not tried again after a failure, unless the retry policy changed.)
\<close>

definition review_owed :: "env \<Rightarrow> completion_outcome \<Rightarrow> bool \<Rightarrow> retry_kind option \<Rightarrow> string option \<Rightarrow> queue_item \<Rightarrow> bool" where
  "review_owed env outcome requeueLatest kind reason item \<longleftrightarrow>
     requeueLatest \<or> kind \<noteq> None
     \<or> (number_or_0 (le_leaseRevision (qi_lease item)) < qi_revision item
         \<and> exactReviewInputIdentityChanged (leased_decision item) (qi_decision item))
     \<or> (outcome \<noteq> OutcomeSuccess \<and> reason = None
         \<and> (map_option bd_sourceAction (le_leaseDecision (qi_lease item)) = Some FAILED_REVIEW_SHARD_RECOVERY_SOURCE_ACTION
             \<longrightarrow> item_epoch item \<noteq> exactReviewRetryPolicyEpoch env))"

lemma requeue_item_kept: "requeue_item attempt now retryAt deferral failed newer sample env item \<noteq> Finished None rq pk"
  by (auto simp: requeue_item_def retry_failed_item_def Let_def split: option.splits)

lemma finish_item_nothing_owed:
  assumes "finish_item attempt now outcome retryAt requeueLatest kind reason sample env hold item = Finished None rq pk"
  shows "\<not> review_owed env outcome requeueLatest kind reason item"
  using assms requeue_item_kept
  by (auto simp: finish_item_def review_owed_def has_newer_revision_def Let_def split: if_splits)

lemma finish_cases:
  assumes "finishExactReviewQueueItem st item now outcome retryAt requeueLatest kind reason sample env hold
             = (st', requeued, parked)"
  obtains (deleted) "st' = delete_item (qi_key item) st" "\<not> requeued" "\<not> parked"
      "\<not> review_owed env outcome requeueLatest kind reason item"
  | (kept) item' where "st' = put_item item' st" "qi_key item' = qi_key item" "qi_revision item' = qi_revision item"
      "qi_lease item' = no_lease" "requeued \<noteq> parked" "qi_state item' = (if parked then ItParked else ItPending)"
proof -
  let ?r = "finish_item (exactReviewQueueEnqueueAttempt st now) now outcome retryAt requeueLatest kind reason sample env hold item"
  have "settled (qi_key item) (qi_revision item) ?r" by (rule finish_item_settled)
  with assms that show thesis
    using finish_item_nothing_owed[of "exactReviewQueueEnqueueAttempt st now" now outcome retryAt requeueLatest kind reason sample env hold item]
    by (cases ?r rule: finish_result.exhaust; cases "fin_item ?r")
      (auto simp: finishExactReviewQueueItem_def)
qed


text \<open>The inputs of the witnesses: a queue with one item whose review lease is live.\<close>

definition sample_env :: env where
  "sample_env = (\<lambda>_. None)"

definition sample_review_item :: queue_item where
  "sample_review_item = new_item ''o/r#7'' sample_decision ''d-1'' 3 1000 sample_env"

definition sample_leased_item :: queue_item where
  "sample_leased_item = sample_review_item\<lparr>qi_state := ItLeased, qi_lease := no_lease\<lparr>le_leaseId := Some ''l-1'', le_leaseRevision := Some 3,
     le_leaseDecision := Some sample_decision, le_leaseExpiresAt := Some 5000, le_claimedRunId := Some ''9'',
     le_claimedRunAttempt := Some 1, le_claimGeneration := Some 1, le_claimProtocolVersion := Some 2\<rparr>\<rparr>"

definition sample_queue :: queue_state where
  "sample_queue = \<lparr>qs_items = [(''o/r#7'', sample_leased_item), (''o/r#8'', sample_review_item\<lparr>qi_key := ''o/r#8''\<rparr>)],
     qs_shedSinceReset = None, qs_dispatcher = None\<rparr>"

text \<open>
  C7. A finished review lease never leaves its item stuck: whatever the outcome, the reason, the
  requested retry and the state of the item, either the item is gone (and neither requeued nor
  parked is reported), or it keeps its revision, has no lease any more and is either pending
  (reported requeued) or parked (reported parked). It is gone only when no review is owed: nobody
  asked for another look or a later retry, no newer input that differs from what was leased is
  waiting, and the review did not fail without a terminal reason (but for the one-shot recovery of
  a failed shard under an unchanged retry policy). No other item of the queue changes.
\<close>

theorem finish_review_settles:
  assumes "finishExactReviewQueueItem st item now outcome retryAt requeueLatest kind reason sample env hold
             = (st', requeued, parked)"
  shows "(case item_at st' (qi_key item) of
            None \<Rightarrow> \<not> requeued \<and> \<not> parked \<and> \<not> review_owed env outcome requeueLatest kind reason item
          | Some item' \<Rightarrow> qi_lease item' = no_lease \<and> qi_revision item' = qi_revision item \<and> requeued \<noteq> parked
              \<and> qi_state item' = (if parked then ItParked else ItPending))
        \<and> (\<forall>k. k \<noteq> qi_key item \<longrightarrow> item_at st' k = item_at st k)"
  using assms by (cases rule: finish_cases) simp_all

lemma finish_review_settles_witness:
  "\<exists>st' requeued parked. finishExactReviewQueueItem sample_queue sample_leased_item 2000 OutcomeFailure 0 False None None None
       sample_env None = (st', requeued, parked)
     \<and> item_at st' ''o/r#8'' = item_at sample_queue ''o/r#8''"
proof -
  obtain st' requeued parked where run: "finishExactReviewQueueItem sample_queue sample_leased_item 2000 OutcomeFailure 0 False
      None None None sample_env None = (st', requeued, parked)"
    by (metis prod.collapse)
  have "qi_key sample_leased_item = ''o/r#7''" by (simp add: sample_leased_item_def sample_review_item_def new_item_def)
  with finish_review_settles[OF run] have "item_at st' ''o/r#8'' = item_at sample_queue ''o/r#8''" by simp
  with run show ?thesis by blast
qed

subsection \<open>Newer input is reviewed\<close>

lemma finish_item_newer:
  assumes "has_newer_revision item" "exactReviewInputIdentityChanged (leased_decision item) (qi_decision item)"
    and "agentInputScanFailureReason reason = None \<or> outcome = OutcomeSuccess"
  shows "finish_item attempt now outcome retryAt requeueLatest kind reason sample env hold item =
    Finished (Some (clearExactReviewReviewRecovery
      ((assign_attempt attempt ((clearExactReviewLease (forget_failure outcome item))\<lparr>qi_state := ItPending\<rparr>))
         \<lparr>qi_attempts := 0, qi_reviewFailureAttempts := Some 0,
          qi_reviewRetryPolicyEpoch := Some (exactReviewRetryPolicyEpoch env), qi_parkedReason := None,
          qi_parkedRecoveryAttempts := Some 0, qi_updatedAt := now\<rparr>))) True False"
  using assms by (auto simp: finish_item_def Let_def requeue_item_def mark_recovery_def)

text \<open>
  Input that arrived during a lease is never lost: when the item has a newer revision whose
  input differs from what was leased, finishing the lease (with any outcome but a scanner refusal)
  requeues the item with the newer decision, as a pending item with a fresh retry budget, due now
  or when the dispatcher resumes; no hold, terminal failure, requested delay or one-shot recovery
  of the old lease stops it.
\<close>

theorem newer_input_requeued:
  assumes "has_newer_revision item" "exactReviewInputIdentityChanged (leased_decision item) (qi_decision item)"
    and "agentInputScanFailureReason reason = None \<or> outcome = OutcomeSuccess"
    and "finishExactReviewQueueItem st item now outcome retryAt requeueLatest kind reason sample env hold
           = (st', requeued, parked)"
  shows "requeued \<and> (\<exists>item'. item_at st' (qi_key item) = Some item' \<and> qi_decision item' = qi_decision item
           \<and> qi_state item' = ItPending \<and> qi_reviewFailureAttempts item' = Some 0 \<and> qi_attempts item' = 0
           \<and> qi_nextAttemptAt item' = exactReviewQueueEnqueueAttemptAt st now)"
  using assms(4) unfolding finishExactReviewQueueItem_def finish_item_newer[OF assms(1-3)]
  by (auto simp: assign_attempt_def exactReviewQueueEnqueueAttempt_def Let_def)


definition sample_commented :: queue_item where
  "sample_commented = sample_leased_item\<lparr>qi_revision := 4, qi_decision := sample_decision\<lparr>bd_additionalPrompt := Some ''look''\<rparr>\<rparr>"

lemma newer_input_requeued_witness:
  "\<exists>st' requeued parked. finishExactReviewQueueItem sample_queue sample_commented 2000 OutcomeSuccess 0 False None None None
       sample_env (Some LockedConversation) = (st', requeued, parked) \<and> requeued"
proof -
  obtain st' requeued parked where run: "finishExactReviewQueueItem sample_queue sample_commented 2000 OutcomeSuccess 0 False
      None None None sample_env (Some LockedConversation) = (st', requeued, parked)"
    by (metis prod.collapse)
  have "has_newer_revision sample_commented"
    by (simp add: has_newer_revision_def sample_commented_def sample_leased_item_def sample_review_item_def new_item_def no_lease_def)
  moreover have "exactReviewInputIdentityChanged (leased_decision sample_commented) (qi_decision sample_commented)"
    by (simp add: exactReviewInputIdentityChanged_def leased_decision_def sample_commented_def sample_leased_item_def
        sample_review_item_def new_item_def no_lease_def sample_decision_def)
  ultimately have requeued using newer_input_requeued[OF _ _ _ run] by simp
  with run show ?thesis by blast
qed

subsection \<open>Reclaiming\<close>

text \<open>The sweep over the whole queue, item by item, as one pass over the list.\<close>

definition reclaim_entry ::
  "int \<Rightarrow> int \<Rightarrow> int \<Rightarrow> env \<Rightarrow> string \<times> queue_item \<Rightarrow> (string \<times> queue_item) option" where
  "reclaim_entry now publicationDispatchLeaseMs heartbeatGraceMs env e =
     (if lease_expired now publicationDispatchLeaseMs heartbeatGraceMs (snd e)
      then map_option (Pair (fst e)) (reclaim_item now env (snd e)) else Some e)"

lemma reclaim_fold:
  assumes "distinct (map fst (pre @ xs))"
  shows "foldl (\<lambda>(s, changed) (key, item).
            case reclaimExpiredExactReviewLease now p g env key item s of (s', b) \<Rightarrow> (s', changed \<or> b))
          (st\<lparr>qs_items := pre @ xs\<rparr>, c) xs
       = (st\<lparr>qs_items := pre @ List.map_filter (reclaim_entry now p g env) xs\<rparr>,
          c \<or> list_ex (\<lambda>e. lease_expired now p g (snd e)) xs)"
  using assms
proof (induction xs arbitrary: pre c)
  case (Cons e xs)
  obtain k item where e: "e = (k, item)" by (cases e)
  have k: "k \<notin> fst ` set pre" "k \<notin> fst ` set xs" using Cons.prems e by auto
  show ?case
  proof (cases "lease_expired now p g item")
    case False
    with Cons.IH[of "pre @ [e]" c] Cons.prems e show ?thesis
      by (simp add: reclaimExpiredExactReviewLease_def reclaim_entry_def map_filter_simps)
  next
    case True
    show ?thesis
    proof (cases "reclaim_item now env item")
      case None
      with True Cons.IH[of pre True] Cons.prems e k show ?thesis
        by (simp add: reclaimExpiredExactReviewLease_def reclaim_entry_def map_filter_simps delete_item_def delete_middle)
    next
      case (Some item')
      with True Cons.IH[of "pre @ [(k, item')]" True] Cons.prems e k show ?thesis
        by (simp add: reclaimExpiredExactReviewLease_def reclaim_entry_def map_filter_simps update_middle)
    qed
  qed
qed (simp add: map_filter_simps)

lemma reclaimed_not_expired:
  "reclaim_item now env item = Some item' \<Longrightarrow> qi_state item' = ItPending \<and> qi_lease item' = no_lease \<and> qi_key item' = qi_key item"
  by (auto simp: reclaim_item_def Let_def clearExactReviewReviewRecovery_def clearExactReviewLease_def split: if_splits)

lemma reclaim_entry_not_expired:
  "reclaim_entry now p g env e = Some e' \<Longrightarrow> \<not> lease_expired now p g (snd e')"
  by (auto simp: reclaim_entry_def lease_expired_def dest: reclaimed_not_expired split: if_splits)

text \<open>
  C13. The reclaim sweep over a queue (whose keys are distinct) is one pass over its items: an
  item whose lease is live, or that is not leased, stays exactly as it is; an item with a dead
  lease is reclaimed (or deleted, for a one-shot recovery without newer work); a change is
  reported iff some lease was dead; and afterwards no dispatching or leased item with a dead
  lease is left.
\<close>

theorem reclaim_sweep_exact:
  assumes "distinct (map fst (qs_items st))"
  shows "reclaimExpiredExactReviewLeases now p g env st =
      (st\<lparr>qs_items := List.map_filter (reclaim_entry now p g env) (qs_items st)\<rparr>,
       list_ex (\<lambda>e. lease_expired now p g (snd e)) (qs_items st))
    \<and> list_all (\<lambda>e. \<not> lease_expired now p g (snd e)) (List.map_filter (reclaim_entry now p g env) (qs_items st))"
proof
  show "reclaimExpiredExactReviewLeases now p g env st =
      (st\<lparr>qs_items := List.map_filter (reclaim_entry now p g env) (qs_items st)\<rparr>,
       list_ex (\<lambda>e. lease_expired now p g (snd e)) (qs_items st))"
    using reclaim_fold[of "[]" "qs_items st" now p g env st False] assms
    by (simp add: reclaimExpiredExactReviewLeases_def)
  show "list_all (\<lambda>e. \<not> lease_expired now p g (snd e)) (List.map_filter (reclaim_entry now p g env) (qs_items st))"
    using reclaim_entry_not_expired by (fastforce simp: list_all_iff List.map_filter_def)
qed

lemma reclaim_sweep_exact_witness:
  "snd (reclaimExpiredExactReviewLeases 6000 1000 1000 sample_env sample_queue)"
proof -
  have "distinct (map fst (qs_items sample_queue))" by (simp add: sample_queue_def)
  from reclaim_sweep_exact[OF this, of 6000 1000 1000 sample_env] show ?thesis
    by (simp add: sample_queue_def lease_expired_def isLiveExactReviewLease_def exactReviewEffectiveLeaseExpiresAt_def
        sample_leased_item_def sample_review_item_def new_item_def no_lease_def)
qed

end
