(* ===== verification/Review_Budget.thy ===== *)
theory Review_Budget
  imports Complex_Main Queue_Lease
begin

text \<open>
  The review budget (\<open>dashboard/exact-review-queue.ts\<close>): the token buckets that meter scheduled
  admissions (one per lane and a global one) and started review generations (the global one).
  Token balances are rationals: the model has no floating-point rounding. A value that the
  key-value store does not hold, or holds without finite numbers, is \<open>None\<close>.
\<close>

record throttle =
  th_observedAt :: int
  th_until :: int
  th_source :: string

record bucket_row =
  bk_tokens :: rat
  bk_updatedAt :: int
  bk_throttle :: "throttle option"

type_synonym feed_store = "feed_bucket \<Rightarrow> bucket_row option"

text \<open>\<open>kv.get\<close> and \<open>kv.put\<close> under the key of the bucket\<close>

definition feed_get :: "feed_store \<Rightarrow> feed_bucket \<Rightarrow> bucket_row option" where
  "feed_get kv b = kv b"

definition feed_put :: "feed_bucket \<Rightarrow> bucket_row \<Rightarrow> feed_store \<Rightarrow> feed_store" where
  "feed_put b row kv = kv(b \<mapsto> row)"

lemma feed_get_put [simp]: "feed_get (feed_put b row kv) b' = (if b' = b then Some row else feed_get kv b')"
  by (simp add: feed_get_def feed_put_def)

record feed_state =
  bu_tokens :: rat
  bu_ratePerHour :: int
  bu_burst :: int
  bu_throttle :: "throttle option"

definition EXACT_REVIEW_GITHUB_THROTTLE_ADMISSION_COOLDOWN_MS :: int where
  "EXACT_REVIEW_GITHUB_THROTTLE_ADMISSION_COOLDOWN_MS = 15 * 60 * 1000"

definition scheduledReviewBucketSync :: "env \<Rightarrow> feed_store \<Rightarrow> feed_bucket \<Rightarrow> int \<Rightarrow> feed_state" where
  "scheduledReviewBucketSync env kv lane now =
     (let ratePerHour = exactReviewScheduledRatePerHour env lane;
          burst = exactReviewScheduledBurst env lane
      in case feed_get kv lane of
           None \<Rightarrow> \<lparr>bu_tokens = of_int burst, bu_ratePerHour = ratePerHour, bu_burst = burst, bu_throttle = None\<rparr>
         | Some stored \<Rightarrow>
             let elapsedMs = max 0 (now - bk_updatedAt stored);
                 floor = (if lane = GlobalFeed then - of_int burst else 0)
             in \<lparr>bu_tokens = min (of_int burst) (max floor (bk_tokens stored) + of_int (elapsedMs * ratePerHour) / 3600000),
                 bu_ratePerHour = ratePerHour, bu_burst = burst,
                 bu_throttle = (case bk_throttle stored of None \<Rightarrow> None
                   | Some t \<Rightarrow> if th_observedAt t > 0 \<and> th_until t > now then Some t else None)\<rparr>)"

definition throttle_until :: "feed_state \<Rightarrow> int" where
  "throttle_until b = (case bu_throttle b of None \<Rightarrow> 0 | Some t \<Rightarrow> th_until t)"

definition scheduled_feed :: "scheduled_lane \<Rightarrow> feed_bucket" where
  "scheduled_feed lane = (case lane of HotIntake \<Rightarrow> HotFeed | NormalBackfill \<Rightarrow> NormalFeed)"

definition takeScheduledReviewTokenSync :: "env \<Rightarrow> feed_store \<Rightarrow> decision \<Rightarrow> int \<Rightarrow> feed_store \<times> bool" where
  "takeScheduledReviewTokenSync env kv d now =
     (let lane = exactReviewScheduledLane d; lowPriority = isSheddableExactReviewRecovery d
      in if lane = None \<and> \<not> lowPriority then (kv, True)
         else
           let global = scheduledReviewBucketSync env kv GlobalFeed now;
               lane_tokens = (case lane of None \<Rightarrow> 0 | Some l \<Rightarrow> bu_tokens (scheduledReviewBucketSync env kv (scheduled_feed l) now));
               admitted = (throttle_until global \<le> now \<and> (lowPriority \<or> (bu_tokens global \<ge> 1 \<and> lane_tokens \<ge> 1)));
               kv1 = feed_put GlobalFeed \<lparr>bk_tokens = (if admitted \<and> lane \<noteq> None then bu_tokens global - 1 else bu_tokens global),
                          bk_updatedAt = now, bk_throttle = bu_throttle global\<rparr> kv;
               kv2 = (case lane of None \<Rightarrow> kv1
                      | Some l \<Rightarrow> feed_put (scheduled_feed l)
                          \<lparr>bk_tokens = (if admitted then lane_tokens - 1 else lane_tokens), bk_updatedAt = now, bk_throttle = None\<rparr> kv1)
           in (kv2, admitted))"

definition consumeScheduledReviewCapacitySync :: "env \<Rightarrow> feed_store \<Rightarrow> int \<Rightarrow> feed_store" where
  "consumeScheduledReviewCapacitySync env kv now =
     (let global = scheduledReviewBucketSync env kv GlobalFeed now
      in feed_put GlobalFeed \<lparr>bk_tokens = max (- of_int (bu_burst global)) (bu_tokens global - 1),
              bk_updatedAt = now, bk_throttle = bu_throttle global\<rparr> kv)"

text \<open>The generation a heartbeat starts: whether it is a review, its item and the store.\<close>

definition chargeStartedReviewGenerationSync :: "env \<Rightarrow> feed_store \<Rightarrow> queue_item \<Rightarrow> int \<Rightarrow> feed_store \<times> queue_item \<times> bool" where
  "chargeStartedReviewGenerationSync env kv item now =
     (if exactReviewQueueIsPublication (leased_decision item) \<or> qi_terminalFinalization item \<noteq> None then (kv, item, False)
      else if qi_reviewBudgetPrepaid item then (kv, item\<lparr>qi_reviewBudgetPrepaid := False\<rparr>, True)
      else (consumeScheduledReviewCapacitySync env kv now, item, True))"

definition deferScheduledReviewAdmissionForThrottleSync :: "env \<Rightarrow> feed_store \<Rightarrow> int \<Rightarrow> int \<Rightarrow> feed_store" where
  "deferScheduledReviewAdmissionForThrottleSync env kv now requestedRetryAt =
     (let global = scheduledReviewBucketSync env kv GlobalFeed now;
          throttleUntil = max (max (now + EXACT_REVIEW_GITHUB_THROTTLE_ADMISSION_COOLDOWN_MS) requestedRetryAt)
                            (throttle_until global)
      in feed_put GlobalFeed \<lparr>bk_tokens = bu_tokens global, bk_updatedAt = now,
              bk_throttle = Some \<lparr>th_observedAt = now, th_until = throttleUntil, th_source = ''review_completion''\<rparr>\<rparr> kv)"

text \<open>\<open>scheduledReviewFeedStatusSync\<close>: the rate, burst and whole tokens shown for a bucket.\<close>

definition scheduledReviewFeedStatusSync :: "env \<Rightarrow> feed_store \<Rightarrow> int \<Rightarrow> feed_bucket \<Rightarrow> int \<times> int \<times> int" where
  "scheduledReviewFeedStatusSync env kv now lane =
     (let b = scheduledReviewBucketSync env kv lane now in (bu_ratePerHour b, bu_burst b, \<lfloor>bu_tokens b\<rfloor>))"

subsection \<open>Lemmas\<close>

lemma bucket_burst [simp]: "bu_burst (scheduledReviewBucketSync env kv lane now) = exactReviewScheduledBurst env lane"
  by (simp add: scheduledReviewBucketSync_def Let_def split: option.split)

lemma bucket_le_burst: "bu_tokens (scheduledReviewBucketSync env kv lane now) \<le> of_int (exactReviewScheduledBurst env lane)"
  by (simp add: scheduledReviewBucketSync_def Let_def split: option.split)

lemma refill_ge: "0 \<le> (of_int (max 0 e * exactReviewScheduledRatePerHour env lane) / 3600000 :: rat)"
  using scheduled_rates(1)[of env lane] by simp

definition bucket_floor :: "env \<Rightarrow> feed_bucket \<Rightarrow> rat" where
  "bucket_floor env lane = (if lane = GlobalFeed then - of_int (exactReviewScheduledBurst env lane) else 0)"

lemma bucket_floor_bounds: "bucket_floor env lane \<le> 0" "bucket_floor env lane \<le> of_int (exactReviewScheduledBurst env lane)"
proof -
  have "(0::rat) \<le> of_int (exactReviewScheduledBurst env lane)" using scheduled_bursts(1)[of env lane] by simp
  then show "bucket_floor env lane \<le> 0" "bucket_floor env lane \<le> of_int (exactReviewScheduledBurst env lane)"
  unfolding bucket_floor_def by auto
qed

lemma bucket_stored:
  assumes "feed_get kv lane = Some stored"
  shows "bu_tokens (scheduledReviewBucketSync env kv lane now) =
    min (of_int (exactReviewScheduledBurst env lane))
      (max (bucket_floor env lane) (bk_tokens stored)
       + of_int (max 0 (now - bk_updatedAt stored) * exactReviewScheduledRatePerHour env lane) / 3600000)"
  using assms by (simp add: scheduledReviewBucketSync_def Let_def bucket_floor_def)

lemma bucket_fresh:
  "feed_get kv lane = None \<Longrightarrow> bu_tokens (scheduledReviewBucketSync env kv lane now) = of_int (exactReviewScheduledBurst env lane)"
  by (simp add: scheduledReviewBucketSync_def Let_def)

lemma bucket_ge_floor: "bucket_floor env lane \<le> bu_tokens (scheduledReviewBucketSync env kv lane now)"
proof (cases "feed_get kv lane")
  case None
  with bucket_floor_bounds(2) show ?thesis by (simp add: bucket_fresh)
next
  case (Some stored)
  have aux: "f \<le> min b (max f x + r)" if "f \<le> b" "0 \<le> r" for f b x r :: rat
    using that by (auto simp: min_def max_def)
  from aux[OF bucket_floor_bounds(2) refill_ge] show ?thesis by (simp only: bucket_stored[OF Some])
qed

subsection \<open>Runs of the budget\<close>

datatype budget_op = AdmitDecision decision | StartReview queue_item | ReviewThrottled int

primrec budget_step :: "env \<Rightarrow> int \<Rightarrow> budget_op \<Rightarrow> feed_store \<Rightarrow> feed_store" where
  "budget_step env now (AdmitDecision d) kv = fst (takeScheduledReviewTokenSync env kv d now)"
| "budget_step env now (StartReview item) kv = fst (chargeStartedReviewGenerationSync env kv item now)"
| "budget_step env now (ReviewThrottled retryAt) kv = deferScheduledReviewAdmissionForThrottleSync env kv now retryAt"

text \<open>Whether the operation admits scheduled work that the bucket meters.\<close>

primrec budget_admits :: "env \<Rightarrow> feed_bucket \<Rightarrow> int \<Rightarrow> budget_op \<Rightarrow> feed_store \<Rightarrow> bool" where
  "budget_admits env b now (AdmitDecision d) kv \<longleftrightarrow>
     (case exactReviewScheduledLane d of None \<Rightarrow> False | Some l \<Rightarrow> b = GlobalFeed \<or> b = scheduled_feed l)
     \<and> snd (takeScheduledReviewTokenSync env kv d now)"
| "budget_admits env b now (StartReview item) kv \<longleftrightarrow> False"
| "budget_admits env b now (ReviewThrottled retryAt) kv \<longleftrightarrow> False"

fun admissions :: "env \<Rightarrow> feed_bucket \<Rightarrow> feed_store \<Rightarrow> (int \<times> budget_op) list \<Rightarrow> nat" where
  "admissions env b kv [] = 0"
| "admissions env b kv ((now, op) # ops) =
     (if budget_admits env b now op kv then 1 else 0) + admissions env b (budget_step env now op kv) ops"

text \<open>A bucket that was just written, and the refill up to a later time.\<close>

lemma bucket_just_written:
  assumes "feed_get kv lane = Some \<lparr>bk_tokens = x, bk_updatedAt = now, bk_throttle = th\<rparr>" "bucket_floor env lane \<le> x"
  shows "bu_tokens (scheduledReviewBucketSync env kv lane now) \<le> x"
  using assms(2) by (simp add: bucket_stored[OF assms(1)])

lemma bucket_refill:
  assumes "t \<le> t'"
  shows "bu_tokens (scheduledReviewBucketSync env kv lane t')
     \<le> bu_tokens (scheduledReviewBucketSync env kv lane t)
        + of_int ((t' - t) * exactReviewScheduledRatePerHour env lane) / 3600000"
proof (cases "feed_get kv lane")
  case None
  then show ?thesis using assms scheduled_rates(1)[of env lane] by (simp add: bucket_fresh)
next
  case (Some stored)
  let ?r = "exactReviewScheduledRatePerHour env lane" and ?u = "bk_updatedAt stored"
  have "max 0 (t' - ?u) \<le> max 0 (t - ?u) + (t' - t)" using assms by auto
  then have "max 0 (t' - ?u) * ?r \<le> (max 0 (t - ?u) + (t' - t)) * ?r"
    using scheduled_rates(1)[of env lane] by (intro mult_right_mono) auto
  then have e: "(of_int (max 0 (t' - ?u) * ?r) / 3600000 :: rat)
      \<le> of_int (max 0 (t - ?u) * ?r) / 3600000 + of_int ((t' - t) * ?r) / 3600000"
    by (simp only: add_divide_distrib[symmetric] of_int_add[symmetric] distrib_right[symmetric] divide_right_mono of_int_le_iff)
  have d: "(0::rat) \<le> of_int ((t' - t) * ?r) / 3600000"
    using assms scheduled_rates(1)[of env lane] by simp
  have aux: "min b (x + e') \<le> min b (x + e) + d" if "e' \<le> e + d" "0 \<le> d" for b x e e' d :: rat
    using that by (auto simp: min_def)
  show ?thesis using aux[OF e d] by (simp only: bucket_stored[OF Some] add.assoc)
qed


lemma bucket_cong: "feed_get kv' b = feed_get kv b \<Longrightarrow> scheduledReviewBucketSync env kv' b now = scheduledReviewBucketSync env kv b now"
  by (simp add: scheduledReviewBucketSync_def)

lemma scheduled_feed_simps [simp]: "scheduled_feed l \<noteq> GlobalFeed" "GlobalFeed \<noteq> scheduled_feed l"
  by (cases l; simp add: scheduled_feed_def)+

lemma scheduled_not_sheddable: "exactReviewScheduledLane d = Some l \<Longrightarrow> \<not> isSheddableExactReviewRecovery d"
  by (auto simp: isSheddableExactReviewRecovery_def isLowPriorityExactReviewDecision_def
      EXACT_REVIEW_LOW_PRIORITY_SOURCE_ACTIONS_def exactReviewScheduledLane_def source_actions split: if_splits)

lemma take_tokens:
  "bu_tokens (scheduledReviewBucketSync env (fst (takeScheduledReviewTokenSync env kv d now)) b now)
     + (if budget_admits env b now (AdmitDecision d) kv then 1 else 0)
   \<le> bu_tokens (scheduledReviewBucketSync env kv b now)"
proof -
  let ?kv' = "fst (takeScheduledReviewTokenSync env kv d now)"
  let ?T = "bu_tokens (scheduledReviewBucketSync env kv b now)"
  consider (same) "feed_get ?kv' b = feed_get kv b" "\<not> budget_admits env b now (AdmitDecision d) kv"
    | (kept) th where "feed_get ?kv' b = Some \<lparr>bk_tokens = ?T, bk_updatedAt = now, bk_throttle = th\<rparr>"
        "\<not> budget_admits env b now (AdmitDecision d) kv"
    | (spent) th where "feed_get ?kv' b = Some \<lparr>bk_tokens = ?T - 1, bk_updatedAt = now, bk_throttle = th\<rparr>" "1 \<le> ?T"
  proof (cases "exactReviewScheduledLane d")
    case None
    then show thesis
      by (cases "isSheddableExactReviewRecovery d"; cases "b = GlobalFeed")
        (auto simp: takeScheduledReviewTokenSync_def Let_def intro: same kept)
  next
    case (Some l)
    then have "\<not> isSheddableExactReviewRecovery d" by (rule scheduled_not_sheddable)
    with Some show thesis
      by (cases "b = GlobalFeed"; cases "b = scheduled_feed l"; cases "snd (takeScheduledReviewTokenSync env kv d now)")
        (auto simp: takeScheduledReviewTokenSync_def Let_def intro: same kept spent)
  qed
  then show ?thesis
  proof cases
    case same
    from bucket_cong[OF same(1), of env now] show ?thesis by (simp only: same(2) if_False add_0_right order_refl)
  next
    case kept
    from bucket_just_written[OF kept(1) bucket_ge_floor] show ?thesis
      by (simp only: kept(2) if_False add_0_right)
  next
    case spent
    have "bucket_floor env b \<le> ?T - 1" using spent(2) bucket_floor_bounds(1)[of env b] by linarith
    from bucket_just_written[OF spent(1) this] show ?thesis by simp
  qed
qed

lemma consume_tokens:
  "bu_tokens (scheduledReviewBucketSync env (consumeScheduledReviewCapacitySync env kv now) b now)
     \<le> bu_tokens (scheduledReviewBucketSync env kv b now)"
proof (cases "b = GlobalFeed")
  case True
  let ?T = "bu_tokens (scheduledReviewBucketSync env kv GlobalFeed now)"
  have "bu_tokens (scheduledReviewBucketSync env (consumeScheduledReviewCapacitySync env kv now) GlobalFeed now)
      \<le> max (bucket_floor env GlobalFeed) (?T - 1)"
    by (rule bucket_just_written) (simp_all add: consumeScheduledReviewCapacitySync_def Let_def bucket_floor_def)
  with True bucket_ge_floor[of env GlobalFeed kv now] show ?thesis by simp
next
  case False
  then have "feed_get (consumeScheduledReviewCapacitySync env kv now) b = feed_get kv b"
    by (simp add: consumeScheduledReviewCapacitySync_def Let_def)
  from bucket_cong[OF this, of env now] show ?thesis by simp
qed

lemma defer_tokens:
  "bu_tokens (scheduledReviewBucketSync env (deferScheduledReviewAdmissionForThrottleSync env kv now retryAt) b now)
     \<le> bu_tokens (scheduledReviewBucketSync env kv b now)"
proof (cases "b = GlobalFeed")
  case True
  have "bu_tokens (scheduledReviewBucketSync env (deferScheduledReviewAdmissionForThrottleSync env kv now retryAt) GlobalFeed now)
      \<le> bu_tokens (scheduledReviewBucketSync env kv GlobalFeed now)"
    by (rule bucket_just_written[OF _ bucket_ge_floor])
      (simp add: deferScheduledReviewAdmissionForThrottleSync_def Let_def)
  with True show ?thesis by simp
next
  case False
  then have "feed_get (deferScheduledReviewAdmissionForThrottleSync env kv now retryAt) b = feed_get kv b"
    by (simp add: deferScheduledReviewAdmissionForThrottleSync_def Let_def)
  from bucket_cong[OF this, of env now] show ?thesis by simp
qed

lemma budget_step_tokens:
  "bu_tokens (scheduledReviewBucketSync env (budget_step env now op kv) b now)
     + (if budget_admits env b now op kv then 1 else 0)
   \<le> bu_tokens (scheduledReviewBucketSync env kv b now)"
proof (cases op)
  case (AdmitDecision d)
  then show ?thesis using take_tokens[of env kv d now b] by simp
next
  case (StartReview item)
  with consume_tokens[of env kv now b] show ?thesis by (simp add: chargeStartedReviewGenerationSync_def)
next
  case (ReviewThrottled retryAt)
  with defer_tokens[of env kv now retryAt b] show ?thesis by simp
qed


lemma admits_needs_token:
  assumes "budget_admits env b now op kv"
  shows "1 \<le> bu_tokens (scheduledReviewBucketSync env kv b now)"
proof (cases op)
  case (AdmitDecision d)
  then obtain l where l: "exactReviewScheduledLane d = Some l" "b = GlobalFeed \<or> b = scheduled_feed l"
      "snd (takeScheduledReviewTokenSync env kv d now)"
    using assms by (auto split: option.splits)
  from scheduled_not_sheddable[OF l(1)] l show ?thesis by (auto simp: takeScheduledReviewTokenSync_def Let_def)
qed (use assms in simp_all)

text \<open>
  C8. The scheduled feed is a token bucket: in any run of admissions, started reviews and
  throttles whose clock does not go back, the scheduled work admitted between two times is at
  most the burst plus the configured rate times the time between them, globally and for each
  lane, whatever was stored before; started reviews and throttles can only lower it.
\<close>

theorem scheduled_admissions_bounded:
  assumes "sorted (map fst ops)" "\<forall>op\<in>set ops. t0 \<le> fst op \<and> fst op \<le> t1" "t0 \<le> t1"
  shows "of_nat (admissions env b kv ops)
     \<le> of_int (exactReviewScheduledBurst env b) + of_int ((t1 - t0) * exactReviewScheduledRatePerHour env b) / (3600000 :: rat)"
proof -
  let ?rate = "exactReviewScheduledRatePerHour env b"
  let ?T = "\<lambda>kv t. bu_tokens (scheduledReviewBucketSync env kv b t)"
  let ?R = "\<lambda>t. of_int ((t1 - t) * ?rate) / (3600000 :: rat)"
  have R0: "0 \<le> ?R t" if "t \<le> t1" for t
    using that scheduled_rates(1)[of env b] by simp
  have split: "of_int ((t' - t) * ?rate) / (3600000 :: rat) + ?R t' = ?R t" for t t'
    by (simp add: add_divide_distrib[symmetric] of_int_add[symmetric] distrib_right[symmetric] del: of_int_add of_int_mult of_int_diff)
  have main: "of_nat (admissions env b kv ops) \<le> max 0 (?T kv t + ?R t)"
    if "sorted (map fst ops)" "\<forall>op\<in>set ops. t \<le> fst op \<and> fst op \<le> t1" for kv t
    using that
  proof (induction ops arbitrary: kv t)
    case (Cons op ops)
    obtain now act where op: "op = (now, act)" by (cases op)
    let ?kv' = "budget_step env now act kv" and ?n = "if budget_admits env b now act kv then 1 else (0::rat)"
    have now: "t \<le> now" "now \<le> t1" using Cons.prems op by auto
    have "of_nat (admissions env b ?kv' ops) \<le> max 0 (?T ?kv' now + ?R now)"
      using Cons.IH[of now ?kv'] Cons.prems op by auto
    moreover have "?T ?kv' now + ?n \<le> ?T kv now" by (rule budget_step_tokens)
    moreover have "?T kv now + ?R now \<le> ?T kv t + ?R t"
      using bucket_refill[OF now(1), of env kv b] split[of now t] by linarith
    moreover have "1 \<le> ?T kv now" if "budget_admits env b now act kv"
      using admits_needs_token[OF that] .
    ultimately show ?case using op R0[OF now(2)] by (auto simp: max_def split: if_splits)
  qed simp
  have "?T kv t0 \<le> of_int (exactReviewScheduledBurst env b)" by (rule bucket_le_burst)
  moreover have "(0::rat) \<le> of_int (exactReviewScheduledBurst env b)" using scheduled_bursts(1)[of env b] by simp
  ultimately show ?thesis using main[OF assms(1,2), of kv] R0[OF assms(3)] by (auto simp: max_def split: if_splits)
qed


definition sample_scheduled :: decision where
  "sample_scheduled = sample_decision\<lparr>bd_sourceAction := ''scheduled_hot_intake''\<rparr>"

lemma scheduled_admissions_bounded_witness:
  "of_nat (admissions sample_env HotFeed (\<lambda>_. None)
      [(0, AdmitDecision sample_scheduled), (1000, StartReview sample_review_item), (2000, AdmitDecision sample_scheduled)])
   \<le> of_int (exactReviewScheduledBurst sample_env HotFeed)
      + of_int (2000 * exactReviewScheduledRatePerHour sample_env HotFeed) / (3600000 :: rat)"
  using scheduled_admissions_bounded[of "[(0, AdmitDecision sample_scheduled), (1000, StartReview sample_review_item),
      (2000, AdmitDecision sample_scheduled)]" 0 2000 sample_env HotFeed "\<lambda>_. None"] by simp

end
