(* ===== verification/Lease_Protocol.thy ===== *)
theory Lease_Protocol
  imports Review_Budget
begin

text \<open>
  The lease protocol of the exact-review queue (the \<open>/claim\<close>, \<open>/heartbeat\<close> and \<open>/complete\<close>
  requests of \<open>dashboard/exact-review-queue.ts\<close>, and the lease that a dispatch opens): how a
  workflow run takes a lease over, keeps it alive and gives it back. A request holds the fields
  of its JSON body after \<open>String(...).trim()\<close>; a numeric field is absent, no integer or an
  integer. The answers of the network (\<open>hostedTargetAdmission\<close>) and of the direct publication
  store (\<open>automaticPullRequestAlreadyAnswered\<close>) are arguments. \<open>/complete\<close> is modelled for
  reviews: requests without publication fields on items without a saved direct publication.
\<close>

subsection \<open>State and requests\<close>

record supersession_audit =
  sa_itemKey :: string
  sa_priorRevision :: int
  sa_nextRevision :: int
  sa_supersededLeaseId :: "string option"
  sa_supersededRunId :: "string option"
  sa_supersededRunAttempt :: "int option"
  sa_supersededClaimGeneration :: "int option"
  sa_supersededProtocolVersion :: "int option"
  sa_sourceAction :: string
  sa_newerSourceEvent :: bool
  sa_supersededAt :: int
  sa_auditId :: string

record lease_world =
  lw_queue :: queue_state
  lw_feed :: feed_store
  lw_loop :: loop_store
  lw_audits :: "supersession_audit list"

datatype numeric_field = FieldAbsent | FieldInvalid | FieldInt int

definition field_int :: "numeric_field \<Rightarrow> int option" where
  "field_int f = (case f of FieldInt n \<Rightarrow> Some n | _ \<Rightarrow> None)"

text \<open>\<open>!Number.isInteger(value) || value < 1\<close>\<close>

definition not_positive :: "numeric_field \<Rightarrow> bool" where
  "not_positive f = (case f of FieldInt n \<Rightarrow> n < 1 | _ \<Rightarrow> True)"

definition exactReviewRunAttempt :: "numeric_field \<Rightarrow> int option" where
  "exactReviewRunAttempt f = (case f of FieldInt n \<Rightarrow> if n > 0 then Some n else None | _ \<Rightarrow> None)"

definition exactReviewClaimGeneration :: "int option \<Rightarrow> int" where
  "exactReviewClaimGeneration v = (case v of Some n \<Rightarrow> if n \<ge> 0 then n else 0 | None \<Rightarrow> 0)"

definition digit_text :: "string \<Rightarrow> bool" where
  "digit_text s \<longleftrightarrow> s \<noteq> [] \<and> list_all is_dec s"

datatype lease_error =
    MissingLeaseOrRun | InvalidRunId | InvalidLeaseRevision | InvalidRunAttempt | InvalidClaimGeneration
  | LeaseNotActive | LeaseAlreadyClaimed | TargetTerminalProbe | TargetRetryableProbe | ReviewRequestRequired
  | LeaseDecisionUnavailable | MissingRunAttempt | StaleRunAttempt | ClaimProtocolMismatch
  | MissingLeaseTuple | InvalidSourceHeadSha | InvalidAcknowledgementComment | InvalidLeasePhase | InvalidGenerationStart
  | AcknowledgementCommentConflict | LeaseSuperseded int
  | InvalidOutcome | InvalidReviewFailureReason | ReasonWithoutFailure | InvalidRequeueLatestOutcome | InvalidRetryAt
  | InvalidRetryKind | RetryKindWithoutFailure | RetryKindWithoutRetryAt | ReasonWithRetry | InvalidReviewHold
  | HoldWithoutTerminalSuccess | LeaseNotClaimed | LeaseProtocolNotClaimed | LeaseAttemptNotClaimed
  | RetryKindOutsideReview | ReasonForPublication | HoldForPublication

definition exactReviewItemForLease :: "queue_state \<Rightarrow> string \<Rightarrow> queue_item option" where
  "exactReviewItemForLease st leaseId =
     List.find (\<lambda>item. le_leaseId (qi_lease item) = Some leaseId) (map snd (qs_items st))"

definition item_live :: "env \<Rightarrow> int \<Rightarrow> queue_item \<Rightarrow> bool" where
  "item_live env now item =
     isLiveExactReviewLease item now (exactReviewPublicationDispatchLeaseMs env) (exactReviewHeartbeatGraceMs env)"

definition reclaim_one :: "env \<Rightarrow> int \<Rightarrow> queue_item \<Rightarrow> queue_state \<Rightarrow> queue_state \<times> bool" where
  "reclaim_one env now item st =
     reclaimExpiredExactReviewLease now (exactReviewPublicationDispatchLeaseMs env) (exactReviewHeartbeatGraceMs env)
       env (qi_key item) item st"

subsection \<open>Dispatch\<close>

definition open_lease :: "env \<Rightarrow> int \<Rightarrow> string \<Rightarrow> queue_item \<Rightarrow> queue_item" where
  "open_lease env now leaseId item =
     item\<lparr>qi_state := ItDispatching,
       qi_lease := (qi_lease item)\<lparr>le_leaseId := Some leaseId, le_leaseRevision := Some (qi_revision item),
         le_leaseDecision := Some (qi_decision item),
         le_leaseExpiresAt := Some (now + (if bd_sourceAction (qi_decision item) = EXACT_REVIEW_ARTIFACT_PUBLISH_SOURCE_ACTION
                                          then exactReviewPublicationDispatchLeaseMs env else exactReviewDispatchLeaseMs env)),
         le_claimedRunId := None, le_claimedRunAttempt := None, le_claimGeneration := None,
         le_dispatchedAt := Some now, le_claimedAt := None\<rparr>,
       qi_updatedAt := now\<rparr>"

subsection \<open>Claim\<close>

record claim_request =
  cr_leaseId :: string
  cr_itemKey :: string
  cr_leaseRevision :: numeric_field
  cr_runId :: string
  cr_runAttempt :: numeric_field

definition cr_tuple :: "claim_request \<Rightarrow> bool" where
  "cr_tuple req \<longleftrightarrow> cr_itemKey req \<noteq> [] \<or> cr_leaseRevision req \<noteq> FieldAbsent"

definition cr_protocol :: "claim_request \<Rightarrow> int" where
  "cr_protocol req = (if cr_tuple req then 2 else 1)"

definition validate_claim :: "claim_request \<Rightarrow> lease_error option" where
  "validate_claim req =
     (if cr_leaseId req = [] \<or> cr_runId req = [] then Some MissingLeaseOrRun
      else if \<not> digit_text (cr_runId req) then Some InvalidRunId
      else if cr_tuple req \<and> (cr_itemKey req = [] \<or> not_positive (cr_leaseRevision req)) then Some InvalidLeaseRevision
      else if cr_runAttempt req \<noteq> FieldAbsent \<and> exactReviewRunAttempt (cr_runAttempt req) = None then Some InvalidRunAttempt
      else None)"

text \<open>\<open>tuple ? state.items[itemKey] : exactReviewItemForLease(state, leaseId)\<close>\<close>

definition lease_lookup :: "bool \<Rightarrow> string \<Rightarrow> string \<Rightarrow> queue_state \<Rightarrow> queue_item option" where
  "lease_lookup tuple itemKey leaseId st = (if tuple then item_at st itemKey else exactReviewItemForLease st leaseId)"

abbreviation claim_lookup :: "claim_request \<Rightarrow> queue_state \<Rightarrow> queue_item option" where
  "claim_lookup req st \<equiv> lease_lookup (cr_tuple req) (cr_itemKey req) (cr_leaseId req) st"

definition claim_refusal :: "env \<Rightarrow> int \<Rightarrow> claim_request \<Rightarrow> queue_item option \<Rightarrow> lease_error option" where
  "claim_refusal env now req found =
     (case found of None \<Rightarrow> Some LeaseNotActive
      | Some item \<Rightarrow>
          if le_leaseId (qi_lease item) \<noteq> Some (cr_leaseId req)
             \<or> (cr_tuple req \<and> le_leaseRevision (qi_lease item) \<noteq> field_int (cr_leaseRevision req))
             \<or> \<not> item_live env now item then Some LeaseNotActive
          else if truthy (le_claimedRunId (qi_lease item)) \<and> le_claimedRunId (qi_lease item) \<noteq> Some (cr_runId req)
          then Some LeaseAlreadyClaimed else None)"

text \<open>The first half, before the target is probed: refuse, or reclaim a dead lease and refuse, or go on.\<close>

definition claim_begin :: "env \<Rightarrow> int \<Rightarrow> claim_request \<Rightarrow> queue_state \<Rightarrow> queue_state \<times> lease_error option" where
  "claim_begin env now req st =
     (case validate_claim req of Some e \<Rightarrow> (st, Some e)
      | None \<Rightarrow>
          (case claim_lookup req st of
             None \<Rightarrow> (st, Some LeaseNotActive)
           | Some item \<Rightarrow>
               (case reclaim_one env now item st of
                  (st', True) \<Rightarrow> (st', Some LeaseNotActive)
                | (_, False) \<Rightarrow> (st, claim_refusal env now req (Some item)))))"

datatype target_admission = AdmitPublic | AdmitTerminal | AdmitRetryable

record claim_response =
  rs_protocolVersion :: int
  rs_itemKey :: string
  rs_leaseRevision :: "int option"
  rs_claimGeneration :: int
  rs_repeatRevision :: bool
  rs_decision :: "decision option"
  rs_terminalFinalization :: "terminal_finalization option"

definition exactReviewClaimResponse :: "queue_item \<Rightarrow> int \<Rightarrow> int \<Rightarrow> claim_response" where
  "exactReviewClaimResponse item protocolVersion claimGeneration =
     \<lparr>rs_protocolVersion = protocolVersion, rs_itemKey = qi_key item, rs_leaseRevision = le_leaseRevision (qi_lease item),
      rs_claimGeneration = claimGeneration,
      rs_repeatRevision = (protocolVersion = 2 \<and> number_or_0 (qi_publicationFailureAttempts item) > 0),
      rs_decision = le_leaseDecision (qi_lease item), rs_terminalFinalization = qi_terminalFinalization item\<rparr>"

definition protocol_mismatch :: "claim_request \<Rightarrow> item_lease \<Rightarrow> bool" where
  "protocol_mismatch req lease \<longleftrightarrow>
     le_claimProtocolVersion lease \<noteq> None \<and> le_claimProtocolVersion lease \<noteq> Some (cr_protocol req)"

text \<open>The same attempt claims again: its generation stays, its lease is renewed.\<close>

definition reclaim_same_attempt :: "env \<Rightarrow> int \<Rightarrow> claim_request \<Rightarrow> queue_item \<Rightarrow> queue_item" where
  "reclaim_same_attempt env now req item =
     item\<lparr>qi_lease := (qi_lease item)\<lparr>
            le_claimGeneration := Some (max 1 (exactReviewClaimGeneration (le_claimGeneration (qi_lease item)))),
            le_claimProtocolVersion := Some (cr_protocol req),
            le_leaseExpiresAt := Some (now + exactReviewExecutionLeaseMs env)\<rparr>,
          qi_updatedAt := now\<rparr>"

definition reclaim_without_attempt :: "claim_request \<Rightarrow> queue_item \<Rightarrow> queue_item" where
  "reclaim_without_attempt req item =
     item\<lparr>qi_lease := (qi_lease item)\<lparr>
            le_claimGeneration := Some (max 1 (exactReviewClaimGeneration (le_claimGeneration (qi_lease item)))),
            le_claimProtocolVersion := Some (cr_protocol req)\<rparr>\<rparr>"

text \<open>A new attempt (or the first claim) takes the lease with the next generation.\<close>

definition take_lease :: "env \<Rightarrow> int \<Rightarrow> claim_request \<Rightarrow> queue_item \<Rightarrow> queue_item" where
  "take_lease env now req item =
     (let generation = exactReviewClaimGeneration (le_claimGeneration (qi_lease item)) + 1
      in item\<lparr>qi_state := ItLeased,
           qi_lease := (qi_lease item)\<lparr>le_claimedRunId := Some (cr_runId req),
             le_claimedRunAttempt := exactReviewRunAttempt (cr_runAttempt req),
             le_claimGeneration := Some generation, le_claimProtocolVersion := Some (cr_protocol req),
             le_leaseExpiresAt := Some (now + exactReviewExecutionLeaseMs env), le_leaseHeartbeatAt := None,
             le_claimedAt := Some now, le_reviewBudgetChargeGeneration := Some generation\<rparr>,
           qi_updatedAt := now\<rparr>)"

text \<open>The run attempt decides: refused, the same claim again (written or not), or a new claim.\<close>

datatype claim_decision = ClaimRefused lease_error | ClaimAgain queue_item bool | ClaimTaken queue_item

definition decide_claim :: "env \<Rightarrow> int \<Rightarrow> claim_request \<Rightarrow> queue_item \<Rightarrow> claim_decision" where
  "decide_claim env now req item =
     (let lease = qi_lease item; runAttempt = exactReviewRunAttempt (cr_runAttempt req)
      in if truthy (le_claimedRunId lease) then
           (case le_claimedRunAttempt lease of
              Some claimed \<Rightarrow>
                (case runAttempt of None \<Rightarrow> ClaimRefused MissingRunAttempt
                 | Some attempt \<Rightarrow>
                     if attempt < claimed then ClaimRefused StaleRunAttempt
                     else if attempt = claimed then
                       (if protocol_mismatch req lease then ClaimRefused ClaimProtocolMismatch
                        else ClaimAgain (reclaim_same_attempt env now req item) True)
                     else ClaimTaken (take_lease env now req item))
            | None \<Rightarrow>
                if runAttempt = None then
                  (if protocol_mismatch req lease then ClaimRefused ClaimProtocolMismatch
                   else ClaimAgain (reclaim_without_attempt req item)
                     (le_claimGeneration lease \<noteq> le_claimGeneration (qi_lease (reclaim_without_attempt req item))
                      \<or> le_claimProtocolVersion lease \<noteq> Some (cr_protocol req)))
                else ClaimTaken (take_lease env now req item))
         else ClaimTaken (take_lease env now req item))"

text \<open>A lease without a decision gets the item's, unless newer input replaced it.\<close>

definition recover_lease_decision :: "queue_item \<Rightarrow> queue_item option" where
  "recover_lease_decision item =
     (if le_leaseDecision (qi_lease item) \<noteq> None then Some item
      else if Some (qi_revision item) \<noteq> le_leaseRevision (qi_lease item) then None
      else Some (item\<lparr>qi_lease := (qi_lease item)\<lparr>le_leaseDecision := Some (qi_decision item)\<rparr>\<rparr>))"

definition follow_up_requested :: "queue_item \<Rightarrow> bool" where
  "follow_up_requested item \<longleftrightarrow>
     has_newer_revision item
     \<and> (exactReviewDecisionHasCommandContext (qi_decision item) \<or> bd_sourceAction (qi_decision item) = MANUAL_REVIEW_SOURCE_ACTION)"

definition record_claim_generation :: "sql_outcome \<Rightarrow> int \<Rightarrow> claim_request \<Rightarrow> queue_item \<Rightarrow> loop_store \<Rightarrow> loop_store" where
  "record_claim_generation sql now req item loop =
     (if \<not> exactReviewQueueIsPublication (qi_decision item) \<and> qi_terminalFinalization item = None
      then recordReviewGenerationSafely sql loop (exactReviewLoopItemKey (qi_decision item)) (cr_runId req)
             (exactReviewRunAttempt (cr_runAttempt req)) now
      else loop)"

text \<open>
  The second half, on the state read again after the probe. A finished review is settled with the
  empty environment, as the source calls \<open>finishExactReviewQueueItem\<close> without one there.
\<close>

definition claim_finish ::
  "env \<Rightarrow> sql_outcome \<Rightarrow> int \<Rightarrow> target_admission \<Rightarrow> bool \<Rightarrow> int option \<Rightarrow> claim_request \<Rightarrow> lease_world \<Rightarrow>
   lease_world \<times> (lease_error + claim_response)" where
  "claim_finish env sql now admission answered sample req w =
     (let st = lw_queue w; found = claim_lookup req st
      in case claim_refusal env now req found of Some e \<Rightarrow> (w, Inl e)
         | None \<Rightarrow>
             (let item = the found
              in if admission = AdmitTerminal then (w\<lparr>lw_queue := delete_item (qi_key item) st\<rparr>, Inl TargetTerminalProbe)
                 else if admission = AdmitRetryable then (w, Inl TargetRetryableProbe)
                 else if answered then
                   (w\<lparr>lw_queue := fst (finishExactReviewQueueItem st item now OutcomeSuccess 0 (follow_up_requested item)
                        None None sample (\<lambda>_. None) None)\<rparr>, Inl ReviewRequestRequired)
                 else case recover_lease_decision item of None \<Rightarrow> (w, Inl LeaseDecisionUnavailable)
                   | Some item' \<Rightarrow>
                       (case decide_claim env now req item' of
                          ClaimRefused e \<Rightarrow> (w, Inl e)
                        | ClaimAgain item'' written \<Rightarrow>
                            (if written then w\<lparr>lw_queue := put_item item'' st\<rparr> else w,
                             Inr (exactReviewClaimResponse item'' (cr_protocol req)
                                    (exactReviewClaimGeneration (le_claimGeneration (qi_lease item'')))))
                        | ClaimTaken item'' \<Rightarrow>
                            (w\<lparr>lw_queue := put_item item'' st, lw_loop := record_claim_generation sql now req item'' (lw_loop w)\<rparr>,
                             Inr (exactReviewClaimResponse item'' (cr_protocol req)
                                    (exactReviewClaimGeneration (le_claimGeneration (qi_lease item''))))))))"


subsection \<open>Heartbeat\<close>

record heartbeat_request =
  hr_itemKey :: string
  hr_leaseId :: string
  hr_leaseRevision :: numeric_field
  hr_runId :: string
  hr_runAttempt :: numeric_field
  hr_claimGeneration :: numeric_field
  hr_sourceHeadSha :: "string option"
  hr_reviewAcknowledgementCommentId :: numeric_field
  hr_phase :: "string option"
  hr_generationStart :: "bool option"

definition heartbeat_phase :: "heartbeat_request \<Rightarrow> lease_phase option" where
  "heartbeat_phase req =
     (case hr_phase req of None \<Rightarrow> Some PhaseReview
      | Some p \<Rightarrow> if p = ''review'' then Some PhaseReview else if p = ''status'' then Some PhaseStatus
                  else if p = ''finalizing'' then Some PhaseFinalizing else None)"

definition head_sha :: "heartbeat_request \<Rightarrow> string option" where
  "head_sha req = map_option (\<lambda>s. to_lower (js_trim s)) (hr_sourceHeadSha req)"

definition validate_heartbeat :: "heartbeat_request \<Rightarrow> lease_error option" where
  "validate_heartbeat req =
     (if hr_itemKey req = [] \<or> hr_leaseId req = [] \<or> hr_runId req = [] then Some MissingLeaseTuple
      else if not_positive (hr_leaseRevision req) then Some InvalidLeaseRevision
      else if \<not> digit_text (hr_runId req) then Some InvalidRunId
      else if hr_runAttempt req \<noteq> FieldAbsent \<and> exactReviewRunAttempt (hr_runAttempt req) = None then Some InvalidRunAttempt
      else if hr_claimGeneration req \<noteq> FieldAbsent \<and> not_positive (hr_claimGeneration req) then Some InvalidClaimGeneration
      else if hr_sourceHeadSha req \<noteq> None \<and> \<not> hex_of_length 40 (str_or_empty (head_sha req)) then Some InvalidSourceHeadSha
      else if hr_reviewAcknowledgementCommentId req \<noteq> FieldAbsent
           \<and> (not_positive (hr_reviewAcknowledgementCommentId req)
              \<or> \<not> safe_integer (num_or_zero (field_int (hr_reviewAcknowledgementCommentId req)))) then Some InvalidAcknowledgementComment
      else if heartbeat_phase req = None then Some InvalidLeasePhase
      else if hr_generationStart req \<noteq> None
           \<and> (hr_generationStart req \<noteq> Some True \<or> heartbeat_phase req \<noteq> Some PhaseReview) then Some InvalidGenerationStart
      else None)"

definition heartbeat_owner :: "env \<Rightarrow> int \<Rightarrow> heartbeat_request \<Rightarrow> queue_item \<Rightarrow> bool" where
  "heartbeat_owner env now req item \<longleftrightarrow>
     (let lease = qi_lease item;
          leasedHead = Option.bind (le_leaseDecision lease) bd_sourceHeadSha
      in qi_state item = ItLeased
         \<and> le_leaseId lease = Some (hr_leaseId req)
         \<and> le_leaseRevision lease = field_int (hr_leaseRevision req)
         \<and> le_claimedRunId lease = Some (hr_runId req)
         \<and> (hr_runAttempt req = FieldAbsent \<or> le_claimedRunAttempt lease = exactReviewRunAttempt (hr_runAttempt req))
         \<and> (hr_claimGeneration req = FieldAbsent
            \<or> Some (exactReviewClaimGeneration (le_claimGeneration lease)) = field_int (hr_claimGeneration req))
         \<and> (\<not> truthy leasedHead \<or> (hr_sourceHeadSha req \<noteq> None \<and> map_option to_lower leasedHead = head_sha req))
         \<and> item_live env now item)"

definition acknowledgement_conflict :: "heartbeat_request \<Rightarrow> queue_item \<Rightarrow> bool" where
  "acknowledgement_conflict req item \<longleftrightarrow>
     (heartbeat_phase req \<noteq> Some PhaseStatus
      \<or> (case le_leaseDecision (qi_lease item) of None \<Rightarrow> True
         | Some d \<Rightarrow> bd_itemKind d \<noteq> PullItem \<or> exactReviewDecisionHasCommandContext d
             \<or> (bd_reviewAcknowledgementCommentId d \<noteq> None
                \<and> bd_reviewAcknowledgementCommentId d \<noteq> field_int (hr_reviewAcknowledgementCommentId req))))"

definition acknowledge_comment :: "heartbeat_request \<Rightarrow> queue_item \<Rightarrow> queue_item" where
  "acknowledge_comment req item =
     (let comment = field_int (hr_reviewAcknowledgementCommentId req);
          leased = item\<lparr>qi_lease := (qi_lease item)\<lparr>le_leaseDecision :=
                     map_option (bd_reviewAcknowledgementCommentId_update (\<lambda>_. comment)) (le_leaseDecision (qi_lease item))\<rparr>\<rparr>
      in if Some (qi_revision item) = field_int (hr_leaseRevision req)
         then leased\<lparr>qi_decision := (qi_decision item)\<lparr>bd_reviewAcknowledgementCommentId := comment\<rparr>\<rparr> else leased)"

definition status_successor_supersedes :: "heartbeat_request \<Rightarrow> queue_item \<Rightarrow> bool" where
  "status_successor_supersedes req item \<longleftrightarrow>
     (let lease = qi_lease item; leaseRevision = num_or_zero (field_int (hr_leaseRevision req))
      in heartbeat_phase req \<noteq> Some PhaseStatus \<and> le_leasePhase lease = Some PhaseStatus
         \<and> (number_or_0 (le_statusSupersedingRevision lease) > leaseRevision
            \<or> (le_statusSupersedingRevision lease = None \<and> qi_revision item > leaseRevision
               \<and> bd_supersedesInProgress (qi_decision item)
               \<and> (case le_leaseDecision lease of None \<Rightarrow> False
                  | Some d \<Rightarrow> exactReviewInputIdentityChanged d (qi_decision item)))))"

definition supersession_of :: "string \<Rightarrow> int \<Rightarrow> heartbeat_request \<Rightarrow> queue_item \<Rightarrow> supersession_audit" where
  "supersession_of auditId now req item =
     \<lparr>sa_itemKey = hr_itemKey req, sa_priorRevision = num_or_zero (field_int (hr_leaseRevision req)),
      sa_nextRevision = qi_revision item, sa_supersededLeaseId = nonempty (le_leaseId (qi_lease item)),
      sa_supersededRunId = nonempty (le_claimedRunId (qi_lease item)),
      sa_supersededRunAttempt = le_claimedRunAttempt (qi_lease item),
      sa_supersededClaimGeneration = le_claimGeneration (qi_lease item),
      sa_supersededProtocolVersion = le_claimProtocolVersion (qi_lease item),
      sa_sourceAction = bd_sourceAction (qi_decision item), sa_newerSourceEvent = True,
      sa_supersededAt = now, sa_auditId = auditId\<rparr>"

definition insertSupersessionAuditSync :: "supersession_audit \<Rightarrow> supersession_audit list \<Rightarrow> supersession_audit list" where
  "insertSupersessionAuditSync audit rows =
     (if List.member (map sa_auditId rows) (sa_auditId audit) then rows else rows @ [audit])"

definition release_to_successor :: "queue_state \<Rightarrow> int \<Rightarrow> queue_item \<Rightarrow> queue_item" where
  "release_to_successor st now item =
     (assign_attempt (exactReviewQueueEnqueueAttempt st now) (clearExactReviewLease item))
       \<lparr>qi_state := ItPending, qi_updatedAt := now\<rparr>"

definition beat :: "int \<Rightarrow> lease_phase \<Rightarrow> queue_item \<Rightarrow> queue_item" where
  "beat now phase item =
     item\<lparr>qi_lease := (qi_lease item)\<lparr>le_leaseHeartbeatAt := Some now, le_leasePhase := Some phase\<rparr>, qi_updatedAt := now\<rparr>"

definition charge_generation :: "env \<Rightarrow> int \<Rightarrow> heartbeat_request \<Rightarrow> feed_store \<Rightarrow> queue_item \<Rightarrow> feed_store \<times> queue_item" where
  "charge_generation env now req kv item =
     (if hr_generationStart req = Some True
         \<and> le_reviewBudgetChargeGeneration (qi_lease item) = Some (exactReviewClaimGeneration (le_claimGeneration (qi_lease item)))
      then case chargeStartedReviewGenerationSync env kv
                  (item\<lparr>qi_lease := (qi_lease item)\<lparr>le_reviewBudgetChargeGeneration := None\<rparr>\<rparr>) now of
             (kv', item', started) \<Rightarrow> (kv', item')
      else (kv, item))"

definition heartbeat_item :: "env \<Rightarrow> int \<Rightarrow> heartbeat_request \<Rightarrow> string \<Rightarrow> queue_item \<Rightarrow> lease_world \<Rightarrow> lease_world \<times> lease_error option" where
  "heartbeat_item env now req auditId item w =
     (if status_successor_supersedes req item
      then (w\<lparr>lw_queue := put_item (release_to_successor (lw_queue w) now item) (lw_queue w),
              lw_audits := insertSupersessionAuditSync (supersession_of auditId now req item) (lw_audits w)\<rparr>,
            Some (LeaseSuperseded (qi_revision item)))
      else case charge_generation env now req (lw_feed w) item of
             (kv', item') \<Rightarrow>
               (w\<lparr>lw_queue := put_item (beat now (the (heartbeat_phase req)) item') (lw_queue w), lw_feed := kv'\<rparr>, None))"

definition lease_heartbeat :: "env \<Rightarrow> int \<Rightarrow> heartbeat_request \<Rightarrow> string \<Rightarrow> lease_world \<Rightarrow> lease_world \<times> lease_error option" where
  "lease_heartbeat env now req auditId w =
     (case validate_heartbeat req of Some e \<Rightarrow> (w, Some e)
      | None \<Rightarrow>
          (case item_at (lw_queue w) (hr_itemKey req) of
             None \<Rightarrow> (w, Some LeaseNotActive)
           | Some item \<Rightarrow>
               (case reclaim_one env now item (lw_queue w) of
                  (st', True) \<Rightarrow> (w\<lparr>lw_queue := st'\<rparr>, Some LeaseNotActive)
                | (_, False) \<Rightarrow>
                    if \<not> heartbeat_owner env now req item then (w, Some LeaseNotActive)
                    else if hr_reviewAcknowledgementCommentId req \<noteq> FieldAbsent then
                      (if acknowledgement_conflict req item then (w, Some AcknowledgementCommentConflict)
                       else heartbeat_item env now req auditId (acknowledge_comment req item) w)
                    else heartbeat_item env now req auditId item w)))"

subsection \<open>Completion of a review\<close>

record completion_request =
  co_leaseId :: string
  co_itemKey :: string
  co_leaseRevision :: numeric_field
  co_claimGeneration :: numeric_field
  co_runId :: string
  co_runAttempt :: numeric_field
  co_outcome :: "string option"
  co_reviewFailureReason :: "string option"
  co_requeueLatest :: bool
  co_retryAt :: "string option"
  co_retryKind :: "string option"
  co_reviewHold :: "string option"

definition exactReviewCompletionOutcome :: "string option \<Rightarrow> completion_outcome \<Rightarrow> completion_outcome option" where
  "exactReviewCompletionOutcome value fallback =
     (if \<not> truthy value then Some fallback
      else if value = Some ''success'' then Some OutcomeSuccess
      else if value = Some ''failure'' then Some OutcomeFailure
      else if value = Some ''cancelled'' then Some OutcomeCancelled else None)"

definition co_tuple :: "completion_request \<Rightarrow> bool" where
  "co_tuple req \<longleftrightarrow> co_itemKey req \<noteq> [] \<or> co_leaseRevision req \<noteq> FieldAbsent \<or> co_claimGeneration req \<noteq> FieldAbsent"

definition completion_identity_error :: "completion_request \<Rightarrow> lease_error option" where
  "completion_identity_error req =
     (if co_leaseId req = [] \<or> co_runId req = [] then Some MissingLeaseOrRun
      else if \<not> digit_text (co_runId req) then Some InvalidRunId
      else if co_tuple req \<and> (co_itemKey req = [] \<or> not_positive (co_leaseRevision req)) then Some InvalidLeaseRevision
      else if co_tuple req \<and> not_positive (co_claimGeneration req) then Some InvalidClaimGeneration
      else if co_runAttempt req \<noteq> FieldAbsent \<and> exactReviewRunAttempt (co_runAttempt req) = None then Some InvalidRunAttempt
      else None)"

definition completion_reason_error :: "completion_request \<Rightarrow> lease_error option" where
  "completion_reason_error req =
     (let outcome = exactReviewCompletionOutcome (co_outcome req) OutcomeSuccess
      in if outcome = None then Some InvalidOutcome
         else if co_reviewFailureReason req \<noteq> None \<and> terminalReviewFailureReason (co_reviewFailureReason req) = None
         then Some InvalidReviewFailureReason
         else if co_reviewFailureReason req \<noteq> None \<and> outcome \<noteq> Some OutcomeFailure then Some ReasonWithoutFailure
         else if co_requeueLatest req \<and> outcome \<noteq> Some OutcomeSuccess then Some InvalidRequeueLatestOutcome
         else None)"

definition completion_retry_error :: "int \<Rightarrow> completion_request \<Rightarrow> lease_error option" where
  "completion_retry_error now req =
     (let outcome = exactReviewCompletionOutcome (co_outcome req) OutcomeSuccess;
          requestedRetryAt = exactReviewCompletionRetryAt (co_retryAt req) now;
          retryKind = exactReviewRetryKind (co_retryKind req)
      in if co_retryAt req \<noteq> None \<and> requestedRetryAt = None then Some InvalidRetryAt
         else if co_retryKind req \<noteq> None \<and> retryKind = None then Some InvalidRetryKind
         else if retryKind \<noteq> None \<and> outcome \<noteq> Some OutcomeFailure then Some RetryKindWithoutFailure
         else if retryKind \<noteq> None \<and> requestedRetryAt = None then Some RetryKindWithoutRetryAt
         else if co_reviewFailureReason req \<noteq> None \<and> retryKind \<noteq> None then Some ReasonWithRetry
         else if co_reviewHold req \<noteq> None \<and> exactReviewHoldReason (co_reviewHold req) = None then Some InvalidReviewHold
         else if co_reviewHold req \<noteq> None \<and> (outcome \<noteq> Some OutcomeSuccess \<or> co_requeueLatest req \<or> retryKind \<noteq> None)
         then Some HoldWithoutTerminalSuccess
         else None)"

definition first_error :: "'e option list \<Rightarrow> 'e option" where
  "first_error es = Option.bind (List.find (\<lambda>e. e \<noteq> None) es) (\<lambda>e. e)"

definition completion_owner :: "completion_request \<Rightarrow> queue_item \<Rightarrow> bool" where
  "completion_owner req item \<longleftrightarrow>
     le_leaseId (qi_lease item) = Some (co_leaseId req)
     \<and> (co_tuple req \<longrightarrow> le_leaseRevision (qi_lease item) = field_int (co_leaseRevision req)
          \<and> Some (exactReviewClaimGeneration (le_claimGeneration (qi_lease item))) = field_int (co_claimGeneration req))
     \<and> le_claimedRunId (qi_lease item) = Some (co_runId req)"

definition supersededCompletionRevisionSync :: "completion_request \<Rightarrow> supersession_audit list \<Rightarrow> int option" where
  "supersededCompletionRevisionSync req rows =
     (let leaseRevision = num_or_zero (field_int (co_leaseRevision req));
          matching = filter (\<lambda>a. sa_itemKey a = co_itemKey req \<and> sa_priorRevision a = leaseRevision
            \<and> sa_supersededLeaseId a = Some (co_leaseId req) \<and> sa_supersededRunId a = Some (co_runId req)
            \<and> sa_supersededRunAttempt a = exactReviewRunAttempt (co_runAttempt req)
            \<and> sa_supersededClaimGeneration a = field_int (co_claimGeneration req)
            \<and> sa_supersededProtocolVersion a = Some 2 \<and> sa_newerSourceEvent a) rows
      in case js_sort (\<lambda>a b. cmp_or (sa_supersededAt b - sa_supersededAt a) (cmp_lin (sa_auditId b) (sa_auditId a))) matching of
           [] \<Rightarrow> None
         | a # _ \<Rightarrow> if sa_nextRevision a > leaseRevision then Some (sa_nextRevision a) else None)"

definition completion_miss :: "completion_request \<Rightarrow> supersession_audit list \<Rightarrow> lease_error" where
  "completion_miss req rows =
     (case (if co_tuple req \<and> exactReviewRunAttempt (co_runAttempt req) \<noteq> None
            then supersededCompletionRevisionSync req rows else None) of
        Some r \<Rightarrow> LeaseSuperseded r | None \<Rightarrow> LeaseNotClaimed)"

definition completion_item_error :: "completion_request \<Rightarrow> queue_item \<Rightarrow> lease_error option" where
  "completion_item_error req item =
     (let publicationItem = exactReviewQueueIsPublication (qi_decision item); lease = qi_lease item;
          runAttempt = exactReviewRunAttempt (co_runAttempt req)
      in if (case le_claimProtocolVersion lease of None \<Rightarrow> 1 | Some v \<Rightarrow> v) \<noteq> (if co_tuple req then 2 else 1)
         then Some LeaseProtocolNotClaimed
         else if co_retryKind req \<noteq> None \<and> publicationItem then Some RetryKindOutsideReview
         else if co_reviewFailureReason req \<noteq> None \<and> publicationItem then Some ReasonForPublication
         else if co_reviewHold req \<noteq> None \<and> publicationItem then Some HoldForPublication
         else if le_claimedRunAttempt lease \<noteq> None \<and> runAttempt \<noteq> le_claimedRunAttempt lease then Some LeaseAttemptNotClaimed
         else None)"

definition complete_review ::
  "env \<Rightarrow> int \<Rightarrow> int option \<Rightarrow> completion_request \<Rightarrow> lease_world \<Rightarrow> lease_world \<times> (lease_error + bool \<times> bool)" where
  "complete_review env now sample req w =
     (case first_error [completion_identity_error req, completion_reason_error req, completion_retry_error now req] of
        Some e \<Rightarrow> (w, Inl e)
      | None \<Rightarrow>
          let st = lw_queue w;
              found = lease_lookup (co_tuple req) (co_itemKey req) (co_leaseId req) st
          in case found of
               None \<Rightarrow>
(w, Inl (completion_miss req (lw_audits w)))
             | Some item \<Rightarrow>
                 if \<not> completion_owner req item then (w, Inl (completion_miss req (lw_audits w)))
                 else case completion_item_error req item of Some e \<Rightarrow> (w, Inl e)
                   | None \<Rightarrow>
                       (case finishExactReviewQueueItem st item now
                               (the (exactReviewCompletionOutcome (co_outcome req) OutcomeSuccess))
                               (num_or_zero (exactReviewCompletionRetryAt (co_retryAt req) now)) (co_requeueLatest req)
                               (exactReviewRetryKind (co_retryKind req)) (terminalReviewFailureReason (co_reviewFailureReason req))
                               sample env (exactReviewHoldReason (co_reviewHold req)) of
                          (st', requeued, parked) \<Rightarrow>
                            (w\<lparr>lw_queue := st',
                               lw_feed := (if \<not> exactReviewQueueIsPublication (qi_decision item)
                                              \<and> exactReviewRetryKind (co_retryKind req) = Some RetryThrottle
                                           then deferScheduledReviewAdmissionForThrottleSync env (lw_feed w) now
                                                  (num_or_zero (exactReviewCompletionRetryAt (co_retryAt req) now))
                                           else lw_feed w)\<rparr>,
                             Inr (requeued, parked))))"


subsection \<open>Items keep their key, leases their identity\<close>

definition wf_queue :: "queue_state \<Rightarrow> bool" where
  "wf_queue st \<longleftrightarrow> distinct (map fst (qs_items st)) \<and> (\<forall>(k, item)\<in>set (qs_items st). qi_key item = k)"

lemma wf_item_at: "wf_queue st \<Longrightarrow> item_at st k = Some item \<Longrightarrow> qi_key item = k"
  by (auto simp: wf_queue_def item_at_def dest: map_of_SomeD)

lemma wf_member: "wf_queue st \<Longrightarrow> item \<in> snd ` set (qs_items st) \<Longrightarrow> item_at st (qi_key item) = Some item"
  by (auto simp: wf_queue_def item_at_def)

lemma update_member: "e \<in> set (AList.update k v xs) \<Longrightarrow> e = (k, v) \<or> e \<in> set xs"
  by (induction xs) (auto split: if_splits)

lemma wf_put: "wf_queue st \<Longrightarrow> wf_queue (put_item item st)"
  by (auto simp: wf_queue_def put_item_def distinct_update dest!: update_member)

lemma wf_delete: "wf_queue st \<Longrightarrow> wf_queue (delete_item k st)"
  by (auto simp: wf_queue_def delete_item_def AList.delete_eq distinct_map_filter)

text \<open>
  How one step may change an item: its key stays, its lease is dropped or stays the same lease,
  whose claim generation never falls and names one run and attempt.
\<close>

definition lease_gen :: "queue_item \<Rightarrow> int" where
  "lease_gen item = exactReviewClaimGeneration (le_claimGeneration (qi_lease item))"

definition evolves :: "queue_item \<Rightarrow> queue_item \<Rightarrow> bool" where
  "evolves item item' \<longleftrightarrow>
     qi_key item' = qi_key item
     \<and> (le_leaseId (qi_lease item') = None
        \<or> le_leaseId (qi_lease item') = le_leaseId (qi_lease item) \<and> lease_gen item \<le> lease_gen item'
           \<and> (lease_gen item = lease_gen item' \<and> 1 \<le> lease_gen item \<longrightarrow>
                le_claimedRunId (qi_lease item') = le_claimedRunId (qi_lease item)
                \<and> le_claimedRunAttempt (qi_lease item') = le_claimedRunAttempt (qi_lease item)))"

lemma evolves_refl [simp]: "evolves item item"
  by (simp add: evolves_def)

lemma evolves_trans: "evolves a b \<Longrightarrow> evolves b c \<Longrightarrow> evolves a c"
  unfolding evolves_def by (elim conjE disjE; simp; smt (verit))

lemma evolves_lease:
  "qi_key item' = qi_key item \<Longrightarrow> le_leaseId (qi_lease item') = None \<or> qi_lease item' = qi_lease item \<Longrightarrow> evolves item item'"
  by (auto simp: evolves_def lease_gen_def)

lemma no_lease_simps [simp]: "le_leaseId no_lease = None"
  by (simp add: no_lease_def)

lemma lease_gen_nonneg: "0 \<le> lease_gen item"
  by (simp add: lease_gen_def exactReviewClaimGeneration_def split: option.split)

lemma evolves_take: "evolves item (take_lease env now req item)"
  using lease_gen_nonneg[of item]
  by (auto simp: evolves_def take_lease_def lease_gen_def Let_def exactReviewClaimGeneration_def split: option.splits)

lemma evolves_same_attempt: "evolves item (reclaim_same_attempt env now req item)"
  by (auto simp: evolves_def reclaim_same_attempt_def lease_gen_def exactReviewClaimGeneration_def split: option.splits)

lemma evolves_without_attempt: "evolves item (reclaim_without_attempt req item)"
  by (auto simp: evolves_def reclaim_without_attempt_def lease_gen_def exactReviewClaimGeneration_def split: option.splits)

lemma evolves_recover_decision: "recover_lease_decision item = Some item' \<Longrightarrow> evolves item item'"
  by (auto simp: evolves_def recover_lease_decision_def lease_gen_def split: if_splits)

lemma evolves_decide:
  "decide_claim env now req item = ClaimAgain item' b \<Longrightarrow> evolves item item'"
  "decide_claim env now req item = ClaimTaken item' \<Longrightarrow> evolves item item'"
  by (auto simp: decide_claim_def Let_def intro: evolves_take evolves_same_attempt evolves_without_attempt
      split: if_splits option.splits)

lemma evolves_beat: "evolves item (beat now phase item)"
  by (simp add: evolves_def beat_def lease_gen_def)

lemma charge_keeps_lease:
  "chargeStartedReviewGenerationSync env kv item now = (kv', item', started) \<Longrightarrow>
     qi_lease item' = qi_lease item \<and> qi_key item' = qi_key item"
  by (auto simp: chargeStartedReviewGenerationSync_def split: if_splits)

lemma evolves_clear_charge:
  "qi_key item' = qi_key item \<Longrightarrow> qi_lease item' = (qi_lease item)\<lparr>le_reviewBudgetChargeGeneration := None\<rparr> \<Longrightarrow> evolves item item'"
  by (simp add: evolves_def lease_gen_def)

lemma evolves_charge: "charge_generation env now req kv item = (kv', item') \<Longrightarrow> evolves item item'"
  by (auto simp: charge_generation_def split: if_splits prod.splits dest!: charge_keeps_lease
      intro!: evolves_clear_charge)

lemma evolves_acknowledge: "evolves item (acknowledge_comment req item)"
  by (simp add: evolves_def acknowledge_comment_def lease_gen_def Let_def)

lemma evolves_release: "evolves item (release_to_successor st now item)"
  by (rule evolves_lease) (simp_all add: release_to_successor_def assign_attempt_def)

text \<open>What one operation does to a queue: every item stays, evolves or disappears.\<close>

definition queue_evolves :: "queue_state \<Rightarrow> queue_state \<Rightarrow> bool" where
  "queue_evolves st st' \<longleftrightarrow>
     wf_queue st' \<and> (\<forall>k item'. item_at st' k = Some item' \<longrightarrow> (\<exists>item. item_at st k = Some item \<and> evolves item item'))"

lemma queue_evolves_refl: "wf_queue st \<Longrightarrow> queue_evolves st st"
  by (auto simp: queue_evolves_def)

lemma queue_evolves_put:
  "wf_queue st \<Longrightarrow> item_at st (qi_key item) = Some item \<Longrightarrow> evolves item item' \<Longrightarrow> queue_evolves st (put_item item' st)"
  by (auto simp: queue_evolves_def wf_put evolves_def split: if_splits)

lemma queue_evolves_delete: "wf_queue st \<Longrightarrow> queue_evolves st (delete_item k st)"
  by (auto simp: queue_evolves_def wf_delete split: if_splits)


lemma finish_evolves:
  assumes "wf_queue st" "item_at st (qi_key item) = Some item"
  shows "queue_evolves st (fst (finishExactReviewQueueItem st item now outcome retryAt latest kind reason sample env hold))"
proof -
  obtain st' r p where run: "finishExactReviewQueueItem st item now outcome retryAt latest kind reason sample env hold = (st', r, p)"
    by (metis prod.collapse)
  from run show ?thesis
  proof (cases rule: finish_cases)
    case deleted
    with run assms show ?thesis by (simp add: queue_evolves_delete)
  next
    case (kept item')
    then have "evolves item item'" by (intro evolves_lease) simp_all
    with run kept(1) assms show ?thesis by (simp add: queue_evolves_put)
  qed
qed

lemma reclaim_one_evolves:
  assumes "wf_queue st" "item_at st (qi_key item) = Some item"
  shows "queue_evolves st (fst (reclaim_one env now item st))"
proof (cases "reclaim_item now env item")
  case None
  with assms show ?thesis
    by (simp add: reclaim_one_def reclaimExpiredExactReviewLease_def queue_evolves_refl queue_evolves_delete)
next
  case (Some item')
  then have item': "qi_key item' = qi_key item" "qi_lease item' = no_lease" using reclaimed_not_expired by blast+
  then have "evolves item item'" by (intro evolves_lease) simp_all
  with assms Some item' show ?thesis
    using queue_evolves_put[OF assms, of item']
    by (simp add: reclaim_one_def reclaimExpiredExactReviewLease_def queue_evolves_refl put_item_def)
qed

lemma lease_lookup_item:
  assumes "wf_queue st" "lease_lookup tuple itemKey leaseId st = Some item"
  shows "item_at st (qi_key item) = Some item"
proof (cases tuple)
  case True
  with assms wf_item_at show ?thesis by (auto simp: lease_lookup_def)
next
  case False
  with assms have "item \<in> snd ` set (qs_items st)"
    by (auto simp: lease_lookup_def exactReviewItemForLease_def find_Some_iff)
  with assms(1) wf_member show ?thesis by blast
qed

lemma claim_begin_evolves:
  assumes "wf_queue st"
  shows "queue_evolves st (fst (claim_begin env now req st))"
proof (cases "claim_lookup req st")
  case None
  with assms show ?thesis by (simp add: claim_begin_def queue_evolves_refl split: option.split)
next
  case (Some item)
  from reclaim_one_evolves[OF assms lease_lookup_item[OF assms Some], of env now] Some assms show ?thesis
    by (auto simp: claim_begin_def queue_evolves_refl split: option.split prod.split bool.split)
qed

lemma claim_finish_evolves:
  assumes "wf_queue (lw_queue w)"
  shows "queue_evolves (lw_queue w) (lw_queue (fst (claim_finish env sql now admission answered sample req w)))"
proof (cases "claim_refusal env now req (claim_lookup req (lw_queue w))")
  case (Some e)
  then show ?thesis by (simp add: claim_finish_def Let_def queue_evolves_refl assms)
next
  case None
  then obtain item where item: "claim_lookup req (lw_queue w) = Some item"
    by (auto simp: claim_refusal_def split: option.splits)
  note at = lease_lookup_item[OF assms item]
  have put: "queue_evolves (lw_queue w) (put_item item'' (lw_queue w))"
    if "recover_lease_decision item = Some item'" "evolves item' item''" for item' item''
    using that evolves_trans[OF evolves_recover_decision that(2)] queue_evolves_put[OF assms at] by blast
  show ?thesis using None item
    by (auto simp: claim_finish_def Let_def queue_evolves_refl queue_evolves_delete finish_evolves assms at
        intro!: put dest: evolves_decide split: option.split claim_decision.split)
qed

lemma heartbeat_item_evolves:
  assumes "wf_queue (lw_queue w)" "item_at (lw_queue w) (qi_key item) = Some item" "evolves item item'"
  shows "queue_evolves (lw_queue w) (lw_queue (fst (heartbeat_item env now req auditId item' w)))"
proof (cases "status_successor_supersedes req item'")
  case True
  with evolves_trans[OF assms(3) evolves_release] queue_evolves_put[OF assms(1,2)] show ?thesis
    by (simp add: heartbeat_item_def)
next
  case False
  obtain kv' item'' where charge: "charge_generation env now req (lw_feed w) item' = (kv', item'')" by fastforce
  from evolves_trans[OF assms(3) evolves_trans[OF evolves_charge[OF charge] evolves_beat]] False charge
    queue_evolves_put[OF assms(1,2)]
  show ?thesis by (simp add: heartbeat_item_def)
qed

lemma heartbeat_evolves:
  assumes "wf_queue (lw_queue w)"
  shows "queue_evolves (lw_queue w) (lw_queue (fst (lease_heartbeat env now req auditId w)))"
proof (cases "item_at (lw_queue w) (hr_itemKey req)")
  case None
  with assms show ?thesis by (simp add: lease_heartbeat_def queue_evolves_refl split: option.split)
next
  case (Some item)
  with wf_item_at[OF assms Some] have at: "item_at (lw_queue w) (qi_key item) = Some item" by simp
  obtain st' c where reclaim: "reclaim_one env now item (lw_queue w) = (st', c)" by fastforce
  from reclaim_one_evolves[OF assms at, of env now] reclaim have st': "queue_evolves (lw_queue w) st'" by simp
  note beat = heartbeat_item_evolves[OF assms at]
  show ?thesis using Some reclaim st' beat[OF evolves_refl] beat[OF evolves_acknowledge] assms
    by (cases c) (auto simp: lease_heartbeat_def queue_evolves_refl split: option.split)
qed

text \<open>A completion changes the queue only by finishing an item that its request owns.\<close>

definition review_finish ::
  "env \<Rightarrow> int \<Rightarrow> int option \<Rightarrow> completion_request \<Rightarrow> queue_state \<Rightarrow> queue_item \<Rightarrow> queue_state \<times> bool \<times> bool" where
  "review_finish env now sample req st item =
     finishExactReviewQueueItem st item now (the (exactReviewCompletionOutcome (co_outcome req) OutcomeSuccess))
       (num_or_zero (exactReviewCompletionRetryAt (co_retryAt req) now)) (co_requeueLatest req)
       (exactReviewRetryKind (co_retryKind req)) (terminalReviewFailureReason (co_reviewFailureReason req))
       sample env (exactReviewHoldReason (co_reviewHold req))"

lemma complete_review_cases:
  obtains (refused) e where "complete_review env now sample req w = (w, Inl e)"
  | (accepted) item w' r where "lease_lookup (co_tuple req) (co_itemKey req) (co_leaseId req) (lw_queue w) = Some item"
      "completion_owner req item" "complete_review env now sample req w = (w', Inr r)"
      "lw_queue w' = fst (review_finish env now sample req (lw_queue w) item)"
proof (cases "first_error [completion_identity_error req, completion_reason_error req, completion_retry_error now req]")
  case (Some e)
  then show thesis by (intro refused) (simp add: complete_review_def)
next
  case None
  show thesis
  proof (cases "lease_lookup (co_tuple req) (co_itemKey req) (co_leaseId req) (lw_queue w)")
    case lookup: None
    with None show thesis by (intro refused) (simp add: complete_review_def)
  next
    case (Some item)
    consider "\<not> completion_owner req item" | e where "completion_owner req item" "completion_item_error req item = Some e"
      | "completion_owner req item" "completion_item_error req item = None"
      by (cases "completion_item_error req item") auto
    then show thesis
    proof cases
      case 1
      with None Some show thesis by (intro refused) (simp add: complete_review_def)
    next
      case (2 e)
      with None Some show thesis by (intro refused) (simp add: complete_review_def)
    next
      case 3
      obtain st' r p where "review_finish env now sample req (lw_queue w) item = (st', r, p)" by (metis prod.collapse)
      with 3 None Some accepted[OF Some] show thesis by (simp add: complete_review_def review_finish_def)
    qed
  qed
qed

lemma complete_evolves:
  assumes "wf_queue (lw_queue w)"
  shows "queue_evolves (lw_queue w) (lw_queue (fst (complete_review env now sample req w)))"
proof (cases rule: complete_review_cases[of env now sample req w])
  case refused
  with assms show ?thesis by (simp add: queue_evolves_refl)
next
  case (accepted item w' r)
  from finish_evolves[OF assms lease_lookup_item[OF assms accepted(1)]] accepted(3,4) show ?thesis
    by (simp add: review_finish_def)
qed


subsection \<open>The protocol as a machine\<close>

text \<open>
  The steps of the queue that touch leases: new items and newer input arrive, a pending item is
  dispatched with a fresh lease id (the ids used so far are the second component), and the
  requests and sweeps above happen in any order and at any time.
\<close>

inductive lease_step :: "env \<Rightarrow> lease_world \<times> string set \<Rightarrow> lease_world \<times> string set \<Rightarrow> bool" for env where
  step_admit: "item_at (lw_queue w) (qi_key item) = None \<Longrightarrow> le_leaseId (qi_lease item) = None \<Longrightarrow>
     lease_step env (w, used) (w\<lparr>lw_queue := put_item item (lw_queue w)\<rparr>, used)"
| step_input: "item_at (lw_queue w) k = Some item \<Longrightarrow>
     lease_step env (w, used) (w\<lparr>lw_queue := put_item (item\<lparr>qi_decision := d, qi_revision := r\<rparr>) (lw_queue w)\<rparr>, used)"
| step_dispatch: "item_at (lw_queue w) k = Some item \<Longrightarrow> qi_state item = ItPending \<Longrightarrow> leaseId \<notin> used \<Longrightarrow>
     lease_step env (w, used) (w\<lparr>lw_queue := put_item (open_lease env now leaseId item) (lw_queue w)\<rparr>, insert leaseId used)"
| step_claim_begin: "lease_step env (w, used) (w\<lparr>lw_queue := fst (claim_begin env now creq (lw_queue w))\<rparr>, used)"
| step_claim: "lease_step env (w, used) (fst (claim_finish env sql now admission answered sample creq w), used)"
| step_heartbeat: "lease_step env (w, used) (fst (lease_heartbeat env now hreq auditId w), used)"
| step_complete: "lease_step env (w, used) (fst (complete_review env now sample coreq w), used)"
| step_reclaim: "lease_step env (w, used)
     (w\<lparr>lw_queue := fst (reclaimExpiredExactReviewLeases now p g env (lw_queue w))\<rparr>, used)"

definition lease_inv :: "lease_world \<times> string set \<Rightarrow> bool" where
  "lease_inv s \<longleftrightarrow>
     wf_queue (lw_queue (fst s))
     \<and> (\<forall>k item l. item_at (lw_queue (fst s)) k = Some item \<longrightarrow> le_leaseId (qi_lease item) = Some l \<longrightarrow> l \<in> snd s)
     \<and> (\<forall>k k' item item' l. item_at (lw_queue (fst s)) k = Some item \<longrightarrow> item_at (lw_queue (fst s)) k' = Some item' \<longrightarrow>
          le_leaseId (qi_lease item) = Some l \<longrightarrow> le_leaseId (qi_lease item') = Some l \<longrightarrow> k = k')"

text \<open>An item that holds a lease id used before is the item that held it, evolved.\<close>

definition leases_evolve :: "lease_world \<times> string set \<Rightarrow> lease_world \<times> string set \<Rightarrow> bool" where
  "leases_evolve s s' \<longleftrightarrow> snd s \<subseteq> snd s'
     \<and> (\<forall>k item' l. item_at (lw_queue (fst s')) k = Some item' \<longrightarrow> le_leaseId (qi_lease item') = Some l \<longrightarrow> l \<in> snd s \<longrightarrow>
          (\<exists>item. item_at (lw_queue (fst s)) k = Some item \<and> le_leaseId (qi_lease item) = Some l \<and> evolves item item'))"

lemma queue_evolves_step:
  assumes "lease_inv (w, used)" "queue_evolves (lw_queue w) (lw_queue w')"
  shows "lease_inv (w', used) \<and> leases_evolve (w, used) (w', used)"
proof -
  have prior: "\<exists>item. item_at (lw_queue w) k = Some item \<and> evolves item item' \<and> le_leaseId (qi_lease item) = Some l"
    if "item_at (lw_queue w') k = Some item'" "le_leaseId (qi_lease item') = Some l" for k item' l
    using assms(2) that by (fastforce simp: queue_evolves_def evolves_def)
  have "lease_inv (w', used)"
    unfolding lease_inv_def
  proof (intro conjI allI impI; (simp only: fst_conv snd_conv)?)
    show "wf_queue (lw_queue w')" using assms(2) by (simp add: queue_evolves_def)
  next
    fix k item l assume "item_at (lw_queue w') k = Some item" "le_leaseId (qi_lease item) = Some l"
    from prior[OF this] assms(1) show "l \<in> used" unfolding lease_inv_def fst_conv snd_conv by blast
  next
    fix k k' item item' l
    assume "item_at (lw_queue w') k = Some item" "item_at (lw_queue w') k' = Some item'"
      "le_leaseId (qi_lease item) = Some l" "le_leaseId (qi_lease item') = Some l"
    with prior[of k item l] prior[of k' item' l] assms(1) show "k = k'"
      unfolding lease_inv_def fst_conv snd_conv by blast
  qed
  moreover have "leases_evolve (w, used) (w', used)"
    unfolding leases_evolve_def fst_conv snd_conv using prior by blast
  ultimately show ?thesis by simp
qed

lemma put_fresh_step:
  assumes inv: "lease_inv (w, used)" and at: "\<And>l. le_leaseId (qi_lease item) = Some l \<Longrightarrow> l \<notin> used \<and> l \<in> used'"
    and sub: "used \<subseteq> used'"
  shows "lease_inv (w\<lparr>lw_queue := put_item item (lw_queue w)\<rparr>, used')
     \<and> leases_evolve (w, used) (w\<lparr>lw_queue := put_item item (lw_queue w)\<rparr>, used')"
proof -
  have used: "l \<in> used" if "item_at (lw_queue w) k = Some i" "le_leaseId (qi_lease i) = Some l" for k i l
    using inv that unfolding lease_inv_def fst_conv snd_conv by blast
  have uniq: "k = k'" if "item_at (lw_queue w) k = Some i" "item_at (lw_queue w) k' = Some i'"
      "le_leaseId (qi_lease i) = Some l" "le_leaseId (qi_lease i') = Some l" for k k' i i' l
    using inv that unfolding lease_inv_def fst_conv snd_conv by blast
  have "wf_queue (lw_queue w)" using inv by (simp add: lease_inv_def)
  then have "lease_inv (w\<lparr>lw_queue := put_item item (lw_queue w)\<rparr>, used')"
    unfolding lease_inv_def using at sub used uniq by (auto simp: wf_put split: if_splits) (blast+)?
  moreover have "leases_evolve (w, used) (w\<lparr>lw_queue := put_item item (lw_queue w)\<rparr>, used')"
    unfolding leases_evolve_def using at sub by (auto split: if_splits)
  ultimately show ?thesis by simp
qed


lemma map_filter_keys:
  assumes "distinct (map fst xs)" "\<And>e e'. f e = Some e' \<Longrightarrow> fst e' = fst e"
  shows "distinct (map fst (List.map_filter f xs))"
proof -
  have sub: "fst ` set (List.map_filter f ys) \<subseteq> fst ` set ys" for ys
  proof
    fix k assume "k \<in> fst ` set (List.map_filter f ys)"
    then obtain e e' where "e \<in> set ys" "f e = Some e'" "k = fst e'" by (auto simp: List.map_filter_def)
    with assms(2) show "k \<in> fst ` set ys" by auto
  qed
  show ?thesis using assms(1)
  proof (induction xs)
    case (Cons e xs)
    then show ?case using sub[of xs] assms(2)[of e] by (auto simp: map_filter_simps split: option.split)
  qed (simp add: map_filter_simps)
qed

lemma reclaim_entry_evolves:
  "reclaim_entry now p g env (k, item) = Some e' \<Longrightarrow> \<exists>item'. e' = (k, item') \<and> evolves item item'"
  by (auto simp: reclaim_entry_def evolves_def dest: reclaimed_not_expired split: if_splits)

lemma reclaim_sweep_evolves:
  assumes wf: "wf_queue st"
  shows "queue_evolves st (fst (reclaimExpiredExactReviewLeases now p g env st))"
proof -
  let ?f = "reclaim_entry now p g env"
  have items: "fst (reclaimExpiredExactReviewLeases now p g env st) = st\<lparr>qs_items := List.map_filter ?f (qs_items st)\<rparr>"
    using reclaim_fold[of "[]" "qs_items st" now p g env st False] wf
    by (simp add: reclaimExpiredExactReviewLeases_def wf_queue_def)
  have entry: "\<exists>item. (k, item) \<in> set (qs_items st) \<and> evolves item item'"
    if "(k, item') \<in> set (List.map_filter ?f (qs_items st))" for k item'
  proof -
    from that obtain e where "e \<in> set (qs_items st)" "?f e = Some (k, item')" by (auto simp: List.map_filter_def)
    with reclaim_entry_evolves[of now p g env "fst e" "snd e"] show ?thesis by (metis Pair_inject prod.collapse)
  qed
  have key: "fst e' = fst e" if "?f e = Some e'" for e e'
    using reclaim_entry_evolves[of now p g env "fst e" "snd e"] that by auto
  have dist: "distinct (map fst (List.map_filter ?f (qs_items st)))"
    using wf key by (intro map_filter_keys) (auto simp: wf_queue_def)
  show ?thesis unfolding queue_evolves_def items
  proof (intro conjI allI impI)
    show "wf_queue (st\<lparr>qs_items := List.map_filter ?f (qs_items st)\<rparr>)"
      using dist wf entry by (fastforce simp: wf_queue_def evolves_def)
  next
    fix k item' assume "item_at (st\<lparr>qs_items := List.map_filter ?f (qs_items st)\<rparr>) k = Some item'"
    then have "(k, item') \<in> set (List.map_filter ?f (qs_items st))" by (simp add: item_at_def map_of_SomeD)
    with entry wf show "\<exists>item. item_at st k = Some item \<and> evolves item item'"
      by (fastforce simp: item_at_def wf_queue_def)
  qed
qed

lemma lease_step_evolves:
  "lease_step env s s' \<Longrightarrow> lease_inv s \<Longrightarrow> lease_inv s' \<and> leases_evolve s s'"
proof (induction rule: lease_step.induct)
  case (step_admit w item used)
  then show ?case by (intro put_fresh_step) auto
next
  case (step_input w k item used r d)
  then have wf: "wf_queue (lw_queue w)" by (simp add: lease_inv_def)
  have "evolves item (item\<lparr>qi_decision := d, qi_revision := r\<rparr>)" by (rule evolves_lease) auto
  from queue_evolves_put[OF wf _ this] wf_item_at[OF wf step_input(1)] step_input(1)
  have "queue_evolves (lw_queue w) (put_item (item\<lparr>qi_decision := d, qi_revision := r\<rparr>) (lw_queue w))" by simp
  with step_input show ?case by (intro queue_evolves_step) simp_all
next
  case (step_dispatch w k item leaseId used now)
  then show ?case by (intro put_fresh_step) (auto simp: open_lease_def)
next
  case (step_claim_begin w used now creq)
  then show ?case by (intro queue_evolves_step) (auto simp: lease_inv_def claim_begin_evolves)
next
  case (step_claim w used sql now admission answered sample creq)
  then show ?case by (intro queue_evolves_step) (auto simp: lease_inv_def claim_finish_evolves)
next
  case (step_heartbeat w used now hreq auditId)
  then show ?case by (intro queue_evolves_step) (auto simp: lease_inv_def heartbeat_evolves)
next
  case (step_complete w used now sample coreq)
  then show ?case by (intro queue_evolves_step) (auto simp: lease_inv_def complete_evolves)
next
  case (step_reclaim w used now p g)
  then show ?case by (intro queue_evolves_step) (auto simp: lease_inv_def reclaim_sweep_evolves)
qed

lemma leases_evolve_trans: "leases_evolve s s' \<Longrightarrow> leases_evolve s' s'' \<Longrightarrow> leases_evolve s s''"
  unfolding leases_evolve_def by (meson evolves_trans subset_iff)

lemma leases_evolve_refl: "leases_evolve s s"
  unfolding leases_evolve_def using evolves_refl by blast

lemma lease_run_evolves:
  "(lease_step env)\<^sup>*\<^sup>* s s' \<Longrightarrow> lease_inv s \<Longrightarrow> lease_inv s' \<and> leases_evolve s s'"
proof (induction rule: rtranclp_induct)
  case base
  then show ?case by (simp add: leases_evolve_refl)
next
  case (step s' s'')
  then show ?case using lease_step_evolves[OF step(2)] leases_evolve_trans by blast
qed

definition empty_world :: lease_world where
  "empty_world = \<lparr>lw_queue = \<lparr>qs_items = [], qs_shedSinceReset = None, qs_dispatcher = None\<rparr>, lw_feed = (\<lambda>_. None),
     lw_loop = empty_loop_store, lw_audits = []\<rparr>"

lemma lease_inv_empty: "lease_inv (empty_world, {})"
  by (simp add: lease_inv_def empty_world_def wf_queue_def item_at_def)

lemma lease_inv_reachable: "(lease_step env)\<^sup>*\<^sup>* (empty_world, {}) s \<Longrightarrow> lease_inv s"
  using lease_run_evolves lease_inv_empty by blast

subsection \<open>Fencing\<close>

lemma heartbeat_acceptedE:
  assumes "snd (lease_heartbeat env now req auditId w) = None"
  obtains item where "item_at (lw_queue w) (hr_itemKey req) = Some item" "heartbeat_owner env now req item"
    "validate_heartbeat req = None"
  using assms by (auto simp: lease_heartbeat_def split: option.splits prod.splits bool.splits if_splits)


lemma owner_lease:
  assumes "heartbeat_owner env now req item" "hr_claimGeneration req = FieldInt g"
  shows "le_leaseId (qi_lease item) = Some (hr_leaseId req)" "lease_gen item = g"
    "le_claimedRunId (qi_lease item) = Some (hr_runId req)"
  using assms by (auto simp: heartbeat_owner_def Let_def lease_gen_def field_int_def)

lemma accepted_generation:
  "validate_heartbeat req = None \<Longrightarrow> hr_claimGeneration req = FieldInt g \<Longrightarrow> 1 \<le> g"
  by (auto simp: validate_heartbeat_def not_positive_def split: if_splits)

text \<open>
  C2. A claimant that lost its lease to a newer attempt is fenced off for good: in any run of the
  protocol (admissions, new input, dispatches, claims, heartbeats, completions and sweeps, in
  any order and at any time), when two heartbeats with a claim generation are accepted for one
  lease id, they name the same item, the later one's generation is not smaller, and with the
  same generation they come from the same workflow run.
\<close>

theorem stale_claimant_fenced:
  assumes "(lease_step env)\<^sup>*\<^sup>* (empty_world, {}) s1" "(lease_step env)\<^sup>*\<^sup>* s1 s2"
    and "snd (lease_heartbeat env now1 req1 audit1 (fst s1)) = None" "snd (lease_heartbeat env now2 req2 audit2 (fst s2)) = None"
    and "hr_leaseId req1 = hr_leaseId req2" "hr_claimGeneration req1 = FieldInt g1" "hr_claimGeneration req2 = FieldInt g2"
  shows "hr_itemKey req1 = hr_itemKey req2 \<and> g1 \<le> g2 \<and> (g1 = g2 \<longrightarrow> hr_runId req1 = hr_runId req2)"
proof -
  have inv: "lease_inv s1" using assms(1) by (rule lease_inv_reachable)
  have run: "leases_evolve s1 s2" using lease_run_evolves[OF assms(2) inv] by simp
  from assms(3) obtain i1 where i1: "item_at (lw_queue (fst s1)) (hr_itemKey req1) = Some i1"
      "heartbeat_owner env now1 req1 i1" "validate_heartbeat req1 = None" by (rule heartbeat_acceptedE)
  from assms(4) obtain i2 where i2: "item_at (lw_queue (fst s2)) (hr_itemKey req2) = Some i2"
      "heartbeat_owner env now2 req2 i2" "validate_heartbeat req2 = None" by (rule heartbeat_acceptedE)
  note o1 = owner_lease[OF i1(2) assms(6)] and o2 = owner_lease[OF i2(2) assms(7)]
  have "hr_leaseId req1 \<in> snd s1" using inv i1(1) o1(1) unfolding lease_inv_def by blast
  then obtain i where i: "item_at (lw_queue (fst s1)) (hr_itemKey req2) = Some i"
      "le_leaseId (qi_lease i) = Some (hr_leaseId req1)" "evolves i i2"
    using run i2(1) o2(1) assms(5) unfolding leases_evolve_def by metis
  have key: "hr_itemKey req1 = hr_itemKey req2" using inv i1(1) o1(1) i(1,2) unfolding lease_inv_def by blast
  with i1(1) i(1) have "i = i1" by simp
  with i(3) o1 o2 assms(5) accepted_generation[OF i1(3) assms(6)] key show ?thesis by (auto simp: evolves_def)
qed


text \<open>A run for the witnesses: an item is admitted, dispatched and claimed by two attempts of a run.\<close>

definition sample_lease_claim :: "int \<Rightarrow> claim_request" where
  "sample_lease_claim attempt = \<lparr>cr_leaseId = ''l-1'', cr_itemKey = ''o/r#7'', cr_leaseRevision = FieldInt 3, cr_runId = ''9'',
     cr_runAttempt = FieldInt attempt\<rparr>"

definition sample_beat :: "int \<Rightarrow> heartbeat_request" where
  "sample_beat g = \<lparr>hr_itemKey = ''o/r#7'', hr_leaseId = ''l-1'', hr_leaseRevision = FieldInt 3, hr_runId = ''9'',
     hr_runAttempt = FieldInt g, hr_claimGeneration = FieldInt g, hr_sourceHeadSha = Some (replicate 40 (CHR ''a'')),
     hr_reviewAcknowledgementCommentId = FieldAbsent, hr_phase = None, hr_generationStart = None\<rparr>"

definition sample_admitted :: lease_world where
  "sample_admitted = empty_world\<lparr>lw_queue := put_item sample_review_item (lw_queue empty_world)\<rparr>"

definition sample_dispatched :: lease_world where
  "sample_dispatched = sample_admitted\<lparr>lw_queue := put_item (open_lease sample_env 1500 ''l-1'' sample_review_item) (lw_queue sample_admitted)\<rparr>"

definition sample_claimed :: "int \<Rightarrow> lease_world \<Rightarrow> lease_world" where
  "sample_claimed attempt w = fst (claim_finish sample_env SqlOk (2000 + attempt) AdmitPublic False None (sample_lease_claim attempt) w)"

lemma sample_lease_run:
  "(lease_step sample_env)\<^sup>*\<^sup>* (empty_world, {}) (sample_claimed 1 sample_dispatched, {''l-1''})"
proof -
  have "lease_step sample_env (empty_world, {}) (sample_admitted, {})"
    unfolding sample_admitted_def by (rule step_admit) (simp_all add: empty_world_def item_at_def sample_review_item_def new_item_def)
  moreover have "lease_step sample_env (sample_admitted, {}) (sample_dispatched, {''l-1''})"
    unfolding sample_dispatched_def
    by (rule step_dispatch[where k = "''o/r#7''"]) (simp_all add: sample_admitted_def sample_review_item_def new_item_def)
  moreover have "lease_step sample_env (sample_dispatched, {''l-1''}) (sample_claimed 1 sample_dispatched, {''l-1''})"
    unfolding sample_claimed_def by (rule step_claim)
  ultimately show ?thesis by (meson converse_rtranclp_into_rtranclp rtranclp.rtrancl_refl)
qed

lemma sample_beats:
  "snd (lease_heartbeat sample_env 3000 (sample_beat 1) ''a'' (sample_claimed 1 sample_dispatched)) = None"
  "snd (lease_heartbeat sample_env 3100 (sample_beat 2) ''b'' (sample_claimed 2 (sample_claimed 1 sample_dispatched))) = None"
  by code_simp+

lemma stale_claimant_fenced_witness: "(1::int) \<le> 2 \<and> hr_itemKey (sample_beat 1) = hr_itemKey (sample_beat 2)"
proof -
  have step: "(lease_step sample_env)\<^sup>*\<^sup>* (sample_claimed 1 sample_dispatched, {''l-1''})
      (sample_claimed 2 (sample_claimed 1 sample_dispatched), {''l-1''})"
    unfolding sample_claimed_def[of 2] by (rule r_into_rtranclp, rule step_claim)
  show ?thesis
    using stale_claimant_fenced[OF sample_lease_run step, of 3000 "sample_beat 1" "''a''" 3100 "sample_beat 2" "''b''" 1 2]
      sample_beats by (simp add: sample_beat_def)
qed

text \<open>
  C5. A completion is accepted at most once and ends its lease: after a review completion was
  accepted, no heartbeat, no claim and no completion with its lease id is ever accepted again,
  whatever happens in between, so a late duplicate of a finished run cannot settle, requeue or
  keep alive the item a second time.
\<close>

theorem completed_lease_never_revives:
  assumes "(lease_step env)\<^sup>*\<^sup>* (empty_world, {}) (w1, used)"
    and "complete_review env now1 sample1 req1 w1 = (w1', Inr r)"
    and "(lease_step env)\<^sup>*\<^sup>* (w1', used) (w2, used2)"
  shows "(hr_leaseId hreq = co_leaseId req1 \<longrightarrow> snd (lease_heartbeat env now2 hreq audit w2) \<noteq> None)
     \<and> (cr_leaseId creq = co_leaseId req1 \<longrightarrow> claim_finish env sql now2 admission answered sample2 creq w2 = (w2, Inl LeaseNotActive))
     \<and> (co_leaseId req2 = co_leaseId req1 \<longrightarrow> (\<exists>e. complete_review env now2 sample2 req2 w2 = (w2, Inl e)))"
proof -
  let ?l = "co_leaseId req1"
  have inv: "lease_inv (w1, used)" using assms(1) by (rule lease_inv_reachable)
  then have wf: "wf_queue (lw_queue w1)" by (simp add: lease_inv_def)
  obtain item where item: "lease_lookup (co_tuple req1) (co_itemKey req1) ?l (lw_queue w1) = Some item"
      "completion_owner req1 item" "lw_queue w1' = fst (review_finish env now1 sample1 req1 (lw_queue w1) item)"
    using assms(2) by (cases rule: complete_review_cases[of env now1 sample1 req1 w1]) auto
  have at: "item_at (lw_queue w1) (qi_key item) = Some item" by (rule lease_lookup_item[OF wf item(1)])
  have lease: "le_leaseId (qi_lease item) = Some ?l" using item(2) by (simp add: completion_owner_def)
  with at inv have used: "?l \<in> used" unfolding lease_inv_def by auto
  have step: "lease_step env (w1, used) (w1', used)" using step_complete[of env w1 used now1 sample1 req1] assms(2) by simp
  have inv': "lease_inv (w1', used)" using lease_step_evolves[OF step inv] by simp
  have gone: "le_leaseId (qi_lease i) \<noteq> Some ?l" if i: "item_at (lw_queue w1') k = Some i" for k i
  proof
    assume l: "le_leaseId (qi_lease i) = Some ?l"
    obtain st' rq p where fin: "review_finish env now1 sample1 req1 (lw_queue w1) item = (st', rq, p)" by (metis prod.collapse)
    show False
    proof (cases "k = qi_key item")
      case True
      from fin[unfolded review_finish_def] i l item(3) fin True show False
        by (cases rule: finish_cases) (auto simp: no_lease_def)
    next
      case False
      from fin[unfolded review_finish_def] i item(3) fin False have "item_at (lw_queue w1) k = Some i"
        by (cases rule: finish_cases) auto
      with l at lease inv False show False unfolding lease_inv_def by (metis fst_conv)
    qed
  qed
  have dead: "le_leaseId (qi_lease i) \<noteq> Some ?l" if i: "item_at (lw_queue w2) k = Some i" for k i
    using lease_run_evolves[OF assms(3) inv'] i used gone unfolding leases_evolve_def by (metis fst_conv snd_conv)
  have wf2: "wf_queue (lw_queue w2)" using lease_run_evolves[OF assms(3) inv'] by (simp add: lease_inv_def)
  have found: "le_leaseId (qi_lease i) \<noteq> Some ?l" if "lease_lookup t k lid (lw_queue w2) = Some i" for t k lid i
    using dead[OF lease_lookup_item[OF wf2 that]] .
  have "snd (lease_heartbeat env now2 hreq audit w2) \<noteq> None" if "hr_leaseId hreq = ?l"
  proof
    assume "snd (lease_heartbeat env now2 hreq audit w2) = None"
    then obtain i where "item_at (lw_queue w2) (hr_itemKey hreq) = Some i" "heartbeat_owner env now2 hreq i"
      by (rule heartbeat_acceptedE)
    with dead that show False by (auto simp: heartbeat_owner_def Let_def)
  qed
  moreover have "claim_finish env sql now2 admission answered sample2 creq w2 = (w2, Inl LeaseNotActive)" if "cr_leaseId creq = ?l"
    using found that by (auto simp: claim_finish_def Let_def claim_refusal_def split: option.split)
  moreover have "\<exists>e. complete_review env now2 sample2 req2 w2 = (w2, Inl e)" if "co_leaseId req2 = ?l"
  proof (cases rule: complete_review_cases[of env now2 sample2 req2 w2])
    case (accepted i w' r')
    with found[OF accepted(1)] that show ?thesis by (simp add: completion_owner_def)
  qed blast
  ultimately show ?thesis by blast
qed


definition sample_done :: completion_request where
  "sample_done = \<lparr>co_leaseId = ''l-1'', co_itemKey = ''o/r#7'', co_leaseRevision = FieldInt 3, co_claimGeneration = FieldInt 1,
     co_runId = ''9'', co_runAttempt = FieldInt 1, co_outcome = Some ''success'', co_reviewFailureReason = None,
     co_requeueLatest = False, co_retryAt = None, co_retryKind = None, co_reviewHold = None\<rparr>"

lemma sample_completes:
  "case snd (complete_review sample_env 4000 None sample_done (sample_claimed 1 sample_dispatched)) of Inl e \<Rightarrow> False | Inr r \<Rightarrow> True"
  by code_simp

lemma completed_lease_never_revives_witness:
  "\<exists>w' r. complete_review sample_env 4000 None sample_done (sample_claimed 1 sample_dispatched) = (w', Inr r)
     \<and> snd (lease_heartbeat sample_env 4500 (sample_beat 1) ''a'' w') \<noteq> None"
proof -
  obtain w' r where run: "complete_review sample_env 4000 None sample_done (sample_claimed 1 sample_dispatched) = (w', Inr r)"
    using sample_completes by (auto split: sum.splits) (metis prod.collapse)
  have "snd (lease_heartbeat sample_env 4500 (sample_beat 1) ''a'' w') \<noteq> None"
    using completed_lease_never_revives[OF sample_lease_run run rtranclp.rtrancl_refl, of "sample_beat 1"]
    by (simp add: sample_beat_def sample_done_def)
  with run show ?thesis by blast
qed

end
