(* ===== verification/Review_Retry.thy ===== *)
theory Review_Retry
  imports Lease_Protocol
begin

text \<open>
  The retry budget of a review whose input does not change (\<open>finishExactReviewQueueItem\<close>,
  \<open>reclaimExpiredExactReviewLease\<close>, \<open>recoverParkedExactReviewItems\<close> of
  \<open>dashboard/exact-review-queue.ts\<close> together): eight failures park it, three parked recoveries
  give it eight more each, and then it stays parked for an operator.
\<close>

subsection \<open>An always failing review ends\<close>

text \<open>
  One item whose input does not change: it is dispatched, claimed, deferred, loses its lease, is
  recovered when it is due, and every completed run fails without a terminal reason. The number
  of a step counts its failures.
\<close>

inductive review_step :: "env \<Rightarrow> queue_item \<Rightarrow> nat \<Rightarrow> queue_item \<Rightarrow> bool" for env where
  rs_dispatch: "qi_state item = ItPending \<Longrightarrow> review_step env item 0 (open_lease env now leaseId item)"
| rs_claim: "qi_state item = ItDispatching \<or> qi_state item = ItLeased \<Longrightarrow> review_step env item 0 (take_lease env now req item)"
| rs_defer: "qi_state item = ItLeased \<Longrightarrow>
     finish_item attempt now OutcomeFailure retryAt False (Some kind) None sample env None item = Finished (Some item') rq pk \<Longrightarrow>
     review_step env item 0 item'"
| rs_fail: "qi_state item = ItLeased \<Longrightarrow> outcome \<noteq> OutcomeSuccess \<Longrightarrow>
     finish_item attempt now outcome retryAt False None None sample env None item = Finished (Some item') rq pk \<Longrightarrow>
     review_step env item 1 item'"
| rs_expire: "lease_expired now p g item \<Longrightarrow> reclaim_item now env item = Some item' \<Longrightarrow> review_step env item 0 item'"
| rs_recover: "parked_recovery_due now item \<Longrightarrow> review_step env item 0 (recover_parked_item env now item)"

inductive review_run :: "env \<Rightarrow> queue_item \<Rightarrow> nat \<Rightarrow> queue_item \<Rightarrow> bool" for env where
  run_start: "review_run env item 0 item"
| run_step: "review_run env item n item' \<Longrightarrow> review_step env item' m item'' \<Longrightarrow> review_run env item (n + m) item''"

abbreviation failures :: "queue_item \<Rightarrow> int" where
  "failures item \<equiv> number_or_0 (qi_reviewFailureAttempts item)"

abbreviation recoveries :: "queue_item \<Rightarrow> int" where
  "recoveries item \<equiv> exactReviewParkedRecoveryAttempts (qi_parkedRecoveryAttempts item)"

definition review_inv :: "env \<Rightarrow> decision \<Rightarrow> int \<Rightarrow> queue_item \<Rightarrow> bool" where
  "review_inv env d revision item \<longleftrightarrow>
     qi_decision item = d \<and> qi_revision item = revision \<and> item_epoch item = exactReviewRetryPolicyEpoch env
     \<and> (qi_state item = ItDispatching \<or> qi_state item = ItLeased \<longrightarrow>
          le_leaseRevision (qi_lease item) = Some revision \<and> le_leaseDecision (qi_lease item) = Some d)
     \<and> 0 \<le> failures item \<and> 0 \<le> recoveries item \<and> recoveries item \<le> 3
     \<and> (if qi_state item = ItParked then failures item = 8 \<and> qi_parkedReason item = Some ReviewRetryExhausted
        else failures item \<le> 7)"

definition review_potential :: "queue_item \<Rightarrow> int" where
  "review_potential item = 8 * (3 - recoveries item) + (8 - failures item)"

lemma epoch_nonempty: "exactReviewRetryPolicyEpoch env \<noteq> []"
  by (auto simp: exactReviewRetryPolicyEpoch_def Let_def DEFAULT_EXACT_REVIEW_RETRY_POLICY_EPOCH_def)

lemma item_epoch_set [simp]:
  "qi_reviewRetryPolicyEpoch item = Some (exactReviewRetryPolicyEpoch env) \<Longrightarrow> item_epoch item = exactReviewRetryPolicyEpoch env"
  using epoch_nonempty[of env] by (simp add: item_epoch_def)

lemma item_epoch_cong: "qi_reviewRetryPolicyEpoch item' = qi_reviewRetryPolicyEpoch item \<Longrightarrow> item_epoch item' = item_epoch item"
  by (simp add: item_epoch_def)

lemma input_unchanged [simp]: "\<not> exactReviewInputIdentityChanged d d"
  by (simp add: exactReviewInputIdentityChanged_def)

lemma recoveries_nonneg: "0 \<le> exactReviewParkedRecoveryAttempts v"
  by (simp add: exactReviewParkedRecoveryAttempts_def Let_def)

text \<open>What a failed completion does to an item under the invariant.\<close>

lemma finish_unchanged:
  assumes "review_inv env d revision item" "qi_state item = ItLeased" "\<not> exactReviewQueueIsPublication d"
    and "outcome \<noteq> OutcomeSuccess"
    and "finish_item attempt now outcome retryAt False kind None sample env None item = Finished (Some item') rq pk"
  shows "item' = (case kind of
      Some k \<Rightarrow> (defer_item (fst attempt) now retryAt k False sample ((clearExactReviewLease item)\<lparr>qi_state := ItPending\<rparr>))
                  \<lparr>qi_updatedAt := now\<rparr>
    | None \<Rightarrow> the (fin_item (retry_failed_item (fst attempt) now retryAt env sample
                ((clearExactReviewLease (mark_recovery True outcome now item))\<lparr>qi_state := ItPending\<rparr>))))"
  using assms
  by (auto simp: finish_item_def Let_def review_inv_def has_newer_revision_def leased_decision_def forget_failure_def
      agentInputScanFailureReason_def requeue_item_def settle_item_def mark_recovery_def split: option.splits if_splits)


lemma retry_failed_review:
  assumes "\<not> exactReviewQueueIsPublication (qi_decision item)"
  shows "retry_failed_item due now retryAt env sample item = Finished (Some item') rq pk \<Longrightarrow>
    qi_decision item' = qi_decision item \<and> qi_revision item' = qi_revision item
    \<and> qi_reviewRetryPolicyEpoch item' = Some (exactReviewRetryPolicyEpoch env)
    \<and> qi_parkedRecoveryAttempts item' = qi_parkedRecoveryAttempts item
    \<and> failures item' = failures item + 1
    \<and> (if failures item + 1 \<ge> 8 then qi_state item' = ItParked \<and> qi_parkedReason item' = Some ReviewRetryExhausted
       else qi_state item' = qi_state item)"
  using assms by (auto simp: retry_failed_item_def Let_def queue_consts split: if_splits)

lemma retry_failed_Some: "\<exists>item' rq pk. retry_failed_item due now retryAt env sample item = Finished (Some item') rq pk"
  by (auto simp: retry_failed_item_def Let_def)

lemma review_fail:
  assumes inv: "review_inv env d revision item" and st: "qi_state item = ItLeased" and pub: "\<not> exactReviewQueueIsPublication d"
    and out: "outcome \<noteq> OutcomeSuccess"
    and fin: "finish_item attempt now outcome retryAt False None None sample env None item = Finished (Some item') rq pk"
  shows "review_inv env d revision item' \<and> review_potential item' = review_potential item - 1"
proof -
  let ?pending = "(clearExactReviewLease (mark_recovery True outcome now item))\<lparr>qi_state := ItPending\<rparr>"
  have dec: "qi_decision item = d" "qi_revision item = revision" using inv by (simp_all add: review_inv_def)
  obtain it rq' pk' where r: "retry_failed_item (fst attempt) now retryAt env sample ?pending = Finished (Some it) rq' pk'"
    using retry_failed_Some by blast
  with finish_unchanged[OF inv st pub out fin] have it: "item' = it" by simp
  from retry_failed_review[OF _ r] dec pub it
  have "qi_decision item' = d \<and> qi_revision item' = revision
    \<and> qi_reviewRetryPolicyEpoch item' = Some (exactReviewRetryPolicyEpoch env)
    \<and> qi_parkedRecoveryAttempts item' = qi_parkedRecoveryAttempts item
    \<and> failures item' = failures item + 1
    \<and> (if failures item + 1 \<ge> 8 then qi_state item' = ItParked \<and> qi_parkedReason item' = Some ReviewRetryExhausted
       else qi_state item' = ItPending)" by simp
  with inv st show ?thesis by (auto simp: review_inv_def review_potential_def split: if_splits)
qed

lemma review_defer:
  assumes inv: "review_inv env d revision item" and st: "qi_state item = ItLeased" and pub: "\<not> exactReviewQueueIsPublication d"
    and fin: "finish_item attempt now OutcomeFailure retryAt False (Some kind) None sample env None item = Finished (Some item') rq pk"
  shows "review_inv env d revision item' \<and> review_potential item' = review_potential item"
proof -
  have "item' = (defer_item (fst attempt) now retryAt kind False sample ((clearExactReviewLease item)\<lparr>qi_state := ItPending\<rparr>))
                  \<lparr>qi_updatedAt := now\<rparr>"
    using finish_unchanged[OF inv st pub _ fin] by simp
  with inv st show ?thesis
    by (auto simp: review_inv_def review_potential_def defer_item_def Let_def item_epoch_def)
qed

lemma review_expire:
  assumes inv: "review_inv env d revision item" and pub: "\<not> exactReviewQueueIsPublication d"
    and dead: "lease_expired now p g item" and re: "reclaim_item now env item = Some item'"
  shows "review_inv env d revision item' \<and> review_potential item' = review_potential item"
proof -
  have "qi_state item = ItDispatching \<or> qi_state item = ItLeased" using dead by (auto simp: lease_expired_def)
  with inv have l: "le_leaseDecision (qi_lease item) = Some d" "le_leaseRevision (qi_lease item) = Some revision"
      "qi_decision item = d" "qi_revision item = revision" "item_epoch item = exactReviewRetryPolicyEpoch env" "qi_state item \<noteq> ItParked"
    by (auto simp: review_inv_def)
  then have "item' = (clearExactReviewLease item)\<lparr>qi_state := ItPending, qi_nextAttemptAt := now, qi_backoffReason := None,
      qi_reviewRecoveryReason := Some (if qi_state item = ItDispatching then ClaimTimeout else ExecutionTimeout),
      qi_reviewRecoveryAt := Some now, qi_updatedAt := now\<rparr>"
    using re pub by (auto simp: reclaim_item_def Let_def leased_decision_def exactReviewRetryIdentityChanged_def split: if_splits)
  with inv l show ?thesis by (auto simp: review_inv_def review_potential_def item_epoch_def)
qed

lemma review_recover:
  assumes inv: "review_inv env d revision item" and due: "parked_recovery_due now item"
  shows "review_inv env d revision (recover_parked_item env now item)
     \<and> review_potential (recover_parked_item env now item) = review_potential item"
proof -
  have parked: "qi_state item = ItParked" "recoveries item < 3"
    using due by (auto simp: parked_recovery_due_def exactReviewParkedRecoveryAt_def exactReviewParkedRecoveryDelayMs_def
        queue_consts Let_def split: if_splits option.splits)
  have step: "exactReviewParkedRecoveryAttempts (Some (recoveries item + 1)) = recoveries item + 1"
    using parked(2) recoveries_nonneg[of "qi_parkedRecoveryAttempts item"]
    by (simp add: exactReviewParkedRecoveryAttempts_def[of "Some (recoveries item + 1)"] Let_def safe_integer_def MAX_SAFE_INTEGER_def)
  have epoch: "item_epoch item = exactReviewRetryPolicyEpoch env" using inv by (simp add: review_inv_def)
  have rec: "qi_decision (recover_parked_item env now item) = qi_decision item"
      "qi_revision (recover_parked_item env now item) = qi_revision item"
      "qi_state (recover_parked_item env now item) = ItPending"
      "qi_reviewFailureAttempts (recover_parked_item env now item) = Some 0"
      "qi_reviewRetryPolicyEpoch (recover_parked_item env now item) = Some (exactReviewRetryPolicyEpoch env)"
      "qi_parkedRecoveryAttempts (recover_parked_item env now item) = Some (recoveries item + 1)"
    by (simp_all add: recover_parked_item_def Let_def clearExactReviewReviewRecovery_def clearExactReviewDispatchFailure_def epoch)
  from inv parked step show ?thesis by (auto simp: review_inv_def review_potential_def rec)
qed


lemma review_step_inv:
  "review_step env item m item' \<Longrightarrow> \<not> exactReviewQueueIsPublication d \<Longrightarrow> review_inv env d revision item \<Longrightarrow>
     review_inv env d revision item' \<and> review_potential item' = review_potential item - int m"
proof (induction rule: review_step.induct)
  case (rs_dispatch item now leaseId)
  then show ?case by (auto simp: review_inv_def review_potential_def open_lease_def item_epoch_def)
next
  case (rs_claim item now req)
  then show ?case by (auto simp: review_inv_def review_potential_def take_lease_def Let_def item_epoch_def)
next
  case (rs_defer item attempt now retryAt kind sample item' rq pk)
  from review_defer[OF rs_defer(4,1,3,2)] show ?case by simp
next
  case (rs_fail item outcome attempt now retryAt sample item' rq pk)
  from review_fail[OF rs_fail(5,1,4,2,3)] show ?case by simp
next
  case (rs_expire now p g item item')
  from review_expire[OF rs_expire(4,3,1,2)] show ?case by simp
next
  case (rs_recover now item)
  from review_recover[OF rs_recover(3,1)] show ?case by simp
qed

lemma review_run_inv:
  "review_run env item n item' \<Longrightarrow> \<not> exactReviewQueueIsPublication d \<Longrightarrow> review_inv env d revision item \<Longrightarrow>
     review_inv env d revision item' \<and> review_potential item' = review_potential item - int n"
proof (induction rule: review_run.induct)
  case (run_step item n item' m item'')
  then show ?case using review_step_inv[OF run_step(2)] by fastforce
qed simp

lemma review_inv_new: "review_inv env d revision (new_item key d deliveryId revision now env)"
  by (simp add: review_inv_def new_item_def exactReviewParkedRecoveryAttempts_def)

lemma potential_new: "review_potential (new_item key d deliveryId revision now env) = 32"
  by (simp add: review_potential_def new_item_def exactReviewParkedRecoveryAttempts_def)

lemma review_inv_potential: "review_inv env d revision item \<Longrightarrow> 0 \<le> review_potential item"
  by (auto simp: review_inv_def review_potential_def split: if_splits)

lemma review_exhausted:
  assumes "review_inv env d revision item" "review_potential item = 0" "\<not> exactReviewQueueIsPublication d"
  shows "qi_state item = ItParked \<and> exactReviewParkedRecoveryAt item = None \<and> exactReviewParkedOperatorEligible item"
  using assms by (auto simp: review_inv_def review_potential_def exactReviewParkedRecoveryAt_def
      exactReviewParkedRecoveryDelayMs_def exactReviewParkedOperatorEligible_def queue_consts Let_def split: if_splits)

text \<open>
  C6. A review that always fails stops: from its admission, with its input and the retry policy
  unchanged, in any order of dispatches, claims, deferrals, expired leases and recoveries, at most
  32 failed runs are accepted (eight, and eight more after each of three parked recoveries); after
  the last one the item is parked, is never due for recovery again and is offered to an operator.
\<close>

theorem failing_review_bounded:
  assumes "\<not> exactReviewQueueIsPublication d" "review_run env (new_item key d deliveryId revision now env) n item"
  shows "n \<le> 32 \<and> (n = 32 \<longrightarrow> qi_state item = ItParked \<and> exactReviewParkedRecoveryAt item = None
           \<and> exactReviewParkedOperatorEligible item)"
proof -
  have inv: "review_inv env d revision item" "review_potential item = 32 - int n"
    using review_run_inv[OF assms(2,1) review_inv_new] by (simp_all add: potential_new)
  with review_inv_potential[OF inv(1)] review_exhausted[OF inv(1) _ assms(1)] show ?thesis by auto
qed

lemma failing_review_bounded_witness:
  "\<exists>item. review_run sample_env sample_review_item 1 item \<and> (1::nat) \<le> 32"
proof -
  let ?leased = "take_lease sample_env 2000 (sample_claim 1) (open_lease sample_env 1500 ''l-1'' sample_review_item)"
  let ?r = "finish_item (3000, None) 3000 OutcomeFailure 0 False None None None sample_env None ?leased"
  have "case ?r of Finished (Some i) rq pk \<Rightarrow> True | Finished None rq pk \<Rightarrow> False" by code_simp
  then obtain item rq pk where fin: "?r = Finished (Some item) rq pk"
    by (cases ?r; cases "fin_item ?r") auto
  have "review_step sample_env sample_review_item 0 (open_lease sample_env 1500 ''l-1'' sample_review_item)"
    by (rule rs_dispatch) (simp add: sample_review_item_def new_item_def)
  moreover have "review_step sample_env (open_lease sample_env 1500 ''l-1'' sample_review_item) 0 ?leased"
    by (rule rs_claim) (simp add: open_lease_def)
  moreover have "review_step sample_env ?leased 1 item"
    by (rule rs_fail[OF _ _ fin]) (simp_all add: take_lease_def Let_def)
  ultimately have "review_run sample_env sample_review_item (0 + 0 + 0 + 1) item"
    by (intro run_step[OF run_step[OF run_step[OF run_start]]])
  then have run: "review_run sample_env sample_review_item 1 item" by simp
  with failing_review_bounded[OF _ run[unfolded sample_review_item_def]] show ?thesis
    by (auto simp: exactReviewQueueIsPublication_def sample_decision_def source_actions)
qed

end
