(* ===== verification/Queue_Publication.thy ===== *)
theory Queue_Publication
  imports Queue_Lease
begin

text \<open>
  Finishing publications (\<open>dashboard/exact-review-queue.ts\<close>): what a completion of a publication
  item does to the queue (done, deferred, retried, dead-lettered, parked, or refreshed into a new
  review), the expiry of publications whose artifact is gone, and the transition facts reported
  for the metrics. An exception of the source is an \<open>Inl\<close>; the allocator of revisions is an
  argument, as it is in the source.
\<close>

subsection \<open>Refreshing an unusable publication\<close>

datatype publication_error = PolicyError policy_error | ManualRecovery | MetadataMissing

definition conflicting :: "'a option \<Rightarrow> 'a option \<Rightarrow> bool" where
  "conflicting a b \<longleftrightarrow> a \<noteq> None \<and> b \<noteq> None \<and> a \<noteq> b"

definition sameCommandStatusAddress :: "string option \<times> int option \<Rightarrow> string option \<times> int option \<Rightarrow> bool" where
  "sameCommandStatusAddress left right \<longleftrightarrow>
     \<not> conflicting (fst left) (fst right) \<and> \<not> conflicting (snd left) (snd right)
     \<and> ((fst left \<noteq> None \<and> fst left = fst right) \<or> (snd left \<noteq> None \<and> snd left = snd right))"

definition recovery_decision :: "publication \<Rightarrow> decision" where
  "recovery_decision p =
     (let producer = px_producerDecision p
      in (base_decision.extend producer \<lparr>d_publication = None\<rparr>)
           \<lparr>bd_sourceAction :=
              (if bd_sourceAction producer = FAILED_REVIEW_SHARD_RECOVERY_SOURCE_ACTION \<or> bd_sourceAction producer = COMMAND_PROOF_RESULT
               then bd_sourceAction producer else EXACT_REVIEW_ARTIFACT_RETENTION_RECOVERY_SOURCE_ACTION),
            bd_supersedesInProgress := True\<rparr>)"

definition merge_recovery ::
  "queue_state \<Rightarrow> decision \<Rightarrow> int \<Rightarrow> env \<Rightarrow> (string \<Rightarrow> int \<Rightarrow> int) \<Rightarrow> string \<Rightarrow> queue_item \<Rightarrow> queue_item" where
  "merge_recovery st merged now env allocateRevision recoveryKey current =
     clearExactReviewReviewRecovery
       ((assign_attempt (exactReviewQueueDebouncedAttempt st merged now (qi_createdAt current) env False False)
           (current\<lparr>qi_decision := merged, qi_state := ItPending, qi_parkedReason := None, qi_parkedRecoveryAttempts := Some 0,
              qi_revision := allocateRevision recoveryKey (qi_revision current + 1), qi_updatedAt := now\<rparr>))
          \<lparr>qi_attempts := 0, qi_publicationFailureAttempts := Some 0, qi_reviewFailureAttempts := Some 0,
           qi_reviewRetryPolicyEpoch := Some (exactReviewRetryPolicyEpoch env),
           qi_firstFailureAt := None, qi_lastFailureReason := None\<rparr>)"

definition recovery_item ::
  "queue_state \<Rightarrow> decision \<Rightarrow> int \<Rightarrow> env \<Rightarrow> (string \<Rightarrow> int \<Rightarrow> int) \<Rightarrow> string \<Rightarrow> queue_item" where
  "recovery_item st d now env allocateRevision recoveryKey =
     assign_attempt (exactReviewQueueDebouncedAttempt st d now now env False False)
       ((new_item recoveryKey d [] (allocateRevision recoveryKey 1) now env)
          \<lparr>qi_admissionDeliveryId := None, qi_sourceAuthorityWatermark := None\<rparr>)"

definition refreshExactReviewPublicationItem ::
  "queue_state \<Rightarrow> queue_item \<Rightarrow> int \<Rightarrow> env \<Rightarrow> (string \<Rightarrow> int \<Rightarrow> int) \<Rightarrow> publication_error + queue_state \<times> bool" where
  "refreshExactReviewPublicationItem st0 item now env allocateRevision =
     (case decisionPublicationPolicy (qi_decision item) of
        Inl e \<Rightarrow> Inl (PolicyError e)
      | Inr (Some policy) \<Rightarrow> Inl ManualRecovery
      | Inr None \<Rightarrow>
          (case d_publication (qi_decision item) of
             None \<Rightarrow> Inl MetadataMissing
           | Some p \<Rightarrow>
               let st = delete_item (qi_key item) st0;
                   d = recovery_decision p;
                   recoveryKey = exactReviewItemKey d
               in case item_at st recoveryKey of
                    None \<Rightarrow> Inr (put_item (recovery_item st d now env allocateRevision recoveryKey) st, False)
                  | Some current \<Rightarrow>
                      if qi_state current \<noteq> ItPending \<and> qi_state current \<noteq> ItParked then Inr (st, False)
                      else if exactReviewDecisionHasCommandContext (qi_decision current) then
                        Inr (st, exactReviewDecisionHasCommandContext d
                                 \<and> \<not> sameCommandStatusAddress (exactReviewQueueCommandStatusAddress d)
                                       (exactReviewQueueCommandStatusAddress (qi_decision current)))
                      else (case mergePendingExactReviewDecision (qi_decision current) d of
                              Inl e \<Rightarrow> Inl (PolicyError e)
                            | Inr merged \<Rightarrow>
                                Inr (st\<lparr>qs_items := AList.update recoveryKey
                                          (merge_recovery st merged now env allocateRevision recoveryKey current) (qs_items st)\<rparr>,
                                     False))))"

definition publication_expired :: "int \<Rightarrow> queue_item \<Rightarrow> bool" where
  "publication_expired now item \<longleftrightarrow>
     qi_state item = ItPending \<and> qi_terminalFinalization item = None \<and> d_publication (qi_decision item) \<noteq> None
     \<and> now \<ge> qi_createdAt item + EXACT_REVIEW_ARTIFACT_RETRY_MAX_MS"

definition expire_step ::
  "int \<Rightarrow> env \<Rightarrow> (string \<Rightarrow> int \<Rightarrow> int) \<Rightarrow> string \<Rightarrow> publication_error + queue_state \<times> bool \<Rightarrow> publication_error + queue_state \<times> bool" where
  "expire_step now env allocateRevision key acc =
     (case acc of Inl e \<Rightarrow> Inl e
      | Inr (st, changed) \<Rightarrow>
          (case item_at st key of None \<Rightarrow> Inr (st, changed)
           | Some item \<Rightarrow>
               (case decisionPublicationPolicy (qi_decision item) of
                  Inl e \<Rightarrow> Inl (PolicyError e)
                | Inr (Some policy) \<Rightarrow> Inr (st, changed)
                | Inr None \<Rightarrow>
                    if \<not> publication_expired now item then Inr (st, changed)
                    else (case refreshExactReviewPublicationItem st item now env allocateRevision of
                            Inl e \<Rightarrow> Inl e | Inr (st', b) \<Rightarrow> Inr (st', True)))))"

definition expireExactReviewPublicationItems ::
  "queue_state \<Rightarrow> int \<Rightarrow> env \<Rightarrow> (string \<Rightarrow> int \<Rightarrow> int) \<Rightarrow> publication_error + queue_state \<times> bool" where
  "expireExactReviewPublicationItems st now env allocateRevision =
     fold (expire_step now env allocateRevision) (map fst (qs_items st)) (Inr (st, False))"

subsection \<open>Dead letters\<close>

record dead_letter =
  dx_id :: string
  dx_itemKey :: string
  dx_revision :: int
  dx_targetRepo :: string
  dx_itemNumber :: nat
  dx_producerRunId :: string
  dx_producerRunAttempt :: nat
  dx_artifactName :: string
  dx_reasonCode :: reason_code
  dx_attempts :: int
  dx_firstFailedAt :: int
  dx_lastFailedAt :: int
  dx_item :: queue_item
  dx_errorFingerprint :: "string option"

text \<open>\<open>ownedRevision || item.leaseRevision || item.revision\<close>\<close>

definition owned_revision :: "queue_item \<Rightarrow> int option \<Rightarrow> int" where
  "owned_revision item owned =
     (if num_truthy owned then the owned
      else if num_truthy (le_leaseRevision (qi_lease item)) then the (le_leaseRevision (qi_lease item))
      else qi_revision item)"

definition exactReviewDeadLetterId :: "queue_item \<Rightarrow> int option \<Rightarrow> string" where
  "exactReviewDeadLetterId item owned = qi_key item @ ''@revision:'' @ int_str (owned_revision item owned)"

definition exactReviewDeadLetterInsert ::
  "queue_item \<Rightarrow> reason_code \<Rightarrow> int \<Rightarrow> int \<Rightarrow> int \<Rightarrow> string option \<Rightarrow> int option \<Rightarrow> publication_error + dead_letter" where
  "exactReviewDeadLetterInsert item reasonCode attempts firstFailedAt lastFailedAt errorFingerprint owned =
     (case d_publication (qi_decision item) of
        None \<Rightarrow> Inl MetadataMissing
      | Some p \<Rightarrow> Inr \<lparr>dx_id = exactReviewDeadLetterId item owned, dx_itemKey = qi_key item,
          dx_revision = owned_revision item owned, dx_targetRepo = bd_targetRepo (qi_decision item),
          dx_itemNumber = bd_itemNumber (qi_decision item), dx_producerRunId = px_producerRunId p,
          dx_producerRunAttempt = px_producerRunAttempt p, dx_artifactName = px_artifactName p,
          dx_reasonCode = reasonCode, dx_attempts = attempts, dx_firstFailedAt = firstFailedAt,
          dx_lastFailedAt = lastFailedAt, dx_item = item, dx_errorFingerprint = nonempty errorFingerprint\<rparr>)"

subsection \<open>Finishing a publication\<close>

record publication_result =
  pr_requeued :: bool
  pr_retried :: bool
  pr_refreshed :: bool
  pr_parked :: bool
  pr_deadLetter :: "dead_letter option"
  pr_commandSuperseded :: bool

definition publication_result :: "bool \<Rightarrow> bool \<Rightarrow> bool \<Rightarrow> bool \<Rightarrow> publication_result" where
  "publication_result requeued retried refreshed parked =
     \<lparr>pr_requeued = requeued, pr_retried = retried, pr_refreshed = refreshed, pr_parked = parked,
      pr_deadLetter = None, pr_commandSuperseded = False\<rparr>"

definition requeue_newer_publication :: "queue_state \<Rightarrow> int \<Rightarrow> int \<Rightarrow> queue_item \<Rightarrow> queue_item" where
  "requeue_newer_publication st now requestedRetryAt item =
     (let nextAttemptAt = max (exactReviewQueueEnqueueAttemptAt st now) requestedRetryAt
      in (clearExactReviewLease item)\<lparr>qi_state := ItPending, qi_parkedReason := None, qi_attempts := 0,
           qi_publicationFailureAttempts := Some 0, qi_firstFailureAt := None, qi_lastFailureReason := None,
           qi_nextAttemptAt := nextAttemptAt,
           qi_backoffReason := (if nextAttemptAt > now
              then Some (if requestedRetryAt \<ge> nextAttemptAt then PublicationRetry else DispatcherBackoff) else None),
           qi_parkedRecoveryAttempts := Some 0, qi_updatedAt := now\<rparr>)"

definition defer_unattempted :: "queue_state \<Rightarrow> int \<Rightarrow> int \<Rightarrow> reason_code \<Rightarrow> queue_item \<Rightarrow> queue_item" where
  "defer_unattempted st now requestedRetryAt reason item =
     (clearExactReviewLease item)\<lparr>qi_state := ItPending, qi_parkedReason := None,
        qi_nextAttemptAt := max (exactReviewQueueEnqueueAttemptAt st now)
                              (requestedRetryAt + exactReviewCredentialRecoveryJitterMs (qi_key item)),
        qi_backoffReason := Some PublicationRetry, qi_lastFailureReason := Some reason, qi_updatedAt := now\<rparr>"

definition count_failure :: "int \<Rightarrow> int \<Rightarrow> reason_code \<Rightarrow> int \<Rightarrow> queue_item \<Rightarrow> queue_item" where
  "count_failure attempt firstFailureAt reason now item =
     (clearExactReviewLease item)\<lparr>qi_attempts := attempt, qi_publicationFailureAttempts := Some attempt,
        qi_firstFailureAt := Some firstFailureAt, qi_lastFailureReason := Some reason, qi_updatedAt := now\<rparr>"

definition retry_publication :: "queue_state \<Rightarrow> int \<Rightarrow> int \<Rightarrow> publication_completion \<Rightarrow> int \<Rightarrow> int \<Rightarrow> queue_item \<Rightarrow> queue_item" where
  "retry_publication st now requestedRetryAt completion attempt firstFailureAt item =
     (let dispatcherAt = exactReviewQueueEnqueueAttemptAt st now;
          nextAttemptAt = max dispatcherAt
            (max (now + exactReviewPublicationRetryDelayMs (qi_key item) (pc_kind completion) (pc_reasonCode completion) attempt)
                 requestedRetryAt)
      in (count_failure attempt firstFailureAt (pc_reasonCode completion) now item)
           \<lparr>qi_state := ItPending, qi_parkedReason := None, qi_nextAttemptAt := nextAttemptAt,
            qi_backoffReason := Some (if dispatcherAt \<ge> nextAttemptAt then DispatcherBackoff else PublicationRetry)\<rparr>)"

definition park_for_capacity :: "int \<Rightarrow> int \<Rightarrow> reason_code \<Rightarrow> int \<Rightarrow> queue_item \<Rightarrow> queue_item" where
  "park_for_capacity attempt firstFailureAt reason now item =
     (count_failure attempt firstFailureAt reason now item)
       \<lparr>qi_state := ItParked, qi_parkedReason := Some DeadLetterCapacity, qi_backoffReason := None\<rparr>"

text \<open>A spent budget: dead-lettered when the store has room, parked otherwise.\<close>

definition exhaust_publication ::
  "queue_state \<Rightarrow> queue_item \<Rightarrow> int \<Rightarrow> publication_completion \<Rightarrow> int \<Rightarrow> int \<Rightarrow> int \<Rightarrow> bool \<Rightarrow>
   publication_error + queue_state \<times> publication_result" where
  "exhaust_publication st item now completion completionRevision attempt firstFailureAt deadLetterCapacityAvailable =
     (case exactReviewDeadLetterInsert item
             (if pc_reasonCode completion = UnknownFailure then RetryExhausted else pc_reasonCode completion)
             attempt firstFailureAt now (pc_errorFingerprint completion) (Some completionRevision) of
        Inl e \<Rightarrow> Inl e
      | Inr deadLetter \<Rightarrow>
          if deadLetterCapacityAvailable
          then Inr (delete_item (qi_key item) st, (publication_result False False False False)\<lparr>pr_deadLetter := Some deadLetter\<rparr>)
          else Inr (put_item (park_for_capacity attempt firstFailureAt (pc_reasonCode completion) now item) st,
                    publication_result False False False True))"

text \<open>A counted failure: refreshed into a new review, exhausted or retried.\<close>

definition failure_attempt :: "queue_item \<Rightarrow> int" where
  "failure_attempt item = number_or_0 (qi_publicationFailureAttempts item) + 1"

definition first_failure :: "int \<Rightarrow> queue_item \<Rightarrow> int" where
  "first_failure now item = (if num_truthy (qi_firstFailureAt item) then the (qi_firstFailureAt item) else now)"

definition artifact_refresh :: "publication_completion \<Rightarrow> queue_item \<Rightarrow> bool" where
  "artifact_refresh completion item \<longleftrightarrow>
     pc_kind completion = KindRefreshRequired
     \<or> (pc_reasonCode completion = ArtifactUnavailable
        \<and> failure_attempt item \<ge> EXACT_REVIEW_PUBLICATION_ARTIFACT_RETRY_LIMIT)"

definition fail_publication ::
  "queue_state \<Rightarrow> queue_item \<Rightarrow> int \<Rightarrow> publication_completion \<Rightarrow> int \<Rightarrow> int \<Rightarrow> bool \<Rightarrow> env \<Rightarrow> (string \<Rightarrow> int \<Rightarrow> int) \<Rightarrow>
   publication_error + queue_state \<times> publication_result" where
  "fail_publication st item now completion completionRevision requestedRetryAt deadLetterCapacityAvailable env allocateRevision =
     (let exhausted = exhaust_publication st item now completion completionRevision (failure_attempt item)
                        (first_failure now item) deadLetterCapacityAvailable
      in if artifact_refresh completion item then
           (case decisionPublicationPolicy (qi_decision item) of
              Inl e \<Rightarrow> Inl (PolicyError e)
            | Inr (Some policy) \<Rightarrow> exhausted
            | Inr None \<Rightarrow>
                (case refreshExactReviewPublicationItem st item now env allocateRevision of
                   Inl e \<Rightarrow> Inl e
                 | Inr (st', commandSuperseded) \<Rightarrow>
                     Inr (st', (publication_result False False True False)\<lparr>pr_commandSuperseded := commandSuperseded\<rparr>)))
         else if exactReviewPublicationRetryExhausted (pc_kind completion) (pc_reasonCode completion)
                   (failure_attempt item) (first_failure now item) now
         then exhausted
         else Inr (put_item (retry_publication st now requestedRetryAt completion (failure_attempt item)
                     (first_failure now item) item) st,
                   publication_result True True False False))"

definition finishExactReviewPublicationQueueItem ::
  "queue_state \<Rightarrow> queue_item \<Rightarrow> int \<Rightarrow> publication_completion \<Rightarrow> int option \<Rightarrow> int \<Rightarrow> bool \<Rightarrow> bool \<Rightarrow> env \<Rightarrow>
   (string \<Rightarrow> int \<Rightarrow> int) \<Rightarrow> publication_error + queue_state \<times> publication_result" where
  "finishExactReviewPublicationQueueItem st item now completion ownedRevision requestedRetryAt requeueLatest
       deadLetterCapacityAvailable env allocateRevision =
     (let completionRevision = (case ownedRevision of None \<Rightarrow> number_or_0 (le_leaseRevision (qi_lease item)) | Some r \<Rightarrow> r)
      in if qi_revision item > completionRevision \<or> requeueLatest
         then Inr (put_item (requeue_newer_publication st now requestedRetryAt item) st, publication_result True False False False)
         else if pc_kind completion = KindPublished \<or> pc_kind completion = KindSuperseded \<or> pc_kind completion = KindDeferred
         then Inr (delete_item (qi_key item) st, publication_result False False False False)
         else if pc_kind completion = KindRetryable
              \<and> (pc_reasonCode completion = GithubRateLimit \<or> pc_reasonCode completion = GithubTransient)
              \<and> pc_attempted completion = Some False
         then Inr (put_item (defer_unattempted st now requestedRetryAt (pc_reasonCode completion) item) st,
                   publication_result True False False False)
         else fail_publication st item now completion completionRevision requestedRetryAt deadLetterCapacityAvailable env allocateRevision)"


subsection \<open>Transition facts\<close>

datatype publication_transition =
  TrPublished | TrSuperseded | TrDeferred | TrSemanticDeduped | TrBackoff | TrRetried | TrRefreshed | TrDeadLettered

datatype cause_stage = StagePrepare | StageApply | StageRouter | StageCommit | StageWorkflow | StageUnknown

datatype fact_reason = FactReason reason_code | SemanticDuplicate | Unattributed

datatype revision_relation = SameRevision | NewerLocalRevision | NewerRemoteRevision | RelSemanticDuplicate | RelUnknown

datatype fact_pool = FactPool pool_class | PoolNotApplicable | PoolUnknown

datatype recovery_cause =
    CauseNone | CredentialCircuit | RetryBudgetExhausted | TransientRetry | StateRetry | LeaseRetry | WorkflowRetry
  | ArtifactRefresh | CoverageRetry | ValidationFailure | NewerRevisionCause | RemoteRevisionCause
  | SemanticDeduplication | CauseUnattributed

datatype fact_backoff = FactBackoff backoff_reason | BackoffNone | BackoffUnknown

record transition_fact =
  tr_transition :: publication_transition
  tr_stage :: cause_stage
  tr_completionKind :: "completion_kind option"
  tr_reasonCode :: fact_reason
  tr_revisionRelation :: revision_relation
  tr_poolClass :: fact_pool
  tr_recoveryCause :: recovery_cause
  tr_backoffReason :: fact_backoff
  tr_attemptBucket :: attempt_bucket
  tr_count :: int

definition exactReviewPublicationCauseStage :: "reason_code \<Rightarrow> cause_stage" where
  "exactReviewPublicationCauseStage reason =
     (if List.member [ArtifactUnavailable, ArtifactExpired, InvalidArtifact, MissingRecordTuple, TupleProtocolInvalid] reason
      then StagePrepare
      else if reason = StateContention then StageCommit
      else if reason = WorkflowCancelled then StageWorkflow
      else if reason = CloseCoverageDeferred then StageRouter
      else StageApply)"

definition exactReviewPublicationRecoveryCause ::
  "publication_completion \<Rightarrow> publication_result \<Rightarrow> revision_relation \<Rightarrow> recovery_cause" where
  "exactReviewPublicationRecoveryCause completion result relation =
     (let reason = pc_reasonCode completion
      in if pr_deadLetter result \<noteq> None then RetryBudgetExhausted
         else if relation = NewerLocalRevision then NewerRevisionCause
         else if relation = NewerRemoteRevision then RemoteRevisionCause
         else if reason = GithubRateLimit \<and> pc_attempted completion = Some False then CredentialCircuit
         else if reason = GithubRateLimit \<or> reason = GithubTransient then TransientRetry
         else if reason = StateContention then StateRetry
         else if reason = ReviewLeaseActive then LeaseRetry
         else if reason = WorkflowCancelled then WorkflowRetry
         else if reason = ArtifactUnavailable \<or> reason = ArtifactExpired then ArtifactRefresh
         else if reason = CloseCoverageRetry \<or> reason = CloseCoverageDeferred then CoverageRetry
         else if List.member [InvalidArtifact, MissingRecordTuple, TupleProtocolInvalid, PolicyInvariant] reason
         then ValidationFailure
         else if reason = UnknownFailure then CauseUnattributed else CauseNone)"

definition exactReviewPublicationTransitionFact ::
  "publication_completion \<Rightarrow> publication_result \<Rightarrow> int \<Rightarrow> int \<Rightarrow> bool \<Rightarrow> pool_class \<Rightarrow> backoff_reason option \<Rightarrow> int \<Rightarrow> transition_fact" where
  "exactReviewPublicationTransitionFact completion result itemRevision ownedRevision requeueLatest defaultPoolClass backoffReason attempt =
     (let relation = (if itemRevision > ownedRevision \<or> requeueLatest then NewerLocalRevision
                      else if pc_reasonCode completion = RemoteNewerTuple then NewerRemoteRevision else SameRevision)
      in \<lparr>tr_transition =
            (if pr_deadLetter result \<noteq> None then TrDeadLettered
             else if pr_retried result then TrRetried
             else if pr_refreshed result then TrRefreshed
             else if pr_requeued result \<or> pr_parked result then TrBackoff
             else if pc_kind completion = KindSuperseded then TrSuperseded
             else if pc_kind completion = KindDeferred then TrDeferred else TrPublished),
          tr_stage = exactReviewPublicationCauseStage (pc_reasonCode completion),
          tr_completionKind = Some (pc_kind completion), tr_reasonCode = FactReason (pc_reasonCode completion),
          tr_revisionRelation = relation,
          tr_poolClass = FactPool (case pc_poolClass completion of None \<Rightarrow> defaultPoolClass | Some c \<Rightarrow> c),
          tr_recoveryCause = exactReviewPublicationRecoveryCause completion result relation,
          tr_backoffReason = (case backoffReason of None \<Rightarrow> BackoffNone | Some b \<Rightarrow> FactBackoff b),
          tr_attemptBucket = exactReviewPublicationAttemptBucket attempt, tr_count = 1\<rparr>)"

text \<open>The transitions whose totals are expected, in the order of the object of the source.\<close>

definition attributed_count :: "transition_fact list \<Rightarrow> publication_transition \<Rightarrow> int" where
  "attributed_count facts t = sum_list (map tr_count (filter (\<lambda>f. tr_transition f = t) facts))"

definition missing_fact :: "publication_transition \<Rightarrow> int \<Rightarrow> transition_fact" where
  "missing_fact t n =
     (if t = TrSemanticDeduped
      then \<lparr>tr_transition = t, tr_stage = StageApply, tr_completionKind = None, tr_reasonCode = SemanticDuplicate,
            tr_revisionRelation = RelSemanticDuplicate, tr_poolClass = PoolNotApplicable,
            tr_recoveryCause = SemanticDeduplication, tr_backoffReason = BackoffNone, tr_attemptBucket = Bucket0, tr_count = n\<rparr>
      else \<lparr>tr_transition = t, tr_stage = StageUnknown, tr_completionKind = None, tr_reasonCode = Unattributed,
            tr_revisionRelation = RelUnknown, tr_poolClass = PoolUnknown, tr_recoveryCause = CauseUnattributed,
            tr_backoffReason = BackoffUnknown, tr_attemptBucket = BucketUnknown, tr_count = n\<rparr>)"

definition reconcile_step :: "publication_transition \<times> int \<Rightarrow> transition_fact list \<Rightarrow> transition_fact list" where
  "reconcile_step e facts =
     (let missing = max 0 (snd e - attributed_count facts (fst e))
      in if missing = 0 then facts else facts @ [missing_fact (fst e) missing])"

definition reconciledPublicationTransitionFacts ::
  "transition_fact list \<Rightarrow> (publication_transition \<times> int) list \<Rightarrow> transition_fact list" where
  "reconciledPublicationTransitionFacts facts expected =
     fold reconcile_step expected (filter (\<lambda>f. safe_integer (tr_count f) \<and> tr_count f > 0) facts)"

subsection \<open>Nothing is lost\<close>

lemma item_at_update [simp]:
  "item_at (st\<lparr>qs_items := AList.update k v (qs_items st)\<rparr>) k' = (if k' = k then Some v else item_at st k')"
  by (simp add: item_at_def update_conv')

lemma recovery_key [simp]: "qi_key (recovery_item st d now env alloc key) = key"
  by (simp add: recovery_item_def assign_attempt_def new_item_def)

lemma refresh_cases:
  assumes "refreshExactReviewPublicationItem st item now env alloc = Inr (st', superseded)"
  obtains p where "d_publication (qi_decision item) = Some p" "decisionPublicationPolicy (qi_decision item) = Inr None"
    "item_at st' (exactReviewItemKey (recovery_decision p)) \<noteq> None"
    "\<And>k. k \<noteq> qi_key item \<Longrightarrow> k \<noteq> exactReviewItemKey (recovery_decision p) \<Longrightarrow> item_at st' k = item_at st k"
    "exactReviewItemKey (recovery_decision p) \<noteq> qi_key item \<Longrightarrow> item_at st' (qi_key item) = None"
  using assms
  by (auto simp: refreshExactReviewPublicationItem_def Let_def split: sum.splits option.splits if_splits)

lemma failed_fields [simp]:
  "qi_key (retry_publication st now r completion attempt first item) = qi_key item"
  "qi_lease (retry_publication st now r completion attempt first item) = no_lease"
  "qi_state (retry_publication st now r completion attempt first item) = ItPending"
  "qi_publicationFailureAttempts (retry_publication st now r completion attempt first item) = Some attempt"
  "qi_key (park_for_capacity attempt first reason now item) = qi_key item"
  "qi_lease (park_for_capacity attempt first reason now item) = no_lease"
  "qi_state (park_for_capacity attempt first reason now item) = ItParked"
  "qi_parkedReason (park_for_capacity attempt first reason now item) = Some DeadLetterCapacity"
  "qi_key (defer_unattempted st now r reason item) = qi_key item"
  "qi_lease (defer_unattempted st now r reason item) = no_lease"
  "qi_state (defer_unattempted st now r reason item) = ItPending"
  "qi_publicationFailureAttempts (defer_unattempted st now r reason item) = qi_publicationFailureAttempts item"
  "qi_key (requeue_newer_publication st now r item) = qi_key item"
  "qi_lease (requeue_newer_publication st now r item) = no_lease"
  "qi_state (requeue_newer_publication st now r item) = ItPending"
  "qi_publicationFailureAttempts (requeue_newer_publication st now r item) = Some 0"
  by (simp_all add: retry_publication_def park_for_capacity_def defer_unattempted_def requeue_newer_publication_def
      count_failure_def Let_def clearExactReviewLease_def)


lemma dead_letter_item:
  "exactReviewDeadLetterInsert item reason attempts first latest fingerprint owned = Inr dl \<Longrightarrow>
     dx_item dl = item \<and> dx_itemKey dl = qi_key item"
  by (auto simp: exactReviewDeadLetterInsert_def split: option.splits)

lemma exhaust_cases:
  assumes "exhaust_publication st item now completion owned attempt first capacity = Inr (st', r)"
  obtains (dead) dl where "capacity" "st' = delete_item (qi_key item) st" "dx_item dl = item" "dx_itemKey dl = qi_key item"
      "r = (publication_result False False False False)\<lparr>pr_deadLetter := Some dl\<rparr>"
  | (parked) "\<not> capacity" "st' = put_item (park_for_capacity attempt first (pc_reasonCode completion) now item) st"
      "r = publication_result False False False True"
  using assms unfolding exhaust_publication_def
  by (auto split: sum.splits if_splits dest: dead_letter_item)

lemma fail_cases:
  assumes "fail_publication st item now completion owned retryAt capacity env alloc = Inr (st', r)"
  obtains (refreshed) superseded where "refreshExactReviewPublicationItem st item now env alloc = Inr (st', superseded)"
      "r = (publication_result False False True False)\<lparr>pr_commandSuperseded := superseded\<rparr>"
  | (exhausted) "exhaust_publication st item now completion owned (failure_attempt item) (first_failure now item) capacity = Inr (st', r)"
  | (retried) "\<not> artifact_refresh completion item"
      "st' = put_item (retry_publication st now retryAt completion (failure_attempt item) (first_failure now item) item) st"
      "r = publication_result True True False False"
      "\<not> exactReviewPublicationRetryExhausted (pc_kind completion) (pc_reasonCode completion) (failure_attempt item)
           (first_failure now item) now"
proof (cases "artifact_refresh completion item")
  case refresh: True
  show thesis
  proof (cases "decisionPublicationPolicy (qi_decision item)")
    case (Inl e)
    with refresh assms show thesis by (simp add: fail_publication_def)
  next
    case (Inr policy)
    show thesis
    proof (cases policy)
      case None
      show thesis
      proof (cases "refreshExactReviewPublicationItem st item now env alloc")
        case (Inl e)
        with refresh Inr None assms show thesis by (simp add: fail_publication_def)
      next
        case refreshed_to: (Inr x)
        with refresh Inr None assms show thesis
          by (intro refreshed[of "snd x"]) (auto simp: fail_publication_def split: prod.splits)
      qed
    next
      case (Some p)
      with refresh Inr assms show thesis by (intro exhausted) (simp add: fail_publication_def)
    qed
  qed
next
  case False
  show thesis
  proof (cases "exactReviewPublicationRetryExhausted (pc_kind completion) (pc_reasonCode completion) (failure_attempt item)
      (first_failure now item) now")
    case True
    with False assms show thesis by (intro exhausted) (simp add: fail_publication_def)
  next
    case ongoing: False
    with False assms show thesis by (intro retried) (simp_all add: fail_publication_def)
  qed
qed

text \<open>
  C4. A publication leaves the queue only when it is settled: after a completion its item is gone
  only if the completion was for its newest revision and published, superseded or deferred it,
  or a dead letter holding the whole item was written into a store with room, or a review item
  that recovers its target is in the queue; otherwise its lease is cleared and it is pending
  (and reported requeued) or, with a full dead-letter store, parked.
\<close>

theorem publication_never_lost:
  assumes "finishExactReviewPublicationQueueItem st item now completion ownedRevision retryAt requeueLatest capacity env alloc
             = Inr (st', r)"
  shows "case item_at st' (qi_key item) of
      Some item' \<Rightarrow>
        pr_refreshed r
        \<or> (qi_lease item' = no_lease
           \<and> (pr_requeued r \<and> qi_state item' = ItPending
              \<or> pr_parked r \<and> qi_state item' = ItParked \<and> qi_parkedReason item' = Some DeadLetterCapacity \<and> \<not> capacity))
    | None \<Rightarrow>
        qi_revision item \<le> (case ownedRevision of None \<Rightarrow> number_or_0 (le_leaseRevision (qi_lease item)) | Some own \<Rightarrow> own)
        \<and> \<not> requeueLatest
        \<and> (pc_kind completion \<in> {KindPublished, KindSuperseded, KindDeferred}
           \<or> (\<exists>dl. pr_deadLetter r = Some dl \<and> dx_item dl = item \<and> capacity)
           \<or> (\<exists>p. pr_refreshed r \<and> d_publication (qi_decision item) = Some p
                 \<and> item_at st' (exactReviewItemKey (recovery_decision p)) \<noteq> None))"
proof -
  let ?owned = "case ownedRevision of None \<Rightarrow> number_or_0 (le_leaseRevision (qi_lease item)) | Some own \<Rightarrow> own"
  show ?thesis
  proof (cases "qi_revision item > ?owned \<or> requeueLatest")
    case True
    with assms show ?thesis by (auto simp: finishExactReviewPublicationQueueItem_def Let_def publication_result_def)
  next
    case current: False
    show ?thesis
    proof (cases "fail_publication st item now completion ?owned retryAt capacity env alloc = Inr (st', r)")
      case True
      then show ?thesis
      proof (cases rule: fail_cases)
        case (refreshed superseded)
        from refreshed(1) obtain p where "d_publication (qi_decision item) = Some p"
            "item_at st' (exactReviewItemKey (recovery_decision p)) \<noteq> None" by (rule refresh_cases)
        with refreshed(2) current show ?thesis by (auto simp: publication_result_def split: option.split)
      next
        case exhausted
        then show ?thesis using current by (cases rule: exhaust_cases) (auto simp: publication_result_def)
      next
        case retried
        then show ?thesis by (simp add: publication_result_def)
      qed
    next
      case False
      with assms current show ?thesis
        by (auto simp: finishExactReviewPublicationQueueItem_def Let_def publication_result_def split: if_splits)
    qed
  qed
qed


definition sample_publish :: queue_item where
  "sample_publish = new_item ''o/r#7@publish:5:1'' (sample_decision\<lparr>bd_sourceAction := EXACT_REVIEW_ARTIFACT_PUBLISH_SOURCE_ACTION,
     d_publication := Some (sample_publication ''5'' 1)\<rparr>) ''d-9'' 2 1000 sample_env"

definition sample_failure :: "completion_kind \<Rightarrow> reason_code \<Rightarrow> publication_completion" where
  "sample_failure k r = \<lparr>pc_kind = k, pc_reasonCode = r, pc_errorFingerprint = None, pc_attempted = None, pc_poolClass = None\<rparr>"

lemma publication_never_lost_witness:
  "\<exists>st' r. finishExactReviewPublicationQueueItem (put_item sample_publish sample_queue) sample_publish 9000
       (sample_failure KindRefreshRequired ArtifactExpired) (Some 2) 0 False True sample_env (\<lambda>key n. n) = Inr (st', r)
     \<and> item_at st' (qi_key sample_publish) = None \<and> pr_refreshed r
     \<and> item_at st' (exactReviewItemKey (recovery_decision (sample_publication ''5'' 1))) \<noteq> None"
proof -
  let ?run = "finishExactReviewPublicationQueueItem (put_item sample_publish sample_queue) sample_publish 9000
       (sample_failure KindRefreshRequired ArtifactExpired) (Some 2) 0 False True sample_env (\<lambda>key n. n)"
  have "case ?run of Inl e \<Rightarrow> False | Inr (st', r) \<Rightarrow> item_at st' (qi_key sample_publish) = None \<and> pr_deadLetter r = None"
    by code_simp
  then obtain st' r where run: "?run = Inr (st', r)" "item_at st' (qi_key sample_publish) = None" "pr_deadLetter r = None"
    by (auto split: sum.splits)
  have "d_publication (qi_decision sample_publish) = Some (sample_publication ''5'' 1)"
    by (simp add: sample_publish_def new_item_def)
  with publication_never_lost[OF run(1)] run(2,3) have "pr_refreshed r
      \<and> item_at st' (exactReviewItemKey (recovery_decision (sample_publication ''5'' 1))) \<noteq> None"
    by (auto simp: sample_failure_def)
  with run show ?thesis by blast
qed

subsection \<open>Retries are bounded\<close>

text \<open>
  One revision of a publication: it is leased and completed again and again with any results; the
  number of a step is one when the failure is counted (\<open>retried\<close>).
\<close>

inductive publish_run :: "queue_item \<Rightarrow> nat \<Rightarrow> queue_item \<Rightarrow> bool" where
  publish_start: "publish_run item 0 item"
| publish_lease: "publish_run item n item' \<Longrightarrow>
     publish_run item n (item'\<lparr>qi_lease := lease, qi_state := ItLeased\<rparr>)"
| publish_complete: "publish_run item n item' \<Longrightarrow> qi_revision item' \<le> owned \<Longrightarrow>
     finishExactReviewPublicationQueueItem st item' now completion (Some owned) retryAt False capacity env alloc = Inr (st', r) \<Longrightarrow>
     pr_requeued r \<Longrightarrow> item_at st' (qi_key item') = Some item'' \<Longrightarrow>
     publish_run item (n + (if pr_retried r then 1 else 0)) item''"

lemma retried_limit:
  assumes "\<not> artifact_refresh completion item" "pc_kind completion \<in> {KindRetryable, KindPermanent, KindRefreshRequired}"
    and "\<not> exactReviewPublicationRetryExhausted (pc_kind completion) (pc_reasonCode completion) (failure_attempt item) first now"
  shows "failure_attempt item \<le> 47"
  using assms by (auto simp: exactReviewPublicationRetryExhausted_def artifact_refresh_def retry_consts queue_consts split: if_splits)

lemma publish_step:
  assumes "finishExactReviewPublicationQueueItem st item now completion (Some owned) retryAt False capacity env alloc = Inr (st', r)"
    and "qi_revision item \<le> owned" "pr_requeued r" "item_at st' (qi_key item) = Some item'"
  shows "number_or_0 (qi_publicationFailureAttempts item') =
      number_or_0 (qi_publicationFailureAttempts item) + (if pr_retried r then 1 else 0)
    \<and> (pr_retried r \<longrightarrow> number_or_0 (qi_publicationFailureAttempts item') \<le> 47)"
proof (cases "fail_publication st item now completion owned retryAt capacity env alloc = Inr (st', r)
    \<and> pc_kind completion \<in> {KindRetryable, KindPermanent, KindRefreshRequired}")
  case True
  then have fail: "fail_publication st item now completion owned retryAt capacity env alloc = Inr (st', r)" by blast
  from fail show ?thesis
  proof (cases rule: fail_cases)
    case (refreshed superseded)
    with assms(3) show ?thesis by (simp add: publication_result_def)
  next
    case exhausted
    then show ?thesis using assms(3) by (cases rule: exhaust_cases) (simp_all add: publication_result_def)
  next
    case retried
    with retried_limit[OF retried(1) _ retried(4)] True assms(4) show ?thesis
      by (auto simp: publication_result_def failure_attempt_def)
  qed
next
  case False
  with assms show ?thesis
    by (cases "pc_kind completion")
      (auto simp: finishExactReviewPublicationQueueItem_def Let_def publication_result_def split: if_splits)
qed

lemma publish_run_attempts:
  "publish_run item n item' \<Longrightarrow> number_or_0 (qi_publicationFailureAttempts item) = 0 \<Longrightarrow>
     number_or_0 (qi_publicationFailureAttempts item') = int n \<and> n \<le> 47"
proof (induction rule: publish_run.induct)
  case (publish_complete item n item' owned st now completion retryAt capacity env alloc st' r item'')
  from publish_step[OF publish_complete(3,2,4,5)] publish_complete(6,7) show ?case by (auto split: if_splits)
qed simp_all

text \<open>
  C11. A publication that keeps failing is retried at most 47 times: for one revision, however its
  attempts fail, in whatever mix of reasons and kinds and at whatever times, the queue counts at
  most 47 retried failures before it refreshes, dead-letters or parks the item; attempts that the
  publisher never made (a closed credential circuit) are the only requeues that are not counted.
\<close>

theorem publication_retries_bounded:
  assumes "publish_run (new_item key d deliveryId revision now env) n item"
  shows "n \<le> 47 \<and> number_or_0 (qi_publicationFailureAttempts item) = int n"
  using publish_run_attempts[OF assms] by (simp add: new_item_def)

lemma publication_retries_bounded_witness:
  "\<exists>item. publish_run sample_publish 1 item \<and> number_or_0 (qi_publicationFailureAttempts item) = 1"
proof -
  let ?item = "sample_publish\<lparr>qi_lease := no_lease, qi_state := ItLeased\<rparr>"
  let ?run = "finishExactReviewPublicationQueueItem sample_queue ?item 9000 (sample_failure KindRetryable StateContention)
      (Some 2) 0 False True sample_env (\<lambda>key n. n)"
  have "case ?run of Inl e \<Rightarrow> False
      | Inr (st', r) \<Rightarrow> pr_requeued r \<and> pr_retried r \<and> item_at st' (qi_key ?item) \<noteq> None" by code_simp
  then obtain st' r item' where run: "?run = Inr (st', r)" "pr_requeued r" "pr_retried r" "item_at st' (qi_key ?item) = Some item'"
    by (auto split: sum.splits)
  have "publish_run sample_publish 0 ?item" by (intro publish_lease publish_start)
  from publish_complete[OF this _ run(1,2,4)] run(3) have "publish_run sample_publish 1 item'"
    by (simp add: sample_publish_def new_item_def)
  with publication_retries_bounded[of _ _ _ _ _ _ 1 item', OF this[unfolded sample_publish_def]] show ?thesis by auto
qed

subsection \<open>Reconciled facts\<close>

lemma attributed_append: "attributed_count (xs @ ys) t = attributed_count xs t + attributed_count ys t"
  by (simp add: attributed_count_def)

lemma reconcile_step_count:
  "attributed_count (reconcile_step (u, n) facts) t =
     (if t = u then max n (attributed_count facts t) else attributed_count facts t)"
  by (auto simp: reconcile_step_def Let_def attributed_append) (auto simp: attributed_count_def missing_fact_def)

lemma reconcile_fold:
  "distinct (map fst expected) \<Longrightarrow>
     attributed_count (fold reconcile_step expected facts) t =
       (case map_of expected t of None \<Rightarrow> attributed_count facts t | Some n \<Rightarrow> max n (attributed_count facts t))"
proof (induction expected arbitrary: facts)
  case (Cons e expected)
  obtain u n where e: "e = (u, n)" by (cases e)
  with Cons.prems have "map_of expected u = None" by (simp add: map_of_eq_None_iff)
  with Cons.IH[of "reconcile_step (u, n) facts"] Cons.prems e show ?case
    by (auto simp: reconcile_step_count split: option.split)
qed simp

text \<open>
  The metrics account for every publication: after reconciling, the facts of a transition add
  up to the expected total, or to the attributed facts when these are more; a transition without
  an expected total keeps exactly its facts.
\<close>

theorem reconciled_totals:
  assumes "distinct (map fst expected)"
  shows "attributed_count (reconciledPublicationTransitionFacts facts expected) t =
    (case map_of expected t of
       None \<Rightarrow> attributed_count (filter (\<lambda>f. safe_integer (tr_count f) \<and> tr_count f > 0) facts) t
     | Some n \<Rightarrow> max n (attributed_count (filter (\<lambda>f. safe_integer (tr_count f) \<and> tr_count f > 0) facts) t))"
  unfolding reconciledPublicationTransitionFacts_def by (rule reconcile_fold[OF assms])

lemma reconciled_totals_witness:
  "attributed_count (reconciledPublicationTransitionFacts [missing_fact TrPublished 2] [(TrPublished, 5), (TrRetried, 1)]) TrPublished = 5"
proof -
  have "distinct (map fst [(TrPublished, 5 :: int), (TrRetried, 1)])" by simp
  from reconciled_totals[OF this, of "[missing_fact TrPublished 2]" TrPublished] show ?thesis
    by (simp add: attributed_count_def missing_fact_def safe_integer_def MAX_SAFE_INTEGER_def)
qed

end
