(* ===== verification/Queue_Capacity.thy ===== *)
theory Queue_Capacity
  imports Queue_Item
begin

text \<open>
  The publication controller (\<open>dashboard/exact-review-queue.ts\<close>): how many publishers may run.
  The demand side steps the capacity with the backlog (with hysteresis), the feedback side lowers
  a ceiling after GitHub failures and raises it again after successes, and the capacity for the
  queue fits both under the worker budget. An infinite number (\<open>Number.POSITIVE_INFINITY\<close>, the
  default of several parameters) and a stored value that is no safe integer are \<open>None\<close>.
\<close>

subsection \<open>Constants\<close>

definition EXACT_REVIEW_PUBLICATION_CONCURRENT_SCALE_STEP :: int where "EXACT_REVIEW_PUBLICATION_CONCURRENT_SCALE_STEP = 8"
definition EXACT_REVIEW_PUBLICATION_RATE_LIMIT_COOLDOWN_MS :: int where "EXACT_REVIEW_PUBLICATION_RATE_LIMIT_COOLDOWN_MS = 15 * 60 * 1000"
definition EXACT_REVIEW_PUBLICATION_TRANSIENT_COOLDOWN_MS :: int where "EXACT_REVIEW_PUBLICATION_TRANSIENT_COOLDOWN_MS = 5 * 60 * 1000"
definition EXACT_REVIEW_PUBLICATION_DEMAND_SAMPLE_MS :: int where "EXACT_REVIEW_PUBLICATION_DEMAND_SAMPLE_MS = 5 * 60 * 1000"
definition EXACT_REVIEW_PUBLICATION_SCALE_UP_MS :: int where "EXACT_REVIEW_PUBLICATION_SCALE_UP_MS = 10 * 60 * 1000"
definition EXACT_REVIEW_PUBLICATION_SCALE_DOWN_MS :: int where "EXACT_REVIEW_PUBLICATION_SCALE_DOWN_MS = 15 * 60 * 1000"
definition EXACT_REVIEW_PUBLICATION_ACTIONS_RESERVE :: int where "EXACT_REVIEW_PUBLICATION_ACTIONS_RESERVE = 16"
definition EXACT_REVIEW_GITHUB_TELEMETRY_RECEIPT_RETENTION_MS :: int where
  "EXACT_REVIEW_GITHUB_TELEMETRY_RECEIPT_RETENTION_MS = 7 * 24 * 60 * 60 * 1000"

lemmas capacity_consts = EXACT_REVIEW_PUBLICATION_CONCURRENT_SCALE_STEP_def EXACT_REVIEW_PUBLICATION_RATE_LIMIT_COOLDOWN_MS_def
  EXACT_REVIEW_PUBLICATION_TRANSIENT_COOLDOWN_MS_def EXACT_REVIEW_PUBLICATION_DEMAND_SAMPLE_MS_def
  EXACT_REVIEW_PUBLICATION_SCALE_UP_MS_def EXACT_REVIEW_PUBLICATION_SCALE_DOWN_MS_def EXACT_REVIEW_PUBLICATION_ACTIONS_RESERVE_def

abbreviation pub_max :: "env \<Rightarrow> int" where "pub_max env \<equiv> exactReviewPublicationMaximum env"
abbreviation pub_min :: "env \<Rightarrow> int" where "pub_min env \<equiv> exactReviewPublicationMinimum env (pub_max env)"
abbreviation pub_base :: "env \<Rightarrow> int" where "pub_base env \<equiv> exactReviewPublicationBase env (pub_max env)"

subsection \<open>Demand\<close>

definition scale_steps :: "int \<Rightarrow> int \<Rightarrow> int option \<Rightarrow> int" where
  "scale_steps backlog oldestAge netDrain =
     (if backlog \<ge> 100 \<or> oldestAge \<ge> 60 * 60 * 1000 \<or> (backlog \<ge> 50 \<and> sql_le netDrain 0) then 1 else 0)
     + (if backlog \<ge> 250 \<or> oldestAge \<ge> 4 * 60 * 60 * 1000 then 1 else 0)
     + (if backlog \<ge> 400 \<or> oldestAge \<ge> 8 * 60 * 60 * 1000 then 1 else 0)"

definition exactReviewPublicationCapacity :: "env \<Rightarrow> int \<Rightarrow> int \<Rightarrow> int option \<Rightarrow> int \<Rightarrow> int option \<Rightarrow> int" where
  "exactReviewPublicationCapacity env outstandingBacklog activePublishers capacityCeiling oldestPendingAgeMs netDrainRatePerHour =
     (let maximum = pub_max env; minimum = pub_min env; base = pub_base env;
          adaptiveMaximum = max minimum (min maximum (case capacityCeiling of None \<Rightarrow> maximum | Some c \<Rightarrow> c));
          backlog = max 0 outstandingBacklog; oldestAge = max 0 oldestPendingAgeMs;
          desired = min adaptiveMaximum
                      (base + scale_steps backlog oldestAge netDrainRatePerHour * EXACT_REVIEW_PUBLICATION_CONCURRENT_SCALE_STEP)
      in min maximum (max desired (max 0 activePublishers)))"

subsection \<open>The controller\<close>

datatype publication_failure_kind = RateLimitFailure | TransientFailure

record publication_control =
  ct_capacityCeiling :: int
  ct_demandCapacity :: int
  ct_cooldownUntil :: int
  ct_recoverySuccesses :: int
  ct_demandSamples :: int
  ct_demandTier :: int
  ct_lastDemandSampleAt :: int
  ct_lastScaleAt :: int
  ct_lastFailureAt :: "int option"
  ct_lastFailureKind :: "publication_failure_kind option"
  ct_githubFeedbackReceipts :: "(string \<times> int) list"

text \<open>The stored value before it is read: each number may be missing or malformed.\<close>

record stored_control =
  sc_capacityCeiling :: "int option"
  sc_demandCapacity :: "int option"
  sc_cooldownUntil :: "int option"
  sc_recoverySuccesses :: "int option"
  sc_demandSamples :: "int option"
  sc_demandTier :: "int option"
  sc_lastDemandSampleAt :: "int option"
  sc_lastScaleAt :: "int option"
  sc_lastFailureAt :: "int option"
  sc_lastFailureKind :: "string option"
  sc_githubFeedbackReceipts :: "(string \<times> int option) list"

definition exactReviewPublicationFailureKind :: "string option \<Rightarrow> publication_failure_kind option" where
  "exactReviewPublicationFailureKind value =
     (if value = Some ''github_rate_limit'' then Some RateLimitFailure
      else if value = Some ''github_transient'' then Some TransientFailure else None)"

definition kept_receipts :: "int \<Rightarrow> (string \<times> int option) list \<Rightarrow> (string \<times> int) list" where
  "kept_receipts now receipts =
     map (map_prod (\<lambda>r. r) the)
       (filter (\<lambda>(receipt, recordedAt). hex_of_length 64 (to_lower receipt)
          \<and> recordedAt \<noteq> None \<and> the recordedAt \<ge> now - EXACT_REVIEW_GITHUB_TELEMETRY_RECEIPT_RETENTION_MS) receipts)"

definition positive_or_zero :: "int option \<Rightarrow> int" where
  "positive_or_zero v = max 0 (num_or_zero v)"

definition exactReviewPublicationControl :: "env \<Rightarrow> int \<Rightarrow> stored_control \<Rightarrow> publication_control" where
  "exactReviewPublicationControl env now control =
     (let maximum = pub_max env; minimum = pub_min env; base = pub_base env;
          fixedPolicyDowngrade = (sql_gt (sc_capacityCeiling control) maximum \<and> sql_gt (sc_demandCapacity control) maximum)
      in \<lparr>ct_capacityCeiling = (case sc_capacityCeiling control of Some c \<Rightarrow> max minimum (min maximum c) | None \<Rightarrow> maximum),
          ct_demandCapacity = (if fixedPolicyDowngrade then base
             else case sc_demandCapacity control of Some c \<Rightarrow> max minimum (min maximum c) | None \<Rightarrow> base),
          ct_cooldownUntil = positive_or_zero (sc_cooldownUntil control),
          ct_recoverySuccesses = positive_or_zero (sc_recoverySuccesses control),
          ct_demandSamples = positive_or_zero (sc_demandSamples control),
          ct_demandTier = positive_or_zero (sc_demandTier control),
          ct_lastDemandSampleAt = positive_or_zero (sc_lastDemandSampleAt control),
          ct_lastScaleAt = positive_or_zero (sc_lastScaleAt control),
          ct_lastFailureAt = (if sql_gt (sc_lastFailureAt control) 0 then sc_lastFailureAt control else None),
          ct_lastFailureKind = exactReviewPublicationFailureKind (sc_lastFailureKind control),
          ct_githubFeedbackReceipts = kept_receipts now (sc_githubFeedbackReceipts control)\<rparr>)"

record publication_feedback =
  fb_at :: int
  fb_capacity :: int
  fb_success :: bool
  fb_failureKind :: "publication_failure_kind option"

definition exactReviewPublicationControlAfterFeedback :: "env \<Rightarrow> publication_control \<Rightarrow> publication_feedback \<Rightarrow> publication_control" where
  "exactReviewPublicationControlAfterFeedback env control feedback =
     (let maximum = pub_max env; minimum = pub_min env
      in if \<not> fb_success feedback then
           let failureKind = (case fb_failureKind feedback of None \<Rightarrow> TransientFailure | Some k \<Rightarrow> k);
               rateLimited = (failureKind = RateLimitFailure);
               currentCapacity = max minimum (min (ct_capacityCeiling control) (fb_capacity feedback));
               ceiling = (if rateLimited then max minimum (currentCapacity div 2)
                          else max minimum (currentCapacity - EXACT_REVIEW_PUBLICATION_CONCURRENT_SCALE_STEP))
           in control\<lparr>ct_capacityCeiling := ceiling,
                ct_cooldownUntil := max (ct_cooldownUntil control)
                  (fb_at feedback + (if rateLimited then EXACT_REVIEW_PUBLICATION_RATE_LIMIT_COOLDOWN_MS
                                     else EXACT_REVIEW_PUBLICATION_TRANSIENT_COOLDOWN_MS)),
                ct_recoverySuccesses := 0, ct_lastFailureAt := Some (fb_at feedback), ct_lastFailureKind := Some failureKind\<rparr>
         else if fb_at feedback < ct_cooldownUntil control \<or> ct_capacityCeiling control \<ge> maximum
         then control\<lparr>ct_recoverySuccesses := 0\<rparr>
         else if ct_recoverySuccesses control + 1 < exactReviewPublicationRecoverySuccesses env
         then control\<lparr>ct_recoverySuccesses := ct_recoverySuccesses control + 1\<rparr>
         else control\<lparr>ct_capacityCeiling :=
                min maximum (ct_capacityCeiling control + EXACT_REVIEW_PUBLICATION_CONCURRENT_SCALE_STEP),
                ct_recoverySuccesses := 0\<rparr>)"

record demand_sample =
  ds_at :: int
  ds_backlog :: int
  ds_oldestPendingAgeMs :: int
  ds_netDrainRatePerHour :: int

definition demand_tier :: "env \<Rightarrow> int \<Rightarrow> int" where
  "demand_tier env desired =
     max 0 (- ((pub_base env - desired) div EXACT_REVIEW_PUBLICATION_CONCURRENT_SCALE_STEP))"

definition exactReviewPublicationControlAfterDemand :: "env \<Rightarrow> publication_control \<Rightarrow> demand_sample \<Rightarrow> publication_control" where
  "exactReviewPublicationControlAfterDemand env control sample =
     (if ds_at sample < ct_lastDemandSampleAt control + EXACT_REVIEW_PUBLICATION_DEMAND_SAMPLE_MS then control
      else
        let desired = exactReviewPublicationCapacity env (ds_backlog sample) 0 (Some (pub_max env))
                        (ds_oldestPendingAgeMs sample) (Some (ds_netDrainRatePerHour sample));
            desiredTier = demand_tier env desired;
            demandSamples = (if ct_demandTier control = desiredTier then ct_demandSamples control + 1 else 1);
            nxt = control\<lparr>ct_demandSamples := demandSamples, ct_demandTier := desiredTier, ct_lastDemandSampleAt := ds_at sample\<rparr>;
            healthyDrain = (ds_backlog sample < 80 \<and> ds_oldestPendingAgeMs sample < 30 * 60 * 1000 \<and> ds_netDrainRatePerHour sample > 0)
        in if desired > ct_demandCapacity control \<and> demandSamples \<ge> 2
              \<and> ds_at sample \<ge> ct_lastScaleAt control + EXACT_REVIEW_PUBLICATION_SCALE_UP_MS
           then nxt\<lparr>ct_demandCapacity := min desired (ct_demandCapacity control + EXACT_REVIEW_PUBLICATION_CONCURRENT_SCALE_STEP),
                    ct_demandSamples := 0, ct_lastScaleAt := ds_at sample\<rparr>
           else if desired < ct_demandCapacity control \<and> healthyDrain \<and> demandSamples \<ge> 6
              \<and> ds_at sample \<ge> ct_lastScaleAt control + EXACT_REVIEW_PUBLICATION_SCALE_DOWN_MS
           then nxt\<lparr>ct_demandCapacity := max (pub_base env) (ct_demandCapacity control - EXACT_REVIEW_PUBLICATION_CONCURRENT_SCALE_STEP),
                    ct_demandSamples := 0, ct_lastScaleAt := ds_at sample\<rparr>
           else nxt)"

text \<open>Writing the controller back, and reading what was written.\<close>

definition store_control :: "publication_control \<Rightarrow> stored_control" where
  "store_control c =
     \<lparr>sc_capacityCeiling = Some (ct_capacityCeiling c), sc_demandCapacity = Some (ct_demandCapacity c),
      sc_cooldownUntil = Some (ct_cooldownUntil c), sc_recoverySuccesses = Some (ct_recoverySuccesses c),
      sc_demandSamples = Some (ct_demandSamples c), sc_demandTier = Some (ct_demandTier c),
      sc_lastDemandSampleAt = Some (ct_lastDemandSampleAt c), sc_lastScaleAt = Some (ct_lastScaleAt c),
      sc_lastFailureAt = ct_lastFailureAt c,
      sc_lastFailureKind = map_option (\<lambda>k. case k of RateLimitFailure \<Rightarrow> ''github_rate_limit'' | TransientFailure \<Rightarrow> ''github_transient'')
                             (ct_lastFailureKind c),
      sc_githubFeedbackReceipts = map (map_prod (\<lambda>r. r) Some) (ct_githubFeedbackReceipts c)\<rparr>"

definition applyPublicationFeedbackSync ::
  "env \<Rightarrow> int \<Rightarrow> stored_control \<Rightarrow> publication_feedback \<Rightarrow> string option \<Rightarrow> stored_control" where
  "applyPublicationFeedbackSync env now stored feedback receipt =
     (let current = exactReviewPublicationControl env now stored;
          nxt = exactReviewPublicationControlAfterFeedback env current feedback
      in if truthy receipt \<and> map_of (ct_githubFeedbackReceipts current) (the receipt) \<noteq> None then stored
         else store_control (nxt\<lparr>ct_githubFeedbackReceipts :=
                (if truthy receipt then AList.update (the receipt) now (ct_githubFeedbackReceipts current)
                 else ct_githubFeedbackReceipts current)\<rparr>))"

definition pending_publications :: "queue_state \<Rightarrow> queue_item list" where
  "pending_publications st =
     filter (\<lambda>item. exactReviewQueueIsPublication (qi_decision item) \<and> qi_state item = ItPending) (map snd (qs_items st))"

definition oldest_created :: "queue_item list \<Rightarrow> int option" where
  "oldest_created items =
     fold (\<lambda>item oldest. Some (case oldest of None \<Rightarrow> qi_createdAt item | Some t \<Rightarrow> min t (qi_createdAt item))) items None"

text \<open>The flow is the sum of resolved and enqueued publications of the last quarter hour.\<close>

definition refreshPublicationControlSync ::
  "env \<Rightarrow> int \<Rightarrow> queue_state \<Rightarrow> int \<Rightarrow> int \<Rightarrow> stored_control \<Rightarrow> publication_control" where
  "refreshPublicationControlSync env now st resolved enqueued stored =
     (let pending = pending_publications st
      in exactReviewPublicationControlAfterDemand env (exactReviewPublicationControl env now stored)
           \<lparr>ds_at = now, ds_backlog = int (length pending),
            ds_oldestPendingAgeMs = (case oldest_created pending of None \<Rightarrow> 0 | Some t \<Rightarrow> max 0 (now - t)),
            ds_netDrainRatePerHour = (resolved - enqueued) * 4\<rparr>)"

subsection \<open>The capacity for a queue\<close>

definition active_state :: "queue_item \<Rightarrow> bool" where
  "active_state item \<longleftrightarrow> qi_state item = ItDispatching \<or> qi_state item = ItLeased"

definition active_reviews :: "queue_state \<Rightarrow> int" where
  "active_reviews st =
     int (length (filter (\<lambda>item. \<not> exactReviewQueueIsPublication (qi_decision item) \<and> active_state item) (map snd (qs_items st))))"

definition active_publishers :: "queue_state \<Rightarrow> int" where
  "active_publishers st =
     int (length (filter (\<lambda>item. exactReviewQueueIsPublication (qi_decision item) \<and> active_state item) (map snd (qs_items st))))"

text \<open>\<open>Math.min(capacityCeiling, demandCapacity)\<close>, the ceiling possibly infinite.\<close>

definition exactReviewPublicationCapacityForState ::
  "env \<Rightarrow> queue_state \<Rightarrow> int \<Rightarrow> int option \<Rightarrow> bool \<Rightarrow> int option \<Rightarrow> int" where
  "exactReviewPublicationCapacityForState env st now capacityCeiling preserveActive demandCapacity =
     (let pending = pending_publications st; active = (if preserveActive then active_publishers st else 0);
          requested = (case demandCapacity of
             None \<Rightarrow> exactReviewPublicationCapacity env (int (length pending)) active capacityCeiling
                       (case oldest_created pending of None \<Rightarrow> 0 | Some t \<Rightarrow> now - t) None
           | Some d \<Rightarrow> (case capacityCeiling of None \<Rightarrow> d | Some c \<Rightarrow> min c d));
          workerBudget = max 1 (numberFrom (env ''EXACT_REVIEW_ACTIONS_BUDGET'') DEFAULT_EXACT_REVIEW_ACTIONS_BUDGET);
          budgeted = max 0 (workerBudget - active_reviews st - EXACT_REVIEW_PUBLICATION_ACTIONS_RESERVE)
      in max active (min requested budgeted))"


subsection \<open>The controller stays in its bounds\<close>

definition control_ok :: "env \<Rightarrow> publication_control \<Rightarrow> bool" where
  "control_ok env c \<longleftrightarrow>
     pub_min env \<le> ct_capacityCeiling c \<and> ct_capacityCeiling c \<le> pub_max env
     \<and> pub_min env \<le> ct_demandCapacity c \<and> ct_demandCapacity c \<le> pub_max env
     \<and> 0 \<le> ct_recoverySuccesses c \<and> 0 \<le> ct_cooldownUntil c"

lemma pub_bounds: "1 \<le> pub_min env" "pub_min env \<le> pub_base env" "pub_base env \<le> pub_max env" "pub_min env \<le> pub_max env"
  using publication_limits[of env] by simp_all

text \<open>Arithmetic of the clamps, on variables.\<close>

lemma clamp_between:
  fixes m M x :: int
  assumes "m \<le> M"
  shows "m \<le> max m (min M x)" "max m (min M x) \<le> M"
  using assms by auto

lemma control_parse_ok: "control_ok env (exactReviewPublicationControl env now stored)"
  using pub_bounds[of env] clamp_between[OF pub_bounds(4)[of env]]
  by (simp add: control_ok_def exactReviewPublicationControl_def Let_def positive_or_zero_def split: option.split)

lemma lower_ceiling:
  fixes m M c f s :: int
  assumes "m \<le> c" "c \<le> M" "1 \<le> m" "0 \<le> s"
  shows "max m (max m (min c f) div 2) \<le> M" "max m (max m (min c f) - s) \<le> M"
proof -
  have "max m (min c f) \<le> c" "0 \<le> max m (min c f)" using assms by auto
  then have "max m (min c f) div 2 \<le> c" "max m (min c f) - s \<le> c" using assms(4) by linarith+
  then show "max m (max m (min c f) div 2) \<le> M" "max m (max m (min c f) - s) \<le> M" using assms by auto
qed

lemma control_feedback_ok:
  assumes "control_ok env c" "0 \<le> fb_at feedback"
  shows "control_ok env (exactReviewPublicationControlAfterFeedback env c feedback)"
proof (cases "fb_success feedback")
  case True
  with assms show ?thesis
    by (auto simp: control_ok_def exactReviewPublicationControlAfterFeedback_def Let_def capacity_consts)
next
  case False
  from assms(1) have c: "pub_min env \<le> ct_capacityCeiling c" "ct_capacityCeiling c \<le> pub_max env" by (simp_all add: control_ok_def)
  note low = lower_ceiling[OF c pub_bounds(1), of EXACT_REVIEW_PUBLICATION_CONCURRENT_SCALE_STEP "fb_capacity feedback"]
  have "0 \<le> EXACT_REVIEW_PUBLICATION_CONCURRENT_SCALE_STEP" by (simp add: capacity_consts)
  note low = low[OF this]
  from False assms low show ?thesis
    by (simp add: control_ok_def exactReviewPublicationControlAfterFeedback_def Let_def max.coboundedI1)
qed

lemma scale_steps_nonneg: "0 \<le> scale_steps backlog age drain"
  by (simp add: scale_steps_def)

lemma capacity_bounds:
  "pub_min env \<le> exactReviewPublicationCapacity env backlog active ceiling age drain"
  "exactReviewPublicationCapacity env backlog active ceiling age drain \<le> pub_max env"
proof -
  let ?n = "scale_steps (max 0 backlog) (max 0 age) drain * EXACT_REVIEW_PUBLICATION_CONCURRENT_SCALE_STEP"
  have n: "0 \<le> ?n" using scale_steps_nonneg by (simp add: capacity_consts)
  have aux: "m \<le> min M (max (min (max m (min M c)) (b + n)) (max 0 a))"
    if "m \<le> M" "m \<le> b" "0 \<le> n" for m M c b n a :: int
    using that by auto
  show "pub_min env \<le> exactReviewPublicationCapacity env backlog active ceiling age drain"
    unfolding exactReviewPublicationCapacity_def Let_def by (rule aux[OF pub_bounds(4,2) n])
  show "exactReviewPublicationCapacity env backlog active ceiling age drain \<le> pub_max env"
    unfolding exactReviewPublicationCapacity_def Let_def by (rule min.cobounded1)
qed

lemma control_demand_ok:
  assumes "control_ok env c"
  shows "control_ok env (exactReviewPublicationControlAfterDemand env c sample)"
proof -
  let ?d = "exactReviewPublicationCapacity env (ds_backlog sample) 0 (Some (pub_max env)) (ds_oldestPendingAgeMs sample)
      (Some (ds_netDrainRatePerHour sample))"
  have up: "m \<le> min d (c0 + 8) \<and> min d (c0 + 8) \<le> M" if "m \<le> d" "d \<le> M" "m \<le> c0" for m d M c0 :: int
    using that by auto
  have down: "m \<le> max b (c0 - 8) \<and> max b (c0 - 8) \<le> M" if "m \<le> b" "b \<le> M" "c0 \<le> M" for m b M c0 :: int
    using that by auto
  note up = up[OF capacity_bounds(1,2)[of env "ds_backlog sample" 0 "Some (pub_max env)" "ds_oldestPendingAgeMs sample"
      "Some (ds_netDrainRatePerHour sample)"], of "ct_demandCapacity c"]
  note down = down[OF pub_bounds(2,3), of "ct_demandCapacity c" env]
  from assms up down show ?thesis
    by (simp add: control_ok_def exactReviewPublicationControlAfterDemand_def Let_def EXACT_REVIEW_PUBLICATION_CONCURRENT_SCALE_STEP_def)
qed

text \<open>The controller over time: feedback, demand samples, and being stored and read again.\<close>

datatype control_op = OpFeedback publication_feedback | OpDemand demand_sample | OpReload int

fun control_step :: "env \<Rightarrow> control_op \<Rightarrow> publication_control \<Rightarrow> publication_control" where
  "control_step env (OpFeedback f) c = exactReviewPublicationControlAfterFeedback env c f"
| "control_step env (OpDemand s) c = exactReviewPublicationControlAfterDemand env c s"
| "control_step env (OpReload now) c = exactReviewPublicationControl env now (store_control c)"

lemma control_run_ok:
  "control_ok env c \<Longrightarrow> \<forall>f. OpFeedback f \<in> set ops \<longrightarrow> 0 \<le> fb_at f \<Longrightarrow> control_ok env (fold (control_step env) ops c)"
proof (induction ops arbitrary: c)
  case (Cons op ops)
  from Cons.prems have "control_ok env (control_step env op c)"
    by (cases op) (simp_all add: control_feedback_ok control_demand_ok control_parse_ok)
  with Cons show ?case by simp
qed simp

text \<open>
  C12. Whatever value was stored (missing, malformed, from another configuration) and whatever
  feedback, samples and restarts follow, the publication ceiling and the demand stay between the
  configured minimum and maximum, so no run of failures stops publishing and no run of successes
  or backlog exceeds the limit; the capacity computed for a queue, when active work is not to be
  preserved, keeps reviews, publishers and the reserve inside the worker budget.
\<close>

theorem control_stays_bounded:
  assumes "\<forall>f. OpFeedback f \<in> set ops \<longrightarrow> 0 \<le> fb_at f"
    and "c = fold (control_step env) ops (exactReviewPublicationControl env now stored)"
    and "n = exactReviewPublicationCapacityForState env st now (Some (ct_capacityCeiling c)) False (Some (ct_demandCapacity c))"
  shows "pub_min env \<le> ct_capacityCeiling c \<and> ct_capacityCeiling c \<le> pub_max env
     \<and> pub_min env \<le> ct_demandCapacity c \<and> ct_demandCapacity c \<le> pub_max env
     \<and> 0 \<le> n \<and> n \<le> pub_max env
     \<and> (0 < n \<longrightarrow> n + active_reviews st + EXACT_REVIEW_PUBLICATION_ACTIONS_RESERVE
          \<le> max 1 (numberFrom (env ''EXACT_REVIEW_ACTIONS_BUDGET'') DEFAULT_EXACT_REVIEW_ACTIONS_BUDGET))"
proof -
  have ok: "control_ok env c" using control_run_ok[OF control_parse_ok assms(1)] assms(2) by blast
  have aux: "0 \<le> max 0 (min (min a b) (max 0 (w - r - k))) \<and> max 0 (min (min a b) (max 0 (w - r - k))) \<le> M
      \<and> (0 < max 0 (min (min a b) (max 0 (w - r - k))) \<longrightarrow> max 0 (min (min a b) (max 0 (w - r - k))) + r + k \<le> w)"
    if "0 \<le> a" "a \<le> M" for a b w r k M :: int
    using that by auto
  have "0 \<le> ct_capacityCeiling c" using ok pub_bounds(1)[of env] by (simp add: control_ok_def)
  from aux[OF this] ok[unfolded control_ok_def] show ?thesis
    unfolding assms(3) exactReviewPublicationCapacityForState_def Let_def option.case if_False by blast
qed


definition no_control :: stored_control where
  "no_control = \<lparr>sc_capacityCeiling = None, sc_demandCapacity = None, sc_cooldownUntil = None, sc_recoverySuccesses = None,
     sc_demandSamples = None, sc_demandTier = None, sc_lastDemandSampleAt = None, sc_lastScaleAt = None,
     sc_lastFailureAt = None, sc_lastFailureKind = None, sc_githubFeedbackReceipts = []\<rparr>"

definition rate_limited :: "int \<Rightarrow> publication_feedback" where
  "rate_limited t = \<lparr>fb_at = t, fb_capacity = 24, fb_success = False, fb_failureKind = Some RateLimitFailure\<rparr>"

lemma control_stays_bounded_witness:
  "pub_min (\<lambda>_. None) \<le> ct_capacityCeiling (fold (control_step (\<lambda>_. None)) [OpFeedback (rate_limited 5), OpReload 9]
     (exactReviewPublicationControl (\<lambda>_. None) 0 no_control))"
proof -
  have "\<forall>f. OpFeedback f \<in> set [OpFeedback (rate_limited 5), OpReload 9] \<longrightarrow> 0 \<le> fb_at f" by (simp add: rate_limited_def)
  from control_stays_bounded[OF this refl refl] show ?thesis by blast
qed

subsection \<open>Recovery\<close>

definition success_at :: "int \<Rightarrow> publication_feedback" where
  "success_at t = \<lparr>fb_at = t, fb_capacity = 0, fb_success = True, fb_failureKind = None\<rparr>"

lemma feedback_success:
  assumes "ct_cooldownUntil c \<le> t"
  shows "exactReviewPublicationControlAfterFeedback env c (success_at t) =
    (if ct_capacityCeiling c \<ge> pub_max env then c\<lparr>ct_recoverySuccesses := 0\<rparr>
     else if ct_recoverySuccesses c + 1 < exactReviewPublicationRecoverySuccesses env
     then c\<lparr>ct_recoverySuccesses := ct_recoverySuccesses c + 1\<rparr>
     else c\<lparr>ct_capacityCeiling := min (pub_max env) (ct_capacityCeiling c + EXACT_REVIEW_PUBLICATION_CONCURRENT_SCALE_STEP),
            ct_recoverySuccesses := 0\<rparr>)"
  using assms by (simp add: exactReviewPublicationControlAfterFeedback_def success_at_def Let_def)

fun succeed :: "env \<Rightarrow> int list \<Rightarrow> publication_control \<Rightarrow> publication_control" where
  "succeed env [] c = c"
| "succeed env (t # ts) c = succeed env ts (exactReviewPublicationControlAfterFeedback env c (success_at t))"

lemma succeed_append: "succeed env (ts @ us) c = succeed env us (succeed env ts c)"
  by (induction ts arbitrary: c) auto

lemma recovery_counts:
  assumes "\<forall>t\<in>set ts. ct_cooldownUntil c \<le> t" "ct_capacityCeiling c < pub_max env"
    and "ct_recoverySuccesses c + int (length ts) < exactReviewPublicationRecoverySuccesses env"
  shows "succeed env ts c = c\<lparr>ct_recoverySuccesses := ct_recoverySuccesses c + int (length ts)\<rparr>"
  using assms
proof (induction ts arbitrary: c)
  case (Cons t ts)
  then show ?case by (simp add: feedback_success algebra_simps)
qed simp

text \<open>One full round of successes below the maximum raises the ceiling by one step.\<close>

lemma recovery_round:
  assumes "\<forall>t\<in>set ts. ct_cooldownUntil c \<le> t" "ct_capacityCeiling c < pub_max env" "ct_recoverySuccesses c = 0"
    and "int (length ts) = exactReviewPublicationRecoverySuccesses env"
  shows "succeed env ts c
       = c\<lparr>ct_capacityCeiling := min (pub_max env) (ct_capacityCeiling c + EXACT_REVIEW_PUBLICATION_CONCURRENT_SCALE_STEP)\<rparr>"
proof -
  have "1 \<le> exactReviewPublicationRecoverySuccesses env" by (simp add: exactReviewPublicationRecoverySuccesses_def)
  with assms(4) obtain us t where ts: "ts = us @ [t]" by (cases ts rule: rev_cases) auto
  have us: "succeed env us c = c\<lparr>ct_recoverySuccesses := int (length us)\<rparr>"
    using recovery_counts[of us c env] assms ts by simp
  show ?thesis unfolding ts succeed_append us
    using assms ts by (simp add: feedback_success)
qed

lemma at_maximum:
  assumes "\<forall>t\<in>set ts. ct_cooldownUntil c \<le> t" "ct_capacityCeiling c = pub_max env" "ct_recoverySuccesses c = 0"
  shows "succeed env ts c = c"
proof -
  have same: "c\<lparr>ct_recoverySuccesses := 0\<rparr> = c" using assms(3) by (intro publication_control.equality) auto
  show ?thesis using assms
  proof (induction ts)
    case (Cons t ts)
    then have "exactReviewPublicationControlAfterFeedback env c (success_at t) = c" by (simp add: feedback_success same)
    with Cons show ?case by simp
  qed simp
qed

lemma recovery_rounds:
  assumes "\<forall>t\<in>set ts. ct_cooldownUntil c \<le> t" "ct_capacityCeiling c \<le> pub_max env" "ct_recoverySuccesses c = 0"
    and "int (length ts) = int k * exactReviewPublicationRecoverySuccesses env"
  shows "succeed env ts c
       = c\<lparr>ct_capacityCeiling := min (pub_max env) (ct_capacityCeiling c + int k * EXACT_REVIEW_PUBLICATION_CONCURRENT_SCALE_STEP)\<rparr>"
  using assms
proof (induction k arbitrary: ts c)
  case 0
  then show ?case by (auto intro!: publication_control.equality)
next
  case (Suc k)
  let ?R = "exactReviewPublicationRecoverySuccesses env" and ?S = "EXACT_REVIEW_PUBLICATION_CONCURRENT_SCALE_STEP"
  have R: "1 \<le> ?R" by (simp add: exactReviewPublicationRecoverySuccesses_def)
  have S: "0 \<le> ?S" by (simp add: capacity_consts)
  show ?case
  proof (cases "ct_capacityCeiling c = pub_max env")
    case True
    have "min (pub_max env) (ct_capacityCeiling c + int (Suc k) * ?S) = ct_capacityCeiling c" using S True by (simp add: min_def)
    with at_maximum[OF Suc.prems(1) True Suc.prems(3)] show ?thesis by (auto intro!: publication_control.equality)
  next
    case False
    let ?us = "take (nat ?R) ts" and ?vs = "drop (nat ?R) ts"
    have l: "int (length ts) = ?R + int k * ?R" using Suc.prems(4) by (simp add: distrib_right)
    moreover have "0 \<le> int k * ?R" using R by simp
    ultimately have "nat ?R \<le> length ts" by linarith
    then have len: "int (length ?us) = ?R" "int (length ?vs) = int k * ?R"
      using R l by (simp_all add: of_nat_diff min_absorb2)
    let ?c = "c\<lparr>ct_capacityCeiling := min (pub_max env) (ct_capacityCeiling c + ?S)\<rparr>"
    have first: "succeed env ?us c = ?c"
      using Suc.prems(1-3) False by (intro recovery_round[OF _ _ _ len(1)]) (auto dest: in_set_takeD)
    have rest: "succeed env ?vs ?c = ?c\<lparr>ct_capacityCeiling := min (pub_max env) (ct_capacityCeiling ?c + int k * ?S)\<rparr>"
      using Suc.prems(1-3) by (intro Suc.IH[OF _ _ _ len(2)]) (auto dest: in_set_dropD)
    have "min M (min M (a + s) + int k * s) = min M (a + int (Suc k) * s)" if "0 \<le> s" for M a s :: int
    proof -
      have "0 \<le> int k * s" using that by simp
      then show ?thesis by (auto simp: min_def distrib_right)
    qed
    then have eq: "min (pub_max env) (ct_capacityCeiling ?c + int k * ?S) = min (pub_max env) (ct_capacityCeiling c + int (Suc k) * ?S)"
      using S by simp
    have "succeed env ts c = succeed env ?vs (succeed env ?us c)" by (simp add: succeed_append[symmetric])
    then show ?thesis unfolding first rest eq by simp
  qed
qed

text \<open>
  The ceiling recovers, and no faster than configured: once the cooldown of the last failure
  is over, k rounds of the configured number of successful publications raise a lowered ceiling by
  exactly k steps, up to the maximum, and change nothing else; so enough successes always restore
  the full capacity.
\<close>

theorem ceiling_recovers:
  assumes "\<forall>t\<in>set ts. ct_cooldownUntil c \<le> t" "ct_capacityCeiling c \<le> pub_max env" "ct_recoverySuccesses c = 0"
    and "int (length ts) = int k * exactReviewPublicationRecoverySuccesses env"
  shows "succeed env ts c
       = c\<lparr>ct_capacityCeiling := min (pub_max env) (ct_capacityCeiling c + int k * EXACT_REVIEW_PUBLICATION_CONCURRENT_SCALE_STEP)\<rparr>"
  by (rule recovery_rounds[OF assms])

lemma ceiling_recovers_witness:
  "ct_capacityCeiling (succeed (\<lambda>_. None) (replicate 20 1000000)
     ((exactReviewPublicationControl (\<lambda>_. None) 0 no_control)\<lparr>ct_capacityCeiling := 12\<rparr>)) = 28"
proof -
  let ?c = "(exactReviewPublicationControl (\<lambda>_. None) 0 no_control)\<lparr>ct_capacityCeiling := 12\<rparr>"
  have "pub_max (\<lambda>_. None) = 32" "exactReviewPublicationRecoverySuccesses (\<lambda>_. None) = 10" by code_simp+
  with ceiling_recovers[of "replicate 20 1000000" ?c "\<lambda>_. None" 2] show ?thesis
    by (simp add: exactReviewPublicationControl_def no_control_def positive_or_zero_def Let_def capacity_consts)
qed

end
