(* ===== verification/Queue_Admission.thy ===== *)
theory Queue_Admission
  imports Queue_Lease
begin

text \<open>
  Admission from the exact-review queue (\<open>dashboard/exact-review-read-model.ts\<close>): the census
  of the queue that every alarm takes, which ready items get a slot, and when the queue wakes
  up next. The collation of \<open>localeCompare\<close> is an argument; a capacity is an optional number,
  \<open>None\<close> being \<open>Number.POSITIVE_INFINITY\<close>. The census leaves out the candidates of the public
  Bay projection, which admission does not collect.
\<close>

subsection \<open>Credential circuits\<close>

definition exactReviewGithubCredentialCircuits :: "queue_state \<Rightarrow> credential_circuit list" where
  "exactReviewGithubCredentialCircuits st =
     (case qs_dispatcher st of None \<Rightarrow> [] | Some d \<Rightarrow> map snd (qd_githubCredentialCircuits d))"

text \<open>\<open>targetRepo.split("/", 1)[0].toLowerCase()\<close>\<close>

definition repo_owner :: "string \<Rightarrow> string" where
  "repo_owner targetRepo = to_lower (takeWhile (\<lambda>c. c \<noteq> CHR ''/'') targetRepo)"

definition exactReviewGithubTargetAppCircuitRetryAt :: "queue_state \<Rightarrow> string \<Rightarrow> int \<Rightarrow> int" where
  "exactReviewGithubTargetAppCircuitRetryAt st targetRepo now =
     fold (\<lambda>c retryAt. if cc_scope c = TargetApp \<and> cc_targetOwner c = Some (repo_owner targetRepo) \<and> cc_retryAt c > now
                       then max retryAt (cc_retryAt c) else retryAt)
       (exactReviewGithubCredentialCircuits st) 0"

definition note_circuit :: "int \<Rightarrow> credential_circuit \<Rightarrow> (string \<rightharpoonup> int) \<Rightarrow> (string \<rightharpoonup> int)" where
  "note_circuit now c m =
     (if cc_scope c \<noteq> TargetApp \<or> \<not> truthy (cc_targetOwner c) \<or> cc_retryAt c \<le> now then m
      else m(the (cc_targetOwner c) \<mapsto> max (number_or_0 (m (the (cc_targetOwner c)))) (cc_retryAt c)))"

definition exactReviewTargetAppRetryAtByOwner :: "queue_state \<Rightarrow> int \<Rightarrow> (string \<rightharpoonup> int)" where
  "exactReviewTargetAppRetryAtByOwner st now =
     fold (note_circuit now) (exactReviewGithubCredentialCircuits st) Map.empty"

subsection \<open>The census of a lane\<close>

datatype shown_backoff = Shown backoff_reason | RetryBackoff

datatype shown_parked = ShownParked parked_reason | StaleRevision | UnknownParked

definition exactReviewQueueBackoffReason :: "queue_item \<Rightarrow> queue_state \<Rightarrow> int \<Rightarrow> shown_backoff" where
  "exactReviewQueueBackoffReason item st now =
     (case qi_backoffReason item of
        Some r \<Rightarrow> Shown r
      | None \<Rightarrow>
          if num_truthy (qi_publicationFailureAttempts item)
             \<or> exactReviewQueueIsPublication (qi_decision item) \<and> qi_attempts item \<noteq> 0
          then Shown PublicationRetry
          else if num_truthy (qi_reviewFailureAttempts item) \<or> qi_attempts item \<noteq> 0 then RetryBackoff
          else case exactReviewDispatcherRetryAt (dispatcher_retry st) now of
                 Some retryAt \<Rightarrow> if qi_nextAttemptAt item \<ge> retryAt then Shown DispatcherBackoff else Shown DispatchDebounce
               | None \<Rightarrow> Shown DispatchDebounce)"

record lane_census =
  ln_pending :: int
  ln_ready :: int
  ln_backoff :: int
  ln_dispatching :: int
  ln_leased :: int
  ln_parked :: int
  ln_oldestPendingAt :: "int option"
  ln_oldestPendingKey :: "string option"
  ln_oldestReadyAt :: "int option"
  ln_oldestBackoffAt :: "int option"
  ln_nextAttemptAt :: "int option"
  ln_backoffReasons :: "shown_backoff \<Rightarrow> int"
  ln_parkedReasons :: "shown_parked \<Rightarrow> int"

definition emptyExactReviewQueueLaneCensus :: lane_census where
  "emptyExactReviewQueueLaneCensus =
     \<lparr>ln_pending = 0, ln_ready = 0, ln_backoff = 0, ln_dispatching = 0, ln_leased = 0, ln_parked = 0,
      ln_oldestPendingAt = None, ln_oldestPendingKey = None, ln_oldestReadyAt = None, ln_oldestBackoffAt = None,
      ln_nextAttemptAt = None, ln_backoffReasons = (\<lambda>_. 0), ln_parkedReasons = (\<lambda>_. 0)\<rparr>"

definition incrementExactReviewReason :: "'r \<Rightarrow> ('r \<Rightarrow> int) \<Rightarrow> 'r \<Rightarrow> int" where
  "incrementExactReviewReason reason counts = counts(reason := counts reason + 1)"

text \<open>\<open>current === null ? value : Math.min(current, value)\<close>\<close>

definition min_seen :: "int option \<Rightarrow> int \<Rightarrow> int option" where
  "min_seen current v = Some (case current of None \<Rightarrow> v | Some c \<Rightarrow> min c v)"

definition older_pending :: "(string \<Rightarrow> string \<Rightarrow> int) \<Rightarrow> queue_item \<Rightarrow> lane_census \<Rightarrow> bool" where
  "older_pending collate item lane \<longleftrightarrow>
     (case ln_oldestPendingAt lane of None \<Rightarrow> True
      | Some t \<Rightarrow> qi_createdAt item < t
          \<or> qi_createdAt item = t \<and> (case ln_oldestPendingKey lane of None \<Rightarrow> True | Some k \<Rightarrow> collate (qi_key item) k < 0))"

definition observe_pending :: "(string \<Rightarrow> string \<Rightarrow> int) \<Rightarrow> queue_state \<Rightarrow> int \<Rightarrow> queue_item \<Rightarrow> lane_census \<Rightarrow> lane_census" where
  "observe_pending collate st now item lane0 =
     (let lane1 = lane0\<lparr>ln_pending := ln_pending lane0 + 1\<rparr>;
          lane2 = (if older_pending collate item lane1
                   then lane1\<lparr>ln_oldestPendingAt := Some (qi_createdAt item), ln_oldestPendingKey := Some (qi_key item)\<rparr>
                   else lane1);
          lane = lane2\<lparr>ln_nextAttemptAt := min_seen (ln_nextAttemptAt lane2) (qi_nextAttemptAt item)\<rparr>
      in if qi_nextAttemptAt item \<le> now
         then lane\<lparr>ln_ready := ln_ready lane + 1, ln_oldestReadyAt := min_seen (ln_oldestReadyAt lane) (qi_createdAt item)\<rparr>
         else lane\<lparr>ln_backoff := ln_backoff lane + 1, ln_oldestBackoffAt := min_seen (ln_oldestBackoffAt lane) (qi_createdAt item),
                ln_backoffReasons := incrementExactReviewReason (exactReviewQueueBackoffReason item st now) (ln_backoffReasons lane)\<rparr>)"

definition observeExactReviewQueueLane ::
  "(string \<Rightarrow> string \<Rightarrow> int) \<Rightarrow> queue_state \<Rightarrow> int \<Rightarrow> bool \<Rightarrow> queue_item \<Rightarrow> lane_census \<Rightarrow> lane_census" where
  "observeExactReviewQueueLane collate st now staleRevisionHold item lane =
     (if staleRevisionHold
      then lane\<lparr>ln_parked := ln_parked lane + 1,
                ln_parkedReasons := incrementExactReviewReason StaleRevision (ln_parkedReasons lane)\<rparr>
      else case qi_state item of
             ItPending \<Rightarrow> observe_pending collate st now item lane
           | ItDispatching \<Rightarrow> lane\<lparr>ln_dispatching := ln_dispatching lane + 1\<rparr>
           | ItLeased \<Rightarrow> lane\<lparr>ln_leased := ln_leased lane + 1\<rparr>
           | ItParked \<Rightarrow> lane\<lparr>ln_parked := ln_parked lane + 1,
                ln_parkedReasons := incrementExactReviewReason
                  (case qi_parkedReason item of None \<Rightarrow> UnknownParked | Some r \<Rightarrow> ShownParked r) (ln_parkedReasons lane)\<rparr>)"

subsection \<open>The census of the queue\<close>

record phase_census =
  ph_count :: int
  ph_oldestAt :: "int option"
  ph_oldestKey :: "string option"

record target_census =
  tg_pending :: int
  tg_dispatching :: int
  tg_leased :: int
  tg_parked :: int
  tg_oldestPendingAt :: "int option"

record census =
  ce_items :: "queue_item list"
  ce_review :: lane_census
  ce_publication :: lane_census
  ce_all :: lane_census
  ce_activeReviews :: int
  ce_activeScheduledReviews :: int
  ce_activePublishers :: int
  ce_activeReviewWakeAt :: "int list"
  ce_activeScheduledReviewWakeAt :: "int list"
  ce_activePublisherWakeAt :: "int list"
  ce_activeTargetCounts :: "string \<rightharpoonup> int"
  ce_activeTargetWakeAt :: "string \<rightharpoonup> int"
  ce_activeWithoutLeaseOrExpired :: bool
  ce_dispatcherAdmissionPaused :: bool
  ce_pendingReviews :: "queue_item list"
  ce_pendingPublications :: "queue_item list"
  ce_readyReviews :: "queue_item list"
  ce_readyPublications :: "queue_item list"
  ce_parkedWakeCandidates :: "(int option \<times> int option) list"
  ce_parkedTerminalLastCheckedAt :: int
  ce_targetAppRetryAtByOwner :: "string \<rightharpoonup> int"
  ce_targets :: "string \<rightharpoonup> target_census"
  ce_handoffItemCount :: int
  ce_handoffPhases :: "item_state \<Rightarrow> phase_census"
  ce_reviewRecoveryReasons :: "recovery_reason \<Rightarrow> int"

text \<open>The options of the census; \<open>op_clock\<close> is \<open>Date.now()\<close>, read only when \<open>now\<close> is not a time.\<close>

record census_options =
  op_dispatchLeaseMs :: int
  op_executionLeaseMs :: int
  op_publicationDispatchLeaseMs :: int
  op_heartbeatGraceMs :: int
  op_excludedItemKeys :: "string set"
  op_staleRevisionItemKeys :: "string set"
  op_clock :: int

definition exactReviewQueueItemOrder :: "(string \<Rightarrow> string \<Rightarrow> int) \<Rightarrow> queue_item \<Rightarrow> queue_item \<Rightarrow> int" where
  "exactReviewQueueItemOrder collate a b = cmp_or (qi_createdAt a - qi_createdAt b) (collate (qi_key a) (qi_key b))"

definition validExactReviewTimestamp :: "int option \<Rightarrow> int option" where
  "validExactReviewTimestamp v =
     (case v of None \<Rightarrow> None | Some n \<Rightarrow> if n > 0 \<and> n \<le> 8640000000000000 then Some n else None)"

definition finiteExactReviewTimestamp :: "int option \<Rightarrow> int \<Rightarrow> int" where
  "finiteExactReviewTimestamp v fallback = (case validExactReviewTimestamp v of None \<Rightarrow> fallback | Some n \<Rightarrow> n)"

definition timestampAtOrBefore :: "int option \<Rightarrow> int \<Rightarrow> int option" where
  "timestampAtOrBefore v maximum =
     (case validExactReviewTimestamp v of None \<Rightarrow> None | Some n \<Rightarrow> if n \<le> maximum then Some n else None)"

definition newestExactReviewTimestamp :: "int option \<Rightarrow> int option \<Rightarrow> int option" where
  "newestExactReviewTimestamp a b =
     (case a of None \<Rightarrow> b | Some x \<Rightarrow> (case b of None \<Rightarrow> Some x | Some y \<Rightarrow> Some (max x y)))"

definition exactReviewHandoffPhaseStartedAt :: "queue_item \<Rightarrow> int \<Rightarrow> int \<Rightarrow> int \<Rightarrow> int" where
  "exactReviewHandoffPhaseStartedAt item now dispatchLeaseMs executionLeaseMs =
     (let lease = qi_lease item; leaseExpiresAt = validExactReviewTimestamp (le_leaseExpiresAt lease)
      in case qi_state item of
           ItDispatching \<Rightarrow>
             (case newestExactReviewTimestamp (validExactReviewTimestamp (le_dispatchedAt lease))
                     (Option.bind leaseExpiresAt (\<lambda>e. timestampAtOrBefore (Some (e - dispatchLeaseMs)) now)) of
                None \<Rightarrow> now | Some t \<Rightarrow> t)
         | ItLeased \<Rightarrow>
             (case newestExactReviewTimestamp (validExactReviewTimestamp (le_claimedAt lease))
                     (Option.bind leaseExpiresAt (\<lambda>e. validExactReviewTimestamp (Some (e - executionLeaseMs)))) of
                None \<Rightarrow> now | Some t \<Rightarrow> t)
         | _ \<Rightarrow> finiteExactReviewTimestamp (Some (qi_createdAt item))
                 (finiteExactReviewTimestamp (Some (qi_updatedAt item)) now))"

text \<open>\<open>/^[A-Za-z0-9_.-]+\/[A-Za-z0-9_.-]+$/\<close>\<close>

definition bay_target :: "string \<Rightarrow> bool" where
  "bay_target s \<longleftrightarrow>
     (let owner = takeWhile is_word_char s; rest = drop (length owner) s
      in owner \<noteq> [] \<and> (case rest of [] \<Rightarrow> False | c # name \<Rightarrow> c = CHR ''/'' \<and> name \<noteq> [] \<and> list_all is_word_char name))"

definition exactReviewQueueTargetRepository :: "queue_item \<Rightarrow> string option" where
  "exactReviewQueueTargetRepository item =
     (let repository = bd_targetRepo (qi_decision item) in if bay_target repository then Some repository else None)"

abbreviation active_item :: "queue_item \<Rightarrow> bool" where
  "active_item item \<equiv> qi_state item = ItDispatching \<or> qi_state item = ItLeased"

abbreviation is_publication :: "queue_item \<Rightarrow> bool" where
  "is_publication item \<equiv> exactReviewQueueIsPublication (qi_decision item)"

definition publishing_review_keys :: "queue_item list \<Rightarrow> string list" where
  "publishing_review_keys items =
     concat (map (\<lambda>item. case d_publication (qi_decision item) of
                None \<Rightarrow> []
              | Some p \<Rightarrow> if is_publication item \<and> qi_state item \<noteq> ItParked then [to_lower (px_itemKey p)] else []) items)"

definition deferred_shard_recovery :: "string list \<Rightarrow> queue_item \<Rightarrow> bool" where
  "deferred_shard_recovery publishing item \<longleftrightarrow>
     qi_state item = ItPending \<and> bd_sourceAction (qi_decision item) = FAILED_REVIEW_SHARD_RECOVERY_SOURCE_ACTION
     \<and> to_lower (qi_key item) \<in> set publishing"

definition stale_revision_hold :: "census_options \<Rightarrow> queue_item \<Rightarrow> bool" where
  "stale_revision_hold opts item \<longleftrightarrow>
     is_publication item \<and> qi_state item = ItPending \<and> qi_key item \<in> op_staleRevisionItemKeys opts"

definition empty_target :: target_census where
  "empty_target = \<lparr>tg_pending = 0, tg_dispatching = 0, tg_leased = 0, tg_parked = 0, tg_oldestPendingAt = None\<rparr>"

definition observe_target :: "census_options \<Rightarrow> queue_item \<Rightarrow> census \<Rightarrow> census" where
  "observe_target opts item ce =
     (case exactReviewQueueTargetRepository item of
        None \<Rightarrow> ce
      | Some repo \<Rightarrow>
          (let target = (case ce_targets ce repo of None \<Rightarrow> empty_target | Some t \<Rightarrow> t);
               target' =
                 (if qi_state item = ItPending \<and> \<not> stale_revision_hold opts item
                  then target\<lparr>tg_pending := tg_pending target + 1,
                              tg_oldestPendingAt := min_seen (tg_oldestPendingAt target) (qi_createdAt item)\<rparr>
                  else if qi_state item = ItDispatching then target\<lparr>tg_dispatching := tg_dispatching target + 1\<rparr>
                  else if qi_state item = ItLeased then target\<lparr>tg_leased := tg_leased target + 1\<rparr>
                  else target\<lparr>tg_parked := tg_parked target + 1\<rparr>)
           in ce\<lparr>ce_targets := (ce_targets ce)(repo \<mapsto> target')\<rparr>))"

text \<open>The items that may be admitted: pending, of a known target, neither excluded nor held.\<close>

definition admissible_pending :: "census_options \<Rightarrow> string list \<Rightarrow> queue_item \<Rightarrow> bool" where
  "admissible_pending opts publishing item \<longleftrightarrow>
     qi_state item = ItPending \<and> exactReviewQueueTargetRepository item \<noteq> None
     \<and> qi_key item \<notin> op_excludedItemKeys opts \<and> \<not> stale_revision_hold opts item
     \<and> \<not> deferred_shard_recovery publishing item"

definition observe_pending_lists :: "census_options \<Rightarrow> int \<Rightarrow> string list \<Rightarrow> queue_item \<Rightarrow> census \<Rightarrow> census" where
  "observe_pending_lists opts now publishing item ce =
     (if \<not> admissible_pending opts publishing item then ce
      else if is_publication item
      then ce\<lparr>ce_pendingPublications := ce_pendingPublications ce @ [item],
              ce_readyPublications := (if qi_nextAttemptAt item \<le> now then ce_readyPublications ce @ [item]
                                       else ce_readyPublications ce)\<rparr>
      else ce\<lparr>ce_pendingReviews := ce_pendingReviews ce @ [item],
              ce_readyReviews := (if qi_nextAttemptAt item \<le> now then ce_readyReviews ce @ [item] else ce_readyReviews ce)\<rparr>)"

definition observe_parked :: "queue_item \<Rightarrow> census \<Rightarrow> census" where
  "observe_parked item ce =
     (if qi_state item = ItParked
      then ce\<lparr>ce_parkedWakeCandidates :=
             ce_parkedWakeCandidates ce @ [(exactReviewParkedRecoveryAt item, exactReviewParkedTerminalCheckAt item)]\<rparr>
      else ce)"

definition observe_terminal_check :: "queue_item \<Rightarrow> census \<Rightarrow> census" where
  "observe_terminal_check item ce =
     ce\<lparr>ce_parkedTerminalLastCheckedAt := max (ce_parkedTerminalLastCheckedAt ce) (number_or_0 (qi_parkedTerminalCheckedAt item))\<rparr>"

text \<open>An active item: its slot, its target's slot and the time its lease runs out.\<close>

definition live_wake :: "int \<Rightarrow> int \<Rightarrow> int list" where
  "live_wake now leaseExpiresAt = (if leaseExpiresAt \<noteq> 0 \<and> leaseExpiresAt > now then [leaseExpiresAt] else [])"

definition observe_active_target :: "int \<Rightarrow> int \<Rightarrow> queue_item \<Rightarrow> census \<Rightarrow> census" where
  "observe_active_target now leaseExpiresAt item ce =
     (case exactReviewQueueTargetRepository item of
        None \<Rightarrow> ce
      | Some repo \<Rightarrow>
          ce\<lparr>ce_activeTargetCounts := (ce_activeTargetCounts ce)(repo \<mapsto> number_or_0 (ce_activeTargetCounts ce repo) + 1),
             ce_activeTargetWakeAt :=
               (if leaseExpiresAt > now
                then (ce_activeTargetWakeAt ce)(repo := min_seen (ce_activeTargetWakeAt ce repo) leaseExpiresAt)
                else ce_activeTargetWakeAt ce)\<rparr>)"

definition observe_active :: "census_options \<Rightarrow> int \<Rightarrow> queue_item \<Rightarrow> census \<Rightarrow> census" where
  "observe_active opts now item ce0 =
     (if \<not> active_item item then ce0
      else
        let leaseExpiresAt = exactReviewEffectiveLeaseExpiresAt item (op_publicationDispatchLeaseMs opts) (op_heartbeatGraceMs opts);
            wake = live_wake now leaseExpiresAt;
            ce = ce0\<lparr>ce_activeWithoutLeaseOrExpired :=
                        (ce_activeWithoutLeaseOrExpired ce0
                         \<or> \<not> num_truthy (le_leaseExpiresAt (qi_lease item)) \<or> leaseExpiresAt \<le> now)\<rparr>
        in if is_publication item
           then ce\<lparr>ce_activePublishers := ce_activePublishers ce + 1,
                   ce_activePublisherWakeAt := ce_activePublisherWakeAt ce @ wake\<rparr>
           else
             let scheduled = (exactReviewScheduledLane (leased_decision item) \<noteq> None);
                 ce' = ce\<lparr>ce_activeReviews := ce_activeReviews ce + 1,
                          ce_activeReviewWakeAt := ce_activeReviewWakeAt ce @ wake,
                          ce_activeScheduledReviews := ce_activeScheduledReviews ce + (if scheduled then 1 else 0),
                          ce_activeScheduledReviewWakeAt := ce_activeScheduledReviewWakeAt ce @ (if scheduled then wake else [])\<rparr>
             in observe_active_target now leaseExpiresAt item ce')"

definition older_phase :: "int \<Rightarrow> string option \<Rightarrow> phase_census \<Rightarrow> bool" where
  "older_phase startedAt key phase \<longleftrightarrow>
     (case ph_oldestAt phase of None \<Rightarrow> True
      | Some t \<Rightarrow> startedAt < t
          \<or> startedAt = t \<and> (case key of None \<Rightarrow> False
              | Some k \<Rightarrow> (case ph_oldestKey phase of None \<Rightarrow> True | Some k' \<Rightarrow> k < k')))"

definition observe_handoff :: "census_options \<Rightarrow> int \<Rightarrow> queue_item \<Rightarrow> census \<Rightarrow> census" where
  "observe_handoff opts now item ce =
     (if is_publication item \<or> qi_state item = ItParked then ce
      else
        let handoffNow = finiteExactReviewTimestamp (Some now) (op_clock opts);
            startedAt = exactReviewHandoffPhaseStartedAt item handoffNow
                          (max 1000 (op_dispatchLeaseMs opts)) (max 1000 (op_executionLeaseMs opts));
            key = (let k = js_trim (qi_key item) in if k = [] then None else Some k);
            phase0 = ce_handoffPhases ce (qi_state item);
            phase1 = phase0\<lparr>ph_count := ph_count phase0 + 1\<rparr>;
            phase = (if older_phase startedAt key phase1
                     then phase1\<lparr>ph_oldestAt := Some startedAt, ph_oldestKey := key\<rparr> else phase1)
        in ce\<lparr>ce_handoffItemCount := ce_handoffItemCount ce + 1,
              ce_reviewRecoveryReasons :=
                (case qi_reviewRecoveryReason item of None \<Rightarrow> ce_reviewRecoveryReasons ce
                 | Some r \<Rightarrow> incrementExactReviewReason r (ce_reviewRecoveryReasons ce)),
              ce_handoffPhases := (ce_handoffPhases ce)(qi_state item := phase)\<rparr>)"

definition observe_lanes ::
  "(string \<Rightarrow> string \<Rightarrow> int) \<Rightarrow> queue_state \<Rightarrow> census_options \<Rightarrow> int \<Rightarrow> queue_item \<Rightarrow> census \<Rightarrow> census" where
  "observe_lanes collate st opts now item ce =
     (let observe = observeExactReviewQueueLane collate st now (stale_revision_hold opts item) item
      in if is_publication item
         then ce\<lparr>ce_publication := observe (ce_publication ce), ce_all := observe (ce_all ce)\<rparr>
         else ce\<lparr>ce_review := observe (ce_review ce), ce_all := observe (ce_all ce)\<rparr>)"

definition observe_item ::
  "(string \<Rightarrow> string \<Rightarrow> int) \<Rightarrow> queue_state \<Rightarrow> census_options \<Rightarrow> int \<Rightarrow> string list \<Rightarrow> queue_item \<Rightarrow> census \<Rightarrow> census" where
  "observe_item collate st opts now publishing item ce =
     observe_handoff opts now item
       (observe_active opts now item
         (observe_terminal_check item
           (observe_parked item
             (observe_pending_lists opts now publishing item
               (observe_target opts item
                 (observe_lanes collate st opts now item ce))))))"

definition empty_census :: "queue_state \<Rightarrow> int \<Rightarrow> queue_item list \<Rightarrow> census" where
  "empty_census st now items =
     \<lparr>ce_items = items, ce_review = emptyExactReviewQueueLaneCensus, ce_publication = emptyExactReviewQueueLaneCensus,
      ce_all = emptyExactReviewQueueLaneCensus, ce_activeReviews = 0, ce_activeScheduledReviews = 0, ce_activePublishers = 0,
      ce_activeReviewWakeAt = [], ce_activeScheduledReviewWakeAt = [], ce_activePublisherWakeAt = [],
      ce_activeTargetCounts = Map.empty, ce_activeTargetWakeAt = Map.empty, ce_activeWithoutLeaseOrExpired = False,
      ce_dispatcherAdmissionPaused = (exactReviewDispatcherRetryAt (dispatcher_retry st) now \<noteq> None),
      ce_pendingReviews = [], ce_pendingPublications = [], ce_readyReviews = [], ce_readyPublications = [],
      ce_parkedWakeCandidates = [],
      ce_parkedTerminalLastCheckedAt = number_or_0 (Option.bind (qs_dispatcher st) qd_parkedTerminalCheckedAt),
      ce_targetAppRetryAtByOwner = exactReviewTargetAppRetryAtByOwner st now, ce_targets = Map.empty,
      ce_handoffItemCount = 0, ce_handoffPhases = (\<lambda>_. \<lparr>ph_count = 0, ph_oldestAt = None, ph_oldestKey = None\<rparr>),
      ce_reviewRecoveryReasons = (\<lambda>_. 0)\<rparr>"

definition buildExactReviewQueueCensus ::
  "(string \<Rightarrow> string \<Rightarrow> int) \<Rightarrow> queue_state \<Rightarrow> census_options \<Rightarrow> int \<Rightarrow> queue_item list \<Rightarrow> census" where
  "buildExactReviewQueueCensus collate st opts now items =
     (let ce = fold (observe_item collate st opts now (publishing_review_keys items)) items (empty_census st now items);
          order = js_sort (exactReviewQueueItemOrder collate)
      in ce\<lparr>ce_pendingReviews := order (ce_pendingReviews ce), ce_pendingPublications := order (ce_pendingPublications ce),
            ce_readyReviews := order (ce_readyReviews ce), ce_readyPublications := order (ce_readyPublications ce)\<rparr>)"

subsection \<open>Admission\<close>

text \<open>\<open>count >= capacity\<close>\<close>

definition reached :: "int \<Rightarrow> int option \<Rightarrow> bool" where
  "reached n capacity = (case capacity of None \<Rightarrow> False | Some c \<Rightarrow> n \<ge> c)"

definition exactReviewTargetAppRetryAt :: "census \<Rightarrow> string \<Rightarrow> int" where
  "exactReviewTargetAppRetryAt ce targetRepo =
     (if repo_owner targetRepo = [] then 0 else number_or_0 (ce_targetAppRetryAtByOwner ce (repo_owner targetRepo)))"

definition exactReviewPrioritizePublicationItems :: "queue_item list \<Rightarrow> string set \<Rightarrow> nat \<Rightarrow> queue_item list" where
  "exactReviewPrioritizePublicationItems items freshItemKeys freshReserve =
     (let fresh = filter (\<lambda>item. qi_key item \<in> freshItemKeys) items;
          historical = filter (\<lambda>item. qi_key item \<notin> freshItemKeys) items
      in if freshReserve = 0 \<or> fresh = [] \<or> historical = [] then items
         else take freshReserve fresh @ historical @ drop (length (take freshReserve fresh)) fresh)"

definition is_scheduled :: "queue_item \<Rightarrow> bool" where
  "is_scheduled item \<longleftrightarrow> exactReviewScheduledLane (qi_decision item) \<noteq> None"

abbreviation target_of :: "queue_item \<Rightarrow> string" where
  "target_of item \<equiv> bd_targetRepo (qi_decision item)"

text \<open>The review loop, over the slots, the active items of each target and the scheduled lane.\<close>

fun admit_reviews ::
  "census \<Rightarrow> int \<Rightarrow> int option \<Rightarrow> int option \<Rightarrow> int option \<Rightarrow> (string \<rightharpoonup> int) \<Rightarrow> int \<Rightarrow> int \<Rightarrow> queue_item list \<Rightarrow> queue_item list" where
  "admit_reviews ce now slots targetCapacity scheduledCapacity targets scheduled admitted [] = []"
| "admit_reviews ce now slots targetCapacity scheduledCapacity targets scheduled admitted (item # items) =
     (if reached admitted slots then []
      else if is_scheduled item \<and> reached scheduled scheduledCapacity
           \<or> exactReviewTargetAppRetryAt ce (target_of item) > now
           \<or> reached (number_or_0 (targets (target_of item))) targetCapacity
      then admit_reviews ce now slots targetCapacity scheduledCapacity targets scheduled admitted items
      else item # admit_reviews ce now slots targetCapacity scheduledCapacity
             (targets(target_of item \<mapsto> number_or_0 (targets (target_of item)) + 1))
             (scheduled + (if is_scheduled item then 1 else 0)) (admitted + 1) items)"

text \<open>\<open>publicationItem\<close>: the record path that a batch must not commit twice.\<close>

definition publication_path :: "queue_item \<Rightarrow> string" where
  "publication_path item = to_lower (target_of item) @ ''#'' @ nat_str (bd_itemNumber (qi_decision item))"

fun admit_publications :: "bool \<Rightarrow> bool \<Rightarrow> int option \<Rightarrow> int \<Rightarrow> string list \<Rightarrow> queue_item list \<Rightarrow> queue_item list" where
  "admit_publications blocked unique capacity active paths [] = []"
| "admit_publications blocked unique capacity active paths (item # items) =
     (if blocked \<and> qi_terminalFinalization item = None
         \<and> exactReviewQueueIsBatchablePublication (qi_decision item) (qi_terminalFinalization item \<noteq> None)
      then admit_publications blocked unique capacity active paths items
      else if reached active capacity then []
      else if unique \<and> List.member paths (publication_path item)
      then admit_publications blocked unique capacity active paths items
      else item # admit_publications blocked unique capacity (active + 1)
             (if unique then publication_path item # paths else paths) items)"

record admission_limits =
  al_capacity :: "int option"
  al_targetCapacity :: "int option"
  al_publicationCapacity :: "int option"
  al_publicationAdmissionBlocked :: bool
  al_uniquePublicationItems :: bool
  al_freshPublicationItemKeys :: "string set"
  al_freshPublicationReserve :: nat
  al_scheduledCapacity :: "int option"

text \<open>\<open>Math.max(0, capacity - activeReviews)\<close>\<close>

definition review_slots :: "admission_limits \<Rightarrow> census \<Rightarrow> int option" where
  "review_slots limits ce = map_option (\<lambda>c. max 0 (c - ce_activeReviews ce)) (al_capacity limits)"

definition exactReviewQueueAdmittedItemsFromCensus :: "census \<Rightarrow> int \<Rightarrow> admission_limits \<Rightarrow> queue_item list" where
  "exactReviewQueueAdmittedItemsFromCensus ce now limits =
     (if ce_dispatcherAdmissionPaused ce then []
      else
        admit_reviews ce now (review_slots limits ce) (al_targetCapacity limits) (al_scheduledCapacity limits)
          (ce_activeTargetCounts ce) (ce_activeScheduledReviews ce) 0 (ce_readyReviews ce)
        @ admit_publications (al_publicationAdmissionBlocked limits) (al_uniquePublicationItems limits)
            (al_publicationCapacity limits) (ce_activePublishers ce) []
            (exactReviewPrioritizePublicationItems (ce_readyPublications ce) (al_freshPublicationItemKeys limits)
               (al_freshPublicationReserve limits)))"

definition default_options :: "string set \<Rightarrow> int \<Rightarrow> census_options" where
  "default_options excluded clock =
     \<lparr>op_dispatchLeaseMs = DEFAULT_EXACT_REVIEW_DISPATCH_LEASE_MS, op_executionLeaseMs = DEFAULT_EXACT_REVIEW_EXECUTION_LEASE_MS,
      op_publicationDispatchLeaseMs = DEFAULT_EXACT_REVIEW_PUBLICATION_DISPATCH_LEASE_MS,
      op_heartbeatGraceMs = DEFAULT_EXACT_REVIEW_HEARTBEAT_GRACE_MS, op_excludedItemKeys = excluded,
      op_staleRevisionItemKeys = {}, op_clock = clock\<rparr>"

abbreviation queue_items :: "queue_state \<Rightarrow> queue_item list" where
  "queue_items st \<equiv> map snd (qs_items st)"

definition exactReviewQueueAdmittedItems ::
  "(string \<Rightarrow> string \<Rightarrow> int) \<Rightarrow> queue_state \<Rightarrow> int \<Rightarrow> string set \<Rightarrow> int \<Rightarrow> admission_limits \<Rightarrow> queue_item list" where
  "exactReviewQueueAdmittedItems collate st now excluded clock limits =
     (if exactReviewDispatcherRetryAt (dispatcher_retry st) now \<noteq> None then []
      else exactReviewQueueAdmittedItemsFromCensus
             (buildExactReviewQueueCensus collate st (default_options excluded clock) now (queue_items st)) now limits)"

subsection \<open>The next wake-up\<close>

text \<open>\<open>Math.min(...values)\<close> on a non-empty array; \<open>None\<close> for the \<open>null\<close> of an empty one.\<close>

definition least :: "int list \<Rightarrow> int option" where
  "least xs = (case xs of [] \<Rightarrow> None | y # ys \<Rightarrow> Some (foldl min y ys))"









subsection \<open>What the census holds\<close>

text \<open>
  Each step of the loop touches its own fields. The fields admission reads are followed through
  the loop; at its end they are counts and selections of the items.
\<close>

lemma census_lanes [simp]:
  "ce_activeReviews (observe_lanes collate st opts now item ce) = ce_activeReviews ce"
  "ce_activeScheduledReviews (observe_lanes collate st opts now item ce) = ce_activeScheduledReviews ce"
  "ce_activePublishers (observe_lanes collate st opts now item ce) = ce_activePublishers ce"
  "ce_activeReviewWakeAt (observe_lanes collate st opts now item ce) = ce_activeReviewWakeAt ce"
  "ce_activePublisherWakeAt (observe_lanes collate st opts now item ce) = ce_activePublisherWakeAt ce"
  "ce_activeTargetCounts (observe_lanes collate st opts now item ce) = ce_activeTargetCounts ce"
  "ce_activeWithoutLeaseOrExpired (observe_lanes collate st opts now item ce) = ce_activeWithoutLeaseOrExpired ce"
  "ce_dispatcherAdmissionPaused (observe_lanes collate st opts now item ce) = ce_dispatcherAdmissionPaused ce"
  "ce_pendingReviews (observe_lanes collate st opts now item ce) = ce_pendingReviews ce"
  "ce_pendingPublications (observe_lanes collate st opts now item ce) = ce_pendingPublications ce"
  "ce_readyReviews (observe_lanes collate st opts now item ce) = ce_readyReviews ce"
  "ce_readyPublications (observe_lanes collate st opts now item ce) = ce_readyPublications ce"
  "ce_parkedWakeCandidates (observe_lanes collate st opts now item ce) = ce_parkedWakeCandidates ce"
  "ce_targetAppRetryAtByOwner (observe_lanes collate st opts now item ce) = ce_targetAppRetryAtByOwner ce"
  "ce_items (observe_lanes collate st opts now item ce) = ce_items ce"
  by (simp_all add: observe_lanes_def Let_def)

lemma census_handoff [simp]:
  "ce_activeReviews (observe_handoff opts now item ce) = ce_activeReviews ce"
  "ce_activeScheduledReviews (observe_handoff opts now item ce) = ce_activeScheduledReviews ce"
  "ce_activePublishers (observe_handoff opts now item ce) = ce_activePublishers ce"
  "ce_activeReviewWakeAt (observe_handoff opts now item ce) = ce_activeReviewWakeAt ce"
  "ce_activePublisherWakeAt (observe_handoff opts now item ce) = ce_activePublisherWakeAt ce"
  "ce_activeTargetCounts (observe_handoff opts now item ce) = ce_activeTargetCounts ce"
  "ce_activeWithoutLeaseOrExpired (observe_handoff opts now item ce) = ce_activeWithoutLeaseOrExpired ce"
  "ce_dispatcherAdmissionPaused (observe_handoff opts now item ce) = ce_dispatcherAdmissionPaused ce"
  "ce_pendingReviews (observe_handoff opts now item ce) = ce_pendingReviews ce"
  "ce_pendingPublications (observe_handoff opts now item ce) = ce_pendingPublications ce"
  "ce_readyReviews (observe_handoff opts now item ce) = ce_readyReviews ce"
  "ce_readyPublications (observe_handoff opts now item ce) = ce_readyPublications ce"
  "ce_parkedWakeCandidates (observe_handoff opts now item ce) = ce_parkedWakeCandidates ce"
  "ce_targetAppRetryAtByOwner (observe_handoff opts now item ce) = ce_targetAppRetryAtByOwner ce"
  "ce_items (observe_handoff opts now item ce) = ce_items ce"
  by (simp_all add: observe_handoff_def Let_def)

lemma census_target [simp]:
  "ce_activeReviews (observe_target opts item ce) = ce_activeReviews ce"
  "ce_activeScheduledReviews (observe_target opts item ce) = ce_activeScheduledReviews ce"
  "ce_activePublishers (observe_target opts item ce) = ce_activePublishers ce"
  "ce_activeReviewWakeAt (observe_target opts item ce) = ce_activeReviewWakeAt ce"
  "ce_activePublisherWakeAt (observe_target opts item ce) = ce_activePublisherWakeAt ce"
  "ce_activeTargetCounts (observe_target opts item ce) = ce_activeTargetCounts ce"
  "ce_activeWithoutLeaseOrExpired (observe_target opts item ce) = ce_activeWithoutLeaseOrExpired ce"
  "ce_dispatcherAdmissionPaused (observe_target opts item ce) = ce_dispatcherAdmissionPaused ce"
  "ce_pendingReviews (observe_target opts item ce) = ce_pendingReviews ce"
  "ce_pendingPublications (observe_target opts item ce) = ce_pendingPublications ce"
  "ce_readyReviews (observe_target opts item ce) = ce_readyReviews ce"
  "ce_readyPublications (observe_target opts item ce) = ce_readyPublications ce"
  "ce_parkedWakeCandidates (observe_target opts item ce) = ce_parkedWakeCandidates ce"
  "ce_targetAppRetryAtByOwner (observe_target opts item ce) = ce_targetAppRetryAtByOwner ce"
  "ce_items (observe_target opts item ce) = ce_items ce"
  by (simp_all add: observe_target_def Let_def split: option.split)

lemma census_parked [simp]:
  "ce_activeReviews (observe_parked item ce) = ce_activeReviews ce"
  "ce_activeScheduledReviews (observe_parked item ce) = ce_activeScheduledReviews ce"
  "ce_activePublishers (observe_parked item ce) = ce_activePublishers ce"
  "ce_activeReviewWakeAt (observe_parked item ce) = ce_activeReviewWakeAt ce"
  "ce_activePublisherWakeAt (observe_parked item ce) = ce_activePublisherWakeAt ce"
  "ce_activeTargetCounts (observe_parked item ce) = ce_activeTargetCounts ce"
  "ce_activeWithoutLeaseOrExpired (observe_parked item ce) = ce_activeWithoutLeaseOrExpired ce"
  "ce_dispatcherAdmissionPaused (observe_parked item ce) = ce_dispatcherAdmissionPaused ce"
  "ce_pendingReviews (observe_parked item ce) = ce_pendingReviews ce"
  "ce_pendingPublications (observe_parked item ce) = ce_pendingPublications ce"
  "ce_readyReviews (observe_parked item ce) = ce_readyReviews ce"
  "ce_readyPublications (observe_parked item ce) = ce_readyPublications ce"
  "ce_parkedWakeCandidates (observe_parked item ce) = ce_parkedWakeCandidates ce
     @ (if qi_state item = ItParked then [(exactReviewParkedRecoveryAt item, exactReviewParkedTerminalCheckAt item)] else [])"
  "ce_targetAppRetryAtByOwner (observe_parked item ce) = ce_targetAppRetryAtByOwner ce"
  "ce_items (observe_parked item ce) = ce_items ce"
  by (simp_all add: observe_parked_def)

lemma census_terminal_check [simp]:
  "ce_activeReviews (observe_terminal_check item ce) = ce_activeReviews ce"
  "ce_activeScheduledReviews (observe_terminal_check item ce) = ce_activeScheduledReviews ce"
  "ce_activePublishers (observe_terminal_check item ce) = ce_activePublishers ce"
  "ce_activeReviewWakeAt (observe_terminal_check item ce) = ce_activeReviewWakeAt ce"
  "ce_activePublisherWakeAt (observe_terminal_check item ce) = ce_activePublisherWakeAt ce"
  "ce_activeTargetCounts (observe_terminal_check item ce) = ce_activeTargetCounts ce"
  "ce_activeWithoutLeaseOrExpired (observe_terminal_check item ce) = ce_activeWithoutLeaseOrExpired ce"
  "ce_dispatcherAdmissionPaused (observe_terminal_check item ce) = ce_dispatcherAdmissionPaused ce"
  "ce_pendingReviews (observe_terminal_check item ce) = ce_pendingReviews ce"
  "ce_pendingPublications (observe_terminal_check item ce) = ce_pendingPublications ce"
  "ce_readyReviews (observe_terminal_check item ce) = ce_readyReviews ce"
  "ce_readyPublications (observe_terminal_check item ce) = ce_readyPublications ce"
  "ce_parkedWakeCandidates (observe_terminal_check item ce) = ce_parkedWakeCandidates ce"
  "ce_targetAppRetryAtByOwner (observe_terminal_check item ce) = ce_targetAppRetryAtByOwner ce"
  "ce_items (observe_terminal_check item ce) = ce_items ce"
  by (simp_all add: observe_terminal_check_def)

lemma census_pending_lists [simp]:
  "ce_activeReviews (observe_pending_lists opts now ps item ce) = ce_activeReviews ce"
  "ce_activeScheduledReviews (observe_pending_lists opts now ps item ce) = ce_activeScheduledReviews ce"
  "ce_activePublishers (observe_pending_lists opts now ps item ce) = ce_activePublishers ce"
  "ce_activeReviewWakeAt (observe_pending_lists opts now ps item ce) = ce_activeReviewWakeAt ce"
  "ce_activePublisherWakeAt (observe_pending_lists opts now ps item ce) = ce_activePublisherWakeAt ce"
  "ce_activeTargetCounts (observe_pending_lists opts now ps item ce) = ce_activeTargetCounts ce"
  "ce_activeWithoutLeaseOrExpired (observe_pending_lists opts now ps item ce) = ce_activeWithoutLeaseOrExpired ce"
  "ce_dispatcherAdmissionPaused (observe_pending_lists opts now ps item ce) = ce_dispatcherAdmissionPaused ce"
  "ce_parkedWakeCandidates (observe_pending_lists opts now ps item ce) = ce_parkedWakeCandidates ce"
  "ce_targetAppRetryAtByOwner (observe_pending_lists opts now ps item ce) = ce_targetAppRetryAtByOwner ce"
  "ce_items (observe_pending_lists opts now ps item ce) = ce_items ce"
  "ce_pendingReviews (observe_pending_lists opts now ps item ce) =
     ce_pendingReviews ce @ filter (\<lambda>i. admissible_pending opts ps i \<and> \<not> is_publication i) [item]"
  "ce_pendingPublications (observe_pending_lists opts now ps item ce) =
     ce_pendingPublications ce @ filter (\<lambda>i. admissible_pending opts ps i \<and> is_publication i) [item]"
  "ce_readyReviews (observe_pending_lists opts now ps item ce) =
     ce_readyReviews ce @ filter (\<lambda>i. admissible_pending opts ps i \<and> \<not> is_publication i \<and> qi_nextAttemptAt i \<le> now) [item]"
  "ce_readyPublications (observe_pending_lists opts now ps item ce) =
     ce_readyPublications ce @ filter (\<lambda>i. admissible_pending opts ps i \<and> is_publication i \<and> qi_nextAttemptAt i \<le> now) [item]"
  by (simp_all add: observe_pending_lists_def)

text \<open>The slots an item holds, and when its lease ends.\<close>

abbreviation active_review :: "queue_item \<Rightarrow> bool" where
  "active_review item \<equiv> active_item item \<and> \<not> is_publication item"

abbreviation scheduled_owner :: "queue_item \<Rightarrow> bool" where
  "scheduled_owner item \<equiv> active_review item \<and> exactReviewScheduledLane (leased_decision item) \<noteq> None"

abbreviation lease_end :: "census_options \<Rightarrow> queue_item \<Rightarrow> int" where
  "lease_end opts item \<equiv>
     exactReviewEffectiveLeaseExpiresAt item (op_publicationDispatchLeaseMs opts) (op_heartbeatGraceMs opts)"

definition lease_over :: "census_options \<Rightarrow> int \<Rightarrow> queue_item \<Rightarrow> bool" where
  "lease_over opts now item \<longleftrightarrow>
     active_item item \<and> (\<not> num_truthy (le_leaseExpiresAt (qi_lease item)) \<or> lease_end opts item \<le> now)"

definition slots_of :: "string \<Rightarrow> queue_item list \<Rightarrow> int" where
  "slots_of repo items =
     int (length (filter (\<lambda>i. active_review i \<and> exactReviewQueueTargetRepository i = Some repo) items))"

lemma census_active_target [simp]:
  "ce_activeReviews (observe_active_target now t item ce) = ce_activeReviews ce"
  "ce_activeScheduledReviews (observe_active_target now t item ce) = ce_activeScheduledReviews ce"
  "ce_activePublishers (observe_active_target now t item ce) = ce_activePublishers ce"
  "ce_activeReviewWakeAt (observe_active_target now t item ce) = ce_activeReviewWakeAt ce"
  "ce_activePublisherWakeAt (observe_active_target now t item ce) = ce_activePublisherWakeAt ce"
  "number_or_0 (ce_activeTargetCounts (observe_active_target now t item ce) repo) =
     number_or_0 (ce_activeTargetCounts ce repo) + (if exactReviewQueueTargetRepository item = Some repo then 1 else 0)"
  "ce_activeWithoutLeaseOrExpired (observe_active_target now t item ce) = ce_activeWithoutLeaseOrExpired ce"
  "ce_dispatcherAdmissionPaused (observe_active_target now t item ce) = ce_dispatcherAdmissionPaused ce"
  "ce_pendingReviews (observe_active_target now t item ce) = ce_pendingReviews ce"
  "ce_pendingPublications (observe_active_target now t item ce) = ce_pendingPublications ce"
  "ce_readyReviews (observe_active_target now t item ce) = ce_readyReviews ce"
  "ce_readyPublications (observe_active_target now t item ce) = ce_readyPublications ce"
  "ce_parkedWakeCandidates (observe_active_target now t item ce) = ce_parkedWakeCandidates ce"
  "ce_targetAppRetryAtByOwner (observe_active_target now t item ce) = ce_targetAppRetryAtByOwner ce"
  "ce_items (observe_active_target now t item ce) = ce_items ce"
  by (simp_all add: observe_active_target_def split: option.split)

lemma census_active [simp]:
  "ce_activeReviews (observe_active opts now item ce) = ce_activeReviews ce + (if active_review item then 1 else 0)"
  "ce_activeScheduledReviews (observe_active opts now item ce) =
     ce_activeScheduledReviews ce + (if scheduled_owner item then 1 else 0)"
  "ce_activePublishers (observe_active opts now item ce) =
     ce_activePublishers ce + (if active_item item \<and> is_publication item then 1 else 0)"
  "ce_activeReviewWakeAt (observe_active opts now item ce) =
     ce_activeReviewWakeAt ce @ (if active_review item then live_wake now (lease_end opts item) else [])"
  "ce_activePublisherWakeAt (observe_active opts now item ce) =
     ce_activePublisherWakeAt ce @ (if active_item item \<and> is_publication item then live_wake now (lease_end opts item) else [])"
  "number_or_0 (ce_activeTargetCounts (observe_active opts now item ce) repo) =
     number_or_0 (ce_activeTargetCounts ce repo)
     + (if active_review item \<and> exactReviewQueueTargetRepository item = Some repo then 1 else 0)"
  "ce_activeWithoutLeaseOrExpired (observe_active opts now item ce) \<longleftrightarrow>
     ce_activeWithoutLeaseOrExpired ce \<or> lease_over opts now item"
  "ce_dispatcherAdmissionPaused (observe_active opts now item ce) = ce_dispatcherAdmissionPaused ce"
  "ce_pendingReviews (observe_active opts now item ce) = ce_pendingReviews ce"
  "ce_pendingPublications (observe_active opts now item ce) = ce_pendingPublications ce"
  "ce_readyReviews (observe_active opts now item ce) = ce_readyReviews ce"
  "ce_readyPublications (observe_active opts now item ce) = ce_readyPublications ce"
  "ce_parkedWakeCandidates (observe_active opts now item ce) = ce_parkedWakeCandidates ce"
  "ce_targetAppRetryAtByOwner (observe_active opts now item ce) = ce_targetAppRetryAtByOwner ce"
  "ce_items (observe_active opts now item ce) = ce_items ce"
  by (auto simp: observe_active_def lease_over_def Let_def)

text \<open>The whole loop.\<close>

lemma census_fold:
  assumes "ce = fold (observe_item collate st opts now ps) items ce0"
  shows "ce_activeReviews ce = ce_activeReviews ce0 + int (length (filter active_review items))"
    and "ce_activeScheduledReviews ce = ce_activeScheduledReviews ce0 + int (length (filter scheduled_owner items))"
    and "ce_activePublishers ce = ce_activePublishers ce0 + int (length (filter (\<lambda>i. active_item i \<and> is_publication i) items))"
    and "number_or_0 (ce_activeTargetCounts ce repo) = number_or_0 (ce_activeTargetCounts ce0 repo) + slots_of repo items"
    and "ce_activeWithoutLeaseOrExpired ce \<longleftrightarrow> ce_activeWithoutLeaseOrExpired ce0 \<or> (\<exists>i\<in>set items. lease_over opts now i)"
    and "ce_dispatcherAdmissionPaused ce = ce_dispatcherAdmissionPaused ce0"
    and "ce_targetAppRetryAtByOwner ce = ce_targetAppRetryAtByOwner ce0"
    and "ce_items ce = ce_items ce0"
    and "set (ce_activeReviewWakeAt ce) = set (ce_activeReviewWakeAt ce0)
           \<union> (\<Union>i\<in>{i\<in>set items. active_review i}. set (live_wake now (lease_end opts i)))"
    and "set (ce_activePublisherWakeAt ce) = set (ce_activePublisherWakeAt ce0)
           \<union> (\<Union>i\<in>{i\<in>set items. active_item i \<and> is_publication i}. set (live_wake now (lease_end opts i)))"
    and "set (ce_parkedWakeCandidates ce) = set (ce_parkedWakeCandidates ce0)
           \<union> (\<lambda>i. (exactReviewParkedRecoveryAt i, exactReviewParkedTerminalCheckAt i)) ` {i\<in>set items. qi_state i = ItParked}"
    and "ce_pendingReviews ce = ce_pendingReviews ce0
           @ filter (\<lambda>i. admissible_pending opts ps i \<and> \<not> is_publication i) items"
    and "ce_pendingPublications ce = ce_pendingPublications ce0
           @ filter (\<lambda>i. admissible_pending opts ps i \<and> is_publication i) items"
    and "ce_readyReviews ce = ce_readyReviews ce0
           @ filter (\<lambda>i. admissible_pending opts ps i \<and> \<not> is_publication i \<and> qi_nextAttemptAt i \<le> now) items"
    and "ce_readyPublications ce = ce_readyPublications ce0
           @ filter (\<lambda>i. admissible_pending opts ps i \<and> is_publication i \<and> qi_nextAttemptAt i \<le> now) items"
  unfolding assms by (induction items arbitrary: ce0) (auto simp: observe_item_def slots_of_def)

subsection \<open>The review loop\<close>

definition of_target :: "string \<Rightarrow> queue_item list \<Rightarrow> int" where
  "of_target repo items = int (length (filter (\<lambda>i. target_of i = repo) items))"

definition scheduled_in :: "queue_item list \<Rightarrow> int" where
  "scheduled_in items = int (length (filter is_scheduled items))"

lemma of_target_simps [simp]:
  "of_target repo [] = 0" "of_target repo (i # is) = (if target_of i = repo then 1 else 0) + of_target repo is"
  by (simp_all add: of_target_def)

lemma scheduled_in_simps [simp]:
  "scheduled_in [] = 0" "scheduled_in (i # is) = (if is_scheduled i then 1 else 0) + scheduled_in is"
  by (simp_all add: scheduled_in_def)

lemma of_target_nonneg [simp]: "0 \<le> of_target repo items" by (simp add: of_target_def)
lemma scheduled_in_nonneg [simp]: "0 \<le> scheduled_in items" by (simp add: scheduled_in_def)

lemma reached_simps [simp]: "\<not> reached n None" "reached n (Some c) \<longleftrightarrow> n \<ge> c"
  by (simp_all add: reached_def)

lemma reached_mono: "reached m c \<Longrightarrow> m \<le> n \<Longrightarrow> reached n c"
  by (cases c) auto

text \<open>Induction over the review loop: it stops, skips an item, or admits one.\<close>

lemma admit_reviews_rule:
  assumes finish: "\<And>T S n. R T S n [] []"
    and stop: "\<And>T S n i is. reached n slots \<Longrightarrow> R T S n (i # is) []"
    and skip: "\<And>T S n i is ys. \<not> reached n slots \<Longrightarrow>
        is_scheduled i \<and> reached S sc \<or> exactReviewTargetAppRetryAt ce (target_of i) > now \<or> reached (number_or_0 (T (target_of i))) tc \<Longrightarrow>
        R T S n is ys \<Longrightarrow> R T S n (i # is) ys"
    and take: "\<And>T S n i is ys. \<not> reached n slots \<Longrightarrow> \<not> (is_scheduled i \<and> reached S sc) \<Longrightarrow>
        exactReviewTargetAppRetryAt ce (target_of i) \<le> now \<Longrightarrow> \<not> reached (number_or_0 (T (target_of i))) tc \<Longrightarrow>
        R (T(target_of i \<mapsto> number_or_0 (T (target_of i)) + 1)) (S + (if is_scheduled i then 1 else 0)) (n + 1) is ys \<Longrightarrow>
        R T S n (i # is) (i # ys)"
  shows "R T S n items (admit_reviews ce now slots tc sc T S n items)"
proof (induction items arbitrary: T S n)
  case Nil
  show ?case by (simp add: finish)
next
  case (Cons i "is")
  show ?case
  proof (cases "reached n slots")
    case True
    then show ?thesis by (simp add: stop)
  next
    case False
    let ?skip = "is_scheduled i \<and> reached S sc \<or> exactReviewTargetAppRetryAt ce (target_of i) > now
      \<or> reached (number_or_0 (T (target_of i))) tc"
    show ?thesis
    proof (cases ?skip)
      case True
      then have "admit_reviews ce now slots tc sc T S n (i # is) = admit_reviews ce now slots tc sc T S n is"
        by (simp only: admit_reviews.simps if_not_P[OF False] if_True if_False)
      moreover have "R T S n (i # is) (admit_reviews ce now slots tc sc T S n is)"
        by (rule skip) (use False True Cons.IH in blast)+
      ultimately show ?thesis by simp
    next
      case no: False
      then have "admit_reviews ce now slots tc sc T S n (i # is) = i # admit_reviews ce now slots tc sc
          (T(target_of i \<mapsto> number_or_0 (T (target_of i)) + 1)) (S + (if is_scheduled i then 1 else 0)) (n + 1) is"
        by (simp only: admit_reviews.simps if_not_P[OF False] if_not_P[OF no] if_False)
      moreover have "R T S n (i # is) (i # admit_reviews ce now slots tc sc
          (T(target_of i \<mapsto> number_or_0 (T (target_of i)) + 1)) (S + (if is_scheduled i then 1 else 0)) (n + 1) is)"
        by (rule take) (use False no in \<open>auto simp: not_less intro: Cons.IH\<close>)
      ultimately show ?thesis by simp
    qed
  qed
qed

lemma admit_reviews_subset: "mset (admit_reviews ce now slots tc sc T S n items) \<subseteq># mset items"
  by (rule admit_reviews_rule[where R = "\<lambda>T S n items ys. mset ys \<subseteq># mset items"])
    (auto intro: subset_mset.order_trans)

lemma admit_reviews_slots:
  assumes "slots = Some s"
  shows "n + int (length (admit_reviews ce now slots tc sc T S n items)) \<le> max s n"
  by (rule admit_reviews_rule[where R = "\<lambda>T S n items ys. n + int (length ys) \<le> max s n"]) (use assms in auto)

lemma admit_reviews_target:
  assumes "tc = Some t"
  shows "number_or_0 (T repo) + of_target repo (admit_reviews ce now slots tc sc T S n items) \<le> max t (number_or_0 (T repo))"
  by (rule admit_reviews_rule[where R = "\<lambda>T S n items ys. number_or_0 (T repo) + of_target repo ys \<le> max t (number_or_0 (T repo))"])
    (use assms in \<open>auto split: if_splits\<close>)

lemma admit_reviews_scheduled:
  assumes "sc = Some c"
  shows "S + scheduled_in (admit_reviews ce now slots tc sc T S n items) \<le> max c S"
  by (rule admit_reviews_rule[where R = "\<lambda>T S n items ys. S + scheduled_in ys \<le> max c S"])
    (use assms in \<open>auto split: if_splits\<close>)

lemma admit_reviews_circuit:
  "\<forall>i\<in>set (admit_reviews ce now slots tc sc T S n items). exactReviewTargetAppRetryAt ce (target_of i) \<le> now"
  by (rule admit_reviews_rule[where R = "\<lambda>T S n items ys. \<forall>i\<in>set ys. exactReviewTargetAppRetryAt ce (target_of i) \<le> now"]) auto

text \<open>A review that is left out was in front of a limit that the loop leaves full.\<close>

definition blocked_by_limits ::
  "census \<Rightarrow> int \<Rightarrow> int option \<Rightarrow> int option \<Rightarrow> int option \<Rightarrow> (string \<rightharpoonup> int) \<Rightarrow> int \<Rightarrow> int \<Rightarrow> queue_item list \<Rightarrow> queue_item \<Rightarrow> bool" where
  "blocked_by_limits ce now slots tc sc T S n ys i \<longleftrightarrow>
     reached (n + int (length ys)) slots \<or> is_scheduled i \<and> reached (S + scheduled_in ys) sc
     \<or> exactReviewTargetAppRetryAt ce (target_of i) > now
     \<or> reached (number_or_0 (T (target_of i)) + of_target (target_of i) ys) tc"

lemma blocked_take:
  assumes "blocked_by_limits ce now slots tc sc (T(r \<mapsto> number_or_0 (T r) + 1)) (S + (if is_scheduled j then 1 else 0)) (n + 1) ys i"
    and "r = target_of j"
  shows "blocked_by_limits ce now slots tc sc T S n (j # ys) i"
  using assms by (auto simp: blocked_by_limits_def algebra_simps split: if_splits)

lemma admit_reviews_left_out:
  "\<forall>i\<in>set items - set (admit_reviews ce now slots tc sc T S n items).
     blocked_by_limits ce now slots tc sc T S n (admit_reviews ce now slots tc sc T S n items) i"
proof (rule admit_reviews_rule[where R = "\<lambda>T S n items ys. \<forall>i\<in>set items - set ys. blocked_by_limits ce now slots tc sc T S n ys i"])
  fix T :: "string \<rightharpoonup> int" and S n i "is" ys
  assume "is_scheduled i \<and> reached S sc \<or> exactReviewTargetAppRetryAt ce (target_of i) > now \<or> reached (number_or_0 (T (target_of i))) tc"
    and IH: "\<forall>i\<in>set is - set ys. blocked_by_limits ce now slots tc sc T S n ys i"
  then have "blocked_by_limits ce now slots tc sc T S n ys i"
    by (auto simp: blocked_by_limits_def intro: reached_mono)
  with IH show "\<forall>j\<in>set (i # is) - set ys. blocked_by_limits ce now slots tc sc T S n ys j" by auto
next
  fix T :: "string \<rightharpoonup> int" and S n i "is" ys
  assume "\<forall>j\<in>set is - set ys. blocked_by_limits ce now slots tc sc (T(target_of i \<mapsto> number_or_0 (T (target_of i)) + 1))
    (S + (if is_scheduled i then 1 else 0)) (n + 1) ys j"
  then show "\<forall>j\<in>set (i # is) - set (i # ys). blocked_by_limits ce now slots tc sc T S n (i # ys) j"
    using blocked_take[OF _ refl] by fastforce
qed (simp_all add: blocked_by_limits_def)


text \<open>Once a limit stops a review, it stops every later one of the same target and lane.\<close>

definition same_class :: "queue_item \<Rightarrow> queue_item \<Rightarrow> bool" where
  "same_class a b \<longleftrightarrow> target_of a = target_of b \<and> is_scheduled a = is_scheduled b"

definition at_limit :: "census \<Rightarrow> int \<Rightarrow> int option \<Rightarrow> int option \<Rightarrow> (string \<rightharpoonup> int) \<Rightarrow> int \<Rightarrow> queue_item \<Rightarrow> bool" where
  "at_limit ce now tc sc T S i \<longleftrightarrow>
     is_scheduled i \<and> reached S sc \<or> exactReviewTargetAppRetryAt ce (target_of i) > now \<or> reached (number_or_0 (T (target_of i))) tc"

lemma at_limit_mono:
  "at_limit ce now tc sc T S i \<Longrightarrow> at_limit ce now tc sc (T(r \<mapsto> number_or_0 (T r) + 1)) (S + (if b then 1 else 0)) i"
  by (auto simp: at_limit_def intro: reached_mono)

lemma at_limit_class: "same_class i j \<Longrightarrow> at_limit ce now tc sc T S i = at_limit ce now tc sc T S j"
  by (simp add: same_class_def at_limit_def)

abbreviation older_first :: "queue_item list \<Rightarrow> queue_item list \<Rightarrow> bool" where
  "older_first items ys \<equiv>
     \<forall>a\<in>set items. \<forall>b\<in>set ys. qi_createdAt a < qi_createdAt b \<longrightarrow> same_class a b \<longrightarrow> a \<in> set ys"

lemma admit_reviews_fifo:
  assumes "sorted_wrt (\<lambda>a b. qi_createdAt a \<le> qi_createdAt b) items"
  shows "older_first items (admit_reviews ce now slots tc sc T S n items)"
proof -
  let ?R = "\<lambda>T S n items ys.
    (\<forall>a. at_limit ce now tc sc T S a \<longrightarrow> (\<forall>b\<in>set ys. \<not> same_class a b))
    \<and> set ys \<subseteq> set items
    \<and> (sorted_wrt (\<lambda>a b. qi_createdAt a \<le> qi_createdAt b) items \<longrightarrow> older_first items ys)"
  have "?R T S n items (admit_reviews ce now slots tc sc T S n items)"
  proof (rule admit_reviews_rule[where R = ?R])
    fix T :: "string \<rightharpoonup> int" and S n i "is" ys
    assume "is_scheduled i \<and> reached S sc \<or> exactReviewTargetAppRetryAt ce (target_of i) > now \<or> reached (number_or_0 (T (target_of i))) tc"
      and R: "?R T S n is ys"
    then have "\<forall>b\<in>set ys. \<not> same_class i b" by (auto simp: at_limit_def)
    with R show "?R T S n (i # is) ys" by auto
  next
    fix T :: "string \<rightharpoonup> int" and S n i "is" ys
    assume free: "\<not> (is_scheduled i \<and> reached S sc)" "exactReviewTargetAppRetryAt ce (target_of i) \<le> now"
        "\<not> reached (number_or_0 (T (target_of i))) tc"
      and R: "?R (T(target_of i \<mapsto> number_or_0 (T (target_of i)) + 1)) (S + (if is_scheduled i then 1 else 0)) (n + 1) is ys"
    from free have no: "\<not> at_limit ce now tc sc T S i" by (simp add: at_limit_def)
    from R no have "\<forall>a. at_limit ce now tc sc T S a \<longrightarrow> (\<forall>b\<in>set (i # ys). \<not> same_class a b)"
      by (auto dest: at_limit_mono at_limit_class)
    moreover have "older_first (i # is) (i # ys)" if "sorted_wrt (\<lambda>a b. qi_createdAt a \<le> qi_createdAt b) (i # is)"
      using R that by fastforce
    ultimately show "?R T S n (i # is) (i # ys)" using R by auto
  qed auto
  with assms show ?thesis by blast
qed

subsection \<open>Publication admission\<close>

lemma admit_publications_subset: "mset (admit_publications blocked unique cap active paths items) \<subseteq># mset items"
  by (induction blocked unique cap active paths items rule: admit_publications.induct)
    (auto intro: subset_mset.order_trans)

lemma admit_publications_cap:
  assumes "cap = Some c"
  shows "active + int (length (admit_publications blocked unique cap active paths items)) \<le> max c active"
  using assms by (induction blocked unique cap active paths items rule: admit_publications.induct) auto

lemma admit_publications_paths:
  "distinct (map publication_path (admit_publications blocked True cap active paths items))
   \<and> (\<forall>i\<in>set (admit_publications blocked True cap active paths items). publication_path i \<notin> set paths)"
proof (induction items arbitrary: active paths)
  case (Cons i "is")
  show ?case
  proof (cases "blocked \<and> qi_terminalFinalization i = None
      \<and> exactReviewQueueIsBatchablePublication (qi_decision i) (qi_terminalFinalization i \<noteq> None)")
    case True
    show ?thesis unfolding admit_publications.simps if_P[OF True] by (rule Cons)
  next
    case False
    show ?thesis unfolding admit_publications.simps if_not_P[OF False]
      using Cons[of active paths] Cons[of "active + 1" "publication_path i # paths"] by auto
  qed
qed simp

lemma admit_publications_blocked:
  assumes "i \<in> set (admit_publications True unique cap active paths items)"
  shows "qi_terminalFinalization i \<noteq> None \<or> \<not> exactReviewQueueIsBatchablePublication (qi_decision i) False"
  using assms by (induction True unique cap active paths items rule: admit_publications.induct) (auto split: if_splits)

lemma mset_prioritized [simp]: "mset (exactReviewPrioritizePublicationItems items fresh reserve) = mset items"
proof -
  have "mset (take n xs) + mset (drop n xs) = mset xs" for n and xs :: "queue_item list"
    by (metis append_take_drop_id mset_append)
  then show ?thesis
    by (auto simp: exactReviewPrioritizePublicationItems_def Let_def add.commute add.left_commute min_def)
qed


subsection \<open>The admitted items\<close>

definition eligible :: "census_options \<Rightarrow> int \<Rightarrow> queue_item list \<Rightarrow> queue_item \<Rightarrow> bool" where
  "eligible opts now items i \<longleftrightarrow> admissible_pending opts (publishing_review_keys items) i \<and> qi_nextAttemptAt i \<le> now"

lemma empty_census_simps [simp]:
  "ce_activeReviews (empty_census st now items) = 0" "ce_activeScheduledReviews (empty_census st now items) = 0"
  "ce_activePublishers (empty_census st now items) = 0" "ce_activeTargetCounts (empty_census st now items) = Map.empty"
  "\<not> ce_activeWithoutLeaseOrExpired (empty_census st now items)"
  "ce_dispatcherAdmissionPaused (empty_census st now items) \<longleftrightarrow> exactReviewDispatcherRetryAt (dispatcher_retry st) now \<noteq> None"
  "ce_targetAppRetryAtByOwner (empty_census st now items) = exactReviewTargetAppRetryAtByOwner st now"
  "ce_items (empty_census st now items) = items" "ce_activeReviewWakeAt (empty_census st now items) = []"
  "ce_activePublisherWakeAt (empty_census st now items) = []" "ce_parkedWakeCandidates (empty_census st now items) = []"
  "ce_pendingReviews (empty_census st now items) = []" "ce_pendingPublications (empty_census st now items) = []"
  "ce_readyReviews (empty_census st now items) = []" "ce_readyPublications (empty_census st now items) = []"
  by (simp_all add: empty_census_def)

lemma census_facts:
  fixes items :: "queue_item list"
  assumes "ce = buildExactReviewQueueCensus collate st opts now items"
  shows "ce_activeReviews ce = int (length (filter active_review items))"
    and "ce_activeScheduledReviews ce = int (length (filter scheduled_owner items))"
    and "ce_activePublishers ce = int (length (filter (\<lambda>i. active_item i \<and> is_publication i) items))"
    and "number_or_0 (ce_activeTargetCounts ce repo) = slots_of repo items"
    and "ce_activeWithoutLeaseOrExpired ce \<longleftrightarrow> (\<exists>i\<in>set items. lease_over opts now i)"
    and "ce_dispatcherAdmissionPaused ce \<longleftrightarrow> exactReviewDispatcherRetryAt (dispatcher_retry st) now \<noteq> None"
    and "ce_targetAppRetryAtByOwner ce = exactReviewTargetAppRetryAtByOwner st now"
    and "ce_items ce = items"
    and "set (ce_activeReviewWakeAt ce) = (\<Union>i\<in>{i\<in>set items. active_review i}. set (live_wake now (lease_end opts i)))"
    and "set (ce_activePublisherWakeAt ce) =
           (\<Union>i\<in>{i\<in>set items. active_item i \<and> is_publication i}. set (live_wake now (lease_end opts i)))"
    and "set (ce_parkedWakeCandidates ce) =
           (\<lambda>i. (exactReviewParkedRecoveryAt i, exactReviewParkedTerminalCheckAt i)) ` {i\<in>set items. qi_state i = ItParked}"
    and "set (ce_pendingReviews ce) = {i\<in>set items. admissible_pending opts (publishing_review_keys items) i \<and> \<not> is_publication i}"
    and "set (ce_pendingPublications ce) = {i\<in>set items. admissible_pending opts (publishing_review_keys items) i \<and> is_publication i}"
    and "ce_readyReviews ce = js_sort (exactReviewQueueItemOrder collate) (filter (\<lambda>i. eligible opts now items i \<and> \<not> is_publication i) items)"
    and "ce_readyPublications ce = js_sort (exactReviewQueueItemOrder collate) (filter (\<lambda>i. eligible opts now items i \<and> is_publication i) items)"
proof -
  note fold = census_fold[OF refl, of collate st opts now "publishing_review_keys items" items "empty_census st now items"]
  have eq: "(\<lambda>i. admissible_pending opts (publishing_review_keys items) i \<and> P i \<and> qi_nextAttemptAt i \<le> now) =
    (\<lambda>i. eligible opts now items i \<and> P i)" for P by (auto simp: eligible_def)
  show "ce_activeReviews ce = int (length (filter active_review items))"
    "ce_activeScheduledReviews ce = int (length (filter scheduled_owner items))"
    "ce_activePublishers ce = int (length (filter (\<lambda>i. active_item i \<and> is_publication i) items))"
    "number_or_0 (ce_activeTargetCounts ce repo) = slots_of repo items"
    "ce_activeWithoutLeaseOrExpired ce \<longleftrightarrow> (\<exists>i\<in>set items. lease_over opts now i)"
    "ce_dispatcherAdmissionPaused ce \<longleftrightarrow> exactReviewDispatcherRetryAt (dispatcher_retry st) now \<noteq> None"
    "ce_targetAppRetryAtByOwner ce = exactReviewTargetAppRetryAtByOwner st now"
    "ce_items ce = items"
    "set (ce_activeReviewWakeAt ce) = (\<Union>i\<in>{i\<in>set items. active_review i}. set (live_wake now (lease_end opts i)))"
    "set (ce_activePublisherWakeAt ce) =
       (\<Union>i\<in>{i\<in>set items. active_item i \<and> is_publication i}. set (live_wake now (lease_end opts i)))"
    "set (ce_parkedWakeCandidates ce) =
       (\<lambda>i. (exactReviewParkedRecoveryAt i, exactReviewParkedTerminalCheckAt i)) ` {i\<in>set items. qi_state i = ItParked}"
    "set (ce_pendingReviews ce) = {i\<in>set items. admissible_pending opts (publishing_review_keys items) i \<and> \<not> is_publication i}"
    "set (ce_pendingPublications ce) = {i\<in>set items. admissible_pending opts (publishing_review_keys items) i \<and> is_publication i}"
    "ce_readyReviews ce = js_sort (exactReviewQueueItemOrder collate) (filter (\<lambda>i. eligible opts now items i \<and> \<not> is_publication i) items)"
    "ce_readyPublications ce = js_sort (exactReviewQueueItemOrder collate) (filter (\<lambda>i. eligible opts now items i \<and> is_publication i) items)"
    unfolding assms by (simp_all add: buildExactReviewQueueCensus_def Let_def fold eq)
qed

lemma js_comparator_item_order:
  assumes "js_comparator collate"
  shows "js_comparator (exactReviewQueueItemOrder collate)"
proof -
  note key = js_comparator.cmp_total[OF assms] js_comparator.cmp_trans[OF assms]
  show ?thesis
  proof (rule js_comparator.intro)
    show "exactReviewQueueItemOrder collate x y \<le> 0 \<or> exactReviewQueueItemOrder collate y x \<le> 0" for x y
      using key(1)[of "qi_key x" "qi_key y"] by (auto simp: exactReviewQueueItemOrder_def cmp_or_le_iff)
    show "exactReviewQueueItemOrder collate x z \<le> 0"
      if "exactReviewQueueItemOrder collate x y \<le> 0" "exactReviewQueueItemOrder collate y z \<le> 0" for x y z
      using that key(2)[of "qi_key x" "qi_key y" "qi_key z"] by (auto simp: exactReviewQueueItemOrder_def cmp_or_le_iff)
  qed
qed

lemma ready_sorted:
  assumes "js_comparator collate"
  shows "sorted_wrt (\<lambda>a b. qi_createdAt a \<le> qi_createdAt b) (js_sort (exactReviewQueueItemOrder collate) items)"
  by (rule sorted_wrt_mono_rel[OF _ js_comparator.sorted_js_sort[OF js_comparator_item_order[OF assms]]])
    (auto simp: exactReviewQueueItemOrder_def cmp_or_le_iff)


text \<open>The circuit map of the census answers as the direct fold over the circuits does.\<close>

lemma circuits_agree:
  assumes "owner \<noteq> []"
  shows "number_or_0 (fold (note_circuit now) cs m owner) =
    fold (\<lambda>c retryAt. if cc_scope c = TargetApp \<and> cc_targetOwner c = Some owner \<and> cc_retryAt c > now
                      then max retryAt (cc_retryAt c) else retryAt) cs (number_or_0 (m owner))"
  using assms
proof (induction cs arbitrary: m)
  case (Cons c cs)
  show ?case
  proof (cases "cc_targetOwner c = Some owner")
    case True
    with Cons.prems have "truthy (cc_targetOwner c)" by simp
    with Cons True show ?thesis by (auto simp: note_circuit_def max_def)
  next
    case False
    then have "note_circuit now c m owner = m owner" by (cases "cc_targetOwner c") (auto simp: note_circuit_def)
    with Cons False show ?thesis by simp
  qed
qed simp

lemma owner_nonempty:
  assumes "exactReviewQueueTargetRepository i \<noteq> None"
  shows "repo_owner (target_of i) \<noteq> []"
proof -
  from assms have "takeWhile is_word_char (target_of i) \<noteq> []"
    by (auto simp: exactReviewQueueTargetRepository_def bay_target_def Let_def split: if_splits)
  then obtain c cs where "target_of i = c # cs" "is_word_char c" by (cases "target_of i") (auto split: if_splits)
  moreover have "\<not> is_word_char (CHR ''/'')" by (simp add: is_word_char_def is_dec_def)
  ultimately show ?thesis by (auto simp: repo_owner_def to_lower_def)
qed

lemma census_circuit:
  assumes "ce_targetAppRetryAtByOwner ce = exactReviewTargetAppRetryAtByOwner st now" "exactReviewQueueTargetRepository i \<noteq> None"
  shows "exactReviewTargetAppRetryAt ce (target_of i) = exactReviewGithubTargetAppCircuitRetryAt st (target_of i) now"
  using circuits_agree[OF owner_nonempty[OF assms(2)], of now "exactReviewGithubCredentialCircuits st" Map.empty] owner_nonempty[OF assms(2)]
  by (simp add: exactReviewTargetAppRetryAt_def assms(1) exactReviewTargetAppRetryAtByOwner_def
      exactReviewGithubTargetAppCircuitRetryAt_def)

text \<open>The two halves of an admission, by the census of the queue.\<close>

definition admitted_reviews :: "census \<Rightarrow> int \<Rightarrow> admission_limits \<Rightarrow> queue_item list" where
  "admitted_reviews ce now limits =
     admit_reviews ce now (review_slots limits ce) (al_targetCapacity limits) (al_scheduledCapacity limits)
       (ce_activeTargetCounts ce) (ce_activeScheduledReviews ce) 0 (ce_readyReviews ce)"

definition admitted_publications :: "census \<Rightarrow> admission_limits \<Rightarrow> queue_item list" where
  "admitted_publications ce limits =
     admit_publications (al_publicationAdmissionBlocked limits) (al_uniquePublicationItems limits)
       (al_publicationCapacity limits) (ce_activePublishers ce) []
       (exactReviewPrioritizePublicationItems (ce_readyPublications ce) (al_freshPublicationItemKeys limits)
          (al_freshPublicationReserve limits))"

definition admission_census :: "(string \<Rightarrow> string \<Rightarrow> int) \<Rightarrow> queue_state \<Rightarrow> int \<Rightarrow> string set \<Rightarrow> int \<Rightarrow> census" where
  "admission_census collate st now excluded clock =
     buildExactReviewQueueCensus collate st (default_options excluded clock) now (queue_items st)"

lemmas admission_facts = census_facts[OF admission_census_def]

lemma admitted_split:
  "exactReviewQueueAdmittedItems collate st now excluded clock limits =
     (if exactReviewDispatcherRetryAt (dispatcher_retry st) now \<noteq> None then []
      else admitted_reviews (admission_census collate st now excluded clock) now limits
           @ admitted_publications (admission_census collate st now excluded clock) limits)"
  using admission_facts(6)[of collate st now excluded clock]
  by (simp add: exactReviewQueueAdmittedItems_def exactReviewQueueAdmittedItemsFromCensus_def
      admitted_reviews_def admitted_publications_def admission_census_def)

lemma admitted_reviews_sub:
  "mset (admitted_reviews (admission_census collate st now excluded clock) now limits)
     \<subseteq># mset (filter (\<lambda>i. eligible (default_options excluded clock) now (queue_items st) i \<and> \<not> is_publication i) (queue_items st))"
  unfolding admitted_reviews_def
  by (rule subset_mset.order_trans[OF admit_reviews_subset]) (simp add: admission_facts(14))

lemma admitted_publications_sub:
  "mset (admitted_publications (admission_census collate st now excluded clock) limits)
     \<subseteq># mset (filter (\<lambda>i. eligible (default_options excluded clock) now (queue_items st) i \<and> is_publication i) (queue_items st))"
  unfolding admitted_publications_def
  by (rule subset_mset.order_trans[OF admit_publications_subset]) (simp add: admission_facts(15))

lemma admitted_kinds:
  "i \<in> set (admitted_reviews (admission_census collate st now excluded clock) now limits) \<Longrightarrow>
     \<not> is_publication i \<and> eligible (default_options excluded clock) now (queue_items st) i"
  "i \<in> set (admitted_publications (admission_census collate st now excluded clock) limits) \<Longrightarrow> is_publication i"
  using mset_subset_eqD[OF admitted_reviews_sub, of i] mset_subset_eqD[OF admitted_publications_sub, of i] by auto

lemma filter_admitted [simp]:
  "filter (\<lambda>i. \<not> is_publication i) (admitted_reviews (admission_census collate st now excluded clock) now limits) =
     admitted_reviews (admission_census collate st now excluded clock) now limits"
  "filter is_publication (admitted_reviews (admission_census collate st now excluded clock) now limits) = []"
  "filter (\<lambda>i. \<not> is_publication i) (admitted_publications (admission_census collate st now excluded clock) limits) = []"
  "filter is_publication (admitted_publications (admission_census collate st now excluded clock) limits) =
     admitted_publications (admission_census collate st now excluded clock) limits"
  using admitted_kinds by (auto simp: filter_id_conv filter_empty_conv)

text \<open>
  C14. Admission stays inside every limit, whatever the queue holds: the admitted items are ready
  items of the queue, each once; together with the running work they fill at most the review
  capacity, the capacity of each target, the scheduled lane and the publication capacity (running
  work above a limit admits nothing more); and no review goes to an owner whose circuit is open.
\<close>

theorem admission_within_limits:
  assumes "adm = exactReviewQueueAdmittedItems collate st now excluded clock limits" and "items = queue_items st"
    and "al_capacity limits = Some cap" "al_targetCapacity limits = Some tcap"
    and "al_publicationCapacity limits = Some pcap" "al_scheduledCapacity limits = Some scap"
  shows "mset adm \<subseteq># mset (filter (eligible (default_options excluded clock) now items) items)
    \<and> int (length (filter active_review items)) + int (length (filter (\<lambda>i. \<not> is_publication i) adm))
        \<le> max cap (int (length (filter active_review items)))
    \<and> slots_of repo items + of_target repo (filter (\<lambda>i. \<not> is_publication i) adm) \<le> max tcap (slots_of repo items)
    \<and> int (length (filter scheduled_owner items)) + scheduled_in (filter (\<lambda>i. \<not> is_publication i) adm)
        \<le> max scap (int (length (filter scheduled_owner items)))
    \<and> int (length (filter (\<lambda>i. active_item i \<and> is_publication i) items)) + int (length (filter is_publication adm))
        \<le> max pcap (int (length (filter (\<lambda>i. active_item i \<and> is_publication i) items)))
    \<and> (\<forall>i\<in>set adm. is_publication i \<or> exactReviewGithubTargetAppCircuitRetryAt st (target_of i) now \<le> now)"
proof (cases "exactReviewDispatcherRetryAt (dispatcher_retry st) now = None")
  case False
  then have "adm = []" by (simp add: assms(1) admitted_split)
  then show ?thesis by simp
next
  case True
  let ?ce = "admission_census collate st now excluded clock"
  let ?R = "admitted_reviews ?ce now limits" and ?P = "admitted_publications ?ce limits"
  note facts = admission_facts[of collate st now excluded clock, folded assms(2)]
  from True have adm: "adm = ?R @ ?P" and R: "filter (\<lambda>i. \<not> is_publication i) adm = ?R" and P: "filter is_publication adm = ?P"
    by (simp_all add: assms(1) admitted_split)
  have split: "mset (filter E xs) = mset (filter (\<lambda>i. E i \<and> \<not> is_publication i) xs) + mset (filter (\<lambda>i. E i \<and> is_publication i) xs)"
    for E and xs :: "queue_item list" by (induction xs) auto
  have "mset adm \<subseteq># mset (filter (eligible (default_options excluded clock) now items) items)"
    unfolding adm mset_append assms(2) by (subst split) (intro subset_mset.add_mono admitted_reviews_sub admitted_publications_sub)
  moreover have "int (length (filter active_review items)) + int (length ?R) \<le> max cap (int (length (filter active_review items)))"
    using admit_reviews_slots[of "review_slots limits ?ce" "max 0 (cap - ce_activeReviews ?ce)" 0 ?ce now]
    by (simp add: admitted_reviews_def review_slots_def assms(3) facts(1)) (smt (verit))
  moreover have "slots_of repo items + of_target repo ?R \<le> max tcap (slots_of repo items)"
    using admit_reviews_target[OF assms(4), of "ce_activeTargetCounts ?ce" repo] by (simp add: admitted_reviews_def facts(4))
  moreover have "int (length (filter scheduled_owner items)) + scheduled_in ?R \<le> max scap (int (length (filter scheduled_owner items)))"
    using admit_reviews_scheduled[OF assms(6), of "ce_activeScheduledReviews ?ce"] by (simp add: admitted_reviews_def facts(2))
  moreover have "int (length (filter (\<lambda>i. active_item i \<and> is_publication i) items)) + int (length ?P)
      \<le> max pcap (int (length (filter (\<lambda>i. active_item i \<and> is_publication i) items)))"
    using admit_publications_cap[OF assms(5), of "ce_activePublishers ?ce"] by (simp add: admitted_publications_def facts(3))
  moreover have "is_publication i \<or> exactReviewGithubTargetAppCircuitRetryAt st (target_of i) now \<le> now" if "i \<in> set adm" for i
  proof (cases "i \<in> set ?R")
    case i: True
    from admitted_kinds(1)[OF i] have "exactReviewQueueTargetRepository i \<noteq> None"
      by (simp add: eligible_def admissible_pending_def)
    with census_circuit[OF facts(7)] i admit_reviews_circuit[of ?ce now] show ?thesis
      by (fastforce simp: admitted_reviews_def)
  next
    case False
    with that adm admitted_kinds(2) show ?thesis by auto
  qed
  ultimately show ?thesis unfolding R P by blast
qed

text \<open>
  C16. No slot is left idle: a ready review that is not admitted faces a paused dispatcher, which
  admits nothing until a time ahead, the open circuit of its owner, or a limit that the running
  and the admitted work really fill: the review capacity, the capacity of its target, or the
  scheduled lane if it is scheduled work.
\<close>

theorem admission_leaves_no_idle_slot:
  assumes "adm = exactReviewQueueAdmittedItems collate st now excluded clock limits" and "items = queue_items st"
    and "i \<in> set items" "eligible (default_options excluded clock) now items i" "\<not> is_publication i" "i \<notin> set adm"
  shows "reached (int (length (filter active_review items)) + int (length (filter (\<lambda>i. \<not> is_publication i) adm))) (al_capacity limits)
    \<or> reached (slots_of (target_of i) items + of_target (target_of i) (filter (\<lambda>i. \<not> is_publication i) adm)) (al_targetCapacity limits)
    \<or> is_scheduled i \<and> reached (int (length (filter scheduled_owner items)) + scheduled_in (filter (\<lambda>i. \<not> is_publication i) adm))
        (al_scheduledCapacity limits)
    \<or> exactReviewGithubTargetAppCircuitRetryAt st (target_of i) now > now
    \<or> (\<exists>t>now. exactReviewDispatcherRetryAt (dispatcher_retry st) now = Some t)"
proof (cases "exactReviewDispatcherRetryAt (dispatcher_retry st) now")
  case (Some t)
  then have "now < t" by (auto simp: exactReviewDispatcherRetryAt_def split: option.splits if_splits)
  with Some show ?thesis by blast
next
  case None
  let ?ce = "admission_census collate st now excluded clock"
  let ?R = "admitted_reviews ?ce now limits"
  note facts = admission_facts[of collate st now excluded clock, folded assms(2)]
  from None have R: "filter (\<lambda>i. \<not> is_publication i) adm = ?R" and out: "i \<notin> set ?R"
    using assms(6) by (auto simp: assms(1) admitted_split)
  from assms(3-5) have "i \<in> set (ce_readyReviews ?ce)" by (simp add: facts(14))
  with out have "blocked_by_limits ?ce now (review_slots limits ?ce) (al_targetCapacity limits) (al_scheduledCapacity limits)
      (ce_activeTargetCounts ?ce) (ce_activeScheduledReviews ?ce) 0 ?R i"
    unfolding admitted_reviews_def using admit_reviews_left_out by blast
  moreover have "exactReviewTargetAppRetryAt ?ce (target_of i) = exactReviewGithubTargetAppCircuitRetryAt st (target_of i) now"
    using census_circuit[OF facts(7)] assms(4) by (simp add: eligible_def admissible_pending_def)
  moreover have "reached (int (length ?R)) (review_slots limits ?ce) \<longleftrightarrow>
      reached (int (length (filter active_review items)) + int (length ?R)) (al_capacity limits)
      \<or> ?R = [] \<and> reached (int (length (filter active_review items))) (al_capacity limits)"
    by (cases "al_capacity limits") (auto simp: review_slots_def facts(1) max_def)
  ultimately show ?thesis unfolding R blocked_by_limits_def facts(2,4) by auto
qed

text \<open>
  C17. Admission is first come, first served among equals: of two ready reviews of the same target
  in the same lane, the one created earlier is admitted whenever the later one is.
\<close>

theorem admission_fifo:
  assumes "js_comparator collate" and "adm = exactReviewQueueAdmittedItems collate st now excluded clock limits"
    and "a \<in> set (queue_items st)" "eligible (default_options excluded clock) now (queue_items st) a" "\<not> is_publication a"
    and "b \<in> set adm" "\<not> is_publication b" "qi_createdAt a < qi_createdAt b" "same_class a b"
  shows "a \<in> set adm"
proof -
  let ?ce = "admission_census collate st now excluded clock"
  let ?R = "admitted_reviews ?ce now limits"
  note facts = admission_facts[of collate st now excluded clock]
  from assms(2,6) have adm: "adm = ?R @ admitted_publications ?ce limits"
    by (auto simp: admitted_split split: if_splits)
  with assms(6,7) have "b \<in> set ?R" using admitted_kinds(2) by auto
  moreover from assms(3-5) have "a \<in> set (ce_readyReviews ?ce)" by (simp add: facts(14))
  moreover have "sorted_wrt (\<lambda>a b. qi_createdAt a \<le> qi_createdAt b) (ce_readyReviews ?ce)"
    unfolding facts(14) by (rule ready_sorted[OF assms(1)])
  ultimately have "a \<in> set ?R" using admit_reviews_fifo assms(8,9) unfolding admitted_reviews_def by blast
  then show ?thesis by (simp add: adm)
qed


subsection \<open>The alarm\<close>

lemma least_mem: "least xs = Some m \<Longrightarrow> m \<in> set xs"
proof -
  have "foldl min y ys \<in> insert y (set ys)" for y :: int and ys
    by (induction ys arbitrary: y) (auto simp: min_def)
  then show "least xs = Some m \<Longrightarrow> m \<in> set xs" by (auto simp: least_def split: list.splits)
qed













subsection \<open>Witness inputs\<close>

definition sample_ready :: "string \<Rightarrow> int \<Rightarrow> queue_item" where
  "sample_ready key t = sample_review_item\<lparr>qi_key := key, qi_createdAt := t, qi_nextAttemptAt := t\<rparr>"

definition sample_ready_queue :: queue_state where
  "sample_ready_queue = \<lparr>qs_items = [(''o/r#8'', sample_ready ''o/r#8'' 1500), (''o/r#7'', sample_ready ''o/r#7'' 1000)],
     qs_shedSinceReset = None, qs_dispatcher = None\<rparr>"

definition sample_limits :: "int \<Rightarrow> admission_limits" where
  "sample_limits c = \<lparr>al_capacity = Some c, al_targetCapacity = Some 5, al_publicationCapacity = Some 2,
     al_publicationAdmissionBlocked = False, al_uniquePublicationItems = False, al_freshPublicationItemKeys = {},
     al_freshPublicationReserve = 0, al_scheduledCapacity = Some 1\<rparr>"

lemma sample_admitted:
  "exactReviewQueueAdmittedItems cmp_lin sample_ready_queue 2000 {} 2000 (sample_limits 1) = [sample_ready ''o/r#7'' 1000]"
  "exactReviewQueueAdmittedItems cmp_lin sample_ready_queue 2000 {} 2000 (sample_limits 2) =
     [sample_ready ''o/r#7'' 1000, sample_ready ''o/r#8'' 1500]"
  by code_simp+

lemma sample_eligible:
  "eligible (default_options {} 2000) 2000 (queue_items sample_ready_queue) (sample_ready ''o/r#8'' 1500)"
  "eligible (default_options {} 2000) 2000 (queue_items sample_ready_queue) (sample_ready ''o/r#7'' 1000)"
  "\<not> is_publication (sample_ready ''o/r#8'' 1500)" "\<not> is_publication (sample_ready ''o/r#7'' 1000)"
  "sample_ready ''o/r#7'' 1000 \<noteq> sample_ready ''o/r#8'' 1500"
  by code_simp+


lemma sample_members:
  "sample_ready ''o/r#8'' 1500 \<in> set (queue_items sample_ready_queue)"
  "sample_ready ''o/r#7'' 1000 \<in> set (queue_items sample_ready_queue)"
  "exactReviewDispatcherRetryAt (dispatcher_retry sample_ready_queue) 2000 = None"
  by (simp_all add: sample_ready_queue_def dispatcher_retry_def exactReviewDispatcherRetryAt_def)

lemma sample_limits_sel [simp]:
  "al_capacity (sample_limits c) = Some c" "al_targetCapacity (sample_limits c) = Some 5"
  "al_publicationCapacity (sample_limits c) = Some 2" "al_scheduledCapacity (sample_limits c) = Some 1"
  by (simp_all add: sample_limits_def)

lemma admission_within_limits_witness:
  "int (length (filter active_review (queue_items sample_ready_queue)))
     + int (length (filter (\<lambda>i. \<not> is_publication i)
         (exactReviewQueueAdmittedItems cmp_lin sample_ready_queue 2000 {} 2000 (sample_limits 1))))
   \<le> max 1 (int (length (filter active_review (queue_items sample_ready_queue))))"
  using admission_within_limits[OF refl refl sample_limits_sel(1-4)] by blast

lemma admission_leaves_no_idle_slot_witness:
  "let items = queue_items sample_ready_queue; out = sample_ready ''o/r#8'' 1500;
       adm = exactReviewQueueAdmittedItems cmp_lin sample_ready_queue 2000 {} 2000 (sample_limits 1)
   in reached (int (length (filter active_review items)) + int (length (filter (\<lambda>i. \<not> is_publication i) adm))) (Some 1)
      \<or> reached (slots_of (target_of out) items + of_target (target_of out) (filter (\<lambda>i. \<not> is_publication i) adm)) (Some 5)
      \<or> is_scheduled out \<and> reached (int (length (filter scheduled_owner items))
          + scheduled_in (filter (\<lambda>i. \<not> is_publication i) adm)) (Some 1)
      \<or> exactReviewGithubTargetAppCircuitRetryAt sample_ready_queue (target_of out) 2000 > 2000"
  using admission_leaves_no_idle_slot[OF refl refl sample_members(1) sample_eligible(1,3), of cmp_lin "sample_limits 1"]
    sample_eligible(5) unfolding Let_def sample_admitted(1) sample_limits_sel sample_members(3) by simp

lemma admission_fifo_witness:
  "sample_ready ''o/r#7'' 1000 \<in> set (exactReviewQueueAdmittedItems cmp_lin sample_ready_queue 2000 {} 2000 (sample_limits 2))"
proof (rule admission_fifo[OF _ refl sample_members(2) sample_eligible(2,4) _ sample_eligible(3)])
  show "js_comparator (cmp_lin :: string \<Rightarrow> string \<Rightarrow> int)" by (rule js_comparator.intro) (auto simp: cmp_lin_def split: if_splits)
qed (simp_all add: sample_admitted sample_ready_def same_class_def is_scheduled_def)


end
