(* ===== verification/Drift_Admission.thy ===== *)
theory Drift_Admission
  imports Review_Loop Review_Budget
begin

text \<open>
  The admission of a requeue that finds no queued item (the branch of \<open>enqueue\<close> in
  \<open>dashboard/exact-review-queue.ts\<close>): an exhausted source-drift counter parks it, a full queue or a
  throttled feed sheds it, and otherwise it is admitted and recorded. The definition gives the new
  queue, counter table and token buckets; the record of the admission in the lifecycle rows is
  \<open>recordAdmissionSync\<close> of \<open>Lifecycle\<close>, and metrics and log lines are left out.
\<close>

datatype drift_outcome = DriftParked | DriftShedBackpressure | DriftShedRate | DriftAdmitted

text \<open>
  The request: its decision and delivery, the revision that the store allocated for it, whether it
  continues a held publication, its ingress fingerprint, and whether the item has been active lately.
\<close>

record drift_request =
  dr_decision :: decision
  dr_deliveryId :: string
  dr_revision :: int
  dr_continuesHeldRequest :: bool
  dr_fingerprint :: "string option"
  dr_activeItem :: bool

definition exactReviewShedSinceReset :: "queue_state \<Rightarrow> int" where
  "exactReviewShedSinceReset q = (let value = number_or_0 (qs_shedSinceReset q) in if safe_integer value \<and> 0 < value then value else 0)"

definition exactReviewQueuePendingReviewCount :: "queue_state \<Rightarrow> int" where
  "exactReviewQueuePendingReviewCount q =
     int (length (filter (\<lambda>i. qi_state i = ItPending \<and> \<not> exactReviewQueueIsPublication (qi_decision i)) (map snd (qs_items q))))"

definition count_shed :: "queue_state \<Rightarrow> queue_state" where
  "count_shed q = q\<lparr>qs_shedSinceReset := Some (exactReviewShedSinceReset q + 1)\<rparr>"

text \<open>The counter after an admission. (Publications have no loop key; they are neither counted nor release it.)\<close>

definition note_admission :: "decision \<Rightarrow> int \<Rightarrow> loop_store \<Rightarrow> loop_store" where
  "note_admission d now st =
     (if exactReviewSourceDriftLoopCounted d then fst (recordSourceDriftGenerationSync st (exactReviewLoopItemKey d) now)
      else if exactReviewSourceDriftLoopReleases d then resetSourceDriftLoopSync st (exactReviewLoopItemKey d) else st)"

definition offerSourceDriftRequeue ::
  "env \<Rightarrow> drift_request \<Rightarrow> int \<Rightarrow> queue_state \<Rightarrow> feed_store \<Rightarrow> loop_store \<Rightarrow> queue_state \<times> feed_store \<times> loop_store \<times> drift_outcome" where
  "offerSourceDriftRequeue env req now q kv st =
     (let d = dr_decision req; key = exactReviewItemKey d; loopKey = exactReviewLoopItemKey d;
          sourceDriftRequeueLimit = exactReviewSourceDriftRequeueLimit (env ''EXACT_REVIEW_SOURCE_DRIFT_REQUEUE_LIMIT'')
      in case (if 0 < sourceDriftRequeueLimit \<and> exactReviewSourceDriftLoopCounted d
               then sourceDriftLoopSync st loopKey now else (st, None)) of
        (st1, sourceDriftLoop) \<Rightarrow>
          if (case sourceDriftLoop of None \<Rightarrow> False | Some (consecutive, updatedAt) \<Rightarrow> sourceDriftRequeueLimit \<le> consecutive)
          then (put_item (drift_parked_item key d (dr_deliveryId req) (dr_revision req) now env) q, kv,
                markSourceDriftLoopParkedSync st1 loopKey now, DriftParked)
          else if d_publication d = None \<and> (isSheddableExactReviewRecovery d \<or> exactReviewScheduledLane d \<noteq> None)
                  \<and> exactReviewPendingSoftLimit env \<le> exactReviewQueuePendingReviewCount q
          then (count_shed q, kv, st1, DriftShedBackpressure)
          else case takeScheduledReviewTokenSync env kv d now of
                 (kv', False) \<Rightarrow> (count_shed q, kv', st1, DriftShedRate)
               | (kv', True) \<Rightarrow>
                   (put_item (admitted_item q key d (dr_deliveryId req) (dr_continuesHeldRequest req) (dr_fingerprint req)
                                (dr_revision req) now env (dr_activeItem req)) q, kv',
                    note_admission d now st1, DriftAdmitted))"

text \<open>A series of offers: the time and the request of each, and the queue and token buckets it finds.\<close>

type_synonym drift_offer = "int \<times> drift_request \<times> queue_state \<times> feed_store"

fun drift_outcomes :: "env \<Rightarrow> loop_store \<Rightarrow> drift_offer list \<Rightarrow> drift_outcome list" where
  "drift_outcomes env st [] = []"
| "drift_outcomes env st ((now, req, q, kv) # os) =
     (case offerSourceDriftRequeue env req now q kv st of (q', kv', st', out) \<Rightarrow> out # drift_outcomes env st' os)"

text \<open>Each offer comes less than a week after the last one before it (or before the series) that was not shed.\<close>

fun within_week :: "int option \<Rightarrow> (int \<times> drift_outcome) list \<Rightarrow> bool" where
  "within_week previous [] = True"
| "within_week previous ((now, out) # offers) =
     ((case previous of None \<Rightarrow> True | Some t \<Rightarrow> now - t < 7 * 24 * 60 * 60 * 1000)
      \<and> within_week (if out = DriftAdmitted \<or> out = DriftParked then Some now else previous) offers)"

definition drift_offer_of :: "string \<Rightarrow> drift_offer \<Rightarrow> bool" where
  "drift_offer_of key offer \<longleftrightarrow>
     exactReviewSourceDriftLoopCounted (dr_decision (fst (snd offer)))
     \<and> exactReviewLoopItemKey (dr_decision (fst (snd offer))) = key"

abbreviation admissions_before :: "drift_outcome list \<Rightarrow> nat \<Rightarrow> nat" where
  "admissions_before outs i \<equiv> length (filter ((=) DriftAdmitted) (take i outs))"

subsection \<open>One offer\<close>

abbreviation drift_limit :: "env \<Rightarrow> int" where
  "drift_limit env \<equiv> exactReviewSourceDriftRequeueLimit (env ''EXACT_REVIEW_SOURCE_DRIFT_REQUEUE_LIMIT'')"

definition no_counter :: "loop_store \<Rightarrow> string \<Rightarrow> bool" where
  "no_counter st key \<longleftrightarrow> loop_inv st \<and> loop_row st key = None"

lemma read_expired:
  assumes "loop_inv st" "sourceDriftLoopSync st key now = (st1, None)"
  shows "no_counter st1 key"
proof (cases "loop_row st key")
  case (Some row)
  have d: "distinct (map sl_key (ls_loops st))" using assms(1) by (simp add: loop_inv_def)
  from Some have row: "row \<in> set (ls_loops st)" "sl_key row = key" by (auto simp: loop_row_def dest: find_SomeD)
  from assms(2) Some have e: "sl_updatedAt row \<le> sourceDriftLoopExpiryCutoff now"
    and st1: "st1 = st\<lparr>ls_loops := filter (\<lambda>r. \<not> (sl_key r = key \<and> sl_updatedAt r \<le> sourceDriftLoopExpiryCutoff now)) (ls_loops st)\<rparr>"
    by (auto simp: sourceDriftLoopSync_def split: if_splits)
  have "r = row" if "r \<in> set (ls_loops st)" "sl_key r = key" for r
    using d row that by (metis distinct_map_unique)
  with e have "\<forall>r\<in>set (ls_loops st1). sl_key r \<noteq> key" by (auto simp: st1)
  then show ?thesis using loop_inv_read[OF assms(1), of key now] assms(2)
    by (auto simp: no_counter_def loop_row_def find_None_iff)
qed (use assms in \<open>auto simp: sourceDriftLoopSync_def no_counter_def\<close>)

lemma counted_record:
  "exactReviewSourceDriftLoopCounted d \<Longrightarrow> exactReviewLoopItemKey d = key \<Longrightarrow>
     note_admission d now st = fst (recordSourceDriftGenerationSync st key now)"
  by (simp add: note_admission_def)

lemma no_counter_read: "no_counter st key \<Longrightarrow> sourceDriftLoopSync st key now = (st, None)"
  by (simp add: no_counter_def sourceDriftLoopSync_def)

lemma no_counter_record:
  assumes "no_counter st key"
  shows "counter_at (fst (recordSourceDriftGenerationSync st key now)) key 1 now"
proof -
  have inv: "loop_inv st" using assms by (simp add: no_counter_def)
  have "live_loop st key now = None"
    using sourceDriftLoop_live[OF inv, of key now] no_counter_read[OF assms, of now] by simp
  with counter_record[OF inv, of key now] show ?thesis by simp
qed

lemma offer_no_counter:
  assumes "no_counter st key" "0 < drift_limit env" "exactReviewSourceDriftLoopCounted (dr_decision req)"
    and "exactReviewLoopItemKey (dr_decision req) = key" "offerSourceDriftRequeue env req now q kv st = (q', kv', st', out)"
  shows "out \<noteq> DriftParked \<and> (if out = DriftAdmitted then counter_at st' key 1 now else st' = st)"
  using assms no_counter_read[OF assms(1), of now] no_counter_record[OF assms(1), of now] counted_record[OF assms(3,4)]
  by (auto simp: offerSourceDriftRequeue_def Let_def split: if_splits prod.splits bool.splits)

lemma offer_expired:
  assumes "sourceDriftLoopSync st key now = (st1, None)" "no_counter st1 key" "0 < drift_limit env"
    and "exactReviewSourceDriftLoopCounted (dr_decision req)" "exactReviewLoopItemKey (dr_decision req) = key"
  shows "offerSourceDriftRequeue env req now q kv st = offerSourceDriftRequeue env req now q kv st1"
  using assms no_counter_read[OF assms(2), of now] by (simp add: offerSourceDriftRequeue_def Let_def)

lemma counter_read:
  assumes "counter_at st key c t" "now - t < 7 * 24 * 60 * 60 * 1000"
  shows "sourceDriftLoopSync st key now = (st, Some (c, t))"
proof -
  have "sourceDriftLoopExpiryCutoff now < t"
    using assms(2) by (simp add: sourceDriftLoopExpiryCutoff_def EXACT_REVIEW_SOURCE_DRIFT_LOOP_RETENTION_MS_def)
  then show ?thesis
    using sourceDriftLoop_live[of st key now] assms(1)
    by (auto simp: counter_at_def sourceDriftLoopSync_def split: option.splits if_splits)
qed

lemma offer_at_counter:
  assumes "counter_at st key c t" "now - t < 7 * 24 * 60 * 60 * 1000"
    and "0 < drift_limit env" "exactReviewSourceDriftLoopCounted (dr_decision req)"
    and "exactReviewLoopItemKey (dr_decision req) = key" "offerSourceDriftRequeue env req now q kv st = (q', kv', st', out)"
  shows "(out = DriftParked \<longleftrightarrow> drift_limit env \<le> c)
    \<and> (if out = DriftAdmitted then counter_at st' key (c + 1) now
       else if out = DriftParked then counter_at st' key c now else st' = st)"
proof -
  have inv: "loop_inv st" using assms(1) by (simp add: counter_at_def)
  note read = counter_read[OF assms(1,2)]
  have live: "live_loop st key now = Some (c, t)" using sourceDriftLoop_live[OF inv, of key now] read by simp
  have "counter_at (markSourceDriftLoopParkedSync st key now) key c now"
    using live_loop_park[OF inv live] loop_inv_park[OF inv, of key now] by (simp add: counter_at_def)
  moreover have "counter_at (fst (recordSourceDriftGenerationSync st key now)) key (c + 1) now"
    using counter_record[OF inv, of key now] live by simp
  ultimately show ?thesis
    using assms(3-) read counted_record[OF assms(4,5)]
    by (auto simp: offerSourceDriftRequeue_def Let_def split: if_splits prod.splits bool.splits)
qed

subsection \<open>A series of offers\<close>

lemma offers_at_counter:
  assumes "counter_at st key c t" "0 < drift_limit env" "list_all (drift_offer_of key) os"
    and "within_week (Some t) (zip (map fst os) (drift_outcomes env st os))" "i < length os"
  shows "drift_outcomes env st os ! i = DriftParked \<longleftrightarrow> drift_limit env \<le> c + int (admissions_before (drift_outcomes env st os) i)"
  using assms
proof (induction os arbitrary: st c t i)
  case (Cons x os)
  obtain now req q kv where x: "x = (now, req, q, kv)" by (metis prod_cases4)
  obtain q' kv' st' out where out: "offerSourceDriftRequeue env req now q kv st = (q', kv', st', out)" by (metis prod_cases4)
  have outs: "drift_outcomes env st (x # os) = out # drift_outcomes env st' os" by (simp add: x out)
  have week: "now - t < 7 * 24 * 60 * 60 * 1000"
    "within_week (if out = DriftAdmitted \<or> out = DriftParked then Some now else Some t) (zip (map fst os) (drift_outcomes env st' os))"
    using Cons.prems(4) by (simp_all add: x out)
  have d: "exactReviewSourceDriftLoopCounted (dr_decision req)" "exactReviewLoopItemKey (dr_decision req) = key" using Cons.prems(3) by (simp_all add: x drift_offer_of_def)
  note step = offer_at_counter[OF Cons.prems(1) week(1) Cons.prems(2) d out]
  show ?case
  proof (cases i)
    case 0
    with step show ?thesis by (simp add: outs)
  next
    case (Suc j)
    define c' where "c' = (if out = DriftAdmitted then c + 1 else c)"
    define t' where "t' = (if out = DriftAdmitted \<or> out = DriftParked then now else t)"
    have "counter_at st' key c' t'" using step Cons.prems(1) by (auto simp: c'_def t'_def split: if_splits)
    moreover have "within_week (Some t') (zip (map fst os) (drift_outcomes env st' os))"
      using week(2) by (auto simp: t'_def split: if_splits)
    moreover have "list_all (drift_offer_of key) os" "j < length os" using Cons.prems(3,5) Suc by simp_all
    ultimately have "drift_outcomes env st' os ! j = DriftParked
        \<longleftrightarrow> drift_limit env \<le> c' + int (admissions_before (drift_outcomes env st' os) j)"
      using Cons.IH[of st' c' t' j] Cons.prems(2) by blast
    then show ?thesis by (auto simp: outs Suc c'_def)
  qed
qed simp

lemma offers_no_counter:
  assumes "no_counter st key" "0 < drift_limit env" "list_all (drift_offer_of key) os"
    and "within_week None (zip (map fst os) (drift_outcomes env st os))" "i < length os"
  shows "drift_outcomes env st os ! i = DriftParked \<longleftrightarrow> drift_limit env \<le> int (admissions_before (drift_outcomes env st os) i)"
  using assms
proof (induction os arbitrary: st i)
  case (Cons x os)
  obtain now req q kv where x: "x = (now, req, q, kv)" by (metis prod_cases4)
  obtain q' kv' st' out where out: "offerSourceDriftRequeue env req now q kv st = (q', kv', st', out)" by (metis prod_cases4)
  have outs: "drift_outcomes env st (x # os) = out # drift_outcomes env st' os" by (simp add: x out)
  have d: "exactReviewSourceDriftLoopCounted (dr_decision req)" "exactReviewLoopItemKey (dr_decision req) = key" using Cons.prems(3) by (simp_all add: x drift_offer_of_def)
  note step = offer_no_counter[OF Cons.prems(1,2) d out]
  show ?case
  proof (cases i)
    case 0
    with step Cons.prems(2) show ?thesis by (simp add: outs)
  next
    case (Suc j)
    have rest: "list_all (drift_offer_of key) os" "j < length os" using Cons.prems(3,5) Suc by simp_all
    show ?thesis
    proof (cases "out = DriftAdmitted")
      case True
      with step have "counter_at st' key 1 now" by simp
      moreover have "within_week (Some now) (zip (map fst os) (drift_outcomes env st' os))"
        using Cons.prems(4) True by (simp add: x out)
      ultimately show ?thesis
        using offers_at_counter[of st' key 1 now env os j] Cons.prems(2) rest True by (simp add: outs Suc)
    next
      case False
      with step have "out \<noteq> DriftParked" "st' = st" by simp_all
      moreover from this have "within_week None (zip (map fst os) (drift_outcomes env st os))"
        using Cons.prems(4) False by (simp add: x out)
      ultimately show ?thesis
        using Cons.IH[of st j] Cons.prems(1,2) rest False by (simp add: outs Suc)
    qed
  qed
qed simp

subsection \<open>Properties\<close>

text \<open>
  C36. The source-drift breaker trips at exactly its limit. Take a series of automatic requeues of one
  item that find no queued item, after any operations on the counter table that leave no live
  counter; the queue and the token buckets may be different at each of them, and each comes less
  than a week after the last one that was not shed. With a positive limit (zero disables the breaker)
  a requeue is parked exactly when that many admissions are spent before it. A requeue that is shed,
  by a full queue or a throttled feed, is not counted and does not stop the counting.
\<close>

theorem drift_breaker_trips:
  assumes "st = run_ops loop_step empty_loop_store ops" "0 < drift_limit env"
    and "list_all (drift_offer_of key) os" "snd (sourceDriftLoopSync st key (fst (hd os))) = None"
    and "outs = drift_outcomes env st os" "within_week None (zip (map fst os) outs)" "i < length os"
  shows "outs ! i = DriftParked \<longleftrightarrow> nat (drift_limit env) \<le> admissions_before outs i"
proof -
  have inv: "loop_inv st" using assms(1) by (simp add: review_loops.inv_reachable)
  obtain now req q kv os' where os: "os = (now, req, q, kv) # os'" using assms(7) by (cases os) auto
  obtain st1 where read: "sourceDriftLoopSync st key now = (st1, None)"
    using assms(4) os by (metis fst_conv list.sel(1) prod.collapse)
  note absent = read_expired[OF inv read]
  have d: "exactReviewSourceDriftLoopCounted (dr_decision req)" "exactReviewLoopItemKey (dr_decision req) = key" using assms(3) by (simp_all add: os drift_offer_of_def)
  have "drift_outcomes env st os = drift_outcomes env st1 os"
    using offer_expired[of st key now st1 env req q kv] read absent assms(2) d by (simp add: os)
  with offers_no_counter[of st1 key env os i] absent assms(2,3,5-7)
  have "outs ! i = DriftParked \<longleftrightarrow> drift_limit env \<le> int (admissions_before outs i)" by simp
  then show ?thesis by linarith
qed

definition sample_drift :: decision where
  "sample_drift = sample_decision\<lparr>bd_sourceAction := EXACT_REVIEW_SOURCE_DRIFT_REQUEUE_SOURCE_ACTION\<rparr>"

text \<open>Six requeues: the second finds the feed throttled and is shed; three are admitted, the rest is parked.\<close>

definition sample_no_env :: env where "sample_no_env = (\<lambda>_. None)"

definition sample_throttled :: feed_store where
  "sample_throttled = deferScheduledReviewAdmissionForThrottleSync sample_no_env (\<lambda>_. None) 500 999999"

definition sample_offer :: "int \<Rightarrow> feed_store \<Rightarrow> drift_offer" where
  "sample_offer now kv = (now, \<lparr>dr_decision = sample_drift, dr_deliveryId = ''d-1'', dr_revision = 1, dr_continuesHeldRequest = False,
     dr_fingerprint = None, dr_activeItem = False\<rparr>, \<lparr>qs_items = [], qs_shedSinceReset = None, qs_dispatcher = None\<rparr>, kv)"

definition sample_offers :: "drift_offer list" where
  "sample_offers = [sample_offer 0 (\<lambda>_. None), sample_offer 1000 sample_throttled, sample_offer 2000 (\<lambda>_. None),
     sample_offer 3000 (\<lambda>_. None), sample_offer 4000 (\<lambda>_. None), sample_offer 5000 sample_throttled]"

lemma sample_outcomes: "drift_outcomes sample_no_env empty_loop_store sample_offers =
    [DriftAdmitted, DriftShedRate, DriftAdmitted, DriftAdmitted, DriftParked, DriftParked]"
  by code_simp

lemma drift_breaker_trips_witness:
  "drift_outcomes sample_no_env empty_loop_store sample_offers ! 5 = DriftParked
   \<and> drift_outcomes sample_no_env empty_loop_store sample_offers ! 3 \<noteq> DriftParked"
proof -
  let ?key = "''openclaw/openclaw#42''"
  have h: "empty_loop_store = run_ops loop_step empty_loop_store []" "0 < drift_limit sample_no_env"
    "list_all (drift_offer_of ?key) sample_offers" "snd (sourceDriftLoopSync empty_loop_store ?key (fst (hd sample_offers))) = None"
    by (simp, code_simp, code_simp, code_simp)
  have w: "within_week None (zip (map fst sample_offers) (drift_outcomes sample_no_env empty_loop_store sample_offers))"
    unfolding sample_outcomes by code_simp
  have l: "nat (drift_limit sample_no_env) = 3" "length sample_offers = 6" by code_simp+
  note trips = drift_breaker_trips[OF h refl w]
  show ?thesis using trips[of 5] trips[of 3] l unfolding sample_outcomes by (simp add: eval_nat_numeral)
qed

end
