(* ===== verification/Decision_Parser.thy ===== *)
theory Decision_Parser
  imports Queue_Lease
begin

text \<open>
  The parsers of \<open>dashboard/exact-review-decision.ts\<close>: from the JSON value of a request body, or
  of a stored item, to a typed decision. JSON numbers are integers in this model, and a text that
  denotes a fraction counts as no number; an object lists each key once. A property that is
  absent reads as \<open>None\<close>.
\<close>

subsection \<open>Conversions of JavaScript on JSON values\<close>

definition falsy :: "json option \<Rightarrow> bool" where
  "falsy v = (case v of None \<Rightarrow> True | Some x \<Rightarrow>
     (case x of JNull \<Rightarrow> True | JBool b \<Rightarrow> \<not> b | JNum n \<Rightarrow> n = 0 | JStr s \<Rightarrow> s = [] | _ \<Rightarrow> False))"

text \<open>\<open>String(value)\<close>\<close>

fun js_string :: "json \<Rightarrow> string" where
  "js_string JNull = ''null''"
| "js_string (JBool b) = (if b then ''true'' else ''false'')"
| "js_string (JNum n) = int_str n"
| "js_string (JStr s) = s"
| "js_string (JArr xs) = comma_join (map (\<lambda>x. if x = JNull then [] else js_string x) xs)"
| "js_string (JObj fs) = ''[object Object]''"

text \<open>\<open>String(value || "")\<close>\<close>

definition text_of :: "json option \<Rightarrow> string" where
  "text_of v = (if falsy v then [] else js_string (the v))"

text \<open>\<open>Number(value)\<close>, when that is an integer.\<close>

definition js_number :: "json option \<Rightarrow> int option" where
  "js_number v = (case v of None \<Rightarrow> None | Some x \<Rightarrow>
     (case x of JNull \<Rightarrow> Some 0 | JBool b \<Rightarrow> Some (if b then 1 else 0) | JNum n \<Rightarrow> Some n
      | JStr s \<Rightarrow> js_integer s | JArr xs \<Rightarrow> js_integer (js_string (JArr xs)) | JObj fs \<Rightarrow> None))"

definition objectValue :: "json option \<Rightarrow> (string \<times> json) list" where
  "objectValue v = (case v of Some (JObj fs) \<Rightarrow> fs | _ \<Rightarrow> [])"

definition own :: "(string \<times> json) list \<Rightarrow> string \<Rightarrow> bool" where
  "own fs k \<longleftrightarrow> map_of fs k \<noteq> None"

text \<open>\<open>Object.hasOwn(fs, k) ? String(fs[k] || "").trim() : undefined\<close>\<close>

definition own_text :: "(string \<times> json) list \<Rightarrow> string \<Rightarrow> string option" where
  "own_text fs k = (if own fs k then Some (js_trim (text_of (map_of fs k))) else None)"

abbreviation own_lower :: "(string \<times> json) list \<Rightarrow> string \<Rightarrow> string option" where
  "own_lower fs k \<equiv> map_option to_lower (own_text fs k)"

definition string_value :: "json option \<Rightarrow> string option" where
  "string_value v = (case v of Some (JStr s) \<Rightarrow> Some s | _ \<Rightarrow> None)"

definition bool_value :: "json option \<Rightarrow> bool option" where
  "bool_value v = (case v of Some (JBool b) \<Rightarrow> Some b | _ \<Rightarrow> None)"

definition check :: "('a \<Rightarrow> bool) \<Rightarrow> 'a option \<Rightarrow> bool" where
  "check P v \<longleftrightarrow> (case v of None \<Rightarrow> True | Some x \<Rightarrow> P x)"

lemma check_simps [simp]: "check P None" "check P (Some x) \<longleftrightarrow> P x"
  by (simp_all add: check_def)

definition positive_id :: "int option \<Rightarrow> bool" where
  "positive_id v \<longleftrightarrow> (case v of None \<Rightarrow> False | Some n \<Rightarrow> safe_integer n \<and> 0 < n)"

subsection \<open>Patterns\<close>

text \<open>\<open>/^[A-Za-z0-9_.-]+\/[A-Za-z0-9_.-]+$/\<close>, \<open>/^[A-Za-z0-9_./-]+$/\<close>\<close>

definition repo_pattern :: "string \<Rightarrow> bool" where
  "repo_pattern s \<longleftrightarrow>
     (let a = takeWhile is_word_char s; r = dropWhile is_word_char s
      in a \<noteq> [] \<and> r \<noteq> [] \<and> hd r = CHR ''/'' \<and> tl r \<noteq> [] \<and> list_all is_word_char (tl r))"

definition branch_pattern :: "string \<Rightarrow> bool" where
  "branch_pattern s \<longleftrightarrow> s \<noteq> [] \<and> list_all (\<lambda>c. is_word_char c \<or> c = CHR ''/'') s"

text \<open>\<open>/^[A-Za-z0-9_.:-]{1,200}$/\<close>\<close>

definition delivery_pattern :: "string \<Rightarrow> bool" where
  "delivery_pattern s \<longleftrightarrow> s \<noteq> [] \<and> length s \<le> 200 \<and> list_all (\<lambda>c. is_word_char c \<or> c = CHR '':'') s"

definition STATUS_MARKER_PREFIX :: string where
  "STATUS_MARKER_PREFIX = ''<!-- clawsweeper-command-status:''"

definition marker_char :: "char \<Rightarrow> bool" where
  "marker_char c \<longleftrightarrow> c \<noteq> CHR ''<'' \<and> c \<noteq> CHR ''>'' \<and> c \<noteq> CHR 0x0D \<and> c \<noteq> CHR 0x0A"

definition EXACT_REVIEW_COMMAND_STATUS_MARKER_PATTERN :: "string \<Rightarrow> bool" where
  "EXACT_REVIEW_COMMAND_STATUS_MARKER_PATTERN s \<longleftrightarrow>
     (let r = drop (length STATUS_MARKER_PREFIX) s; n = length r - 4
      in take (length STATUS_MARKER_PREFIX) s = STATUS_MARKER_PREFIX \<and> 1 \<le> n \<and> n \<le> 200
         \<and> drop n r = '' -->'' \<and> list_all marker_char (take n r))"

definition EXACT_REVIEW_ADDITIONAL_PROMPT_MAX_CHARS :: nat where "EXACT_REVIEW_ADDITIONAL_PROMPT_MAX_CHARS = 5000"

text \<open>\<open>/^[1-9]\d*$/\<close>, \<open>/^\d{1,30}$/\<close>, \<open>/^exact-review-\d{1,30}-[1-9]\d*$/\<close>\<close>

definition positive_numeral :: "string \<Rightarrow> bool" where
  "positive_numeral s \<longleftrightarrow> s \<noteq> [] \<and> list_all is_dec s \<and> hd s \<noteq> CHR ''0''"

definition run_id_pattern :: "string \<Rightarrow> bool" where
  "run_id_pattern s \<longleftrightarrow> s \<noteq> [] \<and> length s \<le> 30 \<and> list_all is_dec s"

definition artifact_pattern :: "string \<Rightarrow> bool" where
  "artifact_pattern s \<longleftrightarrow>
     (let r = drop 13 s; run = takeWhile is_dec r; rest = dropWhile is_dec r
      in take 13 s = ''exact-review-'' \<and> run_id_pattern run \<and> rest \<noteq> [] \<and> hd rest = CHR ''-''
         \<and> positive_numeral (tl rest))"

text \<open>\<open>/^[A-Za-z0-9_.-]+\/[A-Za-z0-9_.-]+#[1-9]\d*$/\<close>\<close>

definition item_key_pattern :: "string \<Rightarrow> bool" where
  "item_key_pattern s \<longleftrightarrow>
     (let a = takeWhile (\<lambda>c. c \<noteq> CHR ''#'') s; r = dropWhile (\<lambda>c. c \<noteq> CHR ''#'') s
      in repo_pattern a \<and> r \<noteq> [] \<and> positive_numeral (tl r))"

subsection \<open>The publication policy of a JSON value\<close>

lemma map_of_size: "map_of fs k = Some v \<Longrightarrow> size v < size (JObj fs)"
proof (induction fs)
  case (Cons f fs)
  then show ?case by (cases f) (auto split: if_splits)
qed simp

text \<open>\<open>decisionPublicationPolicy\<close> on the untyped value; \<open>None\<close> when it throws.\<close>

function (sequential) json_policy :: "json \<Rightarrow> publication_policy option option" where
  "json_policy (JObj fs) =
     (let present = own fs ''publicationPolicy'';
          action = (case map_of fs ''sourceAction'' of None \<Rightarrow> ''undefined'' | Some a \<Rightarrow> js_string a);
          policy = (if present then Some RecordCommentOnly else None)
      in if own fs ''publication_policy'' then None
         else if present \<and> map_of fs ''publicationPolicy'' \<noteq> Some (JStr ''record_comment_only'') then None
         else if map_of fs ''sourceAction'' = Some (JStr MANUAL_REVIEW_SOURCE_ACTION) \<and> \<not> present then None
         else if present \<and> action \<noteq> MANUAL_REVIEW_SOURCE_ACTION \<and> action \<noteq> EXACT_REVIEW_ARTIFACT_PUBLISH_SOURCE_ACTION
         then None
         else case map_of fs ''publication'' of
             None \<Rightarrow> Some policy
           | Some (JObj ps) \<Rightarrow>
               (case map_of ps ''producerDecision'' of None \<Rightarrow> None
                | Some d \<Rightarrow> if json_policy d = Some policy then Some policy else None)
           | Some _ \<Rightarrow> None)"
| "json_policy _ = None"
  by pat_completeness auto
termination
proof (relation "measure size", goal_cases)
  case (2 fs present action policy p ps d)
  then have "size d < size (JObj ps)" "size (JObj ps) < size (JObj fs)" by (auto dest!: map_of_size)
  then show ?case by simp
qed simp

declare json_policy.simps [simp del]

subsection \<open>The base decision\<close>

definition item_kind_of :: "string \<Rightarrow> decision_kind option" where
  "item_kind_of s = (if s = ''issue'' then Some IssueItem else if s = ''pull_request'' then Some PullItem else None)"

definition source_event_of :: "string \<Rightarrow> source_event option" where
  "source_event_of s =
     (if s = ''issues'' then Some IssuesEvent else if s = ''pull_request'' then Some PullRequestEvent else None)"

definition command_origin_of :: "string \<Rightarrow> command_origin option" where
  "command_origin_of s =
     (if s = ''hosted_webhook'' then Some HostedWebhook else if s = ''comment_router'' then Some CommentRouter else None)"

definition valid_source_fields :: "(string \<times> json) list \<Rightarrow> bool" where
  "valid_source_fields fs \<longleftrightarrow>
     (own fs ''expectedSourceRevision'' \<longrightarrow>
        map_of fs ''itemKind'' = Some (JStr ''issue'')
        \<and> string_value (map_of fs ''expectedSourceRevision'') \<noteq> None
        \<and> check (hex_of_length 64) (string_value (map_of fs ''expectedSourceRevision'')))
     \<and> check (hex_of_length 40) (own_lower fs ''sourceHeadSha'')
     \<and> check (hex_of_length 40) (own_lower fs ''sourceBaseSha'')
     \<and> (own fs ''sourceIsDraft'' \<longrightarrow> bool_value (map_of fs ''sourceIsDraft'') \<noteq> None)
     \<and> check (hex_of_length 64) (own_lower fs ''sourceContentRevision'')
     \<and> (own fs ''sourceHeadVerified'' \<longrightarrow> bool_value (map_of fs ''sourceHeadVerified'') \<noteq> None)
     \<and> (own fs ''sourceAuthoritySeq'' \<longrightarrow> positive_id (js_number (map_of fs ''sourceAuthoritySeq'')))
     \<and> check (\<lambda>s. date_parse s \<noteq> None) (own_text fs ''sourceUpdatedAt'')
     \<and> (own fs ''sourceDeliveryId'' \<longrightarrow> check delivery_pattern (string_value (map_of fs ''sourceDeliveryId''))
          \<and> string_value (map_of fs ''sourceDeliveryId'') \<noteq> None)"

definition command_metadata :: "(string \<times> json) list \<Rightarrow> nat" where
  "command_metadata fs =
     length (filter (own fs) [''sourceCommentId'', ''sourceCommentUpdatedAt'', ''commandBodyDigest'', ''commandOrigin''])"

definition valid_command_fields :: "decision_kind \<Rightarrow> (string \<times> json) list \<Rightarrow> bool" where
  "valid_command_fields kind fs \<longleftrightarrow>
     (own fs ''commandStatusMarker'' \<longrightarrow>
        string_value (map_of fs ''commandStatusMarker'') \<noteq> None
        \<and> check EXACT_REVIEW_COMMAND_STATUS_MARKER_PATTERN (string_value (map_of fs ''commandStatusMarker'')))
     \<and> (own fs ''statusCommentId'' \<longrightarrow> positive_id (js_number (map_of fs ''statusCommentId'')))
     \<and> (own fs ''reviewAcknowledgementCommentId'' \<longrightarrow>
          kind = PullItem \<and> positive_id (js_number (map_of fs ''reviewAcknowledgementCommentId'')))
     \<and> (own fs ''additionalPrompt'' \<longrightarrow>
          string_value (map_of fs ''additionalPrompt'') \<noteq> None
          \<and> check (\<lambda>s. length s \<le> EXACT_REVIEW_ADDITIONAL_PROMPT_MAX_CHARS \<and> char_of (0::nat) \<notin> set s)
              (string_value (map_of fs ''additionalPrompt'')))
     \<and> (own fs ''sourceCommentId'' \<longrightarrow> positive_id (js_number (map_of fs ''sourceCommentId'')))
     \<and> check (\<lambda>s. date_parse s \<noteq> None) (own_text fs ''sourceCommentUpdatedAt'')
     \<and> check (hex_of_length 64) (own_lower fs ''commandBodyDigest'')
     \<and> (own fs ''commandOrigin'' \<longrightarrow> command_origin_of (text_of (map_of fs ''commandOrigin'')) \<noteq> None)
     \<and> (own fs ''sourceCommentVerified'' \<longrightarrow> bool_value (map_of fs ''sourceCommentVerified'') \<noteq> None)
     \<and> (command_metadata fs = 0 \<or> command_metadata fs = 4)"

definition own_number :: "(string \<times> json) list \<Rightarrow> string \<Rightarrow> int option" where
  "own_number fs k = (if own fs k then js_number (map_of fs k) else None)"

definition exactReviewBaseDecisionFrom :: "json \<Rightarrow> base_decision option" where
  "exactReviewBaseDecisionFrom v =
     (let fs = objectValue (Some v);
          targetRepo = js_trim (text_of (map_of fs ''targetRepo''));
          targetBranch = js_trim (text_of (map_of fs ''targetBranch''));
          sourceAction = text_of (map_of fs ''sourceAction'')
      in case (json_policy v, js_number (map_of fs ''itemNumber''), item_kind_of (text_of (map_of fs ''itemKind'')),
               source_event_of (text_of (map_of fs ''sourceEvent''))) of
           (Some policy, Some itemNumber, Some kind, Some event) \<Rightarrow>
             if \<not> repo_pattern targetRepo \<or> \<not> branch_pattern targetBranch \<or> itemNumber \<le> 0 \<or> sourceAction = []
                \<or> \<not> valid_source_fields fs \<or> \<not> valid_command_fields kind fs
             then None
             else Some \<lparr>bd_targetRepo = targetRepo, bd_targetBranch = targetBranch, bd_itemNumber = nat itemNumber,
               bd_itemKind = kind, bd_sourceEvent = event, bd_sourceAction = sourceAction, bd_publicationPolicy = policy,
               bd_supersedesInProgress = (\<not> falsy (map_of fs ''supersedesInProgress'')),
               bd_sourceHeadSha = own_lower fs ''sourceHeadSha'', bd_sourceBaseSha = own_lower fs ''sourceBaseSha'',
               bd_sourceIsDraft = bool_value (map_of fs ''sourceIsDraft''),
               bd_sourceContentRevision = own_lower fs ''sourceContentRevision'',
               bd_expectedSourceRevision = string_value (map_of fs ''expectedSourceRevision''),
               bd_sourceHeadVerified = bool_value (map_of fs ''sourceHeadVerified''),
               bd_sourceAuthoritySeq = own_number fs ''sourceAuthoritySeq'',
               bd_sourceUpdatedAt = own_text fs ''sourceUpdatedAt'',
               bd_sourceDeliveryId = string_value (map_of fs ''sourceDeliveryId''),
               bd_codexTimeoutMs = js_number (map_of fs ''codexTimeoutMs''),
               bd_mediaProofTimeoutMs = js_number (map_of fs ''mediaProofTimeoutMs''),
               bd_commandStatusMarker = string_value (map_of fs ''commandStatusMarker''),
               bd_statusCommentId = own_number fs ''statusCommentId'',
               bd_reviewAcknowledgementCommentId = own_number fs ''reviewAcknowledgementCommentId'',
               bd_additionalPrompt = string_value (map_of fs ''additionalPrompt''),
               bd_sourceCommentId = own_number fs ''sourceCommentId'',
               bd_sourceCommentUpdatedAt = own_text fs ''sourceCommentUpdatedAt'',
               bd_commandBodyDigest = own_lower fs ''commandBodyDigest'',
               bd_commandOrigin = Option.bind (map_of fs ''commandOrigin'') (\<lambda>o'. command_origin_of (text_of (Some o'))),
               bd_sourceCommentVerified = bool_value (map_of fs ''sourceCommentVerified'')\<rparr>
         | _ \<Rightarrow> None)"

subsection \<open>Publications and decisions\<close>

definition DIRECT_PUBLICATION_LIFECYCLE_KINDS :: "string list" where
  "DIRECT_PUBLICATION_LIFECYCLE_KINDS =
     [''router'', ''router_deferred_coverage'', ''router_not_required'', ''requeue'', ''target_missing'', ''target_closed'',
      ''guarded_open'', ''policy_noop'']"

definition receipt_outcome_of :: "json option \<Rightarrow> receipt_outcome option" where
  "receipt_outcome_of v =
     (if v = Some (JStr ''accepted'') then Some ReceiptAccepted
      else if v = Some (JStr ''deduped'') then Some ReceiptDeduped
      else if v = Some (JStr ''superseded'') then Some ReceiptSuperseded else None)"

definition exactReviewDirectLifecycleReceiptFrom :: "json \<Rightarrow> direct_lifecycle option" where
  "exactReviewDirectLifecycleReceiptFrom v =
     (let receipt = objectValue (Some v); plan = objectValue (map_of receipt ''plan'')
      in case (string_value (map_of plan ''kind''), receipt_outcome_of (map_of receipt ''receiptOutcome'')) of
           (Some kind, Some outcome) \<Rightarrow>
             if length plan \<noteq> 1 \<or> kind \<notin> set DIRECT_PUBLICATION_LIFECYCLE_KINDS then None
             else Some \<lparr>dl_planKind = kind, dl_receiptOutcome = outcome\<rparr>
         | _ \<Rightarrow> None)"

text \<open>\<open>value === null ? null : Number(value)\<close>, valid when null or a positive safe integer.\<close>

definition nullable_id :: "json option \<Rightarrow> int option option" where
  "nullable_id v =
     (if v = Some JNull then Some None else if positive_id (js_number v) then Some (js_number v) else None)"

text \<open>The four outcomes of the live check; exactly one is true.\<close>

definition live_flags :: "(string \<times> json) list \<Rightarrow> bool option list" where
  "live_flags fs =
     map (\<lambda>k. bool_value (map_of fs k)) [''liveProceeded'', ''liveTerminalNoop'', ''liveTerminalMissing'', ''liveGuardedOpen'']"

definition publication_text :: "(string \<times> json) list \<Rightarrow> string \<Rightarrow> string" where
  "publication_text fs k = js_trim (text_of (map_of fs k))"

definition publication_lifecycle :: "(string \<times> json) list \<Rightarrow> direct_lifecycle option" where
  "publication_lifecycle fs = Option.bind (map_of fs ''directLifecycle'') exactReviewDirectLifecycleReceiptFrom"

definition valid_publication_fields :: "(string \<times> json) list \<Rightarrow> int option \<Rightarrow> int option \<Rightarrow> bool" where
  "valid_publication_fields fs leaseRevision claimGeneration \<longleftrightarrow>
     (let runId = publication_text fs ''producerRunId''; attempt = js_number (map_of fs ''producerRunAttempt'');
          protocolVersion = js_number (map_of fs ''protocolVersion'')
      in artifact_pattern (publication_text fs ''artifactName'') \<and> run_id_pattern runId \<and> positive_id attempt
         \<and> publication_text fs ''artifactName'' = ''exact-review-'' @ runId @ ''-'' @ int_str (the attempt)
         \<and> hex_of_length 40 (publication_text fs ''sourceSha'') \<and> item_key_pattern (publication_text fs ''itemKey'')
         \<and> (protocolVersion = Some 1 \<or> protocolVersion = Some 2)
         \<and> (protocolVersion = Some 2 \<longrightarrow> leaseRevision \<noteq> None \<and> claimGeneration \<noteq> None)
         \<and> (own fs ''directLifecycle'' \<longrightarrow> publication_lifecycle fs \<noteq> None)
         \<and> None \<notin> set (live_flags fs) \<and> length (filter (\<lambda>b. b = Some True) (live_flags fs)) = 1)"

definition publication_of :: "(string \<times> json) list \<Rightarrow> int option \<Rightarrow> int option \<Rightarrow> base_decision \<Rightarrow> publication" where
  "publication_of fs leaseRevision claimGeneration producerDecision =
     \<lparr>px_artifactName = publication_text fs ''artifactName'', px_producerRunId = publication_text fs ''producerRunId'',
      px_producerRunAttempt = nat (the (js_number (map_of fs ''producerRunAttempt''))),
      px_sourceSha = publication_text fs ''sourceSha'', px_itemKey = publication_text fs ''itemKey'',
      px_protocolVersion = the (js_number (map_of fs ''protocolVersion'')),
      px_leaseRevision = leaseRevision, px_claimGeneration = claimGeneration,
      px_liveProceeded = the (live_flags fs ! 0), px_liveTerminalNoop = the (live_flags fs ! 1),
      px_liveTerminalMissing = the (live_flags fs ! 2), px_liveGuardedOpen = the (live_flags fs ! 3),
      px_producerDecision = producerDecision, px_directLifecycle = publication_lifecycle fs\<rparr>"

definition exactReviewPublicationFrom :: "json \<Rightarrow> publication option" where
  "exactReviewPublicationFrom v =
     (let fs = objectValue (Some v)
      in case (nullable_id (map_of fs ''leaseRevision''), nullable_id (map_of fs ''claimGeneration''),
               Option.bind (map_of fs ''producerDecision'') exactReviewBaseDecisionFrom) of
           (Some leaseRevision, Some claimGeneration, Some producerDecision) \<Rightarrow>
             if valid_publication_fields fs leaseRevision claimGeneration
             then Some (publication_of fs leaseRevision claimGeneration producerDecision) else None
         | _ \<Rightarrow> None)"

text \<open>The producer's decision has to be about the same item as the publication that wraps it.\<close>

definition producer_matches :: "'a base_decision_scheme \<Rightarrow> publication \<Rightarrow> bool" where
  "producer_matches base p \<longleftrightarrow>
     (let producer = px_producerDecision p
      in bd_sourceAction producer \<noteq> EXACT_REVIEW_ARTIFACT_PUBLISH_SOURCE_ACTION
         \<and> bd_targetRepo producer = bd_targetRepo base \<and> bd_targetBranch producer = bd_targetBranch base
         \<and> bd_itemNumber producer = bd_itemNumber base \<and> bd_itemKind producer = bd_itemKind base
         \<and> bd_sourceEvent producer = bd_sourceEvent base
         \<and> px_itemKey p = bd_targetRepo base @ ''#'' @ nat_str (bd_itemNumber base))"

definition exactReviewDecisionFrom :: "json \<Rightarrow> decision option" where
  "exactReviewDecisionFrom v =
     (case exactReviewBaseDecisionFrom v of None \<Rightarrow> None
      | Some base \<Rightarrow>
          let fs = objectValue (Some v); publication = Option.bind (map_of fs ''publication'') exactReviewPublicationFrom
          in if own fs ''publication'' \<and> publication = None then None
             else case publication of
                 Some p \<Rightarrow>
                   if bd_sourceAction base \<noteq> EXACT_REVIEW_ARTIFACT_PUBLISH_SOURCE_ACTION \<or> \<not> producer_matches base p
                   then None else Some (base_decision.extend base \<lparr>d_publication = Some p\<rparr>)
               | None \<Rightarrow>
                   if bd_sourceAction base = EXACT_REVIEW_ARTIFACT_PUBLISH_SOURCE_ACTION then None
                   else Some (base_decision.extend base \<lparr>d_publication = None\<rparr>))"

subsection \<open>Well-formed decisions\<close>

text \<open>What every decision of the queue satisfies, as a predicate on the typed record.\<close>

definition trimmed :: "string \<Rightarrow> bool" where
  "trimmed s \<longleftrightarrow> js_trim s = s"

definition wf_source :: "'a base_decision_scheme \<Rightarrow> bool" where
  "wf_source d \<longleftrightarrow>
     (bd_expectedSourceRevision d \<noteq> None \<longrightarrow> bd_itemKind d = IssueItem) \<and> check (hex_of_length 64) (bd_expectedSourceRevision d)
     \<and> check (hex_of_length 40) (bd_sourceHeadSha d) \<and> check (hex_of_length 40) (bd_sourceBaseSha d)
     \<and> check (hex_of_length 64) (bd_sourceContentRevision d)
     \<and> check (\<lambda>n. positive_id (Some n)) (bd_sourceAuthoritySeq d)
     \<and> check (\<lambda>t. trimmed t \<and> date_parse t \<noteq> None) (bd_sourceUpdatedAt d)
     \<and> check delivery_pattern (bd_sourceDeliveryId d)"

definition wf_command :: "'a base_decision_scheme \<Rightarrow> bool" where
  "wf_command d \<longleftrightarrow>
     check EXACT_REVIEW_COMMAND_STATUS_MARKER_PATTERN (bd_commandStatusMarker d)
     \<and> check (\<lambda>n. positive_id (Some n)) (bd_statusCommentId d)
     \<and> check (\<lambda>n. positive_id (Some n) \<and> bd_itemKind d = PullItem) (bd_reviewAcknowledgementCommentId d)
     \<and> check (\<lambda>t. length t \<le> EXACT_REVIEW_ADDITIONAL_PROMPT_MAX_CHARS \<and> char_of (0::nat) \<notin> set t) (bd_additionalPrompt d)
     \<and> check (\<lambda>n. positive_id (Some n)) (bd_sourceCommentId d)
     \<and> check (\<lambda>t. trimmed t \<and> date_parse t \<noteq> None) (bd_sourceCommentUpdatedAt d)
     \<and> check (hex_of_length 64) (bd_commandBodyDigest d)
     \<and> (bd_sourceCommentId d = None) = (bd_sourceCommentUpdatedAt d = None)
     \<and> (bd_sourceCommentId d = None) = (bd_commandBodyDigest d = None)
     \<and> (bd_sourceCommentId d = None) = (bd_commandOrigin d = None)"

definition wf_base_decision :: "'a base_decision_scheme \<Rightarrow> bool" where
  "wf_base_decision d \<longleftrightarrow>
     repo_pattern (bd_targetRepo d) \<and> trimmed (bd_targetRepo d) \<and> branch_pattern (bd_targetBranch d) \<and> trimmed (bd_targetBranch d)
     \<and> 0 < bd_itemNumber d \<and> bd_sourceAction d \<noteq> []
     \<and> basePublicationPolicy d = Inr (bd_publicationPolicy d) \<and> wf_source d \<and> wf_command d"

definition wf_publication :: "publication \<Rightarrow> bool" where
  "wf_publication p \<longleftrightarrow>
     artifact_pattern (px_artifactName p) \<and> run_id_pattern (px_producerRunId p) \<and> positive_id (Some (int (px_producerRunAttempt p)))
     \<and> px_artifactName p = ''exact-review-'' @ px_producerRunId p @ ''-'' @ nat_str (px_producerRunAttempt p)
     \<and> hex_of_length 40 (px_sourceSha p) \<and> item_key_pattern (px_itemKey p) \<and> trimmed (px_itemKey p)
     \<and> px_protocolVersion p \<in> {1, 2}
     \<and> check (\<lambda>n. positive_id (Some n)) (px_leaseRevision p) \<and> check (\<lambda>n. positive_id (Some n)) (px_claimGeneration p)
     \<and> (px_protocolVersion p = 2 \<longrightarrow> px_leaseRevision p \<noteq> None \<and> px_claimGeneration p \<noteq> None)
     \<and> length (filter id [px_liveProceeded p, px_liveTerminalNoop p, px_liveTerminalMissing p, px_liveGuardedOpen p]) = 1
     \<and> wf_base_decision (px_producerDecision p)
     \<and> check (\<lambda>l. dl_planKind l \<in> set DIRECT_PUBLICATION_LIFECYCLE_KINDS) (px_directLifecycle p)"

definition wf_decision :: "decision \<Rightarrow> bool" where
  "wf_decision d \<longleftrightarrow>
     wf_base_decision d \<and> decisionPublicationPolicy d = Inr (bd_publicationPolicy d)
     \<and> (case d_publication d of
          None \<Rightarrow> bd_sourceAction d \<noteq> EXACT_REVIEW_ARTIFACT_PUBLISH_SOURCE_ACTION
        | Some p \<Rightarrow> wf_publication p \<and> producer_matches d p \<and> bd_sourceAction d = EXACT_REVIEW_ARTIFACT_PUBLISH_SOURCE_ACTION)"

lemma dropWhile_fixed: "dropWhile P xs = xs \<longleftrightarrow> xs = [] \<or> \<not> P (hd xs)"
proof (cases xs)
  case (Cons a as)
  have "length (dropWhile P as) \<le> length as" by (rule length_dropWhile_le)
  then show ?thesis using Cons by auto
qed simp

lemma dropWhile_stops: "dropWhile P xs = [] \<or> \<not> P (hd (dropWhile P xs))"
  by (induction xs) auto

lemma js_trim_idem [simp]: "js_trim (js_trim s) = js_trim s"
proof -
  define a where "a = dropWhile is_js_space s"
  define b where "b = dropWhile is_js_space (rev a)"
  have b: "b = [] \<or> \<not> is_js_space (hd b)" unfolding b_def by (rule dropWhile_stops)
  have a: "a = [] \<or> \<not> is_js_space (hd a)" unfolding a_def by (rule dropWhile_stops)
  have "rev b = [] \<or> \<not> is_js_space (hd (rev b))"
  proof (cases "rev b = []")
    case False
    define w where "w = takeWhile is_js_space (rev a)"
    have "rev a = w @ b" unfolding b_def w_def by (rule takeWhile_dropWhile_id[symmetric])
    then have "a = rev b @ rev w" by (simp add: rev_swap)
    with False have "hd a = hd (rev b)" "a \<noteq> []" by auto
    with a show ?thesis by simp
  qed simp
  then have *: "dropWhile is_js_space (rev b) = rev b" by (simp add: dropWhile_fixed)
  from b have **: "dropWhile is_js_space b = b" by (simp add: dropWhile_fixed)
  have "js_trim s = rev b" by (simp add: js_trim_def a_def b_def)
  moreover have "js_trim (rev b) = rev b" by (simp add: js_trim_def * **)
  ultimately show ?thesis by simp
qed

lemma trimmed_trim [simp]: "trimmed (js_trim s)"
  by (simp add: trimmed_def)

lemma trim_without_space: "list_all (\<lambda>c. \<not> is_js_space c) s \<Longrightarrow> js_trim s = s"
proof -
  assume s: "list_all (\<lambda>c. \<not> is_js_space c) s"
  then have "s = [] \<or> \<not> is_js_space (hd s)" "rev s = [] \<or> \<not> is_js_space (hd (rev s))"
    using hd_in_set[of s] hd_in_set[of "rev s"] by (auto simp: list_all_iff)
  then show ?thesis by (simp add: js_trim_def dropWhile_fixed[THEN iffD2])
qed

lemma trim_dec: "list_all is_dec s \<Longrightarrow> js_trim s = s"
  by (rule js_trim_digits)

lemma hex_not_space: "is_lower_hex c \<Longrightarrow> \<not> is_js_space c"
  by (auto simp: is_lower_hex_def is_dec_def is_js_space_def Let_def)

lemma trim_hex: "hex_of_length n s \<Longrightarrow> js_trim s = s"
  by (rule trim_without_space) (auto simp: hex_of_length_def list_all_iff dest: hex_not_space)

lemma lower_hex_char: "is_lower_hex c \<Longrightarrow> to_lower_char c = c"
  unfolding is_lower_hex_def is_dec_def to_lower_char_def Let_def by (simp split: if_splits) linarith

lemma lower_hex: "hex_of_length n s \<Longrightarrow> to_lower s = s"
  unfolding hex_of_length_def list_all_iff to_lower_def by (intro map_idI) (auto intro: lower_hex_char)

subsection \<open>Reading what was written\<close>

text \<open>An object whose optional entries are left out when absent.\<close>

definition present :: "(string \<times> json option) list \<Rightarrow> (string \<times> json) list" where
  "present t = concat (map (\<lambda>(k, v). opt_field k (\<lambda>x. x) v) t)"

lemma present_other: "k \<notin> set (map fst t) \<Longrightarrow> map_of (present t) k = None"
  by (induction t) (auto simp: present_def opt_field_def split: option.splits)

lemma present_lookup: "distinct (map fst t) \<Longrightarrow> (k, v) \<in> set t \<Longrightarrow> map_of (present t) k = v"
proof (induction t)
  case (Cons a t)
  then show ?case
    using present_other[of k t] by (cases a; cases v) (auto simp: present_def opt_field_def image_iff split: option.splits)
qed simp

definition base_table :: "'a base_decision_scheme \<Rightarrow> (string \<times> json option) list" where
  "base_table d =
     [(''targetRepo'', Some (JStr (bd_targetRepo d))), (''targetBranch'', Some (JStr (bd_targetBranch d))),
      (''itemNumber'', Some (JNum (int (bd_itemNumber d)))),
      (''itemKind'', Some (JStr (if bd_itemKind d = PullItem then ''pull_request'' else ''issue''))),
      (''sourceEvent'', Some (JStr (if bd_sourceEvent d = PullRequestEvent then ''pull_request'' else ''issues''))),
      (''sourceAction'', Some (JStr (bd_sourceAction d))), (''supersedesInProgress'', Some (JBool (bd_supersedesInProgress d))),
      (''publicationPolicy'', map_option (\<lambda>p. JStr ''record_comment_only'') (bd_publicationPolicy d)),
      (''sourceHeadSha'', map_option JStr (bd_sourceHeadSha d)), (''sourceBaseSha'', map_option JStr (bd_sourceBaseSha d)),
      (''sourceIsDraft'', map_option JBool (bd_sourceIsDraft d)),
      (''sourceContentRevision'', map_option JStr (bd_sourceContentRevision d)),
      (''expectedSourceRevision'', map_option JStr (bd_expectedSourceRevision d)),
      (''sourceHeadVerified'', map_option JBool (bd_sourceHeadVerified d)),
      (''sourceAuthoritySeq'', map_option JNum (bd_sourceAuthoritySeq d)),
      (''sourceUpdatedAt'', map_option JStr (bd_sourceUpdatedAt d)), (''sourceDeliveryId'', map_option JStr (bd_sourceDeliveryId d)),
      (''codexTimeoutMs'', map_option JNum (bd_codexTimeoutMs d)), (''mediaProofTimeoutMs'', map_option JNum (bd_mediaProofTimeoutMs d)),
      (''commandStatusMarker'', map_option JStr (bd_commandStatusMarker d)),
      (''statusCommentId'', map_option JNum (bd_statusCommentId d)),
      (''reviewAcknowledgementCommentId'', map_option JNum (bd_reviewAcknowledgementCommentId d)),
      (''additionalPrompt'', map_option JStr (bd_additionalPrompt d)), (''sourceCommentId'', map_option JNum (bd_sourceCommentId d)),
      (''sourceCommentUpdatedAt'', map_option JStr (bd_sourceCommentUpdatedAt d)),
      (''commandBodyDigest'', map_option JStr (bd_commandBodyDigest d)),
      (''commandOrigin'', map_option (\<lambda>x. command_origin_json (Some x)) (bd_commandOrigin d)),
      (''sourceCommentVerified'', map_option JBool (bd_sourceCommentVerified d))]"

lemma opt_field_present: "opt_field k (\<lambda>x. x) (map_option f v) = opt_field k f v" "opt_field k (\<lambda>x. x) (Some x) = [(k, x)]"
  by (auto simp: opt_field_def split: option.splits)

lemma base_table_fields: "base_decision_fields d = present (base_table d)"
  by (simp add: base_decision_fields_def base_table_def present_def opt_field_present)

lemma base_table_distinct: "distinct (map fst (base_table d))"
  by (simp add: base_table_def)

lemma base_fields_lookup:
  "map_of (base_decision_fields d) ''targetRepo'' = Some (JStr (bd_targetRepo d))"
  "map_of (base_decision_fields d) ''targetBranch'' = Some (JStr (bd_targetBranch d))"
  "map_of (base_decision_fields d) ''itemNumber'' = Some (JNum (int (bd_itemNumber d)))"
  "map_of (base_decision_fields d) ''itemKind'' = Some (JStr (if bd_itemKind d = PullItem then ''pull_request'' else ''issue''))"
  "map_of (base_decision_fields d) ''sourceEvent'' =
     Some (JStr (if bd_sourceEvent d = PullRequestEvent then ''pull_request'' else ''issues''))"
  "map_of (base_decision_fields d) ''sourceAction'' = Some (JStr (bd_sourceAction d))"
  "map_of (base_decision_fields d) ''supersedesInProgress'' = Some (JBool (bd_supersedesInProgress d))"
  "map_of (base_decision_fields d) ''publicationPolicy'' = map_option (\<lambda>p. JStr ''record_comment_only'') (bd_publicationPolicy d)"
  "map_of (base_decision_fields d) ''sourceHeadSha'' = map_option JStr (bd_sourceHeadSha d)"
  "map_of (base_decision_fields d) ''sourceBaseSha'' = map_option JStr (bd_sourceBaseSha d)"
  "map_of (base_decision_fields d) ''sourceIsDraft'' = map_option JBool (bd_sourceIsDraft d)"
  "map_of (base_decision_fields d) ''sourceContentRevision'' = map_option JStr (bd_sourceContentRevision d)"
  "map_of (base_decision_fields d) ''expectedSourceRevision'' = map_option JStr (bd_expectedSourceRevision d)"
  "map_of (base_decision_fields d) ''sourceHeadVerified'' = map_option JBool (bd_sourceHeadVerified d)"
  "map_of (base_decision_fields d) ''sourceAuthoritySeq'' = map_option JNum (bd_sourceAuthoritySeq d)"
  "map_of (base_decision_fields d) ''sourceUpdatedAt'' = map_option JStr (bd_sourceUpdatedAt d)"
  "map_of (base_decision_fields d) ''sourceDeliveryId'' = map_option JStr (bd_sourceDeliveryId d)"
  "map_of (base_decision_fields d) ''codexTimeoutMs'' = map_option JNum (bd_codexTimeoutMs d)"
  "map_of (base_decision_fields d) ''mediaProofTimeoutMs'' = map_option JNum (bd_mediaProofTimeoutMs d)"
  "map_of (base_decision_fields d) ''commandStatusMarker'' = map_option JStr (bd_commandStatusMarker d)"
  "map_of (base_decision_fields d) ''statusCommentId'' = map_option JNum (bd_statusCommentId d)"
  "map_of (base_decision_fields d) ''reviewAcknowledgementCommentId'' = map_option JNum (bd_reviewAcknowledgementCommentId d)"
  "map_of (base_decision_fields d) ''additionalPrompt'' = map_option JStr (bd_additionalPrompt d)"
  "map_of (base_decision_fields d) ''sourceCommentId'' = map_option JNum (bd_sourceCommentId d)"
  "map_of (base_decision_fields d) ''sourceCommentUpdatedAt'' = map_option JStr (bd_sourceCommentUpdatedAt d)"
  "map_of (base_decision_fields d) ''commandBodyDigest'' = map_option JStr (bd_commandBodyDigest d)"
  "map_of (base_decision_fields d) ''commandOrigin'' = map_option (\<lambda>x. command_origin_json (Some x)) (bd_commandOrigin d)"
  "map_of (base_decision_fields d) ''sourceCommentVerified'' = map_option JBool (bd_sourceCommentVerified d)"
  unfolding base_table_fields by (rule present_lookup[OF base_table_distinct], simp add: base_table_def)+

lemma base_fields_absent:
  "map_of (base_decision_fields d) ''publication'' = None" "map_of (base_decision_fields d) ''publication_policy'' = None"
  unfolding base_table_fields by (rule present_other, simp add: base_table_def)+

lemma text_of_simps [simp]: "text_of (Some (JStr s)) = s" "text_of None = []"
  by (auto simp: text_of_def falsy_def)

lemma js_number_simps [simp]: "js_number (Some (JNum n)) = Some n" "js_number None = None"
  by (simp_all add: js_number_def)

lemma value_simps [simp]: "string_value (map_option JStr v) = v" "string_value None = None" "bool_value (map_option JBool b') = b'"
  "string_value (Some (JStr s)) = Some s" "bool_value (Some (JBool b)) = Some b"
  "js_number (map_option JNum n) = n"
  by (cases v; cases b'; cases n; simp add: string_value_def bool_value_def)+

lemma own_text_stored:
  assumes "map_of fs k = map_option JStr v" and "check trimmed v"
  shows "own_text fs k = v"
  using assms by (cases v) (auto simp: own_text_def own_def trimmed_def)

lemma own_lower_stored:
  assumes "map_of fs k = map_option JStr v" and "check (hex_of_length n) v"
  shows "own_lower fs k = v"
  using assms own_text_stored[of fs k v] by (cases v) (auto simp: trimmed_def trim_hex lower_hex)

lemma own_stored: "map_of fs k = map_option f v \<Longrightarrow> own fs k \<longleftrightarrow> v \<noteq> None"
  by (auto simp: own_def)

lemma own_number_stored: "map_of fs k = map_option JNum v \<Longrightarrow> own_number fs k = v"
  by (auto simp: own_number_def own_def)

lemma check_mono: "check P v \<Longrightarrow> (\<And>x. P x \<Longrightarrow> Q x) \<Longrightarrow> check Q v"
  by (cases v) auto


lemma bool_value_None [simp]: "bool_value None = None"
  by (simp add: bool_value_def)

lemma basePublicationPolicy_ok:
  "basePublicationPolicy d = Inr (bd_publicationPolicy d) \<longleftrightarrow>
     (bd_sourceAction d = MANUAL_REVIEW_SOURCE_ACTION \<longrightarrow> bd_publicationPolicy d \<noteq> None)
     \<and> (bd_publicationPolicy d \<noteq> None \<longrightarrow>
          bd_sourceAction d = MANUAL_REVIEW_SOURCE_ACTION \<or> bd_sourceAction d = EXACT_REVIEW_ARTIFACT_PUBLISH_SOURCE_ACTION)"
  by (auto simp: basePublicationPolicy_def)

text \<open>Fields that agree with those of a well-formed decision, the publication aside, parse to it.\<close>

definition stores :: "'a base_decision_scheme \<Rightarrow> (string \<times> json) list \<Rightarrow> bool" where
  "stores d fs \<longleftrightarrow> (\<forall>k. k \<noteq> ''publication'' \<longrightarrow> map_of fs k = map_of (base_decision_fields d) k)"

lemma stores_lookup: "stores d fs \<Longrightarrow> k \<noteq> ''publication'' \<Longrightarrow> map_of fs k = map_of (base_decision_fields d) k"
  by (simp add: stores_def)

lemma stored_source_fields:
  assumes "stores d fs" and "wf_source d"
  shows "valid_source_fields fs"
proof -
  note look = stores_lookup[OF assms(1)] base_fields_lookup
  note wf = assms(2)[unfolded wf_source_def]
  have texts: "own_lower fs ''sourceHeadSha'' = bd_sourceHeadSha d" "own_lower fs ''sourceBaseSha'' = bd_sourceBaseSha d"
    "own_lower fs ''sourceContentRevision'' = bd_sourceContentRevision d" "own_text fs ''sourceUpdatedAt'' = bd_sourceUpdatedAt d"
    using wf by (auto intro!: own_lower_stored own_text_stored simp: look elim: check_mono)
  from wf show ?thesis
    unfolding valid_source_fields_def texts
    by (auto simp: own_def look elim: check_mono)
qed

lemma stored_command_fields:
  assumes "stores d fs" and "wf_command d"
  shows "valid_command_fields (bd_itemKind d) fs"
proof -
  note look = stores_lookup[OF assms(1)] base_fields_lookup
  note wf = assms(2)[unfolded wf_command_def]
  have texts: "own_lower fs ''commandBodyDigest'' = bd_commandBodyDigest d"
    "own_text fs ''sourceCommentUpdatedAt'' = bd_sourceCommentUpdatedAt d"
    using wf by (auto intro!: own_lower_stored own_text_stored simp: look elim: check_mono)
  have origin: "own fs ''commandOrigin'' \<longrightarrow> command_origin_of (text_of (map_of fs ''commandOrigin'')) \<noteq> None"
    by (cases "bd_commandOrigin d") (auto simp: own_def look command_origin_json_def command_origin_of_def split: command_origin.splits)
  have count: "command_metadata fs = 0 \<or> command_metadata fs = 4"
    using wf by (cases "bd_sourceCommentId d") (auto simp: command_metadata_def own_def look)
  from wf show ?thesis
    unfolding valid_command_fields_def texts
    by (intro conjI origin count) (auto simp: own_def look elim: check_mono)
qed

lemma stored_base_decision:
  assumes "stores d fs" and "wf_base_decision d" and "json_policy (JObj fs) = Some (bd_publicationPolicy d)"
  shows "exactReviewBaseDecisionFrom (JObj fs) = Some (base_decision.truncate d)"
proof -
  note look = stores_lookup[OF assms(1)] base_fields_lookup
  note wf = assms(2)[unfolded wf_base_decision_def wf_source_def wf_command_def]
  from assms(2) have "wf_source d" "wf_command d" by (simp_all add: wf_base_decision_def)
  note valid = stored_source_fields[OF assms(1) this(1)] stored_command_fields[OF assms(1) this(2)]
  have texts: "own_lower fs ''sourceHeadSha'' = bd_sourceHeadSha d" "own_lower fs ''sourceBaseSha'' = bd_sourceBaseSha d"
    "own_lower fs ''sourceContentRevision'' = bd_sourceContentRevision d" "own_text fs ''sourceUpdatedAt'' = bd_sourceUpdatedAt d"
    "own_lower fs ''commandBodyDigest'' = bd_commandBodyDigest d"
    "own_text fs ''sourceCommentUpdatedAt'' = bd_sourceCommentUpdatedAt d"
    using wf by (auto intro!: own_lower_stored own_text_stored simp: look elim: check_mono)
  have number: "own_number fs ''sourceAuthoritySeq'' = bd_sourceAuthoritySeq d" "own_number fs ''statusCommentId'' = bd_statusCommentId d"
    "own_number fs ''reviewAcknowledgementCommentId'' = bd_reviewAcknowledgementCommentId d"
    "own_number fs ''sourceCommentId'' = bd_sourceCommentId d"
    by (simp_all add: own_number_stored look)
  have origin: "Option.bind (map_of fs ''commandOrigin'') (\<lambda>o'. command_origin_of (text_of (Some o'))) = bd_commandOrigin d"
    by (cases "bd_commandOrigin d") (auto simp: look command_origin_json_def command_origin_of_def split: command_origin.splits)
  have kind: "item_kind_of (text_of (map_of fs ''itemKind'')) = Some (bd_itemKind d)"
    "source_event_of (text_of (map_of fs ''sourceEvent'')) = Some (bd_sourceEvent d)"
    by (cases "bd_itemKind d"; cases "bd_sourceEvent d"; simp add: look item_kind_of_def source_event_of_def)+
  have req: "js_trim (text_of (map_of fs ''targetRepo'')) = bd_targetRepo d" "js_trim (text_of (map_of fs ''targetBranch'')) = bd_targetBranch d"
    "text_of (map_of fs ''sourceAction'') = bd_sourceAction d" "js_number (map_of fs ''itemNumber'') = Some (int (bd_itemNumber d))"
    using wf by (simp_all add: look trimmed_def)
  have rest: "(\<not> falsy (map_of fs ''supersedesInProgress'')) = bd_supersedesInProgress d"
    "bool_value (map_of fs ''sourceIsDraft'') = bd_sourceIsDraft d" "string_value (map_of fs ''expectedSourceRevision'') = bd_expectedSourceRevision d"
    "bool_value (map_of fs ''sourceHeadVerified'') = bd_sourceHeadVerified d" "string_value (map_of fs ''sourceDeliveryId'') = bd_sourceDeliveryId d"
    "js_number (map_of fs ''codexTimeoutMs'') = bd_codexTimeoutMs d" "js_number (map_of fs ''mediaProofTimeoutMs'') = bd_mediaProofTimeoutMs d"
    "string_value (map_of fs ''commandStatusMarker'') = bd_commandStatusMarker d" "string_value (map_of fs ''additionalPrompt'') = bd_additionalPrompt d"
    "bool_value (map_of fs ''sourceCommentVerified'') = bd_sourceCommentVerified d"
    by (simp_all add: look falsy_def)
  have "objectValue (Some (JObj fs)) = fs" "0 < bd_itemNumber d" "bd_sourceAction d \<noteq> []" "repo_pattern (bd_targetRepo d)" "branch_pattern (bd_targetBranch d)"
    using wf by (simp_all add: objectValue_def)
  with valid show ?thesis
    unfolding exactReviewBaseDecisionFrom_def Let_def
    by (simp add: assms(3) texts number origin kind req rest base_decision.defs cong: if_cong option.case_cong)
qed

lemma basePublicationPolicy_cases: "basePublicationPolicy d = Inr p \<Longrightarrow> p = bd_publicationPolicy d"
  by (simp add: basePublicationPolicy_def split: if_splits)

lemma stored_policy:
  assumes "stores d fs" and "basePublicationPolicy d = Inr (bd_publicationPolicy d)"
    and "map_of fs ''publication'' = None \<or>
      (\<exists>ps v. map_of fs ''publication'' = Some (JObj ps) \<and> map_of ps ''producerDecision'' = Some v
         \<and> json_policy v = Some (bd_publicationPolicy d))"
  shows "json_policy (JObj fs) = Some (bd_publicationPolicy d)"
proof -
  note look = stores_lookup[OF assms(1)] base_fields_lookup base_fields_absent
  have present: "own fs ''publicationPolicy'' \<longleftrightarrow> bd_publicationPolicy d \<noteq> None" "\<not> own fs ''publication_policy''"
    by (simp_all add: own_def look)
  have policy: "(if bd_publicationPolicy d \<noteq> None then Some RecordCommentOnly else None) = bd_publicationPolicy d"
    by (cases "bd_publicationPolicy d") (simp_all, metis publication_policy.exhaust)
  have stored: "bd_publicationPolicy d \<noteq> None \<longrightarrow> map_of fs ''publicationPolicy'' = Some (JStr ''record_comment_only'')"
    "map_of fs ''sourceAction'' = Some (JStr (bd_sourceAction d))"
    by (auto simp: look)
  have "(case map_of fs ''publication'' of None \<Rightarrow> Some (bd_publicationPolicy d)
     | Some (JObj ps) \<Rightarrow> (case map_of ps ''producerDecision'' of None \<Rightarrow> None
          | Some v \<Rightarrow> if json_policy v = Some (bd_publicationPolicy d) then Some (bd_publicationPolicy d) else None)
     | Some _ \<Rightarrow> None) = Some (bd_publicationPolicy d)"
    using assms(3) by (elim disjE exE conjE) simp_all
  moreover have "bd_sourceAction d = MANUAL_REVIEW_SOURCE_ACTION \<longrightarrow> bd_publicationPolicy d \<noteq> None"
    "bd_publicationPolicy d \<noteq> None \<longrightarrow>
       bd_sourceAction d = MANUAL_REVIEW_SOURCE_ACTION \<or> bd_sourceAction d = EXACT_REVIEW_ARTIFACT_PUBLISH_SOURCE_ACTION"
    using assms(2)[unfolded basePublicationPolicy_ok] by blast+
  ultimately show ?thesis
    using stored(1) unfolding json_policy.simps Let_def present(1) policy stored(2) option.case js_string.simps option.inject json.inject
    by (simp only: present(2) simp_thms if_False) (auto split: if_splits)
qed

lemma publication_json_lookup:
  assumes "publication_json p = JObj fs"
  shows "map_of fs ''artifactName'' = Some (JStr (px_artifactName p))" "map_of fs ''producerRunId'' = Some (JStr (px_producerRunId p))"
    "map_of fs ''producerRunAttempt'' = Some (JNum (int (px_producerRunAttempt p)))"
    "map_of fs ''sourceSha'' = Some (JStr (px_sourceSha p))" "map_of fs ''itemKey'' = Some (JStr (px_itemKey p))"
    "map_of fs ''protocolVersion'' = Some (JNum (px_protocolVersion p))"
    "map_of fs ''leaseRevision'' = Some (int_json (px_leaseRevision p))" "map_of fs ''claimGeneration'' = Some (int_json (px_claimGeneration p))"
    "map_of fs ''liveProceeded'' = Some (JBool (px_liveProceeded p))" "map_of fs ''liveTerminalNoop'' = Some (JBool (px_liveTerminalNoop p))"
    "map_of fs ''liveTerminalMissing'' = Some (JBool (px_liveTerminalMissing p))"
    "map_of fs ''liveGuardedOpen'' = Some (JBool (px_liveGuardedOpen p))"
    "map_of fs ''producerDecision'' = Some (JObj (base_decision_fields (px_producerDecision p)))"
    "map_of fs ''directLifecycle'' = map_option (\<lambda>l. JObj [(''plan'', JObj [(''kind'', JStr (dl_planKind l))]),
       (''receiptOutcome'', receipt_outcome_json (dl_receiptOutcome l))]) (px_directLifecycle p)"
  using assms by (auto simp: publication_json_def opt_field_def split: option.splits)

lemma nullable_stored: "check (\<lambda>n. positive_id (Some n)) v \<Longrightarrow> nullable_id (Some (int_json v)) = Some v"
  by (cases v) (auto simp: nullable_id_def int_json_def)

lemma lifecycle_stored:
  assumes "dl_planKind l \<in> set DIRECT_PUBLICATION_LIFECYCLE_KINDS"
  shows "exactReviewDirectLifecycleReceiptFrom (JObj [(''plan'', JObj [(''kind'', JStr (dl_planKind l))]),
     (''receiptOutcome'', receipt_outcome_json (dl_receiptOutcome l))]) = Some l"
  using assms by (cases l; cases "dl_receiptOutcome l")
    (simp_all add: exactReviewDirectLifecycleReceiptFrom_def objectValue_def receipt_outcome_json_def receipt_outcome_of_def)

lemma stored_producer:
  assumes "wf_base_decision d"
  shows "json_policy (JObj (base_decision_fields d)) = Some (bd_publicationPolicy d)"
    "exactReviewBaseDecisionFrom (JObj (base_decision_fields d)) = Some (base_decision.truncate d)"
proof -
  have st: "stores d (base_decision_fields d)" by (simp add: stores_def)
  show policy: "json_policy (JObj (base_decision_fields d)) = Some (bd_publicationPolicy d)"
    using assms by (intro stored_policy[OF st]) (simp_all add: wf_base_decision_def base_fields_absent)
  show "exactReviewBaseDecisionFrom (JObj (base_decision_fields d)) = Some (base_decision.truncate d)"
    by (rule stored_base_decision[OF st assms policy])
qed

lemma truncate_base [simp]: "base_decision.truncate (d :: base_decision) = d"
  by (simp add: base_decision.defs)

lemma dec_no_space: "list_all is_dec s \<Longrightarrow> list_all (\<lambda>c. \<not> is_js_space c) s"
  by (auto simp: list_all_iff is_dec_not_space)

lemma stored_publication:
  assumes "wf_publication p"
  shows "exactReviewPublicationFrom (publication_json p) = Some p"
proof -
  obtain fs where fs: "publication_json p = JObj fs" by (simp add: publication_json_def)
  note look = publication_json_lookup[OF fs]
  note wf = assms[unfolded wf_publication_def]
  have trim: "js_trim (px_artifactName p) = px_artifactName p" "js_trim (px_producerRunId p) = px_producerRunId p"
    "js_trim (px_sourceSha p) = px_sourceSha p" "js_trim (px_itemKey p) = px_itemKey p"
  proof -
    show "js_trim (px_producerRunId p) = px_producerRunId p" using wf by (simp add: run_id_pattern_def trim_dec)
    show "js_trim (px_sourceSha p) = px_sourceSha p" using wf trim_hex by blast
    show "js_trim (px_itemKey p) = px_itemKey p" using wf by (simp add: trimmed_def)
    have "list_all (\<lambda>c. \<not> is_js_space c) ''exact-review-''" "list_all (\<lambda>c. \<not> is_js_space c) ''-''"
      by (simp_all add: is_js_space_def)
    moreover have "list_all (\<lambda>c. \<not> is_js_space c) (px_producerRunId p)"
      using wf by (intro dec_no_space) (simp add: run_id_pattern_def)
    ultimately have "list_all (\<lambda>c. \<not> is_js_space c) (''exact-review-'' @ px_producerRunId p @ ''-'' @ nat_str (px_producerRunAttempt p))"
      using dec_no_space[OF nat_str_digits] by (simp only: list_all_append)
    moreover have "px_artifactName p = ''exact-review-'' @ px_producerRunId p @ ''-'' @ nat_str (px_producerRunAttempt p)"
      using wf by blast
    ultimately show "js_trim (px_artifactName p) = px_artifactName p" by (simp only: trim_without_space)
  qed
  have live: "live_flags fs = map Some [px_liveProceeded p, px_liveTerminalNoop p, px_liveTerminalMissing p, px_liveGuardedOpen p]"
    by (simp add: look live_flags_def)
  have lifecycle: "publication_lifecycle fs = px_directLifecycle p"
    using wf by (cases "px_directLifecycle p") (auto simp: look lifecycle_stored publication_lifecycle_def)
  have parts: "nullable_id (map_of fs ''leaseRevision'') = Some (px_leaseRevision p)"
    "nullable_id (map_of fs ''claimGeneration'') = Some (px_claimGeneration p)"
    "Option.bind (map_of fs ''producerDecision'') exactReviewBaseDecisionFrom = Some (px_producerDecision p)"
    using wf by (simp_all add: look nullable_stored stored_producer)
  have rest: "own fs ''directLifecycle'' \<longleftrightarrow> px_directLifecycle p \<noteq> None" "objectValue (Some (JObj fs)) = fs"
    "publication_text fs ''artifactName'' = px_artifactName p" "publication_text fs ''producerRunId'' = px_producerRunId p"
    "publication_text fs ''sourceSha'' = px_sourceSha p" "publication_text fs ''itemKey'' = px_itemKey p"
    "js_number (map_of fs ''producerRunAttempt'') = Some (int (px_producerRunAttempt p))"
    "js_number (map_of fs ''protocolVersion'') = Some (px_protocolVersion p)"
    by (auto simp: own_def objectValue_def look publication_text_def trim)
  have number: "int_str (int (px_producerRunAttempt p)) = nat_str (px_producerRunAttempt p)" by (simp add: int_str_def)
  have live_one: "length (filter id [px_liveProceeded p, px_liveTerminalNoop p, px_liveTerminalMissing p, px_liveGuardedOpen p]) = 1"
    using wf by blast
  have "valid_publication_fields fs (px_leaseRevision p) (px_claimGeneration p)"
    unfolding valid_publication_fields_def Let_def live lifecycle rest option.sel number
    using wf live_one by (auto split: if_splits)
  moreover have "publication_of fs (px_leaseRevision p) (px_claimGeneration p) (px_producerDecision p) = p"
    unfolding publication_of_def live lifecycle rest option.sel by (cases p) simp
  ultimately show ?thesis unfolding exactReviewPublicationFrom_def fs Let_def rest parts by simp
qed

lemma decision_json_decodes:
  assumes "wf_decision d"
  shows "exactReviewDecisionFrom (decision_json d) = Some d"
proof -
  let ?fs = "base_decision_fields d @ opt_field ''publication'' publication_json (d_publication d)"
  note wf = assms[unfolded wf_decision_def]
  have pub: "map_of ?fs ''publication'' = map_option publication_json (d_publication d)"
    by (simp add: map_add_def base_fields_absent opt_field_def split: option.splits)
  have st: "stores d ?fs"
    by (auto simp: stores_def map_add_def opt_field_def split: option.splits)
  have base_policy: "basePublicationPolicy d = Inr (bd_publicationPolicy d)" using wf by (simp add: wf_base_decision_def)
  have policy: "json_policy (JObj ?fs) = Some (bd_publicationPolicy d)"
  proof (rule stored_policy[OF st base_policy])
    show "map_of ?fs ''publication'' = None \<or> (\<exists>ps v. map_of ?fs ''publication'' = Some (JObj ps)
        \<and> map_of ps ''producerDecision'' = Some v \<and> json_policy v = Some (bd_publicationPolicy d))"
    proof (cases "d_publication d")
      case (Some p)
      obtain ps where ps: "publication_json p = JObj ps" by (simp add: publication_json_def)
      from Some wf have "wf_base_decision (px_producerDecision p)" "basePublicationPolicy (px_producerDecision p) = Inr (bd_publicationPolicy d)"
        by (auto simp: wf_publication_def decisionPublicationPolicy_def split: sum.splits if_splits)
      then have "json_policy (JObj (base_decision_fields (px_producerDecision p))) = Some (bd_publicationPolicy d)"
        using stored_producer(1) basePublicationPolicy_cases by metis
      moreover have "map_of ?fs ''publication'' = Some (JObj ps)" unfolding pub by (simp add: Some ps)
      ultimately show ?thesis using publication_json_lookup(13)[OF ps] by blast
    next
      case None
      show ?thesis unfolding pub by (simp add: None)
    qed
  qed
  have base: "exactReviewBaseDecisionFrom (JObj ?fs) = Some (base_decision.truncate d)"
    using stored_base_decision[OF st _ policy] wf by simp
  have fields: "objectValue (Some (JObj ?fs)) = ?fs" by (simp add: objectValue_def)
  show ?thesis
  proof (cases "d_publication d")
    case None
    with wf show ?thesis unfolding exactReviewDecisionFrom_def decision_json_def base Let_def fields pub own_def
      by (cases d) (simp add: base_decision.defs)
  next
    case (Some p)
    with wf have "exactReviewPublicationFrom (publication_json p) = Some p" by (simp add: stored_publication)
    with Some wf show ?thesis unfolding exactReviewDecisionFrom_def decision_json_def base Let_def fields pub own_def
      by (cases d) (simp add: base_decision.defs producer_matches_def Let_def)
  qed
qed

subsection \<open>What the parser accepts\<close>

text \<open>
  The source action is text in the object and in its producer's decision. \<open>String(value || "")\<close>
  would also accept an array that holds the text, which the policy check does not recognize.
\<close>

definition action_is_text :: "json \<Rightarrow> bool" where
  "action_is_text v \<longleftrightarrow> string_value (map_of (objectValue (Some v)) ''sourceAction'') \<noteq> None"

definition text_actions :: "json \<Rightarrow> bool" where
  "text_actions v \<longleftrightarrow> action_is_text v
     \<and> check action_is_text (map_of (objectValue (map_of (objectValue (Some v)) ''publication'')) ''producerDecision'')"

lemma string_value_Some: "string_value v = Some s \<longleftrightarrow> v = Some (JStr s)"
  by (auto simp: string_value_def split: option.splits json.splits)

lemma own_text_trimmed: "own_text fs k = Some t \<Longrightarrow> trimmed t"
  by (auto simp: own_text_def split: if_splits)

lemma json_policy_facts:
  assumes "json_policy v = Some policy" and "action_is_text v"
  shows "\<exists>fs a. v = JObj fs \<and> map_of fs ''sourceAction'' = Some (JStr a)
    \<and> (a = MANUAL_REVIEW_SOURCE_ACTION \<longrightarrow> policy \<noteq> None)
    \<and> (policy \<noteq> None \<longrightarrow> a = MANUAL_REVIEW_SOURCE_ACTION \<or> a = EXACT_REVIEW_ARTIFACT_PUBLISH_SOURCE_ACTION)
    \<and> (\<forall>x. map_of fs ''publication'' = Some x \<longrightarrow>
         (\<exists>ps d. x = JObj ps \<and> map_of ps ''producerDecision'' = Some d \<and> json_policy d = Some policy))"
proof (cases v)
  case (JObj fs)
  with assms(2) obtain a where a: "map_of fs ''sourceAction'' = Some (JStr a)"
    by (auto simp: action_is_text_def objectValue_def string_value_Some)
  from assms(1) JObj a show ?thesis
    by (auto simp: json_policy.simps Let_def split: if_splits option.splits json.splits)
qed (use assms(1) in \<open>simp_all add: json_policy.simps\<close>)

lemma base_parsed:
  assumes "exactReviewBaseDecisionFrom v = Some b"
  obtains policy n kind event fs where "fs = objectValue (Some v)" "json_policy v = Some policy"
    "js_number (map_of fs ''itemNumber'') = Some n" "item_kind_of (text_of (map_of fs ''itemKind'')) = Some kind" "0 < n"
    "repo_pattern (bd_targetRepo b)" "branch_pattern (bd_targetBranch b)" "bd_sourceAction b \<noteq> []"
    "valid_source_fields fs" "valid_command_fields kind fs"
    "bd_targetRepo b = js_trim (text_of (map_of fs ''targetRepo''))" "bd_targetBranch b = js_trim (text_of (map_of fs ''targetBranch''))"
    "bd_itemNumber b = nat n" "bd_itemKind b = kind" "bd_sourceAction b = text_of (map_of fs ''sourceAction'')"
    "bd_publicationPolicy b = policy"
    "bd_sourceHeadSha b = own_lower fs ''sourceHeadSha''" "bd_sourceBaseSha b = own_lower fs ''sourceBaseSha''"
    "bd_sourceContentRevision b = own_lower fs ''sourceContentRevision''"
    "bd_expectedSourceRevision b = string_value (map_of fs ''expectedSourceRevision'')"
    "bd_sourceAuthoritySeq b = own_number fs ''sourceAuthoritySeq''" "bd_sourceUpdatedAt b = own_text fs ''sourceUpdatedAt''"
    "bd_sourceDeliveryId b = string_value (map_of fs ''sourceDeliveryId'')"
    "bd_commandStatusMarker b = string_value (map_of fs ''commandStatusMarker'')"
    "bd_statusCommentId b = own_number fs ''statusCommentId''"
    "bd_reviewAcknowledgementCommentId b = own_number fs ''reviewAcknowledgementCommentId''"
    "bd_additionalPrompt b = string_value (map_of fs ''additionalPrompt'')"
    "bd_sourceCommentId b = own_number fs ''sourceCommentId''" "bd_sourceCommentUpdatedAt b = own_text fs ''sourceCommentUpdatedAt''"
    "bd_commandBodyDigest b = own_lower fs ''commandBodyDigest''"
    "bd_commandOrigin b = Option.bind (map_of fs ''commandOrigin'') (\<lambda>o'. command_origin_of (text_of (Some o')))"
  using assms unfolding exactReviewBaseDecisionFrom_def Let_def
  by (auto split: option.splits if_splits prod.splits)

lemma own_number_checked:
  "(own fs k \<longrightarrow> P \<and> positive_id (js_number (map_of fs k))) \<Longrightarrow> check (\<lambda>n. positive_id (Some n) \<and> P) (own_number fs k)"
  "(own fs k \<longrightarrow> P \<and> positive_id (js_number (map_of fs k))) \<Longrightarrow> own_number fs k = None \<longleftrightarrow> \<not> own fs k"
  by (auto simp: own_number_def positive_id_def split: option.splits)

lemma own_text_checked: "check P (own_text fs k) \<Longrightarrow> check (\<lambda>t. trimmed t \<and> P t) (own_text fs k)"
  by (auto simp: own_text_def split: if_splits)

lemma own_text_None: "own_text fs k = None \<longleftrightarrow> \<not> own fs k"
  by (simp add: own_text_def)

lemma base_decision_valid:
  assumes "exactReviewBaseDecisionFrom v = Some b" and "action_is_text v"
  shows "wf_base_decision b" and "json_policy v = Some (bd_publicationPolicy b)"
proof -
  obtain policy n kind event fs where b: "fs = objectValue (Some v)" "json_policy v = Some policy"
    "js_number (map_of fs ''itemNumber'') = Some n" "item_kind_of (text_of (map_of fs ''itemKind'')) = Some kind" "0 < n"
    "repo_pattern (bd_targetRepo b)" "branch_pattern (bd_targetBranch b)" "bd_sourceAction b \<noteq> []"
    "valid_source_fields fs" "valid_command_fields kind fs"
    "bd_targetRepo b = js_trim (text_of (map_of fs ''targetRepo''))" "bd_targetBranch b = js_trim (text_of (map_of fs ''targetBranch''))"
    "bd_itemNumber b = nat n" "bd_itemKind b = kind" "bd_sourceAction b = text_of (map_of fs ''sourceAction'')"
    "bd_publicationPolicy b = policy"
    and fields: "bd_sourceHeadSha b = own_lower fs ''sourceHeadSha''" "bd_sourceBaseSha b = own_lower fs ''sourceBaseSha''"
    "bd_sourceContentRevision b = own_lower fs ''sourceContentRevision''"
    "bd_expectedSourceRevision b = string_value (map_of fs ''expectedSourceRevision'')"
    "bd_sourceAuthoritySeq b = own_number fs ''sourceAuthoritySeq''" "bd_sourceUpdatedAt b = own_text fs ''sourceUpdatedAt''"
    "bd_sourceDeliveryId b = string_value (map_of fs ''sourceDeliveryId'')"
    "bd_commandStatusMarker b = string_value (map_of fs ''commandStatusMarker'')"
    "bd_statusCommentId b = own_number fs ''statusCommentId''"
    "bd_reviewAcknowledgementCommentId b = own_number fs ''reviewAcknowledgementCommentId''"
    "bd_additionalPrompt b = string_value (map_of fs ''additionalPrompt'')"
    "bd_sourceCommentId b = own_number fs ''sourceCommentId''" "bd_sourceCommentUpdatedAt b = own_text fs ''sourceCommentUpdatedAt''"
    "bd_commandBodyDigest b = own_lower fs ''commandBodyDigest''"
    "bd_commandOrigin b = Option.bind (map_of fs ''commandOrigin'') (\<lambda>o'. command_origin_of (text_of (Some o')))"
    by (rule base_parsed[OF assms(1)]) blast
  show "json_policy v = Some (bd_publicationPolicy b)" by (simp add: b)
  from json_policy_facts[OF b(2) assms(2)] b have "basePublicationPolicy b = Inr (bd_publicationPolicy b)"
    unfolding basePublicationPolicy_ok by (auto simp: objectValue_def)
  moreover have "wf_source b"
  proof -
    note s = b(9)[unfolded valid_source_fields_def]
    have seq: "check (\<lambda>n. positive_id (Some n)) (own_number fs ''sourceAuthoritySeq'')"
      using s own_number_checked(1)[of fs "''sourceAuthoritySeq''" True] by simp
    have "check (\<lambda>t. trimmed t \<and> date_parse t \<noteq> None) (own_text fs ''sourceUpdatedAt'')" using s own_text_checked by blast
    moreover have "string_value (map_of fs ''expectedSourceRevision'') \<noteq> None \<longrightarrow> kind = IssueItem"
      using s b(4) by (auto simp: string_value_Some own_def item_kind_of_def)
    moreover have "check (hex_of_length 64) (string_value (map_of fs ''expectedSourceRevision''))"
      using s by (cases "string_value (map_of fs ''expectedSourceRevision'')") (auto simp: string_value_Some own_def)
    moreover have "check delivery_pattern (string_value (map_of fs ''sourceDeliveryId''))"
      using s by (cases "string_value (map_of fs ''sourceDeliveryId'')") (auto simp: string_value_Some own_def)
    ultimately show ?thesis using s seq unfolding wf_source_def fields b(14) by blast
  qed
  moreover have "wf_command b"
  proof -
    note c = b(10)[unfolded valid_command_fields_def]
    have ids: "check (\<lambda>n. positive_id (Some n)) (own_number fs ''statusCommentId'')"
      "check (\<lambda>n. positive_id (Some n)) (own_number fs ''sourceCommentId'')"
      using c own_number_checked(1)[of fs "''statusCommentId''" True] own_number_checked(1)[of fs "''sourceCommentId''" True] by simp_all
    have ack: "check (\<lambda>n. positive_id (Some n) \<and> kind = PullItem) (own_number fs ''reviewAcknowledgementCommentId'')"
      using c own_number_checked(1)[of fs "''reviewAcknowledgementCommentId''" "kind = PullItem"] by simp
    have date: "check (\<lambda>t. trimmed t \<and> date_parse t \<noteq> None) (own_text fs ''sourceCommentUpdatedAt'')" using c own_text_checked by blast
    have texts: "check EXACT_REVIEW_COMMAND_STATUS_MARKER_PATTERN (string_value (map_of fs ''commandStatusMarker''))"
      "check (\<lambda>t. length t \<le> EXACT_REVIEW_ADDITIONAL_PROMPT_MAX_CHARS \<and> char_of (0::nat) \<notin> set t)
         (string_value (map_of fs ''additionalPrompt''))"
      using c by (auto simp: own_def string_value_def split: option.splits)
    have number: "own_number fs ''sourceCommentId'' = None \<longleftrightarrow> \<not> own fs ''sourceCommentId''"
      using c own_number_checked(2)[of fs "''sourceCommentId''" True] by simp
    have origin: "Option.bind (map_of fs ''commandOrigin'') (\<lambda>o'. command_origin_of (text_of (Some o'))) = None \<longleftrightarrow> \<not> own fs ''commandOrigin''"
      using c by (cases "map_of fs ''commandOrigin''") (auto simp: own_def)
    from c have "command_metadata fs = 0 \<or> command_metadata fs = 4" by blast
    then have all: "own fs ''sourceCommentId'' \<longleftrightarrow> own fs ''sourceCommentUpdatedAt''" "own fs ''sourceCommentId'' \<longleftrightarrow> own fs ''commandBodyDigest''"
      "own fs ''sourceCommentId'' \<longleftrightarrow> own fs ''commandOrigin''"
      by (auto simp: command_metadata_def split: if_splits)
    from c have hex: "check (hex_of_length 64) (own_lower fs ''commandBodyDigest'')" by blast
    show ?thesis unfolding wf_command_def fields b(14) number origin option.map_disc_iff own_text_None
      using ids ack date texts hex all by blast
  qed
  ultimately show "wf_base_decision b"
    using b(5-8,11-13) by (simp add: wf_base_decision_def)
qed


lemma positive_id_Some: "positive_id v \<Longrightarrow> \<exists>n. v = Some n \<and> 0 < n"
  by (auto simp: positive_id_def split: option.splits)

lemma nullable_id_checked: "nullable_id v = Some w \<Longrightarrow> check (\<lambda>n. positive_id (Some n)) w"
  by (cases w) (auto simp: nullable_id_def split: if_splits)

lemma lifecycle_checked:
  "exactReviewDirectLifecycleReceiptFrom v = Some l \<Longrightarrow> dl_planKind l \<in> set DIRECT_PUBLICATION_LIFECYCLE_KINDS"
  by (auto simp: exactReviewDirectLifecycleReceiptFrom_def Let_def split: option.splits if_splits)

lemma publication_valid:
  assumes "exactReviewPublicationFrom v = Some p"
    and "check action_is_text (map_of (objectValue (Some v)) ''producerDecision'')"
  shows "wf_publication p" and "\<exists>pd. map_of (objectValue (Some v)) ''producerDecision'' = Some pd
    \<and> exactReviewBaseDecisionFrom pd = Some (px_producerDecision p) \<and> json_policy pd = Some (bd_publicationPolicy (px_producerDecision p))"
proof -
  let ?fs = "objectValue (Some v)"
  let ?attempt = "js_number (map_of ?fs ''producerRunAttempt'')"
  let ?dec = "Option.bind (map_of ?fs ''producerDecision'') exactReviewBaseDecisionFrom"
  obtain lr cg dec where parts: "nullable_id (map_of ?fs ''leaseRevision'') = Some lr"
    "nullable_id (map_of ?fs ''claimGeneration'') = Some cg" "?dec = Some dec" "valid_publication_fields ?fs lr cg"
    and p: "p = publication_of ?fs lr cg dec"
    using assms(1) unfolding exactReviewPublicationFrom_def Let_def by (auto split: option.splits if_splits)
  note ok = parts(4)[unfolded valid_publication_fields_def Let_def]
  have flags: "live_flags ?fs = map Some [px_liveProceeded p, px_liveTerminalNoop p, px_liveTerminalMissing p, px_liveGuardedOpen p]"
    using ok by (auto simp: p publication_of_def live_flags_def eq_commute[of None])
  have one: "length (filter id [px_liveProceeded p, px_liveTerminalNoop p, px_liveTerminalMissing p, px_liveGuardedOpen p]) = 1"
    using ok unfolding flags by (auto split: if_splits)
  from parts(3) obtain pd where pd: "map_of ?fs ''producerDecision'' = Some pd" "exactReviewBaseDecisionFrom pd = Some (px_producerDecision p)"
    by (auto simp: p publication_of_def bind_eq_Some_conv)
  from assms(2) pd(1) have "action_is_text pd" by simp
  note base = base_decision_valid[OF pd(2) this]
  show "\<exists>pd. map_of ?fs ''producerDecision'' = Some pd
      \<and> exactReviewBaseDecisionFrom pd = Some (px_producerDecision p) \<and> json_policy pd = Some (bd_publicationPolicy (px_producerDecision p))"
    using pd base by blast
  from ok obtain n where n: "?attempt = Some n" "0 < n" using positive_id_Some by blast
  have "check (\<lambda>l. dl_planKind l \<in> set DIRECT_PUBLICATION_LIFECYCLE_KINDS) (publication_lifecycle ?fs)"
    by (cases "publication_lifecycle ?fs") (auto simp: publication_lifecycle_def bind_eq_Some_conv dest: lifecycle_checked)
  then show "wf_publication p"
    using ok one n base nullable_id_checked[OF parts(1)] nullable_id_checked[OF parts(2)]
    unfolding wf_publication_def by (auto simp: p publication_of_def publication_text_def int_str_def)
qed

lemma parsed_decision_wf:
  assumes "exactReviewDecisionFrom v = Some d" and "text_actions v"
  shows "wf_decision d"
proof -
  let ?fs = "objectValue (Some v)"
  obtain b where b: "exactReviewBaseDecisionFrom v = Some b" and d: "base_decision.truncate d = b"
    and pub: "d_publication d = Option.bind (map_of ?fs ''publication'') exactReviewPublicationFrom"
    and kind: "case d_publication d of None \<Rightarrow> bd_sourceAction b \<noteq> EXACT_REVIEW_ARTIFACT_PUBLISH_SOURCE_ACTION
        | Some p \<Rightarrow> bd_sourceAction b = EXACT_REVIEW_ARTIFACT_PUBLISH_SOURCE_ACTION \<and> producer_matches b p"
    using assms(1) unfolding exactReviewDecisionFrom_def Let_def
    by (auto split: option.splits if_splits simp: base_decision.defs)
  from assms(2) have act: "action_is_text v" by (simp add: text_actions_def)
  note base = base_decision_valid[OF b act]
  have same: "wf_base_decision d \<longleftrightarrow> wf_base_decision b" "basePublicationPolicy d = basePublicationPolicy b"
    "bd_publicationPolicy d = bd_publicationPolicy b" "bd_sourceAction d = bd_sourceAction b" "producer_matches d = producer_matches b"
    unfolding d[symmetric]
    by (simp_all add: base_decision.defs wf_base_decision_def wf_source_def wf_command_def basePublicationPolicy_def
        producer_matches_def fun_eq_iff)
  show ?thesis
  proof (cases "d_publication d")
    case None
    with base kind same show ?thesis
      by (auto simp: wf_decision_def decisionPublicationPolicy_def wf_base_decision_def)
  next
    case (Some p)
    from trans[OF sym[OF pub] Some] obtain pv where pv: "map_of ?fs ''publication'' = Some pv" "exactReviewPublicationFrom pv = Some p"
      by (auto simp: bind_eq_Some_conv)
    from assms(2) pv have "check action_is_text (map_of (objectValue (Some pv)) ''producerDecision'')" by (simp add: text_actions_def)
    note p = publication_valid[OF pv(2) this]
    from p(2) obtain pd where pd: "map_of (objectValue (Some pv)) ''producerDecision'' = Some pd"
      "json_policy pd = Some (bd_publicationPolicy (px_producerDecision p))" by blast
    from json_policy_facts[OF base(2) act] obtain fs where "v = JObj fs"
      "\<forall>x. map_of fs ''publication'' = Some x \<longrightarrow> (\<exists>ps d. x = JObj ps \<and> map_of ps ''producerDecision'' = Some d
         \<and> json_policy d = Some (bd_publicationPolicy b))" by blast
    with pv pd have policy: "bd_publicationPolicy (px_producerDecision p) = bd_publicationPolicy b"
      by (auto simp: objectValue_def)
    from p(1) have "basePublicationPolicy (px_producerDecision p) = Inr (bd_publicationPolicy b)"
      by (simp add: wf_publication_def wf_base_decision_def policy)
    with Some base kind same p(1) show ?thesis
      by (auto simp: wf_decision_def decisionPublicationPolicy_def wf_base_decision_def)
  qed
qed


subsection \<open>Decisions and their JSON as one interface\<close>

text \<open>
  A codec: what is well formed survives being written and read, and what is read is well
  formed. The client gets that reading is stable: writing a value that was read and reading it
  again, any number of times, gives the same value.
\<close>

locale codec =
  fixes encode :: "'a \<Rightarrow> 'b" and decode :: "'b \<Rightarrow> 'a option" and good :: "'a \<Rightarrow> bool" and plain :: "'b \<Rightarrow> bool"
  assumes decode_encode: "good x \<Longrightarrow> decode (encode x) = Some x"
    and decode_good: "plain y \<Longrightarrow> decode y = Some x \<Longrightarrow> good x"
begin

lemma reread_stable: "plain y \<Longrightarrow> decode y = Some x \<Longrightarrow> decode (encode x) = Some x"
  by (blast intro: decode_encode decode_good)

lemma encode_inj: "good x \<Longrightarrow> good x' \<Longrightarrow> encode x = encode x' \<Longrightarrow> x = x'"
  by (metis decode_encode option.inject)

end

interpretation decision_codec: codec decision_json exactReviewDecisionFrom wf_decision text_actions
  by unfold_locales (auto intro: decision_json_decodes parsed_decision_wf)

text \<open>
  C26. What the parser accepts is well formed: whatever JSON value arrives (with its source actions
  given as text), a decision that comes out of \<open>exactReviewDecisionFrom\<close> has a valid repository,
  branch and number, valid digests, dates and identifiers, a complete or absent command version,
  a publication policy only on a manual request or its publication, and a publication exactly
  when its action is to publish, made by a producer for the same item under the same policy.
\<close>

theorem parsed_decision_valid:
  assumes "exactReviewDecisionFrom v = Some d" and "text_actions v"
  shows "wf_decision d"
  by (rule decision_codec.decode_good[OF assms(2,1)])

text \<open>
  C27. A stored decision comes back from the store as it was: for every decision that the parser
  accepted from a value whose source actions are given as text, with its publication, its
  producer's decision and its lifecycle receipt, parsing its JSON gives the decision again, so a
  restart of the queue loses and changes nothing; and two such decisions with the same JSON are
  equal.
\<close>

theorem decision_roundtrip:
  assumes "text_actions v" and "exactReviewDecisionFrom v = Some d"
  shows "exactReviewDecisionFrom (decision_json d) = Some d
    \<and> (text_actions w \<longrightarrow> exactReviewDecisionFrom w = Some e \<longrightarrow> decision_json e = decision_json d \<longrightarrow> e = d)"
  using decision_codec.reread_stable[OF assms] decision_codec.decode_good[OF assms]
  by (auto intro: decision_codec.encode_inj decision_codec.decode_good)

text \<open>
  The assumption on the source action is needed. An array that holds the action's text passes
  the policy check, which compares the value itself, and is then read as that text: the decision
  asks for a manual review without the policy that such a request needs, and the same decision
  is refused when the queue reads it back.
\<close>

definition array_action :: json where
  "array_action = JObj [(''targetRepo'', JStr ''openclaw/openclaw''), (''targetBranch'', JStr ''main''), (''itemNumber'', JNum 42),
     (''itemKind'', JStr ''pull_request''), (''sourceEvent'', JStr ''pull_request''),
     (''sourceAction'', JArr [JStr MANUAL_REVIEW_SOURCE_ACTION])]"

lemma array_action_evades_policy:
  "map_option bd_sourceAction (exactReviewDecisionFrom array_action) = Some MANUAL_REVIEW_SOURCE_ACTION
   \<and> map_option bd_publicationPolicy (exactReviewDecisionFrom array_action) = Some None
   \<and> Option.bind (exactReviewDecisionFrom array_action) (\<lambda>d. exactReviewDecisionFrom (decision_json d)) = None"
  by code_simp

definition sample_publish :: json where
  "sample_publish =
     (let producer = sample_decision\<lparr>bd_commandStatusMarker := Some ''<!-- clawsweeper-command-status:42:re_review:v1 -->'',
            bd_statusCommentId := Some 9\<rparr>;
          p = (sample_publication ''17'' 2)\<lparr>px_artifactName := ''exact-review-17-2'',
            px_producerDecision := base_decision.truncate producer,
            px_directLifecycle := Some \<lparr>dl_planKind = ''router'', dl_receiptOutcome = ReceiptAccepted\<rparr>\<rparr>
      in decision_json (producer\<lparr>bd_sourceAction := EXACT_REVIEW_ARTIFACT_PUBLISH_SOURCE_ACTION, d_publication := Some p\<rparr>))"

lemma sample_publish_parses: "exactReviewDecisionFrom sample_publish \<noteq> None" "text_actions sample_publish"
  by code_simp+

lemma parsed_decision_valid_witness:
  "\<exists>d. exactReviewDecisionFrom sample_publish = Some d \<and> wf_decision d"
  using sample_publish_parses parsed_decision_valid[of sample_publish] by blast

lemma decision_roundtrip_witness:
  "\<exists>d. exactReviewDecisionFrom sample_publish = Some d \<and> exactReviewDecisionFrom (decision_json d) = Some d"
  using sample_publish_parses decision_roundtrip[of sample_publish] by blast

end
