(* ===== verification/Command_Intake.thy ===== *)
theory Command_Intake
  imports Decision_Parser
begin

text \<open>
  Command intake (\<open>dashboard/exact-review-command-intake.ts\<close>,
  \<open>src/repair/direct-re-review-admission.ts\<close>): a re-review command arrives as one version of a
  comment, waits in a table until it was verified, queued and acknowledged, and leaves a receipt.
  A store is the four tables, each the list of its rows; a statement that breaks a primary key
  rolls the transaction back. A stored record is kept as the value that was written; every row
  comes from a validated intake.
\<close>

subsection \<open>Commands and their validation\<close>

record intake =
  di_commandVersionId :: string
  di_installationId :: int
  di_sourceCommentId :: int
  di_sourceCommentUpdatedAt :: string
  di_commandBodyDigest :: string
  di_commandOrigin :: command_origin
  di_decision :: "(string \<times> json) list"

text \<open>\<open>Number.prototype.toString(36)\<close> on integers.\<close>

definition digit36 :: "int \<Rightarrow> char" where
  "digit36 n = (if n mod 36 < 10 then char_of (48 + n mod 36) else char_of (87 + n mod 36))"

function digits36 :: "int \<Rightarrow> string" where
  "digits36 n = (if n < 36 then [digit36 n] else digits36 (n div 36) @ [digit36 n])"
  by pat_completeness auto
termination by (relation "measure nat") auto

declare digits36.simps [simp del]

definition int_str36 :: "int \<Rightarrow> string" where
  "int_str36 i = (if i < 0 then CHR ''-'' # digits36 (- i) else digits36 i)"

text \<open>\<open>None\<close>: the identity throws.\<close>

definition reReviewCommandVersionIdentity :: "int \<Rightarrow> string \<Rightarrow> string \<Rightarrow> string option" where
  "reReviewCommandVersionIdentity commentId updatedAt bodySha256 =
     (let digest = to_lower (js_trim bodySha256)
      in case date_parse updatedAt of None \<Rightarrow> None
         | Some timestamp \<Rightarrow>
             if \<not> safe_integer commentId \<or> commentId < 1 \<or> \<not> hex_of_length 64 digest then None
             else Some (''command-'' @ int_str commentId @ ''-'' @ int_str36 timestamp @ ''-'' @ digest))"

definition commandStatusMarker :: "int \<Rightarrow> string \<Rightarrow> string \<Rightarrow> string" where
  "commandStatusMarker issueNumber intent revision =
     ''<!-- clawsweeper-command-status:'' @ int_str issueNumber @ '':'' @ intent @ '':'' @ revision @ '' -->''"

definition version_char :: "char \<Rightarrow> bool" where
  "version_char c \<longleftrightarrow> is_dec c \<or> (97 \<le> (of_char c :: nat) \<and> (of_char c :: nat) \<le> 122) \<or> c = CHR ''-''"

definition directReReviewStatusMarker :: "int \<Rightarrow> string \<Rightarrow> string option" where
  "directReReviewStatusMarker itemNumber version =
     (let r = drop 8 version
      in if \<not> safe_integer itemNumber \<or> itemNumber < 1 \<or> take 8 version \<noteq> ''command-''
            \<or> r = [] \<or> 120 < length r \<or> \<not> list_all version_char r
         then None else Some (commandStatusMarker itemNumber ''re_review'' version))"

text \<open>\<open>===\<close> of two properties: two arrays or objects of a parsed body are never the same one.\<close>

definition same_value :: "json option \<Rightarrow> json option \<Rightarrow> bool" where
  "same_value a b \<longleftrightarrow> a = b \<and> (case a of Some (JArr _) \<Rightarrow> False | Some (JObj _) \<Rightarrow> False | _ \<Rightarrow> True)"

definition safe_id :: "json option \<Rightarrow> bool" where
  "safe_id v \<longleftrightarrow> (case v of Some (JNum n) \<Rightarrow> safe_integer n \<and> 1 \<le> n | _ \<Rightarrow> False)"

definition number_value :: "json option \<Rightarrow> int" where
  "number_value v = (case v of Some (JNum n) \<Rightarrow> n | _ \<Rightarrow> 0)"

text \<open>Fields of the decision that an intake must not bring along: the server verifies them later.\<close>

definition UNVERIFIED_FIELDS :: "string list" where
  "UNVERIFIED_FIELDS = [''sourceHeadVerified'', ''sourceCommentVerified'', ''sourceAuthoritySeq'', ''sourceUpdatedAt'',
     ''sourceBaseSha'', ''sourceIsDraft'', ''sourceContentRevision'']"

definition valid_intake_fields :: "(string \<times> json) list \<Rightarrow> bool" where
  "valid_intake_fields it \<longleftrightarrow>
     map_of it ''protocolVersion'' = Some (JNum 1)
     \<and> safe_id (map_of it ''installationId'') \<and> safe_id (map_of it ''sourceCommentId'')
     \<and> date_parse (text_of (map_of it ''sourceCommentUpdatedAt'')) \<noteq> None
     \<and> hex_of_length 64 (text_of (map_of it ''commandBodyDigest''))
     \<and> (map_of it ''commandOrigin'' = Some (JStr ''hosted_webhook'') \<or> map_of it ''commandOrigin'' = Some (JStr ''comment_router''))
     \<and> (case string_value (map_of it ''commandVersionId'') of None \<Rightarrow> False
        | Some v \<Rightarrow> reReviewCommandVersionIdentity (number_value (map_of it ''sourceCommentId''))
            (text_of (map_of it ''sourceCommentUpdatedAt'')) (text_of (map_of it ''commandBodyDigest'')) = Some v)"

definition valid_intake_decision :: "(string \<times> json) list \<Rightarrow> (string \<times> json) list \<Rightarrow> bool" where
  "valid_intake_decision it d \<longleftrightarrow>
     same_value (map_of d ''sourceDeliveryId'') (map_of it ''commandVersionId'')
     \<and> same_value (map_of d ''sourceCommentId'') (map_of it ''sourceCommentId'')
     \<and> same_value (map_of d ''sourceCommentUpdatedAt'') (map_of it ''sourceCommentUpdatedAt'')
     \<and> same_value (map_of d ''commandBodyDigest'') (map_of it ''commandBodyDigest'')
     \<and> same_value (map_of d ''commandOrigin'') (map_of it ''commandOrigin'')
     \<and> check repo_pattern (string_value (map_of d ''targetRepo'')) \<and> string_value (map_of d ''targetRepo'') \<noteq> None
     \<and> check branch_pattern (string_value (map_of d ''targetBranch'')) \<and> string_value (map_of d ''targetBranch'') \<noteq> None
     \<and> safe_id (map_of d ''itemNumber'')
     \<and> (map_of d ''itemKind'' = Some (JStr ''issue'') \<or> map_of d ''itemKind'' = Some (JStr ''pull_request''))
     \<and> map_of d ''sourceEvent''
         = Some (JStr (if map_of d ''itemKind'' = Some (JStr ''pull_request'') then ''pull_request'' else ''issues''))
     \<and> map_of d ''sourceAction'' = Some (JStr ''re_review'')
     \<and> map_of d ''supersedesInProgress'' = Some (JBool False)
     \<and> (let m = directReReviewStatusMarker (number_value (map_of d ''itemNumber'')) (text_of (map_of it ''commandVersionId''))
        in m \<noteq> None \<and> map_of d ''commandStatusMarker'' = map_option JStr m)
     \<and> check (\<lambda>p. length p \<le> 5000) (string_value (map_of d ''additionalPrompt'')) \<and> string_value (map_of d ''additionalPrompt'') \<noteq> None
     \<and> list_all (\<lambda>k. \<not> own d k) UNVERIFIED_FIELDS
     \<and> (own d ''statusCommentId'' \<longrightarrow> safe_id (map_of d ''statusCommentId''))
     \<and> (own d ''sourceHeadSha'' \<longrightarrow> hex_of_length 40 (to_lower (js_string (the (map_of d ''sourceHeadSha'')))))"

definition validateDirectReReviewIntake :: "json \<Rightarrow> intake option" where
  "validateDirectReReviewIntake v =
     (let it = objectValue (Some v); d = objectValue (map_of it ''decision'')
      in if falsy (map_of it ''decision'') \<or> \<not> valid_intake_fields it \<or> \<not> valid_intake_decision it d then None
         else Some \<lparr>di_commandVersionId = text_of (map_of it ''commandVersionId''),
           di_installationId = number_value (map_of it ''installationId''),
           di_sourceCommentId = number_value (map_of it ''sourceCommentId''),
           di_sourceCommentUpdatedAt = text_of (map_of it ''sourceCommentUpdatedAt''),
           di_commandBodyDigest = text_of (map_of it ''commandBodyDigest''),
           di_commandOrigin = (if map_of it ''commandOrigin'' = Some (JStr ''hosted_webhook'') then HostedWebhook else CommentRouter),
           di_decision = filter (\<lambda>(k, x). k \<noteq> ''bayJourneyDeliveryId'') d\<rparr>)"

definition di_targetRepo :: "intake \<Rightarrow> string" where
  "di_targetRepo it = text_of (map_of (di_decision it) ''targetRepo'')"

definition commandSourceCommentKey :: "intake \<Rightarrow> string" where
  "commandSourceCommentKey it = to_lower (di_targetRepo it) @ '':'' @ int_str (di_sourceCommentId it)"

text \<open>\<open>Date.parse(intake.sourceCommentUpdatedAt)\<close>, finite for a validated intake.\<close>

definition source_updated_at :: "intake \<Rightarrow> int" where
  "source_updated_at it = (case date_parse (di_sourceCommentUpdatedAt it) of None \<Rightarrow> 0 | Some t \<Rightarrow> t)"

subsection \<open>The store\<close>

datatype intake_stage = VerifyPending | EnqueuePending | EffectsPending

record intake_record =
  ir_intake :: intake
  ir_stage :: intake_stage
  ir_attempts :: int
  ir_nextAttemptAt :: int
  ir_admittedAt :: int
  ir_verifiedDecision :: "base_decision option"

record intake_row =
  ci_versionId :: string
  ci_commentKey :: string
  ci_sourceUpdatedAt :: int
  ci_record :: intake_record
  ci_nextAttemptAt :: int

record comment_watermark =
  cw_commentKey :: string
  cw_sourceUpdatedAt :: int
  cw_versionId :: string
  cw_bodyDigest :: string

datatype command_outcome = CommandPending | CommandCompleted | CommandRejected | CommandSuperseded

record command_receipt =
  rc_versionId :: string
  rc_commentKey :: string
  rc_outcome :: command_outcome
  rc_observedAt :: int
  rc_detail :: "string option"

record command_store =
  cs_intakes :: "intake_row list"
  cs_watermarks :: "comment_watermark list"
  cs_receipts :: "command_receipt list"
  cs_revisions :: "(string \<times> int) list"

definition empty_command_store :: command_store where
  "empty_command_store = \<lparr>cs_intakes = [], cs_watermarks = [], cs_receipts = [], cs_revisions = []\<rparr>"

definition COMMAND_INTAKE_LIMIT :: nat where "COMMAND_INTAKE_LIMIT = 16"
definition COMMAND_RETRY_BASE_MS :: int where "COMMAND_RETRY_BASE_MS = 15000"
definition COMMAND_RETRY_MAX_MS :: int where "COMMAND_RETRY_MAX_MS = 15 * 60000"
definition EXACT_REVIEW_COMMAND_RECEIPT_RETENTION_MS :: int where
  "EXACT_REVIEW_COMMAND_RECEIPT_RETENTION_MS = 30 * 24 * 60 * 60 * 1000"

definition watermark_at :: "command_store \<Rightarrow> string \<Rightarrow> comment_watermark option" where
  "watermark_at st key = find (\<lambda>w. cw_commentKey w = key) (cs_watermarks st)"

definition receipt_at :: "command_store \<Rightarrow> string \<Rightarrow> command_receipt option" where
  "receipt_at st v = find (\<lambda>r. rc_versionId r = v) (cs_receipts st)"

definition command_read :: "command_store \<Rightarrow> string \<Rightarrow> intake_record option" where
  "command_read st v = map_option ci_record (find (\<lambda>r. ci_versionId r = v) (cs_intakes st))"

definition command_write :: "intake_record \<Rightarrow> command_store \<Rightarrow> command_store" where
  "command_write rec st = st\<lparr>cs_intakes :=
     update_where (\<lambda>r. ci_versionId r = di_commandVersionId (ir_intake rec))
       (\<lambda>r. r\<lparr>ci_record := rec, ci_nextAttemptAt := ir_nextAttemptAt rec\<rparr>) (cs_intakes st)\<rparr>"

definition update_receipts :: "(command_receipt \<Rightarrow> bool) \<Rightarrow> (command_receipt \<Rightarrow> command_receipt) \<Rightarrow> command_store \<Rightarrow> command_store" where
  "update_receipts p f st = st\<lparr>cs_receipts := update_where p f (cs_receipts st)\<rparr>"

definition delete_intakes :: "(intake_row \<Rightarrow> bool) \<Rightarrow> command_store \<Rightarrow> command_store" where
  "delete_intakes p st = st\<lparr>cs_intakes := filter (\<lambda>r. \<not> p r) (cs_intakes st)\<rparr>"

text \<open>A pending receipt of the comment loses to another version.\<close>

definition supersede_receipt :: "int \<Rightarrow> string \<Rightarrow> command_receipt \<Rightarrow> command_receipt" where
  "supersede_receipt now why r = r\<lparr>rc_outcome := CommandSuperseded, rc_observedAt := now, rc_detail := Some why\<rparr>"

subsection \<open>Admission\<close>

datatype command_admission =
    Admitted bool string
  | NotAdmitted string string

datatype command_error = CommandConstraint

definition put_watermark :: "comment_watermark \<Rightarrow> comment_watermark list \<Rightarrow> comment_watermark list" where
  "put_watermark w ws =
     (if \<exists>x\<in>set ws. cw_commentKey x = cw_commentKey w
      then update_where (\<lambda>x. cw_commentKey x = cw_commentKey w)
             (\<lambda>x. if cw_sourceUpdatedAt w > cw_sourceUpdatedAt x
                  then x\<lparr>cw_sourceUpdatedAt := cw_sourceUpdatedAt w, cw_versionId := cw_versionId w, cw_bodyDigest := cw_bodyDigest w\<rparr>
                  else x) ws
      else ws @ [w])"

definition new_intake_record :: "int \<Rightarrow> intake \<Rightarrow> intake_record" where
  "new_intake_record now it =
     \<lparr>ir_intake = it, ir_stage = VerifyPending, ir_attempts = 0, ir_nextAttemptAt = now, ir_admittedAt = now, ir_verifiedDecision = None\<rparr>"

definition insert_command :: "int \<Rightarrow> intake \<Rightarrow> command_store \<Rightarrow> command_error + command_store" where
  "insert_command now it st =
     (let v = di_commandVersionId it; key = commandSourceCommentKey it
      in if receipt_at st v \<noteq> None \<or> (\<exists>r\<in>set (cs_intakes st). ci_versionId r = v) then Inl CommandConstraint
         else Inr (st
           \<lparr>cs_watermarks := put_watermark \<lparr>cw_commentKey = key, cw_sourceUpdatedAt = source_updated_at it, cw_versionId = v,
                cw_bodyDigest = di_commandBodyDigest it\<rparr> (cs_watermarks st),
            cs_receipts := cs_receipts st @ [\<lparr>rc_versionId = v, rc_commentKey = key, rc_outcome = CommandPending,
                rc_observedAt = now, rc_detail = None\<rparr>],
            cs_intakes := cs_intakes st @ [\<lparr>ci_versionId = v, ci_commentKey = key, ci_sourceUpdatedAt = source_updated_at it,
                ci_record = new_intake_record now it, ci_nextAttemptAt = now\<rparr>]\<rparr>))"

text \<open>\<open>INSERT OR IGNORE\<close> of the receipt of a refused version.\<close>

definition insert_rejected :: "int \<Rightarrow> intake \<Rightarrow> string \<Rightarrow> command_store \<Rightarrow> command_store" where
  "insert_rejected now it detail st =
     (if receipt_at st (di_commandVersionId it) \<noteq> None then st
      else st\<lparr>cs_receipts := cs_receipts st @ [\<lparr>rc_versionId = di_commandVersionId it, rc_commentKey = commandSourceCommentKey it,
             rc_outcome = CommandRejected, rc_observedAt = now, rc_detail = Some detail\<rparr>]\<rparr>)"

definition supersede_older :: "int \<Rightarrow> string \<Rightarrow> command_store \<Rightarrow> command_store" where
  "supersede_older now key st =
     delete_intakes (\<lambda>r. ci_commentKey r = key)
       (update_receipts (\<lambda>r. rc_commentKey r = key \<and> rc_outcome r = CommandPending) (supersede_receipt now ''newer_comment_version'') st)"

definition outcome_text :: "command_outcome \<Rightarrow> string" where
  "outcome_text o' = (case o' of CommandPending \<Rightarrow> ''pending'' | CommandCompleted \<Rightarrow> ''completed''
     | CommandRejected \<Rightarrow> ''rejected'' | CommandSuperseded \<Rightarrow> ''superseded'')"

definition admit_intake :: "int \<Rightarrow> intake \<Rightarrow> command_store \<Rightarrow> command_error + command_store \<times> command_admission" where
  "admit_intake now it st =
     (let v = di_commandVersionId it; key = commandSourceCommentKey it; t = source_updated_at it
      in case receipt_at st v of
           Some r \<Rightarrow>
             if rc_outcome r = CommandRejected \<or> rc_outcome r = CommandSuperseded
             then Inr (st, NotAdmitted (if truthy (rc_detail r) then the (rc_detail r) else outcome_text (rc_outcome r)) v)
             else Inr (st, Admitted True v)
         | None \<Rightarrow>
             let same = (case watermark_at st key of None \<Rightarrow> False
                         | Some w \<Rightarrow> cw_versionId w = v \<and> cw_sourceUpdatedAt w = t);
                 newer = (case watermark_at st key of None \<Rightarrow> False | Some w \<Rightarrow> cw_sourceUpdatedAt w > t);
                 older = (case watermark_at st key of None \<Rightarrow> False | Some w \<Rightarrow> cw_sourceUpdatedAt w < t)
             in if newer \<or> same
                then Inr (insert_rejected now it (if same then ''already_observed'' else ''older_comment_version'') st,
                          NotAdmitted (if same then ''semantic command version already observed'' else ''older comment version'') v)
                else map_sum (\<lambda>e. e) (\<lambda>st. (st, Admitted False v))
                       (insert_command now it (if older then supersede_older now key st else st)))"

text \<open>The request: \<open>None\<close> when the body is no valid intake.\<close>

definition command_admit :: "json \<Rightarrow> int \<Rightarrow> command_store \<Rightarrow> command_error + command_store \<times> command_admission option" where
  "command_admit v now st =
     (case validateDirectReReviewIntake v of
        None \<Rightarrow> Inr (st, None)
      | Some it \<Rightarrow>
          if exactReviewBaseDecisionFrom (JObj (di_decision it)) = None then Inr (st, None)
          else map_sum (\<lambda>e. e) (map_prod (\<lambda>st. st) Some) (admit_intake now it st))"

subsection \<open>Processing\<close>

definition due_order :: "intake_row \<Rightarrow> intake_row \<Rightarrow> int" where
  "due_order a b = cmp_or (ci_nextAttemptAt a - ci_nextAttemptAt b) (cmp_lin (ci_versionId a) (ci_versionId b))"

definition command_due :: "int \<Rightarrow> command_store \<Rightarrow> intake_record list" where
  "command_due now st =
     map ci_record (take COMMAND_INTAKE_LIMIT (js_sort due_order (filter (\<lambda>r. ci_nextAttemptAt r \<le> now) (cs_intakes st))))"

definition isCurrent :: "command_store \<Rightarrow> intake_record \<Rightarrow> bool" where
  "isCurrent st rec \<longleftrightarrow>
     (case watermark_at st (commandSourceCommentKey (ir_intake rec)) of None \<Rightarrow> False
      | Some w \<Rightarrow> cw_sourceUpdatedAt w = source_updated_at (ir_intake rec)
          \<and> (ir_stage rec = VerifyPending \<or> cw_versionId w = di_commandVersionId (ir_intake rec)))"

definition markVerified :: "intake_record \<Rightarrow> int \<Rightarrow> command_store \<Rightarrow> command_store \<times> bool" where
  "markVerified rec now st =
     (let it = ir_intake rec; key = commandSourceCommentKey it; t = source_updated_at it; v = di_commandVersionId it
      in if (case watermark_at st key of None \<Rightarrow> False | Some w \<Rightarrow> cw_sourceUpdatedAt w > t) then (st, False)
         else (delete_intakes (\<lambda>r. ci_commentKey r = key \<and> ci_versionId r \<noteq> v)
                 (update_receipts (\<lambda>r. rc_commentKey r = key \<and> rc_versionId r \<noteq> v \<and> rc_outcome r = CommandPending)
                   (supersede_receipt now ''verified_sibling_version'')
                   (st\<lparr>cs_watermarks := update_where (\<lambda>w. cw_commentKey w = key \<and> cw_sourceUpdatedAt w = t)
                        (\<lambda>w. w\<lparr>cw_versionId := v, cw_bodyDigest := di_commandBodyDigest it\<rparr>) (cs_watermarks st)\<rparr>)), True))"

definition command_advance :: "string \<Rightarrow> intake_stage \<Rightarrow> int \<Rightarrow> base_decision \<Rightarrow> command_store \<Rightarrow> command_store" where
  "command_advance v stage now decision st =
     (case command_read st v of None \<Rightarrow> st
      | Some rec \<Rightarrow> command_write (rec\<lparr>ir_stage := stage, ir_attempts := 0, ir_nextAttemptAt := now,
          ir_verifiedDecision := Some decision\<rparr>) st)"

definition command_finish :: "string \<Rightarrow> command_outcome \<Rightarrow> int \<Rightarrow> string option \<Rightarrow> command_store \<Rightarrow> command_store" where
  "command_finish v outcome now detail st =
     delete_intakes (\<lambda>r. ci_versionId r = v)
       (update_receipts (\<lambda>r. rc_versionId r = v) (\<lambda>r. r\<lparr>rc_outcome := outcome, rc_observedAt := now, rc_detail := detail\<rparr>) st)"

text \<open>Attempts are counted up from zero, so the two waits of the code, with and without the lower bound, agree.\<close>

definition retry_wait :: "int \<Rightarrow> int" where
  "retry_wait attempts = min COMMAND_RETRY_MAX_MS (COMMAND_RETRY_BASE_MS * 2 ^ nat (min (max 0 (attempts - 1)) 8))"

definition note_pending :: "string \<Rightarrow> int \<Rightarrow> string \<Rightarrow> command_store \<Rightarrow> command_store" where
  "note_pending v now detail =
     update_receipts (\<lambda>r. rc_versionId r = v \<and> rc_outcome r = CommandPending)
       (\<lambda>r. r\<lparr>rc_observedAt := now, rc_detail := Some (take 500 detail)\<rparr>)"

definition command_defer :: "intake_record \<Rightarrow> int \<Rightarrow> string \<Rightarrow> int option \<Rightarrow> bool \<Rightarrow> command_store \<Rightarrow> command_store" where
  "command_defer rec now detail requestedRetryAt incrementAttempts st =
     (let v = di_commandVersionId (ir_intake rec);
          current = (case command_read st v of None \<Rightarrow> rec | Some r \<Rightarrow> r);
          attempts = (if incrementAttempts then ir_attempts current + 1 else ir_attempts current);
          requested = (if num_truthy requestedRetryAt then min (the requestedRetryAt) (now + COMMAND_RETRY_MAX_MS) else 0)
      in note_pending v now detail
           (command_write (current\<lparr>ir_attempts := attempts,
              ir_nextAttemptAt := max (now + max 1000 (retry_wait attempts)) requested\<rparr>) st))"

definition retryVerification :: "intake_record \<Rightarrow> int \<Rightarrow> string \<Rightarrow> command_store \<Rightarrow> command_store" where
  "retryVerification rec now detail st =
     (let v = di_commandVersionId (ir_intake rec);
          current = (case command_read st v of None \<Rightarrow> rec | Some r \<Rightarrow> r);
          attempts = ir_attempts current + 1
      in note_pending v now detail
           (command_write (current\<lparr>ir_stage := VerifyPending, ir_attempts := attempts,
              ir_nextAttemptAt := now + retry_wait attempts, ir_verifiedDecision := None\<rparr>) st))"

definition command_next_attempt :: "command_store \<Rightarrow> int option" where
  "command_next_attempt st =
     (case map ci_nextAttemptAt (cs_intakes st) of [] \<Rightarrow> None
      | t # ts \<Rightarrow> (let m = foldl min t ts in if m > 0 then Some m else None))"

definition pruneTerminalReceipts :: "int \<Rightarrow> command_store \<Rightarrow> command_store" where
  "pruneTerminalReceipts now st = st\<lparr>cs_receipts :=
     filter (\<lambda>r. \<not> (rc_outcome r \<noteq> CommandPending \<and> rc_observedAt r \<le> now - EXACT_REVIEW_COMMAND_RECEIPT_RETENTION_MS)) (cs_receipts st)\<rparr>"

subsection \<open>Item revisions\<close>

text \<open>\<open>itemKey.split("@publish:")[0]\<close>\<close>

fun before_publish :: "string \<Rightarrow> string" where
  "before_publish [] = []"
| "before_publish (c # s) = (if take 9 (c # s) = ''@publish:'' then [] else c # before_publish s)"

text \<open>\<open>None\<close>: no revision at least the minimum that is a safe integer; the transaction rolls back.\<close>

definition allocateItemRevision :: "string \<Rightarrow> int \<Rightarrow> int list \<Rightarrow> command_store \<Rightarrow> (command_store \<times> int) option" where
  "allocateItemRevision itemKey minimum retained st =
     (let key = to_lower (before_publish itemKey);
          floor = foldl max 0 ((minimum - 1) # retained);
          base = (case map_of (cs_revisions st) key of None \<Rightarrow> floor | Some n \<Rightarrow> max n floor);
          revision = base + 1
      in if \<not> safe_integer revision \<or> revision < minimum then None
         else Some (st\<lparr>cs_revisions := AList.update key revision (cs_revisions st)\<rparr>, revision))"

subsection \<open>Every sequence of operations\<close>

datatype command_op =
    AdmitCommand json int
  | FinishCommand string command_outcome int "string option"
  | VerifyCommand intake_record int
  | AdvanceCommand string intake_stage int base_decision
  | DeferCommand intake_record int string "int option" bool
  | RetryCommand intake_record int string
  | PruneReceipts int
  | AllocateRevision string int "int list"

text \<open>A transaction that fails leaves the store as it was; a receipt is never finished as pending.\<close>

fun command_step :: "command_store \<Rightarrow> command_op \<Rightarrow> command_store" where
  "command_step st (AdmitCommand v now) = (case command_admit v now st of Inl e \<Rightarrow> st | Inr (st', a) \<Rightarrow> st')"
| "command_step st (FinishCommand v outcome now detail) =
     (if outcome = CommandPending then st else command_finish v outcome now detail st)"
| "command_step st (VerifyCommand rec now) = fst (markVerified rec now st)"
| "command_step st (AdvanceCommand v stage now decision) = command_advance v stage now decision st"
| "command_step st (DeferCommand rec now detail retryAt increment) = command_defer rec now detail retryAt increment st"
| "command_step st (RetryCommand rec now detail) = retryVerification rec now detail st"
| "command_step st (PruneReceipts now) = pruneTerminalReceipts now st"
| "command_step st (AllocateRevision key minimum retained) =
     (case allocateItemRevision key minimum retained st of None \<Rightarrow> st | Some (st', r) \<Rightarrow> st')"

abbreviation command_run :: "command_store \<Rightarrow> command_op list \<Rightarrow> command_store" where
  "command_run \<equiv> run_ops command_step"

definition row_ok :: "intake_row \<Rightarrow> bool" where
  "row_ok r \<longleftrightarrow>
     (let it = ir_intake (ci_record r)
      in ci_versionId r = di_commandVersionId it \<and> ci_commentKey r = commandSourceCommentKey it
         \<and> ci_sourceUpdatedAt r = source_updated_at it \<and> ci_nextAttemptAt r = ir_nextAttemptAt (ci_record r))"

definition queued_versions :: "command_store \<Rightarrow> (string \<times> string) set" where
  "queued_versions st = set (map (\<lambda>r. (ci_versionId r, ci_commentKey r)) (cs_intakes st))"

definition pending_versions :: "command_store \<Rightarrow> (string \<times> string) set" where
  "pending_versions st =
     set (map (\<lambda>r. (rc_versionId r, rc_commentKey r)) (filter (\<lambda>r. rc_outcome r = CommandPending) (cs_receipts st)))"

definition watermark_time :: "command_store \<Rightarrow> string \<Rightarrow> int option" where
  "watermark_time st key = map_option cw_sourceUpdatedAt (watermark_at st key)"

definition command_inv :: "command_store \<Rightarrow> bool" where
  "command_inv st \<longleftrightarrow>
     distinct (map ci_versionId (cs_intakes st)) \<and> distinct (map rc_versionId (cs_receipts st))
     \<and> (\<forall>r\<in>set (cs_intakes st). row_ok r \<and> watermark_time st (ci_commentKey r) = Some (ci_sourceUpdatedAt r))
     \<and> queued_versions st = pending_versions st"

subsubsection \<open>How each statement changes the tables\<close>

lemma update_receipts_simps [simp]:
  "cs_intakes (update_receipts p f st) = cs_intakes st" "cs_watermarks (update_receipts p f st) = cs_watermarks st"
  "cs_revisions (update_receipts p f st) = cs_revisions st" "watermark_time (update_receipts p f st) k = watermark_time st k"
  "queued_versions (update_receipts p f st) = queued_versions st"
  "cs_receipts (update_receipts p f st) = update_where p f (cs_receipts st)"
  by (simp_all add: update_receipts_def watermark_time_def watermark_at_def queued_versions_def)

lemma delete_intakes_simps [simp]:
  "cs_receipts (delete_intakes p st) = cs_receipts st" "cs_watermarks (delete_intakes p st) = cs_watermarks st"
  "cs_revisions (delete_intakes p st) = cs_revisions st" "watermark_time (delete_intakes p st) k = watermark_time st k"
  "pending_versions (delete_intakes p st) = pending_versions st"
  "cs_intakes (delete_intakes p st) = filter (\<lambda>r. \<not> p r) (cs_intakes st)"
  by (simp_all add: delete_intakes_def watermark_time_def watermark_at_def pending_versions_def)

lemma command_write_simps [simp]:
  "cs_receipts (command_write rec st) = cs_receipts st" "cs_watermarks (command_write rec st) = cs_watermarks st"
  "cs_revisions (command_write rec st) = cs_revisions st" "watermark_time (command_write rec st) k = watermark_time st k"
  "pending_versions (command_write rec st) = pending_versions st" "queued_versions (command_write rec st) = queued_versions st"
  by (simp_all add: command_write_def watermark_time_def watermark_at_def pending_versions_def queued_versions_def
      map_update_where_same del: set_map)

lemma filter_updated:
  assumes "\<And>r. p r \<Longrightarrow> \<not> q (f r)"
  shows "filter q (update_where p f rs) = filter (\<lambda>r. q r \<and> \<not> p r) rs"
  using assms by (induction rs) auto

text \<open>A receipt update that ends exactly the pending receipts selected by \<open>q\<close>.\<close>

lemma pending_ended:
  assumes "\<And>r. p r \<Longrightarrow> rc_outcome (f r) \<noteq> CommandPending"
    and "\<And>r. r \<in> set (cs_receipts st) \<Longrightarrow> rc_outcome r = CommandPending \<Longrightarrow> p r \<longleftrightarrow> q (rc_versionId r, rc_commentKey r)"
  shows "pending_versions (update_receipts p f st) = {x \<in> pending_versions st. \<not> q x}"
  using assms(2) by (auto simp: pending_versions_def filter_updated[of p "\<lambda>r. rc_outcome r = CommandPending", OF assms(1)])

lemma queued_deleted:
  assumes "\<And>r. p r \<longleftrightarrow> q (ci_versionId r, ci_commentKey r)"
  shows "queued_versions (delete_intakes p st) = {x \<in> queued_versions st. \<not> q x}"
  using assms by (auto simp: queued_versions_def)

text \<open>
  Ending the receipts of some versions together with their rows keeps the invariant.
\<close>

lemma inv_end_versions:
  assumes "command_inv st"
    and "\<And>r. p r \<Longrightarrow> rc_outcome (f r) \<noteq> CommandPending \<and> rc_versionId (f r) = rc_versionId r"
    and "\<And>r. r \<in> set (cs_receipts st) \<Longrightarrow> rc_outcome r = CommandPending \<Longrightarrow> p r \<longleftrightarrow> q (rc_versionId r, rc_commentKey r)"
    and "\<And>r. d r \<longleftrightarrow> q (ci_versionId r, ci_commentKey r)"
  shows "command_inv (delete_intakes d (update_receipts p f st))"
proof -
  have "map rc_versionId (update_where p f (cs_receipts st)) = map rc_versionId (cs_receipts st)"
    using assms(2) by (intro map_update_where_same) blast
  moreover have "queued_versions (delete_intakes d (update_receipts p f st)) = pending_versions (delete_intakes d (update_receipts p f st))"
    using assms(1) pending_ended[of p f st q] queued_deleted[of d q "update_receipts p f st"] assms(2-4)
    by (simp add: command_inv_def)
  ultimately show ?thesis using assms(1) by (auto simp: command_inv_def distinct_map_filter)
qed

lemma inv_write:
  assumes "command_inv st" and "\<And>r. command_read st (di_commandVersionId (ir_intake rec)) = Some r \<Longrightarrow> ir_intake rec = ir_intake r"
  shows "command_inv (command_write rec st)"
proof -
  let ?v = "di_commandVersionId (ir_intake rec)"
  from assms(1) have dist: "distinct (map ci_versionId (cs_intakes st))" by (simp add: command_inv_def)
  have row: "row_ok r \<and> watermark_time st (ci_commentKey r) = Some (ci_sourceUpdatedAt r)"
    if "r \<in> set (cs_intakes (command_write rec st))" for r
  proof -
    from that obtain r0 where r0: "r0 \<in> set (cs_intakes st)"
      and r: "r = (if ci_versionId r0 = ?v then r0\<lparr>ci_record := rec, ci_nextAttemptAt := ir_nextAttemptAt rec\<rparr> else r0)"
      by (auto simp: command_write_def in_set_update_where)
    from assms(1) r0 have ok: "row_ok r0" "watermark_time st (ci_commentKey r0) = Some (ci_sourceUpdatedAt r0)"
      by (simp_all add: command_inv_def)
    show ?thesis
    proof (cases "ci_versionId r0 = ?v")
      case True
      have "find (\<lambda>x. ci_versionId x = ?v) (cs_intakes st) = Some r0"
        by (rule find_unique[OF r0]) (use True distinct_map_unique[OF dist _ r0] in simp_all)
      then have "ir_intake rec = ir_intake (ci_record r0)" by (intro assms(2)) (simp add: command_read_def)
      with True ok show ?thesis unfolding r by (simp add: row_ok_def Let_def)
    qed (use ok in \<open>simp add: r\<close>)
  qed
  moreover have "map ci_versionId (cs_intakes (command_write rec st)) = map ci_versionId (cs_intakes st)"
    by (simp add: command_write_def map_update_where_same)
  ultimately show ?thesis
    using assms(1) unfolding command_inv_def command_write_simps by simp
qed

lemma inv_note_pending: "command_inv st \<Longrightarrow> command_inv (note_pending v now detail st)"
proof -
  let ?p = "\<lambda>r :: command_receipt. rc_versionId r = v \<and> rc_outcome r = CommandPending"
  let ?f = "\<lambda>r :: command_receipt. r\<lparr>rc_observedAt := now, rc_detail := Some (take 500 detail)\<rparr>"
  have "map rc_versionId (update_where ?p ?f (cs_receipts st)) = map rc_versionId (cs_receipts st)"
    by (simp add: map_update_where_same)
  moreover have "pending_versions (update_receipts ?p ?f st) = pending_versions st"
  proof -
    have "map (\<lambda>r. (rc_versionId r, rc_commentKey r)) (filter (\<lambda>r. rc_outcome r = CommandPending) (update_where ?p ?f rs))
      = map (\<lambda>r. (rc_versionId r, rc_commentKey r)) (filter (\<lambda>r. rc_outcome r = CommandPending) rs)" for rs
      by (induction rs) auto
    then show ?thesis by (simp add: pending_versions_def del: set_map)
  qed
  ultimately show "command_inv st \<Longrightarrow> command_inv (note_pending v now detail st)"
    by (simp add: command_inv_def note_pending_def)
qed


subsubsection \<open>Each operation keeps the tables consistent\<close>

lemma command_read_row:
  assumes "command_read st v = Some rec" and "command_inv st"
  shows "di_commandVersionId (ir_intake rec) = v"
  using assms by (auto simp: command_read_def command_inv_def row_ok_def Let_def dest!: find_SomeD)

lemma command_read_same:
  assumes "command_read st v = Some rec" and "command_inv st" and "command_read st (di_commandVersionId (ir_intake rec)) = Some r"
  shows "r = rec"
  using assms command_read_row[OF assms(1,2)] by simp

lemma watermark_time_put:
  "watermark_time (st\<lparr>cs_watermarks := put_watermark w (cs_watermarks st)\<rparr>) key =
     (if key = cw_commentKey w
      then Some (case watermark_time st key of None \<Rightarrow> cw_sourceUpdatedAt w | Some t \<Rightarrow> max t (cw_sourceUpdatedAt w))
      else watermark_time st key)"
proof -
  have find: "find (\<lambda>x. cw_commentKey x = key) (put_watermark w ws) =
      (if key = cw_commentKey w
       then (case find (\<lambda>x. cw_commentKey x = key) ws of None \<Rightarrow> Some w
             | Some x \<Rightarrow> Some (if cw_sourceUpdatedAt w > cw_sourceUpdatedAt x
                  then x\<lparr>cw_sourceUpdatedAt := cw_sourceUpdatedAt w, cw_versionId := cw_versionId w, cw_bodyDigest := cw_bodyDigest w\<rparr> else x))
       else find (\<lambda>x. cw_commentKey x = key) ws)" for ws
  proof (cases "\<exists>x\<in>set ws. cw_commentKey x = cw_commentKey w")
    case True
    then have "find (\<lambda>x. cw_commentKey x = cw_commentKey w) ws \<noteq> None" by (auto simp: find_None_iff)
    with True show ?thesis
      by (cases "find (\<lambda>x. cw_commentKey x = key) ws"; cases "key = cw_commentKey w")
        (auto simp: put_watermark_def find_update_where dest: find_SomeD)
  next
    case False
    then have "find (\<lambda>x. cw_commentKey x = cw_commentKey w) ws = None" by (auto simp: find_None_iff)
    moreover have "find p (ws @ [w]) = (case find p ws of None \<Rightarrow> if p w then Some w else None | Some x \<Rightarrow> Some x)" for p
      by (induction ws) auto
    ultimately show ?thesis using False by (auto simp: put_watermark_def split: option.splits)
  qed
  show ?thesis by (auto simp: watermark_time_def watermark_at_def find split: option.splits)
qed

lemma inv_supersede_older: "command_inv st \<Longrightarrow> command_inv (supersede_older now key st)"
  unfolding supersede_older_def
  by (rule inv_end_versions[where q = "\<lambda>x. snd x = key"]) (auto simp: supersede_receipt_def)

lemma inv_finish: "command_inv st \<Longrightarrow> outcome \<noteq> CommandPending \<Longrightarrow> command_inv (command_finish v outcome now detail st)"
  unfolding command_finish_def by (rule inv_end_versions[where q = "\<lambda>x. fst x = v"]) auto

lemma inv_watermark_versions:
  assumes "command_inv st" and "\<And>k. watermark_time (st\<lparr>cs_watermarks := ws\<rparr>) k = watermark_time st k"
  shows "command_inv (st\<lparr>cs_watermarks := ws\<rparr>)"
  using assms by (simp add: command_inv_def queued_versions_def pending_versions_def)

lemma inv_verify: "command_inv st \<Longrightarrow> command_inv (fst (markVerified rec now st))"
proof -
  assume inv: "command_inv st"
  let ?key = "commandSourceCommentKey (ir_intake rec)" and ?v = "di_commandVersionId (ir_intake rec)"
  let ?p = "\<lambda>w :: comment_watermark. cw_commentKey w = ?key \<and> cw_sourceUpdatedAt w = source_updated_at (ir_intake rec)"
  let ?f = "\<lambda>w :: comment_watermark. w\<lparr>cw_versionId := ?v, cw_bodyDigest := di_commandBodyDigest (ir_intake rec)\<rparr>"
  have found: "find (\<lambda>w. cw_commentKey w = k) (update_where ?p ?f ws)
      = map_option (\<lambda>w. if ?p w then ?f w else w) (find (\<lambda>w. cw_commentKey w = k) ws)" for k ws
    by (rule find_update_where) simp
  have "command_inv (st\<lparr>cs_watermarks := update_where ?p ?f (cs_watermarks st)\<rparr>)"
  proof (intro inv_watermark_versions[OF inv])
    show "watermark_time (st\<lparr>cs_watermarks := update_where ?p ?f (cs_watermarks st)\<rparr>) k = watermark_time st k" for k
      using found[of k "cs_watermarks st"] by (cases "find (\<lambda>w. cw_commentKey w = k) (cs_watermarks st)") (auto simp: watermark_time_def watermark_at_def)
  qed
  then show ?thesis
    unfolding markVerified_def Let_def using inv
    by (auto intro!: inv_end_versions[where q = "\<lambda>x. snd x = ?key \<and> fst x \<noteq> ?v"] simp: supersede_receipt_def)
qed

lemma inv_advance: "command_inv st \<Longrightarrow> command_inv (command_advance v stage now d st)"
  by (auto simp: command_advance_def split: option.split intro!: inv_write dest: command_read_same)

lemma inv_defer: "command_inv st \<Longrightarrow> command_inv (command_defer rec now detail retryAt increment st)"
  unfolding command_defer_def Let_def
  by (intro inv_note_pending inv_write) (auto split: option.splits dest: command_read_same)

lemma inv_retry: "command_inv st \<Longrightarrow> command_inv (retryVerification rec now detail st)"
  unfolding retryVerification_def Let_def
  by (intro inv_note_pending inv_write) (auto split: option.splits dest: command_read_same)

lemma inv_prune: "command_inv st \<Longrightarrow> command_inv (pruneTerminalReceipts now st)"
proof -
  have "filter (\<lambda>r. rc_outcome r = CommandPending \<and> rc_outcome r = CommandPending) rs = filter (\<lambda>r. rc_outcome r = CommandPending) rs" for rs
    by simp
  then have "pending_versions (pruneTerminalReceipts now st) = pending_versions st"
    by (auto simp: pruneTerminalReceipts_def pending_versions_def)
  then show "command_inv st \<Longrightarrow> command_inv (pruneTerminalReceipts now st)"
    by (simp add: command_inv_def pruneTerminalReceipts_def distinct_map_filter queued_versions_def watermark_time_def watermark_at_def)
qed

lemma inv_insert_rejected:
  assumes "command_inv st" and "receipt_at st (di_commandVersionId it) = None"
  shows "command_inv (insert_rejected now it detail st)"
proof -
  have "di_commandVersionId it \<notin> set (map rc_versionId (cs_receipts st))"
    using assms(2) by (auto simp: receipt_at_def find_None_iff)
  with assms show ?thesis
    by (auto simp: command_inv_def insert_rejected_def queued_versions_def pending_versions_def watermark_time_def watermark_at_def)
qed

text \<open>A version without a receipt has no row either, so its insertion violates no key.\<close>

lemma insert_command_ok:
  assumes "command_inv st" and "receipt_at st (di_commandVersionId it) = None"
  obtains st' where "insert_command now it st = Inr st'"
proof -
  have "\<not> (\<exists>r\<in>set (cs_intakes st). ci_versionId r = di_commandVersionId it)"
  proof
    assume "\<exists>r\<in>set (cs_intakes st). ci_versionId r = di_commandVersionId it"
    then have "di_commandVersionId it \<in> fst ` queued_versions st" by (force simp: queued_versions_def)
    with assms(1) have "di_commandVersionId it \<in> fst ` pending_versions st" by (simp add: command_inv_def)
    with assms(2) show False by (auto simp: pending_versions_def receipt_at_def find_None_iff)
  qed
  with assms(2) that show ?thesis by (simp add: insert_command_def Let_def)
qed

lemma inv_insert_command:
  assumes inv: "command_inv st" and none: "receipt_at st (di_commandVersionId it) = None"
    and ins: "insert_command now it st = Inr st'"
    and newest: "\<forall>r\<in>set (cs_intakes st). ci_commentKey r = commandSourceCommentKey it \<longrightarrow> ci_sourceUpdatedAt r = source_updated_at it"
    and mark: "case watermark_time st (commandSourceCommentKey it) of None \<Rightarrow> True | Some t \<Rightarrow> t \<le> source_updated_at it"
  shows "command_inv st'"
proof -
  let ?key = "commandSourceCommentKey it" and ?v = "di_commandVersionId it"
  let ?row = "\<lparr>ci_versionId = ?v, ci_commentKey = ?key, ci_sourceUpdatedAt = source_updated_at it,
     ci_record = new_intake_record now it, ci_nextAttemptAt = now\<rparr>"
  let ?rc = "\<lparr>rc_versionId = ?v, rc_commentKey = ?key, rc_outcome = CommandPending, rc_observedAt = now, rc_detail = None\<rparr>"
  let ?w = "\<lparr>cw_commentKey = ?key, cw_sourceUpdatedAt = source_updated_at it, cw_versionId = ?v, cw_bodyDigest = di_commandBodyDigest it\<rparr>"
  from ins none have st': "st' = st\<lparr>cs_watermarks := put_watermark ?w (cs_watermarks st), cs_receipts := cs_receipts st @ [?rc],
      cs_intakes := cs_intakes st @ [?row]\<rparr>"
    and fresh: "?v \<notin> set (map ci_versionId (cs_intakes st))"
    by (auto simp: insert_command_def Let_def split: if_splits)
  have fresh_rc: "?v \<notin> set (map rc_versionId (cs_receipts st))" using none by (auto simp: receipt_at_def find_None_iff)
  have "watermark_time st' k = watermark_time (st\<lparr>cs_watermarks := put_watermark ?w (cs_watermarks st)\<rparr>) k" for k
    by (simp add: st' watermark_time_def watermark_at_def)
  then have time: "watermark_time st' k = (if k = ?key then Some (source_updated_at it) else watermark_time st k)" for k
    using mark by (auto simp: watermark_time_put split: option.splits)
  have "row_ok r \<and> watermark_time st' (ci_commentKey r) = Some (ci_sourceUpdatedAt r)" if "r \<in> set (cs_intakes st')" for r
  proof (cases "r = ?row")
    case True
    then show ?thesis by (simp add: time row_ok_def new_intake_record_def Let_def)
  next
    case False
    with that have "r \<in> set (cs_intakes st)" by (simp add: st')
    with inv newest show ?thesis by (auto simp: command_inv_def time)
  qed
  then show ?thesis
    using inv fresh fresh_rc by (simp add: command_inv_def st' queued_versions_def pending_versions_def)
qed

lemma supersede_older_empty: "r \<in> set (cs_intakes (supersede_older now key st)) \<Longrightarrow> ci_commentKey r \<noteq> key"
  by (simp add: supersede_older_def)

lemma receipt_at_supersede: "receipt_at (supersede_older now key st) v = None \<longleftrightarrow> receipt_at st v = None"
proof -
  have "find (\<lambda>r. rc_versionId r = v) (update_where (\<lambda>r. rc_commentKey r = key \<and> rc_outcome r = CommandPending)
      (supersede_receipt now t) rs) = None \<longleftrightarrow> find (\<lambda>r. rc_versionId r = v) rs = None" for rs t
    by (subst find_update_where) (auto simp: supersede_receipt_def)
  then show ?thesis by (simp add: receipt_at_def supersede_older_def)
qed

text \<open>
  An admission on a consistent store: it breaks no key, the result is consistent, the watermark
  of the comment never goes back, and a fresh version becomes the newest one.
\<close>

definition times_kept :: "command_store \<Rightarrow> command_store \<Rightarrow> bool" where
  "times_kept st st' \<longleftrightarrow> (\<forall>k t. watermark_time st k = Some t \<longrightarrow> (\<exists>t'. watermark_time st' k = Some t' \<and> t \<le> t'))"

definition fresh_newest :: "command_store \<Rightarrow> intake \<Rightarrow> command_store \<Rightarrow> bool" where
  "fresh_newest st it st' \<longleftrightarrow> watermark_time st' (commandSourceCommentKey it) = Some (source_updated_at it)
     \<and> (case watermark_time st (commandSourceCommentKey it) of None \<Rightarrow> True | Some t \<Rightarrow> t \<le> source_updated_at it)"

definition admission_ok :: "command_store \<Rightarrow> intake \<Rightarrow> command_store \<Rightarrow> command_admission \<Rightarrow> bool" where
  "admission_ok st it st' a \<longleftrightarrow> command_inv st' \<and> times_kept st st' \<and> cs_revisions st' = cs_revisions st
     \<and> (\<forall>v. a = Admitted False v \<longrightarrow> v = di_commandVersionId it \<and> fresh_newest st it st')"

lemma times_kept_same: "(\<And>k. watermark_time st' k = watermark_time st k) \<Longrightarrow> times_kept st st'"
  by (simp add: times_kept_def)

lemma times_kept_trans: "times_kept a b \<Longrightarrow> times_kept b c \<Longrightarrow> times_kept a c"
  unfolding times_kept_def by (meson order_trans)

text \<open>A version that is the newest of its comment enters the tables.\<close>

lemma insert_newest:
  assumes inv: "command_inv st" and none: "receipt_at st (di_commandVersionId it) = None"
    and newest: "\<forall>r\<in>set (cs_intakes st). ci_commentKey r = commandSourceCommentKey it \<longrightarrow> ci_sourceUpdatedAt r = source_updated_at it"
    and mark: "case watermark_time st (commandSourceCommentKey it) of None \<Rightarrow> True | Some t \<Rightarrow> t \<le> source_updated_at it"
  shows "\<exists>st'. insert_command now it st = Inr st' \<and> command_inv st' \<and> times_kept st st' \<and> cs_revisions st' = cs_revisions st
    \<and> fresh_newest st it st'"
proof -
  let ?key = "commandSourceCommentKey it" and ?t = "source_updated_at it"
  obtain st' where ins: "insert_command now it st = Inr st'" using insert_command_ok[OF inv none] .
  have "watermark_time st' k = watermark_time (st\<lparr>cs_watermarks := put_watermark \<lparr>cw_commentKey = ?key, cw_sourceUpdatedAt = ?t,
      cw_versionId = di_commandVersionId it, cw_bodyDigest = di_commandBodyDigest it\<rparr> (cs_watermarks st)\<rparr>) k" for k
    using ins by (auto simp: insert_command_def Let_def watermark_time_def watermark_at_def split: if_splits)
  then have time: "watermark_time st' k = (if k = ?key then Some ?t else watermark_time st k)" for k
    using mark by (simp add: watermark_time_put split: option.splits)
  have "cs_revisions st' = cs_revisions st"
    using ins by (auto simp: insert_command_def Let_def split: if_splits)
  moreover have "times_kept st st'" "fresh_newest st it st'"
    using mark by (auto simp: time times_kept_def fresh_newest_def)
  ultimately show ?thesis using ins inv_insert_command[OF inv none ins newest mark] by blast
qed

lemma supersede_older_simps [simp]:
  "watermark_time (supersede_older now key st) k = watermark_time st k"
  "cs_revisions (supersede_older now key st) = cs_revisions st"
  by (simp_all add: supersede_older_def)

lemma fresh_newest_cong: "(\<And>k. watermark_time st1 k = watermark_time st k) \<Longrightarrow> fresh_newest st1 it st' = fresh_newest st it st'"
  by (simp add: fresh_newest_def)

lemma admit_intake_ok:
  assumes inv: "command_inv st"
  shows "\<exists>st' a. admit_intake now it st = Inr (st', a) \<and> admission_ok st it st' a"
proof (cases "receipt_at st (di_commandVersionId it)")
  case (Some r)
  with inv show ?thesis by (simp add: admit_intake_def Let_def admission_ok_def times_kept_same)
next
  case None
  let ?key = "commandSourceCommentKey it" and ?t = "source_updated_at it"
  let ?newer = "case watermark_at st ?key of None \<Rightarrow> False | Some w \<Rightarrow> cw_sourceUpdatedAt w > ?t"
  let ?same = "case watermark_at st ?key of None \<Rightarrow> False | Some w \<Rightarrow> cw_versionId w = di_commandVersionId it \<and> cw_sourceUpdatedAt w = ?t"
  let ?older = "case watermark_at st ?key of None \<Rightarrow> False | Some w \<Rightarrow> cw_sourceUpdatedAt w < ?t"
  show ?thesis
  proof (cases "?newer \<or> ?same")
    case True
    have "admission_ok st it (insert_rejected now it d st) (NotAdmitted x y)" for d x y
      using inv_insert_rejected[OF inv None] None
      by (auto simp: admission_ok_def insert_rejected_def watermark_time_def watermark_at_def times_kept_def)
    with None True show ?thesis by (auto simp: admit_intake_def Let_def)
  next
    case False
    let ?st = "if ?older then supersede_older now ?key st else st"
    have inv1: "command_inv ?st" using inv inv_supersede_older by simp
    have none1: "receipt_at ?st (di_commandVersionId it) = None" using None by (simp add: receipt_at_supersede)
    have time1: "watermark_time ?st k = watermark_time st k" for k by simp
    from False have mark: "case watermark_time st ?key of None \<Rightarrow> True | Some t \<Rightarrow> t \<le> ?t"
      by (auto simp: watermark_time_def split: option.splits)
    have newest: "\<forall>r\<in>set (cs_intakes ?st). ci_commentKey r = ?key \<longrightarrow> ci_sourceUpdatedAt r = ?t"
    proof (cases ?older)
      case True
      then show ?thesis by (auto dest: supersede_older_empty)
    next
      case no: False
      { fix r assume "r \<in> set (cs_intakes st)" "ci_commentKey r = ?key"
        with inv have "watermark_time st ?key = Some (ci_sourceUpdatedAt r)" by (auto simp: command_inv_def)
        with no False have "ci_sourceUpdatedAt r = ?t" by (auto simp: watermark_time_def split: option.splits) }
      with no show ?thesis by simp
    qed
    obtain st' where ins: "insert_command now it ?st = Inr st'" and ok: "command_inv st'" "times_kept ?st st'"
        "cs_revisions st' = cs_revisions ?st" "fresh_newest ?st it st'"
      using insert_newest[OF inv1 none1 newest] mark unfolding time1 by blast
    have "admit_intake now it st = Inr (st', Admitted False (di_commandVersionId it))"
      unfolding admit_intake_def Let_def None option.case if_not_P[OF False] ins by simp
    moreover have "admission_ok st it st' (Admitted False (di_commandVersionId it))"
      using ok by (simp add: admission_ok_def times_kept_def fresh_newest_def split: if_splits)
    ultimately show ?thesis by blast
  qed
qed

text \<open>The request: a refused body changes nothing.\<close>

definition request_ok :: "json \<Rightarrow> command_store \<Rightarrow> command_store \<Rightarrow> command_admission option \<Rightarrow> bool" where
  "request_ok j st st' a \<longleftrightarrow> command_inv st' \<and> times_kept st st' \<and> cs_revisions st' = cs_revisions st
     \<and> (\<forall>v. a = Some (Admitted False v) \<longrightarrow> (\<exists>it. validateDirectReReviewIntake j = Some it \<and> v = di_commandVersionId it \<and> fresh_newest st it st'))"

lemma command_admit_ok:
  assumes "command_inv st"
  shows "\<exists>st' a. command_admit j now st = Inr (st', a) \<and> request_ok j st st' a"
proof (cases "validateDirectReReviewIntake j")
  case None
  with assms show ?thesis by (simp add: command_admit_def request_ok_def times_kept_same)
next
  case (Some it)
  obtain st' a where "admit_intake now it st = Inr (st', a)" "admission_ok st it st' a"
    using admit_intake_ok[OF assms] by blast
  with Some assms show ?thesis
    by (auto simp: command_admit_def request_ok_def admission_ok_def times_kept_same)
qed

subsubsection \<open>Every operation\<close>

lemma inv_command_step: "command_inv st \<Longrightarrow> command_inv (command_step st x)"
proof (cases x)
  case (AdmitCommand j now)
  moreover assume "command_inv st"
  ultimately show ?thesis using command_admit_ok[of st j now] by (auto simp: request_ok_def)
next
  case (AllocateRevision key minimum retained)
  moreover assume inv: "command_inv st"
  moreover have "command_inv (st\<lparr>cs_revisions := rs\<rparr>)" for rs
    using inv by (simp add: command_inv_def queued_versions_def pending_versions_def watermark_time_def watermark_at_def)
  ultimately show ?thesis by (auto simp: allocateItemRevision_def Let_def)
qed (simp_all add: inv_finish inv_verify inv_advance inv_defer inv_retry inv_prune)

interpretation commands: invariant_machine command_step empty_command_store command_inv
  by unfold_locales
    (auto simp: inv_command_step, simp add: command_inv_def empty_command_store_def queued_versions_def pending_versions_def)

lemma times_kept_verified: "times_kept st (fst (markVerified rec now st))"
proof -
  let ?p = "\<lambda>w :: comment_watermark. cw_commentKey w = commandSourceCommentKey (ir_intake rec)
      \<and> cw_sourceUpdatedAt w = source_updated_at (ir_intake rec)"
  let ?f = "\<lambda>w :: comment_watermark. w\<lparr>cw_versionId := di_commandVersionId (ir_intake rec),
      cw_bodyDigest := di_commandBodyDigest (ir_intake rec)\<rparr>"
  have "find (\<lambda>w. cw_commentKey w = k) (update_where ?p ?f ws)
      = map_option (\<lambda>w. if ?p w then ?f w else w) (find (\<lambda>w. cw_commentKey w = k) ws)" for k ws
    by (rule find_update_where) simp
  then have "watermark_time (st\<lparr>cs_watermarks := update_where ?p ?f (cs_watermarks st)\<rparr>) k = watermark_time st k" for k
    by (cases "find (\<lambda>w. cw_commentKey w = k) (cs_watermarks st)") (auto simp: watermark_time_def watermark_at_def)
  then show ?thesis by (intro times_kept_same) (simp add: markVerified_def Let_def)
qed

lemma watermark_time_same [simp]:
  "watermark_time (command_finish v outcome now why st) k = watermark_time st k"
  "watermark_time (command_advance v stage now d st) k = watermark_time st k"
  "watermark_time (command_defer rec now detail retryAt increment st) k = watermark_time st k"
  "watermark_time (retryVerification rec now detail st) k = watermark_time st k"
  "watermark_time (pruneTerminalReceipts now st) k = watermark_time st k"
  by (simp_all add: command_finish_def command_advance_def command_defer_def retryVerification_def note_pending_def Let_def
      split: option.split) (simp add: pruneTerminalReceipts_def watermark_time_def watermark_at_def)

lemma times_kept_step: "command_inv st \<Longrightarrow> times_kept st (command_step st x)"
proof (cases x)
  case (AdmitCommand j now)
  moreover assume "command_inv st"
  ultimately show ?thesis using command_admit_ok[of st j now] by (auto simp: request_ok_def)
next
  case (AllocateRevision key minimum retained)
  then show ?thesis
    by (auto intro!: times_kept_same simp: allocateItemRevision_def Let_def watermark_time_def watermark_at_def)
qed (auto simp: times_kept_verified intro: times_kept_same)

lemma times_kept_run: "command_inv st \<Longrightarrow> times_kept st (command_run st xs)"
proof (induction xs arbitrary: st)
  case (Cons x xs)
  then have "times_kept (command_step st x) (command_run (command_step st x) xs)" using inv_command_step by blast
  with times_kept_trans[OF times_kept_step[OF Cons.prems]] show ?case by simp
qed (simp add: times_kept_same)

subsubsection \<open>Revisions\<close>

definition revision_at :: "command_store \<Rightarrow> string \<Rightarrow> int" where
  "revision_at st key = (case map_of (cs_revisions st) key of None \<Rightarrow> 0 | Some n \<Rightarrow> n)"

lemma foldl_max_start: "(a::int) \<le> foldl max a xs"
proof (induction xs arbitrary: a)
  case (Cons y ys)
  then have "max a y \<le> foldl max (max a y) ys" by blast
  then show ?case by simp
qed simp

lemma foldl_max_member: "x \<in> set xs \<Longrightarrow> (x::int) \<le> foldl max a xs"
  by (induction xs arbitrary: a) (use foldl_max_start[of "max _ x"] in force)+

lemma allocation:
  assumes "allocateItemRevision k m rs st = Some (st', n)"
  shows "revision_at st (to_lower (before_publish k)) < n" "m \<le> n" "\<forall>x\<in>set rs. x < n"
    "revision_at st' (to_lower (before_publish k)) = n"
    "\<And>key. key \<noteq> to_lower (before_publish k) \<Longrightarrow> revision_at st' key = revision_at st key"
  using assms foldl_max_start[of "max 0 (m - 1)" rs] foldl_max_member[of _ rs "max 0 (m - 1)"]
  by (auto simp: allocateItemRevision_def Let_def revision_at_def update_conv split: if_splits option.splits) force+

lemma revisions_same [simp]:
  "cs_revisions (command_finish v outcome now why st) = cs_revisions st"
  "cs_revisions (fst (markVerified rec now st)) = cs_revisions st"
  "cs_revisions (command_advance v stage now d st) = cs_revisions st"
  "cs_revisions (command_defer rec now detail retryAt increment st) = cs_revisions st"
  "cs_revisions (retryVerification rec now detail st) = cs_revisions st"
  "cs_revisions (pruneTerminalReceipts now st) = cs_revisions st"
  by (simp_all add: command_finish_def markVerified_def command_advance_def command_defer_def retryVerification_def
      note_pending_def pruneTerminalReceipts_def Let_def split: option.split)

lemma revision_step: "command_inv st \<Longrightarrow> revision_at st key \<le> revision_at (command_step st x) key"
proof (cases x)
  case (AdmitCommand j now)
  moreover assume "command_inv st"
  ultimately show ?thesis using command_admit_ok[of st j now] by (auto simp: request_ok_def revision_at_def)
next
  case (AllocateRevision k m rs)
  then show ?thesis
  proof (cases "allocateItemRevision k m rs st")
    case (Some r)
    then obtain st' n where "allocateItemRevision k m rs st = Some (st', n)" by (cases r) auto
    with allocation[OF this] AllocateRevision show ?thesis by (cases "key = to_lower (before_publish k)") auto
  qed simp
qed (simp_all add: revision_at_def)

lemma revision_run: "command_inv st \<Longrightarrow> revision_at st key \<le> revision_at (command_run st xs) key"
proof (induction xs arbitrary: st)
  case (Cons x xs)
  from Cons.prems have "revision_at (command_step st x) key \<le> revision_at (command_run (command_step st x) xs) key"
    by (intro Cons.IH inv_command_step)
  with revision_step[OF Cons.prems, of key x] show ?case by simp
qed simp

subsubsection \<open>Retries\<close>

definition op_time :: "command_op \<Rightarrow> int" where
  "op_time x = (case x of AdmitCommand j now \<Rightarrow> now | FinishCommand v outcome now detail \<Rightarrow> now | VerifyCommand rec now \<Rightarrow> now
     | AdvanceCommand v stage now d \<Rightarrow> now | DeferCommand rec now detail r i \<Rightarrow> now | RetryCommand rec now detail \<Rightarrow> now
     | PruneReceipts now \<Rightarrow> now | AllocateRevision k m rs \<Rightarrow> 0)"

definition next_by :: "int \<Rightarrow> command_store \<Rightarrow> bool" where
  "next_by t st \<longleftrightarrow> (\<forall>r\<in>set (cs_intakes st). ci_nextAttemptAt r \<le> t)"

lemma retry_wait_max: "retry_wait a \<le> COMMAND_RETRY_MAX_MS"
  by (simp add: retry_wait_def)

lemma next_by_simps [simp]:
  "next_by t (update_receipts p f st) = next_by t st" "next_by t (note_pending v now detail st) = next_by t st"
  by (simp_all add: next_by_def note_pending_def)

lemma next_by_delete: "next_by t st \<Longrightarrow> next_by t (delete_intakes p st)"
  by (simp add: next_by_def)

lemma next_by_write: "next_by t st \<Longrightarrow> ir_nextAttemptAt rec \<le> t \<Longrightarrow> next_by t (command_write rec st)"
  by (auto simp: next_by_def command_write_def in_set_update_where)

lemma next_by_supersede: "next_by t st \<Longrightarrow> next_by t (supersede_older now key st)"
  unfolding supersede_older_def by (intro next_by_delete) simp

lemma next_by_insert:
  assumes "insert_command now it st = Inr st'" and "next_by t st" and "now \<le> t"
  shows "next_by t st'"
  using assms by (auto simp: insert_command_def Let_def next_by_def split: if_splits)

lemma next_by_admit:
  assumes "command_admit j now st = Inr (st', a)" and "next_by t st" and "now \<le> t"
  shows "next_by t st'"
proof -
  have "next_by t st'" if "admit_intake now it st = Inr (st', a)" for it a
    using that assms(2,3) next_by_insert[OF _ assms(2,3)] next_by_insert[OF _ next_by_supersede[OF assms(2)] assms(3)]
    by (auto simp: admit_intake_def Let_def insert_rejected_def next_by_def map_sum_Inr split: option.splits if_splits)
  with assms show ?thesis by (auto simp: command_admit_def map_sum_Inr split: option.splits if_splits)
qed

lemma defer_wait:
  assumes "0 \<le> T" and "now \<le> T"
  shows "max (now + max 1000 (retry_wait a)) (if num_truthy r then min (the r) (now + COMMAND_RETRY_MAX_MS) else 0) \<le> T + COMMAND_RETRY_MAX_MS"
  using assms retry_wait_max[of a] by (auto simp: COMMAND_RETRY_MAX_MS_def)

lemma next_by_step:
  assumes "next_by (T + COMMAND_RETRY_MAX_MS) st" and "op_time x \<le> T" and "0 \<le> T"
  shows "next_by (T + COMMAND_RETRY_MAX_MS) (command_step st x)"
proof -
  have wait: "now + retry_wait a \<le> T + COMMAND_RETRY_MAX_MS" "now \<le> T + COMMAND_RETRY_MAX_MS" if "now \<le> T" for now a
    using retry_wait_max[of a] that by (auto simp: COMMAND_RETRY_MAX_MS_def)
  show ?thesis
  proof (cases x)
    case (AdmitCommand j now)
    with assms show ?thesis
      using wait(2)[of now] by (auto simp: op_time_def split: sum.split intro: next_by_admit)
  next
    case (AllocateRevision k m rs)
    with assms show ?thesis by (auto simp: allocateItemRevision_def Let_def next_by_def)
  next
    case (DeferCommand rec now detail r i)
    with assms have "now \<le> T" by (simp add: op_time_def)
    with DeferCommand assms(1,3) show ?thesis
      using defer_wait by (simp add: command_defer_def Let_def next_by_write)
  qed (use assms wait in \<open>auto simp: op_time_def command_finish_def markVerified_def command_advance_def retryVerification_def Let_def
      split: option.split intro!: next_by_write next_by_delete, simp_all add: pruneTerminalReceipts_def next_by_def\<close>)
qed

lemma next_by_run:
  assumes "next_by (T + COMMAND_RETRY_MAX_MS) st" and "\<forall>x\<in>set xs. op_time x \<le> T" and "0 \<le> T"
  shows "next_by (T + COMMAND_RETRY_MAX_MS) (command_run st xs)"
  using assms by (induction xs arbitrary: st) (auto intro: next_by_step)

text \<open>
  C24. The three tables of the command intake agree after any sequence of admissions, verifications,
  deferrals, retries, completions and prunings, whatever their order and times: the pending
  receipts are exactly the queued rows, with the same version and comment, no version has two rows
  or two receipts, and every queued row belongs to the newest comment time that was observed. So
  a command is never lost without a terminal receipt, nothing stale waits, and an admission
  always commits: its inserts break no key.
\<close>

theorem command_store_consistent:
  "let st = command_run empty_command_store ops
   in queued_versions st = pending_versions st
      \<and> distinct (map ci_versionId (cs_intakes st)) \<and> distinct (map rc_versionId (cs_receipts st))
      \<and> (\<forall>r\<in>set (cs_intakes st). watermark_time st (ci_commentKey r) = Some (ci_sourceUpdatedAt r))
      \<and> (\<forall>j now. \<exists>st' a. command_admit j now st = Inr (st', a))"
  using commands.inv_reachable[of ops] command_admit_ok[OF commands.inv_reachable[of ops]]
  by (simp add: Let_def command_inv_def) blast

text \<open>
  C25. A comment version never overtakes a newer one. Once a version of a comment was admitted at
  its time \<open>t\<close>, no version of the same comment with an earlier time is freshly admitted or counts
  as current, whatever happens in between: redelivered webhooks, verifications of other versions,
  retries, completions, prunings of receipts.
\<close>

theorem older_comment_never_admitted:
  assumes "command_admit j now (command_run empty_command_store ops) = Inr (st1, Some (Admitted False v))"
    and "validateDirectReReviewIntake j = Some it" and "validateDirectReReviewIntake j' = Some it'"
    and "commandSourceCommentKey it' = commandSourceCommentKey it" and "source_updated_at it' < source_updated_at it"
  shows "command_admit j' now' (command_run st1 ops') \<noteq> Inr (st2, Some (Admitted False v'))
    \<and> (ir_intake rec = it' \<longrightarrow> \<not> isCurrent (command_run st1 ops') rec)"
proof (intro conjI impI)
  obtain st' a where "command_admit j now (command_run empty_command_store ops) = Inr (st', a)"
    "request_ok j (command_run empty_command_store ops) st' a"
    using command_admit_ok[OF commands.inv_reachable[of ops]] by blast
  with assms(1,2) have inv: "command_inv st1" "watermark_time st1 (commandSourceCommentKey it) = Some (source_updated_at it)"
    by (auto simp: request_ok_def fresh_newest_def)
  from times_kept_run[OF inv(1)] inv(2)
  obtain t where t: "watermark_time (command_run st1 ops') (commandSourceCommentKey it) = Some t" "source_updated_at it \<le> t"
    unfolding times_kept_def by blast
  obtain st'' a' where "command_admit j' now' (command_run st1 ops') = Inr (st'', a')" "request_ok j' (command_run st1 ops') st'' a'"
    using command_admit_ok[OF commands.inv_run[OF inv(1)]] by blast
  with t assms(3-5) show "command_admit j' now' (command_run st1 ops') \<noteq> Inr (st2, Some (Admitted False v'))"
    by (auto simp: request_ok_def fresh_newest_def)
  show "\<not> isCurrent (command_run st1 ops') rec" if "ir_intake rec = it'"
    using t assms(4,5) that by (auto simp: isCurrent_def watermark_time_def split: option.splits)
qed

text \<open>
  Item revisions only grow. Of two allocations for the same item, with any operations between
  them, the later one gets the larger revision; each is at least its minimum and above every
  revision that the caller retains, and publication items share the revision of the item they
  publish.
\<close>

theorem item_revision_monotone:
  assumes "allocateItemRevision k m rs (command_run empty_command_store ops) = Some (st1, n)"
    and "allocateItemRevision k' m' rs' (command_run st1 ops') = Some (st2, n')"
    and "to_lower (before_publish k') = to_lower (before_publish k)"
  shows "n < n' \<and> m' \<le> n' \<and> (\<forall>x\<in>set rs'. x < n')"
proof -
  have "command_inv st1"
    using inv_command_step[OF commands.inv_reachable[of ops], of "AllocateRevision k m rs"] assms(1) by simp
  from revision_run[OF this, of "to_lower (before_publish k)" ops'] allocation(4)[OF assms(1)]
  show ?thesis using allocation(1-3)[OF assms(2)] assms(3) by simp
qed

text \<open>The rows that a pass serves before a given one.\<close>

definition served_before :: "intake_row \<Rightarrow> intake_row \<Rightarrow> bool" where
  "served_before q r \<longleftrightarrow>
     ci_nextAttemptAt q < ci_nextAttemptAt r
     \<or> ci_nextAttemptAt q = ci_nextAttemptAt r \<and> ci_versionId q < ci_versionId r"

lemma due_order_served: "due_order q r < 0 \<longleftrightarrow> served_before q r" "due_order q r = 0 \<Longrightarrow> ci_versionId q = ci_versionId r"
  by (auto simp: due_order_def served_before_def cmp_or_def split: if_splits)

lemma js_comparator_due_order: "js_comparator due_order"
proof -
  have "due_order q r \<le> 0 \<longleftrightarrow> ci_nextAttemptAt q < ci_nextAttemptAt r
      \<or> ci_nextAttemptAt q = ci_nextAttemptAt r \<and> ci_versionId q \<le> ci_versionId r" for q r
    by (auto simp: due_order_def cmp_or_le_iff)
  then show ?thesis by (intro js_comparator.intro) auto
qed

lemma due_or_crowded:
  assumes "distinct (map ci_versionId (cs_intakes st))" "r \<in> set (cs_intakes st)" "ci_nextAttemptAt r \<le> now"
  shows "ci_record r \<in> set (command_due now st)
    \<or> COMMAND_INTAKE_LIMIT \<le> length (filter (\<lambda>q. served_before q r) (cs_intakes st))"
proof -
  define due where "due = filter (\<lambda>r. ci_nextAttemptAt r \<le> now) (cs_intakes st)"
  define ys where "ys = js_sort due_order due"
  let ?n = COMMAND_INTAKE_LIMIT
  have r: "r \<in> set ys" using assms(2,3) by (simp add: ys_def due_def)
  have sub: "length (filter p (filter q xs)) \<le> length (filter p xs)" for p q and xs :: "intake_row list" by (induction xs) auto
  have sorted: "sorted_wrt (\<lambda>a b. due_order a b \<le> 0) (take ?n ys @ drop ?n ys)"
    using js_comparator.sorted_js_sort[OF js_comparator_due_order, of due] by (simp add: ys_def)
  have dist: "distinct (map ci_versionId ys)"
    using assms(1) mset_js_sort[of due_order due]
    by (metis distinct_map_filter due_def mset_eq_imp_distinct_iff mset_map ys_def)
  show ?thesis
  proof (cases "r \<in> set (take ?n ys)")
    case True
    then show ?thesis by (auto simp: command_due_def ys_def due_def)
  next
    case False
    with r have late: "r \<in> set (drop ?n ys)" by (metis UnE append_take_drop_id set_append)
    have ahead: "served_before q r" if "q \<in> set (take ?n ys)" for q
    proof -
      from sorted[unfolded sorted_wrt_append] that late have "due_order q r \<le> 0" by blast
      moreover have "ci_versionId q \<noteq> ci_versionId r"
        using dist that late r False by (metis distinct_map_unique in_set_takeD)
      ultimately show ?thesis using due_order_served[of q r] by fastforce
    qed
    from late have "?n < length ys" by (cases "?n < length ys") auto
    then have "?n = length (filter (\<lambda>q. served_before q r) (take ?n ys))" using ahead by (simp add: filter_id_conv)
    also have "\<dots> \<le> length (filter (\<lambda>q. served_before q r) ys)"
      by (metis append_take_drop_id filter_append le_add1 length_append)
    also have "\<dots> = length (filter (\<lambda>q. served_before q r) due)" by (metis mset_filter mset_js_sort size_mset ys_def)
    also have "\<dots> \<le> length (filter (\<lambda>q. served_before q r) (cs_intakes st))"
      unfolding due_def by (rule sub)
    finally show ?thesis by blast
  qed
qed

text \<open>
  C28. A pending command is retried. After any operations with times up to \<open>T\<close>, a command whose
  receipt is pending has its row, and the row is due within the longest retry wait: no deferral,
  requested retry time or failed verification parks it for longer. The pass at that time takes the
  command up, unless at least a full pass of other rows, with an earlier next attempt (or the same
  and a smaller version), is queued ahead of it.
\<close>

theorem pending_command_retried:
  assumes "\<forall>x\<in>set ops. op_time x \<le> T" and "0 \<le> T"
    and "(v, key) \<in> pending_versions (command_run empty_command_store ops)"
  shows "\<exists>r\<in>set (cs_intakes (command_run empty_command_store ops)).
    di_commandVersionId (ir_intake (ci_record r)) = v \<and> commandSourceCommentKey (ir_intake (ci_record r)) = key
    \<and> ci_nextAttemptAt r \<le> T + COMMAND_RETRY_MAX_MS
    \<and> (ci_record r \<in> set (command_due (T + COMMAND_RETRY_MAX_MS) (command_run empty_command_store ops))
       \<or> COMMAND_INTAKE_LIMIT \<le> length (filter (\<lambda>q. served_before q r) (cs_intakes (command_run empty_command_store ops))))"
proof -
  let ?st = "command_run empty_command_store ops" and ?t = "T + COMMAND_RETRY_MAX_MS"
  have inv: "command_inv ?st" by (rule commands.inv_reachable)
  have "next_by ?t empty_command_store" by (simp add: next_by_def empty_command_store_def)
  then have next_by: "next_by ?t ?st" using assms(1,2) by (rule next_by_run)
  from assms(3) inv have "(v, key) \<in> queued_versions ?st" by (simp add: command_inv_def)
  then obtain r where r: "r \<in> set (cs_intakes ?st)" "ci_versionId r = v" "ci_commentKey r = key"
    by (auto simp: queued_versions_def)
  with inv have "row_ok r" by (simp add: command_inv_def)
  moreover from r(1) next_by have due: "ci_nextAttemptAt r \<le> ?t" by (simp add: next_by_def)
  moreover from inv have "distinct (map ci_versionId (cs_intakes ?st))" by (simp add: command_inv_def)
  note due_or_crowded[OF this r(1) due]
  ultimately show ?thesis using r by (auto simp: row_ok_def Let_def)
qed

subsubsection \<open>Concrete commands\<close>

definition sample_intake :: "string \<Rightarrow> string \<Rightarrow> string \<Rightarrow> intake" where
  "sample_intake v updated digest =
     \<lparr>di_commandVersionId = v, di_installationId = 7, di_sourceCommentId = 21, di_sourceCommentUpdatedAt = updated,
      di_commandBodyDigest = digest, di_commandOrigin = HostedWebhook,
      di_decision = [(''targetRepo'', JStr ''openclaw/openclaw''), (''targetBranch'', JStr ''main''), (''itemNumber'', JNum 42),
          (''itemKind'', JStr ''issue''), (''sourceEvent'', JStr ''issues''), (''sourceAction'', JStr ''re_review''),
          (''supersedesInProgress'', JBool False), (''sourceDeliveryId'', JStr v), (''sourceCommentId'', JNum 21),
          (''sourceCommentUpdatedAt'', JStr updated), (''commandBodyDigest'', JStr digest), (''commandOrigin'', JStr ''hosted_webhook''),
          (''commandStatusMarker'', JStr (''<!-- clawsweeper-command-status:42:re_review:'' @ v @ '' -->'')),
          (''additionalPrompt'', JStr [])]\<rparr>"

definition intake_json :: "intake \<Rightarrow> json" where
  "intake_json it = JObj [(''protocolVersion'', JNum 1), (''commandVersionId'', JStr (di_commandVersionId it)),
     (''installationId'', JNum (di_installationId it)), (''sourceCommentId'', JNum (di_sourceCommentId it)),
     (''sourceCommentUpdatedAt'', JStr (di_sourceCommentUpdatedAt it)), (''commandBodyDigest'', JStr (di_commandBodyDigest it)),
     (''commandOrigin'', JStr ''hosted_webhook''), (''decision'', JObj (di_decision it))]"

definition intake_a :: intake where
  "intake_a = sample_intake (''command-21-mr1wmkg0-'' @ replicate 64 CHR ''a'') ''2026-07-01T10:00:00Z'' (replicate 64 CHR ''a'')"

definition intake_b :: intake where
  "intake_b = sample_intake (''command-21-mr1uheo0-'' @ replicate 64 CHR ''b'') ''2026-07-01T09:00:00Z'' (replicate 64 CHR ''b'')"

definition admitted_a :: command_store where
  "admitted_a = (case insert_command 1782900001000 intake_a empty_command_store of Inl e \<Rightarrow> empty_command_store | Inr st \<Rightarrow> st)"

lemma valid_a: "validateDirectReReviewIntake (intake_json intake_a) = Some intake_a" by code_simp
lemma valid_b: "validateDirectReReviewIntake (intake_json intake_b) = Some intake_b" by code_simp

lemma admitted: "command_admit (intake_json intake_a) 1782900001000 empty_command_store
    = Inr (admitted_a, Some (Admitted False (di_commandVersionId intake_a)))"
proof -
  have "exactReviewBaseDecisionFrom (JObj (di_decision intake_a)) \<noteq> None" by code_simp
  then show ?thesis
    by (simp add: command_admit_def valid_a admit_intake_def Let_def receipt_at_def watermark_at_def empty_command_store_def
        insert_command_def admitted_a_def)
qed

lemma admitted_run: "command_run empty_command_store [AdmitCommand (intake_json intake_a) 1782900001000] = admitted_a"
  by (simp add: admitted)

lemma command_store_consistent_witness:
  "\<exists>r\<in>set (cs_intakes admitted_a). watermark_time admitted_a (ci_commentKey r) = Some (ci_sourceUpdatedAt r)"
proof -
  have "cs_intakes admitted_a \<noteq> []" by code_simp
  then have "hd (cs_intakes admitted_a) \<in> set (cs_intakes admitted_a)" by simp
  with command_store_consistent[of "[AdmitCommand (intake_json intake_a) 1782900001000]"]
  show ?thesis unfolding admitted_run Let_def by blast
qed

lemma older_comment_never_admitted_witness:
  "command_admit (intake_json intake_b) 1782900002000 (command_run admitted_a [PruneReceipts 1782900001500])
     \<noteq> Inr (empty_command_store, Some (Admitted False ''v''))
   \<and> \<not> isCurrent (command_run admitted_a []) (new_intake_record 0 intake_b)"
proof -
  have first: "command_admit (intake_json intake_a) 1782900001000 (command_run empty_command_store [])
    = Inr (admitted_a, Some (Admitted False (di_commandVersionId intake_a)))"
    using admitted by simp
  have key: "commandSourceCommentKey intake_b = commandSourceCommentKey intake_a"
    and older: "source_updated_at intake_b < source_updated_at intake_a" by code_simp+
  have rec: "ir_intake (new_intake_record 0 intake_b) = intake_b" by (simp add: new_intake_record_def)
  show ?thesis
    using older_comment_never_admitted[OF first valid_a valid_b key older, where rec = "new_intake_record 0 intake_b"] rec by blast
qed

lemma item_revision_monotone_witness: "(3::int) < 9"
proof -
  have first: "allocateItemRevision ''Openclaw/openclaw#42@publish:r1:1'' 3 [1] (command_run empty_command_store [])
      = Some (empty_command_store\<lparr>cs_revisions := [(''openclaw/openclaw#42'', 3)]\<rparr>, 3)"
    by code_simp
  have second: "allocateItemRevision ''openclaw/openclaw#42'' 1 [8]
      (command_run (empty_command_store\<lparr>cs_revisions := [(''openclaw/openclaw#42'', 3)]\<rparr>) [PruneReceipts 5])
      = Some (empty_command_store\<lparr>cs_revisions := [(''openclaw/openclaw#42'', 9)]\<rparr>, 9)"
    by code_simp
  have same: "to_lower (before_publish ''openclaw/openclaw#42'') = to_lower (before_publish ''Openclaw/openclaw#42@publish:r1:1'')"
    by code_simp
  show ?thesis using item_revision_monotone[OF first second same] by blast
qed

lemma pending_command_retried_witness:
  "\<exists>rec\<in>set (command_due (1782900001000 + COMMAND_RETRY_MAX_MS) admitted_a).
    di_commandVersionId (ir_intake rec) = di_commandVersionId intake_a"
proof -
  have pending: "(di_commandVersionId intake_a, commandSourceCommentKey intake_a) \<in> pending_versions admitted_a" by code_simp
  have "length (cs_intakes admitted_a) < COMMAND_INTAKE_LIMIT" by code_simp
  then have few: "length (filter p (cs_intakes admitted_a)) < COMMAND_INTAKE_LIMIT" for p
    using length_filter_le[of p "cs_intakes admitted_a"] by linarith
  show ?thesis
    using pending_command_retried[of "[AdmitCommand (intake_json intake_a) 1782900001000]" 1782900001000] pending few
    unfolding admitted_run by (fastforce simp: op_time_def simp flip: not_less)
qed

end
