(* ===== verification/Lifecycle.thy ===== *)
theory Lifecycle
  imports Decision_Parser Queue_Publication
begin

text \<open>
  The lifecycle projections (\<open>dashboard/exact-review-lifecycle.ts\<close>): for every admitted revision
  of an item one row of append-only facts (claims, results, the GitHub effect, receipts, terminal
  dispositions, acknowledgement attempts), from which its lifecycle and acknowledgement states are
  read. A store is the list of its rows; a row is kept as the projection that was written, so the
  tolerance for rows of older versions does not show. Every operation is one transaction and an
  error leaves the store as it was; \<open>clock\<close> is \<open>Date.now()\<close> of the write.
\<close>

subsection \<open>Facts\<close>

datatype terminal_kind =
    ReviewCompletedRouted | KindSuperseded | KindRequeue | KindDeadLetter | KindTargetClosed | KindTargetMissing
  | KindPolicyNoop | KindGuardedOpen | KindFailure

datatype lifecycle_state =
    LcPending | LcCompleted | LcAcknowledgementPending | LcAcknowledgementSkipped | LcSuperseded | LcRequeue | LcDeadLetter
  | LcTargetClosed | LcTargetMissing | LcPolicyNoop | LcGuardedOpen | LcFailed

datatype ack_state = AckNotRequired | AckPending | AckObserved | AckSkippedLocked | AckSkippedMissingComment | AckUnavailable

datatype skip_reason = LockedConversation | MissingStatusComment

datatype review_outcome = ResultCompleted | ResultFailed | ResultCancelled

datatype router_outcome = RouterDurable | RouterNotRequired

record producer_lineage =
  pl_fenceKey :: string
  pl_revision :: int
  pl_claimGeneration :: int

record admission_fact =
  af_deliveryId :: string
  af_sourceDeliveryId :: "string option"
  af_sourceAction :: string
  af_commandOriginated :: bool
  af_statusMarker :: "string option"
  af_statusCommentId :: "int option"
  af_triggeredAt :: "int option"
  af_admittedAt :: int

record claim_fact =
  cl_fenceKey :: string
  cl_claimGeneration :: int
  cl_runId :: string
  cl_runAttempt :: "int option"
  cl_claimedAt :: int

record result_fact =
  rf_fenceKey :: string
  rf_claimGeneration :: int
  rf_runId :: string
  rf_runAttempt :: "int option"
  rf_outcome :: review_outcome
  rf_observedAt :: int

record github_effect =
  ge_commentId :: int
  ge_digest :: string
  ge_observedAt :: int

record canonical_receipt =
  cn_outcome :: receipt_outcome
  cn_receiptId :: string
  cn_observedAt :: int

record router_receipt =
  rt_outcome :: router_outcome
  rt_receiptId :: string
  rt_observedAt :: int
  rt_operationComplete :: bool

record ack_attempt =
  at_attemptId :: string
  at_statusMarker :: "string option"
  at_statusCommentId :: "int option"
  at_attemptedAt :: int
  at_failedAt :: "int option"
  at_expiredAt :: "int option"
  at_terminalSkip :: "(skip_reason \<times> int) option"

record ack_observed =
  ao_statusMarker :: "string option"
  ao_commandCommentId :: int
  ao_completionCommentId :: int
  ao_observedAt :: int

record projection =
  lp_identity :: projection_identity
  lp_producerLineage :: "producer_lineage option"
  lp_admission :: admission_fact
  lp_claims :: "claim_fact list"
  lp_reviewResults :: "result_fact list"
  lp_githubEffect :: "github_effect option"
  lp_canonicalReceipts :: "canonical_receipt list"
  lp_routerReceipts :: "router_receipt list"
  lp_routerReceipt :: "router_receipt option"
  lp_ackRequired :: bool
  lp_attempts :: "ack_attempt list"
  lp_observed :: "ack_observed option"
  lp_terminalDispositions :: "(terminal_kind \<times> int) list"
  lp_terminalOperationIds :: "(string \<times> terminal_kind) list"
  lp_terminalDisposition :: "(terminal_kind \<times> int) option"
  lp_updatedAt :: int

datatype lifecycle_error =
    InvalidIdentity | InvalidRow | MissingAdmission | ConflictingIdentity
  | InvalidLineage | InvalidAdmission | InvalidSourceDelivery | InvalidStatusMarker | InvalidStatusComment | InvalidTriggerTime
  | ConflictingAdmission | InvalidClaim | InvalidReviewResult | InvalidGithubEffect | ConflictingGithubEffect
  | InvalidCanonicalReceipt | ConflictingCanonicalReceipt | InvalidRouterReceipt | ConflictingRouterReceipt
  | InvalidOperationId | ConflictingOperation | ConflictingDisposition | InvalidCancellation
  | InvalidAttempt | InvalidAddress | InvalidAckReceipt | ConflictingAckReceipt

subsection \<open>Validity\<close>

definition one_line :: "string \<Rightarrow> bool" where
  "one_line s \<longleftrightarrow> CHR 0x0D \<notin> set s \<and> CHR 0x0A \<notin> set s"

definition validText :: "string \<Rightarrow> nat \<Rightarrow> nat \<Rightarrow> bool" where
  "validText s lo hi \<longleftrightarrow> lo \<le> length s \<and> length s \<le> hi \<and> one_line s"

definition validFenceKey :: "string \<Rightarrow> bool" where
  "validFenceKey s \<longleftrightarrow> 0 < length s \<and> length s \<le> 512 \<and> one_line s"

definition validCanonicalTargetKey :: "string \<Rightarrow> bool" where
  "validCanonicalTargetKey s \<longleftrightarrow> item_key_pattern s"

definition validRunId :: "string \<Rightarrow> bool" where
  "validRunId s \<longleftrightarrow> s \<noteq> [] \<and> list_all is_dec s"

definition positiveInteger :: "int \<Rightarrow> bool" where
  "positiveInteger n \<longleftrightarrow> safe_integer n \<and> 1 \<le> n"

definition finiteTimestamp :: "int \<Rightarrow> bool" where
  "finiteTimestamp t \<longleftrightarrow> 0 \<le> t \<and> t \<le> 8640000000000000"

definition attempt_id_pattern :: "string \<Rightarrow> bool" where
  "attempt_id_pattern s \<longleftrightarrow> take 4 s = ''ack:'' \<and> positive_numeral (drop 4 s)"

definition valid_identity :: "projection_identity \<Rightarrow> bool" where
  "valid_identity k \<longleftrightarrow>
     validCanonicalTargetKey (pj_canonicalTargetKey k) \<and> validFenceKey (pj_fenceKey k) \<and> positiveInteger (pj_revision k)"

definition validProducerLineage :: "projection_identity \<Rightarrow> producer_lineage option \<Rightarrow> bool" where
  "validProducerLineage k l \<longleftrightarrow>
     check (\<lambda>l. pl_fenceKey l = pj_canonicalTargetKey k \<and> pl_fenceKey l \<noteq> pj_fenceKey k
       \<and> positiveInteger (pl_revision l) \<and> positiveInteger (pl_claimGeneration l)) l"

definition sameLifecycleProducerLineage :: "producer_lineage option \<Rightarrow> producer_lineage option \<Rightarrow> bool" where
  "sameLifecycleProducerLineage a b \<longleftrightarrow> a = b"

fun validTerminalOperations :: "(string \<times> terminal_kind) list \<Rightarrow> string list \<Rightarrow> bool" where
  "validTerminalOperations [] seen = True"
| "validTerminalOperations ((i, k) # ops) seen =
     (validText i 1 300 \<and> i \<notin> set seen \<and> validTerminalOperations ops (i # seen))"

text \<open>What \<open>normalizeProjection\<close> asks of a row that it reads.\<close>

definition readable :: "projection \<Rightarrow> bool" where
  "readable p \<longleftrightarrow>
     valid_identity (lp_identity p) \<and> validProducerLineage (lp_identity p) (lp_producerLineage p)
     \<and> validTerminalOperations (lp_terminalOperationIds p) []"

definition valid_address :: "string option \<Rightarrow> int option \<Rightarrow> bool" where
  "valid_address marker comment \<longleftrightarrow>
     check (\<lambda>m. validText m 1 300) marker \<and> check positiveInteger comment \<and> (marker \<noteq> None \<or> comment \<noteq> None)"

subsection \<open>The states that are read off\<close>

definition PARKED_COMMAND_CLOSURE_CANCEL_OPERATION :: string where
  "PARKED_COMMAND_CLOSURE_CANCEL_OPERATION = ''parked-command-closure-cancelled:v1''"

definition terminal_kind_of :: "projection \<Rightarrow> terminal_kind option" where
  "terminal_kind_of p = map_option fst (lp_terminalDisposition p)"

definition commandAcknowledgementTerminalSkip :: "projection \<Rightarrow> skip_reason option" where
  "commandAcknowledgementTerminalSkip p =
     map_option fst (Option.bind (find (\<lambda>a. at_terminalSkip a \<noteq> None) (rev (lp_attempts p))) at_terminalSkip)"

definition parkedCommandClosureCancelled :: "projection \<Rightarrow> bool" where
  "parkedCommandClosureCancelled p \<longleftrightarrow>
     list_ex (\<lambda>(i, k). i = PARKED_COMMAND_CLOSURE_CANCEL_OPERATION \<and> (k = KindFailure \<or> k = KindRequeue)) (lp_terminalOperationIds p)"

definition lifecycleState :: "projection \<Rightarrow> lifecycle_state" where
  "lifecycleState p =
     (case terminal_kind_of p of
        None \<Rightarrow> LcPending
      | Some KindSuperseded \<Rightarrow> LcSuperseded
      | Some KindRequeue \<Rightarrow> LcRequeue
      | Some KindDeadLetter \<Rightarrow> LcDeadLetter
      | Some KindTargetClosed \<Rightarrow> LcTargetClosed
      | Some KindTargetMissing \<Rightarrow> LcTargetMissing
      | Some KindPolicyNoop \<Rightarrow> LcPolicyNoop
      | Some KindGuardedOpen \<Rightarrow> LcGuardedOpen
      | Some KindFailure \<Rightarrow> LcFailed
      | Some ReviewCompletedRouted \<Rightarrow>
          if \<not> list_ex (\<lambda>r. cn_outcome r = ReceiptAccepted \<or> cn_outcome r = ReceiptDeduped) (lp_canonicalReceipts p)
             \<or> lp_routerReceipt p = None then LcPending
          else if lp_ackRequired p \<and> lp_observed p = None
          then (if commandAcknowledgementTerminalSkip p \<noteq> None then LcAcknowledgementSkipped else LcAcknowledgementPending)
          else LcCompleted)"

definition commandAcknowledgementState :: "projection \<Rightarrow> ack_state" where
  "commandAcknowledgementState p =
     (if \<not> lp_ackRequired p then AckNotRequired
      else if lp_observed p \<noteq> None then AckObserved
      else if parkedCommandClosureCancelled p then AckUnavailable
      else case commandAcknowledgementTerminalSkip p of
          Some r \<Rightarrow> (if r = MissingStatusComment then AckSkippedMissingComment else AckSkippedLocked)
        | None \<Rightarrow>
            if terminal_kind_of p = Some ReviewCompletedRouted
            then (if lifecycleState p = LcAcknowledgementPending then AckPending else AckUnavailable)
            else if terminal_kind_of p = Some KindRequeue then AckUnavailable
            else if lp_terminalDisposition p \<noteq> None then AckPending else AckUnavailable)"

subsection \<open>The store\<close>

type_synonym lifecycle_store = "projection list"

definition lifecycle_row :: "lifecycle_store \<Rightarrow> projection_identity \<Rightarrow> projection option" where
  "lifecycle_row st k = find (\<lambda>p. lp_identity p = k) st"

definition lifecycle_readSync :: "lifecycle_store \<Rightarrow> projection_identity \<Rightarrow> lifecycle_error + projection option" where
  "lifecycle_readSync st k =
     (case lifecycle_row st k of None \<Rightarrow> Inr None | Some p \<Rightarrow> if readable p then Inr (Some p) else Inl InvalidRow)"

definition lifecycle_writeSync :: "projection \<Rightarrow> lifecycle_store \<Rightarrow> lifecycle_store" where
  "lifecycle_writeSync p st =
     (if \<exists>q\<in>set st. lp_identity q = lp_identity p
      then update_where (\<lambda>q. lp_identity q = lp_identity p) (\<lambda>q. p) st else st @ [p])"

definition lifecycle_read :: "lifecycle_store \<Rightarrow> projection_identity \<Rightarrow> lifecycle_error + projection option" where
  "lifecycle_read st k = (if valid_identity k then lifecycle_readSync st k else Inr None)"

text \<open>
  \<open>mutateSync\<close>: \<open>apply\<close> gives the projection to write, if any, and the answer. The variants that
  always write stamp the row with the clock; the others stamp it themselves.
\<close>

definition lifecycle_mutate ::
  "projection_identity \<Rightarrow> (projection \<Rightarrow> lifecycle_error + projection option \<times> 'a) \<Rightarrow> lifecycle_store
   \<Rightarrow> lifecycle_error + lifecycle_store \<times> 'a" where
  "lifecycle_mutate k apply st =
     (case lifecycle_readSync st k of
        Inl e \<Rightarrow> Inl e
      | Inr None \<Rightarrow> Inl MissingAdmission
      | Inr (Some p) \<Rightarrow>
          if lp_identity p \<noteq> k then Inl ConflictingIdentity
          else case apply p of
              Inl e \<Rightarrow> Inl e
            | Inr (None, r) \<Rightarrow> Inr (st, r)
            | Inr (Some q, r) \<Rightarrow> Inr (lifecycle_writeSync q st, r))"

definition stamped :: "int \<Rightarrow> projection \<Rightarrow> projection" where
  "stamped clock p = p\<lparr>lp_updatedAt := clock\<rparr>"

text \<open>\<open>mutate\<close> with a result that is the projection, and \<open>mutateIdempotentlySync\<close>.\<close>

definition write_always :: "int \<Rightarrow> (projection \<Rightarrow> lifecycle_error + projection) \<Rightarrow> projection \<Rightarrow> lifecycle_error + projection option \<times> projection" where
  "write_always clock f p = (case f p of Inl e \<Rightarrow> Inl e | Inr q \<Rightarrow> Inr (Some (stamped clock q), stamped clock q))"

definition write_unless_duplicate ::
  "int \<Rightarrow> (projection \<Rightarrow> lifecycle_error + projection option) \<Rightarrow> projection \<Rightarrow> lifecycle_error + projection option \<times> projection \<times> bool" where
  "write_unless_duplicate clock f p =
     (case f p of Inl e \<Rightarrow> Inl e | Inr None \<Rightarrow> Inr (None, p, True) | Inr (Some q) \<Rightarrow> Inr (Some (stamped clock q), stamped clock q, False))"

subsection \<open>Admission\<close>

record admission_input =
  ai_identity :: projection_identity
  ai_producerLineage :: "producer_lineage option"
  ai_deliveryId :: string
  ai_sourceDeliveryId :: "string option"
  ai_sourceAction :: string
  ai_commandOriginated :: bool
  ai_statusMarker :: "string option"
  ai_statusCommentId :: "int option"
  ai_triggeredAt :: "int option"
  ai_observedAt :: int

definition admission_check :: "admission_input \<Rightarrow> lifecycle_error option" where
  "admission_check i =
     (if \<not> valid_identity (ai_identity i) then Some InvalidIdentity
      else if \<not> validProducerLineage (ai_identity i) (ai_producerLineage i) then Some InvalidLineage
      else if \<not> validText (ai_deliveryId i) 1 300 \<or> \<not> validText (ai_sourceAction i) 1 200 then Some InvalidAdmission
      else if \<not> check (\<lambda>s. validText s 1 200) (ai_sourceDeliveryId i) then Some InvalidSourceDelivery
      else if \<not> check (\<lambda>s. validText s 1 300) (ai_statusMarker i) then Some InvalidStatusMarker
      else if \<not> check positiveInteger (ai_statusCommentId i) then Some InvalidStatusComment
      else if \<not> check finiteTimestamp (ai_triggeredAt i) then Some InvalidTriggerTime
      else None)"

definition same_admission :: "admission_input \<Rightarrow> projection \<Rightarrow> bool" where
  "same_admission i p \<longleftrightarrow>
     (let a = lp_admission p
      in sameLifecycleProducerLineage (lp_producerLineage p) (ai_producerLineage i)
         \<and> af_deliveryId a = ai_deliveryId i \<and> af_sourceDeliveryId a = ai_sourceDeliveryId i \<and> af_sourceAction a = ai_sourceAction i
         \<and> af_commandOriginated a = ai_commandOriginated i \<and> af_statusMarker a = ai_statusMarker i
         \<and> af_statusCommentId a = ai_statusCommentId i
         \<and> check (\<lambda>t. t = (case ai_triggeredAt i of None \<Rightarrow> ai_observedAt i | Some t' \<Rightarrow> t')) (af_triggeredAt a))"

definition admitted_projection :: "admission_input \<Rightarrow> projection" where
  "admitted_projection i =
     \<lparr>lp_identity = ai_identity i, lp_producerLineage = ai_producerLineage i,
      lp_admission = \<lparr>af_deliveryId = ai_deliveryId i, af_sourceDeliveryId = ai_sourceDeliveryId i, af_sourceAction = ai_sourceAction i,
        af_commandOriginated = ai_commandOriginated i, af_statusMarker = ai_statusMarker i, af_statusCommentId = ai_statusCommentId i,
        af_triggeredAt = ai_triggeredAt i, af_admittedAt = ai_observedAt i\<rparr>,
      lp_claims = [], lp_reviewResults = [], lp_githubEffect = None, lp_canonicalReceipts = [], lp_routerReceipts = [],
      lp_routerReceipt = None, lp_ackRequired = ai_commandOriginated i, lp_attempts = [], lp_observed = None,
      lp_terminalDispositions = [], lp_terminalOperationIds = [], lp_terminalDisposition = None, lp_updatedAt = ai_observedAt i\<rparr>"

definition recordAdmissionSync :: "admission_input \<Rightarrow> lifecycle_store \<Rightarrow> lifecycle_error + lifecycle_store \<times> projection" where
  "recordAdmissionSync i st =
     (case admission_check i of
        Some e \<Rightarrow> Inl e
      | None \<Rightarrow>
          case lifecycle_readSync st (ai_identity i) of
            Inl e \<Rightarrow> Inl e
          | Inr (Some p) \<Rightarrow>
              if lp_identity p \<noteq> ai_identity i then Inl ConflictingIdentity
              else if same_admission i p then Inr (st, p) else Inl ConflictingAdmission
          | Inr None \<Rightarrow> Inr (lifecycle_writeSync (admitted_projection i) st, admitted_projection i))"

subsection \<open>Claims, results and effects\<close>

definition sameClaim :: "claim_fact \<Rightarrow> claim_fact \<Rightarrow> bool" where
  "sameClaim a b \<longleftrightarrow> cl_fenceKey a = cl_fenceKey b \<and> cl_claimGeneration a = cl_claimGeneration b \<and> cl_runId a = cl_runId b
     \<and> cl_runAttempt a = cl_runAttempt b"

definition sameReviewResult :: "result_fact \<Rightarrow> result_fact \<Rightarrow> bool" where
  "sameReviewResult a b \<longleftrightarrow> rf_fenceKey a = rf_fenceKey b \<and> rf_claimGeneration a = rf_claimGeneration b \<and> rf_runId a = rf_runId b
     \<and> rf_runAttempt a = rf_runAttempt b \<and> rf_outcome a = rf_outcome b"

text \<open>\<open>find\<close> and \<open>push\<close>: a fact is added unless an equal one is there.\<close>

definition add_fact :: "('a \<Rightarrow> 'a \<Rightarrow> bool) \<Rightarrow> 'a \<Rightarrow> 'a list \<Rightarrow> 'a list" where
  "add_fact same x xs = (if list_ex (\<lambda>y. same y x) xs then xs else xs @ [x])"

definition recordClaim ::
  "projection_identity \<Rightarrow> int \<Rightarrow> string \<Rightarrow> int option \<Rightarrow> int \<Rightarrow> int \<Rightarrow> lifecycle_store \<Rightarrow> lifecycle_error + lifecycle_store \<times> projection" where
  "recordClaim k claimGeneration runId runAttempt observedAt clock st =
     (if \<not> valid_identity k then Inl InvalidIdentity
      else if \<not> positiveInteger claimGeneration \<or> \<not> validRunId runId \<or> \<not> check positiveInteger runAttempt then Inl InvalidClaim
      else lifecycle_mutate k (write_always clock (\<lambda>p. Inr (p\<lparr>lp_claims :=
             add_fact sameClaim \<lparr>cl_fenceKey = pj_fenceKey k, cl_claimGeneration = claimGeneration, cl_runId = runId,
               cl_runAttempt = runAttempt, cl_claimedAt = observedAt\<rparr> (lp_claims p)\<rparr>))) st)"

text \<open>\<open>None\<close>: no admission was recorded, and none was required.\<close>

definition recordReviewResultIfPresent ::
  "projection_identity \<Rightarrow> int \<Rightarrow> string \<Rightarrow> int option \<Rightarrow> review_outcome \<Rightarrow> int \<Rightarrow> bool \<Rightarrow> int \<Rightarrow> lifecycle_store
   \<Rightarrow> lifecycle_error + lifecycle_store \<times> projection option" where
  "recordReviewResultIfPresent k claimGeneration runId runAttempt outcome observedAt requirePresent clock st =
     (if \<not> valid_identity k then Inl InvalidIdentity
      else if \<not> requirePresent \<and> lifecycle_readSync st k = Inr None then Inr (st, None)
      else map_sum (\<lambda>e. e) (map_prod (\<lambda>s. s) Some)
        (lifecycle_mutate k (write_always clock (\<lambda>p.
           if \<not> positiveInteger claimGeneration \<or> \<not> validRunId runId \<or> \<not> check positiveInteger runAttempt then Inl InvalidReviewResult
           else Inr (p\<lparr>lp_reviewResults := add_fact sameReviewResult \<lparr>rf_fenceKey = pj_fenceKey k, rf_claimGeneration = claimGeneration,
               rf_runId = runId, rf_runAttempt = runAttempt, rf_outcome = outcome, rf_observedAt = observedAt\<rparr> (lp_reviewResults p)\<rparr>))) st))"

definition apply_github_effect :: "int \<Rightarrow> string \<Rightarrow> int \<Rightarrow> projection \<Rightarrow> lifecycle_error + projection" where
  "apply_github_effect commentId digest observedAt p =
     (case lp_githubEffect p of
        None \<Rightarrow> Inr (p\<lparr>lp_githubEffect := Some \<lparr>ge_commentId = commentId, ge_digest = digest, ge_observedAt = observedAt\<rparr>\<rparr>)
      | Some g \<Rightarrow> if ge_commentId g \<noteq> commentId \<or> ge_digest g \<noteq> digest then Inl ConflictingGithubEffect else Inr p)"

definition recordGithubEffect ::
  "projection_identity \<Rightarrow> int \<Rightarrow> string \<Rightarrow> int \<Rightarrow> int \<Rightarrow> lifecycle_store \<Rightarrow> lifecycle_error + lifecycle_store \<times> projection" where
  "recordGithubEffect k commentId digest observedAt clock st =
     (if \<not> valid_identity k then Inl InvalidIdentity
      else if \<not> positiveInteger commentId \<or> \<not> hex_of_length 64 digest then Inl InvalidGithubEffect
      else lifecycle_mutate k (write_always clock (apply_github_effect commentId digest observedAt)) st)"

definition apply_canonical_receipt :: "canonical_receipt \<Rightarrow> projection \<Rightarrow> lifecycle_error + projection" where
  "apply_canonical_receipt r p =
     (case find (\<lambda>x. cn_receiptId x = cn_receiptId r) (lp_canonicalReceipts p) of
        None \<Rightarrow> Inr (p\<lparr>lp_canonicalReceipts := lp_canonicalReceipts p @ [r]\<rparr>)
      | Some x \<Rightarrow> if cn_outcome x \<noteq> cn_outcome r then Inl ConflictingCanonicalReceipt else Inr p)"

definition recordCanonicalReceipt ::
  "projection_identity \<Rightarrow> canonical_receipt \<Rightarrow> int \<Rightarrow> lifecycle_store \<Rightarrow> lifecycle_error + lifecycle_store \<times> projection" where
  "recordCanonicalReceipt k r clock st =
     (if \<not> valid_identity k then Inl InvalidIdentity
      else if \<not> validText (cn_receiptId r) 1 300 then Inl InvalidCanonicalReceipt
      else lifecycle_mutate k (write_always clock (apply_canonical_receipt r)) st)"

subsection \<open>Router receipts and terminal dispositions\<close>

text \<open>\<open>Inr None\<close>: the fact is a duplicate.\<close>

definition apply_router_receipt :: "router_receipt \<Rightarrow> projection \<Rightarrow> lifecycle_error + projection option" where
  "apply_router_receipt r p =
     (let existing = find (\<lambda>x. rt_receiptId x = rt_receiptId r) (lp_routerReceipts p);
          retained = Some (case lp_routerReceipt p of None \<Rightarrow> r | Some x \<Rightarrow> x)
      in if (case existing of None \<Rightarrow> False | Some x \<Rightarrow> rt_outcome x \<noteq> rt_outcome r) then Inl ConflictingRouterReceipt
         else if (case lp_routerReceipt p of None \<Rightarrow> False | Some x \<Rightarrow> rt_outcome x \<noteq> rt_outcome r) then Inl ConflictingRouterReceipt
         else case existing of
             None \<Rightarrow> Inr (Some (p\<lparr>lp_routerReceipts := lp_routerReceipts p @ [r], lp_routerReceipt := retained\<rparr>))
           | Some x \<Rightarrow>
               if rt_operationComplete x \<or> \<not> rt_operationComplete r then Inr None
               else Inr (Some (p\<lparr>lp_routerReceipts :=
                   list_update (lp_routerReceipts p) (length (takeWhile (\<lambda>y. rt_receiptId y \<noteq> rt_receiptId r) (lp_routerReceipts p)))
                     (x\<lparr>rt_operationComplete := True\<rparr>), lp_routerReceipt := retained\<rparr>)))"

definition recordRouterReceiptSync ::
  "projection_identity \<Rightarrow> router_receipt \<Rightarrow> int \<Rightarrow> lifecycle_store \<Rightarrow> lifecycle_error + lifecycle_store \<times> projection \<times> bool" where
  "recordRouterReceiptSync k r clock st =
     (if \<not> valid_identity k then Inl InvalidIdentity
      else if \<not> validText (rt_receiptId r) 1 300 then Inl InvalidRouterReceipt
      else lifecycle_mutate k (write_unless_duplicate clock (apply_router_receipt r)) st)"

definition set_terminal :: "terminal_kind \<times> int \<Rightarrow> projection \<Rightarrow> projection" where
  "set_terminal t p = p\<lparr>lp_terminalDispositions := lp_terminalDispositions p @ [t], lp_terminalDisposition := Some t\<rparr>"

definition applyTerminalDisposition :: "terminal_kind \<Rightarrow> int \<Rightarrow> projection \<Rightarrow> lifecycle_error + projection" where
  "applyTerminalDisposition kind observedAt p =
     (case terminal_kind_of p of
        None \<Rightarrow> Inr (set_terminal (kind, observedAt) p)
      | Some current \<Rightarrow>
          if current = kind then Inr p
          else if kind \<noteq> KindRequeue \<and> current \<noteq> KindRequeue then Inl ConflictingDisposition
          else Inr (set_terminal (kind, observedAt) p))"

definition apply_terminal :: "terminal_kind \<Rightarrow> string option \<Rightarrow> int \<Rightarrow> projection \<Rightarrow> lifecycle_error + projection option" where
  "apply_terminal kind operationId observedAt p =
     (case operationId of
        None \<Rightarrow> map_sum (\<lambda>e. e) Some (applyTerminalDisposition kind observedAt p)
      | Some i \<Rightarrow>
          case map_of (lp_terminalOperationIds p) i of
            Some k \<Rightarrow> if k \<noteq> kind then Inl ConflictingOperation else Inr None
          | None \<Rightarrow> map_sum (\<lambda>e. e) (\<lambda>q. Some (q\<lparr>lp_terminalOperationIds := lp_terminalOperationIds q @ [(i, kind)]\<rparr>))
                (applyTerminalDisposition kind observedAt p))"

definition recordTerminalDispositionSync ::
  "projection_identity \<Rightarrow> terminal_kind \<Rightarrow> string option \<Rightarrow> int \<Rightarrow> int \<Rightarrow> lifecycle_store
   \<Rightarrow> lifecycle_error + lifecycle_store \<times> projection \<times> bool" where
  "recordTerminalDispositionSync k kind operationId observedAt clock st =
     (if \<not> valid_identity k then Inl InvalidIdentity
      else if \<not> check (\<lambda>i. validText i 1 300) operationId then Inl InvalidOperationId
      else lifecycle_mutate k (write_unless_duplicate clock (apply_terminal kind operationId observedAt)) st)"

definition apply_cancellation :: "int \<Rightarrow> projection \<Rightarrow> lifecycle_error + projection option" where
  "apply_cancellation observedAt p =
     (if parkedCommandClosureCancelled p then Inr None
      else if \<not> af_commandOriginated (lp_admission p) \<or> lp_observed p \<noteq> None
           \<or> \<not> check (\<lambda>k. k = KindTargetClosed \<or> k = KindRequeue \<or> k = KindFailure) (terminal_kind_of p)
      then Inl InvalidCancellation
      else Inr (Some ((set_terminal (KindFailure, observedAt) p)\<lparr>lp_terminalOperationIds :=
          lp_terminalOperationIds p @ [(PARKED_COMMAND_CLOSURE_CANCEL_OPERATION, KindFailure)]\<rparr>)))"

definition cancelParkedCommandClosureSync ::
  "projection_identity \<Rightarrow> int \<Rightarrow> int \<Rightarrow> lifecycle_store \<Rightarrow> lifecycle_error + lifecycle_store \<times> projection \<times> bool" where
  "cancelParkedCommandClosureSync k observedAt clock st =
     (if \<not> valid_identity k then Inl InvalidIdentity
      else lifecycle_mutate k (write_unless_duplicate clock (apply_cancellation observedAt)) st)"

subsection \<open>Acknowledgement attempts\<close>

definition EXACT_REVIEW_ACKNOWLEDGEMENT_ATTEMPT_LEASE_MS :: int where
  "EXACT_REVIEW_ACKNOWLEDGEMENT_ATTEMPT_LEASE_MS = 5 * 60 * 1000"

definition open_attempt :: "ack_attempt \<Rightarrow> bool" where
  "open_attempt a \<longleftrightarrow> at_failedAt a = None \<and> at_expiredAt a = None \<and> at_terminalSkip a = None"

definition expire_attempts :: "int \<Rightarrow> ack_attempt list \<Rightarrow> ack_attempt list" where
  "expire_attempts now =
     update_where (\<lambda>a. open_attempt a \<and> now - at_attemptedAt a \<ge> EXACT_REVIEW_ACKNOWLEDGEMENT_ATTEMPT_LEASE_MS)
       (\<lambda>a. a\<lparr>at_expiredAt := Some now\<rparr>)"

record ack_grant =
  ag_projection :: projection
  ag_allowed :: bool
  ag_lifecycle :: lifecycle_state
  ag_acknowledgement :: ack_state
  ag_attemptId :: "string option"

definition ack_answer :: "projection \<Rightarrow> projection \<Rightarrow> string option \<Rightarrow> ack_grant" where
  "ack_answer p q attemptId = \<lparr>ag_projection = q, ag_allowed = (attemptId \<noteq> None), ag_lifecycle = lifecycleState p,
     ag_acknowledgement = commandAcknowledgementState p, ag_attemptId = attemptId\<rparr>"

definition apply_authorization ::
  "string option \<Rightarrow> int option \<Rightarrow> int \<Rightarrow> projection \<Rightarrow> lifecycle_error + projection option \<times> ack_grant" where
  "apply_authorization marker comment now p =
     (if commandAcknowledgementState p \<noteq> AckPending then Inr (None, ack_answer p p None)
      else if af_statusMarker (lp_admission p) \<noteq> marker \<or> af_statusCommentId (lp_admission p) \<noteq> comment
      then Inr (None, ack_answer p p None)
      else let attempts = expire_attempts now (lp_attempts p); attemptId = ''ack:'' @ nat_str (length attempts + 1);
               q = p\<lparr>lp_attempts := attempts @ [\<lparr>at_attemptId = attemptId, at_statusMarker = marker, at_statusCommentId = comment,
                      at_attemptedAt = now, at_failedAt = None, at_expiredAt = None, at_terminalSkip = None\<rparr>], lp_updatedAt := now\<rparr>
           in if list_ex open_attempt attempts then Inr (None, ack_answer p (p\<lparr>lp_attempts := attempts\<rparr>) None)
              else Inr (Some q, ack_answer p q (Some attemptId)))"

definition authorizeCommandAcknowledgement ::
  "projection_identity \<Rightarrow> string option \<Rightarrow> int option \<Rightarrow> int \<Rightarrow> lifecycle_store \<Rightarrow> lifecycle_error + lifecycle_store \<times> ack_grant" where
  "authorizeCommandAcknowledgement k marker comment now st =
     (if \<not> valid_identity k then Inl InvalidIdentity
      else if \<not> valid_address marker comment then Inl InvalidAddress
      else lifecycle_mutate k (apply_authorization marker comment now) st)"

text \<open>The last attempt that satisfies a test, \<open>[...attempts].reverse().find(test)\<close>, is changed.\<close>

fun update_first :: "('a \<Rightarrow> bool) \<Rightarrow> ('a \<Rightarrow> 'a) \<Rightarrow> 'a list \<Rightarrow> 'a list" where
  "update_first test f [] = []"
| "update_first test f (x # xs) = (if test x then f x # xs else x # update_first test f xs)"

definition update_last :: "('a \<Rightarrow> bool) \<Rightarrow> ('a \<Rightarrow> 'a) \<Rightarrow> 'a list \<Rightarrow> 'a list" where
  "update_last test f xs = rev (update_first test f (rev xs))"

definition attempt_named :: "string \<Rightarrow> string option \<Rightarrow> int option \<Rightarrow> ack_attempt \<Rightarrow> bool" where
  "attempt_named attemptId marker comment a \<longleftrightarrow>
     at_attemptId a = attemptId \<and> at_statusMarker a = marker \<and> at_statusCommentId a = comment"

definition apply_ack_failure ::
  "string \<Rightarrow> string option \<Rightarrow> int option \<Rightarrow> int \<Rightarrow> projection \<Rightarrow> lifecycle_error + projection option \<times> bool" where
  "apply_ack_failure attemptId marker comment now p =
     (let test = (\<lambda>a. open_attempt a \<and> attempt_named attemptId marker comment a)
      in if \<not> list_ex test (lp_attempts p) \<or> lp_observed p \<noteq> None then Inr (None, False)
         else Inr (Some (p\<lparr>lp_attempts := update_last test (\<lambda>a. a\<lparr>at_failedAt := Some now\<rparr>) (lp_attempts p), lp_updatedAt := now\<rparr>), True))"

definition recordCommandAcknowledgementFailure ::
  "projection_identity \<Rightarrow> string \<Rightarrow> string option \<Rightarrow> int option \<Rightarrow> int \<Rightarrow> lifecycle_store \<Rightarrow> lifecycle_error + lifecycle_store \<times> bool" where
  "recordCommandAcknowledgementFailure k attemptId marker comment now st =
     (if \<not> valid_identity k then Inl InvalidIdentity
      else if \<not> attempt_id_pattern attemptId then Inl InvalidAttempt
      else if \<not> valid_address marker comment then Inl InvalidAddress
      else lifecycle_mutate k (apply_ack_failure attemptId marker comment now) st)"

definition apply_ack_skip ::
  "string \<Rightarrow> string option \<Rightarrow> int option \<Rightarrow> skip_reason \<Rightarrow> int \<Rightarrow> projection \<Rightarrow> lifecycle_error + projection option \<times> bool" where
  "apply_ack_skip attemptId marker comment reason now p =
     (let test = attempt_named attemptId marker comment
      in case find test (rev (lp_attempts p)) of
           None \<Rightarrow> Inr (None, False)
         | Some a \<Rightarrow>
             if lp_observed p \<noteq> None then Inr (None, False)
             else case at_terminalSkip a of
                 Some (r, t) \<Rightarrow> Inr (None, r = reason)
               | None \<Rightarrow>
                   if at_failedAt a \<noteq> None \<or> at_expiredAt a \<noteq> None then Inr (None, False)
                   else Inr (Some (p\<lparr>lp_attempts := update_last test (\<lambda>a. a\<lparr>at_terminalSkip := Some (reason, now)\<rparr>) (lp_attempts p),
                            lp_updatedAt := now\<rparr>), True))"

definition recordCommandAcknowledgementTerminalSkip ::
  "projection_identity \<Rightarrow> string \<Rightarrow> string option \<Rightarrow> int option \<Rightarrow> skip_reason \<Rightarrow> int \<Rightarrow> lifecycle_store
   \<Rightarrow> lifecycle_error + lifecycle_store \<times> bool" where
  "recordCommandAcknowledgementTerminalSkip k attemptId marker comment reason now st =
     (if \<not> valid_identity k then Inl InvalidIdentity
      else if \<not> attempt_id_pattern attemptId then Inl InvalidAttempt
      else if \<not> valid_address marker comment then Inl InvalidAddress
      else lifecycle_mutate k (apply_ack_skip attemptId marker comment reason now) st)"

subsection \<open>The observed acknowledgement\<close>

record ack_receipt =
  ar_canonicalTargetKey :: string
  ar_fence :: "(string option) \<times> (int option)"
  ar_statusMarker :: "string option"
  ar_commandCommentId :: int
  ar_completionCommentId :: int
  ar_statusCommentId :: "int option"
  ar_requireExactStatusComment :: bool
  ar_observedAt :: int

definition valid_ack_receipt :: "ack_receipt \<Rightarrow> bool" where
  "valid_ack_receipt i \<longleftrightarrow>
     validCanonicalTargetKey (ar_canonicalTargetKey i) \<and> (fst (ar_fence i) = None) = (snd (ar_fence i) = None)
     \<and> check validFenceKey (fst (ar_fence i)) \<and> check positiveInteger (snd (ar_fence i))
     \<and> check (\<lambda>m. validText m 1 300) (ar_statusMarker i) \<and> positiveInteger (ar_commandCommentId i)
     \<and> positiveInteger (ar_completionCommentId i) \<and> check positiveInteger (ar_statusCommentId i)"

definition attempt_matches :: "ack_receipt \<Rightarrow> ack_attempt \<Rightarrow> bool" where
  "attempt_matches i a \<longleftrightarrow>
     check (\<lambda>c. at_statusCommentId a = Some c) (ar_statusCommentId i)
     \<and> (at_statusCommentId a = Some (ar_completionCommentId i)
          \<and> (at_statusMarker a = ar_statusMarker i \<or> at_statusMarker a = None
             \<or> \<not> ar_requireExactStatusComment i \<and> ar_statusMarker i = None)
        \<or> ar_requireExactStatusComment i \<and> at_statusCommentId a = None \<and> ar_statusMarker i \<noteq> None
          \<and> at_statusMarker a = ar_statusMarker i
        \<or> \<not> ar_requireExactStatusComment i \<and> ar_statusMarker i \<noteq> None \<and> at_statusMarker a = ar_statusMarker i)"

definition receipt_matches :: "ack_receipt \<Rightarrow> projection \<Rightarrow> bool" where
  "receipt_matches i p \<longleftrightarrow>
     check (\<lambda>f. pj_fenceKey (lp_identity p) = f \<and> Some (pj_revision (lp_identity p)) = snd (ar_fence i)) (fst (ar_fence i))
     \<and> list_ex (attempt_matches i) (lp_attempts p) \<and> lp_ackRequired p \<and> \<not> parkedCommandClosureCancelled p"

text \<open>The rows of the target, newest revision first; every one of them is parsed.\<close>

definition target_rows :: "string \<Rightarrow> lifecycle_store \<Rightarrow> projection list" where
  "target_rows target st =
     js_sort (\<lambda>p q. pj_revision (lp_identity q) - pj_revision (lp_identity p))
       (filter (\<lambda>p. pj_canonicalTargetKey (lp_identity p) = target) st)"

definition matched_projections :: "ack_receipt \<Rightarrow> lifecycle_store \<Rightarrow> projection list" where
  "matched_projections i st = filter (receipt_matches i) (target_rows (ar_canonicalTargetKey i) st)"

definition exact_matches :: "ack_receipt \<Rightarrow> projection list \<Rightarrow> projection list" where
  "exact_matches i ms =
     (if fst (ar_fence i) = None \<and> 1 < length ms
      then filter (\<lambda>p. list_ex (\<lambda>a. at_statusCommentId a = Some (ar_completionCommentId i)) (lp_attempts p)) ms else [])"

definition apply_observation :: "ack_receipt \<Rightarrow> projection \<Rightarrow> lifecycle_error + projection" where
  "apply_observation i p =
     (case lp_observed p of
        None \<Rightarrow> Inr (p\<lparr>lp_observed := Some \<lparr>ao_statusMarker = ar_statusMarker i, ao_commandCommentId = ar_commandCommentId i,
          ao_completionCommentId = ar_completionCommentId i, ao_observedAt = ar_observedAt i\<rparr>, lp_updatedAt := ar_observedAt i\<rparr>)
      | Some o' \<Rightarrow>
          if ao_statusMarker o' \<noteq> ar_statusMarker i \<or> ao_commandCommentId o' \<noteq> ar_commandCommentId i
             \<or> ao_completionCommentId o' \<noteq> ar_completionCommentId i
          then Inl ConflictingAckReceipt else Inr (p\<lparr>lp_updatedAt := ar_observedAt i\<rparr>))"

definition ambiguous_receipt :: "ack_receipt \<Rightarrow> lifecycle_store \<Rightarrow> bool" where
  "ambiguous_receipt i st \<longleftrightarrow>
     (let matched = matched_projections i st
      in fst (ar_fence i) = None \<and> 1 < length matched \<and> length (exact_matches i matched) \<noteq> 1)"

definition observation_candidates :: "ack_receipt \<Rightarrow> lifecycle_store \<Rightarrow> projection list" where
  "observation_candidates i st =
     (let matched = matched_projections i st; exact = exact_matches i matched in if exact \<noteq> [] then exact else matched)"

text \<open>\<open>None\<close>: not accepted.\<close>

definition observeCommandAcknowledgement ::
  "ack_receipt \<Rightarrow> lifecycle_store \<Rightarrow> lifecycle_error + lifecycle_store \<times> projection option" where
  "observeCommandAcknowledgement i st =
     (if \<not> valid_ack_receipt i then Inl InvalidAckReceipt
      else if \<not> list_all readable (target_rows (ar_canonicalTargetKey i) st) then Inl InvalidRow
      else if ambiguous_receipt i st then Inr (st, None)
      else case observation_candidates i st of
          [] \<Rightarrow> Inr (st, None)
        | p # ps \<Rightarrow> (case apply_observation i p of Inl e \<Rightarrow> Inl e | Inr q \<Rightarrow> Inr (lifecycle_writeSync q st, Some q)))"

subsection \<open>Questions about the admissions of a fence\<close>

definition key_repository :: "string \<Rightarrow> string" where
  "key_repository s = (if CHR ''#'' \<in> set s then takeWhile (\<lambda>c. c \<noteq> CHR ''#'') s else [])"

text \<open>\<open>fence.slice(0, fence.indexOf("#"))\<close> drops the last character when there is no \<open>#\<close>.\<close>

definition fence_repository :: "string \<Rightarrow> string" where
  "fence_repository s = (if CHR ''#'' \<in> set s then takeWhile (\<lambda>c. c \<noteq> CHR ''#'') s else butlast s)"

definition commandAdmittedAfter ::
  "string \<Rightarrow> int \<Rightarrow> (string option \<times> int option \<Rightarrow> bool) \<Rightarrow> lifecycle_store \<Rightarrow> bool" where
  "commandAdmittedAfter fenceKey revision matches st \<longleftrightarrow>
     \<not> validFenceKey fenceKey \<or> \<not> positiveInteger revision
     \<or> list_ex (\<lambda>p.
         to_lower (key_repository (pj_canonicalTargetKey (lp_identity p))) = fence_repository (to_lower fenceKey)
         \<and> to_lower (pj_fenceKey (lp_identity p)) = to_lower fenceKey \<and> revision < pj_revision (lp_identity p)
         \<and> (\<not> readable p \<or> af_commandOriginated (lp_admission p)
               \<and> matches (af_statusMarker (lp_admission p), af_statusCommentId (lp_admission p)))) st"

definition otherCommandAdmittedAfter :: "string \<Rightarrow> int \<Rightarrow> string option \<times> int option \<Rightarrow> lifecycle_store \<Rightarrow> bool" where
  "otherCommandAdmittedAfter fenceKey revision command =
     commandAdmittedAfter fenceKey revision (\<lambda>a. \<not> sameCommandStatusAddress a command)"

definition sameCommandAdmittedAfter :: "string \<Rightarrow> int \<Rightarrow> string option \<times> int option \<Rightarrow> lifecycle_store \<Rightarrow> bool" where
  "sameCommandAdmittedAfter fenceKey revision command =
     commandAdmittedAfter fenceKey revision (\<lambda>a. sameCommandStatusAddress a command)"

definition maxRevision :: "string \<Rightarrow> lifecycle_store \<Rightarrow> int" where
  "maxRevision target st =
     (if \<not> validCanonicalTargetKey target then 0
      else let m = foldl max 0 (map (\<lambda>p. pj_revision (lp_identity p)) (filter (\<lambda>p. pj_canonicalTargetKey (lp_identity p) = target) st))
           in if safe_integer m then m else 0)"

subsection \<open>Rows that the audit accepts\<close>

definition valid_admission :: "admission_fact \<Rightarrow> bool" where
  "valid_admission a \<longleftrightarrow>
     validText (af_deliveryId a) 1 300 \<and> check (\<lambda>s. validText s 1 200) (af_sourceDeliveryId a) \<and> validText (af_sourceAction a) 1 200
     \<and> check (\<lambda>s. validText s 1 300) (af_statusMarker a) \<and> check positiveInteger (af_statusCommentId a)
     \<and> check finiteTimestamp (af_triggeredAt a) \<and> finiteTimestamp (af_admittedAt a)"

definition valid_claim :: "claim_fact \<Rightarrow> bool" where
  "valid_claim c \<longleftrightarrow> validFenceKey (cl_fenceKey c) \<and> positiveInteger (cl_claimGeneration c) \<and> validRunId (cl_runId c)
     \<and> check positiveInteger (cl_runAttempt c) \<and> finiteTimestamp (cl_claimedAt c)"

definition valid_result :: "result_fact \<Rightarrow> bool" where
  "valid_result r \<longleftrightarrow> validFenceKey (rf_fenceKey r) \<and> positiveInteger (rf_claimGeneration r) \<and> validRunId (rf_runId r)
     \<and> check positiveInteger (rf_runAttempt r) \<and> finiteTimestamp (rf_observedAt r)"

definition valid_attempt :: "ack_attempt \<Rightarrow> bool" where
  "valid_attempt a \<longleftrightarrow>
     attempt_id_pattern (at_attemptId a) \<and> check (\<lambda>s. validText s 1 300) (at_statusMarker a) \<and> check positiveInteger (at_statusCommentId a)
     \<and> finiteTimestamp (at_attemptedAt a) \<and> check finiteTimestamp (at_failedAt a) \<and> check finiteTimestamp (at_expiredAt a)
     \<and> check (\<lambda>(r, t). finiteTimestamp t) (at_terminalSkip a)"

definition valid_effect :: "github_effect \<Rightarrow> bool" where
  "valid_effect g \<longleftrightarrow> positiveInteger (ge_commentId g) \<and> hex_of_length 64 (ge_digest g) \<and> finiteTimestamp (ge_observedAt g)"

definition valid_observed :: "ack_observed \<Rightarrow> bool" where
  "valid_observed o' \<longleftrightarrow> positiveInteger (ao_commandCommentId o') \<and> positiveInteger (ao_completionCommentId o')
     \<and> check (\<lambda>s. validText s 1 300) (ao_statusMarker o') \<and> finiteTimestamp (ao_observedAt o')"

definition retained_router :: "projection \<Rightarrow> bool" where
  "retained_router p \<longleftrightarrow>
     check (\<lambda>r. list_ex (\<lambda>x. rt_receiptId x = rt_receiptId r \<and> rt_outcome x = rt_outcome r) (lp_routerReceipts p)) (lp_routerReceipt p)"

definition latest_terminal :: "projection \<Rightarrow> bool" where
  "latest_terminal p \<longleftrightarrow>
     (case lp_terminalDisposition p of
        None \<Rightarrow> lp_terminalDispositions p = []
      | Some t \<Rightarrow> finiteTimestamp (snd t) \<and> lp_terminalDispositions p \<noteq> [] \<and> last (lp_terminalDispositions p) = t)"

definition validDurableLifecycleBayProjection :: "projection \<Rightarrow> bool" where
  "validDurableLifecycleBayProjection p \<longleftrightarrow>
     valid_identity (lp_identity p) \<and> finiteTimestamp (lp_updatedAt p) \<and> valid_admission (lp_admission p)
     \<and> list_all valid_claim (lp_claims p) \<and> list_all valid_result (lp_reviewResults p)
     \<and> list_all (\<lambda>r. validText (cn_receiptId r) 1 300 \<and> finiteTimestamp (cn_observedAt r)) (lp_canonicalReceipts p)
     \<and> list_all (\<lambda>r. validText (rt_receiptId r) 1 300 \<and> finiteTimestamp (rt_observedAt r)) (lp_routerReceipts p)
     \<and> list_all (\<lambda>t. finiteTimestamp (snd t)) (lp_terminalDispositions p)
     \<and> list_all valid_attempt (lp_attempts p) \<and> check valid_effect (lp_githubEffect p) \<and> check valid_observed (lp_observed p)
     \<and> retained_router p \<and> latest_terminal p"

end
