(* ===== verification/Lifecycle_Rows.thy ===== *)
theory Lifecycle_Rows
  imports Lifecycle "HOL-Library.Sublist"
begin

text \<open>
  What the operations of the lifecycle projections do to a row, over every sequence of operations:
  the facts of a row are kept, its terminal outcomes alternate, it stays readable and valid, and an
  acknowledgement attempt holds its lease.
\<close>

subsection \<open>Every sequence of operations\<close>

datatype lifecycle_op =
    AdmissionOp admission_input
  | ClaimOp projection_identity int string "int option" int int
  | ResultOp projection_identity int string "int option" review_outcome int bool int
  | EffectOp projection_identity int string int int
  | CanonicalOp projection_identity canonical_receipt int
  | RouterOp projection_identity router_receipt int
  | TerminalOp projection_identity terminal_kind "string option" int int
  | CancelOp projection_identity int int
  | AuthorizeOp projection_identity "string option" "int option" int
  | AckFailureOp projection_identity string "string option" "int option" int
  | AckSkipOp projection_identity string "string option" "int option" skip_reason int
  | ObserveOp ack_receipt

definition kept :: "lifecycle_store \<Rightarrow> lifecycle_error + lifecycle_store \<times> 'a \<Rightarrow> lifecycle_store" where
  "kept st r = (case r of Inl e \<Rightarrow> st | Inr (st', a) \<Rightarrow> st')"

fun lifecycle_step :: "lifecycle_store \<Rightarrow> lifecycle_op \<Rightarrow> lifecycle_store" where
  "lifecycle_step st (AdmissionOp i) = kept st (recordAdmissionSync i st)"
| "lifecycle_step st (ClaimOp k g run attempt t clock) = kept st (recordClaim k g run attempt t clock st)"
| "lifecycle_step st (ResultOp k g run attempt outcome t must clock) =
     kept st (recordReviewResultIfPresent k g run attempt outcome t must clock st)"
| "lifecycle_step st (EffectOp k comment digest t clock) = kept st (recordGithubEffect k comment digest t clock st)"
| "lifecycle_step st (CanonicalOp k r clock) = kept st (recordCanonicalReceipt k r clock st)"
| "lifecycle_step st (RouterOp k r clock) = kept st (recordRouterReceiptSync k r clock st)"
| "lifecycle_step st (TerminalOp k kind i t clock) = kept st (recordTerminalDispositionSync k kind i t clock st)"
| "lifecycle_step st (CancelOp k t clock) = kept st (cancelParkedCommandClosureSync k t clock st)"
| "lifecycle_step st (AuthorizeOp k marker comment now) = kept st (authorizeCommandAcknowledgement k marker comment now st)"
| "lifecycle_step st (AckFailureOp k i marker comment now) = kept st (recordCommandAcknowledgementFailure k i marker comment now st)"
| "lifecycle_step st (AckSkipOp k i marker comment reason now) =
     kept st (recordCommandAcknowledgementTerminalSkip k i marker comment reason now st)"
| "lifecycle_step st (ObserveOp i) = kept st (observeCommandAcknowledgement i st)"

abbreviation lifecycle_run :: "lifecycle_store \<Rightarrow> lifecycle_op list \<Rightarrow> lifecycle_store" where
  "lifecycle_run \<equiv> run_ops lifecycle_step"

subsubsection \<open>What an operation does to one row\<close>

definition claim_added :: "projection_identity \<Rightarrow> int \<Rightarrow> string \<Rightarrow> int option \<Rightarrow> int \<Rightarrow> projection \<Rightarrow> projection" where
  "claim_added k g run attempt t p = p\<lparr>lp_claims := add_fact sameClaim \<lparr>cl_fenceKey = pj_fenceKey k, cl_claimGeneration = g, cl_runId = run,
      cl_runAttempt = attempt, cl_claimedAt = t\<rparr> (lp_claims p)\<rparr>"

definition result_added :: "projection_identity \<Rightarrow> int \<Rightarrow> string \<Rightarrow> int option \<Rightarrow> review_outcome \<Rightarrow> int \<Rightarrow> projection \<Rightarrow> projection" where
  "result_added k g run attempt outcome t p = p\<lparr>lp_reviewResults := add_fact sameReviewResult \<lparr>rf_fenceKey = pj_fenceKey k,
      rf_claimGeneration = g, rf_runId = run, rf_runAttempt = attempt, rf_outcome = outcome, rf_observedAt = t\<rparr> (lp_reviewResults p)\<rparr>"

inductive row_step :: "lifecycle_op \<Rightarrow> projection \<Rightarrow> projection \<Rightarrow> bool" where
  row_claim: "lp_identity p = k \<Longrightarrow> positiveInteger g \<Longrightarrow> validRunId run \<Longrightarrow> check positiveInteger attempt
    \<Longrightarrow> row_step (ClaimOp k g run attempt t clock) p (stamped clock (claim_added k g run attempt t p))"
| row_result: "lp_identity p = k \<Longrightarrow> positiveInteger g \<Longrightarrow> validRunId run \<Longrightarrow> check positiveInteger attempt
    \<Longrightarrow> row_step (ResultOp k g run attempt outcome t must clock) p (stamped clock (result_added k g run attempt outcome t p))"
| row_effect: "lp_identity p = k \<Longrightarrow> positiveInteger comment \<Longrightarrow> hex_of_length 64 digest \<Longrightarrow> apply_github_effect comment digest t p = Inr q
    \<Longrightarrow> row_step (EffectOp k comment digest t clock) p (stamped clock q)"
| row_canonical: "lp_identity p = k \<Longrightarrow> validText (cn_receiptId r) 1 300 \<Longrightarrow> apply_canonical_receipt r p = Inr q
    \<Longrightarrow> row_step (CanonicalOp k r clock) p (stamped clock q)"
| row_router: "lp_identity p = k \<Longrightarrow> validText (rt_receiptId r) 1 300 \<Longrightarrow> apply_router_receipt r p = Inr (Some q)
    \<Longrightarrow> row_step (RouterOp k r clock) p (stamped clock q)"
| row_terminal: "lp_identity p = k \<Longrightarrow> check (\<lambda>i. validText i 1 300) i \<Longrightarrow> apply_terminal kind i t p = Inr (Some q)
    \<Longrightarrow> row_step (TerminalOp k kind i t clock) p (stamped clock q)"
| row_cancel: "lp_identity p = k \<Longrightarrow> apply_cancellation t p = Inr (Some q) \<Longrightarrow> row_step (CancelOp k t clock) p (stamped clock q)"
| row_authorize: "lp_identity p = k \<Longrightarrow> valid_address marker comment \<Longrightarrow> apply_authorization marker comment now p = Inr (Some q, g)
    \<Longrightarrow> row_step (AuthorizeOp k marker comment now) p q"
| row_failure: "lp_identity p = k \<Longrightarrow> apply_ack_failure i marker comment now p = Inr (Some q, b) \<Longrightarrow> row_step (AckFailureOp k i marker comment now) p q"
| row_skip: "lp_identity p = k \<Longrightarrow> apply_ack_skip i marker comment reason now p = Inr (Some q, b) \<Longrightarrow> row_step (AckSkipOp k i marker comment reason now) p q"
| row_observe: "valid_ack_receipt i \<Longrightarrow> receipt_matches i p \<Longrightarrow> apply_observation i p = Inr q \<Longrightarrow> row_step (ObserveOp i) p q"

inductive_cases row_stepE: "row_step x p q"

definition distinct_rows :: "lifecycle_store \<Rightarrow> bool" where
  "distinct_rows st \<longleftrightarrow> distinct (map lp_identity st)"

text \<open>One operation changes one row by a step, adds the row of an admission, or changes nothing.\<close>

definition store_step :: "lifecycle_op \<Rightarrow> lifecycle_store \<Rightarrow> lifecycle_store \<Rightarrow> bool" where
  "store_step x st st' \<longleftrightarrow>
     st' = st
     \<or> (\<exists>p q. p \<in> set st \<and> readable p \<and> row_step x p q \<and> lp_identity q = lp_identity p \<and> st' = lifecycle_writeSync q st)
     \<or> (\<exists>i. x = AdmissionOp i \<and> admission_check i = None \<and> lifecycle_row st (ai_identity i) = None
          \<and> st' = lifecycle_writeSync (admitted_projection i) st)"

lemma mutate_step:
  assumes "lifecycle_mutate k f st = Inr (st', r)"
    and "\<And>p q. lp_identity p = k \<Longrightarrow> f p = Inr (Some q, r) \<Longrightarrow> row_step x p q \<and> lp_identity q = lp_identity p"
  shows "store_step x st st'"
proof -
  from assms(1) obtain p where p: "lifecycle_row st k = Some p" "readable p" "lp_identity p = k"
      and f: "(f p = Inr (None, r) \<and> st' = st) \<or> (\<exists>q. f p = Inr (Some q, r) \<and> st' = lifecycle_writeSync q st)"
    by (auto simp: lifecycle_mutate_def lifecycle_readSync_def split: sum.splits option.splits if_splits)
  moreover from p(1) have "p \<in> set st" by (auto simp: lifecycle_row_def dest: find_SomeD)
  ultimately show ?thesis using assms(2)[OF p(3)] by (auto simp: store_step_def)
qed

lemma apply_same_identity:
  "apply_github_effect c d t p = Inr q \<Longrightarrow> lp_identity q = lp_identity p"
  "apply_canonical_receipt r p = Inr q \<Longrightarrow> lp_identity q = lp_identity p"
  "apply_router_receipt rr p = Inr (Some q) \<Longrightarrow> lp_identity q = lp_identity p"
  "apply_terminal kind i t p = Inr (Some q) \<Longrightarrow> lp_identity q = lp_identity p"
  "apply_cancellation t p = Inr (Some q) \<Longrightarrow> lp_identity q = lp_identity p"
  "apply_authorization marker comment t p = Inr (Some q, g) \<Longrightarrow> lp_identity q = lp_identity p"
  "apply_ack_failure i' marker comment t p = Inr (Some q, b) \<Longrightarrow> lp_identity q = lp_identity p"
  "apply_ack_skip i' marker comment reason t p = Inr (Some q, b) \<Longrightarrow> lp_identity q = lp_identity p"
  "apply_observation ar p = Inr q \<Longrightarrow> lp_identity q = lp_identity p"
  by (auto simp: apply_github_effect_def apply_canonical_receipt_def apply_router_receipt_def apply_terminal_def applyTerminalDisposition_def
      apply_cancellation_def apply_authorization_def apply_ack_failure_def apply_ack_skip_def apply_observation_def set_terminal_def Let_def
      map_sum_Inr split: option.splits if_splits)

lemma kept_Inr: "kept st r = (case r of Inl e \<Rightarrow> st | Inr x \<Rightarrow> fst x)"
  by (auto simp: kept_def split: sum.splits)

lemma kept_step:
  assumes "\<And>st' a. r = Inr (st', a) \<Longrightarrow> store_step x st st'"
  shows "store_step x st (kept st r)"
  using assms by (cases r) (auto simp: kept_def store_step_def)

lemma stamped_identity [simp]: "lp_identity (stamped clock p) = lp_identity p"
  by (simp add: stamped_def)

lemma always_step:
  assumes "\<And>p q. lp_identity p = k \<Longrightarrow> f p = Inr q \<Longrightarrow> row_step x p (stamped clock q) \<and> lp_identity q = lp_identity p"
    and "lifecycle_mutate k (write_always clock f) st = Inr (st', r)"
  shows "store_step x st st'"
  using assms(2)
proof (rule mutate_step)
  fix p q
  assume k: "lp_identity p = k" and "write_always clock f p = Inr (Some q, r)"
  then obtain q' where q': "f p = Inr q'" "q = stamped clock q'" by (cases "f p") (auto simp: write_always_def)
  from assms(1)[OF k q'(1)] show "row_step x p q \<and> lp_identity q = lp_identity p" unfolding q'(2) by simp
qed

lemma unless_duplicate_step:
  assumes "\<And>p q. lp_identity p = k \<Longrightarrow> f p = Inr (Some q) \<Longrightarrow> row_step x p (stamped clock q) \<and> lp_identity q = lp_identity p"
    and "lifecycle_mutate k (write_unless_duplicate clock f) st = Inr (st', r)"
  shows "store_step x st st'"
  using assms(2)
proof (rule mutate_step)
  fix p q
  assume k: "lp_identity p = k" and "write_unless_duplicate clock f p = Inr (Some q, r)"
  then obtain q' where q': "f p = Inr (Some q')" "q = stamped clock q'"
    by (cases "f p") (auto simp: write_unless_duplicate_def split: option.splits)
  from assms(1)[OF k q'(1)] show "row_step x p q \<and> lp_identity q = lp_identity p" unfolding q'(2) by simp
qed

lemma admission_step: "recordAdmissionSync i st = Inr (st', a) \<Longrightarrow> store_step (AdmissionOp i) st st'"
  by (auto simp: recordAdmissionSync_def lifecycle_readSync_def store_step_def split: option.splits sum.splits if_splits)

lemma claim_step: "recordClaim k g run attempt t clock st = Inr (st', a) \<Longrightarrow> store_step (ClaimOp k g run attempt t clock) st st'"
  unfolding recordClaim_def
  by (auto split: if_splits elim!: always_step[rotated] simp: claim_added_def[symmetric] intro: row_claim) (simp_all add: claim_added_def)

lemma result_step:
  "recordReviewResultIfPresent k g run attempt outcome t must clock st = Inr (st', a)
   \<Longrightarrow> store_step (ResultOp k g run attempt outcome t must clock) st st'"
  unfolding recordReviewResultIfPresent_def map_sum_Inr
  by (auto simp: map_sum_Inr split: if_splits elim!: always_step[rotated] simp: result_added_def[symmetric] intro: row_result store_step_def[THEN iffD2])
    (simp_all add: result_added_def)

lemma effect_step: "recordGithubEffect k c d t clock st = Inr (st', a) \<Longrightarrow> store_step (EffectOp k c d t clock) st st'"
  unfolding recordGithubEffect_def
  by (auto split: if_splits elim!: always_step[rotated] intro: row_effect dest: apply_same_identity(1))

lemma canonical_step: "recordCanonicalReceipt k r clock st = Inr (st', a) \<Longrightarrow> store_step (CanonicalOp k r clock) st st'"
  unfolding recordCanonicalReceipt_def
  by (auto split: if_splits elim!: always_step[rotated] intro: row_canonical dest: apply_same_identity(2))

lemma router_step: "recordRouterReceiptSync k r clock st = Inr (st', a) \<Longrightarrow> store_step (RouterOp k r clock) st st'"
  unfolding recordRouterReceiptSync_def
  by (auto split: if_splits elim!: unless_duplicate_step[rotated] intro: row_router dest: apply_same_identity(3))

lemma terminal_step:
  "recordTerminalDispositionSync k kind i t clock st = Inr (st', a) \<Longrightarrow> store_step (TerminalOp k kind i t clock) st st'"
  unfolding recordTerminalDispositionSync_def
  by (auto split: if_splits elim!: unless_duplicate_step[rotated] intro: row_terminal dest: apply_same_identity(4))

lemma cancel_step: "cancelParkedCommandClosureSync k t clock st = Inr (st', a) \<Longrightarrow> store_step (CancelOp k t clock) st st'"
  unfolding cancelParkedCommandClosureSync_def
  by (auto split: if_splits elim!: unless_duplicate_step[rotated] intro: row_cancel dest: apply_same_identity(5))

lemma authorize_step:
  "authorizeCommandAcknowledgement k marker comment now st = Inr (st', a) \<Longrightarrow> store_step (AuthorizeOp k marker comment now) st st'"
  unfolding authorizeCommandAcknowledgement_def
  by (auto split: if_splits elim!: mutate_step intro: row_authorize dest: apply_same_identity(6))

lemma failure_step:
  "recordCommandAcknowledgementFailure k i marker comment now st = Inr (st', a) \<Longrightarrow> store_step (AckFailureOp k i marker comment now) st st'"
  unfolding recordCommandAcknowledgementFailure_def
  by (auto split: if_splits elim!: mutate_step intro: row_failure dest: apply_same_identity(7))

lemma skip_step:
  "recordCommandAcknowledgementTerminalSkip k i marker comment reason now st = Inr (st', a)
   \<Longrightarrow> store_step (AckSkipOp k i marker comment reason now) st st'"
  unfolding recordCommandAcknowledgementTerminalSkip_def
  by (auto split: if_splits elim!: mutate_step intro: row_skip dest: apply_same_identity(8))

lemma target_rows_set: "p \<in> set (target_rows t st) \<longleftrightarrow> p \<in> set st \<and> pj_canonicalTargetKey (lp_identity p) = t"
  by (auto simp: target_rows_def)

lemma observation_candidate: "p \<in> set (observation_candidates i st) \<Longrightarrow> p \<in> set st \<and> receipt_matches i p"
  by (auto simp: observation_candidates_def Let_def exact_matches_def matched_projections_def target_rows_set split: if_splits)

lemma observe_cases:
  assumes "observeCommandAcknowledgement i st = Inr (st', a)"
  obtains "st' = st" "a = None" | p ps q where "observation_candidates i st = p # ps" "apply_observation i p = Inr q"
    "st' = lifecycle_writeSync q st" "a = Some q" "valid_ack_receipt i" "list_all readable (target_rows (ar_canonicalTargetKey i) st)"
proof -
  note def = assms[unfolded observeCommandAcknowledgement_def]
  from def have ok: "valid_ack_receipt i" "list_all readable (target_rows (ar_canonicalTargetKey i) st)"
    by (simp_all split: if_split_asm)
  show thesis
  proof (cases "ambiguous_receipt i st")
    case True
    with def ok show thesis by (simp add: that(1))
  next
    case False
    show thesis
    proof (cases "observation_candidates i st")
      case Nil
      with def ok False show thesis by (simp add: that(1))
    next
      case (Cons p ps)
      show thesis
      proof (cases "apply_observation i p")
        case (Inl e)
        with def ok False Cons show thesis by simp
      next
        case (Inr q)
        with def ok False Cons show thesis by (intro that(2)[of p ps q]) simp_all
      qed
    qed
  qed
qed

lemma observe_step: "observeCommandAcknowledgement i st = Inr (st', a) \<Longrightarrow> store_step (ObserveOp i) st st'"
proof (erule observe_cases)
  fix p ps q
  assume p: "observation_candidates i st = p # ps" "apply_observation i p = Inr q" "st' = lifecycle_writeSync q st"
    "valid_ack_receipt i" and ok: "list_all readable (target_rows (ar_canonicalTargetKey i) st)"
  from p(1) have cand: "p \<in> set st" "receipt_matches i p" using observation_candidate[of p i st] by simp_all
  have "p \<in> set (target_rows (ar_canonicalTargetKey i) st)"
    using p(1) by (auto simp: observation_candidates_def Let_def exact_matches_def matched_projections_def
      dest!: arg_cong[of _ _ set] split: if_splits)
  with ok cand p apply_same_identity(9)[OF p(2)] show ?thesis
    by (auto simp: store_step_def list_all_iff intro: row_observe)
qed (simp add: store_step_def)

lemmas op_steps = admission_step claim_step result_step effect_step canonical_step router_step terminal_step cancel_step
  authorize_step failure_step skip_step observe_step

lemma lifecycle_store_step: "store_step x st (lifecycle_step st x)"
  by (cases x; simp, rule kept_step, erule op_steps)

subsubsection \<open>Facts are kept\<close>

definition attempt_core :: "ack_attempt \<Rightarrow> string \<times> string option \<times> int option \<times> int" where
  "attempt_core a = (at_attemptId a, at_statusMarker a, at_statusCommentId a, at_attemptedAt a)"

definition router_core :: "router_receipt \<Rightarrow> string \<times> router_outcome \<times> int" where
  "router_core r = (rt_receiptId r, rt_outcome r, rt_observedAt r)"

text \<open>Attempts keep their place and their address, and a closed attempt is never changed again.\<close>

definition attempts_kept :: "ack_attempt list \<Rightarrow> ack_attempt list \<Rightarrow> bool" where
  "attempts_kept xs ys \<longleftrightarrow>
     length xs \<le> length ys
     \<and> (\<forall>i<length xs. attempt_core (ys ! i) = attempt_core (xs ! i) \<and> (\<not> open_attempt (xs ! i) \<longrightarrow> ys ! i = xs ! i))"

definition value_kept :: "'a option \<Rightarrow> 'a option \<Rightarrow> bool" where
  "value_kept a b \<longleftrightarrow> a = None \<or> b = a"

definition keeps_facts :: "projection \<Rightarrow> projection \<Rightarrow> bool" where
  "keeps_facts p q \<longleftrightarrow>
     lp_identity q = lp_identity p \<and> lp_producerLineage q = lp_producerLineage p \<and> lp_admission q = lp_admission p
     \<and> lp_ackRequired q = lp_ackRequired p
     \<and> prefix (lp_claims p) (lp_claims q) \<and> prefix (lp_reviewResults p) (lp_reviewResults q)
     \<and> prefix (lp_canonicalReceipts p) (lp_canonicalReceipts q)
     \<and> prefix (map router_core (lp_routerReceipts p)) (map router_core (lp_routerReceipts q))
     \<and> prefix (lp_terminalDispositions p) (lp_terminalDispositions q)
     \<and> prefix (lp_terminalOperationIds p) (lp_terminalOperationIds q)
     \<and> value_kept (lp_githubEffect p) (lp_githubEffect q) \<and> value_kept (lp_routerReceipt p) (lp_routerReceipt q)
     \<and> value_kept (lp_observed p) (lp_observed q) \<and> attempts_kept (lp_attempts p) (lp_attempts q)"

lemma attempts_kept_refl [simp]: "attempts_kept xs xs"
  by (simp add: attempts_kept_def)

lemma attempts_kept_trans: "attempts_kept xs ys \<Longrightarrow> attempts_kept ys zs \<Longrightarrow> attempts_kept xs zs"
  by (auto simp: attempts_kept_def)

lemma value_kept_simps [simp]: "value_kept a a" "value_kept None b" "value_kept (Some x) b \<longleftrightarrow> b = Some x"
  by (auto simp: value_kept_def)

lemma value_kept_trans: "value_kept a b \<Longrightarrow> value_kept b c \<Longrightarrow> value_kept a c"
  by (auto simp: value_kept_def)

lemma keeps_facts_refl [simp]: "keeps_facts p p"
  by (simp add: keeps_facts_def)

lemma keeps_facts_trans:
  assumes "keeps_facts p q" and "keeps_facts q r"
  shows "keeps_facts p r"
  using assms unfolding keeps_facts_def
  by (auto intro: prefix_order.trans value_kept_trans attempts_kept_trans)

lemma keeps_facts_stamped [simp]: "keeps_facts p (stamped clock q) = keeps_facts p q"
  by (simp add: keeps_facts_def stamped_def)

lemma attempts_kept_append [simp]: "attempts_kept xs (xs @ ys)"
  by (auto simp: attempts_kept_def nth_append)

lemma attempts_kept_map:
  assumes "\<And>a. attempt_core (f a) = attempt_core a \<and> (\<not> open_attempt a \<longrightarrow> f a = a)"
  shows "attempts_kept xs (map f xs)"
  using assms by (simp add: attempts_kept_def)

lemma attempts_kept_expire: "attempts_kept xs (expire_attempts now xs)"
  unfolding expire_attempts_def update_where_def by (rule attempts_kept_map) (auto simp: attempt_core_def)

lemma update_first_nth:
  "i < length xs \<Longrightarrow> update_first test f xs ! i = xs ! i \<or> (test (xs ! i) \<and> update_first test f xs ! i = f (xs ! i))"
  by (induction xs arbitrary: i) (auto simp: nth_Cons split: nat.splits)

lemma length_update_first [simp]: "length (update_first test f xs) = length xs"
  by (induction xs) auto

lemma length_update_last [simp]: "length (update_last test f xs) = length xs"
  by (simp add: update_last_def)

lemma update_last_nth:
  assumes "i < length xs"
  shows "update_last test f xs ! i = xs ! i \<or> (test (xs ! i) \<and> update_last test f xs ! i = f (xs ! i))"
  using update_first_nth[of "length xs - Suc i" "rev xs" test f] assms by (simp add: update_last_def rev_nth)

lemma attempts_kept_update:
  assumes "\<And>a. test a \<Longrightarrow> open_attempt a \<and> attempt_core (f a) = attempt_core a"
  shows "attempts_kept xs (update_last test f xs)"
  using assms update_last_nth[of _ xs test f] by (fastforce simp: attempts_kept_def)

lemma update_first_found:
  "find test xs = Some a \<Longrightarrow> i < length xs
   \<Longrightarrow> update_first test f xs ! i = xs ! i \<or> (xs ! i = a \<and> update_first test f xs ! i = f a)"
  by (induction xs arbitrary: i) (auto simp: nth_Cons split: nat.splits if_splits)

lemma update_last_found:
  assumes "find test (rev xs) = Some a" and "i < length xs"
  shows "update_last test f xs ! i = xs ! i \<or> (xs ! i = a \<and> update_last test f xs ! i = f a)"
  using update_first_found[OF assms(1), of "length xs - Suc i" f] assms(2) by (simp add: update_last_def rev_nth)

lemma attempts_kept_found:
  assumes "find test (rev xs) = Some a" and "open_attempt a" and "attempt_core (f a) = attempt_core a"
  shows "attempts_kept xs (update_last test f xs)"
  using update_last_found[OF assms(1), of _ f] assms(2,3) by (fastforce simp: attempts_kept_def)

lemma router_core_update:
  assumes "i < length rs" and "router_core r = router_core (rs ! i)"
  shows "map router_core (list_update rs i r) = map router_core rs"
  using assms by (simp add: map_update list_update_same_conv)

lemma takeWhile_index:
  assumes "find p xs = Some x"
  shows "length (takeWhile (\<lambda>y. \<not> p y) xs) < length xs \<and> xs ! length (takeWhile (\<lambda>y. \<not> p y) xs) = x"
  using assms by (induction xs) (auto split: if_splits)

lemma keeps_terminal: "keeps_facts p (set_terminal t p)"
  by (simp add: keeps_facts_def set_terminal_def)

lemma keeps_applied_terminal: "applyTerminalDisposition kind t p = Inr q \<Longrightarrow> keeps_facts p q"
  by (auto simp: applyTerminalDisposition_def keeps_terminal split: option.splits if_splits)

lemma keeps_terminal_operation: "keeps_facts p q \<Longrightarrow> keeps_facts p (q\<lparr>lp_terminalOperationIds := lp_terminalOperationIds q @ ops\<rparr>)"
  by (auto simp: keeps_facts_def intro: prefix_prefix)

lemma keeps_router: "apply_router_receipt r p = Inr (Some q) \<Longrightarrow> keeps_facts p q"
proof -
  assume app: "apply_router_receipt r p = Inr (Some q)"
  show ?thesis
  proof (cases "find (\<lambda>x. rt_receiptId x = rt_receiptId r) (lp_routerReceipts p)")
    case None
    with app show ?thesis
      by (auto simp: apply_router_receipt_def Let_def keeps_facts_def value_kept_def split: option.splits if_splits)
  next
    case (Some x)
    from takeWhile_index[OF this] app Some show ?thesis
      by (auto simp: apply_router_receipt_def Let_def keeps_facts_def value_kept_def router_core_update router_core_def
          split: option.splits if_splits)
  qed
qed

lemma row_step_keeps: "row_step x p q \<Longrightarrow> keeps_facts p q"
proof (induction rule: row_step.induct)
  case (row_router p k r q clock)
  then show ?case by (simp add: keeps_router)
next
  case (row_terminal p k i kind t q clock)
  then show ?case
    by (auto simp: apply_terminal_def map_sum_Inr keeps_applied_terminal keeps_terminal_operation split: option.splits if_splits)
next
  case (row_cancel p k t q clock)
  have "keeps_facts p ((set_terminal (KindFailure, t) p)\<lparr>lp_terminalOperationIds := lp_terminalOperationIds p @ ops\<rparr>)" for ops
    using keeps_terminal_operation[OF keeps_terminal, of p "(KindFailure, t)" ops] by (simp add: set_terminal_def)
  with row_cancel show ?case by (auto simp: apply_cancellation_def split: if_splits)
next
  case (row_authorize p k marker comment now q g)
  have "attempts_kept (lp_attempts p) (expire_attempts now (lp_attempts p) @ xs)" for xs
    using attempts_kept_trans[OF attempts_kept_expire attempts_kept_append] .
  with row_authorize show ?case by (auto simp: apply_authorization_def Let_def keeps_facts_def split: if_splits)
next
  case (row_failure p k i marker comment now q b)
  then show ?case
    by (auto simp: apply_ack_failure_def Let_def keeps_facts_def attempt_core_def intro!: attempts_kept_update split: if_splits)
next
  case (row_skip p k i marker comment reason now q b)
  then show ?case
    by (auto simp: apply_ack_skip_def Let_def keeps_facts_def attempt_core_def open_attempt_def
        intro!: attempts_kept_found split: if_splits option.splits)
qed (auto simp: stamped_def claim_added_def result_added_def add_fact_def keeps_facts_def apply_github_effect_def apply_canonical_receipt_def
    apply_observation_def split: option.splits if_splits)

subsubsection \<open>Rows of the store\<close>

lemma row_write:
  "lifecycle_row (lifecycle_writeSync q st) k = (if k = lp_identity q then Some q else lifecycle_row st k)"
proof (cases "\<exists>r\<in>set st. lp_identity r = lp_identity q")
  case True
  have "find (\<lambda>p. lp_identity p = k) (update_where (\<lambda>r. lp_identity r = lp_identity q) (\<lambda>r. q) xs)
      = map_option (\<lambda>r. if lp_identity r = lp_identity q then q else r) (find (\<lambda>p. lp_identity p = k) xs)" for xs
    by (rule find_update_where) simp
  moreover from True obtain r where "find (\<lambda>p. lp_identity p = lp_identity q) st = Some r"
    by (cases "find (\<lambda>p. lp_identity p = lp_identity q) st") (auto simp: find_None_iff)
  ultimately show ?thesis
    using True
    by (auto simp: lifecycle_row_def lifecycle_writeSync_def dest: find_SomeD split: option.splits)
      (cases "find (\<lambda>p. lp_identity p = k) st"; auto dest: find_SomeD)+
next
  case False
  then have "find (\<lambda>p. lp_identity p = lp_identity q) st = None" by (auto simp: find_None_iff)
  moreover have "find p (xs @ [q]) = (case find p xs of None \<Rightarrow> if p q then Some q else None | Some x \<Rightarrow> Some x)" for p xs
    by (induction xs) auto
  ultimately show ?thesis using False by (auto simp: lifecycle_row_def lifecycle_writeSync_def split: option.splits)
qed

lemma distinct_write: "distinct_rows st \<Longrightarrow> distinct_rows (lifecycle_writeSync q st)"
proof -
  have "map lp_identity (update_where (\<lambda>r. lp_identity r = lp_identity q) (\<lambda>r. q) st) = map lp_identity st"
    by (rule map_update_where_same) simp
  then show "distinct_rows st \<Longrightarrow> distinct_rows (lifecycle_writeSync q st)"
    by (auto simp: distinct_rows_def lifecycle_writeSync_def)
qed

lemma admitted_identity [simp]: "lp_identity (admitted_projection i) = ai_identity i"
  by (simp add: admitted_projection_def)

lemma row_member: "distinct_rows st \<Longrightarrow> p \<in> set st \<longleftrightarrow> lifecycle_row st (lp_identity p) = Some p"
  by (auto simp: distinct_rows_def lifecycle_row_def dest: find_SomeD intro!: find_unique distinct_map_unique[of lp_identity])

lemma distinct_store_step: "store_step x st st' \<Longrightarrow> distinct_rows st \<Longrightarrow> distinct_rows st'"
  by (auto simp: store_step_def distinct_write)

lemma row_after_step:
  assumes "store_step x st st'" and "distinct_rows st" and "lifecycle_row st k = Some p"
  obtains "lifecycle_row st' k = Some p" | q where "lifecycle_row st' k = Some q" "readable p" "row_step x p q"
proof (use assms(1) in \<open>unfold store_step_def, elim disjE\<close>)
  assume "\<exists>p q. p \<in> set st \<and> readable p \<and> row_step x p q \<and> lp_identity q = lp_identity p \<and> st' = lifecycle_writeSync q st"
  then obtain r q where r: "r \<in> set st" "readable r" "row_step x r q" "lp_identity q = lp_identity r" "st' = lifecycle_writeSync q st"
    by blast
  from assms(2) r(1) have "lifecycle_row st (lp_identity r) = Some r" by (simp add: row_member)
  with r assms(3) that show thesis by (cases "k = lp_identity r") (auto simp: row_write)
next
  assume "\<exists>i. x = AdmissionOp i \<and> admission_check i = None \<and> lifecycle_row st (ai_identity i) = None
      \<and> st' = lifecycle_writeSync (admitted_projection i) st"
  then obtain i where i: "lifecycle_row st (ai_identity i) = None" "st' = lifecycle_writeSync (admitted_projection i) st" by blast
  with assms(3) have "k \<noteq> ai_identity i" by auto
  with i assms(3) show thesis by (intro that(1)) (simp add: row_write)
qed (use assms(3) that in simp)

lemma row_created:
  assumes "store_step x st st'" and "distinct_rows st" and "lifecycle_row st k = None" and "lifecycle_row st' k = Some q"
  shows "\<exists>i. x = AdmissionOp i \<and> admission_check i = None \<and> ai_identity i = k \<and> q = admitted_projection i"
  using assms(1)
proof (unfold store_step_def, elim disjE)
  assume "\<exists>p q. p \<in> set st \<and> readable p \<and> row_step x p q \<and> lp_identity q = lp_identity p \<and> st' = lifecycle_writeSync q st"
  then obtain r q' where r: "r \<in> set st" "lp_identity q' = lp_identity r" "st' = lifecycle_writeSync q' st" by blast
  from assms(2) r(1) have "lifecycle_row st (lp_identity r) = Some r" by (simp add: row_member)
  with r assms(3,4) show ?thesis by (auto simp: row_write split: if_splits)
qed (use assms(3,4) in \<open>auto simp: row_write admitted_projection_def split: if_splits\<close>)

lemma row_kept_step:
  assumes "distinct_rows st" and "lifecycle_row st k = Some p"
  shows "\<exists>q. lifecycle_row (lifecycle_step st x) k = Some q \<and> keeps_facts p q"
  using row_after_step[OF lifecycle_store_step[of x st] assms] row_step_keeps keeps_facts_refl by metis

lemma row_kept_run:
  assumes "distinct_rows st" and "lifecycle_row st k = Some p"
  shows "\<exists>q. lifecycle_row (lifecycle_run st xs) k = Some q \<and> keeps_facts p q"
  using assms
proof (induction xs arbitrary: st p)
  case (Cons x xs)
  from row_kept_step[OF Cons.prems, of x] obtain q where q: "lifecycle_row (lifecycle_step st x) k = Some q" "keeps_facts p q" by blast
  have "distinct_rows (lifecycle_step st x)" using distinct_store_step[OF lifecycle_store_step Cons.prems(1)] .
  from Cons.IH[OF this q(1)] q(2) show ?case by (auto intro: keeps_facts_trans)
qed simp

interpretation lifecycles: invariant_machine lifecycle_step "[]" distinct_rows
  by unfold_locales (auto simp: distinct_rows_def[of "[]"] intro: distinct_store_step[OF lifecycle_store_step])

subsubsection \<open>Invariants of the rows\<close>

lemma row_invariant_from:
  assumes "distinct_rows st" and "\<And>p. lifecycle_row st k = Some p \<Longrightarrow> P p"
    and "\<And>i. AdmissionOp i \<in> set ops \<Longrightarrow> admission_check i = None \<Longrightarrow> P (admitted_projection i)"
    and "\<And>x p q. x \<in> set ops \<Longrightarrow> readable p \<Longrightarrow> row_step x p q \<Longrightarrow> P p \<Longrightarrow> P q"
    and "lifecycle_row (lifecycle_run st ops) k = Some p"
  shows "P p"
  using assms
proof (induction ops arbitrary: st)
  case (Cons x xs)
  let ?st = "lifecycle_step st x"
  have step: "store_step x st ?st" by (rule lifecycle_store_step)
  have "P q" if "lifecycle_row ?st k = Some q" for q
  proof (cases "lifecycle_row st k")
    case None
    from row_created[OF step Cons.prems(1) None that] Cons.prems(3) show ?thesis by auto
  next
    case (Some r)
    with Cons.prems(2) have "P r" by blast
    moreover from row_after_step[OF step Cons.prems(1) Some] that have "q = r \<or> (readable r \<and> row_step x r q)" by force
    ultimately show ?thesis using Cons.prems(4)[of x r q] by auto
  qed
  note holds = this
  show ?case
  proof (rule Cons.IH[of ?st])
    show "distinct_rows ?st" using distinct_store_step[OF step Cons.prems(1)] .
    show "P (admitted_projection i)" if "AdmissionOp i \<in> set xs" "admission_check i = None" for i
      using Cons.prems(3)[of i] that by simp
    show "P q" if "y \<in> set xs" "readable p" "row_step y p q" "P p" for y p q
      using Cons.prems(4)[of y p q] that by simp
    show "lifecycle_row (lifecycle_run ?st xs) k = Some p" using Cons.prems(5) by simp
  qed (rule holds)
qed auto

subsubsection \<open>Terminal outcomes\<close>

definition may_follow :: "bool \<Rightarrow> terminal_kind \<Rightarrow> terminal_kind \<Rightarrow> bool" where
  "may_follow cancels a b \<longleftrightarrow>
     a \<noteq> b \<and> (a = KindRequeue \<or> b = KindRequeue) \<or> cancels \<and> b = KindFailure \<and> (a = KindTargetClosed \<or> a = KindFailure)"

definition terminal_history :: "bool \<Rightarrow> projection \<Rightarrow> bool" where
  "terminal_history cancels p \<longleftrightarrow>
     lp_terminalDisposition p = (if lp_terminalDispositions p = [] then None else Some (last (lp_terminalDispositions p)))
     \<and> successively (\<lambda>a b. may_follow cancels (fst a) (fst b)) (lp_terminalDispositions p)"

lemma terminal_history_stamped [simp]: "terminal_history c (stamped clock p) = terminal_history c p"
  by (simp add: terminal_history_def stamped_def)

lemma terminal_history_cong:
  "lp_terminalDispositions q = lp_terminalDispositions p \<Longrightarrow> lp_terminalDisposition q = lp_terminalDisposition p
   \<Longrightarrow> terminal_history c q = terminal_history c p"
  by (simp add: terminal_history_def)

lemma terminal_history_set:
  assumes "terminal_history c p" and "check (\<lambda>k. may_follow c k (fst t)) (terminal_kind_of p)"
  shows "terminal_history c (set_terminal t p)"
  using assms by (cases "lp_terminalDispositions p = []") (auto simp: terminal_history_def set_terminal_def terminal_kind_of_def successively_append_iff)

lemma terminal_history_applied:
  assumes "applyTerminalDisposition kind t p = Inr q" and "terminal_history c p"
  shows "terminal_history c q"
  using assms by (auto simp: applyTerminalDisposition_def may_follow_def intro!: terminal_history_set split: option.splits if_splits)

lemma terminal_history_step:
  assumes "row_step x p q" and "terminal_history c p" and "\<And>k t clock. x = CancelOp k t clock \<Longrightarrow> c"
  shows "terminal_history c q"
  using assms
proof (induction rule: row_step.induct)
  case (row_terminal p k i kind t q clock)
  then obtain q' where "applyTerminalDisposition kind t p = Inr q'" "lp_terminalDispositions q = lp_terminalDispositions q'"
      "lp_terminalDisposition q = lp_terminalDisposition q'"
    by (auto simp: apply_terminal_def map_sum_Inr split: option.splits if_splits)
  with terminal_history_applied[of kind t p q' c] row_terminal.prems(1) show ?case
    by (simp add: terminal_history_cong[of q q'])
next
  case (row_cancel p k t q clock)
  then have q: "lp_terminalDispositions q = lp_terminalDispositions (set_terminal (KindFailure, t) p)"
      "lp_terminalDisposition q = lp_terminalDisposition (set_terminal (KindFailure, t) p)"
      "check (\<lambda>k. k = KindTargetClosed \<or> k = KindRequeue \<or> k = KindFailure) (terminal_kind_of p)" and c
    by (auto simp: apply_cancellation_def set_terminal_def split: if_splits)
  then have "check (\<lambda>k. may_follow c k KindFailure) (terminal_kind_of p)"
    by (cases "terminal_kind_of p") (auto simp: may_follow_def)
  then have "terminal_history c (set_terminal (KindFailure, t) p)" using row_cancel.prems(1) by (intro terminal_history_set) auto
  with terminal_history_cong[OF q(1,2)] show ?case by simp
qed (auto simp: stamped_def claim_added_def result_added_def apply_github_effect_def apply_canonical_receipt_def apply_router_receipt_def
    apply_authorization_def apply_ack_failure_def apply_ack_skip_def apply_observation_def Let_def terminal_history_def
    split: option.splits if_splits)

subsubsection \<open>Readable rows\<close>

text \<open>An operation that brings the identifier which the queue itself uses for a cancellation.\<close>

definition uses_reserved :: "lifecycle_op \<Rightarrow> bool" where
  "uses_reserved x \<longleftrightarrow>
     (case x of TerminalOp k kind i t clock \<Rightarrow> i = Some PARKED_COMMAND_CLOSURE_CANCEL_OPERATION | _ \<Rightarrow> False)"

definition clean_row :: "projection \<Rightarrow> bool" where
  "clean_row p \<longleftrightarrow>
     readable p \<and> (\<forall>(i, k)\<in>set (lp_terminalOperationIds p). i = PARKED_COMMAND_CLOSURE_CANCEL_OPERATION \<longrightarrow> k = KindFailure)"

lemma valid_operations:
  "validTerminalOperations ops seen \<longleftrightarrow>
     (\<forall>(i, k)\<in>set ops. validText i 1 300 \<and> i \<notin> set seen) \<and> distinct (map fst ops)"
  by (induction ops arbitrary: seen) force+

lemma reserved_text [simp]: "validText PARKED_COMMAND_CLOSURE_CANCEL_OPERATION (Suc 0) 300"
  by code_simp

lemma clean_admitted: "admission_check i = None \<Longrightarrow> clean_row (admitted_projection i)"
  by (auto simp: clean_row_def readable_def admitted_projection_def admission_check_def split: if_splits)

lemma clean_same:
  "clean_row p \<Longrightarrow> lp_identity q = lp_identity p \<Longrightarrow> lp_producerLineage q = lp_producerLineage p
   \<Longrightarrow> lp_terminalOperationIds q = lp_terminalOperationIds p \<Longrightarrow> clean_row q"
  by (simp add: clean_row_def readable_def)

lemma clean_added:
  assumes "clean_row p" and "validText i 1 300" and "i \<notin> set (map fst (lp_terminalOperationIds p))"
    and "i = PARKED_COMMAND_CLOSURE_CANCEL_OPERATION \<longrightarrow> k = KindFailure"
    and "lp_identity q = lp_identity p" "lp_producerLineage q = lp_producerLineage p"
    and "lp_terminalOperationIds q = lp_terminalOperationIds p @ [(i, k)]"
  shows "clean_row q"
  using assms by (auto simp: clean_row_def readable_def valid_operations)

lemma applied_terminal_fields:
  "applyTerminalDisposition kind t p = Inr q \<Longrightarrow> lp_identity q = lp_identity p \<and> lp_producerLineage q = lp_producerLineage p
     \<and> lp_terminalOperationIds q = lp_terminalOperationIds p"
  by (auto simp: applyTerminalDisposition_def set_terminal_def split: option.splits if_splits)

lemma clean_step:
  assumes "row_step x p q" and "clean_row p" and "\<not> uses_reserved x"
  shows "clean_row q"
  using assms
proof (induction rule: row_step.induct)
  case (row_terminal p k i kind t q clock)
  show ?case
  proof (cases i)
    case None
    with row_terminal obtain q' where "applyTerminalDisposition kind t p = Inr q'" "q = q'"
      by (auto simp: apply_terminal_def map_sum_Inr)
    with applied_terminal_fields[of kind t p q'] show ?thesis
      by (intro clean_same[OF row_terminal.prems(1)]) (simp_all add: stamped_def)
  next
    case (Some j)
    with row_terminal obtain q' where q': "applyTerminalDisposition kind t p = Inr q'" "map_of (lp_terminalOperationIds p) j = None"
        "q = q'\<lparr>lp_terminalOperationIds := lp_terminalOperationIds q' @ [(j, kind)]\<rparr>"
      by (auto simp: apply_terminal_def map_sum_Inr split: option.splits if_splits)
    have "j \<notin> set (map fst (lp_terminalOperationIds p))" using q'(2) by (simp add: map_of_eq_None_iff)
    with row_terminal Some q' applied_terminal_fields[OF q'(1)] show ?thesis
      by (intro clean_added[OF row_terminal.prems(1), of j kind]) (auto simp: uses_reserved_def stamped_def)
  qed
next
  case (row_cancel p k t q clock)
  let ?c = PARKED_COMMAND_CLOSURE_CANCEL_OPERATION
  from row_cancel have "\<not> parkedCommandClosureCancelled p" "q = (set_terminal (KindFailure, t) p)\<lparr>lp_terminalOperationIds :=
      lp_terminalOperationIds p @ [(?c, KindFailure)]\<rparr>" by (auto simp: apply_cancellation_def split: if_splits)
  moreover from this(1) row_cancel.prems(1) have "?c \<notin> set (map fst (lp_terminalOperationIds p))"
    by (fastforce simp: parkedCommandClosureCancelled_def clean_row_def list_ex_iff)
  ultimately show ?case
    using row_cancel.prems(1) by (intro clean_added[OF row_cancel.prems(1), of ?c KindFailure]) (simp_all add: set_terminal_def stamped_def)
next
  case (row_router p k r q clock)
  then show ?case
    by (intro clean_same[OF row_router.prems(1)]) (auto simp: apply_router_receipt_def Let_def stamped_def split: option.splits if_splits)
qed (erule clean_same; auto simp: stamped_def claim_added_def result_added_def apply_github_effect_def apply_canonical_receipt_def
    apply_authorization_def apply_ack_failure_def apply_ack_skip_def apply_observation_def Let_def
    split: option.splits if_splits)+

subsubsection \<open>The lease of an acknowledgement attempt\<close>

abbreviation (input) attempt_lease :: int where
  "attempt_lease \<equiv> EXACT_REVIEW_ACKNOWLEDGEMENT_ATTEMPT_LEASE_MS"

lemma expire_attempts_nth:
  "n < length xs \<Longrightarrow> expire_attempts now xs ! n =
     (if open_attempt (xs ! n) \<and> now - at_attemptedAt (xs ! n) \<ge> attempt_lease then (xs ! n)\<lparr>at_expiredAt := Some now\<rparr> else xs ! n)"
  by (simp add: expire_attempts_def update_where_def)

lemma length_expire_attempts [simp]: "length (expire_attempts now xs) = length xs"
  by (simp add: expire_attempts_def)

text \<open>Who may close an open attempt.\<close>

lemma attempt_closed:
  assumes "row_step x p q" and "n < length (lp_attempts p)" and "open_attempt (lp_attempts p ! n)"
    and "\<not> open_attempt (lp_attempts q ! n)"
  shows "(\<exists>marker comment now. x = AuthorizeOp (lp_identity p) marker comment now
        \<and> at_expiredAt (lp_attempts q ! n) = Some now \<and> at_attemptedAt (lp_attempts p ! n) + attempt_lease \<le> now)
     \<or> (\<exists>marker comment now. x = AckFailureOp (lp_identity p) (at_attemptId (lp_attempts p ! n)) marker comment now)
     \<or> at_terminalSkip (lp_attempts q ! n) \<noteq> None"
  using assms
proof (induction rule: row_step.induct)
  case (row_authorize p k marker comment now q g)
  then show ?case
    by (auto simp: apply_authorization_def Let_def nth_append expire_attempts_nth open_attempt_def split: if_splits)
next
  case (row_failure p k i marker comment now q b)
  let ?test = "\<lambda>a. open_attempt a \<and> attempt_named i marker comment a"
  from row_failure have "lp_attempts q = update_last ?test (\<lambda>a. a\<lparr>at_failedAt := Some now\<rparr>) (lp_attempts p)"
    by (auto simp: apply_ack_failure_def Let_def split: if_splits)
  moreover have "lp_attempts q ! n \<noteq> lp_attempts p ! n" using row_failure.prems by auto
  ultimately have "?test (lp_attempts p ! n)" using update_last_nth[OF row_failure.prems(1), of ?test] by metis
  then show ?case using row_failure.hyps(1) by (auto simp: attempt_named_def)
next
  case (row_skip p k i marker comment reason now q b)
  let ?test = "attempt_named i marker comment"
  from row_skip have "lp_attempts q = update_last ?test (\<lambda>a. a\<lparr>at_terminalSkip := Some (reason, now)\<rparr>) (lp_attempts p)"
    by (auto simp: apply_ack_skip_def Let_def split: if_splits option.splits)
  moreover have "lp_attempts q ! n \<noteq> lp_attempts p ! n" using row_skip.prems by auto
  ultimately have "lp_attempts q ! n = (lp_attempts p ! n)\<lparr>at_terminalSkip := Some (reason, now)\<rparr>"
    using update_last_nth[OF row_skip.prems(1), of ?test "\<lambda>a. a\<lparr>at_terminalSkip := Some (reason, now)\<rparr>"] by simp
  then show ?case by simp
qed (auto simp: stamped_def claim_added_def result_added_def apply_github_effect_def apply_canonical_receipt_def apply_router_receipt_def
    apply_terminal_def applyTerminalDisposition_def map_sum_Inr apply_cancellation_def set_terminal_def apply_observation_def Let_def
    split: option.splits if_splits)

text \<open>The attempt is open, or it ran out before \<open>T\<close>, or it was skipped for good.\<close>

definition leased_attempt :: "nat \<Rightarrow> string \<times> string option \<times> int option \<times> int \<Rightarrow> int \<Rightarrow> projection \<Rightarrow> bool" where
  "leased_attempt n core T p \<longleftrightarrow>
     n < length (lp_attempts p) \<and> attempt_core (lp_attempts p ! n) = core
     \<and> (open_attempt (lp_attempts p ! n)
        \<or> (\<exists>t. at_expiredAt (lp_attempts p ! n) = Some t \<and> snd (snd (snd core)) + attempt_lease \<le> t \<and> t \<le> T)
        \<or> at_terminalSkip (lp_attempts p ! n) \<noteq> None)"

definition authorized_by :: "int \<Rightarrow> lifecycle_op \<Rightarrow> bool" where
  "authorized_by T x \<longleftrightarrow> (case x of AuthorizeOp k marker comment now \<Rightarrow> now \<le> T | _ \<Rightarrow> True)"

definition releases :: "projection_identity \<Rightarrow> string \<Rightarrow> lifecycle_op \<Rightarrow> bool" where
  "releases k i x \<longleftrightarrow> (case x of AckFailureOp k' i' marker comment now \<Rightarrow> k' = k \<and> i' = i | _ \<Rightarrow> False)"

lemma leased_step:
  assumes "row_step x p q" and "leased_attempt n core T p" and "authorized_by T x" and "\<not> releases (lp_identity p) (fst core) x"
  shows "leased_attempt n core T q"
proof -
  from row_step_keeps[OF assms(1)] have kept: "attempts_kept (lp_attempts p) (lp_attempts q)" by (simp add: keeps_facts_def)
  from assms(2) have n: "n < length (lp_attempts p)" and core: "attempt_core (lp_attempts p ! n) = core"
    by (auto simp: leased_attempt_def)
  from kept n have n': "n < length (lp_attempts q)" and core': "attempt_core (lp_attempts q ! n) = core"
    and closed: "\<not> open_attempt (lp_attempts p ! n) \<Longrightarrow> lp_attempts q ! n = lp_attempts p ! n"
    using core by (auto simp: attempts_kept_def)
  show ?thesis
  proof (cases "open_attempt (lp_attempts p ! n) \<and> \<not> open_attempt (lp_attempts q ! n)")
    case True
    from core have id: "at_attemptId (lp_attempts p ! n) = fst core" and t: "at_attemptedAt (lp_attempts p ! n) = snd (snd (snd core))"
      by (auto simp: attempt_core_def)
    from attempt_closed[OF assms(1) n] True
    consider now where "at_expiredAt (lp_attempts q ! n) = Some now" "snd (snd (snd core)) + attempt_lease \<le> now" "now \<le> T"
      | "at_terminalSkip (lp_attempts q ! n) \<noteq> None"
      using assms(3,4) unfolding id t by (auto simp: authorized_by_def releases_def)
    then show ?thesis
    proof cases
      case 1
      with n' core' show ?thesis unfolding leased_attempt_def by blast
    next
      case 2
      with n' core' show ?thesis unfolding leased_attempt_def by blast
    qed
  next
    case False
    then have "open_attempt (lp_attempts q ! n) \<or> lp_attempts q ! n = lp_attempts p ! n" using closed by blast
    moreover note assms(2)[unfolded leased_attempt_def]
    ultimately show ?thesis unfolding leased_attempt_def using n' core' by metis
  qed
qed

lemma leased_not_granted:
  assumes "apply_authorization marker comment now p = Inr (r, g)" and "ag_allowed g" and "leased_attempt n core now p"
  shows "snd (snd (snd core)) + attempt_lease \<le> now"
proof -
  from assms(1,2) have pend: "commandAcknowledgementState p = AckPending"
    and none: "\<not> list_ex open_attempt (expire_attempts now (lp_attempts p))"
    by (auto simp: apply_authorization_def ack_answer_def Let_def split: if_splits)
  from assms(3) have n: "n < length (lp_attempts p)" and core: "attempt_core (lp_attempts p ! n) = core" by (auto simp: leased_attempt_def)
  from assms(3) consider "open_attempt (lp_attempts p ! n)" | t where "snd (snd (snd core)) + attempt_lease \<le> t" "t \<le> now"
    | "at_terminalSkip (lp_attempts p ! n) \<noteq> None" by (auto simp: leased_attempt_def)
  then show ?thesis
  proof cases
    case 1
    have "\<not> open_attempt (expire_attempts now (lp_attempts p) ! n)"
      using none n by (simp add: list_ex_iff)
    with 1 n have "now - at_attemptedAt (lp_attempts p ! n) \<ge> attempt_lease" by (simp add: expire_attempts_nth split: if_splits)
    with core show ?thesis by (auto simp: attempt_core_def)
  next
    case 3
    with n have "find (\<lambda>a. at_terminalSkip a \<noteq> None) (rev (lp_attempts p)) \<noteq> None" by (auto simp: find_None_iff intro: nth_mem)
    then have "commandAcknowledgementTerminalSkip p \<noteq> None"
      by (auto simp: commandAcknowledgementTerminalSkip_def dest: find_SomeD)
    with pend show ?thesis
      by (auto simp: commandAcknowledgementState_def lifecycleState_def split: if_splits option.splits)
  qed simp
qed

text \<open>A granted attempt is the newest one of its row, and open.\<close>

lemma granted_attempt:
  assumes "authorizeCommandAcknowledgement k marker comment now st = Inr (st', g)" and "ag_allowed g"
  obtains p q i where "lifecycle_row st k = Some p" "lifecycle_row st' k = Some q" "ag_attemptId g = Some i"
    "leased_attempt (length (lp_attempts p)) (i, marker, comment, now) T q" "apply_authorization marker comment now p = Inr (Some q, g)"
proof -
  from assms(1) have mut: "lifecycle_mutate k (apply_authorization marker comment now) st = Inr (st', g)"
    by (auto simp: authorizeCommandAcknowledgement_def split: if_splits)
  then obtain p where p: "lifecycle_row st k = Some p" "lp_identity p = k"
    and f: "(apply_authorization marker comment now p = Inr (None, g) \<and> st' = st)
      \<or> (\<exists>q. apply_authorization marker comment now p = Inr (Some q, g) \<and> st' = lifecycle_writeSync q st)"
    by (auto simp: lifecycle_mutate_def lifecycle_readSync_def split: sum.splits option.splits if_splits)
  with assms(2) obtain q where q: "apply_authorization marker comment now p = Inr (Some q, g)" "st' = lifecycle_writeSync q st"
    by (auto simp: apply_authorization_def ack_answer_def Let_def split: if_splits)
  then obtain i where "ag_attemptId g = Some i" "lp_attempts q = expire_attempts now (lp_attempts p) @
      [\<lparr>at_attemptId = i, at_statusMarker = marker, at_statusCommentId = comment, at_attemptedAt = now, at_failedAt = None,
        at_expiredAt = None, at_terminalSkip = None\<rparr>]"
    using assms(2) by (auto simp: apply_authorization_def ack_answer_def Let_def split: if_splits)
  moreover have "lifecycle_row st' k = Some q" using q apply_same_identity(6)[OF q(1)] p(2) by (simp add: row_write)
  ultimately show thesis using p q that[of p q i] by (simp add: leased_attempt_def attempt_core_def open_attempt_def nth_append)
qed

lemma leased_run:
  assumes "distinct_rows st" and "lifecycle_row st k = Some q" and "leased_attempt n core T q"
    and "\<forall>x\<in>set ops. authorized_by T x \<and> \<not> releases k (fst core) x"
  obtains q' where "lifecycle_row (lifecycle_run st ops) k = Some q'" "leased_attempt n core T q'"
  using assms
proof (induction ops arbitrary: st q thesis)
  case (Cons x xs)
  let ?st = "lifecycle_step st x"
  have step: "store_step x st ?st" by (rule lifecycle_store_step)
  have id: "lp_identity q = k" using Cons.prems(3) by (auto simp: lifecycle_row_def dest: find_SomeD)
  obtain r where r: "lifecycle_row ?st k = Some r" "leased_attempt n core T r"
    using row_after_step[OF step Cons.prems(2,3)] leased_step[of x q _ n core T] Cons.prems(4,5) id by (metis list.set_intros(1))
  from Cons.IH[OF _ distinct_store_step[OF step Cons.prems(2)] r] Cons.prems(1,5) show ?case by auto
qed auto

subsubsection \<open>Rows that the audit accepts\<close>

definition times_ok :: "lifecycle_op \<Rightarrow> bool" where
  "times_ok x \<longleftrightarrow> list_all finiteTimestamp
     (case x of AdmissionOp i \<Rightarrow> [ai_observedAt i] | ClaimOp k g run attempt t clock \<Rightarrow> [t, clock]
      | ResultOp k g run attempt outcome t must clock \<Rightarrow> [t, clock] | EffectOp k c d t clock \<Rightarrow> [t, clock]
      | CanonicalOp k r clock \<Rightarrow> [cn_observedAt r, clock] | RouterOp k r clock \<Rightarrow> [rt_observedAt r, clock]
      | TerminalOp k kind i t clock \<Rightarrow> [t, clock] | CancelOp k t clock \<Rightarrow> [t, clock] | AuthorizeOp k marker comment now \<Rightarrow> [now]
      | AckFailureOp k i marker comment now \<Rightarrow> [now] | AckSkipOp k i marker comment reason now \<Rightarrow> [now]
      | ObserveOp i \<Rightarrow> [ar_observedAt i])"

text \<open>The audit's test without the stamp, which every write replaces.\<close>

definition valid_facts :: "projection \<Rightarrow> bool" where
  "valid_facts p \<longleftrightarrow> validDurableLifecycleBayProjection (p\<lparr>lp_updatedAt := 0\<rparr>)"

lemma latest_terminal_alt:
  "latest_terminal p \<longleftrightarrow>
     lp_terminalDisposition p = (if lp_terminalDispositions p = [] then None else Some (last (lp_terminalDispositions p)))
     \<and> check (\<lambda>t. finiteTimestamp (snd t)) (lp_terminalDisposition p)"
  by (auto simp: latest_terminal_def split: option.splits)

lemma finite_zero [simp]: "finiteTimestamp 0"
  by (simp add: finiteTimestamp_def)

lemma valid_facts_stamp: "validDurableLifecycleBayProjection p \<longleftrightarrow> valid_facts p \<and> finiteTimestamp (lp_updatedAt p)"
  by (auto simp: valid_facts_def validDurableLifecycleBayProjection_def retained_router_def latest_terminal_alt)

lemma valid_facts_update [simp]: "valid_facts (p\<lparr>lp_updatedAt := t\<rparr>) = valid_facts p"
  by (simp add: valid_facts_def)

lemma valid_stamped: "valid_facts p \<Longrightarrow> finiteTimestamp clock \<Longrightarrow> validDurableLifecycleBayProjection (stamped clock p)"
  by (simp add: valid_facts_stamp stamped_def)

lemmas valid_facts_unfold = valid_facts_def validDurableLifecycleBayProjection_def retained_router_def latest_terminal_alt

lemma valid_admitted:
  "admission_check i = None \<Longrightarrow> times_ok (AdmissionOp i) \<Longrightarrow> validDurableLifecycleBayProjection (admitted_projection i)"
  by (auto simp: admission_check_def times_ok_def admitted_projection_def validDurableLifecycleBayProjection_def retained_router_def
      latest_terminal_def valid_admission_def split: if_splits)

lemma add_fact_all: "list_all P xs \<Longrightarrow> P x \<Longrightarrow> list_all P (add_fact same x xs)"
  by (simp add: add_fact_def)

lemma valid_set_terminal: "valid_facts p \<Longrightarrow> finiteTimestamp (snd t) \<Longrightarrow> valid_facts (set_terminal t p)"
  by (auto simp: valid_facts_unfold set_terminal_def)

lemma valid_facts_operations [simp]: "valid_facts (p\<lparr>lp_terminalOperationIds := ops\<rparr>) = valid_facts p"
  by (simp add: valid_facts_unfold)

lemma valid_applied_terminal: "applyTerminalDisposition kind t p = Inr q \<Longrightarrow> valid_facts p \<Longrightarrow> finiteTimestamp t \<Longrightarrow> valid_facts q"
  by (auto simp: applyTerminalDisposition_def valid_set_terminal split: option.splits if_splits)

lemma valid_router:
  assumes "apply_router_receipt r p = Inr (Some q)" and "valid_facts p" and "validText (rt_receiptId r) 1 300" and "finiteTimestamp (rt_observedAt r)"
  shows "valid_facts q"
proof (cases "find (\<lambda>x. rt_receiptId x = rt_receiptId r) (lp_routerReceipts p)")
  case None
  with assms show ?thesis
    by (auto simp: apply_router_receipt_def Let_def valid_facts_unfold split: option.splits if_splits)
next
  case (Some x)
  let ?i = "length (takeWhile (\<lambda>y. rt_receiptId y \<noteq> rt_receiptId r) (lp_routerReceipts p))"
  from takeWhile_index[OF Some] have i: "?i < length (lp_routerReceipts p)" "lp_routerReceipts p ! ?i = x" by auto
  from find_SomeD[OF Some] have x: "x \<in> set (lp_routerReceipts p)" "rt_receiptId x = rt_receiptId r" by auto
  from assms(1) Some have q: "q = p\<lparr>lp_routerReceipts := (lp_routerReceipts p)[?i := x\<lparr>rt_operationComplete := True\<rparr>],
      lp_routerReceipt := Some (case lp_routerReceipt p of None \<Rightarrow> r | Some x \<Rightarrow> x)\<rparr>" and same: "rt_outcome x = rt_outcome r"
    by (auto simp: apply_router_receipt_def Let_def split: option.splits if_splits)
  have upd: "list_all P ((lp_routerReceipts p)[?i := x\<lparr>rt_operationComplete := True\<rparr>])"
    if "list_all P (lp_routerReceipts p)" "P (x\<lparr>rt_operationComplete := True\<rparr>)" for P
    using that set_update_subset_insert[of "lp_routerReceipts p" ?i "x\<lparr>rt_operationComplete := True\<rparr>"] by (auto simp: list_all_iff)
  have ex: "list_ex P ((lp_routerReceipts p)[?i := x\<lparr>rt_operationComplete := True\<rparr>])"
    if "list_ex P (lp_routerReceipts p)" "P x \<Longrightarrow> P (x\<lparr>rt_operationComplete := True\<rparr>)" for P
  proof -
    from that(1) obtain n where n: "n < length (lp_routerReceipts p)" "P (lp_routerReceipts p ! n)" by (auto simp: list_ex_iff in_set_conv_nth)
    with that(2) i have "P ((lp_routerReceipts p)[?i := x\<lparr>rt_operationComplete := True\<rparr>] ! n)" by (auto simp: nth_list_update)
    moreover have "(lp_routerReceipts p)[?i := x\<lparr>rt_operationComplete := True\<rparr>] ! n \<in> set ((lp_routerReceipts p)[?i := x\<lparr>rt_operationComplete := True\<rparr>])"
      by (rule nth_mem) (use n(1) in simp)
    ultimately show ?thesis unfolding list_ex_iff by blast
  qed
  have x_ok: "validText (rt_receiptId x) 1 300 \<and> finiteTimestamp (rt_observedAt x)"
    using assms(2) x(1) by (auto simp: valid_facts_unfold list_all_iff)
  have retained: "list_ex (\<lambda>y. rt_receiptId y = rt_receiptId (case lp_routerReceipt p of None \<Rightarrow> r | Some x \<Rightarrow> x)
      \<and> rt_outcome y = rt_outcome (case lp_routerReceipt p of None \<Rightarrow> r | Some x \<Rightarrow> x)) (lp_routerReceipts p)"
    using assms(2) x same by (auto simp: valid_facts_unfold list_ex_iff split: option.splits)
  show ?thesis
    using assms(2) upd[of "\<lambda>r. validText (rt_receiptId r) 1 300 \<and> finiteTimestamp (rt_observedAt r)"] x_ok ex[OF retained]
    unfolding q by (auto simp: valid_facts_unfold)
qed

lemma nat_str_head: "0 < n \<Longrightarrow> hd (nat_str n) \<noteq> CHR ''0''"
proof (induction n rule: nat_str.induct)
  case (1 n)
  show ?case
  proof (cases "n < 10")
    case True
    have "of_char (dec_digit n) \<noteq> (48::nat)" using True 1(2) by (simp add: dec_digit_value)
    moreover have "of_char CHR ''0'' = (48::nat)" by simp
    ultimately have "dec_digit n \<noteq> CHR ''0''" by metis
    with True show ?thesis by (simp add: nat_str.simps)
  next
    case False
    with 1(1) have "hd (nat_str (n div 10)) \<noteq> CHR ''0''" by simp
    with False show ?thesis by (subst nat_str.simps) simp
  qed
qed

lemma attempt_id_new [simp]: "attempt_id_pattern (CHR ''a'' # CHR ''c'' # CHR ''k'' # CHR '':'' # nat_str (Suc n))"
  by (simp add: attempt_id_pattern_def positive_numeral_def nat_str_digits nat_str_head)

lemma all_updated:
  assumes "list_all P xs" and "\<And>a. P a \<Longrightarrow> P (f a)"
  shows "list_all P (update_last test f xs)"
proof -
  have "list_all P (update_first test f ys)" if "list_all P ys" for ys
    using that assms(2) by (induction ys) auto
  with assms(1) show ?thesis by (simp add: update_last_def list_all_rev)
qed

lemma all_expired:
  assumes "list_all valid_attempt xs" and "finiteTimestamp now"
  shows "list_all valid_attempt (expire_attempts now xs)"
  using assms by (auto simp: expire_attempts_def list_all_iff in_set_update_where valid_attempt_def)

lemma valid_facts_attempts:
  "valid_facts p \<Longrightarrow> list_all valid_attempt as \<Longrightarrow> valid_facts (p\<lparr>lp_attempts := as\<rparr>)"
  by (auto simp: valid_facts_unfold)

lemma valid_facts_all: "valid_facts p \<Longrightarrow> list_all valid_attempt (lp_attempts p)"
  by (simp add: valid_facts_unfold)

lemma valid_row_step:
  assumes "row_step x p q" and "valid_facts p" and "times_ok x"
  shows "valid_facts q \<and> finiteTimestamp (lp_updatedAt q)"
  using assms
proof (induction rule: row_step.induct)
  case (row_router p k r q clock)
  then show ?case by (simp add: stamped_def times_ok_def valid_router)
next
  case (row_terminal p k i kind t q clock)
  then show ?case
    by (auto simp: stamped_def times_ok_def apply_terminal_def map_sum_Inr valid_applied_terminal split: option.splits if_splits)
next
  case (row_cancel p k t q clock)
  then show ?case by (auto simp: stamped_def times_ok_def apply_cancellation_def valid_set_terminal split: if_splits)
next
  case (row_authorize p k marker comment now q g)
  then show ?case using valid_facts_all[OF row_authorize.prems(1)]
    by (auto simp: apply_authorization_def Let_def times_ok_def valid_address_def valid_attempt_def intro!: valid_facts_attempts all_expired
        split: if_splits)
next
  case (row_failure p k i marker comment now q b)
  then show ?case using valid_facts_all[OF row_failure.prems(1)]
    by (auto simp: apply_ack_failure_def Let_def times_ok_def valid_attempt_def intro!: valid_facts_attempts all_updated
        split: if_splits)
next
  case (row_skip p k i marker comment reason now q b)
  then show ?case using valid_facts_all[OF row_skip.prems(1)]
    by (auto simp: apply_ack_skip_def Let_def times_ok_def valid_attempt_def intro!: valid_facts_attempts all_updated
        split: if_splits option.splits)
next
  case (row_claim p k g run attempt t clock)
  have "validFenceKey (pj_fenceKey k)" using row_claim by (auto simp: valid_facts_unfold valid_identity_def)
  with row_claim have "list_all valid_claim (lp_claims (claim_added k g run attempt t p))"
    by (auto simp: claim_added_def valid_claim_def times_ok_def valid_facts_unfold intro!: add_fact_all)
  with row_claim show ?case by (auto simp: stamped_def times_ok_def valid_facts_unfold claim_added_def)
next
  case (row_result p k g run attempt outcome t must clock)
  have "validFenceKey (pj_fenceKey k)" using row_result by (auto simp: valid_facts_unfold valid_identity_def)
  with row_result have "list_all valid_result (lp_reviewResults (result_added k g run attempt outcome t p))"
    by (auto simp: result_added_def valid_result_def times_ok_def valid_facts_unfold intro!: add_fact_all)
  with row_result show ?case by (auto simp: stamped_def times_ok_def valid_facts_unfold result_added_def)
next
  case (row_observe i p q)
  then show ?case
    by (auto simp: apply_observation_def times_ok_def valid_facts_unfold valid_observed_def valid_ack_receipt_def split: option.splits if_splits)
qed (auto simp: stamped_def times_ok_def apply_github_effect_def apply_canonical_receipt_def valid_facts_unfold valid_effect_def
    split: option.splits if_splits)

subsection \<open>Properties\<close>

text \<open>A row to apply the properties to: a command for an item that turns out to be closed.\<close>

definition sample_identity :: projection_identity where
  "sample_identity = \<lparr>pj_canonicalTargetKey = ''a/b#1'', pj_fenceKey = ''a/b#1'', pj_revision = 1\<rparr>"

definition sample_admission :: admission_input where
  "sample_admission = \<lparr>ai_identity = sample_identity, ai_producerLineage = None, ai_deliveryId = ''d1'', ai_sourceDeliveryId = None,
     ai_sourceAction = ''command'', ai_commandOriginated = True, ai_statusMarker = None, ai_statusCommentId = Some 7,
     ai_triggeredAt = None, ai_observedAt = 5\<rparr>"

definition sample_history :: "lifecycle_op list" where
  "sample_history = [AdmissionOp sample_admission, ClaimOp sample_identity 1 ''12'' None 6 6,
     TerminalOp sample_identity KindTargetClosed (Some ''t1'') 10 10]"

definition sample_grant :: "lifecycle_error + lifecycle_store \<times> ack_grant" where
  "sample_grant = authorizeCommandAcknowledgement sample_identity None (Some 7) 20 (lifecycle_run [] sample_history)"

lemma row_of_identity: "lifecycle_row st k = Some p \<Longrightarrow> lp_identity p = k"
  by (auto simp: lifecycle_row_def dest: find_SomeD)

lemma distinct_run: "distinct_rows st \<Longrightarrow> distinct_rows (lifecycle_run st xs)"
  by (rule lifecycles.inv_run)

lemma distinct_reachable [simp]: "distinct_rows (lifecycle_run [] xs)"
  by (rule lifecycles.inv_reachable)

lemma row_reachable:
  assumes "lifecycle_row (lifecycle_run [] ops) k = Some p"
    and "\<And>i. AdmissionOp i \<in> set ops \<Longrightarrow> admission_check i = None \<Longrightarrow> P (admitted_projection i)"
    and "\<And>x p q. x \<in> set ops \<Longrightarrow> readable p \<Longrightarrow> row_step x p q \<Longrightarrow> P p \<Longrightarrow> P q"
  shows "P p"
proof (rule row_invariant_from[where st = "[]" and ops = ops and k = k])
  show "lifecycle_row (lifecycle_run [] ops) k = Some p" by (rule assms(1))
qed (auto simp: distinct_rows_def lifecycle_row_def intro: assms(2,3))

lemma clean_reachable:
  assumes "lifecycle_row (lifecycle_run [] ops) k = Some p" and "\<forall>x\<in>set ops. \<not> uses_reserved x"
  shows "clean_row p"
  using assms(1) by (rule row_reachable) (use assms(2) clean_admitted clean_step in blast)+

text \<open>After an accepted terminal disposition the row has its operation.\<close>

lemma terminal_recorded:
  assumes "recordTerminalDispositionSync k kind (Some i) t clock st = Inr (st', r)"
  obtains q where "lifecycle_row st' k = Some q" "map_of (lp_terminalOperationIds q) i = Some kind" "valid_identity k" "validText i 1 300"
proof -
  from assms have ok: "valid_identity k" "validText i 1 300"
    and mut: "lifecycle_mutate k (write_unless_duplicate clock (apply_terminal kind (Some i) t)) st = Inr (st', r)"
    by (auto simp: recordTerminalDispositionSync_def split: if_splits)
  from mut obtain p where p: "lifecycle_row st k = Some p" "lp_identity p = k"
    and f: "(apply_terminal kind (Some i) t p = Inr None \<and> st' = st)
      \<or> (\<exists>q. apply_terminal kind (Some i) t p = Inr (Some q) \<and> st' = lifecycle_writeSync (stamped clock q) st)"
    by (auto simp: lifecycle_mutate_def lifecycle_readSync_def write_unless_duplicate_def split: sum.splits option.splits if_splits)
  from f show thesis
  proof (elim disjE exE conjE)
    assume "apply_terminal kind (Some i) t p = Inr None" "st' = st"
    with p ok show thesis by (intro that[of p]) (auto simp: apply_terminal_def map_sum_Inr split: option.splits if_splits)
  next
    fix q assume q: "apply_terminal kind (Some i) t p = Inr (Some q)" "st' = lifecycle_writeSync (stamped clock q) st"
    from q(1) obtain q' where "map_of (lp_terminalOperationIds p) i = None" "applyTerminalDisposition kind t p = Inr q'"
      "q = q'\<lparr>lp_terminalOperationIds := lp_terminalOperationIds q' @ [(i, kind)]\<rparr>"
      by (auto simp: apply_terminal_def map_sum_Inr split: option.splits if_splits)
    with applied_terminal_fields[of kind t p q'] p(2) q(2) ok show thesis
      by (intro that[of "stamped clock q"]) (auto simp: row_write stamped_def map_add_def)
  qed
qed

lemma terminal_answered:
  assumes "lifecycle_row st k = Some q" and "readable q" and "map_of (lp_terminalOperationIds q) i = Some kind"
    and "valid_identity k" and "validText i 1 300"
  shows "recordTerminalDispositionSync k kind' (Some i) t clock st = (if kind' = kind then Inr (st, q, True) else Inl ConflictingOperation)"
  using assms row_of_identity[OF assms(1)]
  by (simp add: recordTerminalDispositionSync_def lifecycle_mutate_def lifecycle_readSync_def write_unless_duplicate_def apply_terminal_def)

definition is_cancel :: "lifecycle_op \<Rightarrow> bool" where
  "is_cancel x \<longleftrightarrow> (case x of CancelOp k t clock \<Rightarrow> True | _ \<Rightarrow> False)"

text \<open>
  C19. No operation, accepted or refused, ever drops or rewrites a recorded fact: the row of an
  admitted revision stays, its claims, results, receipts, dispositions and operation identifiers
  only grow at the end, the GitHub effect, the retained router receipt and the observed
  acknowledgement are set at most once, and a closed acknowledgement attempt is final.
\<close>

theorem lifecycle_facts_append_only:
  assumes "lifecycle_row (lifecycle_run [] xs) k = Some p"
  shows "\<exists>q. lifecycle_row (lifecycle_run [] (xs @ ys)) k = Some q \<and> keeps_facts p q"
  using row_kept_run[OF distinct_reachable assms] by (simp add: run_ops_append)

theorem lifecycle_facts_append_only_witness:
  "\<exists>p q. lifecycle_row (lifecycle_run [] sample_history) sample_identity = Some p
     \<and> lifecycle_row (lifecycle_run [] (sample_history @ [CancelOp sample_identity 11 11])) sample_identity = Some q \<and> keeps_facts p q"
proof -
  have "lifecycle_row (lifecycle_run [] sample_history) sample_identity \<noteq> None" by code_simp
  then obtain p where p: "lifecycle_row (lifecycle_run [] sample_history) sample_identity = Some p" by blast
  with lifecycle_facts_append_only[OF p, of "[CancelOp sample_identity 11 11]"] show ?thesis by blast
qed

text \<open>
  Along every history a terminal disposition is replaced only through a requeue: two
  different final outcomes never follow each other, except for the explicit cancellation of a
  parked command closure, and the disposition that the row answers with is the newest one.
\<close>

theorem terminal_history_alternates:
  assumes "lifecycle_row (lifecycle_run [] ops) k = Some p"
  shows "terminal_history (list_ex is_cancel ops) p"
  using assms
proof (rule row_reachable)
  show "terminal_history (list_ex is_cancel ops) (admitted_projection i)" for i
    by (simp add: terminal_history_def admitted_projection_def)
  show "terminal_history (list_ex is_cancel ops) q"
    if "x \<in> set ops" "row_step x p q" "terminal_history (list_ex is_cancel ops) p" for x p q
    using that(2,3) by (rule terminal_history_step) (use that(1) in \<open>auto simp: list_ex_iff is_cancel_def intro: bexI[of _ x]\<close>)
qed

theorem terminal_history_alternates_witness:
  "\<exists>p. lifecycle_row (lifecycle_run [] sample_history) sample_identity = Some p \<and> terminal_history False p"
proof -
  have "lifecycle_row (lifecycle_run [] sample_history) sample_identity \<noteq> None" "\<not> list_ex is_cancel sample_history" by code_simp+
  with terminal_history_alternates[of sample_history sample_identity] show ?thesis by fastforce
qed

text \<open>
  C37. A terminal operation takes effect once: after it was accepted, whatever operations follow,
  sending it again is answered as a duplicate and changes nothing, and the same identifier with
  another outcome is refused. (No caller uses the identifier that is reserved for cancellations.)
\<close>

theorem terminal_operation_once:
  assumes "recordTerminalDispositionSync k kind (Some i) t clock (lifecycle_run [] xs) = Inr (st, r)"
    and "\<forall>x\<in>set (xs @ ys). \<not> uses_reserved x" and "i \<noteq> PARKED_COMMAND_CLOSURE_CANCEL_OPERATION"
  shows "\<exists>q. \<forall>kind' t' clock'. recordTerminalDispositionSync k kind' (Some i) t' clock' (lifecycle_run st ys)
      = (if kind' = kind then Inr (lifecycle_run st ys, q, True) else Inl ConflictingOperation)"
proof -
  let ?x = "TerminalOp k kind (Some i) t clock"
  from assms(1) have st: "lifecycle_run [] (xs @ [?x]) = st" by (simp add: run_ops_append kept_def)
  obtain q where q: "lifecycle_row st k = Some q" "map_of (lp_terminalOperationIds q) i = Some kind" and ok: "valid_identity k" "validText i 1 300"
    using terminal_recorded[OF assms(1)] by blast
  have "distinct_rows st" unfolding st[symmetric] by simp
  from row_kept_run[OF this q(1), of ys] obtain q' where q': "lifecycle_row (lifecycle_run st ys) k = Some q'" "keeps_facts q q'" by blast
  have run: "lifecycle_run st ys = lifecycle_run [] ((xs @ [?x]) @ ys)"
    by (simp only: run_ops_append[of lifecycle_step "[]" "xs @ [?x]" ys] st)
  have "readable q'"
    using clean_reachable[of "(xs @ [?x]) @ ys" k q'] q'(1) assms(2,3) unfolding run by (auto simp: uses_reserved_def clean_row_def)
  moreover have "map_of (lp_terminalOperationIds q') i = Some kind"
    using q'(2) q(2) by (auto simp: keeps_facts_def prefix_def map_add_def)
  ultimately show ?thesis using terminal_answered[OF q'(1) _ _ ok] by blast
qed

theorem terminal_operation_once_witness:
  "\<exists>st r. recordTerminalDispositionSync sample_identity KindTargetClosed (Some ''t1'') 10 10 (lifecycle_run [] (take 2 sample_history)) = Inr (st, r)
     \<and> recordTerminalDispositionSync sample_identity KindFailure (Some ''t1'') 12 12 (lifecycle_run st [CancelOp sample_identity 11 11])
         = Inl ConflictingOperation"
proof -
  let ?r = "recordTerminalDispositionSync sample_identity KindTargetClosed (Some ''t1'') 10 10 (lifecycle_run [] (take 2 sample_history))"
  have "\<not> isl ?r" by code_simp
  then obtain st r where r: "?r = Inr (st, r)" by (cases ?r) auto
  have "\<forall>x\<in>set (take 2 sample_history @ [CancelOp sample_identity 11 11]). \<not> uses_reserved x"
    "''t1'' \<noteq> PARKED_COMMAND_CLOSURE_CANCEL_OPERATION"
    by (simp_all add: sample_history_def uses_reserved_def PARKED_COMMAND_CLOSURE_CANCEL_OPERATION_def)
  from terminal_operation_once[OF r this] obtain q where "recordTerminalDispositionSync sample_identity KindFailure (Some ''t1'') 12 12
      (lifecycle_run st [CancelOp sample_identity 11 11]) = (if KindFailure = KindTargetClosed then Inr (lifecycle_run st
      [CancelOp sample_identity 11 11], q, True) else Inl ConflictingOperation)" by blast
  with r show ?thesis by simp
qed

text \<open>
  C18. The permission to acknowledge is exclusive: between two grants for the same revision lie at
  least five minutes, unless the holder of the first reported its failure, whatever else happens in between
  (clocks of the authorizations in between not being ahead of the second).
\<close>

theorem acknowledgement_lease_exclusive:
  assumes "authorizeCommandAcknowledgement k marker comment t1 (lifecycle_run [] xs) = Inr (st, g)" and "ag_attemptId g = Some i"
    and "\<forall>x\<in>set ys. authorized_by t2 x \<and> \<not> releases k i x"
    and "authorizeCommandAcknowledgement k marker' comment' t2 (lifecycle_run st ys) = Inr (st', g')" and "ag_allowed g'"
  shows "t1 + EXACT_REVIEW_ACKNOWLEDGEMENT_ATTEMPT_LEASE_MS \<le> t2"
proof -
  from assms(1,2) have "ag_allowed g"
    by (auto simp: authorizeCommandAcknowledgement_def lifecycle_mutate_def lifecycle_readSync_def apply_authorization_def ack_answer_def Let_def
        split: if_splits sum.splits option.splits)
  from granted_attempt[OF assms(1) this, of t2] assms(2) obtain n q
    where q: "lifecycle_row st k = Some q" "leased_attempt n (i, marker, comment, t1) t2 q" by (metis option.inject)
  have "lifecycle_run [] (xs @ [AuthorizeOp k marker comment t1]) = st"
    using assms(1) by (simp add: run_ops_append kept_def)
  then have d: "distinct_rows st" using distinct_reachable by metis
  obtain q' where q': "lifecycle_row (lifecycle_run st ys) k = Some q'" "leased_attempt n (i, marker, comment, t1) t2 q'"
    by (rule leased_run[OF d q]) (use assms(3) in simp)
  obtain p' r' where "lifecycle_row (lifecycle_run st ys) k = Some p'" "apply_authorization marker' comment' t2 p' = Inr (Some r', g')"
    using granted_attempt[OF assms(4,5), of t2] by metis
  with q' leased_not_granted[of marker' comment' t2 q'] assms(5) show ?thesis by force
qed

theorem acknowledgement_lease_exclusive_witness:
  "\<exists>st g st' g'. sample_grant = Inr (st, g) \<and> ag_attemptId g = Some ''ack:1''
     \<and> authorizeCommandAcknowledgement sample_identity None (Some 7) 300020
         (lifecycle_run st [AuthorizeOp sample_identity None (Some 7) 1000]) = Inr (st', g')
     \<and> ag_allowed g' \<and> 20 + EXACT_REVIEW_ACKNOWLEDGEMENT_ATTEMPT_LEASE_MS \<le> 300020"
proof -
  let ?ys = "[AuthorizeOp sample_identity None (Some 7) 1000]"
  have "case sample_grant of Inl e \<Rightarrow> False | Inr (st, g) \<Rightarrow> ag_attemptId g = Some ''ack:1''
      \<and> (case authorizeCommandAcknowledgement sample_identity None (Some 7) 300020 (lifecycle_run st ?ys) of
            Inl e \<Rightarrow> False | Inr (st', g') \<Rightarrow> ag_allowed g')" by code_simp
  then obtain st g st' g' where r: "sample_grant = Inr (st, g)" "ag_attemptId g = Some ''ack:1''"
      "authorizeCommandAcknowledgement sample_identity None (Some 7) 300020 (lifecycle_run st ?ys) = Inr (st', g')" "ag_allowed g'"
    by (auto split: sum.splits)
  have "\<forall>x\<in>set ?ys. authorized_by 300020 x \<and> \<not> releases sample_identity ''ack:1'' x" by code_simp
  from acknowledgement_lease_exclusive[OF r(1)[unfolded sample_grant_def] r(2) this r(3,4)] r show ?thesis by blast
qed

text \<open>
  A pending acknowledgement cannot get stuck: as soon as every open attempt is five minutes
  old, a request with the address of the admission is granted a new attempt.
\<close>

theorem acknowledgement_retried:
  assumes "lifecycle_read st k = Inr (Some p)" and "commandAcknowledgementState p = AckPending"
    and "valid_address (af_statusMarker (lp_admission p)) (af_statusCommentId (lp_admission p))"
    and "\<forall>a\<in>set (lp_attempts p). open_attempt a \<longrightarrow> at_attemptedAt a + EXACT_REVIEW_ACKNOWLEDGEMENT_ATTEMPT_LEASE_MS \<le> now"
  shows "\<exists>st' g. authorizeCommandAcknowledgement k (af_statusMarker (lp_admission p)) (af_statusCommentId (lp_admission p)) now st = Inr (st', g)
      \<and> ag_attemptId g = Some (''ack:'' @ nat_str (length (lp_attempts p) + 1))"
proof -
  have "\<not> list_ex open_attempt (expire_attempts now (lp_attempts p))"
    using assms(4) by (force simp: list_ex_iff expire_attempts_def update_where_def open_attempt_def split: if_splits)
  moreover from assms(1) have "valid_identity k" "lifecycle_row st k = Some p" "readable p"
    by (auto simp: lifecycle_read_def lifecycle_readSync_def split: if_splits option.splits)
  ultimately show ?thesis
    using assms(2,3) row_of_identity[of st k p]
    by (simp add: authorizeCommandAcknowledgement_def lifecycle_mutate_def lifecycle_readSync_def apply_authorization_def ack_answer_def Let_def)
qed

theorem acknowledgement_retried_witness:
  "\<exists>p st' g. lifecycle_read (lifecycle_run [] sample_history) sample_identity = Inr (Some p)
     \<and> authorizeCommandAcknowledgement sample_identity (af_statusMarker (lp_admission p)) (af_statusCommentId (lp_admission p)) 20
         (lifecycle_run [] sample_history) = Inr (st', g)
     \<and> ag_attemptId g = Some (''ack:'' @ nat_str (length (lp_attempts p) + 1))"
proof -
  have "case lifecycle_read (lifecycle_run [] sample_history) sample_identity of
      Inr (Some p) \<Rightarrow> commandAcknowledgementState p = AckPending
        \<and> valid_address (af_statusMarker (lp_admission p)) (af_statusCommentId (lp_admission p)) \<and> lp_attempts p = []
    | _ \<Rightarrow> False" by code_simp
  then obtain p where "lifecycle_read (lifecycle_run [] sample_history) sample_identity = Inr (Some p)"
      "commandAcknowledgementState p = AckPending"
      "valid_address (af_statusMarker (lp_admission p)) (af_statusCommentId (lp_admission p))" "lp_attempts p = []"
    by (auto split: sum.splits option.splits)
  with acknowledgement_retried[of "lifecycle_run [] sample_history" sample_identity p 20] show ?thesis by auto
qed

text \<open>
  C38. Whatever operations ran, with times that are valid dates, every stored row passes the test
  which the audit inventory applies to durable rows: one bad row would make the whole inventory unavailable.
\<close>

theorem reachable_rows_valid:
  assumes "\<forall>x\<in>set ops. times_ok x" and "lifecycle_row (lifecycle_run [] ops) k = Some p"
  shows "validDurableLifecycleBayProjection p"
  unfolding valid_facts_stamp using assms(2)
proof (rule row_reachable)
  show "valid_facts (admitted_projection i) \<and> finiteTimestamp (lp_updatedAt (admitted_projection i))"
    if "AdmissionOp i \<in> set ops" "admission_check i = None" for i
    using valid_admitted[OF that(2)] assms(1) that(1) by (auto simp: valid_facts_stamp)
  show "valid_facts q \<and> finiteTimestamp (lp_updatedAt q)"
    if "x \<in> set ops" "row_step x p q" "valid_facts p \<and> finiteTimestamp (lp_updatedAt p)" for x p q
    using valid_row_step[OF that(2)] that(3) assms(1) that(1) by blast
qed

theorem reachable_rows_valid_witness:
  "\<exists>p. lifecycle_row (lifecycle_run [] sample_history) sample_identity = Some p \<and> validDurableLifecycleBayProjection p"
proof -
  have "\<forall>x\<in>set sample_history. times_ok x" by code_simp
  moreover have "lifecycle_row (lifecycle_run [] sample_history) sample_identity \<noteq> None" by code_simp
  ultimately show ?thesis using reachable_rows_valid[of sample_history sample_identity] by blast
qed

text \<open>
  The identifier of a cancellation is not reserved: used by a caller for another outcome, it is
  appended a second time by a later cancellation, and the row can no longer be read.
\<close>

lemma reserved_operation_unreadable:
  "lifecycle_read (lifecycle_run [] [AdmissionOp sample_admission,
       TerminalOp sample_identity KindTargetClosed (Some PARKED_COMMAND_CLOSURE_CANCEL_OPERATION) 10 10,
       CancelOp sample_identity 11 11]) sample_identity = Inl InvalidRow"
  by code_simp

end
