(* ===== verification/Lifecycle_Audit.thy ===== *)
theory Lifecycle_Audit
  imports Lifecycle_Rows
begin

text \<open>
  The audit inventory of the lifecycle projections (\<open>dashboard/exact-review-lifecycle.ts\<close>): every row
  becomes a card, the sorted cards are stored as a snapshot with a short life, and a client reads it
  page by page. Times of the envelope are kept as numbers; \<open>collate\<close> is \<open>localeCompare\<close>, and the
  random identifier of a snapshot is an argument.
\<close>

subsection \<open>Cards\<close>

datatype bay_lane = LanePending | LaneAcknowledgementPending | LaneCompleted | LaneSuperseded | LaneRequeued | LaneTerminalAttention

definition durableLifecycleBayLane :: "lifecycle_state \<Rightarrow> bay_lane" where
  "durableLifecycleBayLane s =
     (case s of LcPending \<Rightarrow> LanePending | LcAcknowledgementPending \<Rightarrow> LaneAcknowledgementPending | LcCompleted \<Rightarrow> LaneCompleted
      | LcSuperseded \<Rightarrow> LaneSuperseded | LcRequeue \<Rightarrow> LaneRequeued | _ \<Rightarrow> LaneTerminalAttention)"

datatype terminal_label = LabelAcknowledgementSkipped | LabelKind terminal_kind

record bay_card =
  bc_repository :: string
  bc_number :: int
  bc_url :: string
  bc_revision :: int
  bc_state :: lifecycle_state
  bc_lane :: bay_lane
  bc_terminalLabel :: "terminal_label option"
  bc_terminalHistory :: "terminal_kind list"
  bc_currentRevision :: bool
  bc_claimCount :: nat
  bc_reviewResult :: "review_outcome option"
  bc_effectRecorded :: bool
  bc_canonicalReceipts :: "receipt_outcome list"
  bc_routerReceipt :: "router_outcome option"
  bc_acknowledgement :: ack_state
  bc_updatedAt :: string
  bc_ageMs :: int

text \<open>\<open>Array.from(new Set(xs))\<close>: the first occurrences.\<close>

definition js_unique :: "'a list \<Rightarrow> 'a list" where
  "js_unique xs = rev (remdups (rev xs))"

definition issue_url :: "string \<Rightarrow> string \<Rightarrow> string" where
  "issue_url repository number = ''https://github.com/'' @ repository @ ''/issues/'' @ number"

definition canonicalTarget :: "string \<Rightarrow> (string \<times> int \<times> string) option" where
  "canonicalTarget s =
     (if \<not> item_key_pattern s then None
      else let r = takeWhile (\<lambda>c. c \<noteq> CHR ''#'') s; n = tl (dropWhile (\<lambda>c. c \<noteq> CHR ''#'') s)
           in Some (r, int (dec_value n), issue_url r n))"

text \<open>The last of the latest results.\<close>

definition latest_result :: "result_fact list \<Rightarrow> result_fact option" where
  "latest_result rs = foldl (\<lambda>m r. case m of None \<Rightarrow> Some r | Some l \<Rightarrow> if rf_observedAt r \<ge> rf_observedAt l then Some r else m) None rs"

definition terminal_label_of :: "projection \<Rightarrow> terminal_label option" where
  "terminal_label_of p =
     (if lifecycleState p = LcAcknowledgementSkipped then Some LabelAcknowledgementSkipped
      else if durableLifecycleBayLane (lifecycleState p) = LaneTerminalAttention then map_option LabelKind (terminal_kind_of p) else None)"

definition durableLifecycleBayCard :: "projection \<Rightarrow> int \<Rightarrow> int option \<Rightarrow> projection option \<Rightarrow> bay_card option" where
  "durableLifecycleBayCard p now maxRev publication =
     (let result = (case publication of None \<Rightarrow> p | Some q \<Rightarrow> q);
          updatedAt = max (lp_updatedAt p) (lp_updatedAt result); state = lifecycleState result
      in case (canonicalTarget (pj_canonicalTargetKey (lp_identity p)), toISOString updatedAt) of
           (Some (repository, number, url), Some stamp) \<Rightarrow>
             Some \<lparr>bc_repository = repository, bc_number = number, bc_url = url, bc_revision = pj_revision (lp_identity p),
               bc_state = state, bc_lane = durableLifecycleBayLane state, bc_terminalLabel = terminal_label_of result,
               bc_terminalHistory = js_unique (map fst (lp_terminalDispositions result)),
               bc_currentRevision = (lp_producerLineage p = None \<and> maxRev = Some (pj_revision (lp_identity p))
                 \<and> state \<noteq> LcSuperseded \<and> state \<noteq> LcRequeue),
               bc_claimCount = length (lp_claims p), bc_reviewResult = map_option rf_outcome (latest_result (lp_reviewResults p)),
               bc_effectRecorded = (lp_githubEffect result \<noteq> None),
               bc_canonicalReceipts = js_unique (map cn_outcome (lp_canonicalReceipts result)),
               bc_routerReceipt = map_option rt_outcome (lp_routerReceipt result),
               bc_acknowledgement = commandAcknowledgementState result, bc_updatedAt = stamp, bc_ageMs = max 0 (now - updatedAt)\<rparr>
         | _ \<Rightarrow> None)"

definition current_fence :: "projection list \<Rightarrow> string option" where
  "current_fence ps =
     (let fences = map (\<lambda>p. pj_fenceKey (lp_identity p)) ps; canonical = pj_canonicalTargetKey (lp_identity (hd ps))
      in if canonical \<in> set fences then Some canonical else if length (remdups fences) = 1 then Some (hd fences) else None)"

definition current_revision :: "string option \<Rightarrow> projection list \<Rightarrow> int" where
  "current_revision fence ps =
     foldl (\<lambda>m p. if Some (pj_fenceKey (lp_identity p)) = fence then max m (pj_revision (lp_identity p)) else m) 0 ps"

definition latest_generation :: "projection \<Rightarrow> int" where
  "latest_generation p = foldl max 0 (map cl_claimGeneration (lp_claims p) @ map rf_claimGeneration (lp_reviewResults p))"

text \<open>The only publication that names the producer's revision and generation.\<close>

definition linked_publication :: "projection list \<Rightarrow> int \<Rightarrow> int \<Rightarrow> projection option" where
  "linked_publication ps revision generation =
     (case filter (\<lambda>q. case lp_producerLineage q of None \<Rightarrow> False
         | Some l \<Rightarrow> pl_revision l = revision \<and> pl_claimGeneration l = generation) ps of
        [q] \<Rightarrow> Some q | _ \<Rightarrow> None)"

definition resolves :: "projection \<Rightarrow> projection \<Rightarrow> bool" where
  "resolves q producer \<longleftrightarrow>
     (case lp_producerLineage q of None \<Rightarrow> False
      | Some l \<Rightarrow>
          lp_terminalDisposition producer = None \<and> pl_fenceKey l = pj_fenceKey (lp_identity producer)
          \<and> af_commandOriginated (lp_admission producer) = af_commandOriginated (lp_admission q)
          \<and> af_statusMarker (lp_admission producer) = af_statusMarker (lp_admission q)
          \<and> af_statusCommentId (lp_admission producer) = af_statusCommentId (lp_admission q)
          \<and> list_ex (\<lambda>r. rf_fenceKey r = pl_fenceKey l \<and> rf_claimGeneration r = pl_claimGeneration l \<and> rf_outcome r = ResultCompleted)
              (lp_reviewResults producer))"

definition target_cards :: "int \<Rightarrow> projection list \<Rightarrow> bay_card option list" where
  "target_cards now ps =
     (let fence = current_fence ps; newest = current_revision fence ps
      in map (\<lambda>producer.
           let publication = linked_publication ps (pj_revision (lp_identity producer)) (latest_generation producer)
           in durableLifecycleBayCard producer now
                (if Some (pj_fenceKey (lp_identity producer)) = fence then Some newest else None)
                (case publication of None \<Rightarrow> None | Some q \<Rightarrow> if resolves q producer then Some q else None)) ps)"

definition lifecycleJourneyCards :: "projection list \<Rightarrow> int \<Rightarrow> bay_card option list" where
  "lifecycleJourneyCards ps now =
     concat (map (\<lambda>t. target_cards now (filter (\<lambda>p. pj_canonicalTargetKey (lp_identity p) = t) ps))
       (js_unique (map (\<lambda>p. pj_canonicalTargetKey (lp_identity p)) ps)))"

subsection \<open>Snapshots\<close>

definition EXACT_REVIEW_LIFECYCLE_AUDIT_READ_LIMIT :: nat where "EXACT_REVIEW_LIFECYCLE_AUDIT_READ_LIMIT = 10000"
definition EXACT_REVIEW_LIFECYCLE_AUDIT_PAGE_MAX :: int where "EXACT_REVIEW_LIFECYCLE_AUDIT_PAGE_MAX = 100"
definition EXACT_REVIEW_LIFECYCLE_AUDIT_SNAPSHOT_TTL_MS :: int where "EXACT_REVIEW_LIFECYCLE_AUDIT_SNAPSHOT_TTL_MS = 5 * 60 * 1000"
definition EXACT_REVIEW_LIFECYCLE_AUDIT_SNAPSHOT_MAX_ACTIVE :: nat where "EXACT_REVIEW_LIFECYCLE_AUDIT_SNAPSHOT_MAX_ACTIVE = 4"

datatype unknown_reason = ReasonUnavailable | ReasonMalformed | ReasonMixed | ReasonStale | ReasonOverCap

record audit_snapshot =
  sn_id :: string
  sn_createdAt :: int
  sn_expiresAt :: int
  sn_totalRecords :: int

record audit_row =
  sr_snapshotId :: string
  sr_ordinal :: int
  sr_record :: bay_card

record audit_store =
  au_snapshots :: "audit_snapshot list"
  au_rows :: "audit_row list"

definition empty_audit_store :: audit_store where
  "empty_audit_store = \<lparr>au_snapshots = [], au_rows = []\<rparr>"

record audit_page =
  ap_snapshot :: audit_snapshot
  ap_limit :: int
  ap_nextCursor :: "string option"
  ap_records :: "bay_card list"

datatype audit_inventory = Unknown unknown_reason | Complete audit_page

definition validAuditPageLimit :: "int \<Rightarrow> bool" where
  "validAuditPageLimit n \<longleftrightarrow> safe_integer n \<and> 1 \<le> n \<and> n \<le> EXACT_REVIEW_LIFECYCLE_AUDIT_PAGE_MAX"

text \<open>\<open>/^[0-9a-f]{8}-(?:[0-9a-f]{4}-){3}[0-9a-f]{12}$/i\<close>\<close>

definition validAuditSnapshotId :: "string \<Rightarrow> bool" where
  "validAuditSnapshotId s \<longleftrightarrow>
     (let t = to_lower s
      in length s = 36 \<and> list_all (\<lambda>i. if i \<in> {8, 13, 18, 23} then t ! i = CHR ''-'' else is_lower_hex (t ! i)) [0..<36])"

definition encodeAuditCursor :: "string \<Rightarrow> int \<Rightarrow> string" where
  "encodeAuditCursor snapshotId offset = snapshotId @ ''.'' @ int_str offset"

definition parseDurableLifecycleAuditCursor :: "string \<Rightarrow> (string \<times> int) option" where
  "parseDurableLifecycleAuditCursor s =
     (let i = take 36 s; r = drop 36 s; n = tl r
      in if validAuditSnapshotId i \<and> r \<noteq> [] \<and> hd r = CHR ''.'' \<and> (n = ''0'' \<or> positive_numeral n)
            \<and> safe_integer (int (dec_value n))
         then Some (to_lower i, int (dec_value n)) else None)"

definition validAuditInventoryRecord :: "bay_card \<Rightarrow> bool" where
  "validAuditInventoryRecord c \<longleftrightarrow>
     repo_pattern (bc_repository c) \<and> positiveInteger (bc_number c) \<and> bc_url c = issue_url (bc_repository c) (int_str (bc_number c))
     \<and> positiveInteger (bc_revision c) \<and> date_parse (bc_updatedAt c) \<noteq> None \<and> 0 \<le> bc_ageMs c"

definition card_time :: "bay_card \<Rightarrow> int" where
  "card_time c = (case date_parse (bc_updatedAt c) of None \<Rightarrow> 0 | Some t \<Rightarrow> t)"

definition compareAuditInventoryRecords :: "(string \<Rightarrow> string \<Rightarrow> int) \<Rightarrow> bay_card \<Rightarrow> bay_card \<Rightarrow> int" where
  "compareAuditInventoryRecords collate a b =
     cmp_or (card_time b - card_time a)
       (cmp_or (collate (bc_repository a) (bc_repository b))
         (cmp_or (bc_number a - bc_number b) (bc_revision b - bc_revision a)))"

definition pruneExpiredAuditSnapshotsSync :: "int \<Rightarrow> audit_store \<Rightarrow> audit_store" where
  "pruneExpiredAuditSnapshotsSync now st = st
     \<lparr>au_rows := filter (\<lambda>r. \<not> list_ex (\<lambda>s. sn_id s = sr_snapshotId r \<and> sn_expiresAt s \<le> now) (au_snapshots st)) (au_rows st),
      au_snapshots := filter (\<lambda>s. \<not> sn_expiresAt s \<le> now - EXACT_REVIEW_LIFECYCLE_AUDIT_SNAPSHOT_TTL_MS) (au_snapshots st)\<rparr>"

definition snapshot_rows :: "string \<Rightarrow> int \<Rightarrow> audit_store \<Rightarrow> bay_card list" where
  "snapshot_rows snapshotId offset st =
     map sr_record (sort_key sr_ordinal (filter (\<lambda>r. sr_snapshotId r = snapshotId \<and> offset \<le> sr_ordinal r) (au_rows st)))"

definition auditInventoryPageSync :: "string \<Rightarrow> int \<Rightarrow> int \<Rightarrow> int \<Rightarrow> audit_store \<Rightarrow> audit_inventory" where
  "auditInventoryPageSync snapshotId offset pageLimit now st =
     (case find (\<lambda>s. sn_id s = snapshotId) (au_snapshots st) of
        None \<Rightarrow> Unknown ReasonUnavailable
      | Some s \<Rightarrow>
          if \<not> finiteTimestamp (sn_createdAt s) \<or> \<not> finiteTimestamp (sn_expiresAt s)
             \<or> sn_expiresAt s - sn_createdAt s \<noteq> EXACT_REVIEW_LIFECYCLE_AUDIT_SNAPSHOT_TTL_MS
             \<or> \<not> safe_integer (sn_totalRecords s) \<or> sn_totalRecords s < 0
             \<or> int EXACT_REVIEW_LIFECYCLE_AUDIT_READ_LIMIT < sn_totalRecords s \<or> sn_totalRecords s < offset
          then Unknown ReasonMixed
          else if sn_expiresAt s \<le> now then Unknown ReasonStale
          else let rows = take (nat pageLimit + 1) (snapshot_rows snapshotId offset st); records = take (nat pageLimit) rows
               in if \<not> list_all validAuditInventoryRecord records then Unknown ReasonMalformed
                  else if int (length records) \<noteq> min pageLimit (sn_totalRecords s - offset) then Unknown ReasonMixed
                  else Complete \<lparr>ap_snapshot = s, ap_limit = pageLimit,
                    ap_nextCursor = (if nat pageLimit < length rows then Some (encodeAuditCursor snapshotId (offset + int (length records))) else None),
                    ap_records = records\<rparr>)"

definition insert_snapshot :: "string \<Rightarrow> int \<Rightarrow> bay_card list \<Rightarrow> audit_store \<Rightarrow> audit_store" where
  "insert_snapshot snapshotId now records st = st
     \<lparr>au_snapshots := au_snapshots st @ [\<lparr>sn_id = snapshotId, sn_createdAt = now,
          sn_expiresAt = now + EXACT_REVIEW_LIFECYCLE_AUDIT_SNAPSHOT_TTL_MS, sn_totalRecords = int (length records)\<rparr>],
      au_rows := au_rows st @ map (\<lambda>(i, c). \<lparr>sr_snapshotId = snapshotId, sr_ordinal = int i, sr_record = c\<rparr>)
          (enumerate 0 records)\<rparr>"

definition audit_order :: "projection \<Rightarrow> projection \<Rightarrow> int" where
  "audit_order p q =
     (let a = lp_identity p; b = lp_identity q
      in cmp_or (lp_updatedAt q - lp_updatedAt p)
           (cmp_or (cmp_lin (pj_canonicalTargetKey a) (pj_canonicalTargetKey b))
             (cmp_or (cmp_lin (pj_fenceKey a) (pj_fenceKey b)) (pj_revision b - pj_revision a))))"

text \<open>
  A row that cannot be read gives \<open>malformed\<close>, and every other exception (a card without a target,
  a snapshot identifier that is taken) \<open>unavailable\<close>; both roll the transaction back.
\<close>

definition createAuditInventorySnapshot ::
  "(string \<Rightarrow> string \<Rightarrow> int) \<Rightarrow> int \<Rightarrow> int \<Rightarrow> string \<Rightarrow> lifecycle_store \<Rightarrow> audit_store \<Rightarrow> audit_store \<times> audit_inventory" where
  "createAuditInventorySnapshot collate pageLimit now snapshotId lc st0 =
     (if \<not> validAuditPageLimit pageLimit then (st0, Unknown ReasonMalformed)
      else let st = pruneExpiredAuditSnapshotsSync now st0;
               active = take (EXACT_REVIEW_LIFECYCLE_AUDIT_SNAPSHOT_MAX_ACTIVE + 1) (filter (\<lambda>s. now < sn_expiresAt s) (au_snapshots st));
               rows = take (EXACT_REVIEW_LIFECYCLE_AUDIT_READ_LIMIT + 1) (js_sort audit_order lc)
           in if EXACT_REVIEW_LIFECYCLE_AUDIT_SNAPSHOT_MAX_ACTIVE \<le> length active then (st, Unknown ReasonOverCap)
              else if EXACT_REVIEW_LIFECYCLE_AUDIT_READ_LIMIT < length rows then (st, Unknown ReasonOverCap)
              else if \<not> list_all readable rows then (st0, Unknown ReasonMalformed)
              else if \<not> list_all validDurableLifecycleBayProjection rows then (st, Unknown ReasonMixed)
              else case those (lifecycleJourneyCards rows now) of
                  None \<Rightarrow> (st0, Unknown ReasonUnavailable)
                | Some cards \<Rightarrow>
                    let st' = insert_snapshot snapshotId now (js_sort (compareAuditInventoryRecords collate) cards) st
                    in if list_ex (\<lambda>s. sn_id s = snapshotId) (au_snapshots st) \<or> list_ex (\<lambda>r. sr_snapshotId r = snapshotId) (au_rows st)
                       then (st0, Unknown ReasonUnavailable)
                       else case auditInventoryPageSync snapshotId 0 pageLimit now st' of
                           Unknown ReasonMalformed \<Rightarrow> (st0, Unknown ReasonMalformed)
                         | page \<Rightarrow> (st', page))"

definition readAuditInventoryPage :: "string \<times> int \<Rightarrow> int \<Rightarrow> int \<Rightarrow> audit_store \<Rightarrow> audit_inventory" where
  "readAuditInventoryPage cursor pageLimit now st =
     (if \<not> validAuditPageLimit pageLimit \<or> \<not> validAuditSnapshotId (fst cursor) \<or> \<not> safe_integer (snd cursor) \<or> snd cursor < 0
      then Unknown ReasonMalformed else auditInventoryPageSync (fst cursor) (snd cursor) pageLimit now st)"

subsection \<open>Decimal numerals\<close>

lemma dec_value_positive: "positive_numeral s \<Longrightarrow> 0 < dec_value s"
proof (cases s)
  case (Cons c t)
  assume "positive_numeral s"
  with Cons have "is_dec c" "c \<noteq> CHR ''0''" by (auto simp: positive_numeral_def)
  then have "0 < dec_char c" using dec_char_eq[of c "CHR ''0''"] by (simp add: dec_char_def is_dec_def)
  with Cons show ?thesis by (simp add: dec_value_Cons)
qed (simp add: positive_numeral_def)

lemma dec_digit_char: "is_dec c \<Longrightarrow> dec_digit (10 * n + ((of_char c :: nat) - 48)) = c"
proof -
  assume c: "is_dec c"
  obtain d where d: "(of_char c :: nat) = 48 + d" "d < 10"
    by (rule that[of "(of_char c :: nat) - 48"]) (use c in \<open>auto simp: is_dec_def\<close>)
  have "char_of (48 + d) = c" unfolding d(1)[symmetric] by simp
  with d show ?thesis by (simp add: dec_digit_def)
qed

lemma nat_str_dec_value: "positive_numeral s \<Longrightarrow> nat_str (dec_value s) = s"
proof (induction s rule: rev_induct)
  case (snoc c s)
  have c: "is_dec c" using snoc.prems by (simp add: positive_numeral_def)
  then have small: "(of_char c :: nat) - 48 < 10" by (auto simp: is_dec_def)
  show ?case
  proof (cases "s = []")
    case True
    with c small dec_digit_char[OF c, of 0] show ?thesis by (subst nat_str.simps) (simp add: dec_value_append dec_value_def)
  next
    case False
    with snoc.prems have s: "positive_numeral s" by (auto simp: positive_numeral_def)
    from snoc.IH[OF s] dec_value_positive[OF s] small dec_digit_char[OF c, of "dec_value s"] show ?thesis
      by (subst nat_str.simps) (simp add: dec_value_append)
  qed
qed (simp add: positive_numeral_def)

subsection \<open>Cards of valid rows\<close>

text \<open>The numbers of a row that a JSON card can carry: a safe item number, and a stamp with a four-digit year.\<close>

definition displayable :: "projection \<Rightarrow> bool" where
  "displayable p \<longleftrightarrow>
     safe_integer (int (dec_value (tl (dropWhile (\<lambda>c. c \<noteq> CHR ''#'') (pj_canonicalTargetKey (lp_identity p))))))
     \<and> 0 \<le> fst (civil_from_days (lp_updatedAt p div MS_PER_DAY)) \<and> fst (civil_from_days (lp_updatedAt p div MS_PER_DAY)) \<le> 9999"

lemma card_valid:
  assumes "durableLifecycleBayCard p now m publication = Some c"
    and "validDurableLifecycleBayProjection p" "displayable p"
    and "\<And>q. publication = Some q \<Longrightarrow> validDurableLifecycleBayProjection q \<and> displayable q"
  shows "validAuditInventoryRecord c"
proof -
  let ?k = "pj_canonicalTargetKey (lp_identity p)" and ?q = "case publication of None \<Rightarrow> p | Some q \<Rightarrow> q"
  let ?r = "takeWhile (\<lambda>c. c \<noteq> CHR ''#'') ?k" and ?n = "tl (dropWhile (\<lambda>c. c \<noteq> CHR ''#'') ?k)"
  let ?t = "max (lp_updatedAt p) (lp_updatedAt ?q)"
  have q: "validDurableLifecycleBayProjection ?q" "displayable ?q" using assms(2-4) by (auto split: option.splits)
  have id: "item_key_pattern ?k" "positiveInteger (pj_revision (lp_identity p))"
    using assms(2) by (auto simp: validDurableLifecycleBayProjection_def valid_identity_def validCanonicalTargetKey_def)
  then have n: "positive_numeral ?n" "repo_pattern ?r" by (simp_all add: item_key_pattern_def Let_def)
  have "date_parse_opt (toISOString ?t) = Some ?t"
    using assms(2,3) q by (intro iso_parse)
      (auto simp: max_def displayable_def validDurableLifecycleBayProjection_def finiteTimestamp_def)
  then obtain stamp where stamp: "toISOString ?t = Some stamp" "date_parse stamp = Some ?t"
    by (auto simp: date_parse_opt_def split: option.splits)
  have target: "canonicalTarget ?k = Some (?r, int (dec_value ?n), issue_url ?r ?n)"
    using id by (simp add: canonicalTarget_def Let_def)
  have "positiveInteger (int (dec_value ?n))"
    using dec_value_positive[OF n(1)] assms(3) by (simp add: positiveInteger_def displayable_def)
  moreover have "int_str (int (dec_value ?n)) = ?n" using nat_str_dec_value[OF n(1)] by (simp add: int_str_def)
  ultimately show ?thesis
    using assms(1) n(2) id(2) stamp
    by (auto simp: durableLifecycleBayCard_def Let_def target validAuditInventoryRecord_def)
qed

lemma target_card:
  assumes "x \<in> set (target_cards now ps)"
  obtains p m publication where "p \<in> set ps" "x = durableLifecycleBayCard p now m publication"
    "\<And>q. publication = Some q \<Longrightarrow> q \<in> set ps"
proof -
  from assms obtain p where p: "p \<in> set ps" and x: "x = durableLifecycleBayCard p now
      (if Some (pj_fenceKey (lp_identity p)) = current_fence ps then Some (current_revision (current_fence ps) ps) else None)
      (case linked_publication ps (pj_revision (lp_identity p)) (latest_generation p) of None \<Rightarrow> None
        | Some q \<Rightarrow> if resolves q p then Some q else None)"
    by (auto simp: target_cards_def Let_def)
  have "q \<in> set ps" if "linked_publication ps r g = Some q" for r g q
  proof -
    have "filter (\<lambda>q. case lp_producerLineage q of None \<Rightarrow> False
         | Some l \<Rightarrow> pl_revision l = r \<and> pl_claimGeneration l = g) ps = [q]"
      using that by (simp add: linked_publication_def split: list.splits)
    then show ?thesis by (metis filter_is_subset list.set_intros(1) subsetD)
  qed
  then show thesis by (intro that[OF p x]) (auto split: option.splits if_splits)
qed

lemma set_js_unique [simp]: "set (js_unique xs) = set xs"
  by (simp add: js_unique_def)

lemma journey_card:
  assumes "x \<in> set (lifecycleJourneyCards ps now)"
  obtains p m publication where "p \<in> set ps" "x = durableLifecycleBayCard p now m publication"
    "\<And>q. publication = Some q \<Longrightarrow> q \<in> set ps"
proof -
  from assms obtain t where "x \<in> set (target_cards now (filter (\<lambda>p. pj_canonicalTargetKey (lp_identity p) = t) ps))"
    by (auto simp: lifecycleJourneyCards_def)
  then obtain p m publication where "p \<in> set (filter (\<lambda>p. pj_canonicalTargetKey (lp_identity p) = t) ps)"
      "x = durableLifecycleBayCard p now m publication"
      "\<And>q. publication = Some q \<Longrightarrow> q \<in> set (filter (\<lambda>p. pj_canonicalTargetKey (lp_identity p) = t) ps)"
    by (rule target_card) blast
  then show thesis by (intro that[of p m publication]) auto
qed

lemma those_member: "those xs = Some ys \<Longrightarrow> y \<in> set ys \<Longrightarrow> Some y \<in> set xs"
  by (induction xs arbitrary: ys) (auto split: option.splits)

lemma journey_cards_valid:
  assumes "those (lifecycleJourneyCards ps now) = Some cards"
    and "\<forall>p\<in>set ps. validDurableLifecycleBayProjection p \<and> displayable p" and "c \<in> set cards"
  shows "validAuditInventoryRecord c"
proof -
  from those_member[OF assms(1,3)] obtain p m publication
    where "p \<in> set ps" "Some c = durableLifecycleBayCard p now m publication" "\<And>q. publication = Some q \<Longrightarrow> q \<in> set ps"
    by (rule journey_card) blast
  then show ?thesis using card_valid[of p now m publication c] assms(2) by auto
qed

subsection \<open>Pages of a stored snapshot\<close>

definition stored_rows :: "string \<Rightarrow> bay_card list \<Rightarrow> audit_row list" where
  "stored_rows i cards = map (\<lambda>(n, c). \<lparr>sr_snapshotId = i, sr_ordinal = int n, sr_record = c\<rparr>) (enumerate 0 cards)"

definition holds_snapshot :: "audit_snapshot \<Rightarrow> bay_card list \<Rightarrow> audit_store \<Rightarrow> bool" where
  "holds_snapshot s cards st \<longleftrightarrow>
     s \<in> set (au_snapshots st) \<and> (\<forall>x\<in>set (au_snapshots st). sn_id x = sn_id s \<longrightarrow> x = s)
     \<and> filter (\<lambda>r. sr_snapshotId r = sn_id s) (au_rows st) = stored_rows (sn_id s) cards"

definition sound_snapshot :: "audit_snapshot \<Rightarrow> bay_card list \<Rightarrow> bool" where
  "sound_snapshot s cards \<longleftrightarrow>
     finiteTimestamp (sn_createdAt s) \<and> finiteTimestamp (sn_expiresAt s)
     \<and> sn_expiresAt s - sn_createdAt s = EXACT_REVIEW_LIFECYCLE_AUDIT_SNAPSHOT_TTL_MS
     \<and> sn_totalRecords s = int (length cards) \<and> length cards \<le> EXACT_REVIEW_LIFECYCLE_AUDIT_READ_LIMIT
     \<and> list_all validAuditInventoryRecord cards"

lemma enumerate_from: "map snd (filter (\<lambda>(n, c). k \<le> n) (enumerate m xs)) = drop (k - m) xs"
proof (induction xs arbitrary: m)
  case (Cons x xs)
  have "map snd (filter (\<lambda>(n, c). k \<le> n) (enumerate (Suc m) xs)) = xs" if "k \<le> Suc m"
    using Cons.IH[of "Suc m"] that by simp
  with Cons.IH[of "Suc m"] show ?case by (cases "k \<le> m") (auto simp: Suc_diff_le not_le drop_Cons' Suc_leI)
qed simp

lemma sorted_stored: "sorted (map sr_ordinal (stored_rows i cards))"
proof -
  have "map sr_ordinal (stored_rows i cards) = map int [0..<length cards]"
    by (rule nth_equalityI) (simp_all add: stored_rows_def nth_enumerate_eq)
  then show ?thesis by (simp add: sorted_map sorted_wrt_upt)
qed

lemma stored_from:
  "map sr_record (filter (\<lambda>r. int k \<le> sr_ordinal r) (stored_rows i cards)) = drop k cards"
  using enumerate_from[of k 0 cards] by (simp add: stored_rows_def filter_map comp_def case_prod_beta')

lemma snapshot_page:
  assumes "holds_snapshot s cards st"
  shows "snapshot_rows (sn_id s) (int k) st = drop k cards"
proof -
  have "filter (\<lambda>r. sr_snapshotId r = sn_id s \<and> int k \<le> sr_ordinal r) (au_rows st)
      = filter (\<lambda>r. int k \<le> sr_ordinal r) (stored_rows (sn_id s) cards)"
    using assms unfolding holds_snapshot_def by (metis (no_types, lifting) filter_cong filter_filter)
  moreover have "sort_key sr_ordinal (filter (\<lambda>r. int k \<le> sr_ordinal r) (stored_rows (sn_id s) cards))
      = filter (\<lambda>r. int k \<le> sr_ordinal r) (stored_rows (sn_id s) cards)"
    by (intro sort_key_id_if_sorted sorted_filter sorted_stored)
  ultimately show ?thesis by (simp add: snapshot_rows_def stored_from)
qed

lemma audit_page:
  assumes "holds_snapshot s cards st" and "sound_snapshot s cards" and "k \<le> length cards" and "now < sn_expiresAt s"
    and "0 < n"
  shows "auditInventoryPageSync (sn_id s) (int k) (int n) now st = Complete \<lparr>ap_snapshot = s, ap_limit = int n,
    ap_nextCursor = (if k + n < length cards then Some (encodeAuditCursor (sn_id s) (int (k + n))) else None),
    ap_records = take n (drop k cards)\<rparr>"
proof -
  have found: "find (\<lambda>x. sn_id x = sn_id s) (au_snapshots st) = Some s"
    using assms(1) by (intro find_unique) (auto simp: holds_snapshot_def)
  have ok: "list_all validAuditInventoryRecord (take n (drop k cards))"
    using assms(2) by (auto simp: sound_snapshot_def list_all_iff dest!: in_set_takeD in_set_dropD)
  have len: "int (length (take n (drop k cards))) = min (int n) (sn_totalRecords s - int k)"
    using assms(2,3) by (auto simp: sound_snapshot_def min_def)
  have rows: "take n (take (nat (int n) + 1) (drop k cards)) = take n (drop k cards)" by simp
  have more: "n < length (take (nat (int n) + 1) (drop k cards)) \<longleftrightarrow> k + n < length cards" by auto
  have "sn_totalRecords s \<le> int EXACT_REVIEW_LIFECYCLE_AUDIT_READ_LIMIT" "0 \<le> sn_totalRecords s" "int k \<le> sn_totalRecords s"
    "safe_integer (sn_totalRecords s)"
    using assms(2,3) by (auto simp: sound_snapshot_def EXACT_REVIEW_LIFECYCLE_AUDIT_READ_LIMIT_def safe_integer_def MAX_SAFE_INTEGER_def)
  with found ok len assms(2,4) show ?thesis
    by (auto simp: auditInventoryPageSync_def snapshot_page[OF assms(1)] Let_def rows more sound_snapshot_def min_def)
qed

subsection \<open>Cursors\<close>

lemma positive_nat_str: "0 < n \<Longrightarrow> positive_numeral (nat_str n)"
  by (simp add: positive_numeral_def nat_str_digits nat_str_head)

lemma zero_numeral: "nat_str 0 = ''0''"
  by (subst nat_str.simps) (simp add: dec_digit_def, code_simp)

lemma cursor_roundtrip:
  assumes "validAuditSnapshotId i" and "safe_integer (int n)"
  shows "parseDurableLifecycleAuditCursor (encodeAuditCursor i (int n)) = Some (to_lower i, int n)"
proof -
  have "length i = 36" using assms(1) by (simp add: validAuditSnapshotId_def Let_def)
  then have "take 36 (encodeAuditCursor i (int n)) = i" "drop 36 (encodeAuditCursor i (int n)) = ''.'' @ nat_str n"
    by (simp_all add: encodeAuditCursor_def int_str_def)
  moreover have "nat_str n = ''0'' \<or> positive_numeral (nat_str n)" using positive_nat_str[of n] zero_numeral by (cases n) auto
  ultimately show ?thesis using assms by (simp add: parseDurableLifecycleAuditCursor_def Let_def)
qed

subsection \<open>Reading a snapshot to its end\<close>

fun read_pages :: "nat \<Rightarrow> int \<Rightarrow> int \<Rightarrow> audit_store \<Rightarrow> audit_inventory \<Rightarrow> bay_card list option" where
  "read_pages fuel pageLimit t st (Unknown r) = None"
| "read_pages 0 pageLimit t st (Complete p) = (if ap_nextCursor p = None then Some (ap_records p) else None)"
| "read_pages (Suc fuel) pageLimit t st (Complete p) =
     (case ap_nextCursor p of
        None \<Rightarrow> Some (ap_records p)
      | Some c \<Rightarrow>
          (case parseDurableLifecycleAuditCursor c of
             None \<Rightarrow> None
           | Some cursor \<Rightarrow>
               map_option (\<lambda>rs. ap_records p @ rs)
                 (read_pages fuel pageLimit t st (readAuditInventoryPage cursor pageLimit t st))))"

lemma read_pages_from:
  assumes "holds_snapshot s cards st" and "sound_snapshot s cards" and "t < sn_expiresAt s"
    and "validAuditSnapshotId (sn_id s)" and "to_lower (sn_id s) = sn_id s" and "validAuditPageLimit (int n)"
    and "k \<le> length cards" and "length cards - k \<le> fuel * n" and "t' < sn_expiresAt s"
  shows "read_pages fuel (int n) t st (auditInventoryPageSync (sn_id s) (int k) (int n) t' st) = Some (drop k cards)"
proof -
  have n: "0 < n" using assms(6) by (simp add: validAuditPageLimit_def)
  from assms(7-9) show ?thesis
  proof (induction fuel arbitrary: k t')
    case 0
    then show ?case using audit_page[OF assms(1,2) 0(1) 0(3) n] by simp
  next
    case (Suc fuel)
    note page = audit_page[OF assms(1,2) Suc.prems(1,3) n]
    show ?case
    proof (cases "k + n < length cards")
      case True
      have "safe_integer (int (k + n))"
        using True assms(2) by (simp add: sound_snapshot_def EXACT_REVIEW_LIFECYCLE_AUDIT_READ_LIMIT_def safe_integer_def MAX_SAFE_INTEGER_def)
      moreover from this assms(4-6) have "readAuditInventoryPage (sn_id s, int (k + n)) (int n) t st
          = auditInventoryPageSync (sn_id s) (int (k + n)) (int n) t st"
        by (simp add: readAuditInventoryPage_def)
      moreover have "length cards - (k + n) \<le> fuel * n" using Suc.prems(2) by simp
      moreover have "take n (drop k cards) @ drop (k + n) cards = drop k cards"
        by (metis add.commute append_take_drop_id drop_drop)
      ultimately show ?thesis
        using True cursor_roundtrip[OF assms(4), of "k + n"] Suc.IH[of "k + n" t] assms(3,5) by (simp add: page)
    next
      case False
      then show ?thesis by (simp add: page)
    qed
  qed
qed

subsection \<open>Other snapshots\<close>

lemma filter_none: "(\<And>x. x \<in> set xs \<Longrightarrow> \<not> P x) \<Longrightarrow> filter P xs = []"
  by (induction xs) auto

lemma holds_pruned:
  assumes "holds_snapshot s cards st" and "now < sn_expiresAt s"
  shows "holds_snapshot s cards (pruneExpiredAuditSnapshotsSync now st)"
proof -
  have rows: "au_rows (pruneExpiredAuditSnapshotsSync now st)
      = filter (\<lambda>r. \<not> list_ex (\<lambda>s. sn_id s = sr_snapshotId r \<and> sn_expiresAt s \<le> now) (au_snapshots st)) (au_rows st)"
    by (simp add: pruneExpiredAuditSnapshotsSync_def)
  have kept: "\<not> list_ex (\<lambda>x. sn_id x = sr_snapshotId r \<and> sn_expiresAt x \<le> now) (au_snapshots st)" if "sr_snapshotId r = sn_id s" for r
    using assms that unfolding holds_snapshot_def list_ex_iff by (metis not_le)
  have "filter (\<lambda>r. sr_snapshotId r = sn_id s) (au_rows (pruneExpiredAuditSnapshotsSync now st))
      = filter (\<lambda>r. sr_snapshotId r = sn_id s) (au_rows st)"
    unfolding rows filter_filter by (rule filter_cong[OF refl]) (use kept in blast)
  moreover have "s \<in> set (au_snapshots (pruneExpiredAuditSnapshotsSync now st))"
    using assms by (auto simp: pruneExpiredAuditSnapshotsSync_def holds_snapshot_def EXACT_REVIEW_LIFECYCLE_AUDIT_SNAPSHOT_TTL_MS_def)
  ultimately show ?thesis using assms(1) by (auto simp: holds_snapshot_def pruneExpiredAuditSnapshotsSync_def)
qed

lemma holds_inserted:
  assumes "holds_snapshot s cards st" and "sn_id s \<noteq> i"
  shows "holds_snapshot s cards (insert_snapshot i now records st)"
proof -
  have "filter (\<lambda>r. sr_snapshotId r = sn_id s)
      (map (\<lambda>(n, c). \<lparr>sr_snapshotId = i, sr_ordinal = int n, sr_record = c\<rparr>) (enumerate 0 records)) = []"
    using assms(2) by (intro filter_none) auto
  with assms show ?thesis by (auto simp: holds_snapshot_def insert_snapshot_def)
qed

lemma created_store:
  assumes "createAuditInventorySnapshot collate n now i lc st = (st', page)"
  obtains "st' = st" | "st' = pruneExpiredAuditSnapshotsSync now st"
    | records where "st' = insert_snapshot i now records (pruneExpiredAuditSnapshotsSync now st)"
        "\<not> list_ex (\<lambda>s. sn_id s = i) (au_snapshots (pruneExpiredAuditSnapshotsSync now st))"
  using assms unfolding createAuditInventorySnapshot_def Let_def
  by (auto split: if_splits option.splits audit_inventory.splits unknown_reason.splits)

lemma holds_created:
  assumes "holds_snapshot s cards st" and "now < sn_expiresAt s"
  shows "holds_snapshot s cards (fst (createAuditInventorySnapshot collate n now i lc st))"
proof -
  note pruned = holds_pruned[OF assms]
  obtain st' page where created: "createAuditInventorySnapshot collate n now i lc st = (st', page)" by fastforce
  then show ?thesis
  proof (rule created_store)
    fix records
    assume "st' = insert_snapshot i now records (pruneExpiredAuditSnapshotsSync now st)"
      "\<not> list_ex (\<lambda>s. sn_id s = i) (au_snapshots (pruneExpiredAuditSnapshotsSync now st))"
    moreover from this(2) pruned have "sn_id s \<noteq> i" by (auto simp: list_ex_iff holds_snapshot_def)
    ultimately show ?thesis using pruned created by (simp add: holds_inserted)
  qed (use assms pruned created in simp_all)
qed

text \<open>The snapshots that other clients create: page limit, clock, identifier and the rows at that time.\<close>

type_synonym audit_creation = "int \<times> int \<times> string \<times> lifecycle_store"

definition create_snapshots :: "(string \<Rightarrow> string \<Rightarrow> int) \<Rightarrow> audit_creation list \<Rightarrow> audit_store \<Rightarrow> audit_store" where
  "create_snapshots collate xs st = foldl (\<lambda>st (n, now, i, lc). fst (createAuditInventorySnapshot collate n now i lc st)) st xs"

lemma holds_creations:
  "holds_snapshot s cards st \<Longrightarrow> \<forall>(n, now, i, lc)\<in>set xs. now < sn_expiresAt s \<Longrightarrow> holds_snapshot s cards (create_snapshots collate xs st)"
  by (induction xs arbitrary: st) (auto simp: create_snapshots_def holds_created)

text \<open>What the creation of a snapshot that was answered with a page has stored.\<close>

lemma created_snapshot:
  assumes "createAuditInventorySnapshot collate n now i lc st = (st', Complete page)"
  obtains cards s where "those (lifecycleJourneyCards (js_sort audit_order lc) now) = Some cards"
    "\<forall>p\<in>set lc. validDurableLifecycleBayProjection p" "validAuditPageLimit n"
    "sn_id s = i" "sn_expiresAt s = now + EXACT_REVIEW_LIFECYCLE_AUDIT_SNAPSHOT_TTL_MS"
    "sn_totalRecords s = int (length cards)"
    "holds_snapshot s (js_sort (compareAuditInventoryRecords collate) cards) st'"
    "auditInventoryPageSync i 0 n now st' = Complete page"
proof -
  let ?st = "pruneExpiredAuditSnapshotsSync now st"
  let ?rows = "take (EXACT_REVIEW_LIFECYCLE_AUDIT_READ_LIMIT + 1) (js_sort audit_order lc)"
  from assms have limit: "validAuditPageLimit n" and small: "\<not> EXACT_REVIEW_LIFECYCLE_AUDIT_READ_LIMIT < length ?rows"
    and valid: "list_all validDurableLifecycleBayProjection ?rows"
    by (auto simp: createAuditInventorySnapshot_def Let_def split: if_splits)
  have all: "?rows = js_sort audit_order lc" using small by (simp add: min_def split: if_splits)
  from assms obtain cards where cards: "those (lifecycleJourneyCards ?rows now) = Some cards"
      "\<not> list_ex (\<lambda>s. sn_id s = i) (au_snapshots ?st)" "\<not> list_ex (\<lambda>r. sr_snapshotId r = i) (au_rows ?st)"
      "st' = insert_snapshot i now (js_sort (compareAuditInventoryRecords collate) cards) ?st"
      "auditInventoryPageSync i 0 n now st' = Complete page"
    by (auto simp: createAuditInventorySnapshot_def Let_def split: if_splits option.splits audit_inventory.splits unknown_reason.splits)
  let ?s = "\<lparr>sn_id = i, sn_createdAt = now, sn_expiresAt = now + EXACT_REVIEW_LIFECYCLE_AUDIT_SNAPSHOT_TTL_MS,
      sn_totalRecords = int (length cards)\<rparr>"
  have "filter (\<lambda>r. sr_snapshotId r = i) (au_rows ?st) = []" using cards(3) by (intro filter_none) (auto simp: list_ex_iff)
  moreover have "filter (\<lambda>r. sr_snapshotId r = i) (stored_rows i xs) = stored_rows i xs" for xs
    by (rule filter_True) (auto simp: stored_rows_def)
  ultimately have "holds_snapshot ?s (js_sort (compareAuditInventoryRecords collate) cards) st'"
    using cards(2,4) by (auto simp: holds_snapshot_def insert_snapshot_def list_ex_iff stored_rows_def)
  with cards valid limit show thesis unfolding all by (intro that[of cards ?s]) (auto simp: list_all_iff)
qed

lemma page_snapshot:
  assumes "holds_snapshot s cards st" and "auditInventoryPageSync (sn_id s) k n now st = Complete page"
    and "sn_totalRecords s = int (length cards)" and "list_all validAuditInventoryRecord cards"
  shows "sound_snapshot s cards" and "now < sn_expiresAt s"
proof -
  have "find (\<lambda>x. sn_id x = sn_id s) (au_snapshots st) = Some s"
    using assms(1) by (intro find_unique) (auto simp: holds_snapshot_def)
  with assms show "sound_snapshot s cards" "now < sn_expiresAt s"
    by (auto simp: auditInventoryPageSync_def sound_snapshot_def Let_def split: if_splits)
qed

text \<open>
  C20. An audit is complete and consistent: whoever follows the cursors of a new snapshot to the end
  before it expires gets exactly the cards of all rows that were stored at its creation, in the
  order of the audit, whatever snapshots others create in between.
\<close>

theorem audit_pages_complete:
  assumes "createAuditInventorySnapshot collate pageLimit now i lc st = (st', Complete page)"
    and "validAuditSnapshotId i" and "to_lower i = i" and "\<forall>p\<in>set lc. displayable p"
    and "\<forall>(n, time, j, rows)\<in>set others. time < now + EXACT_REVIEW_LIFECYCLE_AUDIT_SNAPSHOT_TTL_MS"
    and "t < now + EXACT_REVIEW_LIFECYCLE_AUDIT_SNAPSHOT_TTL_MS"
  shows "\<exists>cards. those (lifecycleJourneyCards (js_sort audit_order lc) now) = Some cards
    \<and> read_pages (length cards) pageLimit t (create_snapshots collate others st') (Complete page)
        = Some (js_sort (compareAuditInventoryRecords collate) cards)"
proof -
  from created_snapshot[OF assms(1)] obtain cards s
    where cards: "those (lifecycleJourneyCards (js_sort audit_order lc) now) = Some cards"
      "\<forall>p\<in>set lc. validDurableLifecycleBayProjection p" "validAuditPageLimit pageLimit"
    and s: "sn_id s = i" "sn_expiresAt s = now + EXACT_REVIEW_LIFECYCLE_AUDIT_SNAPSHOT_TTL_MS" "sn_totalRecords s = int (length cards)"
      "holds_snapshot s (js_sort (compareAuditInventoryRecords collate) cards) st'" "auditInventoryPageSync i 0 pageLimit now st' = Complete page"
    by blast
  let ?cs = "js_sort (compareAuditInventoryRecords collate) cards" and ?st = "create_snapshots collate others st'"
  have "list_all validAuditInventoryRecord ?cs"
    using journey_cards_valid[OF cards(1)] cards(2) assms(4) by (auto simp: list_all_iff)
  note sound = page_snapshot[OF s(4) s(5)[folded s(1)] _ this]
  have snd: "sound_snapshot s ?cs" "now < sn_expiresAt s" using sound s(3) by simp_all
  have held: "holds_snapshot s ?cs ?st" using assms(5) s(2) by (intro holds_creations s(4)) auto
  obtain n where n: "pageLimit = int n" "0 < n"
    using cards(3) by (metis validAuditPageLimit_def zero_less_imp_eq_int zless_add1_eq int_one_le_iff_zero_less)
  have "auditInventoryPageSync i 0 pageLimit now ?st = Complete page"
    using audit_page[OF held snd(1) _ snd(2) n(2), of 0] audit_page[OF s(4) snd(1) _ snd(2) n(2), of 0] s(1,5) n(1) by simp
  moreover have "length ?cs - 0 \<le> length cards * n" using n(2) by simp
  ultimately have "read_pages (length cards) pageLimit t ?st (Complete page) = Some ?cs"
    using read_pages_from[OF held snd(1) _ _ _ _ le0 _ snd(2), of t n "length cards"] assms(2,3,6) s(1,2) cards(3) n(1) by simp
  with cards(1) show ?thesis by blast
qed

definition sample_audit_id :: string where
  "sample_audit_id = ''00000000-0000-4000-8000-000000000001''"

definition sample_lifecycle :: lifecycle_store where
  "sample_lifecycle = [admitted_projection sample_admission,
     admitted_projection (sample_admission\<lparr>ai_identity := sample_identity\<lparr>pj_revision := 2\<rparr>\<rparr>)]"

text \<open>Two revisions of one item, read in pages of one card.\<close>

theorem audit_pages_complete_witness:
  "\<exists>st page cards. createAuditInventorySnapshot cmp_lin 1 50 sample_audit_id sample_lifecycle empty_audit_store = (st, Complete page)
     \<and> read_pages (length cards) 1 60 st (Complete page) = Some (js_sort (compareAuditInventoryRecords cmp_lin) cards)"
proof -
  let ?r = "createAuditInventorySnapshot cmp_lin 1 50 sample_audit_id sample_lifecycle empty_audit_store"
  have "case snd ?r of Unknown r \<Rightarrow> False | Complete p \<Rightarrow> True" by code_simp
  then obtain st page where r: "?r = (st, Complete page)" by (cases ?r) (auto split: audit_inventory.splits)
  have "validAuditSnapshotId sample_audit_id" "to_lower sample_audit_id = sample_audit_id" "\<forall>p\<in>set sample_lifecycle. displayable p"
    by code_simp+
  from audit_pages_complete[OF r this, of "[]" 60] r show ?thesis
    by (auto simp: create_snapshots_def EXACT_REVIEW_LIFECYCLE_AUDIT_SNAPSHOT_TTL_MS_def)
qed

end
