(* ===== verification/Close_Policy.thy ===== *)
theory Close_Policy
  imports Decision_Parser
begin

text \<open>
  What the sweeper may close (\<open>clawsweeper-close-decision.ts\<close> and the policy tables it reads): the
  protected and exempt labels, the close rules of a repository, the size limit of pull requests,
  and the validation that a reviewed decision has to pass before anything is closed. Labels that
  carry an emoji are written in UTF-8. A thrown error is \<open>None\<close>.
\<close>

subsection \<open>Reasons\<close>

datatype close_reason =
    ImplementedOnMain | MostlyImplementedOnMain | CannotReproduce | Clawhub | DuplicateOrSuperseded | LowSignalUnmergeablePr
  | OversizedPullRequestReason | StalledUnprovenPr | AbandonedPr | UnconfirmedProductDirection | UnsponsoredFeatureRequest
  | AuthorPrBudgetExceeded | StaleVersionBug | ObsoleteFixPr | NotActionableInRepo | Incoherent | StaleInsufficientInfo
  | NoCloseReason

fun reason_text :: "close_reason \<Rightarrow> string" where
  "reason_text ImplementedOnMain = ''implemented_on_main''"
| "reason_text MostlyImplementedOnMain = ''mostly_implemented_on_main''"
| "reason_text CannotReproduce = ''cannot_reproduce''"
| "reason_text Clawhub = ''clawhub''"
| "reason_text DuplicateOrSuperseded = ''duplicate_or_superseded''"
| "reason_text LowSignalUnmergeablePr = ''low_signal_unmergeable_pr''"
| "reason_text OversizedPullRequestReason = ''oversized_pull_request''"
| "reason_text StalledUnprovenPr = ''stalled_unproven_pr''"
| "reason_text AbandonedPr = ''abandoned_pr''"
| "reason_text UnconfirmedProductDirection = ''unconfirmed_product_direction''"
| "reason_text UnsponsoredFeatureRequest = ''unsponsored_feature_request''"
| "reason_text AuthorPrBudgetExceeded = ''author_pr_budget_exceeded''"
| "reason_text StaleVersionBug = ''stale_version_bug''"
| "reason_text ObsoleteFixPr = ''obsolete_fix_pr''"
| "reason_text NotActionableInRepo = ''not_actionable_in_repo''"
| "reason_text Incoherent = ''incoherent''"
| "reason_text StaleInsufficientInfo = ''stale_insufficient_info''"
| "reason_text NoCloseReason = ''none''"

definition ALLOWED_REASONS :: "close_reason list" where
  "ALLOWED_REASONS = [ImplementedOnMain, MostlyImplementedOnMain, CannotReproduce, Clawhub, DuplicateOrSuperseded,
     LowSignalUnmergeablePr, OversizedPullRequestReason, StalledUnprovenPr, AbandonedPr, UnconfirmedProductDirection,
     UnsponsoredFeatureRequest, AuthorPrBudgetExceeded, StaleVersionBug, ObsoleteFixPr, NotActionableInRepo, Incoherent,
     StaleInsufficientInfo]"

definition ALL_CLOSE_REASONS :: "close_reason list" where
  "ALL_CLOSE_REASONS = ALLOWED_REASONS @ [NoCloseReason]"

definition requiresMaintainerProductClose :: "close_reason \<Rightarrow> bool" where
  "requiresMaintainerProductClose r \<longleftrightarrow>
     r \<in> {UnconfirmedProductDirection, UnsponsoredFeatureRequest, Clawhub, NotActionableInRepo}"

definition isVerifiedFixedCloseReason :: "close_reason \<Rightarrow> bool" where
  "isVerifiedFixedCloseReason r \<longleftrightarrow> r = ImplementedOnMain"

definition isImplementationCloseReason :: "close_reason \<Rightarrow> bool" where
  "isImplementationCloseReason r \<longleftrightarrow> r = ImplementedOnMain \<or> r = MostlyImplementedOnMain"

definition closeReasonItemKindError :: "close_reason \<Rightarrow> decision_kind \<Rightarrow> string option" where
  "closeReasonItemKindError r k =
     (if r \<in> {MostlyImplementedOnMain, LowSignalUnmergeablePr, OversizedPullRequestReason, StalledUnprovenPr, AbandonedPr,
              UnconfirmedProductDirection, AuthorPrBudgetExceeded, ObsoleteFixPr}
      then (if k = PullItem then None else Some (reason_text r @ '' is allowed only for pull requests''))
      else if r \<in> {UnsponsoredFeatureRequest, StaleVersionBug, StaleInsufficientInfo}
      then (if k = IssueItem then None else Some (reason_text r @ '' is allowed only for issues''))
      else None)"

subsection \<open>Labels\<close>

definition ACCEPTED_LARGE_LABEL :: string where "ACCEPTED_LARGE_LABEL = ''size: accepted-large''"
definition HUMAN_REVIEW_LABEL :: string where "HUMAN_REVIEW_LABEL = ''clawsweeper:human-review''"
definition MANUAL_ONLY_LABEL :: string where "MANUAL_ONLY_LABEL = ''clawsweeper:manual-only''"
definition AUTOMERGE_LABEL :: string where "AUTOMERGE_LABEL = ''clawsweeper:automerge''"
definition AUTOFIX_LABEL :: string where "AUTOFIX_LABEL = ''clawsweeper:autofix''"
definition NEEDS_SECURITY_REVIEW_LABEL :: string where "NEEDS_SECURITY_REVIEW_LABEL = ''clawsweeper:needs-security-review''"
definition NEEDS_MAINTAINER_REVIEW_LABEL :: string where "NEEDS_MAINTAINER_REVIEW_LABEL = ''clawsweeper:needs-maintainer-review''"
definition NEEDS_PRODUCT_DECISION_LABEL :: string where "NEEDS_PRODUCT_DECISION_LABEL = ''clawsweeper:needs-product-decision''"

definition SECURITY_BOUNDARY_MERGE_RISK_LABEL :: string where
  "SECURITY_BOUNDARY_MERGE_RISK_LABEL =
     ''merge-risk: '' @ [CHR 0xF0, CHR 0x9F, CHR 0x9A, CHR 0xA8] @ '' security-boundary''"

definition CLOSE_PROTECTED_LABEL_NAMES :: "string list" where
  "CLOSE_PROTECTED_LABEL_NAMES = [''security'', ''beta-blocker'', ''release-blocker'', ''maintainer'', ''area: security'',
     ''impact:security'', ''security-review-required'', ''security-sensitive-changed'', SECURITY_BOUNDARY_MERGE_RISK_LABEL,
     NEEDS_SECURITY_REVIEW_LABEL]"

definition PR_AUTO_CLOSE_EXEMPT_LABEL_NAMES :: "string list" where
  "PR_AUTO_CLOSE_EXEMPT_LABEL_NAMES = [HUMAN_REVIEW_LABEL, MANUAL_ONLY_LABEL, AUTOMERGE_LABEL, AUTOFIX_LABEL]"

definition APPLY_PROTECTED_LABELS :: "string list" where
  "APPLY_PROTECTED_LABELS = CLOSE_PROTECTED_LABEL_NAMES @ [NEEDS_MAINTAINER_REVIEW_LABEL, NEEDS_PRODUCT_DECISION_LABEL]"

definition SECURITY_LABELS :: "string list" where
  "SECURITY_LABELS = [''security'', ''security-sensitive'', ''security sensitive'', ''type: security'', ''type:security'',
     ''kind: security'', ''kind:security'']"

text \<open>\<open>replace(/\s+/g, " ")\<close>\<close>

function one_space :: "string \<Rightarrow> string" where
  "one_space [] = []"
| "one_space (c # s) =
     (if is_js_space c then CHR '' '' # one_space (dropWhile is_js_space s) else c # one_space s)"
  by pat_completeness auto
termination by (relation "measure length") (auto simp: le_imp_less_Suc length_dropWhile_le)

definition isSecurityLabel :: "string \<Rightarrow> bool" where
  "isSecurityLabel s \<longleftrightarrow> js_trim (one_space (to_lower s)) \<in> set SECURITY_LABELS"

definition normalizeLabelName :: "string \<Rightarrow> string" where
  "normalizeLabelName s = to_lower (js_trim s)"

definition first_occurrences :: "'a list \<Rightarrow> 'a list" where
  "first_occurrences xs = rev (remdups (rev xs))"

definition protectedLabels :: "string list \<Rightarrow> string list" where
  "protectedLabels labels = first_occurrences
     (filter (\<lambda>l. l \<in> set CLOSE_PROTECTED_LABEL_NAMES \<or> isSecurityLabel l) (map normalizeLabelName labels))"

definition applyBlockingProtectedLabels :: "string list \<Rightarrow> close_reason \<Rightarrow> string list" where
  "applyBlockingProtectedLabels labels r =
     (let blocked = first_occurrences
        (filter (\<lambda>l. l \<in> set APPLY_PROTECTED_LABELS \<or> isSecurityLabel l) (map normalizeLabelName labels))
      in if \<not> isVerifiedFixedCloseReason r \<and> r \<noteq> OversizedPullRequestReason then blocked
         else filter (\<lambda>l. l \<noteq> ''maintainer'') blocked)"

definition join_with :: "string \<Rightarrow> string list \<Rightarrow> string" where
  "join_with sep xs = (case xs of [] \<Rightarrow> [] | y # ys \<Rightarrow> y @ concat (map (\<lambda>s. sep @ s) ys))"

definition applyProtectedLabelReason :: "string list \<Rightarrow> close_reason \<Rightarrow> string" where
  "applyProtectedLabelReason labels r = ''protected label: '' @ join_with '', '' (applyBlockingProtectedLabels labels r)"

definition prAutoCloseExemptLabel :: "string list \<Rightarrow> string option" where
  "prAutoCloseExemptLabel labels = find (\<lambda>l. l \<in> set PR_AUTO_CLOSE_EXEMPT_LABEL_NAMES) (map normalizeLabelName labels)"

definition prAutoCloseExemptDecisionReason :: "decision_kind \<Rightarrow> string list \<Rightarrow> close_reason \<Rightarrow> string option" where
  "prAutoCloseExemptDecisionReason k labels r =
     (if k \<noteq> PullItem then None
      else case prAutoCloseExemptLabel labels of
          None \<Rightarrow> None
        | Some l \<Rightarrow>
            if r = UnconfirmedProductDirection then Some (l @ '' exempts this PR from product-direction auto-close'')
            else if r = StalledUnprovenPr then Some (l @ '' exempts this PR from stalled-unproven auto-close'')
            else if r = AbandonedPr then Some (l @ '' exempts this PR from abandoned-PR auto-close'')
            else if r = AuthorPrBudgetExceeded then Some (l @ '' exempts this PR from author-budget auto-close'')
            else if r = ObsoleteFixPr then Some (l @ '' exempts this PR from obsolete-fix auto-close'')
            else None)"

subsection \<open>Who wrote it\<close>

definition to_upper_char :: "char \<Rightarrow> char" where
  "to_upper_char c = (let n = (of_char c :: nat) in if 97 \<le> n \<and> n \<le> 122 then char_of (n - 32) else c)"

definition normalizeAuthorAssociation :: "json option \<Rightarrow> string" where
  "normalizeAuthorAssociation v =
     (case string_value v of Some s \<Rightarrow> if js_trim s \<noteq> [] then map to_upper_char (js_trim s) else ''NONE'' | None \<Rightarrow> ''NONE'')"

definition isMaintainerAuthorAssociation :: "json option \<Rightarrow> bool" where
  "isMaintainerAuthorAssociation v \<longleftrightarrow> normalizeAuthorAssociation v \<in> {''OWNER'', ''MEMBER'', ''COLLABORATOR''}"

subsection \<open>The size limit\<close>

definition DEFAULT_MAX_PR_CHANGED_LINES :: int where "DEFAULT_MAX_PR_CHANGED_LINES = 50000"

record oversized_evidence =
  ov_additions :: int
  ov_deletions :: int
  ov_changedFiles :: int
  ov_threshold :: int
  ov_head :: string

definition maxPrChangedLines :: "string option \<Rightarrow> int" where
  "maxPrChangedLines env =
     (let raw = js_trim (str_or_empty env); n = int (dec_value raw)
      in if raw \<noteq> [] \<and> list_all is_dec raw \<and> safe_integer n \<and> 0 < n then n else DEFAULT_MAX_PR_CHANGED_LINES)"

definition count_value :: "json option \<Rightarrow> int option" where
  "count_value v = (case v of Some (JNum n) \<Rightarrow> if safe_integer n \<and> 0 \<le> n then Some n else None | _ \<Rightarrow> None)"

text \<open>\<open>String(typeof label === "object" && label !== null ? label.name : label)\<close>\<close>

definition label_string :: "json \<Rightarrow> string" where
  "label_string v =
     (case v of JObj fs \<Rightarrow> (case map_of fs ''name'' of None \<Rightarrow> ''undefined'' | Some n \<Rightarrow> js_string n)
      | JArr xs \<Rightarrow> ''undefined'' | _ \<Rightarrow> js_string v)"

definition evaluateOversizedPullRequest ::
  "json option \<Rightarrow> json option \<Rightarrow> json option \<Rightarrow> json option \<Rightarrow> json option \<Rightarrow> int \<Rightarrow> oversized_evidence option" where
  "evaluateOversizedPullRequest additions deletions changedFiles labels head threshold =
     (let ls = (case labels of Some (JArr xs) \<Rightarrow> xs | _ \<Rightarrow> [])
      in if list_ex (\<lambda>l. normalizeLabelName (label_string l) \<in> set (PR_AUTO_CLOSE_EXEMPT_LABEL_NAMES @ [ACCEPTED_LARGE_LABEL])) ls then None
         else case (count_value additions, count_value deletions, count_value changedFiles, string_value head) of
             (Some a, Some d, Some c, Some h) \<Rightarrow>
               if safe_integer (a + d) \<and> safe_integer threshold \<and> 0 < threshold \<and> hex_of_length 40 (to_lower h) \<and> threshold < a + d
               then Some \<lparr>ov_additions = a, ov_deletions = d, ov_changedFiles = c, ov_threshold = threshold, ov_head = to_lower h\<rparr>
               else None
           | _ \<Rightarrow> None)"

text \<open>The value is already parsed when it came as text; \<open>None\<close> also stands for text that is not JSON.\<close>

definition parseOversizedPullRequestEvidence :: "json option \<Rightarrow> oversized_evidence option" where
  "parseOversizedPullRequestEvidence v =
     (let fs = objectValue v
      in case map_of fs ''threshold'' of
           Some (JNum t) \<Rightarrow>
             if safe_integer t \<and> 0 < t
             then evaluateOversizedPullRequest (map_of fs ''additions'') (map_of fs ''deletions'') (map_of fs ''changedFiles'')
                    (map_of fs ''labels'') (map_of fs ''head'') t
             else None
         | _ \<Rightarrow> None)"

definition oversizedPullRequestAdmission :: "(string \<times> json) list \<Rightarrow> int \<Rightarrow> oversized_evidence option" where
  "oversizedPullRequestAdmission pull threshold =
     (if map_of pull ''state'' \<noteq> Some (JStr ''open'') \<or> map_of pull ''locked'' = Some (JBool True) then None
      else evaluateOversizedPullRequest (map_of pull ''additions'') (map_of pull ''deletions'') (map_of pull ''changed_files'')
             (map_of pull ''labels'') (map_of (objectValue (map_of pull ''head'')) ''sha'') threshold)"

definition labelNames :: "json option \<Rightarrow> string list" where
  "labelNames v =
     (case v of Some (JArr xs) \<Rightarrow>
        filter (\<lambda>s. s \<noteq> []) (List.map_filter (\<lambda>l. case l of JStr s \<Rightarrow> Some s | _ \<Rightarrow> string_value (map_of (objectValue (Some l)) ''name'')) xs)
      | _ \<Rightarrow> [])"

definition oversizedPullRequestLiveBlockReason ::
  "bool \<Rightarrow> int \<Rightarrow> oversized_evidence option \<Rightarrow> (string \<times> json) list \<Rightarrow> string option" where
  "oversizedPullRequestLiveBlockReason enabled threshold evidence pull =
     (case evidence of
        None \<Rightarrow> Some ''oversized PR decision lacks complete size and head evidence''
      | Some sz \<Rightarrow>
          if \<not> enabled then Some ''oversized PR close policy is disabled''
          else if (case map_of pull ''labels'' of Some (JArr xs) \<Rightarrow> False | _ \<Rightarrow> True)
               \<or> applyBlockingProtectedLabels (labelNames (map_of pull ''labels'')) OversizedPullRequestReason \<noteq> []
          then Some ''live PR labels are unavailable or protected''
          else case oversizedPullRequestAdmission pull threshold of
              None \<Rightarrow> Some ''live PR is closed, locked, exempt, under the size limit, or lacks size metadata''
            | Some live \<Rightarrow> if live \<noteq> sz then Some ''PR size, threshold, or head changed since admission'' else None)"

subsection \<open>The close rules of a repository\<close>

record close_rules =
  cr_issue :: "close_reason list option"
  cr_pull_request :: "close_reason list option"

record repository_profile =
  rp_targetRepo :: string
  rp_applyCloseRules :: close_rules

definition isAutoCloseAllowed :: "repository_profile \<Rightarrow> decision_kind \<Rightarrow> close_reason \<Rightarrow> bool" where
  "isAutoCloseAllowed p k r \<longleftrightarrow>
     (case (case k of IssueItem \<Rightarrow> cr_issue (rp_applyCloseRules p) | PullItem \<Rightarrow> cr_pull_request (rp_applyCloseRules p)) of
        None \<Rightarrow> False | Some rs \<Rightarrow> r \<in> set rs)"

definition DEFAULT_TARGET_REPO :: string where "DEFAULT_TARGET_REPO = ''openclaw/openclaw''"

definition CORE_OPENCLAW_PROFILE :: repository_profile where
  "CORE_OPENCLAW_PROFILE = \<lparr>rp_targetRepo = DEFAULT_TARGET_REPO, rp_applyCloseRules = \<lparr>
     cr_issue = Some (filter (\<lambda>r. r \<noteq> AuthorPrBudgetExceeded \<and> r \<noteq> ObsoleteFixPr) ALLOWED_REASONS),
     cr_pull_request = Some (filter (\<lambda>r. r \<noteq> StaleInsufficientInfo \<and> r \<noteq> UnsponsoredFeatureRequest \<and> r \<noteq> StaleVersionBug)
       ALLOWED_REASONS)\<rparr>\<rparr>"

definition normalizeRepo :: "string \<Rightarrow> string" where
  "normalizeRepo s = to_lower (js_trim s)"

record generic_fallback =
  gf_owner :: string
  gf_denyRepositories :: "string list"
  gf_allowRepoNamePattern :: string
  gf_applyCloseRules :: close_rules

record target_config =
  tc_repositories :: "repository_profile list"
  tc_genericFallbacks :: "generic_fallback list"

text \<open>The validation of \<open>config/target-repositories.json\<close>.\<close>

definition stringValue :: "json option \<Rightarrow> string option" where
  "stringValue v = (case string_value v of Some s \<Rightarrow> if js_trim s = [] then None else Some s | None \<Rightarrow> None)"

definition arrayValue :: "json option \<Rightarrow> json list option" where
  "arrayValue v = (case v of Some (JArr xs) \<Rightarrow> Some xs | _ \<Rightarrow> None)"

definition recordValue :: "json option \<Rightarrow> (string \<times> json) list option" where
  "recordValue v = (case v of Some (JObj fs) \<Rightarrow> Some fs | _ \<Rightarrow> None)"

definition repoValue :: "json option \<Rightarrow> string option" where
  "repoValue v = (case stringValue v of None \<Rightarrow> None
     | Some s \<Rightarrow> if repo_pattern (normalizeRepo s) then Some (normalizeRepo s) else None)"

definition pathSegmentValue :: "json option \<Rightarrow> string option" where
  "pathSegmentValue v = (case stringValue v of None \<Rightarrow> None | Some s \<Rightarrow> if list_all is_word_char s then Some s else None)"

definition packageManagerValue :: "json option \<Rightarrow> string option" where
  "packageManagerValue v =
     (case (if v = None then Some ''pnpm'' else map_option to_lower (stringValue v)) of
        None \<Rightarrow> None | Some s \<Rightarrow> if s \<in> {''bun'', ''pnpm'', ''npm''} then Some s else None)"

definition closeReasonValue :: "json \<Rightarrow> close_reason option" where
  "closeReasonValue v =
     (case stringValue (Some v) of None \<Rightarrow> None | Some s \<Rightarrow> find (\<lambda>r. reason_text r = s) ALL_CLOSE_REASONS)"

definition kind_rules :: "(string \<times> json) list \<Rightarrow> string \<Rightarrow> close_reason list option option" where
  "kind_rules fs k =
     (case map_of fs k of
        None \<Rightarrow> Some None
      | Some v \<Rightarrow> Option.bind (arrayValue (Some v)) (\<lambda>xs. map_option Some (those (map closeReasonValue xs))))"

definition closeRulesValue :: "json option \<Rightarrow> close_rules option" where
  "closeRulesValue v =
     Option.bind (recordValue v) (\<lambda>fs.
       if \<not> list_all (\<lambda>(k, x). k \<in> {''issue'', ''pull_request''}) fs then None
       else Option.bind (kind_rules fs ''issue'') (\<lambda>i. map_option (\<lambda>p. \<lparr>cr_issue = i, cr_pull_request = p\<rparr>) (kind_rules fs ''pull_request'')))"

text \<open>A text that has to be there, or may be left out.\<close>

definition optional_text :: "(string \<times> json) list \<Rightarrow> string \<Rightarrow> bool" where
  "optional_text fs k \<longleftrightarrow> (case map_of fs k of None \<Rightarrow> True | Some v \<Rightarrow> stringValue (Some v) \<noteq> None)"

definition validateConfiguredRepositoryProfile :: "json \<Rightarrow> repository_profile option" where
  "validateConfiguredRepositoryProfile v =
     Option.bind (recordValue (Some v)) (\<lambda>fs.
       if stringValue (map_of fs ''display_name'') = None \<or> pathSegmentValue (map_of fs ''checkout_dir'') = None
          \<or> packageManagerValue (map_of fs ''package_manager'') = None \<or> stringValue (map_of fs ''prompt_note'') = None
          \<or> \<not> optional_text fs ''docs_url'' \<or> \<not> optional_text fs ''community_url''
       then None
       else Option.bind (repoValue (map_of fs ''target_repo'')) (\<lambda>repo.
         map_option (\<lambda>rules. \<lparr>rp_targetRepo = repo, rp_applyCloseRules = rules\<rparr>) (closeRulesValue (map_of fs ''apply_close_rules''))))"

definition validateGenericFallbackConfig :: "(string \<Rightarrow> bool) \<Rightarrow> json \<Rightarrow> generic_fallback option" where
  "validateGenericFallbackConfig regex_ok v =
     Option.bind (recordValue (Some v)) (\<lambda>fs.
       Option.bind (stringValue (map_of fs ''allow_repo_name_pattern'')) (\<lambda>pat.
       Option.bind (stringValue (map_of fs ''owner'')) (\<lambda>owner.
       Option.bind (Option.bind (arrayValue (map_of fs ''deny_repositories'')) (\<lambda>xs. those (map (\<lambda>x. repoValue (Some x)) xs))) (\<lambda>deny.
       Option.bind (closeRulesValue (map_of fs ''apply_close_rules'')) (\<lambda>rules.
         if \<not> regex_ok pat \<or> packageManagerValue (map_of fs ''package_manager'') = None \<or> stringValue (map_of fs ''prompt_note'') = None
         then None
         else Some \<lparr>gf_owner = to_lower owner, gf_denyRepositories = map normalizeRepo deny, gf_allowRepoNamePattern = pat,
           gf_applyCloseRules = rules\<rparr>)))))"

definition validateTargetRepositoryConfig :: "(string \<Rightarrow> bool) \<Rightarrow> json option \<Rightarrow> target_config option" where
  "validateTargetRepositoryConfig regex_ok v =
     Option.bind (recordValue v) (\<lambda>fs.
       if map_of fs ''schema_version'' \<notin> {Some (JNum 1), Some (JNum 2)} then None
       else Option.bind (Option.bind (arrayValue (map_of fs ''repositories'')) (\<lambda>xs. those (map validateConfiguredRepositoryProfile xs))) (\<lambda>repos.
         Option.bind (case map_of fs ''generic_fallbacks'' of None \<Rightarrow> Some []
             | Some g \<Rightarrow> Option.bind (arrayValue (Some g)) (\<lambda>xs. those (map (validateGenericFallbackConfig regex_ok) xs))) (\<lambda>fallbacks.
           map_option (\<lambda>more. \<lparr>tc_repositories = repos, tc_genericFallbacks = fallbacks @ more\<rparr>)
             (case map_of fs ''openclaw_fallback'' of None \<Rightarrow> Some []
              | Some g \<Rightarrow> map_option (\<lambda>f. [f]) (validateGenericFallbackConfig regex_ok g)))))"

definition REPOSITORY_PROFILES :: "target_config \<Rightarrow> repository_profile list" where
  "REPOSITORY_PROFILES c =
     CORE_OPENCLAW_PROFILE # map (\<lambda>p. p\<lparr>rp_targetRepo := normalizeRepo (rp_targetRepo p)\<rparr>) (tc_repositories c)"

definition configuredRepositoryProfileFor :: "target_config \<Rightarrow> string \<Rightarrow> repository_profile option" where
  "configuredRepositoryProfileFor c repo =
     find (\<lambda>p. normalizeRepo (rp_targetRepo p) = normalizeRepo repo) (REPOSITORY_PROFILES c)"

text \<open>\<open>const [owner, repoName] = text.split("/")\<close>\<close>

definition owner_part :: "string \<Rightarrow> string" where
  "owner_part s = takeWhile (\<lambda>c. c \<noteq> CHR ''/'') s"

definition name_part :: "string \<Rightarrow> string" where
  "name_part s = takeWhile (\<lambda>c. c \<noteq> CHR ''/'') (tl (dropWhile (\<lambda>c. c \<noteq> CHR ''/'') s))"

definition genericFallbackConfigFor :: "(string \<Rightarrow> string \<Rightarrow> bool) \<Rightarrow> target_config \<Rightarrow> string \<Rightarrow> generic_fallback option" where
  "genericFallbackConfigFor regex_test c repo =
     (if owner_part repo = [] \<or> name_part repo = [] then None
      else case find (\<lambda>f. gf_owner f = owner_part repo) (tc_genericFallbacks c) of
          None \<Rightarrow> None
        | Some f \<Rightarrow>
            if repo \<in> set (gf_denyRepositories f) \<or> \<not> regex_test (gf_allowRepoNamePattern f) (name_part repo) then None else Some f)"

definition fallbackRepositoryProfile :: "(string \<Rightarrow> string \<Rightarrow> bool) \<Rightarrow> target_config \<Rightarrow> string \<Rightarrow> repository_profile option" where
  "fallbackRepositoryProfile regex_test c repo =
     map_option (\<lambda>f. \<lparr>rp_targetRepo = repo, rp_applyCloseRules = gf_applyCloseRules f\<rparr>) (genericFallbackConfigFor regex_test c repo)"

definition repositoryProfileFor :: "(string \<Rightarrow> string \<Rightarrow> bool) \<Rightarrow> target_config \<Rightarrow> string \<Rightarrow> repository_profile option" where
  "repositoryProfileFor regex_test c repo =
     (case configuredRepositoryProfileFor c (normalizeRepo repo) of
        Some p \<Rightarrow> Some p | None \<Rightarrow> fallbackRepositoryProfile regex_test c (normalizeRepo repo))"

text \<open>A local review never gets close authority.\<close>

definition no_close_rules :: close_rules where
  "no_close_rules = \<lparr>cr_issue = None, cr_pull_request = None\<rparr>"

definition localRepositoryProfileFor :: "(string \<Rightarrow> string \<Rightarrow> bool) \<Rightarrow> target_config \<Rightarrow> string \<Rightarrow> repository_profile option" where
  "localRepositoryProfileFor regex_test c repo =
     (case repoValue (Some (JStr repo)) of
        None \<Rightarrow> None
      | Some r \<Rightarrow>
          (case (case configuredRepositoryProfileFor c r of Some p \<Rightarrow> Some p | None \<Rightarrow> fallbackRepositoryProfile regex_test c r) of
             Some p \<Rightarrow> Some (p\<lparr>rp_applyCloseRules := no_close_rules\<rparr>)
           | None \<Rightarrow> Some \<lparr>rp_targetRepo = r, rp_applyCloseRules = no_close_rules\<rparr>))"

subsection \<open>Timestamps of a fix\<close>

text \<open>
  \<open>isIsoTimestamp\<close>: the pattern, and that \<open>Date.parse\<close> accepts the value. Any number of fraction
  digits is allowed, of which the parser keeps three; an offset is at most 23:59.
\<close>

definition iso_head :: "string \<Rightarrow> bool" where
  "iso_head s \<longleftrightarrow> length s = 19
     \<and> list_all (\<lambda>i. is_digit (s ! i)) [0, 1, 2, 3, 5, 6, 8, 9, 11, 12, 14, 15, 17, 18]
     \<and> s ! 4 = CHR ''-'' \<and> s ! 7 = CHR ''-'' \<and> s ! 10 = CHR ''T'' \<and> s ! 13 = CHR '':'' \<and> s ! 16 = CHR '':''"

definition iso_zone :: "bool \<Rightarrow> string \<Rightarrow> bool" where
  "iso_zone allowOffset s \<longleftrightarrow> s = ''Z'' \<or> allowOffset \<and>
     (case s of
        [sign, h1, h2, colon, m1, m2] \<Rightarrow>
          (sign = CHR ''+'' \<or> sign = CHR ''-'') \<and> colon = CHR '':'' \<and> list_all is_digit [h1, h2, m1, m2]
          \<and> digits_value [h1, h2] \<le> 23 \<and> digits_value [m1, m2] \<le> 59
      | _ \<Rightarrow> False)"

definition isIsoTimestamp :: "bool \<Rightarrow> string \<Rightarrow> bool" where
  "isIsoTimestamp allowOffset s \<longleftrightarrow>
     (let head = take 19 s; rest = drop 19 s;
          fraction = (if take 1 rest = ''.'' then takeWhile is_digit (tl rest) else []);
          zone = (if take 1 rest = ''.'' then dropWhile is_digit (tl rest) else rest)
      in iso_head head \<and> (take 1 rest = ''.'' \<longrightarrow> fraction \<noteq> []) \<and> iso_zone allowOffset zone
         \<and> parse_time_fields (take 4 head) (take 2 (drop 5 head)) (take 2 (drop 8 head)) (take 2 (drop 11 head))
             (take 2 (drop 14 head)) (take 2 (drop 17 head)) (take 3 (fraction @ ''000'')) \<noteq> None)"

subsection \<open>The decision of a review\<close>

datatype decision_word = CloseWord | KeepOpenWord

datatype confidence_word = HighConfidence | MediumConfidence | LowConfidence

datatype item_category =
    BugItem | RegressionItem | FeatureItem | SkillItem | DocsItem | CleanupItem | SupportItem | AdminItem | SecurityItem
  | UnclearItem

datatype security_status = SecurityCleared | SecurityNeedsAttention | SecurityNotApplicable

datatype proof_status =
    ProofSufficient | ProofMissing | ProofMockOnly | ProofInsufficient | ProofNotApplicable | ProofOverride

datatype rating_tier = TierS | TierA | TierB | TierC | TierD | TierF | TierNA

datatype correctness_word = PatchCorrect | PatchIncorrect | NotAPatch

datatype maintainer_kind =
    NoMaintainerDecision | ProductDirection | SecurityBoundary | ProofSufficiency | ReleaseInclusion | MergeRisk | ManualReview

datatype fix_source =
    ClosingPrReference | LinkedIssueClosingPr | ReviewedImplementationLanding | CommitPrLookup | ReportMetadata

record fixed_pull =
  fp_repo :: string
  fp_number :: nat
  fp_url :: string
  fp_mergedAt :: "string option"
  fp_confidence :: confidence_word
  fp_source :: fix_source

record evidence_entry =
  ev_file :: "string option"
  ev_sha :: "string option"

record close_decision =
  cd_decision :: decision_word
  cd_closeReason :: close_reason
  cd_confidence :: confidence_word
  cd_summary :: string
  cd_evidence :: "evidence_entry list"
  cd_maintainerRequired :: bool
  cd_maintainerKind :: maintainer_kind
  cd_itemCategory :: item_category
  cd_requiresNewFeature :: bool
  cd_requiresNewConfigOption :: bool
  cd_requiresProductDecision :: bool
  cd_securityStatus :: security_status
  cd_securityConcerns :: "string list"
  cd_reviewFindings :: "string list"
  cd_overallCorrectness :: correctness_word
  cd_proofStatus :: proof_status
  cd_overallTier :: rating_tier
  cd_fixedRelease :: "string option"
  cd_fixedSha :: "string option"
  cd_fixedAt :: "string option"
  cd_fixedPullRequest :: "fixed_pull option"
  cd_closeComment :: string
  cd_oversizedPullRequest :: "json option"

record close_item =
  ci_repo :: string
  ci_number :: "nat option"
  ci_kind :: decision_kind
  ci_labels :: "string list"
  ci_authorAssociation :: "string option"

definition STALLED_UNPROVEN_PROOF_STATUSES :: "proof_status set" where
  "STALLED_UNPROVEN_PROOF_STATUSES = {ProofMissing, ProofMockOnly, ProofInsufficient}"

definition isGitHubVerifiedFixedPullRequestSource :: "fix_source \<Rightarrow> bool" where
  "isGitHubVerifiedFixedPullRequestSource s \<longleftrightarrow>
     s \<in> {ClosingPrReference, LinkedIssueClosingPr, ReviewedImplementationLanding, CommitPrLookup}"

definition hasUsableCloseComment :: "string \<Rightarrow> bool" where
  "hasUsableCloseComment s \<longleftrightarrow> js_trim s \<noteq> [] \<and> js_trim s \<noteq> ''_No close comment posted._''"

text \<open>\<open>Boolean(x?.trim())\<close>\<close>

definition has_text :: "string option \<Rightarrow> bool" where
  "has_text v \<longleftrightarrow> (case v of None \<Rightarrow> False | Some s \<Rightarrow> js_trim s \<noteq> [])"

definition hasImplementationSourceEvidence :: "close_decision \<Rightarrow> bool" where
  "hasImplementationSourceEvidence d \<longleftrightarrow> list_ex (\<lambda>e. has_text (ev_file e) \<and> has_text (ev_sha e)) (cd_evidence d)"

definition hasValidFixedAt :: "close_decision \<Rightarrow> bool" where
  "hasValidFixedAt d \<longleftrightarrow>
     (case cd_fixedAt d of None \<Rightarrow> False | Some s \<Rightarrow> js_trim s \<noteq> [] \<and> isIsoTimestamp True (js_trim s))"

definition verifiedImplementationPullRequestBlockReason :: "close_item \<Rightarrow> close_decision \<Rightarrow> string option" where
  "verifiedImplementationPullRequestBlockReason it d =
     (case cd_fixedPullRequest d of
        None \<Rightarrow> Some ''implemented-on-main close requires a GitHub-verified fixing pull request''
      | Some pull \<Rightarrow>
          if fp_confidence pull \<noteq> HighConfidence
          then Some ''implemented-on-main close requires a GitHub-verified fixing pull request''
          else if fp_repo pull \<noteq> ci_repo it
          then Some ''implemented-on-main fixing pull request must be in the reviewed repository''
          else if ci_number it = Some (fp_number pull)
          then Some ''implemented-on-main fixing pull request cannot be the pull request being closed''
          else if str_or_empty (fp_mergedAt pull) = [] \<or> \<not> isGitHubVerifiedFixedPullRequestSource (fp_source pull)
          then Some ''implemented-on-main fixing pull request must be GitHub-verified and merged''
          else if fp_url pull \<noteq> ''https://github.com/'' @ ci_repo it @ ''/pull/'' @ nat_str (fp_number pull)
          then Some ''implemented-on-main fixing pull request URL does not match its GitHub identity''
          else None)"

definition canClose :: "close_decision \<Rightarrow> bool" where
  "canClose d \<longleftrightarrow> cd_decision d = CloseWord \<and> cd_confidence d = HighConfidence \<and> cd_closeReason d \<in> set ALLOWED_REASONS"

definition unconfirmedProductDirectionDecisionBlockReason :: "close_item \<Rightarrow> close_decision \<Rightarrow> string option" where
  "unconfirmedProductDirectionDecisionBlockReason it d =
     (if str_or_empty (ci_authorAssociation it) = [] then Some ''unconfirmed_product_direction requires author association''
      else if isMaintainerAuthorAssociation (map_option JStr (ci_authorAssociation it))
      then Some ''unconfirmed_product_direction cannot close maintainer-authored pull requests''
      else case prAutoCloseExemptLabel (ci_labels it) of
          Some l \<Rightarrow> Some (l @ '' exempts this PR from product-direction auto-close'')
        | None \<Rightarrow>
            if cd_itemCategory d \<noteq> FeatureItem then Some ''unconfirmed_product_direction requires feature item category''
            else if \<not> cd_requiresProductDecision d then Some ''unconfirmed_product_direction requires a product decision''
            else if \<not> cd_requiresNewFeature d \<and> \<not> cd_requiresNewConfigOption d
            then Some ''unconfirmed_product_direction requires new feature or config surface''
            else if cd_securityStatus d \<noteq> SecurityCleared \<or> cd_securityConcerns d \<noteq> []
            then Some ''unconfirmed_product_direction requires a cleared security review''
            else if cd_overallCorrectness d \<noteq> PatchCorrect \<or> cd_reviewFindings d \<noteq> []
            then Some ''unconfirmed_product_direction requires a correct patch with no review findings''
            else if cd_proofStatus d \<notin> {ProofSufficient, ProofOverride}
            then Some ''unconfirmed_product_direction requires sufficient real behavior proof''
            else if cd_overallTier d \<notin> {TierS, TierA, TierB, TierC}
            then Some ''unconfirmed_product_direction requires a quality-ready PR rating''
            else None)"

definition unsponsoredFeatureDecisionBlockReason :: "close_item \<Rightarrow> close_decision \<Rightarrow> string option" where
  "unsponsoredFeatureDecisionBlockReason it d =
     (case closeReasonItemKindError UnsponsoredFeatureRequest (ci_kind it) of
        Some e \<Rightarrow> Some e
      | None \<Rightarrow>
          if cd_itemCategory d \<noteq> FeatureItem then Some ''unsponsored_feature_request requires feature item category''
          else if \<not> cd_requiresProductDecision d then Some ''unsponsored_feature_request requires a product decision''
          else if \<not> cd_maintainerRequired d \<or> cd_maintainerKind d \<noteq> ProductDirection
          then Some ''unsponsored_feature_request requires a product-direction maintainer decision''
          else case find (\<lambda>l. l = ''impact:security'' \<or> l = NEEDS_SECURITY_REVIEW_LABEL) (map normalizeLabelName (ci_labels it)) of
              Some l \<Rightarrow> if l = [] then None else Some (l @ '' blocks unsponsored feature auto-close'')
            | None \<Rightarrow> None)"

definition externalPrCloseDecisionBlockReason :: "close_item \<Rightarrow> close_reason \<Rightarrow> string \<Rightarrow> string option" where
  "externalPrCloseDecisionBlockReason it r exemptText =
     (if str_or_empty (ci_authorAssociation it) = [] then Some (reason_text r @ '' requires author association'')
      else if isMaintainerAuthorAssociation (map_option JStr (ci_authorAssociation it))
      then Some (reason_text r @ '' cannot close maintainer-authored pull requests'')
      else case prAutoCloseExemptLabel (ci_labels it) of
          Some l \<Rightarrow> Some (l @ '' exempts this PR from '' @ exemptText)
        | None \<Rightarrow> None)"

definition stalledUnprovenPrDecisionBlockReason :: "close_item \<Rightarrow> close_decision \<Rightarrow> string option" where
  "stalledUnprovenPrDecisionBlockReason it d =
     (case externalPrCloseDecisionBlockReason it StalledUnprovenPr ''stalled-unproven auto-close'' of
        Some b \<Rightarrow> Some b
      | None \<Rightarrow>
          if cd_proofStatus d \<notin> STALLED_UNPROVEN_PROOF_STATUSES
          then Some ''stalled_unproven_pr requires missing, mock-only, or insufficient real behavior proof''
          else if cd_overallTier d \<notin> {TierD, TierF} then Some ''stalled_unproven_pr requires a D or F overall PR rating''
          else None)"

text \<open>A rating of S, A or B with a sufficient or overridden proof.\<close>

definition high_quality_proven :: "close_decision \<Rightarrow> bool" where
  "high_quality_proven d \<longleftrightarrow> cd_overallTier d \<in> {TierS, TierA, TierB} \<and> cd_proofStatus d \<in> {ProofSufficient, ProofOverride}"

definition abandonedPrDecisionBlockReason :: "close_item \<Rightarrow> close_decision \<Rightarrow> string option" where
  "abandonedPrDecisionBlockReason it d =
     (case externalPrCloseDecisionBlockReason it AbandonedPr ''abandoned-PR auto-close'' of
        Some b \<Rightarrow> Some b
      | None \<Rightarrow>
          if high_quality_proven d then Some ''abandoned_pr cannot close a high-quality proven pull request'' else None)"

definition authorPrBudgetDecisionBlockReason :: "close_item \<Rightarrow> close_decision \<Rightarrow> string option" where
  "authorPrBudgetDecisionBlockReason it d =
     (case externalPrCloseDecisionBlockReason it AuthorPrBudgetExceeded ''author-budget auto-close'' of
        Some b \<Rightarrow> Some b
      | None \<Rightarrow>
          if high_quality_proven d then Some ''author_pr_budget_exceeded cannot close a high-quality proven pull request''
          else if cd_overallTier d \<notin> {TierD, TierF} \<and> cd_proofStatus d \<notin> STALLED_UNPROVEN_PROOF_STATUSES
          then Some ''author_pr_budget_exceeded requires a D/F rating or missing, mock-only, or insufficient real behavior proof''
          else None)"

definition staleVersionBugDecisionBlockReason :: "close_item \<Rightarrow> close_decision \<Rightarrow> string option" where
  "staleVersionBugDecisionBlockReason it d =
     (case closeReasonItemKindError StaleVersionBug (ci_kind it) of
        Some e \<Rightarrow> Some e
      | None \<Rightarrow>
          if cd_itemCategory d \<noteq> BugItem then Some ''stale_version_bug requires bug item category''
          else case protectedLabels (ci_labels it) of
              l # ls \<Rightarrow> if l = [] then None else Some (l @ '' blocks stale-version bug auto-close'')
            | [] \<Rightarrow> None)"

definition obsoleteFixPrDecisionBlockReason :: "close_item \<Rightarrow> string option" where
  "obsoleteFixPrDecisionBlockReason it = externalPrCloseDecisionBlockReason it ObsoleteFixPr ''obsolete-fix auto-close''"

subsection \<open>validateCloseDecision\<close>

datatype close_action =
    KeptOpen | SkippedProtectedLabel | SkippedInvalidDecision | SkippedCloseExemptLabel

datatype validation = CloseValid | CloseRefused close_action string

text \<open>A check of the code refuses (\<open>if (condition) return ...\<close>) or lets the next one run.\<close>

definition refuse_if :: "bool \<Rightarrow> close_action \<Rightarrow> string \<Rightarrow> validation option" where
  "refuse_if b a r = (if b then Some (CloseRefused a r) else None)"

definition refuse_with :: "bool \<Rightarrow> close_action \<Rightarrow> string option \<Rightarrow> validation option" where
  "refuse_with b a v = (if b then map_option (CloseRefused a) v else None)"

fun first_refusal :: "validation option list \<Rightarrow> validation" where
  "first_refusal [] = CloseValid"
| "first_refusal (None # cs) = first_refusal cs"
| "first_refusal (Some v # cs) = v"

definition kind_text :: "decision_kind \<Rightarrow> string" where
  "kind_text k = (case k of IssueItem \<Rightarrow> ''issue'' | PullItem \<Rightarrow> ''pull_request'')"

text \<open>The outcome, the labels, the rules of the repository and the exemptions.\<close>

definition outcome_checks :: "repository_profile \<Rightarrow> close_item \<Rightarrow> close_decision \<Rightarrow> validation option list" where
  "outcome_checks p it d =
     (let r = cd_closeReason d in
      [refuse_if (cd_decision d \<noteq> CloseWord) KeptOpen ''not a close decision'',
       refuse_if (cd_securityStatus d = SecurityNeedsAttention \<or> cd_securityConcerns d \<noteq> []) KeptOpen
         ''security review requires human moderation before automatic close'',
       refuse_if (applyBlockingProtectedLabels (ci_labels it) r \<noteq> []) SkippedProtectedLabel (applyProtectedLabelReason (ci_labels it) r),
       refuse_if (\<not> canClose d) SkippedInvalidDecision ''close decision is not high-confidence with an allowed close reason'',
       refuse_if (\<not> isAutoCloseAllowed p (ci_kind it) r) SkippedInvalidDecision
         (reason_text r @ '' is not allowed for '' @ rp_targetRepo p @ '' '' @ kind_text (ci_kind it) @ '' apply policy''),
       refuse_if (requiresMaintainerProductClose r \<and> (\<not> cd_maintainerRequired d \<or> cd_maintainerKind d \<noteq> ProductDirection))
         SkippedInvalidDecision ''product-scope close proposal requires an outstanding product-direction maintainer decision'',
       refuse_with True SkippedInvalidDecision (closeReasonItemKindError r (ci_kind it)),
       refuse_if (r = OversizedPullRequestReason \<and> parseOversizedPullRequestEvidence (cd_oversizedPullRequest d) = None)
         SkippedInvalidDecision ''oversized PR close requires complete GitHub size and head evidence'',
       refuse_if (r = OversizedPullRequestReason \<and> list_ex (\<lambda>l. to_lower (js_trim l) = ACCEPTED_LARGE_LABEL) (ci_labels it))
         SkippedCloseExemptLabel ''maintainer accepted large PR'',
       refuse_with True SkippedCloseExemptLabel (prAutoCloseExemptDecisionReason (ci_kind it) (ci_labels it) r)])"

text \<open>The evidence of the single reasons.\<close>

definition reason_checks :: "close_item \<Rightarrow> close_decision \<Rightarrow> validation option list" where
  "reason_checks it d =
     (let r = cd_closeReason d in
      [refuse_with (r = UnconfirmedProductDirection) SkippedInvalidDecision (unconfirmedProductDirectionDecisionBlockReason it d),
       refuse_with (r = UnsponsoredFeatureRequest) SkippedInvalidDecision (unsponsoredFeatureDecisionBlockReason it d),
       refuse_with (r = StalledUnprovenPr) SkippedInvalidDecision (stalledUnprovenPrDecisionBlockReason it d),
       refuse_with (r = AbandonedPr) SkippedInvalidDecision (abandonedPrDecisionBlockReason it d),
       refuse_with (r = AuthorPrBudgetExceeded) SkippedInvalidDecision (authorPrBudgetDecisionBlockReason it d),
       refuse_with (r = StaleVersionBug) SkippedInvalidDecision (staleVersionBugDecisionBlockReason it d),
       refuse_with (r = ObsoleteFixPr) SkippedInvalidDecision (obsoleteFixPrDecisionBlockReason it)])"

text \<open>The texts, and the fix of an implementation close.\<close>

definition evidence_checks :: "close_item \<Rightarrow> close_decision \<Rightarrow> bool \<Rightarrow> validation option list" where
  "evidence_checks it d requireCloseComment =
     (let r = cd_closeReason d; impl = isImplementationCloseReason r in
      [refuse_if (js_trim (cd_summary d) = []) SkippedInvalidDecision ''missing summary'',
       refuse_if (requireCloseComment \<and> \<not> hasUsableCloseComment (cd_closeComment d)) SkippedInvalidDecision ''missing close comment'',
       refuse_if (cd_evidence d = []) SkippedInvalidDecision ''missing evidence'',
       refuse_if (impl \<and> \<not> hasImplementationSourceEvidence d) SkippedInvalidDecision
         (reason_text r @ '' requires evidence with file and sha''),
       refuse_with (ci_kind it = PullItem \<and> impl) SkippedInvalidDecision (verifiedImplementationPullRequestBlockReason it d),
       refuse_if (impl \<and> \<not> has_text (cd_fixedSha d)) SkippedInvalidDecision (reason_text r @ '' requires fixedSha''),
       refuse_if (impl \<and> str_or_empty (cd_fixedAt d) \<noteq> [] \<and> \<not> hasValidFixedAt d) SkippedInvalidDecision
         (reason_text r @ '' fixedAt must be an ISO timestamp''),
       refuse_if (impl \<and> \<not> has_text (cd_fixedRelease d) \<and> \<not> hasValidFixedAt d) SkippedInvalidDecision
         (reason_text r @ '' requires fixedRelease or fixedAt'')])"

definition close_checks :: "repository_profile \<Rightarrow> close_item \<Rightarrow> close_decision \<Rightarrow> bool \<Rightarrow> validation option list" where
  "close_checks p it d requireCloseComment = outcome_checks p it d @ reason_checks it d @ evidence_checks it d requireCloseComment"

text \<open>The profile comes with the options or from the repository; an unknown repository throws.\<close>

definition validateCloseDecision ::
  "(string \<Rightarrow> string \<Rightarrow> bool) \<Rightarrow> target_config \<Rightarrow> close_item \<Rightarrow> close_decision \<Rightarrow> bool \<Rightarrow> repository_profile option \<Rightarrow> validation option" where
  "validateCloseDecision regex_test c it d requireCloseComment profile =
     map_option (\<lambda>p. first_refusal (close_checks p it d requireCloseComment))
       (case profile of Some p \<Rightarrow> Some p | None \<Rightarrow> repositoryProfileFor regex_test c (ci_repo it))"

subsection \<open>Flags of the environment\<close>

definition envFlagEnabled :: "json option \<Rightarrow> bool" where
  "envFlagEnabled v \<longleftrightarrow>
     (case string_value v of None \<Rightarrow> False | Some s \<Rightarrow> to_lower (js_trim s) \<in> {''1'', ''true'', ''yes'', ''on''})"

definition envFlagDisabled :: "json option \<Rightarrow> bool" where
  "envFlagDisabled v \<longleftrightarrow>
     (case string_value v of None \<Rightarrow> False
      | Some s \<Rightarrow> to_lower (js_trim s) \<in> {''0'', ''false'', ''no'', ''off'', ''disabled''})"

type_synonym environment = "string \<Rightarrow> string option"

definition env_flag :: "environment \<Rightarrow> string \<Rightarrow> bool" where
  "env_flag env k \<longleftrightarrow> envFlagEnabled (map_option JStr (env k))"

definition oversizedPrCloseEnabled :: "environment \<Rightarrow> bool" where
  "oversizedPrCloseEnabled env \<longleftrightarrow> env_flag env ''CLAWSWEEPER_OVERSIZED_PR_CLOSE_ENABLED''"

definition unconfirmedProductDirectionCloseEnabled :: "environment \<Rightarrow> bool" where
  "unconfirmedProductDirectionCloseEnabled env \<longleftrightarrow> env_flag env ''CLAWSWEEPER_UNCONFIRMED_PRODUCT_DIRECTION_CLOSE_ENABLED''"

definition unsponsoredFeatureCloseEnabled :: "environment \<Rightarrow> bool" where
  "unsponsoredFeatureCloseEnabled env \<longleftrightarrow> env_flag env ''CLAWSWEEPER_UNSPONSORED_FEATURE_CLOSE_ENABLED''"

definition authorPrBudgetCloseEnabled :: "environment \<Rightarrow> bool" where
  "authorPrBudgetCloseEnabled env \<longleftrightarrow> env_flag env ''CLAWSWEEPER_AUTHOR_PR_BUDGET_CLOSE_ENABLED''"

definition staleVersionBugCloseEnabled :: "environment \<Rightarrow> bool" where
  "staleVersionBugCloseEnabled env \<longleftrightarrow> env_flag env ''CLAWSWEEPER_STALE_VERSION_BUG_CLOSE_ENABLED''"

definition obsoleteFixPrCloseEnabled :: "environment \<Rightarrow> bool" where
  "obsoleteFixPrCloseEnabled env \<longleftrightarrow> env_flag env ''CLAWSWEEPER_OBSOLETE_FIX_PR_CLOSE_ENABLED''"

subsection \<open>The metadata-only decision about an oversized pull request\<close>

text \<open>\<open>toLocaleString("en-US")\<close>: groups of three digits.\<close>

fun grouped_rev :: "string \<Rightarrow> string" where
  "grouped_rev (a # b # c # d # s) = a # b # c # CHR '','' # grouped_rev (d # s)"
| "grouped_rev s = s"

definition locale_number :: "int \<Rightarrow> string" where
  "locale_number n = rev (grouped_rev (rev (int_str n)))"

definition oversizedPullRequestComment :: "oversized_evidence \<Rightarrow> bool \<Rightarrow> string" where
  "oversizedPullRequestComment sz closed =
     ''ClawSweeper '' @ (if closed then ''closed'' else ''proposes closing'') @ '' this pull request because it changes ''
     @ locale_number (ov_additions sz + ov_deletions sz) @ '' lines ('' @ locale_number (ov_additions sz) @ '' added, ''
     @ locale_number (ov_deletions sz) @ '' removed) across '' @ locale_number (ov_changedFiles sz)
     @ '' files, above this repository's '' @ locale_number (ov_threshold sz)
     @ ''-line limit for review. Changes this large cannot be reviewed safely or scanned within limits and usually indicate a stale branch merged against an old base. Please open a fresh pull request from current `main` containing only the intended change, or split it into focused pull requests. A maintainer can apply `''
     @ ACCEPTED_LARGE_LABEL @ ''` to exempt a deliberately large change.''"

text \<open>The evidence as the value the decision carries.\<close>

definition oversized_evidence_json :: "oversized_evidence \<Rightarrow> json" where
  "oversized_evidence_json sz = JObj [(''additions'', JNum (ov_additions sz)), (''deletions'', JNum (ov_deletions sz)),
     (''changedFiles'', JNum (ov_changedFiles sz)), (''threshold'', JNum (ov_threshold sz)), (''head'', JStr (ov_head sz))]"

definition oversizedPullRequestDecision :: "oversized_evidence \<Rightarrow> close_decision" where
  "oversizedPullRequestDecision sz = \<lparr>cd_decision = CloseWord, cd_closeReason = OversizedPullRequestReason,
     cd_confidence = HighConfidence,
     cd_summary = ''Pull request changes '' @ int_str (ov_additions sz + ov_deletions sz) @ '' lines, exceeding the ''
       @ int_str (ov_threshold sz) @ ''-line review limit.'',
     cd_evidence = [\<lparr>ev_file = None, ev_sha = Some (ov_head sz)\<rparr>],
     cd_maintainerRequired = False, cd_maintainerKind = NoMaintainerDecision, cd_itemCategory = UnclearItem,
     cd_requiresNewFeature = False, cd_requiresNewConfigOption = False, cd_requiresProductDecision = False,
     cd_securityStatus = SecurityNotApplicable, cd_securityConcerns = [], cd_reviewFindings = [],
     cd_overallCorrectness = NotAPatch, cd_proofStatus = ProofNotApplicable, cd_overallTier = TierNA,
     cd_fixedRelease = None, cd_fixedSha = None, cd_fixedAt = None, cd_fixedPullRequest = None,
     cd_closeComment = oversizedPullRequestComment sz True,
     cd_oversizedPullRequest = Some (oversized_evidence_json sz)\<rparr>"

subsection \<open>Ages\<close>

definition UNCONFIRMED_PRODUCT_DIRECTION_MIN_AGE_DAYS :: int where "UNCONFIRMED_PRODUCT_DIRECTION_MIN_AGE_DAYS = 14"
definition UNCONFIRMED_PRODUCT_DIRECTION_MIN_INACTIVE_DAYS :: int where "UNCONFIRMED_PRODUCT_DIRECTION_MIN_INACTIVE_DAYS = 7"
definition UNSPONSORED_FEATURE_MIN_AGE_DAYS :: int where "UNSPONSORED_FEATURE_MIN_AGE_DAYS = 90"
definition UNSPONSORED_FEATURE_MIN_INACTIVE_DAYS :: int where "UNSPONSORED_FEATURE_MIN_INACTIVE_DAYS = 60"
definition AUTHOR_PR_BUDGET_MIN_AGE_DAYS :: int where "AUTHOR_PR_BUDGET_MIN_AGE_DAYS = 7"
definition AUTHOR_PR_BUDGET_MIN_INACTIVE_DAYS :: int where "AUTHOR_PR_BUDGET_MIN_INACTIVE_DAYS = 7"
definition STALE_VERSION_BUG_MIN_AGE_DAYS :: int where "STALE_VERSION_BUG_MIN_AGE_DAYS = 120"
definition STALE_VERSION_BUG_MIN_INACTIVE_DAYS :: int where "STALE_VERSION_BUG_MIN_INACTIVE_DAYS = 90"
definition OBSOLETE_FIX_PR_MIN_AGE_DAYS :: int where "OBSOLETE_FIX_PR_MIN_AGE_DAYS = 90"
definition OBSOLETE_FIX_PR_MIN_INACTIVE_DAYS :: int where "OBSOLETE_FIX_PR_MIN_INACTIVE_DAYS = 30"

text \<open>A block names its reason and whether the hold was verified by dated evidence.\<close>

record guard_block =
  gb_reason :: string
  gb_holdVerified :: bool

definition closeReasonApplyAgeSkipReason :: "string \<Rightarrow> close_reason \<Rightarrow> int \<Rightarrow> string \<Rightarrow> int \<Rightarrow> int \<Rightarrow> string option" where
  "closeReasonApplyAgeSkipReason createdAt r minAgeMs minAgeDescription staleMinAgeDays now =
     (if (r = StaleInsufficientInfo \<or> r = MostlyImplementedOnMain) \<and> \<not> isOlderThanDays (Some createdAt) staleMinAgeDays now
      then Some (reason_text r @ '' requires item older than '' @ int_str staleMinAgeDays @ '' days'')
      else if \<not> isOlderThanMs (Some createdAt) minAgeMs now
      then Some (''created less than or equal to '' @ minAgeDescription @ '' ago'')
      else None)"

definition unconfirmedProductDirectionAgeBlock :: "string \<Rightarrow> string option \<Rightarrow> string option \<Rightarrow> int \<Rightarrow> guard_block option" where
  "unconfirmedProductDirectionAgeBlock createdAt reviewedUpdatedAt reviewedAt now =
     (let created = date_parse createdAt; source = date_parse_opt reviewedUpdatedAt; reviewed = date_parse_opt reviewedAt
      in if \<not> isOlderThanDays (Some createdAt) UNCONFIRMED_PRODUCT_DIRECTION_MIN_AGE_DAYS now
         then Some \<lparr>gb_reason = ''unconfirmed_product_direction requires PR older than ''
                  @ int_str UNCONFIRMED_PRODUCT_DIRECTION_MIN_AGE_DAYS @ '' days'',
                gb_holdVerified = (case created of None \<Rightarrow> False | Some c \<Rightarrow> c \<le> now)\<rparr>
         else if (case (source, reviewed) of
                    (Some u, Some v) \<Rightarrow> v - u \<le> UNCONFIRMED_PRODUCT_DIRECTION_MIN_INACTIVE_DAYS * MS_PER_DAY
                  | _ \<Rightarrow> True)
         then Some \<lparr>gb_reason = ''unconfirmed_product_direction requires ''
                  @ int_str UNCONFIRMED_PRODUCT_DIRECTION_MIN_INACTIVE_DAYS @ '' days without source activity before review'',
                gb_holdVerified = (case (created, source, reviewed) of
                    (Some c, Some u, Some v) \<Rightarrow> c \<le> u \<and> u \<le> v \<and> v \<le> now | _ \<Rightarrow> False)\<rparr>
         else None)"

definition min_age_skip :: "string \<Rightarrow> int \<Rightarrow> string \<Rightarrow> int \<Rightarrow> string option" where
  "min_age_skip prefix days createdAt now =
     (if \<not> isOlderThanDays (Some createdAt) days now then Some (prefix @ int_str days @ '' days'') else None)"

definition unsponsoredFeatureAgeSkipReason :: "string \<Rightarrow> int \<Rightarrow> string option" where
  "unsponsoredFeatureAgeSkipReason =
     min_age_skip ''unsponsored_feature_request requires issue older than '' UNSPONSORED_FEATURE_MIN_AGE_DAYS"

definition authorPrBudgetAgeSkipReason :: "string \<Rightarrow> int \<Rightarrow> string option" where
  "authorPrBudgetAgeSkipReason = min_age_skip ''author_pr_budget_exceeded requires PR older than '' AUTHOR_PR_BUDGET_MIN_AGE_DAYS"

definition staleVersionBugAgeSkipReason :: "string \<Rightarrow> int \<Rightarrow> string option" where
  "staleVersionBugAgeSkipReason = min_age_skip ''stale_version_bug requires issue older than '' STALE_VERSION_BUG_MIN_AGE_DAYS"

definition obsoleteFixPrAgeSkipReason :: "string \<Rightarrow> int \<Rightarrow> string option" where
  "obsoleteFixPrAgeSkipReason = min_age_skip ''obsolete_fix_pr requires PR older than '' OBSOLETE_FIX_PR_MIN_AGE_DAYS"

end
