(* ===== verification/Close_Activity.thy ===== *)
theory Close_Activity
  imports Close_Policy
begin

text \<open>
  What the apply guards read from GitHub before a close (\<open>clawsweeper-apply-guard-activity.ts\<close>,
  \<open>github-content-edits.ts\<close>): comments, reviews, edits, workflow runs and checks. The two readers of
  the code, \<open>ghJson\<close> and \<open>ghPaged\<close>, are parameters that answer a request with a JSON value or with
  the text of an error; a guard remembers what it read, so one check sees one answer per request.
  The clock is read once per check. A thrown error is \<open>Inl\<close> of its text.
\<close>

subsection \<open>Reads that may throw\<close>

type_synonym 'a attempt = "string + 'a"

definition and_then :: "'a attempt \<Rightarrow> ('a \<Rightarrow> 'b attempt) \<Rightarrow> 'b attempt" where
  "and_then m f = (case m of Inl e \<Rightarrow> Inl e | Inr x \<Rightarrow> f x)"

record guard_reads =
  gr_json :: "string list \<Rightarrow> json attempt"
  gr_paged :: "string \<Rightarrow> json list attempt"
  gr_repo :: string

definition quote_mark :: string where "quote_mark = [CHR 0x27]"

text \<open>\<open>value.key\<close>, which throws when the value is \<open>null\<close>.\<close>

definition member_of :: "json \<Rightarrow> string \<Rightarrow> json option attempt" where
  "member_of v k =
     (case v of JNull \<Rightarrow> Inl (''Cannot read properties of null (reading '' @ quote_mark @ k @ quote_mark @ '')'')
      | JObj fs \<Rightarrow> Inr (map_of fs k) | _ \<Rightarrow> Inr None)"

text \<open>\<open>value?.key\<close> and \<open>asRecord(value).key\<close>\<close>

definition field_of :: "json option \<Rightarrow> string \<Rightarrow> json option" where
  "field_of v k = map_of (objectValue v) k"

text \<open>\<open>a ?? b\<close>\<close>

definition or_else :: "json option \<Rightarrow> json option \<Rightarrow> json option" where
  "or_else a b = (case a of None \<Rightarrow> b | Some JNull \<Rightarrow> b | Some x \<Rightarrow> Some x)"

text \<open>\<open>(value ?? []).length > 0\<close>\<close>

definition has_entries :: "json option \<Rightarrow> bool" where
  "has_entries v \<longleftrightarrow>
     (case v of None \<Rightarrow> False
      | Some (JArr xs) \<Rightarrow> xs \<noteq> []
      | Some (JStr s) \<Rightarrow> s \<noteq> []
      | Some (JObj fs) \<Rightarrow> (case js_number (map_of fs ''length'') of Some n \<Rightarrow> 0 < n | None \<Rightarrow> False)
      | _ \<Rightarrow> False)"

text \<open>\<open>for (const x of value ?? [])\<close>\<close>

definition iterated :: "json option \<Rightarrow> json list attempt" where
  "iterated v =
     (case v of None \<Rightarrow> Inr []
      | Some JNull \<Rightarrow> Inr []
      | Some (JArr xs) \<Rightarrow> Inr xs
      | Some (JStr s) \<Rightarrow> Inr (map (\<lambda>c. JStr [c]) s)
      | _ \<Rightarrow> Inl ''value is not iterable'')"

definition login :: "json option \<Rightarrow> string option" where
  "login v = string_value (field_of v ''login'')"

definition nonBlankStringOrUndefined :: "json option \<Rightarrow> string option" where
  "nonBlankStringOrUndefined v =
     (case string_value v of None \<Rightarrow> None | Some s \<Rightarrow> if js_trim s = [] then None else Some s)"

text \<open>\<open>Date.parse(typeof value === "string" ? value : "")\<close>\<close>

definition date_of :: "json option \<Rightarrow> int option" where
  "date_of v = date_parse_opt (string_value v)"

text \<open>\<open>a === b\<close> of two fields\<close>

definition js_identical :: "json option \<Rightarrow> json option \<Rightarrow> bool" where
  "js_identical a b \<longleftrightarrow>
     a = b \<and> (case a of Some (JArr xs) \<Rightarrow> False | Some (JObj fs) \<Rightarrow> False | _ \<Rightarrow> True)"

definition starts_with :: "string \<Rightarrow> string \<Rightarrow> bool" where
  "starts_with p s \<longleftrightarrow> take (length p) s = p"

definition ends_with :: "string \<Rightarrow> string \<Rightarrow> bool" where
  "ends_with p s \<longleftrightarrow> length p \<le> length s \<and> drop (length s - length p) s = p"

definition includes_text :: "string \<Rightarrow> string \<Rightarrow> bool" where
  "includes_text s p \<longleftrightarrow> list_ex (\<lambda>i. starts_with p (drop i s)) [0..<Suc (length s)]"

text \<open>\<open>encodeURIComponent\<close> of a text in UTF-8\<close>

definition uri_char :: "char \<Rightarrow> bool" where
  "uri_char c \<longleftrightarrow> is_dec c \<or> (let n = (of_char c :: nat) in (65 \<le> n \<and> n \<le> 90) \<or> (97 \<le> n \<and> n \<le> 122))
     \<or> c \<in> {CHR ''-'', CHR ''_'', CHR ''.'', CHR ''!'', CHR ''~'', CHR ''*'', CHR 0x27, CHR ''('', CHR '')''}"

definition upper_hex :: "nat \<Rightarrow> char" where
  "upper_hex n = (if n < 10 then char_of (48 + n) else char_of (55 + n))"

definition encodeURIComponent :: "string \<Rightarrow> string" where
  "encodeURIComponent s =
     concat (map (\<lambda>c. if uri_char c then [c]
        else let n = (of_char c :: nat) in [CHR ''%'', upper_hex (n div 16), upper_hex (n mod 16)]) s)"

fun split_on :: "char \<Rightarrow> string \<Rightarrow> string list" where
  "split_on d [] = [[]]"
| "split_on d (c # s) =
     (if c = d then [] # split_on d s
      else case split_on d s of w # ws \<Rightarrow> (c # w) # ws | [] \<Rightarrow> [[c]])"

definition githubContentsPath :: "string \<Rightarrow> string" where
  "githubContentsPath p = join_with ''/'' (map encodeURIComponent (split_on (CHR ''/'') p))"

text \<open>\<open>/\b(?:HTTP\s*)?404\b/i\<close> and \<open>/\bnot found\b/i\<close>: a word that starts and ends at a boundary.\<close>

definition boundary_char :: "char \<Rightarrow> bool" where
  "boundary_char c \<longleftrightarrow> is_dec c \<or> c = CHR ''_'' \<or> (let n = (of_char c :: nat) in (65 \<le> n \<and> n \<le> 90) \<or> (97 \<le> n \<and> n \<le> 122))"

definition word_at :: "string \<Rightarrow> string \<Rightarrow> nat \<Rightarrow> bool" where
  "word_at p s i \<longleftrightarrow> starts_with p (drop i s) \<and> (i = 0 \<or> \<not> boundary_char (s ! (i - 1)))
     \<and> (length s \<le> i + length p \<or> \<not> boundary_char (s ! (i + length p)))"

definition has_word :: "string \<Rightarrow> string \<Rightarrow> bool" where
  "has_word p s \<longleftrightarrow> list_ex (word_at p s) [0..<length s]"

definition isGitHubNotFoundError :: "string \<Rightarrow> bool" where
  "isGitHubNotFoundError e \<longleftrightarrow>
     (let m = to_lower e in (has_word ''404'' m \<or> has_word ''http404'' m) \<and> has_word ''not found'' m)"

subsection \<open>Activity of people\<close>

definition maintainerAssociatedEntries :: "json list \<Rightarrow> json list" where
  "maintainerAssociatedEntries entries =
     filter (\<lambda>e. isMaintainerAuthorAssociation (field_of (Some e) ''author_association'')) entries"

fun recentHumanActivityBlockReason :: "json list \<Rightarrow> int \<Rightarrow> int \<Rightarrow> string option" where
  "recentHumanActivityBlockReason [] days now = None"
| "recentHumanActivityBlockReason (e # es) days now =
     (let r = Some e; actor = Some (JObj (objectValue (or_else (field_of r ''user'') (field_of r ''actor''))))
      in if field_of actor ''type'' = Some (JStr ''Bot'') then recentHumanActivityBlockReason es days now
         else if str_or_empty (login actor) = [] then Some ''PR human activity identity is unavailable''
         else case date_parse_opt (nonBlankStringOrUndefined (or_else (field_of r ''submitted_at'')
                (or_else (field_of r ''createdAt'') (field_of r ''created_at'')))) of
             None \<Rightarrow> Some (''PR has human comment, review, or edit activity within the last '' @ int_str days @ '' days'')
           | Some t \<Rightarrow>
               if now < t \<or> now - t \<le> days * MS_PER_DAY
               then Some (''PR has human comment, review, or edit activity within the last '' @ int_str days @ '' days'')
               else recentHumanActivityBlockReason es days now)"

definition lowSignalUnmergeablePrConflictBlockReason :: "json option \<Rightarrow> string option" where
  "lowSignalUnmergeablePrConflictBlockReason pull =
     (let state = to_lower (case nonBlankStringOrUndefined (field_of pull ''mergeableState'') of Some s \<Rightarrow> s
            | None \<Rightarrow> (case nonBlankStringOrUndefined (field_of pull ''mergeable_state'') of Some s \<Rightarrow> s | None \<Rightarrow> ''unknown''))
      in if field_of pull ''mergeable'' = Some (JBool False) \<and> state = ''dirty'' then None
         else Some (''low_signal_unmergeable_pr requires a live merge conflict; GitHub reports mergeable=''
           @ (case field_of pull ''mergeable'' of Some (JBool b) \<Rightarrow> (if b then ''true'' else ''false'') | _ \<Rightarrow> ''unknown'')
           @ '', mergeable_state='' @ state))"

definition githubActivityTimestampMs :: "json \<Rightarrow> int option" where
  "githubActivityTimestampMs v =
     (case List.map_filter (\<lambda>k. date_of (field_of (Some v) k))
        [''updatedAt'', ''updated_at'', ''submitted_at'', ''createdAt'', ''created_at''] of
        [] \<Rightarrow> None | t # ts \<Rightarrow> Some t)"

definition githubActivityLogin :: "json \<Rightarrow> string" where
  "githubActivityLogin v =
     to_lower (js_trim (case nonBlankStringOrUndefined (field_of (Some v) ''author'') of Some s \<Rightarrow> s
       | None \<Rightarrow> (case login (field_of (Some v) ''user'') of Some s \<Rightarrow> s
       | None \<Rightarrow> (case nonBlankStringOrUndefined (field_of (Some v) ''actor'') of Some s \<Rightarrow> s
       | None \<Rightarrow> str_or_empty (login (field_of (Some v) ''actor''))))))"

text \<open>The later of two instants; \<open>None\<close> is minus infinity, or nothing observed.\<close>

definition later_of :: "int option \<Rightarrow> int option \<Rightarrow> int option" where
  "later_of a b = (case a of None \<Rightarrow> b | Some x \<Rightarrow> (case b of None \<Rightarrow> Some x | Some y \<Rightarrow> Some (max x y)))"

definition latest_of :: "int option list \<Rightarrow> int option" where
  "latest_of ts = foldl later_of None ts"

definition author_activity :: "string \<Rightarrow> json list \<Rightarrow> int option" where
  "author_activity author vs =
     latest_of (map githubActivityTimestampMs (filter (\<lambda>v. githubActivityLogin v = author) vs))"

definition timeline_activity_event :: "json \<Rightarrow> bool" where
  "timeline_activity_event e \<longleftrightarrow>
     (let name = str_or_empty (nonBlankStringOrUndefined (field_of (Some e) ''event''))
      in name \<in> {''commented'', ''committed'', ''head_ref_force_pushed'', ''head_ref_restored''}
         \<or> nonBlankStringOrUndefined (field_of (Some e) ''commitId'') \<noteq> None
         \<or> nonBlankStringOrUndefined (field_of (Some e) ''commit_id'') \<noteq> None)"

definition latestPullRequestAuthorActivityAtMs ::
  "string \<Rightarrow> string \<Rightarrow> json list \<Rightarrow> json list \<Rightarrow> json list \<Rightarrow> json list \<Rightarrow> int option \<Rightarrow> int option" where
  "latestPullRequestAuthorActivityAtMs author createdAt comments reviews inlineComments timeline headActivityAtMs =
     (let name = to_lower (js_trim author)
      in if name = [] then None
         else latest_of [date_parse createdAt,
           author_activity name (comments @ reviews @ inlineComments @ filter timeline_activity_event timeline), headActivityAtMs])"

definition LOW_SIGNAL_UNMERGEABLE_PR_MIN_INACTIVE_DAYS :: int where "LOW_SIGNAL_UNMERGEABLE_PR_MIN_INACTIVE_DAYS = 30"

text \<open>The configured number of days is \<open>None\<close> when it is not finite.\<close>

definition lowSignalUnmergeablePrAuthorActivityBlockReason ::
  "string \<Rightarrow> string \<Rightarrow> json list \<Rightarrow> json list \<Rightarrow> json list \<Rightarrow> json list \<Rightarrow> int option \<Rightarrow> int option \<Rightarrow> bool \<Rightarrow> int \<Rightarrow> string option" where
  "lowSignalUnmergeablePrAuthorActivityBlockReason author createdAt comments reviews inlineComments timeline headActivityAtMs
     staleMinAgeDays requireHeadActivityEvidence now =
     (if requireHeadActivityEvidence \<and> headActivityAtMs = None
      then Some ''low_signal_unmergeable_pr requires dated activity evidence for the current head''
      else case latestPullRequestAuthorActivityAtMs author createdAt comments reviews inlineComments timeline headActivityAtMs of
          None \<Rightarrow> Some ''low_signal_unmergeable_pr requires dated author and current-head activity evidence''
        | Some t \<Rightarrow>
            let configured = (case staleMinAgeDays of Some n \<Rightarrow> max 0 n | None \<Rightarrow> LOW_SIGNAL_UNMERGEABLE_PR_MIN_INACTIVE_DAYS);
                days = max LOW_SIGNAL_UNMERGEABLE_PR_MIN_INACTIVE_DAYS configured
            in if now - t \<le> days * MS_PER_DAY
               then Some (''low_signal_unmergeable_pr requires '' @ int_str days @ '' days without author comments or head activity'')
               else None)"

fun issueRecentHumanCommentBlockFromComments :: "json list \<Rightarrow> int \<Rightarrow> int \<Rightarrow> guard_block option" where
  "issueRecentHumanCommentBlockFromComments [] days now = None"
| "issueRecentHumanCommentBlockFromComments (c # cs) days now =
     (let author_type = field_of (field_of (Some c) ''user'') ''type'';
          createdAt = str_or_empty (string_value (field_of (Some c) ''created_at''))
      in if author_type = Some (JStr ''Bot'') then issueRecentHumanCommentBlockFromComments cs days now
         else if \<not> isOlderThanDays (Some createdAt) days now
         then Some \<lparr>gb_reason = ''issue has a non-bot comment within the last '' @ int_str days @ '' days'',
                gb_holdVerified = (date_parse createdAt \<noteq> None \<and> author_type = Some (JStr ''User''))\<rparr>
         else issueRecentHumanCommentBlockFromComments cs days now)"

definition isWorkflowOrCiPath :: "string \<Rightarrow> bool" where
  "isWorkflowOrCiPath path \<longleftrightarrow>
     (let p = to_lower path
      in list_ex (\<lambda>q. starts_with q p) [''.github/workflows/'', ''.github/actions/'', ''.circleci/'', ''.buildkite/'', ''ci/'']
         \<or> p \<in> {''.gitlab-ci.yml'', ''azure-pipelines.yml'', ''jenkinsfile''})"

text \<open>The rating and the proof status that the report of the review records.\<close>

definition authorPrBudgetSignalBlockReason :: "rating_tier \<Rightarrow> proof_status \<Rightarrow> string option" where
  "authorPrBudgetSignalBlockReason tier status =
     (if tier \<in> {TierS, TierA, TierB} \<and> status \<in> {ProofSufficient, ProofOverride}
      then Some ''author_pr_budget_exceeded cannot close a high-quality proven pull request''
      else if tier \<notin> {TierD, TierF} \<and> status \<notin> STALLED_UNPROVEN_PROOF_STATUSES
      then Some ''author_pr_budget_exceeded requires a D/F rating or missing, mock-only, or insufficient real behavior proof''
      else None)"

subsection \<open>The edit history of comments\<close>

definition EDIT_FIELDS :: string where
  "EDIT_FIELDS = ''id ...on Comment{lastEditedAt userContentEdits(first:100,after:$after){totalCount nodes{id editedAt editor{__typename ...on User{id:databaseId} ...on Bot{id:databaseId}}} pageInfo{hasNextPage endCursor}}}''"

text \<open>What the pages of one node have shown so far.\<close>

record edit_progress =
  ep_seen :: "string list"
  ep_latest :: int
  ep_humanTimes :: "int list"

text \<open>One edit of a page: its identity is new, its time is known, and its editor is a user or a bot.\<close>

definition edit_entry :: "edit_progress \<Rightarrow> json \<Rightarrow> edit_progress attempt" where
  "edit_entry pr v =
     (let edit = Some v; editor = field_of edit ''editor''; typename = field_of editor ''__typename''
      in case (string_value (field_of edit ''id''), date_of (field_of edit ''editedAt''), field_of editor ''id'') of
           (Some i, Some t, Some (JNum n)) \<Rightarrow>
             if i = [] \<or> i \<in> set (ep_seen pr) \<or> t \<le> 0 \<or> \<not> safe_integer n \<or> n \<le> 0
                \<or> (case typename of None \<Rightarrow> True | Some w \<Rightarrow> js_string w \<notin> {''User'', ''Bot''})
             then Inl ''unknown content edit attribution''
             else Inr \<lparr>ep_seen = i # ep_seen pr, ep_latest = max (ep_latest pr) t,
               ep_humanTimes = (if typename = Some (JStr ''User'') then ep_humanTimes pr @ [t] else ep_humanTimes pr)\<rparr>
         | _ \<Rightarrow> Inl ''unknown content edit attribution'')"

fun edit_entries :: "edit_progress \<Rightarrow> json list \<Rightarrow> edit_progress attempt" where
  "edit_entries pr [] = Inr pr"
| "edit_entries pr (v # vs) = and_then (edit_entry pr v) (\<lambda>q. edit_entries q vs)"

definition last_edited :: "json option \<Rightarrow> int option" where
  "last_edited v = (case v of Some JNull \<Rightarrow> Some 0 | _ \<Rightarrow> date_of v)"

definition data_of :: "json \<Rightarrow> json option" where
  "data_of v = field_of (Some v) ''data''"

text \<open>The nodes, the count and whether more pages follow, of a page that is well formed.\<close>

definition edit_header :: "json option \<Rightarrow> string \<Rightarrow> (json list \<times> int \<times> bool) option" where
  "edit_header node i =
     (let history = field_of node ''userContentEdits'' in
      case (field_of history ''nodes'', field_of history ''totalCount'', field_of (field_of history ''pageInfo'') ''hasNextPage'') of
        (Some (JArr nodes), Some (JNum n), Some (JBool next)) \<Rightarrow>
          if field_of node ''id'' = Some (JStr i) \<and> field_of node ''lastEditedAt'' \<noteq> None \<and> safe_integer n \<and> 0 \<le> n
          then Some (nodes, n, next) else None
      | _ \<Rightarrow> None)"

text \<open>
  The pages of one node, at most 100: \<open>base\<close> is \<open>None\<close> on the first page, then the count and the
  last edit that the first page gave.
\<close>

fun edit_pages :: "guard_reads \<Rightarrow> string \<Rightarrow> nat \<Rightarrow> (int \<times> json option) option \<Rightarrow> string list \<Rightarrow> edit_progress \<Rightarrow> json option \<Rightarrow> edit_progress attempt" where
  "edit_pages r i 0 base cursors pr node = Inl ''content edit history exceeds pagination bound''"
| "edit_pages r i (Suc k) base cursors pr node =
     (let edited = field_of node ''lastEditedAt'';
          cursor = str_or_empty (string_value (field_of (field_of (field_of node ''userContentEdits'') ''pageInfo'') ''endCursor''))
      in case edit_header node i of
           None \<Rightarrow> Inl ''incomplete content edit history''
         | Some (nodes, n, next) \<Rightarrow>
             if (case base of None \<Rightarrow> False | Some (m, e) \<Rightarrow> m \<noteq> n \<or> \<not> js_identical e edited)
             then Inl ''content edit history changed while reading''
             else and_then (edit_entries pr nodes) (\<lambda>q.
               if \<not> next
               then (if int (length (ep_seen q)) \<noteq> n \<or> last_edited edited \<noteq> Some (ep_latest q)
                     then Inl ''incomplete content edit history'' else Inr q)
               else if cursor = [] \<or> cursor \<in> set cursors \<or> nodes = [] \<or> n \<le> int (length (ep_seen q))
               then Inl ''incomplete content edit pagination''
               else and_then (gr_json r [''api'', ''graphql'', ''-f'',
                       ''query=query($after:String){node(id:'' @ quote_json i @ ''){'' @ EDIT_FIELDS @ ''}}'', ''-f'', ''after='' @ cursor])
                 (\<lambda>v. edit_pages r i k (Some (n, edited)) (cursor # cursors) q
                   (Some (JObj (objectValue (field_of (data_of v) ''node'')))))))"

fun edit_nodes :: "guard_reads \<Rightarrow> json list \<Rightarrow> string list \<Rightarrow> int list \<Rightarrow> int list attempt" where
  "edit_nodes r nodes [] human = Inr human"
| "edit_nodes r nodes (i # is) human =
     (case filter (\<lambda>v. field_of (Some v) ''id'' = Some (JStr i)) nodes of
        [v] \<Rightarrow> and_then (edit_pages r i 100 None [] \<lparr>ep_seen = [], ep_latest = 0, ep_humanTimes = human\<rparr> (Some v))
                 (\<lambda>q. edit_nodes r nodes is (ep_humanTimes q))
      | _ \<Rightarrow> Inl ''ambiguous content edit identity'')"

definition json_array :: "string list \<Rightarrow> string" where
  "json_array is = ''['' @ comma_join (map quote_json is) @ '']''"

function edit_batches :: "guard_reads \<Rightarrow> string list \<Rightarrow> int list \<Rightarrow> int list attempt" where
  "edit_batches r ids human =
     (if ids = [] then Inr human
      else let batch = take 25 ids
        in and_then (gr_json r [''api'', ''graphql'', ''-f'',
               ''query=query($after:String){nodes(ids:'' @ json_array batch @ ''){'' @ EDIT_FIELDS @ ''}}'']) (\<lambda>v.
           case field_of (data_of v) ''nodes'' of
             Some (JArr nodes) \<Rightarrow>
               if length nodes \<noteq> length batch then Inl ''missing content edit nodes''
               else and_then (edit_nodes r nodes batch human) (\<lambda>ts. edit_batches r (drop 25 ids) ts)
           | _ \<Rightarrow> Inl ''missing content edit nodes''))"
  by pat_completeness auto
termination by (relation "measure (\<lambda>(r, ids, human). length ids)") auto

declare edit_batches.simps [simp del]

definition githubHumanContentEditTimes :: "guard_reads \<Rightarrow> string list \<Rightarrow> int list attempt" where
  "githubHumanContentEditTimes r ids =
     (if [] \<in> set ids \<or> \<not> distinct ids then Inl ''missing or duplicate content identity'' else edit_batches r ids [])"

subsection \<open>Reads about one item\<close>

definition issue_path :: "guard_reads \<Rightarrow> nat \<Rightarrow> string" where
  "issue_path r number = ''repos/'' @ gr_repo r @ ''/issues/'' @ nat_str number"

definition pull_path :: "guard_reads \<Rightarrow> nat \<Rightarrow> string" where
  "pull_path r number = ''repos/'' @ gr_repo r @ ''/pulls/'' @ nat_str number"

definition issueRecentHumanCommentBlock :: "guard_reads \<Rightarrow> int \<Rightarrow> nat \<Rightarrow> int \<Rightarrow> guard_block option attempt" where
  "issueRecentHumanCommentBlock r now number days =
     and_then (gr_paged r (issue_path r number @ ''/comments'')) (\<lambda>cs. Inr (issueRecentHumanCommentBlockFromComments cs days now))"

text \<open>\<open>try ... catch\<close>: an error becomes a block with the given prefix.\<close>

definition block_on_error :: "string \<Rightarrow> guard_block option attempt \<Rightarrow> guard_block option" where
  "block_on_error prefix m = (case m of Inl e \<Rightarrow> Some \<lparr>gb_reason = prefix @ e, gb_holdVerified = False\<rparr> | Inr b \<Rightarrow> b)"

definition reason_on_error :: "string \<Rightarrow> string option attempt \<Rightarrow> string option" where
  "reason_on_error prefix m = (case m of Inl e \<Rightarrow> Some (prefix @ e) | Inr b \<Rightarrow> b)"

definition issueRecentHumanCommentBlockSafe :: "guard_reads \<Rightarrow> int \<Rightarrow> nat \<Rightarrow> int \<Rightarrow> guard_block option" where
  "issueRecentHumanCommentBlockSafe r now number days =
     block_on_error ''issue comment activity check failed: '' (issueRecentHumanCommentBlock r now number days)"

record known_engagement =
  ke_assignees :: "json option"
  ke_requestedReviewers :: "json option"
  ke_requestedTeams :: "json option"

definition needs_history :: "json \<Rightarrow> bool" where
  "needs_history v \<longleftrightarrow>
     (let actor = field_of (Some v) ''user''
      in field_of actor ''type'' = Some (JStr ''Bot'') \<or> ends_with ''[bot]'' (str_or_empty (login actor))
         \<or> \<not> js_identical (field_of (Some v) ''updated_at'') (field_of (Some v) ''created_at''))"

text \<open>Edits of the body, the reviews and the comments, once no entry itself is recent.\<close>

definition edit_activity :: "guard_reads \<Rightarrow> int \<Rightarrow> nat \<Rightarrow> json list \<Rightarrow> json list \<Rightarrow> json list \<Rightarrow> int \<Rightarrow> string option attempt" where
  "edit_activity r now number comments reviews inlineComments days =
     (let repo = gr_repo r;
          name = (if CHR ''/'' \<in> set repo then name_part repo else ''undefined'')
      in and_then (gr_json r [''api'', ''graphql'', ''-f'',
           ''query=query($owner:String!,$name:String!,$number:Int!){repository(owner:$owner,name:$name){pullRequest(number:$number){id lastEditedAt}}}'',
           ''-f'', ''owner='' @ owner_part repo, ''-f'', ''name='' @ name, ''-F'', ''number='' @ nat_str number]) (\<lambda>v.
         let edited = field_of (field_of (data_of v) ''repository'') ''pullRequest''
         in case field_of edited ''lastEditedAt'' of
              None \<Rightarrow> Inr (Some ''PR body edit activity is unavailable'')
            | Some last_edit \<Rightarrow>
                let ids = (if last_edit = JNull then [] else [str_or_empty (nonBlankStringOrUndefined (field_of edited ''id''))])
                      @ map (\<lambda>x. str_or_empty (nonBlankStringOrUndefined (field_of (Some x) ''node_id'')))
                          (filter needs_history comments @ reviews @ filter needs_history inlineComments)
                in Inr (case githubHumanContentEditTimes r ids of
                     Inl e \<Rightarrow> Some (''PR attributed edit activity is unavailable: '' @ e)
                   | Inr human \<Rightarrow>
                       if list_ex (\<lambda>t. now - t \<le> days * MS_PER_DAY) human
                       then Some (''PR has human edit activity within the last '' @ int_str days @ '' days'') else None)))"

definition entries_activity :: "guard_reads \<Rightarrow> int \<Rightarrow> nat \<Rightarrow> int option \<Rightarrow> string option attempt" where
  "entries_activity r now number inactiveDays =
     and_then (gr_paged r (issue_path r number @ ''/comments'')) (\<lambda>comments.
       if maintainerAssociatedEntries comments \<noteq> [] then Inr (Some ''maintainer issue comment blocks inactivity auto-close'')
       else and_then (gr_paged r (pull_path r number @ ''/reviews'')) (\<lambda>reviews.
       if maintainerAssociatedEntries reviews \<noteq> [] then Inr (Some ''maintainer PR review blocks inactivity auto-close'')
       else and_then (gr_paged r (pull_path r number @ ''/comments'')) (\<lambda>inlineComments.
       if maintainerAssociatedEntries inlineComments \<noteq> [] then Inr (Some ''maintainer inline review comment blocks inactivity auto-close'')
       else case inactiveDays of
           None \<Rightarrow> Inr None
         | Some days \<Rightarrow>
             (case recentHumanActivityBlockReason (comments @ reviews @ inlineComments) days now of
                Some b \<Rightarrow> Inr (Some b)
              | None \<Rightarrow> edit_activity r now number comments reviews inlineComments days))))"

definition pullRequestHumanEngagementBlockReason ::
  "guard_reads \<Rightarrow> int \<Rightarrow> nat \<Rightarrow> known_engagement option \<Rightarrow> int option \<Rightarrow> string option attempt" where
  "pullRequestHumanEngagementBlockReason r now number known inactiveDays =
     and_then (case known of
         Some k \<Rightarrow> Inr (ke_assignees k)
       | None \<Rightarrow> and_then (gr_json r [''api'', issue_path r number, ''--jq'', ''{assignees:[.assignees[]? | {login:.login}]}''])
                   (\<lambda>v. member_of v ''assignees'')) (\<lambda>assignees.
     if has_entries assignees then Inr (Some ''assigned PR has active human signal'')
     else and_then (case known of
         Some k \<Rightarrow> Inr (ke_requestedReviewers k, ke_requestedTeams k)
       | None \<Rightarrow> and_then (gr_json r [''api'', pull_path r number, ''--jq'',
              ''{requested_reviewers:[.requested_reviewers[]? | {login:.login}],requested_teams:[.requested_teams[]? | {slug:.slug}]}''])
            (\<lambda>v. and_then (member_of v ''requested_reviewers'') (\<lambda>a. Inr (a, field_of (Some v) ''requested_teams'')))) (\<lambda>(reviewers, teams).
     if has_entries reviewers \<or> has_entries teams then Inr (Some ''requested reviewers or teams indicate active review signal'')
     else entries_activity r now number inactiveDays))"

text \<open>The latest pull-request run or force push that produced the head commit.\<close>

definition source_run :: "nat \<Rightarrow> json \<Rightarrow> json \<Rightarrow> bool" where
  "source_run number pull v \<longleftrightarrow>
     (let run = Some v; head = field_of (Some pull) ''head''; head_repo = field_of head ''repo'';
          run_repo = field_of run ''head_repository'';
          direct = (case field_of run ''pull_requests'' of
              Some (JArr ps) \<Rightarrow> list_ex (\<lambda>p. js_number (field_of (Some p) ''number'') = Some (int number)) ps
            | _ \<Rightarrow> False);
          same_branch = ((case field_of head ''ref'' of Some (JStr b) \<Rightarrow> field_of run ''head_branch'' = Some (JStr b) | _ \<Rightarrow> False)
            \<and> ((case js_number (field_of head_repo ''id'') of Some n \<Rightarrow> js_number (field_of run_repo ''id'') = Some n | None \<Rightarrow> False)
               \<or> (case field_of head_repo ''full_name'' of Some (JStr n) \<Rightarrow> field_of run_repo ''full_name'' = Some (JStr n) | _ \<Rightarrow> False))
            \<and> (case (date_of (field_of (Some pull) ''created_at''), date_of (field_of run ''created_at'')) of
                 (Some a, Some b) \<Rightarrow> a \<le> b | _ \<Rightarrow> False))
      in field_of run ''event'' = Some (JStr ''pull_request'') \<and> (direct \<or> same_branch))"

definition force_push_of :: "string \<Rightarrow> json \<Rightarrow> bool" where
  "force_push_of headSha e \<longleftrightarrow> field_of (Some e) ''event'' = Some (JStr ''head_ref_force_pushed'')
     \<and> (case nonBlankStringOrUndefined (field_of (Some e) ''commitId'') of Some c \<Rightarrow> Some c
         | None \<Rightarrow> nonBlankStringOrUndefined (field_of (Some e) ''commit_id'')) = Some headSha"

definition force_push_date :: "json \<Rightarrow> int option" where
  "force_push_date e =
     (case nonBlankStringOrUndefined (field_of (Some e) ''createdAt'') of Some t \<Rightarrow> date_parse t
      | None \<Rightarrow> date_of (field_of (Some e) ''created_at''))"

definition pullRequestHeadActivity :: "guard_reads \<Rightarrow> nat \<Rightarrow> json \<Rightarrow> json list \<Rightarrow> (string \<times> int option) attempt" where
  "pullRequestHeadActivity r number pull timeline =
     and_then (member_of pull ''head'') (\<lambda>head.
       let headSha = str_or_empty (string_value (field_of head ''sha''))
       in if headSha = [] then Inr (headSha, None)
          else and_then (gr_json r [''api'', ''repos/'' @ gr_repo r @ ''/actions/runs?head_sha='' @ encodeURIComponent headSha
                 @ ''&event=pull_request&per_page=100'']) (\<lambda>v.
               and_then (member_of v ''workflow_runs'') (\<lambda>w. and_then (iterated w) (\<lambda>runs.
                 Inr (headSha, later_of
                   (latest_of (map (\<lambda>x. date_of (field_of (Some x) ''created_at'')) (filter (source_run number pull) runs)))
                   (latest_of (map force_push_date (filter (force_push_of headSha) timeline))))))))"

record live_activity =
  la_state :: "json option"
  la_createdAt :: string
  la_draft :: bool
  la_headSha :: string
  la_changedFiles :: "int option"
  la_requestedReviewers :: "json option"
  la_requestedTeams :: "json option"
  la_headActivityAtMs :: "int option"
  la_headStatusActivityAtMs :: "int option"
  la_headChecksFailing :: bool
  la_headConflicted :: bool

definition status_activity :: "json \<Rightarrow> int option" where
  "status_activity v =
     latest_of (map (\<lambda>k. date_of (field_of (Some v) k)) [''completed_at'', ''started_at'', ''updated_at'', ''created_at''])"

definition FAILING_CHECK_RUN_CONCLUSIONS :: "string set" where
  "FAILING_CHECK_RUN_CONCLUSIONS = {''failure'', ''timed_out''}"

text \<open>The statuses and check runs of the head: the latest activity, and whether one of them fails.\<close>

definition head_checks :: "guard_reads \<Rightarrow> string \<Rightarrow> (int option \<times> bool) attempt" where
  "head_checks r headSha =
     (if headSha = [] then Inr (None, False)
      else and_then (gr_json r [''api'', ''repos/'' @ gr_repo r @ ''/commits/'' @ headSha @ ''/status'']) (\<lambda>combined.
           and_then (member_of combined ''state'') (\<lambda>state.
           and_then (iterated (field_of (Some combined) ''statuses'')) (\<lambda>statuses.
           and_then (gr_json r [''api'', ''repos/'' @ gr_repo r @ ''/commits/'' @ headSha @ ''/check-runs?per_page=100'']) (\<lambda>checks.
           and_then (member_of checks ''check_runs'') (\<lambda>w. and_then (iterated w) (\<lambda>runs.
             Inr (latest_of (map status_activity (statuses @ runs)),
               state = Some (JStr ''failure'') \<or> state = Some (JStr ''error'')
               \<or> list_ex (\<lambda>x. case field_of (Some x) ''conclusion'' of Some (JStr c) \<Rightarrow> c \<in> FAILING_CHECK_RUN_CONCLUSIONS | _ \<Rightarrow> False) runs))))))))"

definition pullRequestLiveActivity :: "guard_reads \<Rightarrow> nat \<Rightarrow> live_activity attempt" where
  "pullRequestLiveActivity r number =
     and_then (gr_json r [''api'', pull_path r number]) (\<lambda>pull.
     and_then (gr_paged r (issue_path r number @ ''/timeline'')) (\<lambda>timeline.
     and_then (pullRequestHeadActivity r number pull timeline) (\<lambda>(headSha, headActivityAtMs).
     and_then (head_checks r headSha) (\<lambda>(statusActivity, failing).
       let f = field_of (Some pull)
       in Inr \<lparr>la_state = or_else (f ''state'') (Some (JStr [])),
            la_createdAt = js_string (the (or_else (f ''created_at'') (Some (JStr [])))),
            la_draft = (f ''draft'' = Some (JBool True)), la_headSha = headSha,
            la_changedFiles = (case f ''changed_files'' of Some (JNum n) \<Rightarrow> Some n | _ \<Rightarrow> None),
            la_requestedReviewers = f ''requested_reviewers'', la_requestedTeams = f ''requested_teams'',
            la_headActivityAtMs = headActivityAtMs, la_headStatusActivityAtMs = statusActivity,
            la_headChecksFailing = failing,
            la_headConflicted = (f ''mergeable'' = Some (JBool False) \<or> f ''mergeable_state'' = Some (JStr ''dirty''))\<rparr>))))"

definition defaultBranchPathMissing :: "guard_reads \<Rightarrow> string \<Rightarrow> string \<Rightarrow> bool attempt" where
  "defaultBranchPathMissing r path defaultBranch =
     (case gr_json r [''api'', ''repos/'' @ gr_repo r @ ''/contents/'' @ githubContentsPath path @ ''?ref=''
          @ encodeURIComponent defaultBranch] of
        Inr v \<Rightarrow> Inr False
      | Inl e \<Rightarrow> if isGitHubNotFoundError e then Inr True else Inl e)"

definition quoteGitHubSearchTerm :: "string \<Rightarrow> string" where
  "quoteGitHubSearchTerm t =
     (if t \<noteq> [] \<and> list_all boundary_char t then t else [CHR 0x22] @ filter (\<lambda>c. c \<noteq> CHR 0x22) t @ [CHR 0x22])"

definition authorOpenPullRequestCount :: "guard_reads \<Rightarrow> string \<Rightarrow> int attempt" where
  "authorOpenPullRequestCount r author =
     and_then (gr_json r [''api'', ''search/issues'', ''--method'', ''GET'', ''-f'',
         ''q=repo:'' @ gr_repo r @ '' is:pr is:open author:'' @ quoteGitHubSearchTerm author, ''-f'', ''per_page=1'']) (\<lambda>v.
     and_then (member_of v ''incomplete_results'') (\<lambda>incomplete.
       if incomplete = Some (JBool True) then Inl ''GitHub author open-PR search returned incomplete results''
       else case field_of (Some v) ''total_count'' of
           Some (JNum n) \<Rightarrow> if 0 \<le> n then Inr n else Inl ''GitHub author open-PR search omitted a valid total_count''
         | _ \<Rightarrow> Inl ''GitHub author open-PR search omitted a valid total_count''))"

end
