(* ===== verification/Close_Guards.thy ===== *)
theory Close_Guards
  imports Close_Activity
begin

text \<open>
  The live checks that have the last word before a close (\<open>clawsweeper-apply-guard-policy.ts\<close>,
  \<open>-proof.ts\<close>, \<open>-capacity.ts\<close> and \<open>clawsweeper-apply-close-policies.ts\<close>): one guard per close reason
  over the reads of \<open>Close_Activity\<close>, and the policy that asks the guard of the reason. The theorems
  say that a failed read can only keep an item open, and what a passed guard has established.
\<close>

subsection \<open>The item and the flags\<close>

record guard_item =
  gi_repo :: string
  gi_kind :: decision_kind
  gi_author :: string
  gi_authorAssociation :: "string option"
  gi_createdAt :: string
  gi_labels :: "string list"

definition block :: "string \<Rightarrow> guard_block" where
  "block reason = \<lparr>gb_reason = reason, gb_holdVerified = False\<rparr>"

definition DEFAULT_AUTHOR_PR_BUDGET :: int where "DEFAULT_AUTHOR_PR_BUDGET = 15"
definition OBSOLETE_FIX_PR_MAX_CHANGED_FILES :: int where "OBSOLETE_FIX_PR_MAX_CHANGED_FILES = 5"
definition STALLED_UNPROVEN_PR_MIN_AGE_DAYS :: int where "STALLED_UNPROVEN_PR_MIN_AGE_DAYS = 14"
definition STALLED_UNPROVEN_PR_MIN_INACTIVE_DAYS :: int where "STALLED_UNPROVEN_PR_MIN_INACTIVE_DAYS = 14"
definition ABANDONED_PR_MIN_AGE_DAYS :: int where "ABANDONED_PR_MIN_AGE_DAYS = 30"
definition ABANDONED_PR_MIN_INACTIVE_DAYS :: int where "ABANDONED_PR_MIN_INACTIVE_DAYS = 30"
definition STALE_INSUFFICIENT_INFO_MIN_INACTIVE_DAYS :: int where "STALE_INSUFFICIENT_INFO_MIN_INACTIVE_DAYS = 60"
definition PROOF_OVERRIDE_LABEL :: string where "PROOF_OVERRIDE_LABEL = ''proof: override''"
definition PROOF_SUFFICIENT_LABEL :: string where "PROOF_SUFFICIENT_LABEL = ''proof: sufficient''"
definition PROOF_NUDGE_MARKER_PREFIX :: string where "PROOF_NUDGE_MARKER_PREFIX = ''<!-- clawsweeper-proof-nudge''"

definition WAITING_ON_AUTHOR_LABEL :: string where
  "WAITING_ON_AUTHOR_LABEL = ''status: '' @ [CHR 0xE2, CHR 0x8F, CHR 0xB3] @ '' waiting on author''"

definition STALLED_PROOF_REQUEST_LABELS :: "string list" where
  "STALLED_PROOF_REQUEST_LABELS =
     [''triage: needs-real-behavior-proof'', ''status: '' @ [CHR 0xF0, CHR 0x9F, CHR 0x93, CHR 0xA3] @ '' needs proof'']"

definition positiveIntegerEnv :: "string option \<Rightarrow> int \<Rightarrow> int" where
  "positiveIntegerEnv v fallback =
     (case js_number (map_option JStr v) of Some n \<Rightarrow> if 0 < n then n else fallback | None \<Rightarrow> fallback)"

definition authorPrBudget :: "environment \<Rightarrow> int" where
  "authorPrBudget env = positiveIntegerEnv (env ''CLAWSWEEPER_AUTHOR_PR_BUDGET'') DEFAULT_AUTHOR_PR_BUDGET"

definition positiveReactionThreshold :: "environment \<Rightarrow> int" where
  "positiveReactionThreshold env =
     (case js_number (map_option JStr (env ''CLAWSWEEPER_IDEA_REVIVAL_REACTIONS'')) of
        Some n \<Rightarrow> if 0 < n \<and> n \<le> 1000 then n else 5 | None \<Rightarrow> 5)"

definition positiveReactionCount :: "json option \<Rightarrow> int" where
  "positiveReactionCount reactions =
     sum_list (map (\<lambda>k. case field_of reactions k of Some (JNum n) \<Rightarrow> max 0 n | _ \<Rightarrow> 0) [''+1'', ''heart'', ''hooray''])"

definition stalledUnprovenPrAgeSkipReason :: "string \<Rightarrow> int \<Rightarrow> string option" where
  "stalledUnprovenPrAgeSkipReason = min_age_skip ''stalled_unproven_pr requires PR older than '' STALLED_UNPROVEN_PR_MIN_AGE_DAYS"

definition abandonedPrAgeSkipReason :: "string \<Rightarrow> int \<Rightarrow> string option" where
  "abandonedPrAgeSkipReason = min_age_skip ''abandoned_pr requires PR older than '' ABANDONED_PR_MIN_AGE_DAYS"

subsection \<open>Guards of issues and product direction\<close>

definition lowSignalUnmergeablePrApplyBlockReason :: "guard_reads \<Rightarrow> int \<Rightarrow> nat \<Rightarrow> int option \<Rightarrow> string option attempt" where
  "lowSignalUnmergeablePrApplyBlockReason r now number staleMinAgeDays =
     and_then (gr_json r [''api'', issue_path r number]) (\<lambda>issue. and_then (member_of issue ''assignees'') (\<lambda>assignees.
     if has_entries assignees then Inr (Some ''assigned PR has maintainer/human signal'')
     else and_then (gr_json r [''api'', pull_path r number]) (\<lambda>pull. and_then (member_of pull ''requested_reviewers'') (\<lambda>reviewers.
     if has_entries reviewers \<or> has_entries (field_of (Some pull) ''requested_teams'')
     then Inr (Some ''requested reviewers or teams indicate active review signal'')
     else and_then (gr_paged r (issue_path r number @ ''/comments'')) (\<lambda>comments.
     if maintainerAssociatedEntries comments \<noteq> [] then Inr (Some ''maintainer issue comment blocks low-signal auto-close'')
     else and_then (gr_paged r (pull_path r number @ ''/reviews'')) (\<lambda>reviews.
     if maintainerAssociatedEntries reviews \<noteq> [] then Inr (Some ''maintainer PR review blocks low-signal auto-close'')
     else and_then (gr_paged r (pull_path r number @ ''/comments'')) (\<lambda>inlineComments.
     if maintainerAssociatedEntries inlineComments \<noteq> []
     then Inr (Some ''maintainer inline review comment blocks low-signal auto-close'')
     else case lowSignalUnmergeablePrConflictBlockReason (Some pull) of
         Some b \<Rightarrow> Inr (Some b)
       | None \<Rightarrow> and_then (gr_paged r (issue_path r number @ ''/timeline'')) (\<lambda>timeline.
           and_then (pullRequestHeadActivity r number pull timeline) (\<lambda>(headSha, headActivityAtMs).
             Inr (lowSignalUnmergeablePrAuthorActivityBlockReason (str_or_empty (login (field_of (Some pull) ''user'')))
               (str_or_empty (string_value (field_of (Some pull) ''created_at''))) comments reviews inlineComments timeline
               headActivityAtMs staleMinAgeDays True now))))))))))"

definition lowSignalUnmergeablePrApplyBlockReasonSafe :: "guard_reads \<Rightarrow> int \<Rightarrow> nat \<Rightarrow> int option \<Rightarrow> string option" where
  "lowSignalUnmergeablePrApplyBlockReasonSafe r now number staleMinAgeDays =
     reason_on_error ''low-signal conflict/activity check failed: '' (lowSignalUnmergeablePrApplyBlockReason r now number staleMinAgeDays)"

definition unconfirmedProductDirectionApplyBlock ::
  "environment \<Rightarrow> guard_reads \<Rightarrow> int \<Rightarrow> nat \<Rightarrow> guard_item \<Rightarrow> string option \<Rightarrow> string option \<Rightarrow> guard_block option attempt" where
  "unconfirmedProductDirectionApplyBlock env r now number it reviewedUpdatedAt reviewedAt =
     (if \<not> unconfirmedProductDirectionCloseEnabled env
      then Inr (Some (block ''unconfirmed product-direction apply policy is disabled''))
      else case unconfirmedProductDirectionAgeBlock (gi_createdAt it) reviewedUpdatedAt reviewedAt now of
          Some b \<Rightarrow> Inr (Some b)
        | None \<Rightarrow>
      (case prAutoCloseExemptLabel (gi_labels it) of
          Some l \<Rightarrow> Inr (Some (block (l @ '' exempts this PR from product-direction auto-close'')))
        | None \<Rightarrow>
      and_then (gr_json r [''api'', issue_path r number]) (\<lambda>issue. and_then (member_of issue ''assignees'') (\<lambda>assignees.
      if has_entries assignees then Inr (Some (block ''assigned PR has active human signal''))
      else and_then (gr_json r [''api'', pull_path r number]) (\<lambda>pull. and_then (member_of pull ''requested_reviewers'') (\<lambda>reviewers.
      if has_entries reviewers \<or> has_entries (field_of (Some pull) ''requested_teams'')
      then Inr (Some (block ''requested reviewers or teams indicate active review signal''))
      else and_then (gr_paged r (issue_path r number @ ''/comments'')) (\<lambda>comments.
      if maintainerAssociatedEntries comments \<noteq> [] then Inr (Some (block ''maintainer issue comment calibrates product direction''))
      else and_then (gr_paged r (pull_path r number @ ''/reviews'')) (\<lambda>reviews.
      if maintainerAssociatedEntries reviews \<noteq> [] then Inr (Some (block ''maintainer PR review calibrates product direction''))
      else and_then (gr_paged r (pull_path r number @ ''/comments'')) (\<lambda>inlineComments.
      if maintainerAssociatedEntries inlineComments \<noteq> []
      then Inr (Some (block ''maintainer inline review comment calibrates product direction'')) else Inr None)))))))))"

definition unconfirmedProductDirectionApplyBlockSafe ::
  "environment \<Rightarrow> guard_reads \<Rightarrow> int \<Rightarrow> nat \<Rightarrow> guard_item \<Rightarrow> string option \<Rightarrow> string option \<Rightarrow> guard_block option" where
  "unconfirmedProductDirectionApplyBlockSafe env r now number it reviewedUpdatedAt reviewedAt =
     block_on_error ''product-direction calibration check failed: ''
       (unconfirmedProductDirectionApplyBlock env r now number it reviewedUpdatedAt reviewedAt)"

text \<open>A milestone, or any value that is not falsy.\<close>

definition linked_pr_open :: "string list \<Rightarrow> bool" where
  "linked_pr_open labels \<longleftrightarrow> ''clawsweeper:linked-pr-open'' \<in> set (map normalizeLabelName labels)"

definition unsponsoredFeatureApplyBlock :: "environment \<Rightarrow> guard_reads \<Rightarrow> int \<Rightarrow> nat \<Rightarrow> guard_item \<Rightarrow> guard_block option attempt" where
  "unsponsoredFeatureApplyBlock env r now number it =
     (if \<not> unsponsoredFeatureCloseEnabled env then Inr (Some (block ''unsponsored feature-request apply policy is disabled''))
      else case unsponsoredFeatureAgeSkipReason (gi_createdAt it) now of
          Some b \<Rightarrow> Inr (Some (block b))
        | None \<Rightarrow>
      and_then (gr_json r [''api'', issue_path r number]) (\<lambda>issue. and_then (member_of issue ''state'') (\<lambda>state.
        let f = field_of (Some issue); labels = labelNames (f ''labels'')
        in if state \<noteq> Some (JStr ''open'') then Inr (Some (block ''live issue is not open''))
           else if protectedLabels labels \<noteq> [] then Inr (Some (block ''security-labeled issue requires human triage''))
           else if has_entries (f ''assignees'') then Inr (Some (block ''assigned issue has maintainer engagement''))
           else if \<not> falsy (f ''milestone'') then Inr (Some (block ''milestoned issue has maintainer engagement''))
           else if positiveReactionThreshold env \<le> positiveReactionCount (f ''reactions'')
           then Inr (Some (block ''issue has enough positive reactions for maintainer consideration''))
           else if (case field_of (f ''reactions'') ''total_count'' of Some (JNum n) \<Rightarrow> 20 \<le> n | _ \<Rightarrow> False)
           then Inr (Some (block ''issue has strong community traction (20 or more reactions)''))
           else if linked_pr_open labels
           then Inr (Some (block ''clawsweeper:linked-pr-open blocks unsponsored feature auto-close''))
           else and_then (gr_paged r (issue_path r number @ ''/comments'')) (\<lambda>comments.
             if maintainerAssociatedEntries comments \<noteq> [] then Inr (Some (block ''maintainer issue comment confirms engagement''))
             else Inr (issueRecentHumanCommentBlockFromComments comments UNSPONSORED_FEATURE_MIN_INACTIVE_DAYS now)))))"

definition unsponsoredFeatureApplyBlockSafe :: "environment \<Rightarrow> guard_reads \<Rightarrow> int \<Rightarrow> nat \<Rightarrow> guard_item \<Rightarrow> guard_block option" where
  "unsponsoredFeatureApplyBlockSafe env r now number it =
     block_on_error ''unsponsored feature-request liveness check failed: '' (unsponsoredFeatureApplyBlock env r now number it)"

definition staleVersionBugApplyBlock :: "environment \<Rightarrow> guard_reads \<Rightarrow> int \<Rightarrow> nat \<Rightarrow> guard_item \<Rightarrow> guard_block option attempt" where
  "staleVersionBugApplyBlock env r now number it =
     (if \<not> staleVersionBugCloseEnabled env then Inr (Some (block ''stale-version bug apply policy is disabled''))
      else case staleVersionBugAgeSkipReason (gi_createdAt it) now of
          Some b \<Rightarrow> Inr (Some (block b))
        | None \<Rightarrow>
      and_then (gr_json r [''api'', issue_path r number]) (\<lambda>issue. and_then (member_of issue ''state'') (\<lambda>state.
        let f = field_of (Some issue); created = str_or_empty (string_value (f ''created_at'')); labels = labelNames (f ''labels'');
            held = (case protectedLabels labels of l # ls \<Rightarrow> Some l | [] \<Rightarrow> prAutoCloseExemptLabel labels)
        in if state \<noteq> Some (JStr ''open'') then Inr (Some (block ''live issue is not open''))
           else if date_parse created = None then Inr (Some (block ''live issue creation date is unavailable''))
           else case staleVersionBugAgeSkipReason created now of
               Some b \<Rightarrow> Inr (Some (block b))
             | None \<Rightarrow>
           if str_or_empty held \<noteq> [] then Inr (Some (block (''protected label: '' @ str_or_empty held)))
           else if has_entries (f ''assignees'') then Inr (Some (block ''assigned issue has maintainer engagement''))
           else if \<not> falsy (f ''milestone'') then Inr (Some (block ''milestoned issue has maintainer engagement''))
           else case field_of (f ''reactions'') ''total_count'' of
               Some (JNum n) \<Rightarrow>
                 if n < 0 then Inr (Some (block ''live issue reaction count is unavailable''))
                 else if 20 \<le> n then Inr (Some (block ''issue has strong community traction (20 or more reactions)''))
                 else if linked_pr_open labels
                 then Inr (Some (block ''clawsweeper:linked-pr-open blocks stale-version bug auto-close''))
                 else and_then (gr_paged r (issue_path r number @ ''/comments'')) (\<lambda>comments.
                   if maintainerAssociatedEntries comments \<noteq> [] then Inr (Some (block ''maintainer issue comment confirms engagement''))
                   else Inr (issueRecentHumanCommentBlockFromComments comments STALE_VERSION_BUG_MIN_INACTIVE_DAYS now))
             | _ \<Rightarrow> Inr (Some (block ''live issue reaction count is unavailable'')))))"

definition staleVersionBugApplyBlockSafe :: "environment \<Rightarrow> guard_reads \<Rightarrow> int \<Rightarrow> nat \<Rightarrow> guard_item \<Rightarrow> guard_block option" where
  "staleVersionBugApplyBlockSafe env r now number it =
     block_on_error ''stale-version bug liveness check failed: '' (staleVersionBugApplyBlock env r now number it)"

subsection \<open>Guards of inactive pull requests\<close>

definition proof_request_label :: "json \<Rightarrow> bool" where
  "proof_request_label e \<longleftrightarrow> field_of (Some e) ''event'' = Some (JStr ''labeled'')
     \<and> (case field_of (field_of (Some e) ''label'') ''name'' of
          Some (JStr n) \<Rightarrow> normalizeLabelName n \<in> set STALLED_PROOF_REQUEST_LABELS | _ \<Rightarrow> False)"

definition proof_nudge :: "json \<Rightarrow> bool" where
  "proof_nudge c \<longleftrightarrow> includes_text (str_or_empty (string_value (field_of (Some c) ''body''))) PROOF_NUDGE_MARKER_PREFIX"

definition stalledUnprovenProofRequestBlockReason :: "guard_reads \<Rightarrow> int \<Rightarrow> nat \<Rightarrow> string option attempt" where
  "stalledUnprovenProofRequestBlockReason r now number =
     and_then (gr_paged r (issue_path r number @ ''/timeline'')) (\<lambda>timeline.
     and_then (gr_paged r (issue_path r number @ ''/comments'')) (\<lambda>comments.
       let latest = latest_of
             (map (\<lambda>e. date_of (field_of (Some e) ''created_at'')) (filter proof_request_label timeline)
              @ concat (map (\<lambda>c. [date_of (field_of (Some c) ''created_at''), date_of (field_of (Some c) ''updated_at'')])
                  (filter proof_nudge comments)))
       in case latest of
            None \<Rightarrow> Inr (Some ''no visible dated proof request (needs-proof label event or proof nudge) on the live PR'')
          | Some t \<Rightarrow>
              if now - t \<le> STALLED_UNPROVEN_PR_MIN_INACTIVE_DAYS * MS_PER_DAY
              then Inr (Some (''stalled_unproven_pr requires the proof request to be visible for ''
                @ int_str STALLED_UNPROVEN_PR_MIN_INACTIVE_DAYS @ '' days''))
              else Inr None))"

definition head_recent :: "live_activity \<Rightarrow> int \<Rightarrow> int \<Rightarrow> bool" where
  "head_recent a days now \<longleftrightarrow> (case la_headActivityAtMs a of None \<Rightarrow> True | Some t \<Rightarrow> now - t \<le> days * MS_PER_DAY)"

definition stalledUnprovenPrApplyBlockReason :: "guard_reads \<Rightarrow> int \<Rightarrow> nat \<Rightarrow> guard_item \<Rightarrow> string option attempt" where
  "stalledUnprovenPrApplyBlockReason r now number it =
     (case stalledUnprovenPrAgeSkipReason (gi_createdAt it) now of
        Some b \<Rightarrow> Inr (Some b)
      | None \<Rightarrow>
      (case prAutoCloseExemptLabel (gi_labels it) of
        Some l \<Rightarrow> Inr (Some (l @ '' exempts this PR from stalled-unproven auto-close''))
      | None \<Rightarrow>
      (case find (\<lambda>l. l = normalizeLabelName PROOF_SUFFICIENT_LABEL \<or> l = normalizeLabelName PROOF_OVERRIDE_LABEL)
              (map normalizeLabelName (gi_labels it)) of
        Some l \<Rightarrow> Inr (Some (l @ '' marks the requested proof as resolved''))
      | None \<Rightarrow>
      and_then (stalledUnprovenProofRequestBlockReason r now number) (\<lambda>requested. case requested of
        Some b \<Rightarrow> Inr (Some b)
      | None \<Rightarrow>
      and_then (pullRequestLiveActivity r number) (\<lambda>activity.
        if la_draft activity then Inr (Some ''draft PR is handled by the abandoned-PR policy, not stalled-unproven'')
        else if head_recent activity STALLED_UNPROVEN_PR_MIN_INACTIVE_DAYS now
        then Inr (Some (''stalled_unproven_pr requires '' @ int_str STALLED_UNPROVEN_PR_MIN_INACTIVE_DAYS
          @ '' days without source activity on the current head''))
        else pullRequestHumanEngagementBlockReason r now number None (Some STALLED_UNPROVEN_PR_MIN_INACTIVE_DAYS))))))"

definition stalledUnprovenPrApplyBlockReasonSafe :: "guard_reads \<Rightarrow> int \<Rightarrow> nat \<Rightarrow> guard_item \<Rightarrow> string option" where
  "stalledUnprovenPrApplyBlockReasonSafe r now number it =
     reason_on_error ''stalled-unproven liveness check failed: '' (stalledUnprovenPrApplyBlockReason r now number it)"

definition stalled_state :: "live_activity \<Rightarrow> string list \<Rightarrow> bool" where
  "stalled_state a labels \<longleftrightarrow> la_draft a \<or> normalizeLabelName WAITING_ON_AUTHOR_LABEL \<in> set (map normalizeLabelName labels)
     \<or> la_headChecksFailing a \<or> la_headConflicted a"

definition abandonedPrApplyBlockReason :: "guard_reads \<Rightarrow> int \<Rightarrow> nat \<Rightarrow> guard_item \<Rightarrow> string option attempt" where
  "abandonedPrApplyBlockReason r now number it =
     (case abandonedPrAgeSkipReason (gi_createdAt it) now of
        Some b \<Rightarrow> Inr (Some b)
      | None \<Rightarrow>
      (case prAutoCloseExemptLabel (gi_labels it) of
        Some l \<Rightarrow> Inr (Some (l @ '' exempts this PR from abandoned-PR auto-close''))
      | None \<Rightarrow>
      and_then (pullRequestLiveActivity r number) (\<lambda>activity.
        if head_recent activity ABANDONED_PR_MIN_INACTIVE_DAYS now
        then Inr (Some (''abandoned_pr requires '' @ int_str ABANDONED_PR_MIN_INACTIVE_DAYS
          @ '' days without source activity on the current head''))
        else if \<not> stalled_state activity (gi_labels it)
        then Inr (Some ''live PR is not draft, waiting-on-author, failing checks, or merge-conflicted; abandonment is not confirmed'')
        else pullRequestHumanEngagementBlockReason r now number None (Some ABANDONED_PR_MIN_INACTIVE_DAYS))))"

definition abandonedPrApplyBlockReasonSafe :: "guard_reads \<Rightarrow> int \<Rightarrow> nat \<Rightarrow> guard_item \<Rightarrow> string option" where
  "abandonedPrApplyBlockReasonSafe r now number it =
     reason_on_error ''abandoned-PR liveness check failed: '' (abandonedPrApplyBlockReason r now number it)"

subsection \<open>Guards with a budget and of obsolete fixes\<close>

text \<open>The committer date of the head commit.\<close>

definition committed_at :: "guard_reads \<Rightarrow> string \<Rightarrow> string attempt" where
  "committed_at r headSha =
     and_then (gr_json r [''api'', ''repos/'' @ gr_repo r @ ''/commits/'' @ headSha]) (\<lambda>commit.
     and_then (member_of commit ''commit'') (\<lambda>c. Inr (str_or_empty (string_value (field_of (field_of c ''committer'') ''date'')))))"

definition latest_activity :: "live_activity \<Rightarrow> int \<Rightarrow> int" where
  "latest_activity a committedAtMs =
     (case latest_of [Some committedAtMs, la_headActivityAtMs a, la_headStatusActivityAtMs a] of Some t \<Rightarrow> t | None \<Rightarrow> committedAtMs)"

record changed_entry =
  ch_path :: string
  ch_status :: string

definition changed_entry_of :: "json \<Rightarrow> changed_entry" where
  "changed_entry_of f = \<lparr>ch_path = js_trim (str_or_empty (nonBlankStringOrUndefined (field_of (Some f) ''filename''))),
     ch_status = js_trim (str_or_empty (nonBlankStringOrUndefined (field_of (Some f) ''status'')))\<rparr>"

text \<open>
  The responses that are expected to be arrays: \<open>null\<close> throws, and another value has no length, so
  the list of files is incomplete and the first commit has no date.
\<close>

definition files_of :: "json \<Rightarrow> json list attempt" where
  "files_of v = (case v of JArr xs \<Rightarrow> Inr xs | _ \<Rightarrow> and_then (member_of v ''length'') (\<lambda>l. Inr []))"

definition commits_of :: "json \<Rightarrow> json list attempt" where
  "commits_of v = (case v of JArr xs \<Rightarrow> Inr xs | JStr [] \<Rightarrow> Inr [] | _ \<Rightarrow> and_then (member_of v ''length'') (\<lambda>l. Inr [JNull]))"

definition commits_request :: "guard_reads \<Rightarrow> string \<Rightarrow> string \<Rightarrow> string \<Rightarrow> string list" where
  "commits_request r defaultBranch path since =
     [''api'', ''repos/'' @ gr_repo r @ ''/commits?sha='' @ encodeURIComponent defaultBranch @ ''&path='' @ encodeURIComponent path
        @ ''&since='' @ encodeURIComponent since @ ''&per_page=1'']"

definition main_change_date :: "json \<Rightarrow> int option" where
  "main_change_date commit =
     date_parse_opt (nonBlankStringOrUndefined (field_of (field_of (field_of (Some commit) ''commit'') ''committer'') ''date''))"

text \<open>Every touched path changed on the default branch after the fix, or is a removed workflow file.\<close>

fun touched_paths :: "guard_reads \<Rightarrow> string \<Rightarrow> string \<Rightarrow> int \<Rightarrow> changed_entry list \<Rightarrow> guard_block option attempt" where
  "touched_paths r defaultBranch since committedAtMs [] = Inr None"
| "touched_paths r defaultBranch since committedAtMs (e # es) =
     and_then (and_then (gr_json r (commits_request r defaultBranch (ch_path e) since)) commits_of) (\<lambda>commits.
       case commits of
         [] \<Rightarrow>
           and_then (if ch_status e \<in> {''modified'', ''removed'', ''changed''} \<and> isWorkflowOrCiPath (ch_path e)
                     then defaultBranchPathMissing r (ch_path e) defaultBranch else Inr False) (\<lambda>missing.
             if missing then touched_paths r defaultBranch since committedAtMs es
             else Inr (Some (block (''touched path unchanged on main; fix may still be relevant: '' @ ch_path e))))
       | c # cs \<Rightarrow>
           (case main_change_date c of
              None \<Rightarrow> Inr (Some (block (''post-PR main-side change date is unavailable for touched path: '' @ ch_path e)))
            | Some t \<Rightarrow>
                if t \<le> committedAtMs
                then Inr (Some (block (''post-PR main-side change date is unavailable for touched path: '' @ ch_path e)))
                else touched_paths r defaultBranch since committedAtMs es))"

definition iso_or_error :: "int \<Rightarrow> string attempt" where
  "iso_or_error t = (case toISOString t of Some s \<Rightarrow> Inr s | None \<Rightarrow> Inl ''Invalid time value'')"

definition obsoleteFixPrApplyBlock :: "environment \<Rightarrow> guard_reads \<Rightarrow> int \<Rightarrow> nat \<Rightarrow> guard_item \<Rightarrow> guard_block option attempt" where
  "obsoleteFixPrApplyBlock env r now number it =
     (if \<not> obsoleteFixPrCloseEnabled env then Inr (Some (block ''obsolete-fix PR apply policy is disabled''))
      else case obsoleteFixPrAgeSkipReason (gi_createdAt it) now of
          Some b \<Rightarrow> Inr (Some (block b))
        | None \<Rightarrow>
      and_then (pullRequestLiveActivity r number) (\<lambda>activity.
        if la_state activity \<noteq> Some (JStr ''open'') then Inr (Some (block ''live PR is not open''))
        else case obsoleteFixPrAgeSkipReason (la_createdAt activity) now of
          Some b \<Rightarrow> Inr (Some (block b))
        | None \<Rightarrow>
        if la_headSha activity = [] then Inr (Some (block ''obsolete_fix_pr requires a live PR head SHA''))
        else if (case la_changedFiles activity of None \<Rightarrow> True | Some n \<Rightarrow> n < 1 \<or> OBSOLETE_FIX_PR_MAX_CHANGED_FILES < n)
        then Inr (Some (block (''obsolete_fix_pr requires between 1 and '' @ int_str OBSOLETE_FIX_PR_MAX_CHANGED_FILES @ '' live changed files'')))
        else and_then (committed_at r (la_headSha activity)) (\<lambda>committedAt. case date_parse committedAt of
          None \<Rightarrow> Inr (Some (block ''obsolete_fix_pr requires a dated current-head committer timestamp''))
        | Some committedAtMs \<Rightarrow>
        if now - latest_activity activity committedAtMs \<le> OBSOLETE_FIX_PR_MIN_INACTIVE_DAYS * MS_PER_DAY
        then Inr (Some \<lparr>gb_reason = ''obsolete_fix_pr requires '' @ int_str OBSOLETE_FIX_PR_MIN_INACTIVE_DAYS
               @ '' days without current-head commit, status, or check-run activity'', gb_holdVerified = True\<rparr>)
        else and_then (gr_json r [''api'', issue_path r number]) (\<lambda>issue. and_then (member_of issue ''labels'') (\<lambda>labels.
        case protectedLabels (labelNames labels) of
          l # ls \<Rightarrow> Inr (Some (block (''protected label: '' @ l)))
        | [] \<Rightarrow>
        and_then (pullRequestHumanEngagementBlockReason r now number
            (Some \<lparr>ke_assignees = field_of (Some issue) ''assignees'', ke_requestedReviewers = la_requestedReviewers activity,
               ke_requestedTeams = la_requestedTeams activity\<rparr>) (Some OBSOLETE_FIX_PR_MIN_INACTIVE_DAYS)) (\<lambda>engagement. case engagement of
          Some b \<Rightarrow> Inr (Some (block b))
        | None \<Rightarrow>
        and_then (gr_json r [''api'', ''repos/'' @ gr_repo r]) (\<lambda>repository. and_then (member_of repository ''default_branch'') (\<lambda>branch.
        let defaultBranch = js_trim (str_or_empty (string_value branch))
        in if defaultBranch = [] then Inr (Some (block ''obsolete_fix_pr requires the repository default branch''))
        else and_then (and_then (gr_json r [''api'', pull_path r number @ ''/files?per_page='' @ int_str OBSOLETE_FIX_PR_MAX_CHANGED_FILES]) files_of) (\<lambda>files.
        let entries = map changed_entry_of files; paths = map ch_path entries
        in if Some (int (length files)) \<noteq> la_changedFiles activity
           then Inr (Some (block ''obsolete_fix_pr live changed-file list is incomplete''))
           else if [] \<in> set paths \<or> \<not> distinct paths
           then Inr (Some (block ''obsolete_fix_pr live changed-file paths are incomplete''))
           else and_then (iso_or_error (committedAtMs + 1)) (\<lambda>since. touched_paths r defaultBranch since committedAtMs entries))))))))))"

definition obsoleteFixPrApplyBlockSafe :: "environment \<Rightarrow> guard_reads \<Rightarrow> int \<Rightarrow> nat \<Rightarrow> guard_item \<Rightarrow> guard_block option" where
  "obsoleteFixPrApplyBlockSafe env r now number it =
     block_on_error ''obsolete-fix PR live check failed: '' (obsoleteFixPrApplyBlock env r now number it)"

record budget_state =
  bs_author :: string
  bs_openPrCount :: int
  bs_budget :: int

datatype budget_gate = GateAllowed budget_state | GateRefused string

text \<open>The rating and the proof of the report, or the error of reading it.\<close>

definition authorPrBudgetApplyGate ::
  "environment \<Rightarrow> guard_reads \<Rightarrow> int \<Rightarrow> nat \<Rightarrow> guard_item \<Rightarrow> (rating_tier \<times> proof_status) attempt \<Rightarrow> budget_gate attempt" where
  "authorPrBudgetApplyGate env r now number it review =
     (if \<not> authorPrBudgetCloseEnabled env then Inr (GateRefused ''author PR-budget apply policy is disabled'')
      else if gi_kind it \<noteq> PullItem then Inr (GateRefused ''author_pr_budget_exceeded is allowed only for pull requests'')
      else if isMaintainerAuthorAssociation (map_option JStr (gi_authorAssociation it))
      then Inr (GateRefused ''author_pr_budget_exceeded cannot close maintainer-authored pull requests'')
      else case prAutoCloseExemptLabel (gi_labels it) of
          Some l \<Rightarrow> Inr (GateRefused (l @ '' exempts this PR from author-budget auto-close''))
        | None \<Rightarrow>
      (case authorPrBudgetAgeSkipReason (gi_createdAt it) now of
          Some b \<Rightarrow> Inr (GateRefused b)
        | None \<Rightarrow>
      and_then review (\<lambda>(tier, status). case authorPrBudgetSignalBlockReason tier status of
          Some b \<Rightarrow> Inr (GateRefused b)
        | None \<Rightarrow>
      if js_trim (gi_author it) = [] then Inr (GateRefused ''author_pr_budget_exceeded requires a known PR author'')
      else and_then (pullRequestLiveActivity r number) (\<lambda>activity.
      if la_headSha activity = [] then Inr (GateRefused ''author_pr_budget_exceeded requires a live PR head SHA'')
      else and_then (committed_at r (la_headSha activity)) (\<lambda>committedAt. case date_parse committedAt of
          None \<Rightarrow> Inr (GateRefused ''author_pr_budget_exceeded requires a dated current-head committer timestamp'')
        | Some committedAtMs \<Rightarrow>
      if now - latest_activity activity committedAtMs \<le> AUTHOR_PR_BUDGET_MIN_INACTIVE_DAYS * MS_PER_DAY
      then Inr (GateRefused (''author_pr_budget_exceeded requires '' @ int_str AUTHOR_PR_BUDGET_MIN_INACTIVE_DAYS
             @ '' days without current-head commit, status, or check-run activity''))
      else and_then (pullRequestHumanEngagementBlockReason r now number None (Some AUTHOR_PR_BUDGET_MIN_INACTIVE_DAYS)) (\<lambda>engagement.
      case engagement of
          Some b \<Rightarrow> Inr (GateRefused b)
        | None \<Rightarrow>
      and_then (authorOpenPullRequestCount r (gi_author it)) (\<lambda>openPrCount.
      if openPrCount \<le> authorPrBudget env
      then Inr (GateRefused (''author has '' @ int_str openPrCount @ '' open PRs; author PR budget is '' @ int_str (authorPrBudget env)))
      else Inr (GateAllowed \<lparr>bs_author = gi_author it, bs_openPrCount = openPrCount, bs_budget = authorPrBudget env\<rparr>))))))))"

definition authorPrBudgetApplyGateSafe ::
  "environment \<Rightarrow> guard_reads \<Rightarrow> int \<Rightarrow> nat \<Rightarrow> guard_item \<Rightarrow> (rating_tier \<times> proof_status) attempt \<Rightarrow> budget_gate" where
  "authorPrBudgetApplyGateSafe env r now number it review =
     (case authorPrBudgetApplyGate env r now number it review of
        Inl e \<Rightarrow> GateRefused (''author PR-budget live check failed: '' @ e) | Inr g \<Rightarrow> g)"

subsection \<open>The policy of a close reason\<close>

definition MANAGED_LOCALE_BRANCHES :: "string set" where
  "MANAGED_LOCALE_BRANCHES = {''automation/native-app-locale-refresh'', ''automation/control-ui-locale-refresh''}"

definition repositoryManagedPullRequestCloseReason :: "guard_item \<Rightarrow> json attempt \<Rightarrow> string option attempt" where
  "repositoryManagedPullRequestCloseReason it readPullRequest =
     (if normalizeRepo (gi_repo it) \<noteq> DEFAULT_TARGET_REPO \<or> gi_kind it \<noteq> PullItem
         \<or> to_lower (gi_author it) \<notin> {''openclaw-mantis[bot]'', ''app/openclaw-mantis''}
      then Inr None
      else and_then readPullRequest (\<lambda>v.
        let f = field_of (Some v); head = f ''head''; base = f ''base''
        in if field_of (f ''user'') ''login'' \<noteq> Some (JStr ''openclaw-mantis[bot]'')
              \<or> field_of (field_of head ''repo'') ''full_name'' \<noteq> Some (JStr DEFAULT_TARGET_REPO)
              \<or> field_of (field_of base ''repo'') ''full_name'' \<noteq> Some (JStr DEFAULT_TARGET_REPO)
              \<or> field_of base ''ref'' \<noteq> Some (JStr ''main'')
              \<or> (case field_of head ''ref'' of Some (JStr s) \<Rightarrow> s \<notin> MANAGED_LOCALE_BRANCHES | _ \<Rightarrow> True)
           then Inr None
           else Inr (Some ''repository-managed locale PR: leave reconciliation and auto-merge to its publisher'')))"

datatype close_phase = BeforeCanonical | AfterCanonical

text \<open>What the caller hands over: the item, its comments when already read, and the stored report.\<close>

record close_request =
  cq_item :: guard_item
  cq_number :: nat
  cq_closeReason :: close_reason
  cq_comments :: "json list option"
  cq_review :: "(rating_tier \<times> proof_status) attempt"
  cq_oversized :: "json option"
  cq_storedUpdatedAt :: "string option"
  cq_reviewedAt :: "string option"

record policy_block =
  pb_reason :: string
  pb_preserveOriginalAction :: bool
  pb_holdVerified :: bool

datatype policy_result = PolicyAllowed "budget_state option" | PolicyBlocked policy_block

definition blocked_for :: "string \<Rightarrow> bool \<Rightarrow> policy_result" where
  "blocked_for reason preserve =
     PolicyBlocked \<lparr>pb_reason = reason, pb_preserveOriginalAction = preserve, pb_holdVerified = False\<rparr>"

definition guard_result :: "guard_block option \<Rightarrow> policy_result" where
  "guard_result b = (case b of None \<Rightarrow> PolicyAllowed None
     | Some g \<Rightarrow> PolicyBlocked \<lparr>pb_reason = gb_reason g, pb_preserveOriginalAction = False, pb_holdVerified = gb_holdVerified g\<rparr>)"

definition reason_result :: "string option \<Rightarrow> policy_result" where
  "reason_result b = (case b of None \<Rightarrow> PolicyAllowed None | Some s \<Rightarrow> blocked_for s False)"

definition oversized_policy :: "environment \<Rightarrow> guard_reads \<Rightarrow> close_request \<Rightarrow> policy_result" where
  "oversized_policy env r q =
     (if \<not> oversizedPrCloseEnabled env then blocked_for ''oversized PR close policy is disabled'' True
      else case and_then (gr_json r [''api'', ''repos/'' @ gi_repo (cq_item q) @ ''/pulls/'' @ nat_str (cq_number q)])
             (\<lambda>v. and_then (if parseOversizedPullRequestEvidence (cq_oversized q) = None then Inr None else member_of v ''labels'')
               (\<lambda>labels. Inr (oversizedPullRequestLiveBlockReason (oversizedPrCloseEnabled env)
                 (maxPrChangedLines (env ''CLAWSWEEPER_MAX_PR_CHANGED_LINES''))
                 (parseOversizedPullRequestEvidence (cq_oversized q)) (objectValue (Some v))))) of
          Inl e \<Rightarrow> blocked_for (''oversized PR live revalidation failed: '' @ e) True
        | Inr None \<Rightarrow> PolicyAllowed None
        | Inr (Some reason) \<Rightarrow> blocked_for reason True)"

definition before_canonical :: "environment \<Rightarrow> guard_reads \<Rightarrow> int \<Rightarrow> close_request \<Rightarrow> policy_result" where
  "before_canonical env r now q =
     (let n = cq_number q; it = cq_item q in
      case cq_closeReason q of
        OversizedPullRequestReason \<Rightarrow> oversized_policy env r q
      | AuthorPrBudgetExceeded \<Rightarrow>
          (case authorPrBudgetApplyGateSafe env r now n it (cq_review q) of
             GateAllowed s \<Rightarrow> PolicyAllowed (Some s) | GateRefused reason \<Rightarrow> blocked_for reason False)
      | UnsponsoredFeatureRequest \<Rightarrow>
          if \<not> unsponsoredFeatureCloseEnabled env then blocked_for ''unsponsored feature-request apply policy is disabled'' True
          else guard_result (unsponsoredFeatureApplyBlockSafe env r now n it)
      | StaleVersionBug \<Rightarrow> guard_result (staleVersionBugApplyBlockSafe env r now n it)
      | ObsoleteFixPr \<Rightarrow> guard_result (obsoleteFixPrApplyBlockSafe env r now n it)
      | StaleInsufficientInfo \<Rightarrow>
          guard_result (case cq_comments q of
            None \<Rightarrow> issueRecentHumanCommentBlockSafe r now n STALE_INSUFFICIENT_INFO_MIN_INACTIVE_DAYS
          | Some cs \<Rightarrow> issueRecentHumanCommentBlockFromComments cs STALE_INSUFFICIENT_INFO_MIN_INACTIVE_DAYS now)
      | _ \<Rightarrow> PolicyAllowed None)"

definition after_canonical :: "environment \<Rightarrow> guard_reads \<Rightarrow> int \<Rightarrow> close_request \<Rightarrow> policy_result" where
  "after_canonical env r now q =
     (let n = cq_number q; it = cq_item q in
      case cq_closeReason q of
        UnconfirmedProductDirection \<Rightarrow>
          if \<not> unconfirmedProductDirectionCloseEnabled env
          then blocked_for ''unconfirmed product-direction apply policy is disabled'' True
          else guard_result (unconfirmedProductDirectionApplyBlockSafe env r now n it (cq_storedUpdatedAt q) (cq_reviewedAt q))
      | StalledUnprovenPr \<Rightarrow> reason_result (stalledUnprovenPrApplyBlockReasonSafe r now n it)
      | AbandonedPr \<Rightarrow> reason_result (abandonedPrApplyBlockReasonSafe r now n it)
      | _ \<Rightarrow> PolicyAllowed None)"

definition evaluateApplyCloseReasonPolicy ::
  "environment \<Rightarrow> guard_reads \<Rightarrow> int \<Rightarrow> close_phase \<Rightarrow> close_request \<Rightarrow> policy_result attempt" where
  "evaluateApplyCloseReasonPolicy env r now phase q =
     and_then (repositoryManagedPullRequestCloseReason (cq_item q)
         (gr_json r [''api'', ''repos/'' @ gi_repo (cq_item q) @ ''/pulls/'' @ nat_str (cq_number q)])) (\<lambda>managed.
       case managed of
         Some reason \<Rightarrow> Inr (blocked_for reason False)
       | None \<Rightarrow> Inr (case phase of BeforeCanonical \<Rightarrow> before_canonical env r now q | AfterCanonical \<Rightarrow> after_canonical env r now q))"

fun first_block :: "environment \<Rightarrow> guard_reads \<Rightarrow> int \<Rightarrow> close_request \<Rightarrow> close_phase list \<Rightarrow> policy_block option attempt" where
  "first_block env r now q [] = Inr None"
| "first_block env r now q (p # ps) =
     and_then (evaluateApplyCloseReasonPolicy env r now p q) (\<lambda>res. case res of
       PolicyBlocked b \<Rightarrow> Inr (Some b) | PolicyAllowed s \<Rightarrow> first_block env r now q ps)"

definition liveApplyCloseReasonPolicyBlock :: "environment \<Rightarrow> guard_reads \<Rightarrow> int \<Rightarrow> close_request \<Rightarrow> policy_block option attempt" where
  "liveApplyCloseReasonPolicyBlock env r now q = first_block env r now q [BeforeCanonical, AfterCanonical]"

text \<open>The entry of the apply workflow; other candidates pass untouched.\<close>

datatype apply_kind = ApplyIssues | ApplyPulls | ApplyAll

definition closeReasonEnabled :: "close_reason \<Rightarrow> close_reason list option \<Rightarrow> bool" where
  "closeReasonEnabled reason flt \<longleftrightarrow> (case flt of None \<Rightarrow> True | Some rs \<Rightarrow> reason \<in> set rs)"

definition kind_selected :: "apply_kind \<Rightarrow> decision_kind \<Rightarrow> bool" where
  "kind_selected a k \<longleftrightarrow> (case a of ApplyAll \<Rightarrow> True | ApplyIssues \<Rightarrow> k = IssueItem | ApplyPulls \<Rightarrow> k = PullItem)"

definition evaluateApplyClosePolicy ::
  "('m \<Rightarrow> budget_state \<Rightarrow> 'm) \<Rightarrow> environment \<Rightarrow> guard_reads \<Rightarrow> int \<Rightarrow> close_reason list option \<Rightarrow> apply_kind \<Rightarrow> string
   \<Rightarrow> bool \<Rightarrow> bool \<Rightarrow> close_phase \<Rightarrow> close_request \<Rightarrow> 'm \<Rightarrow> (policy_block option \<times> 'm) attempt" where
  "evaluateApplyClosePolicy applyBudgetState env r now reasons kind state isCloseProposal syncCommentsOnly phase q markdown =
     (if state \<noteq> ''open'' \<or> \<not> isCloseProposal \<or> syncCommentsOnly \<or> \<not> kind_selected kind (gi_kind (cq_item q))
         \<or> \<not> closeReasonEnabled (cq_closeReason q) reasons
      then Inr (None, markdown)
      else and_then (evaluateApplyCloseReasonPolicy env r now phase q) (\<lambda>res. case res of
          PolicyBlocked b \<Rightarrow> Inr (Some b, markdown)
        | PolicyAllowed None \<Rightarrow> Inr (None, markdown)
        | PolicyAllowed (Some s) \<Rightarrow> Inr (None, applyBudgetState markdown s)))"

end
