(* ===== verification/Close_Evidence.thy ===== *)
theory Close_Evidence
  imports Close_Guards
begin

text \<open>
  What the live guards guarantee: a read that fails can only keep the item open, and a guard that
  passed has read the evidence for it.
\<close>

subsection \<open>Failing reads\<close>

text \<open>
  The same answers, except that some requests fail; an answer that a path does not exist is not a
  failure but a fact.
\<close>

definition fails_like :: "guard_reads \<Rightarrow> guard_reads \<Rightarrow> bool" where
  "fails_like f r \<longleftrightarrow> gr_repo f = gr_repo r
     \<and> (\<forall>a. gr_json f a = gr_json r a \<or> (\<exists>e. gr_json f a = Inl e \<and> \<not> isGitHubNotFoundError e))
     \<and> (\<forall>p. gr_paged f p = gr_paged r p \<or> (\<exists>e. gr_paged f p = Inl e))"

text \<open>Whenever the first computation ends with a value in \<open>P\<close>, the second ends with the same value.\<close>

definition good_only :: "('a \<Rightarrow> bool) \<Rightarrow> 'a attempt \<Rightarrow> 'a attempt \<Rightarrow> bool" where
  "good_only P m' m \<longleftrightarrow> (\<forall>x. P x \<longrightarrow> m' = Inr x \<longrightarrow> m = Inr x)"

abbreviation same_value :: "'a attempt \<Rightarrow> 'a attempt \<Rightarrow> bool" where
  "same_value \<equiv> good_only (\<lambda>_. True)"

abbreviation same_pass :: "'a option attempt \<Rightarrow> 'a option attempt \<Rightarrow> bool" where
  "same_pass \<equiv> good_only (\<lambda>v. v = None)"

named_theorems good_intros

lemma good_refl [good_intros]: "good_only P m m"
  by (simp add: good_only_def)

lemma good_value: "same_value m' m \<Longrightarrow> good_only P m' m"
  by (simp add: good_only_def)

lemma good_bind [good_intros]:
  "same_value m' m \<Longrightarrow> (\<And>x. good_only P (f' x) (f x)) \<Longrightarrow> good_only P (and_then m' f') (and_then m f)"
  by (auto simp: good_only_def and_then_def split: sum.splits)

lemma good_if [good_intros]: "good_only P a' a \<Longrightarrow> good_only P b' b \<Longrightarrow> good_only P (if c then a' else b') (if c then a else b)"
  by simp

lemma good_option [good_intros]:
  "good_only P a' a \<Longrightarrow> (\<And>x. good_only P (f' x) (f x)) \<Longrightarrow> good_only P (case v of None \<Rightarrow> a' | Some x \<Rightarrow> f' x) (case v of None \<Rightarrow> a | Some x \<Rightarrow> f x)"
  by (cases v) simp_all

lemma good_list [good_intros]:
  "good_only P a' a \<Longrightarrow> (\<And>x xs. good_only P (f' x xs) (f x xs))
   \<Longrightarrow> good_only P (case v of [] \<Rightarrow> a' | x # xs \<Rightarrow> f' x xs) (case v of [] \<Rightarrow> a | x # xs \<Rightarrow> f x xs)"
  by (cases v) simp_all

lemma good_pair [good_intros]:
  "(\<And>x y. good_only P (f' x y) (f x y)) \<Longrightarrow> good_only P (case v of (x, y) \<Rightarrow> f' x y) (case v of (x, y) \<Rightarrow> f x y)"
  by (cases v) simp

lemma good_json [good_intros]:
  assumes "good_only P a' a" "\<And>x. good_only P (b' x) (b x)" "\<And>x. good_only P (c' x) (c x)" "\<And>x. good_only P (d' x) (d x)"
    "\<And>x. good_only P (e' x) (e x)" "\<And>x. good_only P (f' x) (f x)"
  shows "good_only P (case v of JNull \<Rightarrow> a' | JBool x \<Rightarrow> b' x | JNum x \<Rightarrow> c' x | JStr x \<Rightarrow> d' x | JArr x \<Rightarrow> e' x | JObj x \<Rightarrow> f' x)
      (case v of JNull \<Rightarrow> a | JBool x \<Rightarrow> b x | JNum x \<Rightarrow> c x | JStr x \<Rightarrow> d x | JArr x \<Rightarrow> e x | JObj x \<Rightarrow> f x)"
  using assms by (cases v) simp_all

text \<open>A stage that may pass (\<open>None\<close>) or stop the chain.\<close>

lemma good_pass_bind:
  assumes "same_pass m' m" "good_only P (f' None) (f None)" "\<And>b y. P y \<Longrightarrow> f' (Some b) \<noteq> Inr y"
  shows "good_only P (and_then m' f') (and_then m f)"
  unfolding good_only_def
proof (intro allI impI)
  fix y assume P: "P y" and y: "and_then m' f' = Inr y"
  then obtain x where x: "m' = Inr x" "f' x = Inr y" by (auto simp: and_then_def split: sum.splits)
  with assms(3)[OF P] have "x = None" by (cases x) auto
  with x assms P have "m = Inr None" "f None = Inr y" by (auto simp: good_only_def)
  then show "and_then m f = Inr y" by (simp add: and_then_def)
qed

lemma fails_json: "fails_like f r \<Longrightarrow> same_value (gr_json f a) (gr_json r a)"
  unfolding fails_like_def good_only_def by (metis Inl_Inr_False)

lemma fails_paged: "fails_like f r \<Longrightarrow> same_value (gr_paged f p) (gr_paged r p)"
  unfolding fails_like_def good_only_def by (metis Inl_Inr_False)

lemma fails_repo: "fails_like f r \<Longrightarrow> gr_repo f = gr_repo r"
  by (simp add: fails_like_def)

lemma fails_paths: "fails_like f r \<Longrightarrow> issue_path f n = issue_path r n \<and> pull_path f n = pull_path r n"
  by (simp add: fails_like_def issue_path_def pull_path_def)

lemmas fails = fails_json fails_paged

subsubsection \<open>Edit histories\<close>

lemma edit_pages_fails:
  assumes "fails_like f r"
  shows "same_value (edit_pages f i k base cursors pr node) (edit_pages r i k base cursors pr node)"
proof (induction k arbitrary: base cursors pr node)
  case 0
  show ?case by (simp add: good_refl)
next
  case (Suc k)
  show ?case unfolding edit_pages.simps Let_def by (intro good_intros fails[OF assms] Suc)
qed

lemma edit_nodes_fails:
  assumes "fails_like f r"
  shows "same_value (edit_nodes f nodes is ts) (edit_nodes r nodes is ts)"
proof (induction "is" arbitrary: ts)
  case Nil
  show ?case by (simp add: good_refl)
next
  case (Cons i "is")
  show ?case unfolding edit_nodes.simps by (intro good_intros edit_pages_fails[OF assms] Cons)
qed

lemma edit_batches_fails:
  assumes "fails_like f r"
  shows "same_value (edit_batches f ids ts) (edit_batches r ids ts)"
proof (induction ids arbitrary: ts rule: length_induct)
  case (1 ids)
  show ?case
  proof (cases "ids = []")
    case True
    then show ?thesis by (simp add: edit_batches.simps good_refl)
  next
    case False
    then have "length (drop 25 ids) < length ids" by (cases ids) auto
    with 1 have shorter: "same_value (edit_batches f (drop 25 ids) t) (edit_batches r (drop 25 ids) t)" for t by blast
    show ?thesis
      unfolding edit_batches.simps[of f ids] edit_batches.simps[of r ids] Let_def
      by (intro good_intros edit_nodes_fails[OF assms] fails[OF assms] shorter)
  qed
qed

lemma edit_times_fails: "fails_like f r \<Longrightarrow> same_value (githubHumanContentEditTimes f ids) (githubHumanContentEditTimes r ids)"
  unfolding githubHumanContentEditTimes_def by (intro good_intros edit_batches_fails)

subsubsection \<open>Activity\<close>

lemma edit_activity_fails:
  assumes "fails_like f r"
  shows "same_pass (edit_activity f now n cs rs is days) (edit_activity r now n cs rs is days)"
proof -
  have pass: "same_pass
      (Inr (case githubHumanContentEditTimes f ids of Inl e \<Rightarrow> Some (g e) | Inr ts \<Rightarrow> if list_ex Q ts then Some c else None))
      (Inr (case githubHumanContentEditTimes r ids of Inl e \<Rightarrow> Some (g e) | Inr ts \<Rightarrow> if list_ex Q ts then Some c else None))"
    for ids and g :: "string \<Rightarrow> string" and Q c
    using edit_times_fails[OF assms, of ids] by (auto simp: good_only_def split: sum.splits if_splits)
  show ?thesis
    unfolding edit_activity_def Let_def fails_repo[OF assms]
    by (intro good_intros fails[OF assms] pass)
qed

lemma entries_activity_fails: "fails_like f r \<Longrightarrow> same_pass (entries_activity f now n days) (entries_activity r now n days)"
  unfolding entries_activity_def
  by (simp only: fails_paths) (intro good_intros fails edit_activity_fails)

lemma engagement_fails:
  assumes "fails_like f r"
  shows "same_pass (pullRequestHumanEngagementBlockReason f now n known days) (pullRequestHumanEngagementBlockReason r now n known days)"
proof -
  have paths: "issue_path f n = issue_path r n" "pull_path f n = pull_path r n" using fails_paths[OF assms] by simp_all
  show ?thesis
    unfolding pullRequestHumanEngagementBlockReason_def paths
    by (intro good_intros fails[OF assms] entries_activity_fails[OF assms])
qed

lemma head_activity_fails:
  assumes "fails_like f r"
  shows "same_value (pullRequestHeadActivity f n pull timeline) (pullRequestHeadActivity r n pull timeline)"
  unfolding pullRequestHeadActivity_def Let_def fails_repo[OF assms] by (intro good_intros fails[OF assms])

lemma head_checks_fails:
  assumes "fails_like f r"
  shows "same_value (head_checks f sha) (head_checks r sha)"
  unfolding head_checks_def fails_repo[OF assms] by (intro good_intros fails[OF assms])

lemma live_activity_fails:
  assumes "fails_like f r"
  shows "same_value (pullRequestLiveActivity f n) (pullRequestLiveActivity r n)"
proof -
  have paths: "issue_path f n = issue_path r n" "pull_path f n = pull_path r n" using fails_paths[OF assms] by simp_all
  show ?thesis
    unfolding pullRequestLiveActivity_def Let_def paths
    by (intro good_intros fails[OF assms] head_activity_fails[OF assms] head_checks_fails[OF assms])
qed

lemma path_missing_fails:
  assumes "fails_like f r"
  shows "same_value (defaultBranchPathMissing f path branch) (defaultBranchPathMissing r path branch)"
proof -
  define a where "a = [''api'', ''repos/'' @ gr_repo r @ ''/contents/'' @ githubContentsPath path @ ''?ref='' @ encodeURIComponent branch]"
  have "gr_json f a = gr_json r a \<or> (\<exists>e. gr_json f a = Inl e \<and> \<not> isGitHubNotFoundError e)"
    using assms by (simp add: fails_like_def)
  then show ?thesis
    unfolding defaultBranchPathMissing_def fails_repo[OF assms] a_def[symmetric] by (auto simp: good_only_def)
qed

lemma open_count_fails:
  assumes "fails_like f r"
  shows "same_value (authorOpenPullRequestCount f author) (authorOpenPullRequestCount r author)"
  unfolding authorOpenPullRequestCount_def fails_repo[OF assms] by (intro good_intros fails[OF assms])

subsubsection \<open>Guards\<close>

lemma block_pass: "same_pass m' m \<Longrightarrow> block_on_error p m' = None \<Longrightarrow> block_on_error p m = None"
  by (auto simp: block_on_error_def good_only_def split: sum.splits)

lemma reason_pass: "same_pass m' m \<Longrightarrow> reason_on_error p m' = None \<Longrightarrow> reason_on_error p m = None"
  by (auto simp: reason_on_error_def good_only_def split: sum.splits)

lemma product_direction_fails:
  assumes "fails_like f r"
  shows "same_pass (unconfirmedProductDirectionApplyBlock env f now n it u v) (unconfirmedProductDirectionApplyBlock env r now n it u v)"
  unfolding unconfirmedProductDirectionApplyBlock_def fails_paths[OF assms, THEN conjunct1] fails_paths[OF assms, THEN conjunct2]
  by (intro good_intros fails[OF assms])

lemma unsponsored_fails:
  assumes "fails_like f r"
  shows "same_pass (unsponsoredFeatureApplyBlock env f now n it) (unsponsoredFeatureApplyBlock env r now n it)"
  unfolding unsponsoredFeatureApplyBlock_def Let_def fails_paths[OF assms, THEN conjunct1]
  by (intro good_intros fails[OF assms])

lemma stale_version_fails:
  assumes "fails_like f r"
  shows "same_pass (staleVersionBugApplyBlock env f now n it) (staleVersionBugApplyBlock env r now n it)"
  unfolding staleVersionBugApplyBlock_def Let_def fails_paths[OF assms, THEN conjunct1]
  by (intro good_intros fails[OF assms])

lemma low_signal_fails:
  assumes "fails_like f r"
  shows "same_pass (lowSignalUnmergeablePrApplyBlockReason f now n days) (lowSignalUnmergeablePrApplyBlockReason r now n days)"
  unfolding lowSignalUnmergeablePrApplyBlockReason_def fails_paths[OF assms, THEN conjunct1] fails_paths[OF assms, THEN conjunct2]
  by (intro good_intros fails[OF assms] head_activity_fails[OF assms])

lemma proof_request_fails:
  assumes "fails_like f r"
  shows "same_value (stalledUnprovenProofRequestBlockReason f now n) (stalledUnprovenProofRequestBlockReason r now n)"
  unfolding stalledUnprovenProofRequestBlockReason_def Let_def fails_paths[OF assms, THEN conjunct1]
  by (intro good_intros fails[OF assms])

lemma stalled_fails:
  assumes "fails_like f r"
  shows "same_pass (stalledUnprovenPrApplyBlockReason f now n it) (stalledUnprovenPrApplyBlockReason r now n it)"
  unfolding stalledUnprovenPrApplyBlockReason_def
  by (intro good_intros proof_request_fails[OF assms] live_activity_fails[OF assms] engagement_fails[OF assms])

lemma abandoned_fails:
  assumes "fails_like f r"
  shows "same_pass (abandonedPrApplyBlockReason f now n it) (abandonedPrApplyBlockReason r now n it)"
  unfolding abandonedPrApplyBlockReason_def
  by (intro good_intros live_activity_fails[OF assms] engagement_fails[OF assms])

lemma committed_fails:
  assumes "fails_like f r"
  shows "same_value (committed_at f sha) (committed_at r sha)"
  unfolding committed_at_def fails_repo[OF assms] by (intro good_intros fails[OF assms])

lemma touched_fails:
  assumes "fails_like f r"
  shows "same_value (touched_paths f branch since c es) (touched_paths r branch since c es)"
proof (induction es)
  case Nil
  show ?case by (simp add: good_refl)
next
  case (Cons e es)
  have "commits_request f branch (ch_path e) since = commits_request r branch (ch_path e) since"
    by (simp add: commits_request_def fails_repo[OF assms])
  then show ?case
    unfolding touched_paths.simps by (simp only:) (intro good_intros fails[OF assms] path_missing_fails[OF assms] Cons)
qed

lemma good_engagement:
  assumes "fails_like f r" "\<And>b. \<not> P (g b)" "good_only P a' a"
  shows "good_only P
      (and_then (pullRequestHumanEngagementBlockReason f now n known days) (\<lambda>e. case e of None \<Rightarrow> a' | Some b \<Rightarrow> Inr (g b)))
      (and_then (pullRequestHumanEngagementBlockReason r now n known days) (\<lambda>e. case e of None \<Rightarrow> a | Some b \<Rightarrow> Inr (g b)))"
  using assms by (intro good_pass_bind engagement_fails) auto

lemma obsolete_fails:
  assumes "fails_like f r"
  shows "same_pass (obsoleteFixPrApplyBlock env f now n it) (obsoleteFixPrApplyBlock env r now n it)"
  unfolding obsoleteFixPrApplyBlock_def Let_def fails_repo[OF assms] fails_paths[OF assms, THEN conjunct1]
    fails_paths[OF assms, THEN conjunct2]
  by (intro good_engagement[OF assms] good_intros fails[OF assms] live_activity_fails[OF assms] committed_fails[OF assms]
      touched_fails[OF assms, THEN good_value]) simp_all

lemma budget_fails:
  assumes "fails_like f r"
  shows "good_only (\<lambda>g. \<exists>s. g = GateAllowed s) (authorPrBudgetApplyGate env f now n it review) (authorPrBudgetApplyGate env r now n it review)"
  unfolding authorPrBudgetApplyGate_def
  by (intro good_engagement[OF assms] good_intros fails[OF assms] live_activity_fails[OF assms] committed_fails[OF assms]
      open_count_fails[OF assms]) simp_all

subsubsection \<open>The policy\<close>

lemma guard_allowed: "guard_result b = PolicyAllowed s \<longleftrightarrow> b = None \<and> s = None"
  by (auto simp: guard_result_def split: option.splits)

lemma reason_allowed: "reason_result b = PolicyAllowed s \<longleftrightarrow> b = None \<and> s = None"
  by (auto simp: reason_result_def blocked_for_def split: option.splits)

lemma blocked_not_allowed [simp]: "blocked_for x p \<noteq> PolicyAllowed s"
  by (simp add: blocked_for_def)

lemma oversized_allowed_fails:
  assumes "fails_like f r" "oversized_policy env f q = PolicyAllowed s"
  shows "oversized_policy env r q = PolicyAllowed s"
proof -
  define a where "a = [''api'', ''repos/'' @ gi_repo (cq_item q) @ ''/pulls/'' @ nat_str (cq_number q)]"
  have "same_value (gr_json f a) (gr_json r a)" by (rule fails[OF assms(1)])
  with assms(2) show ?thesis
    unfolding oversized_policy_def a_def[symmetric]
    by (cases "gr_json f a") (auto simp: good_only_def and_then_def split: if_splits)
qed

lemma budget_allowed_fails:
  assumes "fails_like f r" "authorPrBudgetApplyGateSafe env f now n it review = GateAllowed s"
  shows "authorPrBudgetApplyGateSafe env r now n it review = GateAllowed s"
  using budget_fails[OF assms(1), of env now n it review] assms(2)
  by (auto simp: authorPrBudgetApplyGateSafe_def good_only_def split: sum.splits)

lemma comments_allowed_fails:
  assumes "fails_like f r" "issueRecentHumanCommentBlockSafe f now n days = None"
  shows "issueRecentHumanCommentBlockSafe r now n days = None"
proof -
  have "same_pass (issueRecentHumanCommentBlock f now n days) (issueRecentHumanCommentBlock r now n days)"
    unfolding issueRecentHumanCommentBlock_def fails_paths[OF assms(1), THEN conjunct1]
    by (intro good_intros fails[OF assms(1)])
  from block_pass[OF this] assms(2) show ?thesis unfolding issueRecentHumanCommentBlockSafe_def by blast
qed

lemma before_fails:
  assumes "fails_like f r" "before_canonical env f now q = PolicyAllowed s"
  shows "before_canonical env r now q = PolicyAllowed s"
proof (cases "cq_closeReason q")
  case OversizedPullRequestReason
  with assms show ?thesis by (simp add: before_canonical_def oversized_allowed_fails)
next
  case AuthorPrBudgetExceeded
  with assms(2) have "\<exists>t. authorPrBudgetApplyGateSafe env f now (cq_number q) (cq_item q) (cq_review q) = GateAllowed t \<and> s = Some t"
    by (auto simp: before_canonical_def split: budget_gate.splits)
  with AuthorPrBudgetExceeded budget_allowed_fails[OF assms(1)] show ?thesis by (auto simp: before_canonical_def)
next
  case UnsponsoredFeatureRequest
  with assms(2) block_pass[OF unsponsored_fails[OF assms(1)]] show ?thesis
    by (auto simp: before_canonical_def guard_allowed unsponsoredFeatureApplyBlockSafe_def split: if_splits)
next
  case StaleVersionBug
  with assms(2) block_pass[OF stale_version_fails[OF assms(1)]] show ?thesis
    by (auto simp: before_canonical_def guard_allowed staleVersionBugApplyBlockSafe_def)
next
  case ObsoleteFixPr
  with assms(2) block_pass[OF obsolete_fails[OF assms(1)]] show ?thesis
    by (auto simp: before_canonical_def guard_allowed obsoleteFixPrApplyBlockSafe_def)
next
  case StaleInsufficientInfo
  with assms(2) comments_allowed_fails[OF assms(1)] show ?thesis
    by (auto simp: before_canonical_def guard_allowed split: option.splits)
qed (use assms(2) in \<open>simp_all add: before_canonical_def\<close>)

lemma after_fails:
  assumes "fails_like f r" "after_canonical env f now q = PolicyAllowed s"
  shows "after_canonical env r now q = PolicyAllowed s"
proof (cases "cq_closeReason q")
  case UnconfirmedProductDirection
  with assms(2) block_pass[OF product_direction_fails[OF assms(1)]] show ?thesis
    by (auto simp: after_canonical_def guard_allowed unconfirmedProductDirectionApplyBlockSafe_def split: if_splits)
next
  case StalledUnprovenPr
  with assms(2) reason_pass[OF stalled_fails[OF assms(1)]] show ?thesis
    by (auto simp: after_canonical_def reason_allowed stalledUnprovenPrApplyBlockReasonSafe_def)
next
  case AbandonedPr
  with assms(2) reason_pass[OF abandoned_fails[OF assms(1)]] show ?thesis
    by (auto simp: after_canonical_def reason_allowed abandonedPrApplyBlockReasonSafe_def)
qed (use assms(2) in \<open>simp_all add: after_canonical_def\<close>)

lemma policy_fails:
  assumes "fails_like f r" "evaluateApplyCloseReasonPolicy env f now p q = Inr (PolicyAllowed s)"
  shows "evaluateApplyCloseReasonPolicy env r now p q = Inr (PolicyAllowed s)"
proof -
  define a where "a = [''api'', ''repos/'' @ gi_repo (cq_item q) @ ''/pulls/'' @ nat_str (cq_number q)]"
  have "same_value (repositoryManagedPullRequestCloseReason (cq_item q) (gr_json f a))
      (repositoryManagedPullRequestCloseReason (cq_item q) (gr_json r a))"
    unfolding repositoryManagedPullRequestCloseReason_def Let_def by (intro good_intros fails[OF assms(1)])
  with assms(2) before_fails[OF assms(1)] after_fails[OF assms(1)] show ?thesis
    unfolding evaluateApplyCloseReasonPolicy_def a_def[symmetric]
    by (auto simp: good_only_def and_then_def split: sum.splits option.splits close_phase.splits)
qed

lemma first_block_allowed:
  "first_block env r now q ps = Inr None \<longleftrightarrow> (\<forall>p \<in> set ps. \<exists>s. evaluateApplyCloseReasonPolicy env r now p q = Inr (PolicyAllowed s))"
  by (induction ps) (auto simp: and_then_def split: sum.splits policy_result.splits)

subsection \<open>Theorems\<close>

text \<open>
  C21. Outages only keep items open: a close that the live policy lets through although some of its reads
  failed is let through with the answers those reads would have given.
\<close>

theorem failed_reads_only_block:
  assumes "fails_like f r" "liveApplyCloseReasonPolicyBlock env f now q = Inr None"
  shows "liveApplyCloseReasonPolicyBlock env r now q = Inr None"
  using assms(2) policy_fails[OF assms(1), of env now _ q]
  unfolding liveApplyCloseReasonPolicyBlock_def first_block_allowed by blast

subsubsection \<open>No sign of a person\<close>

lemma and_then_Inr: "and_then m f = Inr y \<longleftrightarrow> (\<exists>x. m = Inr x \<and> f x = Inr y)"
  by (auto simp: and_then_def split: sum.splits)

text \<open>The stages that a passed guard went through.\<close>

named_theorems pass_elims

lemma pass_then [pass_elims]: "and_then m f = Inr y \<Longrightarrow> (\<And>x. m = Inr x \<Longrightarrow> f x = Inr y \<Longrightarrow> R) \<Longrightarrow> R"
  by (auto simp: and_then_Inr)

lemma pass_if [pass_elims]: "(if b then Inr (Some x) else m) = Inr None \<Longrightarrow> (\<not> b \<Longrightarrow> m = Inr None \<Longrightarrow> R) \<Longrightarrow> R"
  by (auto split: if_splits)

lemma pass_none [pass_elims]:
  "(case v of None \<Rightarrow> m | Some x \<Rightarrow> Inr (Some (g x))) = Inr None \<Longrightarrow> (v = None \<Longrightarrow> m = Inr None \<Longrightarrow> R) \<Longrightarrow> R"
  by (auto split: option.splits)

lemma pass_some [pass_elims]:
  "(case v of None \<Rightarrow> Inr (Some c) | Some x \<Rightarrow> f x) = Inr None \<Longrightarrow> (\<And>x. v = Some x \<Longrightarrow> f x = Inr None \<Longrightarrow> R) \<Longrightarrow> R"
  by (auto split: option.splits)

lemma pass_empty [pass_elims]:
  "(case v of [] \<Rightarrow> m | x # xs \<Rightarrow> Inr (Some (g x))) = Inr None \<Longrightarrow> (v = [] \<Longrightarrow> m = Inr None \<Longrightarrow> R) \<Longrightarrow> R"
  by (auto split: list.splits)

lemma pass_pair [pass_elims]:
  "(case v of (x, y) \<Rightarrow> f x y) = Inr None \<Longrightarrow> (\<And>x y. v = (x, y) \<Longrightarrow> f x y = Inr None \<Longrightarrow> R) \<Longrightarrow> R"
  by (cases v) auto

text \<open>The entries of an item that the engagement check reads, all of them by people without a role and old.\<close>

definition quiet_for :: "guard_reads \<Rightarrow> int \<Rightarrow> nat \<Rightarrow> int \<Rightarrow> bool" where
  "quiet_for r now n days \<longleftrightarrow>
     (\<exists>comments reviews inline. gr_paged r (issue_path r n @ ''/comments'') = Inr comments
        \<and> gr_paged r (pull_path r n @ ''/reviews'') = Inr reviews \<and> gr_paged r (pull_path r n @ ''/comments'') = Inr inline
        \<and> (\<forall>e \<in> set (comments @ reviews @ inline).
             \<not> isMaintainerAuthorAssociation (field_of (Some e) ''author_association'')
             \<and> (field_of (or_else (field_of (Some e) ''user'') (field_of (Some e) ''actor'')) ''type'' = Some (JStr ''Bot'')
                \<or> (\<exists>t. date_parse_opt (nonBlankStringOrUndefined (or_else (field_of (Some e) ''submitted_at'')
                      (or_else (field_of (Some e) ''createdAt'') (field_of (Some e) ''created_at'')))) = Some t
                    \<and> days * MS_PER_DAY < now - t))))"

lemma recent_none:
  assumes "recentHumanActivityBlockReason es days now = None" "e \<in> set es"
  shows "field_of (or_else (field_of (Some e) ''user'') (field_of (Some e) ''actor'')) ''type'' = Some (JStr ''Bot'')
     \<or> (\<exists>t. date_parse_opt (nonBlankStringOrUndefined (or_else (field_of (Some e) ''submitted_at'')
          (or_else (field_of (Some e) ''createdAt'') (field_of (Some e) ''created_at'')))) = Some t \<and> days * MS_PER_DAY < now - t)"
  using assms
  by (induction es) (auto simp: Let_def field_of_def objectValue_def split: if_splits option.splits)

lemma maintainer_none: "maintainerAssociatedEntries es = [] \<Longrightarrow> e \<in> set es \<Longrightarrow> \<not> isMaintainerAuthorAssociation (field_of (Some e) ''author_association'')"
  by (auto simp: maintainerAssociatedEntries_def filter_empty_conv)

lemma entries_quiet:
  assumes "entries_activity r now n (Some days) = Inr None"
  shows "quiet_for r now n days"
proof -
  from assms obtain cs rs ins where reads: "gr_paged r (issue_path r n @ ''/comments'') = Inr cs"
      "gr_paged r (pull_path r n @ ''/reviews'') = Inr rs" "gr_paged r (pull_path r n @ ''/comments'') = Inr ins"
    and none: "maintainerAssociatedEntries cs = []" "maintainerAssociatedEntries rs = []" "maintainerAssociatedEntries ins = []"
      "recentHumanActivityBlockReason (cs @ rs @ ins) days now = None"
    unfolding entries_activity_def and_then_Inr by (auto simp: and_then_Inr split: if_splits option.splits)
  with maintainer_none recent_none[OF none(4)] show ?thesis unfolding quiet_for_def by fastforce
qed

lemma engagement_quiet:
  assumes "pullRequestHumanEngagementBlockReason r now n known (Some days) = Inr None"
  shows "quiet_for r now n days"
  using assms entries_quiet
  unfolding pullRequestHumanEngagementBlockReason_def and_then_Inr by (auto simp: and_then_Inr split: if_splits prod.splits)

definition inactivity_days :: "close_reason \<Rightarrow> int" where
  "inactivity_days reason = (if reason = StalledUnprovenPr then 14 else if reason = AuthorPrBudgetExceeded then 7 else 30)"

lemma stalled_quiet: "stalledUnprovenPrApplyBlockReasonSafe r now n it = None \<Longrightarrow> quiet_for r now n 14"
  unfolding stalledUnprovenPrApplyBlockReasonSafe_def reason_on_error_def stalledUnprovenPrApplyBlockReason_def
    STALLED_UNPROVEN_PR_MIN_INACTIVE_DAYS_def
  by (auto simp: and_then_Inr split: sum.splits option.splits if_splits intro: engagement_quiet)

lemma abandoned_quiet: "abandonedPrApplyBlockReasonSafe r now n it = None \<Longrightarrow> quiet_for r now n 30"
  unfolding abandonedPrApplyBlockReasonSafe_def reason_on_error_def abandonedPrApplyBlockReason_def ABANDONED_PR_MIN_INACTIVE_DAYS_def
  by (auto simp: and_then_Inr split: sum.splits option.splits if_splits intro: engagement_quiet)

lemma budget_facts:
  assumes "authorPrBudgetApplyGateSafe env r now n it review = GateAllowed s"
  shows "quiet_for r now n 7"
    and "authorOpenPullRequestCount r (gi_author it) = Inr (bs_openPrCount s) \<and> authorPrBudget env < bs_openPrCount s"
  using assms
  unfolding authorPrBudgetApplyGateSafe_def authorPrBudgetApplyGate_def AUTHOR_PR_BUDGET_MIN_INACTIVE_DAYS_def
  by (auto simp: and_then_Inr split: sum.splits option.splits if_splits prod.splits intro: engagement_quiet)



lemma later_simps [simp]: "later_of (Some a) None = Some a" "later_of (Some a) (Some b) = Some (max a b)" "later_of None v = v"
  by (simp_all add: later_of_def)






lemma engagement_passed:
  "pullRequestHumanEngagementBlockReason r now n known (Some days) = Inr v \<Longrightarrow> v = None \<Longrightarrow> quiet_for r now n days"
  using engagement_quiet by blast

lemma obsolete_passed:
  assumes "obsoleteFixPrApplyBlockSafe env r now n it = None"
  shows "obsoleteFixPrApplyBlock env r now n it = Inr None"
  using assms by (auto simp: obsoleteFixPrApplyBlockSafe_def block_on_error_def split: sum.splits)

lemma obsolete_quiet:
  assumes "obsoleteFixPrApplyBlockSafe env r now n it = None"
  shows "quiet_for r now n 30"
  using obsolete_passed[OF assms] unfolding obsoleteFixPrApplyBlock_def Let_def
  by (elim pass_elims) (drule (1) engagement_passed, simp add: OBSOLETE_FIX_PR_MIN_INACTIVE_DAYS_def)



lemma policy_phase:
  "evaluateApplyCloseReasonPolicy env r now p q = Inr (PolicyAllowed s) \<Longrightarrow>
   (case p of BeforeCanonical \<Rightarrow> before_canonical env r now q | AfterCanonical \<Rightarrow> after_canonical env r now q) = PolicyAllowed s"
  unfolding evaluateApplyCloseReasonPolicy_def by (elim pass_then) (auto split: option.splits)

lemma live_none:
  assumes "liveApplyCloseReasonPolicyBlock env r now q = Inr None"
  shows "\<exists>s. before_canonical env r now q = PolicyAllowed s" and "\<exists>s. after_canonical env r now q = PolicyAllowed s"
  using assms policy_phase[of env r now BeforeCanonical q] policy_phase[of env r now AfterCanonical q]
  unfolding liveApplyCloseReasonPolicyBlock_def first_block_allowed by auto

text \<open>
  C23. A pull request is closed for its inactivity only when nobody with a role in the repository ever
  commented on it or reviewed it, and every entry by a person is older than the window of the reason.
\<close>

theorem inactive_close_is_quiet:
  assumes "cq_closeReason q \<in> {StalledUnprovenPr, AbandonedPr, AuthorPrBudgetExceeded, ObsoleteFixPr}"
    and "liveApplyCloseReasonPolicyBlock env r now q = Inr None"
  shows "quiet_for r now (cq_number q) (inactivity_days (cq_closeReason q))"
proof -
  from live_none[OF assms(2)] obtain s t where passed: "before_canonical env r now q = PolicyAllowed s"
      "after_canonical env r now q = PolicyAllowed t" by blast
  from assms(1) consider "cq_closeReason q = StalledUnprovenPr" | "cq_closeReason q = AbandonedPr"
    | "cq_closeReason q = AuthorPrBudgetExceeded" | "cq_closeReason q = ObsoleteFixPr" by blast
  then show ?thesis
  proof cases
    case 1
    with passed(2) show ?thesis by (auto simp: after_canonical_def reason_allowed inactivity_days_def intro: stalled_quiet)
  next
    case 2
    with passed(2) show ?thesis by (auto simp: after_canonical_def reason_allowed inactivity_days_def intro: abandoned_quiet)
  next
    case 3
    with passed(1) show ?thesis
      by (auto simp: before_canonical_def inactivity_days_def split: budget_gate.splits intro: budget_facts(1))
  next
    case 4
    with passed(1) show ?thesis by (auto simp: before_canonical_def guard_allowed inactivity_days_def intro: obsolete_quiet)
  qed
qed


subsection \<open>Witnesses\<close>

definition sample_env :: environment where
  "sample_env k = (if k = ''CLAWSWEEPER_OBSOLETE_FIX_PR_CLOSE_ENABLED'' then Some ''true'' else None)"

definition sample_now :: int where "sample_now = 1735603200000"

definition sample_committer :: "string \<Rightarrow> json" where
  "sample_committer date = JObj [(''commit'', JObj [(''committer'', JObj [(''date'', JStr date)])])]"

definition sample_answers :: "(string \<times> json) list" where
  "sample_answers =
     [(''repos/o/r/pulls/7'', JObj [(''state'', JStr ''open''), (''created_at'', JStr ''2024-01-01T00:00:00Z''),
         (''head'', JObj [(''sha'', JStr ''a'')]), (''changed_files'', JNum 1)]),
      (''repos/o/r/actions/runs?head_sha=a&event=pull_request&per_page=100'', JObj [(''workflow_runs'', JArr [])]),
      (''repos/o/r/commits/a/status'', JObj [(''state'', JStr ''success''), (''statuses'', JArr [])]),
      (''repos/o/r/commits/a/check-runs?per_page=100'', JObj [(''check_runs'', JArr [])]),
      (''repos/o/r/commits/a'', sample_committer ''2024-01-01T00:00:00Z''),
      (''repos/o/r/issues/7'', JObj [(''labels'', JArr []), (''assignees'', JArr [])]),
      (''graphql'', JObj [(''data'', JObj [(''repository'', JObj [(''pullRequest'', JObj [(''id'', JStr ''x''), (''lastEditedAt'', JNull)])])])]),
      (''repos/o/r'', JObj [(''default_branch'', JStr ''main'')]),
      (''repos/o/r/pulls/7/files?per_page=5'', JArr [JObj [(''filename'', JStr ''a.ts''), (''status'', JStr ''modified'')]]),
      (''repos/o/r/commits?sha=main&path=a.ts&since=2024-01-01T00%3A00%3A00.001Z&per_page=1'',
         JArr [sample_committer ''2024-02-01T00:00:00Z''])]"

definition sample_reads :: guard_reads where
  "sample_reads = \<lparr>gr_json = (\<lambda>a. case map_of sample_answers (a ! 1) of Some v \<Rightarrow> Inr v | None \<Rightarrow> Inl ''HTTP 404: Not Found''),
     gr_paged = (\<lambda>p. Inr []), gr_repo = ''o/r''\<rparr>"

definition sample_request :: "close_reason \<Rightarrow> close_request" where
  "sample_request reason = \<lparr>cq_item = \<lparr>gi_repo = ''o/r'', gi_kind = PullItem, gi_author = ''someone'', gi_authorAssociation = Some ''NONE'',
       gi_createdAt = ''2024-01-01T00:00:00Z'', gi_labels = []\<rparr>,
     cq_number = 7, cq_closeReason = reason, cq_comments = None, cq_review = Inl ''no report'', cq_oversized = None,
     cq_storedUpdatedAt = None, cq_reviewedAt = None\<rparr>"

definition sample_outage :: guard_reads where
  "sample_outage = sample_reads\<lparr>gr_json := (\<lambda>a. Inl ''HTTP 502: Bad Gateway'')\<rparr>"

lemma sample_obsolete_live: "liveApplyCloseReasonPolicyBlock sample_env sample_reads sample_now (sample_request ObsoleteFixPr) = Inr None"
  by code_simp

lemma sample_outage_live:
  "liveApplyCloseReasonPolicyBlock sample_env sample_outage sample_now (sample_request StaleInsufficientInfo) = Inr None"
  by code_simp

lemma failed_reads_only_block_witness:
  "liveApplyCloseReasonPolicyBlock sample_env sample_reads sample_now (sample_request StaleInsufficientInfo) = Inr None"
proof (rule failed_reads_only_block[OF _ sample_outage_live])
  have "\<not> isGitHubNotFoundError ''HTTP 502: Bad Gateway''" by code_simp
  then show "fails_like sample_outage sample_reads" by (simp add: fails_like_def sample_outage_def)
qed

lemma inactive_close_is_quiet_witness: "quiet_for sample_reads sample_now 7 30"
  using inactive_close_is_quiet[OF _ sample_obsolete_live] by (simp add: sample_request_def inactivity_days_def)


end
