(* ===== verification/Close_Validation.thy ===== *)
theory Close_Validation
  imports Close_Policy
begin

text \<open>
  What \<open>validateCloseDecision\<close> lets through, stated without the order of its checks: a declarative
  permission over the item, the decision and the close rules, the two label laws, and the chain from
  a measured pull request to the decision that is validated.
\<close>

subsection \<open>The permission\<close>

definition hold_label :: "close_reason \<Rightarrow> string \<Rightarrow> bool" where
  "hold_label r l \<longleftrightarrow>
     (normalizeLabelName l \<in> set APPLY_PROTECTED_LABELS \<or> isSecurityLabel (normalizeLabelName l))
     \<and> \<not> (r \<in> {ImplementedOnMain, OversizedPullRequestReason} \<and> normalizeLabelName l = ''maintainer'')"

definition exempt_label :: "string \<Rightarrow> bool" where
  "exempt_label l \<longleftrightarrow> normalizeLabelName l \<in> set PR_AUTO_CLOSE_EXEMPT_LABEL_NAMES"

text \<open>A pull request of somebody without a role in the repository, and without an exempting label.\<close>

definition outside_pull :: "close_item \<Rightarrow> bool" where
  "outside_pull it \<longleftrightarrow> str_or_empty (ci_authorAssociation it) \<noteq> []
     \<and> \<not> isMaintainerAuthorAssociation (map_option JStr (ci_authorAssociation it))
     \<and> (\<forall>l \<in> set (ci_labels it). \<not> exempt_label l)"

definition pull_reasons :: "close_reason set" where
  "pull_reasons = {MostlyImplementedOnMain, LowSignalUnmergeablePr, OversizedPullRequestReason, StalledUnprovenPr, AbandonedPr,
     UnconfirmedProductDirection, AuthorPrBudgetExceeded, ObsoleteFixPr}"

definition issue_reasons :: "close_reason set" where
  "issue_reasons = {UnsponsoredFeatureRequest, StaleVersionBug, StaleInsufficientInfo}"

fun reason_supported :: "close_reason \<Rightarrow> close_item \<Rightarrow> close_decision \<Rightarrow> bool" where
  "reason_supported OversizedPullRequestReason it d =
     (parseOversizedPullRequestEvidence (cd_oversizedPullRequest d) \<noteq> None
      \<and> (\<forall>l \<in> set (ci_labels it). normalizeLabelName l \<noteq> ACCEPTED_LARGE_LABEL))"
| "reason_supported UnconfirmedProductDirection it d =
     (outside_pull it \<and> cd_itemCategory d = FeatureItem \<and> cd_requiresProductDecision d
      \<and> (cd_requiresNewFeature d \<or> cd_requiresNewConfigOption d) \<and> cd_securityStatus d = SecurityCleared
      \<and> cd_overallCorrectness d = PatchCorrect \<and> cd_reviewFindings d = []
      \<and> cd_proofStatus d \<in> {ProofSufficient, ProofOverride} \<and> cd_overallTier d \<in> {TierS, TierA, TierB, TierC})"
| "reason_supported UnsponsoredFeatureRequest it d = (cd_itemCategory d = FeatureItem \<and> cd_requiresProductDecision d)"
| "reason_supported StalledUnprovenPr it d =
     (outside_pull it \<and> cd_proofStatus d \<in> STALLED_UNPROVEN_PROOF_STATUSES \<and> cd_overallTier d \<in> {TierD, TierF})"
| "reason_supported AbandonedPr it d = (outside_pull it \<and> \<not> high_quality_proven d)"
| "reason_supported AuthorPrBudgetExceeded it d =
     (outside_pull it \<and> (cd_proofStatus d \<in> STALLED_UNPROVEN_PROOF_STATUSES \<or> cd_overallTier d \<in> {TierD, TierF}))"
| "reason_supported StaleVersionBug it d = (cd_itemCategory d = BugItem)"
| "reason_supported ObsoleteFixPr it d = outside_pull it"
| "reason_supported _ it d = True"

definition verified_fix :: "close_item \<Rightarrow> fixed_pull \<Rightarrow> bool" where
  "verified_fix it f \<longleftrightarrow> fp_confidence f = HighConfidence \<and> fp_repo f = ci_repo it \<and> ci_number it \<noteq> Some (fp_number f)
     \<and> str_or_empty (fp_mergedAt f) \<noteq> [] \<and> fp_source f \<noteq> ReportMetadata
     \<and> fp_url f = ''https://github.com/'' @ ci_repo it @ ''/pull/'' @ nat_str (fp_number f)"

definition fix_supported :: "close_item \<Rightarrow> close_decision \<Rightarrow> bool" where
  "fix_supported it d \<longleftrightarrow>
     (\<exists>e \<in> set (cd_evidence d). has_text (ev_file e) \<and> has_text (ev_sha e)) \<and> has_text (cd_fixedSha d)
     \<and> (if str_or_empty (cd_fixedAt d) = [] then has_text (cd_fixedRelease d) else hasValidFixedAt d)
     \<and> (ci_kind it = PullItem \<longrightarrow> (\<exists>f. cd_fixedPullRequest d = Some f \<and> verified_fix it f))"

definition close_permitted :: "repository_profile \<Rightarrow> close_item \<Rightarrow> close_decision \<Rightarrow> bool \<Rightarrow> bool" where
  "close_permitted p it d requireCloseComment \<longleftrightarrow>
     cd_decision d = CloseWord \<and> cd_confidence d = HighConfidence \<and> cd_closeReason d \<noteq> NoCloseReason
     \<and> cd_securityStatus d \<noteq> SecurityNeedsAttention \<and> cd_securityConcerns d = []
     \<and> (\<forall>l \<in> set (ci_labels it). \<not> hold_label (cd_closeReason d) l)
     \<and> isAutoCloseAllowed p (ci_kind it) (cd_closeReason d)
     \<and> (cd_closeReason d \<in> pull_reasons \<longrightarrow> ci_kind it = PullItem)
     \<and> (cd_closeReason d \<in> issue_reasons \<longrightarrow> ci_kind it = IssueItem)
     \<and> (requiresMaintainerProductClose (cd_closeReason d) \<longrightarrow> cd_maintainerRequired d \<and> cd_maintainerKind d = ProductDirection)
     \<and> reason_supported (cd_closeReason d) it d
     \<and> js_trim (cd_summary d) \<noteq> [] \<and> cd_evidence d \<noteq> []
     \<and> (requireCloseComment \<longrightarrow> hasUsableCloseComment (cd_closeComment d))
     \<and> (isImplementationCloseReason (cd_closeReason d) \<longrightarrow> fix_supported it d)"

subsection \<open>The parts of the chain\<close>

lemma first_refusal_if [simp]: "first_refusal (refuse_if b a r # cs) = CloseValid \<longleftrightarrow> \<not> b \<and> first_refusal cs = CloseValid"
  by (simp add: refuse_if_def)

lemma first_refusal_with [simp]:
  "first_refusal (refuse_with b a v # cs) = CloseValid \<longleftrightarrow> (b \<longrightarrow> v = None) \<and> first_refusal cs = CloseValid"
  by (cases v) (simp_all add: refuse_with_def)

lemma set_first_occurrences [simp]: "set (first_occurrences xs) = set xs"
  by (simp add: first_occurrences_def)

lemma first_occurrences_Nil [simp]: "first_occurrences xs = [] \<longleftrightarrow> xs = []"
  by (metis set_first_occurrences set_empty)

lemma blocking_labels: "applyBlockingProtectedLabels ls r = [] \<longleftrightarrow> (\<forall>l \<in> set ls. \<not> hold_label r l)"
  by (auto simp: applyBlockingProtectedLabels_def isVerifiedFixedCloseReason_def hold_label_def Let_def filter_empty_conv)

lemma exempt_none: "prAutoCloseExemptLabel ls = None \<longleftrightarrow> (\<forall>l \<in> set ls. \<not> exempt_label l)"
  by (auto simp: prAutoCloseExemptLabel_def exempt_label_def find_None_iff)

lemma exempt_decision_none:
  "prAutoCloseExemptDecisionReason k ls r = None \<longleftrightarrow>
     k \<noteq> PullItem \<or> (\<forall>l \<in> set ls. \<not> exempt_label l)
     \<or> r \<notin> {UnconfirmedProductDirection, StalledUnprovenPr, AbandonedPr, AuthorPrBudgetExceeded, ObsoleteFixPr}"
  by (cases "prAutoCloseExemptLabel ls") (auto simp: prAutoCloseExemptDecisionReason_def simp flip: exempt_none)

lemma external_none: "externalPrCloseDecisionBlockReason it r t = None \<longleftrightarrow> outside_pull it"
  by (auto simp: externalPrCloseDecisionBlockReason_def outside_pull_def simp flip: exempt_none split: option.splits)

lemma stop_none: "(if b then Some x else v) = None \<longleftrightarrow> \<not> b \<and> v = None"
  by simp

lemma product_direction_none:
  assumes "cd_securityConcerns d = []"
  shows "unconfirmedProductDirectionDecisionBlockReason it d = None \<longleftrightarrow> reason_supported UnconfirmedProductDirection it d"
proof (cases "prAutoCloseExemptLabel (ci_labels it)")
  case None
  then have "outside_pull it \<longleftrightarrow> str_or_empty (ci_authorAssociation it) \<noteq> []
      \<and> \<not> isMaintainerAuthorAssociation (map_option JStr (ci_authorAssociation it))"
    by (simp add: outside_pull_def exempt_none)
  then show ?thesis
    using assms unfolding unconfirmedProductDirectionDecisionBlockReason_def None option.case stop_none reason_supported.simps
    by argo
next
  case (Some l)
  then have "\<not> outside_pull it" using exempt_none[of "ci_labels it"] by (auto simp: outside_pull_def)
  with Some show ?thesis by (simp add: unconfirmedProductDirectionDecisionBlockReason_def)
qed

lemma stalled_none: "stalledUnprovenPrDecisionBlockReason it d = None \<longleftrightarrow> reason_supported StalledUnprovenPr it d"
  using external_none[of it StalledUnprovenPr "''stalled-unproven auto-close''"]
  by (auto simp: stalledUnprovenPrDecisionBlockReason_def split: option.splits)

lemma abandoned_none: "abandonedPrDecisionBlockReason it d = None \<longleftrightarrow> reason_supported AbandonedPr it d"
  using external_none[of it AbandonedPr "''abandoned-PR auto-close''"]
  by (auto simp: abandonedPrDecisionBlockReason_def split: option.splits)

lemma budget_none: "authorPrBudgetDecisionBlockReason it d = None \<longleftrightarrow> reason_supported AuthorPrBudgetExceeded it d"
  using external_none[of it AuthorPrBudgetExceeded "''author-budget auto-close''"]
  by (auto simp: authorPrBudgetDecisionBlockReason_def high_quality_proven_def STALLED_UNPROVEN_PROOF_STATUSES_def split: option.splits)

lemma obsolete_none: "obsoleteFixPrDecisionBlockReason it = None \<longleftrightarrow> outside_pull it"
  by (simp add: obsoleteFixPrDecisionBlockReason_def external_none)

text \<open>The label checks of the two issue reasons are implied by the protected labels.\<close>

lemma unsponsored_none:
  assumes "\<forall>l \<in> set (ci_labels it). \<not> hold_label UnsponsoredFeatureRequest l" "ci_kind it = IssueItem"
    "cd_maintainerRequired d" "cd_maintainerKind d = ProductDirection"
  shows "unsponsoredFeatureDecisionBlockReason it d = None \<longleftrightarrow> reason_supported UnsponsoredFeatureRequest it d"
proof -
  have "find (\<lambda>l. l = ''impact:security'' \<or> l = NEEDS_SECURITY_REVIEW_LABEL) (map normalizeLabelName (ci_labels it)) = None"
    using assms(1) by (auto simp: find_None_iff hold_label_def APPLY_PROTECTED_LABELS_def CLOSE_PROTECTED_LABEL_NAMES_def)
  then show ?thesis using assms by (simp add: unsponsoredFeatureDecisionBlockReason_def closeReasonItemKindError_def)
qed

lemma stale_version_none:
  assumes "\<forall>l \<in> set (ci_labels it). \<not> hold_label StaleVersionBug l" "ci_kind it = IssueItem"
  shows "staleVersionBugDecisionBlockReason it d = None \<longleftrightarrow> reason_supported StaleVersionBug it d"
proof -
  have "protectedLabels (ci_labels it) = []"
    using assms(1) by (auto simp: protectedLabels_def filter_empty_conv hold_label_def APPLY_PROTECTED_LABELS_def)
  then show ?thesis using assms(2) by (simp add: staleVersionBugDecisionBlockReason_def closeReasonItemKindError_def)
qed

lemma kind_error_none:
  "closeReasonItemKindError r k = None \<longleftrightarrow> (r \<in> pull_reasons \<longrightarrow> k = PullItem) \<and> (r \<in> issue_reasons \<longrightarrow> k = IssueItem)"
  by (cases r; cases k) (simp_all add: closeReasonItemKindError_def pull_reasons_def issue_reasons_def)

lemma verified_none:
  "verifiedImplementationPullRequestBlockReason it d = None \<longleftrightarrow> (\<exists>f. cd_fixedPullRequest d = Some f \<and> verified_fix it f)"
proof -
  have "isGitHubVerifiedFixedPullRequestSource s \<longleftrightarrow> s \<noteq> ReportMetadata" for s
    by (cases s) (simp_all add: isGitHubVerifiedFixedPullRequestSource_def)
  then show ?thesis
    by (auto simp: verifiedImplementationPullRequestBlockReason_def verified_fix_def split: option.splits)
qed

lemma can_close: "canClose d \<longleftrightarrow> cd_decision d = CloseWord \<and> cd_confidence d = HighConfidence \<and> cd_closeReason d \<noteq> NoCloseReason"
  by (cases "cd_closeReason d") (simp_all add: canClose_def ALLOWED_REASONS_def)

lemma js_trim_Nil: "js_trim [] = []"
  by (simp add: js_trim_def)

lemma fix_dated:
  "\<not> (str_or_empty (cd_fixedAt d) \<noteq> [] \<and> \<not> hasValidFixedAt d) \<and> \<not> (\<not> has_text (cd_fixedRelease d) \<and> \<not> hasValidFixedAt d)
   \<longleftrightarrow> (if str_or_empty (cd_fixedAt d) = [] then has_text (cd_fixedRelease d) else hasValidFixedAt d)"
  by (cases "cd_fixedAt d") (auto simp: hasValidFixedAt_def str_or_empty_def js_trim_Nil)

lemma fix_none:
  "(hasImplementationSourceEvidence d \<and> (ci_kind it = PullItem \<longrightarrow> verifiedImplementationPullRequestBlockReason it d = None)
    \<and> has_text (cd_fixedSha d) \<and> \<not> (str_or_empty (cd_fixedAt d) \<noteq> [] \<and> \<not> hasValidFixedAt d)
    \<and> \<not> (\<not> has_text (cd_fixedRelease d) \<and> \<not> hasValidFixedAt d)) \<longleftrightarrow> fix_supported it d"
  unfolding verified_none fix_supported_def hasImplementationSourceEvidence_def list_ex_iff
  using fix_dated[of d] by auto

text \<open>The checks of the code that look at one reason only.\<close>

definition own_checks :: "close_item \<Rightarrow> close_decision \<Rightarrow> bool" where
  "own_checks it d \<longleftrightarrow>
      (\<not> (cd_closeReason d = OversizedPullRequestReason \<and> parseOversizedPullRequestEvidence (cd_oversizedPullRequest d) = None)
      \<and> \<not> (cd_closeReason d = OversizedPullRequestReason \<and> list_ex (\<lambda>l. to_lower (js_trim l) = ACCEPTED_LARGE_LABEL) (ci_labels it))
      \<and> prAutoCloseExemptDecisionReason (ci_kind it) (ci_labels it) (cd_closeReason d) = None
      \<and> (cd_closeReason d = UnconfirmedProductDirection \<longrightarrow> unconfirmedProductDirectionDecisionBlockReason it d = None)
      \<and> (cd_closeReason d = UnsponsoredFeatureRequest \<longrightarrow> unsponsoredFeatureDecisionBlockReason it d = None)
      \<and> (cd_closeReason d = StalledUnprovenPr \<longrightarrow> stalledUnprovenPrDecisionBlockReason it d = None)
      \<and> (cd_closeReason d = AbandonedPr \<longrightarrow> abandonedPrDecisionBlockReason it d = None)
      \<and> (cd_closeReason d = AuthorPrBudgetExceeded \<longrightarrow> authorPrBudgetDecisionBlockReason it d = None)
      \<and> (cd_closeReason d = StaleVersionBug \<longrightarrow> staleVersionBugDecisionBlockReason it d = None)
      \<and> (cd_closeReason d = ObsoleteFixPr \<longrightarrow> obsoleteFixPrDecisionBlockReason it = None))"

lemma own_checks_supported:
  assumes "\<forall>l \<in> set (ci_labels it). \<not> hold_label (cd_closeReason d) l" "cd_securityConcerns d = []"
    "closeReasonItemKindError (cd_closeReason d) (ci_kind it) = None"
    "requiresMaintainerProductClose (cd_closeReason d) \<longrightarrow> cd_maintainerRequired d \<and> cd_maintainerKind d = ProductDirection"
  shows "own_checks it d \<longleftrightarrow> reason_supported (cd_closeReason d) it d"
proof (cases "cd_closeReason d \<in> {OversizedPullRequestReason, UnconfirmedProductDirection, UnsponsoredFeatureRequest,
    StalledUnprovenPr, AbandonedPr, AuthorPrBudgetExceeded, StaleVersionBug, ObsoleteFixPr}")
  case False
  then have "reason_supported (cd_closeReason d) it d" by (cases "cd_closeReason d") simp_all
  with False show ?thesis by (simp add: own_checks_def exempt_decision_none)
next
  case True
  have exempt: "outside_pull it \<Longrightarrow> prAutoCloseExemptDecisionReason (ci_kind it) (ci_labels it) r = None" for r
    by (simp add: exempt_decision_none outside_pull_def)
  have issue: "cd_closeReason d \<in> issue_reasons \<Longrightarrow> ci_kind it = IssueItem" using assms(3) by (simp add: kind_error_none)
  from True consider "cd_closeReason d = OversizedPullRequestReason" | "cd_closeReason d = UnconfirmedProductDirection"
    | "cd_closeReason d = UnsponsoredFeatureRequest" | "cd_closeReason d = StalledUnprovenPr" | "cd_closeReason d = AbandonedPr"
    | "cd_closeReason d = AuthorPrBudgetExceeded" | "cd_closeReason d = StaleVersionBug" | "cd_closeReason d = ObsoleteFixPr"
    by blast
  then show ?thesis
  proof cases
    case 1 then show ?thesis by (auto simp: own_checks_def exempt_decision_none normalizeLabelName_def list_ex_iff)
  next
    case 2 then show ?thesis using exempt product_direction_none[OF assms(2), of it] by (auto simp: own_checks_def)
  next
    case 3
    have "unsponsoredFeatureDecisionBlockReason it d = None \<longleftrightarrow> reason_supported UnsponsoredFeatureRequest it d"
      using assms 3 issue by (intro unsponsored_none) (simp_all add: requiresMaintainerProductClose_def issue_reasons_def)
    with 3 show ?thesis by (simp add: own_checks_def exempt_decision_none)
  next
    case 4 then show ?thesis using exempt stalled_none[of it d] by (auto simp: own_checks_def)
  next
    case 5 then show ?thesis using exempt abandoned_none[of it d] by (auto simp: own_checks_def)
  next
    case 6 then show ?thesis using exempt budget_none[of it d] by (auto simp: own_checks_def)
  next
    case 7
    have "staleVersionBugDecisionBlockReason it d = None \<longleftrightarrow> reason_supported StaleVersionBug it d"
      using assms(1) 7 issue by (intro stale_version_none) (simp_all add: issue_reasons_def)
    with 7 show ?thesis by (simp add: own_checks_def exempt_decision_none)
  next
    case 8 then show ?thesis using exempt obsolete_none[of it] by (auto simp: own_checks_def)
  qed
qed

lemma checks_split:
  "first_refusal (close_checks p it d rc) = CloseValid \<longleftrightarrow>
     cd_decision d = CloseWord \<and> cd_confidence d = HighConfidence \<and> cd_closeReason d \<noteq> NoCloseReason
     \<and> cd_securityStatus d \<noteq> SecurityNeedsAttention \<and> cd_securityConcerns d = []
     \<and> (\<forall>l \<in> set (ci_labels it). \<not> hold_label (cd_closeReason d) l)
     \<and> isAutoCloseAllowed p (ci_kind it) (cd_closeReason d)
     \<and> closeReasonItemKindError (cd_closeReason d) (ci_kind it) = None
     \<and> (requiresMaintainerProductClose (cd_closeReason d) \<longrightarrow> cd_maintainerRequired d \<and> cd_maintainerKind d = ProductDirection)
     \<and> reason_supported (cd_closeReason d) it d
     \<and> js_trim (cd_summary d) \<noteq> [] \<and> cd_evidence d \<noteq> []
     \<and> (rc \<longrightarrow> hasUsableCloseComment (cd_closeComment d))
     \<and> (isImplementationCloseReason (cd_closeReason d) \<longrightarrow> fix_supported it d)"
proof (cases "(\<forall>l \<in> set (ci_labels it). \<not> hold_label (cd_closeReason d) l) \<and> cd_securityConcerns d = []
    \<and> closeReasonItemKindError (cd_closeReason d) (ci_kind it) = None
    \<and> (requiresMaintainerProductClose (cd_closeReason d) \<longrightarrow> cd_maintainerRequired d \<and> cd_maintainerKind d = ProductDirection)")
  case False
  then show ?thesis
    by (simp only: close_checks_def outcome_checks_def reason_checks_def evidence_checks_def append.simps Let_def first_refusal_if first_refusal_with first_refusal.simps(1) blocking_labels) argo
next
  case True
  then have supported: "reason_supported (cd_closeReason d) it d \<longleftrightarrow> own_checks it d"
    by (intro own_checks_supported[symmetric]) simp_all
  show ?thesis
    unfolding supported own_checks_def fix_none[of d it, symmetric]
    using True by (simp only: close_checks_def outcome_checks_def reason_checks_def evidence_checks_def append.simps Let_def first_refusal_if first_refusal_with first_refusal.simps(1) blocking_labels can_close) argo
qed

lemma checks_permitted: "first_refusal (close_checks p it d rc) = CloseValid \<longleftrightarrow> close_permitted p it d rc"
  unfolding checks_split kind_error_none close_permitted_def by argo

subsection \<open>Theorems\<close>

text \<open>
  C22. A decision passes \<open>validateCloseDecision\<close> exactly when it is permitted: it is a confident decision
  to close with clean security review, no label holds the item, the repository allows the reason for
  that kind of item, the product decision, the reason's own evidence, the texts and, for a fix on
  main, the verified fix are there.
\<close>

theorem validate_close_iff_permitted:
  "validateCloseDecision regex_test c it d requireCloseComment (Some p) = Some CloseValid
   \<longleftrightarrow> close_permitted p it d requireCloseComment"
  by (simp add: validateCloseDecision_def checks_permitted)

subsubsection \<open>Labels\<close>

lemma permitted_fewer_labels:
  assumes "set (ci_labels it) \<subseteq> set extra" "close_permitted p (it\<lparr>ci_labels := extra\<rparr>) d rc"
  shows "close_permitted p it d rc"
proof -
  have outside: "outside_pull (it\<lparr>ci_labels := extra\<rparr>) \<Longrightarrow> outside_pull it" using assms(1) by (auto simp: outside_pull_def)
  have "reason_supported r (it\<lparr>ci_labels := extra\<rparr>) d \<Longrightarrow> reason_supported r it d" for r
    using assms(1) outside by (cases r) auto
  moreover have "fix_supported (it\<lparr>ci_labels := extra\<rparr>) d = fix_supported it d"
    by (simp add: fix_supported_def verified_fix_def)
  ultimately show ?thesis using assms unfolding close_permitted_def by auto
qed

text \<open>
  C29. Labels can only take a close away: what is valid for an item with more labels is valid for the
  item with fewer.
\<close>

theorem labels_only_block:
  assumes "set (ci_labels it) \<subseteq> set extra"
    and "validateCloseDecision regex_test c (it\<lparr>ci_labels := extra\<rparr>) d requireCloseComment (Some p) = Some CloseValid"
  shows "validateCloseDecision regex_test c it d requireCloseComment (Some p) = Some CloseValid"
  using assms permitted_fewer_labels[of it extra p d requireCloseComment] by (simp add: validateCloseDecision_def checks_permitted)

subsubsection \<open>Local reviews\<close>

lemma local_profile_rules: "localRepositoryProfileFor regex_test c repo = Some p \<Longrightarrow> rp_applyCloseRules p = no_close_rules"
  by (auto simp: localRepositoryProfileFor_def split: option.splits)

text \<open>The profile of a local review closes nothing, whatever the repository's own rules are.\<close>

theorem local_review_never_closes:
  assumes "localRepositoryProfileFor regex_test c repo = Some p"
  shows "validateCloseDecision regex_test c it d requireCloseComment (Some p) \<noteq> Some CloseValid"
proof -
  have "\<not> isAutoCloseAllowed p k r" for k r
    using local_profile_rules[OF assms] by (cases k) (simp_all add: isAutoCloseAllowed_def no_close_rules_def)
  then show ?thesis by (simp add: validateCloseDecision_def checks_permitted close_permitted_def)
qed

subsubsection \<open>Oversized pull requests\<close>

lemma trim_first:
  assumes "\<not> is_js_space c"
  shows "\<exists>t. js_trim (c # s) = c # t"
proof (cases "\<forall>x \<in> set (rev s). is_js_space x")
  case True
  with assms show ?thesis by (simp add: js_trim_def dropWhile_append)
next
  case False
  with assms have "js_trim (c # s) = c # rev (dropWhile is_js_space (rev s))" by (auto simp: js_trim_def dropWhile_append)
  then show ?thesis by blast
qed

lemma trim_start: "s \<noteq> [] \<Longrightarrow> \<not> is_js_space (hd s) \<Longrightarrow> \<exists>t. js_trim s = hd s # t"
  using trim_first by (cases s) auto

lemma count_value_iff: "count_value v = Some n \<longleftrightarrow> v = Some (JNum n) \<and> safe_integer n \<and> 0 \<le> n"
  by (auto simp: count_value_def split: option.splits json.splits)

lemma evaluated_fields:
  assumes "evaluateOversizedPullRequest a dl ch labels head thr = Some sz"
  shows "count_value (Some (JNum (ov_additions sz))) = Some (ov_additions sz)"
    "count_value (Some (JNum (ov_deletions sz))) = Some (ov_deletions sz)"
    "count_value (Some (JNum (ov_changedFiles sz))) = Some (ov_changedFiles sz)"
    "safe_integer (ov_additions sz + ov_deletions sz)" "safe_integer (ov_threshold sz)" "0 < ov_threshold sz"
    "hex_of_length 40 (ov_head sz)" "to_lower (ov_head sz) = ov_head sz" "ov_threshold sz < ov_additions sz + ov_deletions sz"
  using assms unfolding evaluateOversizedPullRequest_def Let_def
  by (auto simp: count_value_iff split: if_split_asm option.splits)

lemma evaluated_evidence:
  assumes "evaluateOversizedPullRequest a dl ch labels head thr = Some sz"
  shows "evaluateOversizedPullRequest (Some (JNum (ov_additions sz))) (Some (JNum (ov_deletions sz))) (Some (JNum (ov_changedFiles sz)))
      None (Some (JStr (ov_head sz))) (ov_threshold sz) = Some sz"
  using evaluated_fields[OF assms] by (simp add: evaluateOversizedPullRequest_def)

lemma oversized_evidence_roundtrip:
  assumes "evaluateOversizedPullRequest a dl ch labels head thr = Some sz"
  shows "parseOversizedPullRequestEvidence (Some (oversized_evidence_json sz)) = Some sz"
  using evaluated_evidence[OF assms] evaluated_fields(5,6)[OF assms]
  by (simp add: parseOversizedPullRequestEvidence_def oversized_evidence_json_def objectValue_def)

lemma label_name:
  "(case j of JStr s \<Rightarrow> Some s | _ \<Rightarrow> string_value (map_of (objectValue (Some j)) ''name'')) = Some l \<Longrightarrow> label_string j = l"
  by (cases j) (auto simp: label_string_def objectValue_def string_value_def split: option.splits json.splits)

lemma label_name_string:
  assumes "l \<in> set (labelNames (Some (JArr xs)))"
  shows "\<exists>j \<in> set xs. label_string j = l"
proof -
  from assms obtain j where "j \<in> set xs"
      "(case j of JStr s \<Rightarrow> Some s | _ \<Rightarrow> string_value (map_of (objectValue (Some j)) ''name'')) = Some l"
    unfolding labelNames_def map_filter_def by auto
  with label_name show ?thesis by blast
qed

lemma admission_evaluates:
  assumes "oversizedPullRequestAdmission pull thr = Some sz"
  shows "evaluateOversizedPullRequest (map_of pull ''additions'') (map_of pull ''deletions'') (map_of pull ''changed_files'')
           (map_of pull ''labels'') (map_of (objectValue (map_of pull ''head'')) ''sha'') thr = Some sz"
  using assms by (simp add: oversizedPullRequestAdmission_def split: if_splits)

lemma admission_unexempted:
  assumes "oversizedPullRequestAdmission pull thr = Some sz" "l \<in> set (labelNames (map_of pull ''labels''))"
  shows "normalizeLabelName l \<noteq> ACCEPTED_LARGE_LABEL"
proof (cases "map_of pull ''labels''")
  case None
  with assms(2) show ?thesis by (simp add: labelNames_def)
next
  case (Some v)
  show ?thesis
  proof (cases v)
    case (JArr xs)
    with assms(2) Some obtain j where "j \<in> set xs" "label_string j = l" using label_name_string by auto
    with admission_evaluates[OF assms(1)] Some JArr show ?thesis
      by (auto simp: evaluateOversizedPullRequest_def list_ex_iff split: if_splits)
  qed (use assms(2) Some in \<open>simp_all add: labelNames_def\<close>)
qed

text \<open>
  C31. The decision written for a pull request that the admission found too large passes the validation
  with the labels of the same reading exactly when no protected label holds the item and the rules of the
  repository allow the reason: its evidence, confidence and comment never stand in the way.
\<close>

theorem oversized_decision_valid:
  assumes admitted: "oversizedPullRequestAdmission pull thr = Some sz"
    and kind: "ci_kind it = PullItem"
    and labels: "ci_labels it = labelNames (map_of pull ''labels'')"
  shows "validateCloseDecision regex_test c it (oversizedPullRequestDecision sz) True (Some p) = Some CloseValid
    \<longleftrightarrow> applyBlockingProtectedLabels (ci_labels it) OversizedPullRequestReason = []
        \<and> isAutoCloseAllowed p PullItem OversizedPullRequestReason"
proof -
  let ?d = "oversizedPullRequestDecision sz"
  have "reason_supported OversizedPullRequestReason it ?d"
    using oversized_evidence_roundtrip[OF admission_evaluates[OF admitted]] admission_unexempted[OF admitted] labels
    by (simp add: oversizedPullRequestDecision_def)
  moreover have "js_trim (cd_summary ?d) \<noteq> []"
    using trim_start[of "cd_summary ?d"] by (auto simp: oversizedPullRequestDecision_def is_js_space_def)
  moreover have "hasUsableCloseComment (cd_closeComment ?d)"
    using trim_start[of "cd_closeComment ?d"]
    by (auto simp: oversizedPullRequestDecision_def oversizedPullRequestComment_def hasUsableCloseComment_def is_js_space_def)
  ultimately show ?thesis
    using kind unfolding validateCloseDecision_def blocking_labels
    by (auto simp: checks_permitted close_permitted_def oversizedPullRequestDecision_def
        pull_reasons_def issue_reasons_def requiresMaintainerProductClose_def isImplementationCloseReason_def)
qed

text \<open>
  Before the close the pull request is read again: the close stands exactly when the policy is on,
  the labels are there and hold nothing, and the reading gives the size, limit and head that the
  decision carries.
\<close>

theorem oversized_close_stands_iff_unchanged:
  assumes "oversizedPullRequestAdmission pull thr = Some sz"
  shows "oversizedPullRequestLiveBlockReason enabled limit
           (parseOversizedPullRequestEvidence (cd_oversizedPullRequest (oversizedPullRequestDecision sz))) live = None
    \<longleftrightarrow> enabled \<and> (\<exists>xs. map_of live ''labels'' = Some (JArr xs))
      \<and> applyBlockingProtectedLabels (labelNames (map_of live ''labels'')) OversizedPullRequestReason = []
      \<and> oversizedPullRequestAdmission live limit = Some sz"
  using oversized_evidence_roundtrip[OF admission_evaluates[OF assms]]
  by (auto simp: oversizedPullRequestLiveBlockReason_def oversizedPullRequestDecision_def split: option.splits json.splits)

subsection \<open>Witnesses\<close>

definition sample_config :: target_config where
  "sample_config = \<lparr>tc_repositories = [], tc_genericFallbacks = []\<rparr>"

definition sample_item :: close_item where
  "sample_item = \<lparr>ci_repo = ''openclaw/openclaw'', ci_number = Some 7, ci_kind = PullItem, ci_labels = [''bug''],
     ci_authorAssociation = Some ''NONE''\<rparr>"

definition sample_pull :: "(string \<times> json) list" where
  "sample_pull = [(''state'', JStr ''open''), (''additions'', JNum 60000), (''deletions'', JNum 10), (''changed_files'', JNum 3),
     (''labels'', JArr [JObj [(''name'', JStr ''bug'')]]),
     (''head'', JObj [(''sha'', JStr (replicate 40 (CHR ''a'')))])]"

definition sample_evidence :: oversized_evidence where
  "sample_evidence = \<lparr>ov_additions = 60000, ov_deletions = 10, ov_changedFiles = 3, ov_threshold = 50000,
     ov_head = replicate 40 (CHR ''a'')\<rparr>"

definition sample_close :: close_decision where
  "sample_close = (oversizedPullRequestDecision sample_evidence)\<lparr>cd_closeReason := CannotReproduce, cd_summary := ''x''\<rparr>"

lemma oversized_admitted: "oversizedPullRequestAdmission sample_pull DEFAULT_MAX_PR_CHANGED_LINES = Some sample_evidence"
  by code_simp

lemma sample_unheld: "applyBlockingProtectedLabels [''bug''] OversizedPullRequestReason = []"
  by code_simp

lemma sample_labels: "labelNames (map_of sample_pull ''labels'') = [''bug'']"
  by code_simp

lemma sample_allowed: "isAutoCloseAllowed CORE_OPENCLAW_PROFILE PullItem OversizedPullRequestReason"
  by code_simp

lemma sample_valid:
  "validateCloseDecision (\<lambda>_ _. False) sample_config sample_item sample_close False (Some CORE_OPENCLAW_PROFILE) = Some CloseValid"
proof -
  have "\<not> hold_label CannotReproduce ''bug''" by code_simp
  moreover have "isAutoCloseAllowed CORE_OPENCLAW_PROFILE PullItem CannotReproduce" by code_simp
  moreover have "js_trim ''x'' \<noteq> []" by code_simp
  ultimately show ?thesis
    by (simp add: validateCloseDecision_def checks_permitted close_permitted_def sample_close_def sample_item_def
        oversizedPullRequestDecision_def pull_reasons_def issue_reasons_def requiresMaintainerProductClose_def
        isImplementationCloseReason_def)
qed

lemma labels_only_block_witness:
  "validateCloseDecision (\<lambda>_ _. False) sample_config (sample_item\<lparr>ci_labels := []\<rparr>) sample_close False (Some CORE_OPENCLAW_PROFILE)
   = Some CloseValid"
proof (rule labels_only_block)
  show "set (ci_labels (sample_item\<lparr>ci_labels := []\<rparr>)) \<subseteq> set [''bug'']" by simp
  have "sample_item\<lparr>ci_labels := [], ci_labels := [''bug'']\<rparr> = sample_item" by (simp add: sample_item_def)
  with sample_valid show "validateCloseDecision (\<lambda>_ _. False) sample_config (sample_item\<lparr>ci_labels := [], ci_labels := [''bug'']\<rparr>)
      sample_close False (Some CORE_OPENCLAW_PROFILE) = Some CloseValid" by simp
qed

lemma local_review_never_closes_witness:
  "validateCloseDecision (\<lambda>_ _. False) sample_config sample_item sample_close False
     (localRepositoryProfileFor (\<lambda>_ _. False) sample_config ''OpenClaw/openclaw'') \<noteq> Some CloseValid"
proof -
  have "\<not> Option.is_none (localRepositoryProfileFor (\<lambda>_ _. False) sample_config ''OpenClaw/openclaw'')" by code_simp
  then obtain p where p: "localRepositoryProfileFor (\<lambda>_ _. False) sample_config ''OpenClaw/openclaw'' = Some p"
    by (auto simp: Option.is_none_def)
  show ?thesis unfolding p by (rule local_review_never_closes[OF p])
qed

lemma oversized_decision_valid_witness:
  "validateCloseDecision (\<lambda>_ _. False) sample_config sample_item (oversizedPullRequestDecision sample_evidence) True
     (Some CORE_OPENCLAW_PROFILE) = Some CloseValid"
  using oversized_decision_valid[OF oversized_admitted, of sample_item]
  by (simp add: sample_item_def sample_labels sample_unheld sample_allowed)

lemma oversized_close_stands_iff_unchanged_witness:
  "oversizedPullRequestLiveBlockReason True DEFAULT_MAX_PR_CHANGED_LINES
     (parseOversizedPullRequestEvidence (cd_oversizedPullRequest (oversizedPullRequestDecision sample_evidence))) sample_pull = None"
  unfolding oversized_close_stands_iff_unchanged[OF oversized_admitted] sample_labels
  using oversized_admitted sample_unheld by (simp add: sample_pull_def)

end
