(* ===== verification/Spec2Isabelle.thy ===== *)
theory Spec2Isabelle
  imports State_Writer Publication_Batches Scheduler Review_Retry Queue_Publication Queue_Capacity Queue_Admission Drift_Admission Command_Intake Lifecycle_Audit Close_Evidence Close_Validation
begin

text \<open>
  ClawSweeper: a verification library for its coordination core and its close policy.

  The program. ClawSweeper reviews the issues and pull requests of GitHub repositories with an
  external agent and may close what a review proposes to close. A Cloudflare worker
  (\<open>dashboard/\<close>) holds the coordination state in the SQLite stores of durable objects: the queue
  of exact reviews and of the publications of their results, the state-writer tickets, the publication
  batches, the direct commands and the lifecycle rows. Workflow runs (\<open>src/\<close>) claim work from
  that queue, run the review, publish its decision and apply it. Everything that decides lies in
  between: which item runs next, who holds a lease, how often a failure is retried, when a record is
  final, and whether an item may be closed.

  How the parts interact. A webhook or a command becomes a decision (\<open>Decision_Parser\<close>,
  \<open>Command_Intake\<close>) and an item of the queue (\<open>Queue_Item\<close>). An alarm takes a census and admits
  items to workers (\<open>Queue_Admission\<close>) within the token buckets (\<open>Review_Budget\<close>) and the capacity
  of publishers (\<open>Queue_Capacity\<close>). A run claims its item, keeps the lease alive and completes it
  (\<open>Lease_Protocol\<close>, \<open>Queue_Lease\<close>); a failed review is retried, parked and recovered
  (\<open>Review_Retry\<close>), a drifting one is stopped by the loop breaker (\<open>Review_Loop\<close>, \<open>Drift_Admission\<close>), and a
  publication is retried, dead-lettered or refreshed (\<open>Queue_Publication\<close>, \<open>Publication_Retry\<close>) in
  batches (\<open>Publication_Batches\<close>) whose writers take turns (\<open>State_Writer\<close>). The lifecycle rows
  (\<open>Lifecycle\<close>) record what happened to an admitted revision, and the audit inventory reads them
  (\<open>Lifecycle_Audit\<close>). On the side of the runs, the scheduler chooses what is due (\<open>Scheduler\<close>),
  and a decision to close passes the policy (\<open>Close_Policy\<close>) and the live guards (\<open>Close_Guards\<close>).
\<close>

text \<open>
  Theories and sources (paths under \<open>src/\<close>).

  Foundations: \<open>Prelude\<close> (SQL comparisons, keyed updates, the stable sort, and the interfaces
  \<open>js_comparator\<close>, \<open>invariant_machine\<close> and \<open>fenced_store\<close> that the components interpret),
  \<open>Js_Text\<close>, \<open>Js_Number\<close> (JavaScript strings and \<open>Number\<close>), \<open>Iso_Time\<close> (\<open>src/iso-time.ts\<close>),
  \<open>Stable_Json\<close> (\<open>src/stable-json.ts\<close>, \<open>dashboard/exact-review-failure-telemetry.ts\<close>).

  Stores: \<open>State_Writer\<close> (\<open>dashboard/state-writer-coordinator.ts\<close>), \<open>Publication_Batches\<close>
  (\<open>dashboard/exact-review-publication-batches.ts\<close>), \<open>Review_Loop\<close>
  (\<open>dashboard/exact-review-review-loop.ts\<close>), \<open>Command_Intake\<close>
  (\<open>dashboard/exact-review-command-intake.ts\<close>, \<open>src/repair/direct-re-review-admission.ts\<close>),
  \<open>Lifecycle\<close>, \<open>Lifecycle_Rows\<close> and \<open>Lifecycle_Audit\<close> (\<open>dashboard/exact-review-lifecycle.ts\<close>).

  Queue (\<open>dashboard/exact-review-queue.ts\<close>, \<open>-queue-shared.ts\<close>, \<open>-read-model.ts\<close>): \<open>Queue_Settings\<close>
  the environment, \<open>Queue_Item\<close> the items, \<open>Queue_Lease\<close> and \<open>Lease_Protocol\<close> the leases,
  \<open>Review_Retry\<close> the retry budget, \<open>Review_Budget\<close> the token buckets, \<open>Queue_Publication\<close> and
  \<open>Publication_Retry\<close> the publications, \<open>Queue_Capacity\<close> the controller, \<open>Queue_Admission\<close> the
  census, the admission and the alarm, \<open>Drift_Admission\<close> the branch of the enqueue handler that
  parks, sheds or admits a source-drift requeue. Decisions (\<open>dashboard/exact-review-decision.ts\<close>,
  \<open>src/manual-publication-policy.ts\<close>): \<open>Decision\<close>, \<open>Decision_Parser\<close>.

  Runs: \<open>Scheduler\<close> (\<open>src/scheduler-policy.ts\<close>); \<open>Close_Policy\<close> and \<open>Close_Validation\<close>
  (\<open>src/clawsweeper-close-decision.ts\<close> with the tables it reads: \<open>clawsweeper-policy.ts\<close>,
  \<open>clawsweeper-item-policy.ts\<close>, \<open>clawsweeper-oversized-pr-policy.ts\<close>, \<open>repository-profiles.ts\<close>,
  \<open>policy-flags.ts\<close>); \<open>Close_Activity\<close>, \<open>Close_Guards\<close> and \<open>Close_Evidence\<close>
  (\<open>src/clawsweeper-apply-guard-*.ts\<close>, \<open>clawsweeper-apply-close-policies.ts\<close>,
  \<open>github-content-edits.ts\<close>).

  A definition keeps the name of the function it models; a table is the list of its rows in the order
  of their keys, a method of a store is a function to a result and the new store (or an error, after
  which the transaction has rolled back), and a handler is one definition with its guards in the order
  of the code.
\<close>

text \<open>
  What the lemmas show.

  State writer: over all reachable stores at most one ticket is leased; a poll admits exactly the
  head of the fair order, every ordinary ticket is overtaken a bounded number of times, and the order
  is the abstract fair merge of the three classes. Batches: a fence that was refused once stays refused,
  completion is exact, open batches exclude each other. Queue: the lease protocol fences older
  claimants of a lease and never revives a completed one, finishing settles an item and deletes it
  only when no review is owed, the sweep of expired
  leases equals the single reclaims, failing reviews and publications end after the stated number of
  attempts and a publication is never lost, admissions respect every limit in order of arrival, leave
  no idle slot while the dispatcher is not paused and stay under the token rate, the controller stays in
  its bounds, and the alarm fires no later than any due work. Decisions: with source actions given as
  text, the parser accepts only well-formed decisions and is inverse to the stored JSON; merging keeps
  the manual policy, superseding is the order of versions against the authority that the item carries.
  Commands: receipts and rows agree, an older comment is never admitted after a newer one, and a pending
  command is due again in bounded time and taken up unless a full pass of others is ahead of it.
  Lifecycle: recorded facts are kept, a terminal operation takes effect once (unless the identifier
  reserved for cancellations is passed in from outside), an acknowledgement lease is exclusive,
  reachable rows pass the audit, and its pages are complete. Scheduler and loop breaker: the selection
  has the exact size, the breaker parks a requeue exactly when its limit of admissions is spent, a
  runaway is reported. Close policy: the ordered checks accept exactly the declared permission, labels
  only block, an oversized decision passes its own validation exactly when the labels and the
  repository allow it, failing reads only keep items open, an inactive close has met no person, and an
  obsolete fix has its evidence on the default branch.

  The proofs go through the reachable stores of an \<open>invariant_machine\<close> (rule induction over the
  operations of the component), through refinement of a loop to a closed form (fair order, census,
  selection, touched paths), or through the equations of a single operation, collected with the named
  theorems of each theory.
\<close>

text \<open>
  Bounds. Nothing is cut off by fuel except what the code itself limits: the 100 pages of an edit
  history are the 100 iterations of its loop. The weighted passes of the scheduler and the drain of a
  bucket terminate by the length of what is left. Machine arithmetic is kept where it can be seen: the
  jitter and fingerprint hashes are on 32- and 64-bit words, counters that the code tests with
  \<open>Number.isSafeInteger\<close> carry that test.

  Abstractions. The clock, random identifiers and random samples are arguments (\<open>Math.random\<close> as
  \<open>k / 2^53\<close>); token balances are rationals without rounding; JSON numbers are integers; strings are
  of 8-bit characters, labels with an emoji in UTF-8; \<open>Date.parse\<close> is modelled for the two shapes with
  a four-digit year and \<open>Z\<close>, and any other text is no date; \<open>localeCompare\<close> is an argument
  (\<open>collate\<close>), and the regular expressions of the repository configuration are predicates; stored
  rows are kept as the typed values that were written, so the tolerance of readers for rows of
  older versions does not show; an infinite capacity is \<open>None\<close>, as is a stored control that is no
  integer; \<open>/complete\<close> is modelled for reviews without publication fields; alarms are modelled by the
  time they are set to, not as events. The answers of GitHub are functions from requests to a value or
  an error: within one check a guard sees one answer per request, as its cache gives it. Of the
  large record types of a review only the fields that the modelled code reads are kept.

  Not modelled. Routing, authentication and metrics of the worker, the direct publication of single
  reviews (planning of GitHub mutations), the action ledger (event files with redaction patterns),
  the workflows that apply and review (the order of GitHub and git calls around the modelled policies),
  the markdown of reports and comments, prompts and the agent process, the repair command line, the
  dashboard pages and the operator scripts: input and output around the decisions above, without state
  machines of their own that could be stated apart from the systems they call.
\<close>

end
